(* ===== verification/Prelude.thy ===== *)
theory Prelude
  imports Main "HOL-Library.AList" "HOL-Library.Multiset"
begin

text \<open>
  Names and lemmas that every component uses: the types of identifiers and of
  instants, Python's string and dictionary operations on lists, and the
  collections of rewrite rules the component theories fill.

  A Python dictionary keeps the order of first insertion; it is an association
  list whose keys are distinct, written with \<^const>\<open>AList.update\<close> (which keeps
  the position of an existing key) and read with \<^const>\<open>map_of\<close>.
\<close>

type_synonym uuid = nat
type_synonym datetime = int

named_theorems table_simps \<open>reading a table after it was written\<close>
named_theorems entity_simps \<open>fields of an entity after one of its operations\<close>

section \<open>Python strings\<close>

text \<open>A character of the model is a code point below 256. \<open>str.lower\<close> changes the ASCII capitals and those
  from 192 to 222, without the multiplication sign 215.\<close>

definition char_lower :: "char \<Rightarrow> char" where
  "char_lower c =
     (let n = (of_char c :: nat)
      in if (65 \<le> n \<and> n \<le> 90) \<or> (192 \<le> n \<and> n \<le> 222 \<and> n \<noteq> 215) then char_of (n + 32) else c)"

definition str_lower :: "string \<Rightarrow> string" where
  "str_lower s = map char_lower s"

text \<open>\<open>str.upper\<close> is only applied to names of constants and of events, which are ASCII.\<close>

definition char_upper :: "char \<Rightarrow> char" where
  "char_upper c = (if 97 \<le> (of_char c :: nat) \<and> (of_char c :: nat) \<le> 122
                   then char_of ((of_char c :: nat) - 32) else c)"

definition str_upper :: "string \<Rightarrow> string" where
  "str_upper s = map char_upper s"

text \<open>\<open>s.split(sep)\<close> for a separator of one character: never empty.\<close>

fun str_split :: "char \<Rightarrow> string \<Rightarrow> string list" where
  "str_split sep [] = [[]]"
| "str_split sep (c # cs) =
     (if c = sep then [] # str_split sep cs
      else (case str_split sep cs of [] \<Rightarrow> [[c]] | p # ps \<Rightarrow> (c # p) # ps))"

fun str_join :: "string \<Rightarrow> string list \<Rightarrow> string" where
  "str_join sep [] = []"
| "str_join sep [x] = x"
| "str_join sep (x # y # ys) = x @ sep @ str_join sep (y # ys)"

text \<open>\<open>s.rstrip(chars)\<close>.\<close>

definition str_rstrip :: "char list \<Rightarrow> string \<Rightarrow> string" where
  "str_rstrip chars s = rev (dropWhile (\<lambda>c. c \<in> set chars) (rev s))"

definition str_startswith :: "string \<Rightarrow> string \<Rightarrow> bool" where
  "str_startswith s p = (take (length p) s = p)"

definition str_endswith :: "string \<Rightarrow> string \<Rightarrow> bool" where
  "str_endswith s p = (length p \<le> length s \<and> drop (length s - length p) s = p)"

text \<open>The decimal digits of a natural number, and \<open>str(uuid)\<close>: 32
  hexadecimal digits in groups of 8, 4, 4, 4 and 12.\<close>

definition digit_char :: "nat \<Rightarrow> char" where
  "digit_char n = (if n < 10 then char_of (48 + n) else char_of (87 + n))"

fun nat_str :: "nat \<Rightarrow> string" where
  "nat_str n = (if n < 10 then [digit_char n] else nat_str (n div 10) @ [digit_char (n mod 10)])"

declare nat_str.simps [simp del]

definition int_str :: "int \<Rightarrow> string" where
  "int_str i = (if i < 0 then CHR ''-'' # nat_str (nat (- i)) else nat_str (nat i))"

fun hex_digits :: "nat \<Rightarrow> nat \<Rightarrow> string" where
  "hex_digits 0 n = []"
| "hex_digits (Suc w) n = hex_digits w (n div 16) @ [digit_char (n mod 16)]"

definition uuid_str :: "uuid \<Rightarrow> string" where
  "uuid_str u = (let h = hex_digits 32 u in
     str_join ''-'' [take 8 h, take 4 (drop 8 h), take 4 (drop 12 h), take 4 (drop 16 h), drop 20 h])"

text \<open>\<open>int(text, 16)\<close> on hexadecimal digits.\<close>

definition hex_value :: "char \<Rightarrow> nat option" where
  "hex_value c = (let n = of_char c in
     if 48 \<le> n \<and> n \<le> 57 then Some (n - 48)
     else if 97 \<le> n \<and> n \<le> 102 then Some (n - 87)
     else if 65 \<le> n \<and> n \<le> 70 then Some (n - 55)
     else None)"

fun hex_from :: "nat \<Rightarrow> string \<Rightarrow> nat option" where
  "hex_from n [] = Some n"
| "hex_from n (c # cs) = (case hex_value c of None \<Rightarrow> None | Some d \<Rightarrow> hex_from (16 * n + d) cs)"

lemma hex_value_digit: "d < 16 \<Longrightarrow> hex_value (digit_char d) = Some d"
  by (auto simp: hex_value_def digit_char_def Let_def)

lemma hex_from_append:
  "hex_from n (xs @ ys) = (case hex_from n xs of None \<Rightarrow> None | Some m \<Rightarrow> hex_from m ys)"
  by (induction xs arbitrary: n) (auto split: option.splits)

lemma hex_from_digits: "hex_from a (hex_digits w n) = Some (a * 16 ^ w + n mod 16 ^ w)"
proof (induction w arbitrary: n)
  case (Suc w)
  have "n mod (16 * 16 ^ w) = 16 * (n div 16 mod 16 ^ w) + n mod 16"
    by (rule mod_mult2_eq)
  then show ?case
    using Suc by (simp add: hex_from_append hex_value_digit algebra_simps)
qed simp

lemma length_hex_digits [simp]: "length (hex_digits w n) = w"
  by (induction w arbitrary: n) auto

lemma str_split_not_Nil [simp]: "str_split sep s \<noteq> []"
  by (induction s) (auto split: list.splits)

lemma str_split_no_sep:
  "sep \<notin> set s \<Longrightarrow> str_split sep s = [s]"
  by (induction s) auto

lemma str_split_append:
  "sep \<notin> set s \<Longrightarrow> str_split sep (s @ sep # t) = s # str_split sep t"
  by (induction s) (auto split: list.splits)

lemma str_split_parts: "p \<in> set (str_split sep s) \<Longrightarrow> sep \<notin> set p"
  by (induction s arbitrary: p) (auto split: list.splits if_splits)

lemma str_join_Cons:
  "xs \<noteq> [] \<Longrightarrow> str_join sep (x # xs) = x @ sep @ str_join sep xs"
  by (cases xs) auto

lemma str_join_split: "str_join [sep] (str_split sep s) = s"
proof (induction s)
  case (Cons c cs)
  obtain p ps where s: "str_split sep cs = p # ps"
    by (cases "str_split sep cs") auto
  show ?case
    using Cons s by (cases ps) (auto simp: str_join_Cons)
qed auto

lemma char_lower_idem [simp]: "char_lower (char_lower c) = char_lower c"
  by (auto simp: char_lower_def Let_def)

lemma str_lower_idem [simp]: "str_lower (str_lower s) = str_lower s"
  by (simp add: str_lower_def)

lemma find_append:
  "find P (xs @ ys) = (case find P xs of Some x \<Rightarrow> Some x | None \<Rightarrow> find P ys)"
  by (induction xs) auto

lemma find_filter_conj: "find P (filter Q xs) = find (\<lambda>x. Q x \<and> P x) xs"
  by (induction xs) auto

lemma find_SomeD: "find P xs = Some x \<Longrightarrow> x \<in> set xs \<and> P x"
  by (induction xs) (auto split: if_splits)

lemma find_None_image: "find (\<lambda>x. f x = k) xs = None \<longleftrightarrow> k \<notin> f ` set xs"
  by (auto simp: find_None_iff)

lemma find_distinct:
  "distinct (map f xs) \<Longrightarrow> x \<in> set xs \<Longrightarrow> find (\<lambda>y. f y = f x) xs = Some x"
  by (induction xs) auto

section \<open>Dictionaries\<close>

definition dict_set :: "'k \<Rightarrow> 'v \<Rightarrow> ('k \<times> 'v) list \<Rightarrow> ('k \<times> 'v) list" where
  "dict_set k v d = AList.update k v d"

text \<open>\<open>{key(x): x for x in xs}\<close>.\<close>

definition dict_by :: "('a \<Rightarrow> 'k) \<Rightarrow> 'a list \<Rightarrow> ('k \<times> 'a) list" where
  "dict_by key xs = foldl (\<lambda>d x. dict_set (key x) x d) [] xs"

text \<open>\<open>d.setdefault(key(x), []).append(x)\<close> for every \<open>x\<close>: the groups in the
  order their keys first appear.\<close>

definition group_add :: "('a \<Rightarrow> 'k) \<Rightarrow> ('k \<times> 'a list) list \<Rightarrow> 'a \<Rightarrow> ('k \<times> 'a list) list" where
  "group_add key d x =
     dict_set (key x) ((case map_of d (key x) of None \<Rightarrow> [] | Some xs \<Rightarrow> xs) @ [x]) d"

definition group_by :: "('a \<Rightarrow> 'k) \<Rightarrow> 'a list \<Rightarrow> ('k \<times> 'a list) list" where
  "group_by key xs = foldl (group_add key) [] xs"

lemma map_of_dict_set [simp]: "map_of (dict_set k v d) k' = (if k' = k then Some v else map_of d k')"
  by (simp add: dict_set_def update_conv)

lemma keys_dict_set [simp]: "fst ` set (dict_set k v d) = insert k (fst ` set d)"
  by (simp add: dict_set_def dom_update)

lemma distinct_dict_set [simp]:
  "distinct (map fst d) \<Longrightarrow> distinct (map fst (dict_set k v d))"
  by (simp add: dict_set_def distinct_update)

lemma dict_set_fresh:
  "k \<notin> fst ` set d \<Longrightarrow> dict_set k v d = d @ [(k, v)]"
  by (induction d) (auto simp: dict_set_def)

lemma set_dict_set_subset: "set (dict_set k v d) \<subseteq> insert (k, v) (set d)"
  by (induction d) (auto simp: dict_set_def)

lemma foldl_dict_map_of:
  "distinct (map key xs) \<Longrightarrow>
   map_of (foldl (\<lambda>d x. dict_set (key x) x d) d0 xs) k =
     (case find (\<lambda>x. key x = k) xs of Some x \<Rightarrow> Some x | None \<Rightarrow> map_of d0 k)"
proof (induction xs arbitrary: d0)
  case (Cons x xs)
  have "find (\<lambda>x. key x = k) xs = None" if "k = key x"
    using Cons.prems that by (auto simp: find_None_iff) (metis imageI)
  then show ?case
    using Cons by (auto split: option.splits)
qed simp

lemma map_of_dict_by:
  "distinct (map key xs) \<Longrightarrow> map_of (dict_by key xs) k = find (\<lambda>x. key x = k) xs"
  by (simp add: dict_by_def foldl_dict_map_of split: option.splits)

lemma foldl_dict_fresh:
  "distinct (map key xs) \<Longrightarrow> (\<forall>x \<in> set xs. key x \<notin> fst ` set d0) \<Longrightarrow>
   foldl (\<lambda>d x. dict_set (key x) x d) d0 xs = d0 @ map (\<lambda>x. (key x, x)) xs"
proof (induction xs arbitrary: d0)
  case (Cons x xs)
  have "\<forall>y \<in> set xs. key y \<notin> fst ` set (d0 @ [(key x, x)])"
    using Cons.prems by (auto simp: image_iff)
  then show ?case
    using Cons.IH[of "d0 @ [(key x, x)]"] Cons.prems by (simp add: dict_set_fresh)
qed simp

lemma dict_by_distinct:
  "distinct (map key xs) \<Longrightarrow> dict_by key xs = map (\<lambda>x. (key x, x)) xs"
  by (simp add: dict_by_def foldl_dict_fresh)

lemma foldl_dict_distinct:
  "distinct (map fst d0) \<Longrightarrow>
   distinct (map fst (foldl (\<lambda>d x. dict_set (key x) x d) d0 xs))"
  by (induction xs arbitrary: d0) auto

lemma dict_by_keys_distinct: "distinct (map fst (dict_by key xs))"
  by (simp add: dict_by_def foldl_dict_distinct)

lemma foldl_dict_sub:
  "set (foldl (\<lambda>d x. dict_set (key x) x d) d0 xs) \<subseteq> set d0 \<union> (\<lambda>x. (key x, x)) ` set xs"
proof (induction xs arbitrary: d0)
  case (Cons x xs)
  show ?case
    using Cons[of "dict_set (key x) x d0"] set_dict_set_subset[of "key x" x d0] by auto
qed simp

lemma dict_by_elem:
  "(k, x) \<in> set (dict_by key xs) \<Longrightarrow> x \<in> set xs \<and> key x = k"
  using foldl_dict_sub[of key "[]" xs] by (auto simp: dict_by_def)

lemma map_of_group_add [simp]:
  "map_of (group_add key d x) k =
     (if k = key x then Some ((case map_of d k of None \<Rightarrow> [] | Some xs \<Rightarrow> xs) @ [x]) else map_of d k)"
  by (simp add: group_add_def)

lemma map_of_group_foldl:
  "map_of (foldl (group_add key) d xs) k =
     (if filter (\<lambda>x. key x = k) xs = [] then map_of d k
      else Some ((case map_of d k of None \<Rightarrow> [] | Some ys \<Rightarrow> ys) @ filter (\<lambda>x. key x = k) xs))"
  by (induction xs arbitrary: d) (auto split: option.splits)

lemma group_by_lookup:
  "map_of (group_by key xs) k =
     (if filter (\<lambda>x. key x = k) xs = [] then None else Some (filter (\<lambda>x. key x = k) xs))"
  by (simp add: group_by_def map_of_group_foldl)

lemma group_by_keys_distinct: "distinct (map fst (group_by key xs))"
proof -
  have "distinct (map fst d) \<Longrightarrow> distinct (map fst (foldl (group_add key) d xs))" for d
    by (induction xs arbitrary: d) (auto simp: group_add_def)
  then show ?thesis by (simp add: group_by_def)
qed

lemma group_by_elem:
  "(k, g) \<in> set (group_by key xs) \<longleftrightarrow> g = filter (\<lambda>x. key x = k) xs \<and> g \<noteq> []"
proof
  assume "(k, g) \<in> set (group_by key xs)"
  then have "map_of (group_by key xs) k = Some g"
    by (simp add: group_by_keys_distinct)
  then show "g = filter (\<lambda>x. key x = k) xs \<and> g \<noteq> []"
    by (simp add: group_by_lookup split: if_splits)
next
  assume g: "g = filter (\<lambda>x. key x = k) xs \<and> g \<noteq> []"
  from g have "filter (\<lambda>x. key x = k) xs \<noteq> []" by blast
  with g have "map_of (group_by key xs) k = Some g"
    by (simp add: group_by_lookup)
  then show "(k, g) \<in> set (group_by key xs)"
    by (rule map_of_SomeD)
qed

lemma group_by_keys: "fst ` set (group_by key xs) = key ` set xs"
proof (rule set_eqI)
  fix k
  have "k \<in> fst ` set (group_by key xs) \<longleftrightarrow> map_of (group_by key xs) k \<noteq> None"
    by (simp add: map_of_eq_None_iff)
  also have "\<dots> \<longleftrightarrow> k \<in> key ` set xs"
    by (auto simp: group_by_lookup filter_empty_conv)
  finally show "k \<in> fst ` set (group_by key xs) \<longleftrightarrow> k \<in> key ` set xs" .
qed

lemma group_by_total:
  fixes xs :: "'a list" and key :: "'a \<Rightarrow> 'k"
  shows "sum_list (map (\<lambda>(k, g). length g) (group_by key xs)) = length xs"
proof -
  have set_len: "sum_list (map (\<lambda>(k, g). length g) (dict_set k v d)) +
        length (case map_of d k of None \<Rightarrow> [] | Some ys \<Rightarrow> ys) =
      sum_list (map (\<lambda>(k, g). length g) d) + length v" for k v and d :: "('k \<times> 'a list) list"
    by (induction d) (auto simp: dict_set_def split: option.splits)
  have step: "sum_list (map (\<lambda>(k, g). length g) (group_add key d x)) =
      Suc (sum_list (map (\<lambda>(k, g). length g) d))" for d x
    using set_len[of "key x" "(case map_of d (key x) of None \<Rightarrow> [] | Some ys \<Rightarrow> ys) @ [x]" d]
    by (simp add: group_add_def)
  have "sum_list (map (\<lambda>(k, g). length g) (foldl (group_add key) d xs)) =
      sum_list (map (\<lambda>(k, g). length g) d) + length xs" for d
    by (induction xs arbitrary: d) (auto simp: step)
  from this[of "[]"] show ?thesis
    by (simp add: group_by_def)
qed

text \<open>The groups together are the elements, each once.\<close>

lemma group_by_mset:
  fixes xs :: "'a list" and key :: "'a \<Rightarrow> 'k"
  shows "mset (concat (map snd (group_by key xs))) = mset xs"
proof -
  have set_mset: "mset (concat (map snd (dict_set k v d))) +
        mset (case map_of d k of None \<Rightarrow> [] | Some ys \<Rightarrow> ys) =
      mset (concat (map snd d)) + mset v" for k v and d :: "('k \<times> 'a list) list"
    by (induction d) (auto simp: dict_set_def split: option.splits)
  have step: "mset (concat (map snd (group_add key d x))) = add_mset x (mset (concat (map snd d)))" for d x
    using set_mset[of "key x" "(case map_of d (key x) of None \<Rightarrow> [] | Some ys \<Rightarrow> ys) @ [x]" d]
    by (simp add: group_add_def)
  have "mset (concat (map snd (foldl (group_add key) d xs))) = mset (concat (map snd d)) + mset xs" for d
    by (induction xs arbitrary: d) (simp_all add: step)
  from this[of "[]"] show ?thesis
    by (simp add: group_by_def)
qed

section \<open>Python slices and lists\<close>

text \<open>\<open>xs[:n]\<close> for an \<open>int\<close> bound: a negative bound counts from the end.\<close>

definition slice_to :: "int \<Rightarrow> 'a list \<Rightarrow> 'a list" where
  "slice_to n xs = (if 0 \<le> n then take (nat n) xs else take (length xs - nat (- n)) xs)"

lemma length_slice_to_le: "0 \<le> n \<Longrightarrow> int (length (slice_to n xs)) \<le> n"
  by (simp add: slice_to_def)

lemma length_slice_to: "length (slice_to n xs) \<le> length xs"
  by (simp add: slice_to_def)

lemma slice_to_sub: "set (slice_to n xs) \<subseteq> set xs"
  by (auto simp: slice_to_def dest: in_set_takeD)

end
