(* ===== verification/Value_Objects.thy ===== *)
theory Value_Objects
  imports Prelude "HOL-Library.Sublist"
begin

text \<open>
  The shared kernel of the domain layer: the exceptions
  (\<open>domain/shared/exceptions.py\<close>), the value objects that validate themselves
  on construction (\<open>domain/shared/value_objects.py\<close>,
  \<open>domain/discovery/value_objects.py\<close>), and the enumerations with the strings
  under which they are stored.

  A value object is a datatype with the class's name as its constructor; the
  function with the name in lower case is the validating constructor of the
  class (\<open>__post_init__\<close>), whose result is \<open>Inl\<close> of the exception or \<open>Inr\<close> of
  the object.
\<close>

section \<open>Exceptions\<close>

text \<open>The first four are the subclasses of \<open>DomainError\<close>; a
  \<open>ValidationError\<close> carries the fixed part of its message and the offending
  value. The others are Python's own.\<close>

datatype exn =
    ValidationError string string
  | InvariantViolationError string
  | EntityNotFoundError string uuid
  | FileRemediationError string
  | OSError string
  | AssertionError
  | TypeError string
  | OtherError string

fun is_domain_error :: "exn \<Rightarrow> bool" where
  "is_domain_error (ValidationError _ _) = True"
| "is_domain_error (InvariantViolationError _) = True"
| "is_domain_error (EntityNotFoundError _ _) = True"
| "is_domain_error (FileRemediationError _) = True"
| "is_domain_error _ = False"

type_synonym 'a res = "exn + 'a"

section \<open>Severities\<close>

datatype severity = CRITICAL | HIGH | MEDIUM | LOW | INFO

fun severity_rank :: "severity \<Rightarrow> nat" where
  "severity_rank INFO = 0"
| "severity_rank LOW = 1"
| "severity_rank MEDIUM = 2"
| "severity_rank HIGH = 3"
| "severity_rank CRITICAL = 4"

fun severity_value :: "severity \<Rightarrow> string" where
  "severity_value CRITICAL = ''CRITICAL''"
| "severity_value HIGH = ''HIGH''"
| "severity_value MEDIUM = ''MEDIUM''"
| "severity_value LOW = ''LOW''"
| "severity_value INFO = ''INFO''"

definition severity_of :: "string \<Rightarrow> severity res" where
  "severity_of s =
     (case map_of (map (\<lambda>v. (severity_value v, v)) [CRITICAL, HIGH, MEDIUM, LOW, INFO]) s of
        Some v \<Rightarrow> Inr v
      | None \<Rightarrow> Inl (OtherError ''ValueError''))"

lemma severity_rank_inject [simp]: "severity_rank a = severity_rank b \<longleftrightarrow> a = b"
  by (cases a; cases b) auto

lemma severity_of_value [simp]: "severity_of (severity_value v) = Inr v"
  by (cases v) (simp_all add: severity_of_def)

text \<open>Severities are ordered by \<open>rank\<close>.\<close>

instantiation severity :: linorder
begin

definition less_eq_severity :: "severity \<Rightarrow> severity \<Rightarrow> bool" where
  "less_eq_severity a b = (severity_rank a \<le> severity_rank b)"

definition less_severity :: "severity \<Rightarrow> severity \<Rightarrow> bool" where
  "less_severity a b = (severity_rank a < severity_rank b)"

instance
  by standard (auto simp: less_eq_severity_def less_severity_def)

end

text \<open>Python's \<open>max(xs, key=rank)\<close> on a non-empty list: the first element of
  greatest rank.\<close>

fun max_severity :: "severity \<Rightarrow> severity list \<Rightarrow> severity" where
  "max_severity m [] = m"
| "max_severity m (x # xs) =
     max_severity (if severity_rank x > severity_rank m then x else m) xs"

lemma max_severity_Max: "max_severity m xs = Max (insert m (set xs))"
proof (induction xs arbitrary: m)
  case (Cons x xs)
  have "(if severity_rank x > severity_rank m then x else m) = max m x"
    by (auto simp: max_def less_eq_severity_def)
  then show ?case
    using Cons by (cases "xs = []") (simp_all add: insert_commute max.left_commute max.commute)
qed simp

section \<open>Validated strings\<close>

text \<open>\<open>re.compile("^...$").match(s)\<close>: the \<open>$\<close> of Python's \<open>re\<close> also matches
  just before one trailing newline, so a text the pattern describes is
  accepted with a newline behind it.\<close>

definition re_match_line :: "(string \<Rightarrow> bool) \<Rightarrow> string \<Rightarrow> bool" where
  "re_match_line p s = (p s \<or> (s \<noteq> [] \<and> last s = CHR 0x0A \<and> p (butlast s)))"

definition is_lower_hex :: "char \<Rightarrow> bool" where
  "is_lower_hex c = (let n = (of_char c :: nat) in (48 \<le> n \<and> n \<le> 57) \<or> (97 \<le> n \<and> n \<le> 102))"

definition is_lower_alpha :: "char \<Rightarrow> bool" where
  "is_lower_alpha c = (let n = (of_char c :: nat) in 97 \<le> n \<and> n \<le> 122)"

definition is_lower_alnum :: "char \<Rightarrow> bool" where
  "is_lower_alnum c = (let n = (of_char c :: nat) in (48 \<le> n \<and> n \<le> 57) \<or> (97 \<le> n \<and> n \<le> 122))"

datatype sha256_hash = Sha256Hash (sha_value: string)

definition sha256_pattern :: "string \<Rightarrow> bool" where
  "sha256_pattern s = re_match_line (\<lambda>t. length t = 64 \<and> list_all is_lower_hex t) s"

definition sha256_hash :: "string \<Rightarrow> sha256_hash res" where
  "sha256_hash v =
     (let normalized = str_lower v in
      if \<not> sha256_pattern normalized then Inl (ValidationError ''Invalid SHA-256 hash: '' v)
      else Inr (Sha256Hash normalized))"

datatype domain_name = DomainName (domain_value: string)

text \<open>One label of \<open>_DOMAIN_PATTERN\<close>, with its look-around assertions.\<close>

definition domain_label :: "string \<Rightarrow> bool" where
  "domain_label l =
     (1 \<le> length l \<and> length l \<le> 63 \<and> list_all (\<lambda>c. is_lower_alnum c \<or> c = CHR ''-'') l \<and>
      hd l \<noteq> CHR ''-'' \<and> last l \<noteq> CHR ''-'')"

definition domain_pattern :: "string \<Rightarrow> bool" where
  "domain_pattern s = re_match_line
     (\<lambda>t. 1 \<le> length t \<and> length t \<le> 253 \<and> 2 \<le> length (str_split CHR ''.'' t) \<and>
          list_all domain_label (str_split CHR ''.'' t)) s"

definition domain_name :: "string \<Rightarrow> domain_name res" where
  "domain_name v =
     (let normalized = str_rstrip [CHR ''.''] (str_lower v) in
      if \<not> domain_pattern normalized then Inl (ValidationError ''Invalid domain name: '' v)
      else Inr (DomainName normalized))"

datatype absolute_file_path = AbsoluteFilePath (abs_value: string)

definition absolute_file_path :: "string \<Rightarrow> absolute_file_path res" where
  "absolute_file_path v =
     (if v = [] then Inl (ValidationError ''File path cannot be empty'' [])
      else if \<not> str_startswith v ''/'' then
        Inl (ValidationError ''Expected absolute path, got relative: '' v)
      else if ''..'' \<in> set (str_split CHR ''/'' v) then
        Inl (ValidationError ''Path traversal segment not allowed: '' v)
      else Inr (AbsoluteFilePath v))"

datatype relative_file_path = RelativeFilePath (rel_value: string)

definition relative_file_path :: "string \<Rightarrow> relative_file_path res" where
  "relative_file_path v =
     (if v = [] then Inl (ValidationError ''File path cannot be empty'' [])
      else if str_startswith v ''/'' then
        Inl (ValidationError ''Expected relative path, got absolute: '' v)
      else if ''..'' \<in> set (str_split CHR ''/'' v) then
        Inl (ValidationError ''Path traversal segment not allowed: '' v)
      else Inr (RelativeFilePath v))"

datatype linux_username = LinuxUsername (user_value: string)

definition username_pattern :: "string \<Rightarrow> bool" where
  "username_pattern s = re_match_line
     (\<lambda>t. t \<noteq> [] \<and> is_lower_alpha (hd t) \<and> list_all is_lower_alnum (tl t) \<and> length (tl t) \<le> 15) s"

definition linux_username :: "string \<Rightarrow> linux_username res" where
  "linux_username v =
     (if \<not> username_pattern v then Inl (ValidationError ''Invalid cPanel username: '' v)
      else Inr (LinuxUsername v))"

text \<open>The objects the constructors can return.\<close>

definition valid_sha :: "sha256_hash \<Rightarrow> bool" where
  "valid_sha h \<longleftrightarrow> (\<exists>v. sha256_hash v = Inr h)"

definition valid_domain :: "domain_name \<Rightarrow> bool" where
  "valid_domain d \<longleftrightarrow> (\<exists>v. domain_name v = Inr d)"

definition valid_abs :: "absolute_file_path \<Rightarrow> bool" where
  "valid_abs p \<longleftrightarrow> (\<exists>v. absolute_file_path v = Inr p)"

definition valid_rel :: "relative_file_path \<Rightarrow> bool" where
  "valid_rel p \<longleftrightarrow> (\<exists>v. relative_file_path v = Inr p)"

definition valid_user :: "linux_username \<Rightarrow> bool" where
  "valid_user u \<longleftrightarrow> (\<exists>v. linux_username v = Inr u)"

lemma str_rstrip_append:
  "\<exists>t. s = str_rstrip cs s @ t \<and> set t \<subseteq> set cs"
proof -
  have "s = rev (takeWhile (\<lambda>c. c \<in> set cs) (rev s) @ dropWhile (\<lambda>c. c \<in> set cs) (rev s))"
    by simp
  then have "s = str_rstrip cs s @ rev (takeWhile (\<lambda>c. c \<in> set cs) (rev s))"
    unfolding str_rstrip_def rev_append .
  moreover have "set (rev (takeWhile (\<lambda>c. c \<in> set cs) (rev s))) \<subseteq> set cs"
    by (auto dest: set_takeWhileD)
  ultimately show ?thesis by blast
qed

lemma dropWhile_idem: "dropWhile P (dropWhile P xs) = dropWhile P xs"
  by (induction xs) auto

lemma str_rstrip_idem [simp]: "str_rstrip cs (str_rstrip cs s) = str_rstrip cs s"
  by (simp add: str_rstrip_def dropWhile_idem)

lemma str_lower_rstrip_lower [simp]:
  "str_lower (str_rstrip cs (str_lower s)) = str_rstrip cs (str_lower s)"
proof -
  obtain t where "str_lower s = str_rstrip cs (str_lower s) @ t"
    using str_rstrip_append by metis
  then have "set (str_rstrip cs (str_lower s)) \<subseteq> char_lower ` set s"
    by (metis Un_upper1 set_append set_map str_lower_def)
  then show ?thesis
    unfolding str_lower_def [of "str_rstrip cs (str_lower s)"] by (auto intro!: map_idI)
qed

text \<open>Validating a validated value again changes nothing: what a repository
  does when it reads a stored value back.\<close>

lemma sha_revalidate: "valid_sha h \<Longrightarrow> sha256_hash (sha_value h) = Inr h"
  by (auto simp: valid_sha_def sha256_hash_def Let_def split: if_splits)

lemma domain_revalidate: "valid_domain d \<Longrightarrow> domain_name (domain_value d) = Inr d"
  by (auto simp: valid_domain_def domain_name_def Let_def split: if_splits)

lemma abs_revalidate: "valid_abs p \<Longrightarrow> absolute_file_path (abs_value p) = Inr p"
  by (auto simp: valid_abs_def absolute_file_path_def split: if_splits)

lemma rel_revalidate: "valid_rel p \<Longrightarrow> relative_file_path (rel_value p) = Inr p"
  by (auto simp: valid_rel_def relative_file_path_def split: if_splits)

lemma user_revalidate: "valid_user u \<Longrightarrow> linux_username (user_value u) = Inr u"
  by (auto simp: valid_user_def linux_username_def split: if_splits)

lemmas revalidate = sha_revalidate domain_revalidate abs_revalidate rel_revalidate user_revalidate

lemma valid_relI: "relative_file_path v = Inr p \<Longrightarrow> valid_rel p"
  by (auto simp: valid_rel_def)

lemma relative_file_path_iff:
  "relative_file_path v = Inr p \<longleftrightarrow>
     p = RelativeFilePath v \<and> v \<noteq> [] \<and> \<not> str_startswith v ''/'' \<and>
     ''..'' \<notin> set (str_split CHR ''/'' v)"
  by (auto simp: relative_file_path_def)

section \<open>Joining a relative path onto a root\<close>

text \<open>How a path of segments is read lexically: empty and \<open>.\<close> segments are
  skipped, \<open>..\<close> goes up. The first argument is the stack of segments entered
  so far.\<close>

fun lex_resolve :: "string list \<Rightarrow> string list \<Rightarrow> string list" where
  "lex_resolve acc [] = rev acc"
| "lex_resolve acc (s # ss) =
     (if s = [] \<or> s = ''.'' then lex_resolve acc ss
      else if s = ''..'' then lex_resolve (tl acc) ss
      else lex_resolve (s # acc) ss)"

lemma str_split_append_any: "str_split sep (s @ sep # t) = str_split sep s @ str_split sep t"
  by (induction s) (auto split: list.splits)

lemma lex_resolve_append:
  "lex_resolve acc (xs @ ys) = lex_resolve (rev (lex_resolve acc xs)) ys"
  by (induction xs arbitrary: acc) auto

lemma lex_resolve_no_up:
  "''..'' \<notin> set ss \<Longrightarrow> prefix (rev acc) (lex_resolve acc ss)"
proof (induction ss arbitrary: acc)
  case (Cons s ss)
  have "prefix (rev acc) (lex_resolve acc ss)"
    using Cons by simp
  moreover have "prefix (rev (s # acc)) (lex_resolve (s # acc) ss)"
    using Cons.prems by (intro Cons.IH) simp
  then have "prefix (rev acc) (lex_resolve (s # acc) ss)"
    by (auto simp: prefix_def)
  moreover have "s \<noteq> ''..''"
    using Cons.prems by auto
  ultimately show ?case
    by simp
qed simp

text \<open>A value accepted by \<open>RelativeFilePath\<close> can be joined onto any root
  directory without leaving it: resolving \<open>root/value\<close> lexically always gives a
  path below the resolved root. This is what the class promises its callers,
  who join without a second check.\<close>

theorem relative_path_stays_below_root:
  assumes "relative_file_path v = Inr p"
  shows "prefix (lex_resolve [] (str_split CHR ''/'' root))
           (lex_resolve [] (str_split CHR ''/'' (root @ CHR ''/'' # rel_value p)))"
proof -
  have "''..'' \<notin> set (str_split CHR ''/'' (rel_value p))"
    using assms by (auto simp: relative_file_path_iff)
  from lex_resolve_no_up [OF this, of "rev (lex_resolve [] (str_split CHR ''/'' root))"]
  show ?thesis
    by (simp add: str_split_append_any lex_resolve_append)
qed

theorem relative_path_stays_below_root_witness:
  "prefix (lex_resolve [] (str_split CHR ''/'' ''/home/bob''))
     (lex_resolve [] (str_split CHR ''/'' (''/home/bob'' @ CHR ''/'' # ''wp-admin/a.php'')))"
  using relative_path_stays_below_root [of "''wp-admin/a.php''" "RelativeFilePath ''wp-admin/a.php''" "''/home/bob''"]
  by (simp add: relative_file_path_def str_startswith_def)

section \<open>What the hash and username constructors accept\<close>

definition hex64 :: "string \<Rightarrow> bool" where
  "hex64 t \<longleftrightarrow> length t = 64 \<and> list_all is_lower_hex t"

text \<open>\<open>Sha256Hash\<close> accepts exactly the texts whose lower-case form is 64
  hexadecimal digits or 64 hexadecimal digits with one newline behind them
  (Python's \<open>$\<close>), stores the lower-case form, and rejects everything else with a
  \<open>ValidationError\<close>.\<close>

theorem sha256_hash_accepts:
  "sha256_hash v =
     (if hex64 (str_lower v) \<or> (\<exists>t. str_lower v = t @ [CHR 0x0A] \<and> hex64 t)
      then Inr (Sha256Hash (str_lower v))
      else Inl (ValidationError ''Invalid SHA-256 hash: '' v))"
proof -
  have "(s \<noteq> [] \<and> last s = CHR 0x0A \<and> hex64 (butlast s)) \<longleftrightarrow>
        (\<exists>t. s = t @ [CHR 0x0A] \<and> hex64 t)" for s
    by (metis append_butlast_last_id butlast_snoc last_snoc snoc_eq_iff_butlast)
  then show ?thesis
    by (simp add: sha256_hash_def sha256_pattern_def re_match_line_def hex64_def [symmetric] Let_def)
qed

lemma username_segment:
  "linux_username v = Inr u \<Longrightarrow> user_value u = v \<and> v \<noteq> [] \<and> CHR ''/'' \<notin> set v"
proof -
  assume "linux_username v = Inr u"
  then have u: "u = LinuxUsername v" and p: "username_pattern v"
    by (auto simp: linux_username_def split: if_splits)
  have shape: "CHR ''/'' \<notin> set t"
    if "t \<noteq> []" "is_lower_alpha (hd t)" "list_all is_lower_alnum (tl t)" for t
    using that by (cases t) (auto simp: is_lower_alpha_def is_lower_alnum_def list_all_iff Let_def)
  have "CHR ''/'' \<notin> set v"
  proof (cases "v \<noteq> [] \<and> last v = CHR 0x0A")
    case True
    then have "set v = insert (CHR 0x0A) (set (butlast v))"
      by (metis append_butlast_last_id list.simps(15) rotate1.simps(2) set_rotate1)
    then show ?thesis
      using p shape[of v] shape[of "butlast v"] by (auto simp: username_pattern_def re_match_line_def)
  next
    case False
    then show ?thesis
      using p shape[of v] by (auto simp: username_pattern_def re_match_line_def)
  qed
  with u p show ?thesis
    by (auto simp: username_pattern_def re_match_line_def)
qed

end
