(* ===== verification/Repository_Table.thy ===== *)
theory Repository_Table
  imports Value_Objects
begin

text \<open>
  Entities and the repositories that keep them: \<open>domain/shared/entity.py\<close>,
  the port \<open>domain/shared/ports.py\<close>, and the four generic operations every
  \<open>SqlAlchemy...Repository\<close> implements (\<open>session.add\<close>, \<open>session.merge\<close>,
  \<open>session.get\<close>, \<open>select ... limit ... offset\<close>).

  A table is the list of its rows in the order an unordered \<open>SELECT\<close> returns
  them. Every entity extends \<open>base_entity\<close>; \<open>uuid4()\<close> is a counter of the
  database state, which gives what the code relies on: an identifier no row
  has. The locale \<open>repository\<close> states what the use cases rely on, and its
  client lemmas (a later save wins; saves of other entities do not disturb)
  are proved once for all tables.
\<close>

section \<open>Entities\<close>

record base_entity =
  eid :: uuid
  created_at :: datetime
  updated_at :: datetime

definition touch :: "datetime \<Rightarrow> 'a base_entity_scheme \<Rightarrow> 'a base_entity_scheme" where
  "touch now e = e\<lparr>updated_at := now\<rparr>"

text \<open>\<open>ensure_utc\<close>: an instant as Python carries it, with or without a time
  zone. SQLite gives every instant back naive.\<close>

datatype instant = Aware datetime | Naive datetime

fun ensure_utc :: "instant \<Rightarrow> instant" where
  "ensure_utc (Aware t) = Aware t"
| "ensure_utc (Naive t) = Aware t"

lemma touch_simps [simp, entity_simps]:
  "eid (touch now e) = eid e"
  "created_at (touch now e) = created_at e"
  "updated_at (touch now e) = now"
  "base_entity.more (touch now e) = base_entity.more e"
  by (simp_all add: touch_def)

section \<open>Tables\<close>

text \<open>\<open>session.add\<close>, \<open>session.merge\<close> (replace the row of that identifier,
  insert it when there is none), \<open>session.get\<close> and \<open>limit/offset\<close>.\<close>

definition tbl_add :: "'a base_entity_scheme \<Rightarrow> 'a base_entity_scheme list \<Rightarrow> 'a base_entity_scheme list" where
  "tbl_add e t = t @ [e]"

fun tbl_save :: "'a base_entity_scheme \<Rightarrow> 'a base_entity_scheme list \<Rightarrow> 'a base_entity_scheme list" where
  "tbl_save e [] = [e]"
| "tbl_save e (x # xs) = (if eid x = eid e then e # xs else x # tbl_save e xs)"

definition tbl_get :: "uuid \<Rightarrow> 'a base_entity_scheme list \<Rightarrow> 'a base_entity_scheme option" where
  "tbl_get k t = find (\<lambda>e. eid e = k) t"

definition tbl_list :: "nat \<Rightarrow> nat \<Rightarrow> 'a list \<Rightarrow> 'a list" where
  "tbl_list limit offset t = take limit (drop offset t)"

text \<open>\<open>order_by(col.desc())\<close> and \<open>order_by(col.asc())\<close>: rows with equal
  keys stay in table order.\<close>

definition order_asc :: "('a \<Rightarrow> datetime) \<Rightarrow> 'a list \<Rightarrow> 'a list" where
  "order_asc f t = sort_key f t"

definition order_desc :: "('a \<Rightarrow> datetime) \<Rightarrow> 'a list \<Rightarrow> 'a list" where
  "order_desc f t = sort_key (\<lambda>e. - f e) t"

definition tbl_ids :: "'a base_entity_scheme list \<Rightarrow> uuid list" where
  "tbl_ids t = map eid t"

text \<open>A well-formed table: identifiers are a primary key below the counter.\<close>

definition tbl_wf :: "uuid \<Rightarrow> 'a base_entity_scheme list \<Rightarrow> bool" where
  "tbl_wf n t \<longleftrightarrow> distinct (tbl_ids t) \<and> list_all (\<lambda>e. eid e < n) t"

lemma set_order_asc [simp]: "set (order_asc f t) = set t"
  by (simp add: order_asc_def)

lemma set_order_desc [simp]: "set (order_desc f t) = set t"
  by (simp add: order_desc_def)

lemma mset_order_asc [simp]: "mset (order_asc f t) = mset t"
  by (simp add: order_asc_def)

lemma length_order_asc [simp]: "length (order_asc f t) = length t"
  by (simp add: order_asc_def)

lemma sorted_order_asc: "sorted (map f (order_asc f t))"
  by (simp add: order_asc_def)

lemma sorted_order_desc: "sorted (map (\<lambda>e. - f e) (order_desc f t))"
  by (simp add: order_desc_def)

lemma distinct_ids_order_asc [simp]: "distinct (map g (order_asc f t)) = distinct (map g t)"
  by (metis mset_map mset_eq_imp_distinct_iff mset_order_asc)

lemma tbl_ids_simps [simp]:
  "tbl_ids [] = []" "tbl_ids (e # t) = eid e # tbl_ids t" "tbl_ids (t @ u) = tbl_ids t @ tbl_ids u"
  by (simp_all add: tbl_ids_def)

lemma in_tbl_ids: "k \<in> set (tbl_ids t) \<longleftrightarrow> (\<exists>e \<in> set t. eid e = k)"
  by (auto simp: tbl_ids_def)

lemma tbl_get_Some: "tbl_get k t = Some e \<Longrightarrow> e \<in> set t \<and> eid e = k"
  by (auto simp: tbl_get_def find_Some_iff)

lemma tbl_get_None: "tbl_get k t = None \<longleftrightarrow> k \<notin> set (tbl_ids t)"
  by (auto simp: tbl_get_def find_None_iff in_tbl_ids)

lemma tbl_get_append [simp]:
  "tbl_get k (t @ u) = (case tbl_get k t of Some e \<Rightarrow> Some e | None \<Rightarrow> tbl_get k u)"
  by (induction t) (auto simp: tbl_get_def)

lemma tbl_get_Nil [simp]: "tbl_get k [] = None"
  by (simp add: tbl_get_def)

lemma tbl_get_Cons [simp]: "tbl_get k (e # t) = (if eid e = k then Some e else tbl_get k t)"
  by (simp add: tbl_get_def)

lemma tbl_get_mem: "distinct (tbl_ids t) \<Longrightarrow> e \<in> set t \<Longrightarrow> tbl_get (eid e) t = Some e"
  by (induction t) (auto simp: in_tbl_ids)

lemma tbl_get_iff: "distinct (tbl_ids t) \<Longrightarrow> tbl_get k t = Some e \<longleftrightarrow> e \<in> set t \<and> eid e = k"
  using tbl_get_mem tbl_get_Some by metis

lemma tbl_get_save [simp]: "tbl_get k (tbl_save e t) = (if k = eid e then Some e else tbl_get k t)"
  by (induction t) auto

lemma tbl_get_add:
  "eid e \<notin> set (tbl_ids t) \<Longrightarrow> tbl_get k (tbl_add e t) = (if k = eid e then Some e else tbl_get k t)"
  using tbl_get_None[of "eid e" t] by (cases "tbl_get k t") (auto simp: tbl_add_def)

lemma tbl_ids_save:
  "tbl_ids (tbl_save e t) = (if eid e \<in> set (tbl_ids t) then tbl_ids t else tbl_ids t @ [eid e])"
  by (induction t) auto

lemma tbl_ids_add [simp]: "tbl_ids (tbl_add e t) = tbl_ids t @ [eid e]"
  by (simp add: tbl_add_def)

lemma tbl_save_map:
  "distinct (tbl_ids t) \<Longrightarrow> eid e \<in> set (tbl_ids t) \<Longrightarrow>
   tbl_save e t = map (\<lambda>x. if eid x = eid e then e else x) t"
proof (induction t)
  case (Cons x t)
  have "map (\<lambda>y. if eid y = eid e then e else y) t = t" if "eid x = eid e"
    using Cons.prems that by (intro map_idI) (auto simp: in_tbl_ids)
  then show ?case using Cons by auto
qed simp

lemma set_tbl_save:
  "distinct (tbl_ids t) \<Longrightarrow> set (tbl_save e t) = insert e {x \<in> set t. eid x \<noteq> eid e}"
  by (induction t) (auto simp: in_tbl_ids)

lemma length_tbl_save [simp]:
  "eid e \<in> set (tbl_ids t) \<Longrightarrow> length (tbl_save e t) = length t"
  by (induction t) auto

lemma tbl_wf_add: "tbl_wf n t \<Longrightarrow> n \<le> eid e \<Longrightarrow> eid e < m \<Longrightarrow> tbl_wf m (tbl_add e t)"
  by (force simp: tbl_wf_def tbl_add_def list_all_iff in_tbl_ids)

lemma tbl_wf_save: "tbl_wf n t \<Longrightarrow> eid e < n \<Longrightarrow> tbl_wf n (tbl_save e t)"
  by (auto simp: tbl_wf_def tbl_ids_save list_all_iff set_tbl_save)

lemma tbl_wf_mono: "tbl_wf n t \<Longrightarrow> n \<le> m \<Longrightarrow> tbl_wf m t"
  by (force simp: tbl_wf_def list_all_iff)

lemma tbl_wf_fresh: "tbl_wf n t \<Longrightarrow> n \<le> k \<Longrightarrow> k \<notin> set (tbl_ids t)"
  by (force simp: tbl_wf_def list_all_iff in_tbl_ids)

lemma tbl_wf_iff: "tbl_wf n t \<longleftrightarrow> distinct (tbl_ids t) \<and> (\<forall>k \<in> set (tbl_ids t). k < n)"
  by (simp add: tbl_wf_def list_all_iff tbl_ids_def)

lemma tbl_wf_map: "(\<And>x. eid (g x) = eid x) \<Longrightarrow> tbl_wf n (map g t) = tbl_wf n t"
  by (simp add: tbl_wf_def tbl_ids_def comp_def list.pred_map)

lemma tbl_wf_distinct: "tbl_wf n t \<Longrightarrow> distinct (tbl_ids t)"
  by (simp add: tbl_wf_def)

lemma tbl_save_self: "tbl_get (eid e) t = Some e \<Longrightarrow> tbl_save e t = t"
  by (induction t) (auto split: if_splits)

lemma filter_tbl_save_other:
  "\<not> P e \<Longrightarrow> (\<And>x. x \<in> set t \<Longrightarrow> eid x = eid e \<Longrightarrow> \<not> P x) \<Longrightarrow> filter P (tbl_save e t) = filter P t"
  by (induction t) auto

section \<open>The contract of a repository\<close>

locale repository =
  fixes key :: "'e \<Rightarrow> uuid"
    and ids :: "'t \<Rightarrow> uuid set"
    and add :: "'e \<Rightarrow> 't \<Rightarrow> 't"
    and save :: "'e \<Rightarrow> 't \<Rightarrow> 't"
    and get :: "uuid \<Rightarrow> 't \<Rightarrow> 'e option"
  assumes get_key: "get k t = Some e \<Longrightarrow> key e = k"
    and get_None: "get k t = None \<longleftrightarrow> k \<notin> ids t"
    and get_add: "key e \<notin> ids t \<Longrightarrow> get k (add e t) = (if k = key e then Some e else get k t)"
    and get_save: "get k (save e t) = (if k = key e then Some e else get k t)"
begin

lemma get_saved [simp]: "get (key e) (save e t) = Some e"
  by (simp add: get_save)

lemma save_overwrites: "key e = key e' \<Longrightarrow> get k (save e (save e' t)) = get k (save e t)"
  by (simp add: get_save)

lemma save_commute:
  "key e \<noteq> key e' \<Longrightarrow> get k (save e (save e' t)) = get k (save e' (save e t))"
  by (simp add: get_save)

lemma added_then_saved:
  "key e \<notin> ids t \<Longrightarrow> key e' = key e \<Longrightarrow>
   get k (save e' (add e t)) = (if k = key e then Some e' else get k t)"
  by (simp add: get_save get_add)

lemma ids_save: "ids (save e t) = insert (key e) (ids t)"
proof -
  have "k \<in> ids (save e t) \<longleftrightarrow> k \<in> insert (key e) (ids t)" for k
    using get_None[of k "save e t"] get_None[of k t] by (auto simp: get_save split: if_splits)
  then show ?thesis by blast
qed

lemma get_saves_other: "k \<notin> key ` set es \<Longrightarrow> get k (fold save es t) = get k t"
  by (induction es arbitrary: t) (auto simp: get_save)

text \<open>A loop that writes back each of several distinct entities leaves every
  one of them as it was written, and everything else alone.\<close>

lemma get_saves:
  "distinct (map key es) \<Longrightarrow>
   get k (fold save es t) = (case find (\<lambda>e. key e = k) es of Some e \<Rightarrow> Some e | None \<Rightarrow> get k t)"
proof (induction es arbitrary: t)
  case (Cons e es)
  have "find (\<lambda>x. key x = k) es = None" if "key e = k"
    using Cons.prems that by (auto simp: find_None_iff) (metis imageI)
  then show ?case using Cons by (auto simp: get_save split: option.splits)
qed simp

end

interpretation tbl: repository eid "\<lambda>t. set (tbl_ids t)" tbl_add tbl_save tbl_get
proof unfold_locales
  show "tbl_get k t = Some e \<Longrightarrow> eid e = k" for k t e
    by (drule tbl_get_Some) simp
  show "tbl_get k t = None \<longleftrightarrow> k \<notin> set (tbl_ids t)" for k t
    by (rule tbl_get_None)
  show "tbl_get k (tbl_add e t) = (if k = eid e then Some e else tbl_get k t)"
    if "eid e \<notin> set (tbl_ids t)" for k e t
    using that by (rule tbl_get_add)
  show "tbl_get k (tbl_save e t) = (if k = eid e then Some e else tbl_get k t)" for k e t
    by (rule tbl_get_save)
qed

section \<open>Rewriting the rows that satisfy a condition\<close>

text \<open>The loop \<open>for e in rows: if p(e): f(e); save(e)\<close> together with its
  counter.\<close>

fun save_where :: "('a base_entity_scheme \<Rightarrow> bool) \<Rightarrow> ('a base_entity_scheme \<Rightarrow> 'a base_entity_scheme) \<Rightarrow>
    'a base_entity_scheme list \<Rightarrow> 'a base_entity_scheme list \<Rightarrow> nat \<Rightarrow>
    'a base_entity_scheme list \<times> nat" where
  "save_where p f [] t n = (t, n)"
| "save_where p f (e # es) t n =
     (if p e then save_where p f es (tbl_save (f e) t) (n + 1) else save_where p f es t n)"

lemma tbl_save_middle:
  "eid e' = eid e \<Longrightarrow> eid e \<notin> set (tbl_ids t) \<Longrightarrow> tbl_save e' (t @ e # u) = t @ e' # u"
  by (induction t) auto

text \<open>A save into a table that was obtained by rewriting rows in place.\<close>

lemma tbl_save_in_map:
  assumes "\<And>x. eid (g x) = eid x" "distinct (tbl_ids (map g old @ news))"
    and "b \<in> set old" "eid b' = eid b"
  shows "tbl_save b' (map g old @ news) = map (\<lambda>x. if x = b then b' else g x) old @ news"
proof -
  obtain xs ys where old: "old = xs @ b # ys" "b \<notin> set xs"
    using split_list_first[OF assms(3)] by blast
  have "distinct (tbl_ids old)"
    using assms(1,2) by (simp add: tbl_ids_def comp_def)
  then have "b \<notin> set ys" "eid b \<notin> set (tbl_ids (map g xs))"
    using assms(1) by (auto simp: old in_tbl_ids)
  moreover have "tbl_save b' (map g xs @ g b # (map g ys @ news)) = map g xs @ b' # (map g ys @ news)"
    using calculation assms(1,4) by (intro tbl_save_middle) auto
  moreover have "map (\<lambda>x. if x = b then b' else g x) xs = map g xs"
    "map (\<lambda>x. if x = b then b' else g x) ys = map g ys"
    using calculation(1) old(2) by (auto intro: map_cong)
  ultimately show ?thesis
    by (simp add: old)
qed

lemma save_where_map:
  assumes "\<And>e. eid (f e) = eid e" "distinct (tbl_ids (t0 @ es @ u))"
  shows "save_where p f es (t0 @ es @ u) n =
           (t0 @ map (\<lambda>e. if p e then f e else e) es @ u, n + length (filter p es))"
  using assms(2)
proof (induction es arbitrary: t0 n)
  case (Cons e es)
  have rot: "t0 @ (e # es) @ u = t0 @ e # (es @ u)" for e by simp
  have saved: "tbl_save (f e) (t0 @ e # (es @ u)) = (t0 @ [f e]) @ es @ u"
    using Cons.prems assms(1)[of e] by (simp add: tbl_save_middle)
  show ?case
    using Cons.IH[of "t0 @ [f e]"] Cons.IH[of "t0 @ [e]"] Cons.prems assms(1)[of e]
    by (simp add: saved)
qed simp

lemma save_where_take:
  assumes "\<And>e. eid (f e) = eid e" "distinct (tbl_ids t)"
  shows "save_where p f (take m t) t n =
           (map (\<lambda>e. if p e then f e else e) (take m t) @ drop m t, n + length (filter p (take m t)))"
  using save_where_map[of f "[]" "take m t" "drop m t" p n] assms by simp

end
