(* ===== verification/Row_Models.thy ===== *)
theory Row_Models
  imports Complex_Main Repository_Table
begin

text \<open>
  The rows of the database: one record per class of
  \<open>infrastructure/persistence/models\<close>, with the columns in the class's order.
  Validated values and enumerations are stored as their strings, structured
  fields as JSON text. A \<open>DateTime\<close> column keeps the date and time and drops the
  time zone; every instant of the program is UTC, so the number of
  microseconds is what is stored. An identifier is an \<open>uuid.UUID\<close> in Python and
  36 characters on disk; \<open>GUID\<close> (\<open>types.py\<close>) converts.
\<close>

record server_model = base_entity +
  sm_hostname :: string
  sm_os_info :: string
  sm_agent_version :: string
  sm_last_seen_at :: datetime

record account_model = base_entity +
  am_server_id :: uuid
  am_username :: string
  am_primary_domain :: string
  am_home_directory :: string
  am_is_suspended :: bool
  am_is_active :: bool
  am_last_seen_at :: datetime

record installation_model = base_entity +
  im_cpanel_account_id :: uuid
  im_absolute_path :: string
  im_domain :: "string option"
  im_wp_version :: "string option"
  im_is_multisite :: bool
  im_is_active :: bool
  im_last_seen_at :: datetime
  im_php_version :: "string option"

record baseline_model = base_entity +
  bm_account_id :: uuid
  bm_relative_path :: string
  bm_sha256 :: string
  bm_size_bytes :: int
  bm_mode :: string
  bm_is_active :: bool
  bm_last_verified_at :: datetime

record finding_model = base_entity +
  fm_account_id :: uuid
  fm_relative_path :: string
  fm_change_type :: string
  fm_severity :: string
  fm_previous_sha256 :: "string option"
  fm_current_sha256 :: "string option"
  fm_is_acknowledged :: bool
  fm_remediation_state :: string
  fm_quarantine_path :: "string option"
  fm_quarantine_mode :: "string option"
  fm_quarantine_size_bytes :: "int option"
  fm_quarantine_owner_uid :: "int option"
  fm_quarantine_owner_gid :: "int option"
  fm_detected_at :: datetime

record action_model = base_entity +
  xm_finding_id :: uuid
  xm_account_id :: uuid
  xm_relative_path :: string
  xm_action_type :: string
  xm_outcome :: string
  xm_detail :: "string option"
  xm_performed_at :: datetime

record event_model = base_entity +
  em_event_type :: string
  em_source_context :: string
  em_account_id :: "uuid option"
  em_severity :: string
  em_payload :: string
  em_occurred_at :: datetime
  em_processed_at :: "datetime option"
  em_server_id :: "uuid option"
  em_file_path :: "string option"
  em_sha256 :: "string option"
  em_file_size_bytes :: "int option"
  em_file_owner :: "string option"
  em_file_permissions :: "string option"
  em_mime_type :: "string option"
  em_scanner_version :: "string option"
  em_detection_rule_id :: "string option"

record incident_model = base_entity +
  nm_title :: string
  nm_correlation_signature :: string
  nm_status :: string
  nm_severity :: string
  nm_confidence :: rat
  nm_first_seen_at :: datetime
  nm_last_seen_at :: datetime
  nm_root_cause :: "string option"
  nm_recommended_actions :: "string option"
  nm_false_positive_probability :: "rat option"

record link_model = base_entity +
  lm_incident_id :: uuid
  lm_account_id :: uuid

record timeline_model = base_entity +
  tm_incident_id :: uuid
  tm_stage :: string
  tm_description :: string
  tm_occurred_at :: datetime
  tm_source_event_id :: "uuid option"

record plugin_model = base_entity +
  pm_installation_id :: uuid
  pm_slug :: string
  pm_name :: string
  pm_version :: "string option"
  pm_is_present :: bool
  pm_last_seen_at :: datetime

record theme_model = base_entity +
  hm_installation_id :: uuid
  hm_slug :: string
  hm_name :: string
  hm_version :: "string option"
  hm_is_present :: bool
  hm_last_seen_at :: datetime

record config_model = base_entity +
  cm_installation_id :: uuid
  cm_config_source :: string
  cm_key :: string
  cm_raw_value :: "string option"
  cm_is_flagged :: bool
  cm_flag_reason :: "string option"
  cm_is_present :: bool
  cm_last_seen_at :: datetime

record observation_model = base_entity +
  om_absolute_path :: string
  om_sha256 :: "string option"
  om_owner :: string
  om_size_bytes :: int
  om_verdict :: string
  om_verdict_reason :: string
  om_matched_rule_ids :: string
  om_process_context :: "string option"
  om_account_id :: "uuid option"
  om_detected_at :: datetime
  om_file_permissions :: "string option"
  om_mime_type :: "string option"
  om_server_id :: "uuid option"

record heartbeat_model = base_entity +
  jm_job_id :: string
  jm_status :: string
  jm_last_run_at :: datetime
  jm_last_duration_ms :: rat
  jm_last_error :: "string option"

record checksum_model = base_entity +
  km_wp_version :: string
  km_relative_path :: string
  km_sha256 :: string
  km_fetched_at :: datetime

record cron_model = base_entity +
  wm_installation_id :: uuid
  wm_command :: string
  wm_schedule_raw :: string
  wm_is_suspicious :: bool
  wm_flag_reason :: "string option"
  wm_is_present :: bool
  wm_last_seen_at :: datetime

section \<open>Identifiers on disk\<close>

text \<open>\<open>uuid.UUID(text)\<close>: the prefixes \<open>urn:\<close> and \<open>uuid:\<close>, surrounding braces and
  all hyphens are dropped; what is left must be 32 hexadecimal digits.\<close>

fun str_delete :: "string \<Rightarrow> string \<Rightarrow> string" where
  "str_delete pat [] = []"
| "str_delete pat (c # cs) =
     (if pat \<noteq> [] \<and> take (length pat) (c # cs) = pat
      then str_delete pat (drop (length pat - 1) cs)
      else c # str_delete pat cs)"

definition strip_braces :: "string \<Rightarrow> string" where
  "strip_braces s =
     str_rstrip [CHR ''{'', CHR ''}''] (dropWhile (\<lambda>c. c \<in> set [CHR ''{'', CHR ''}'']) s)"

definition parse_uuid :: "string \<Rightarrow> uuid res" where
  "parse_uuid s =
     (let h = filter (\<lambda>c. c \<noteq> CHR ''-'') (strip_braces (str_delete ''uuid:'' (str_delete ''urn:'' s)))
      in if length h \<noteq> 32 then Inl (OtherError ''ValueError'')
         else case hex_from 0 h of
                None \<Rightarrow> Inl (OtherError ''ValueError'')
              | Some n \<Rightarrow> Inr n)"

text \<open>The argument of \<open>process_bind_param\<close>, and the two conversions.\<close>

datatype guid_param = GuidNone | GuidUUID uuid | GuidStr string

fun process_bind_param :: "guid_param \<Rightarrow> string option res" where
  "process_bind_param GuidNone = Inr None"
| "process_bind_param (GuidUUID u) = Inr (Some (uuid_str u))"
| "process_bind_param (GuidStr s) =
     (case parse_uuid s of Inl e \<Rightarrow> Inl e | Inr u \<Rightarrow> Inr (Some (uuid_str u)))"

fun process_result_value :: "string option \<Rightarrow> uuid option res" where
  "process_result_value None = Inr None"
| "process_result_value (Some s) =
     (case parse_uuid s of Inl e \<Rightarrow> Inl e | Inr u \<Rightarrow> Inr (Some u))"

lemma hex_digit_chars:
  "c \<in> set (hex_digits w n) \<Longrightarrow> hex_value c \<noteq> None"
proof (induction w arbitrary: n)
  case (Suc w)
  have "hex_value (digit_char (n mod 16)) \<noteq> None"
    by (simp add: hex_value_digit)
  with Suc show ?case by auto
qed simp

definition uuid_char :: "char \<Rightarrow> bool" where
  "uuid_char c \<longleftrightarrow> hex_value c \<noteq> None \<or> c = CHR ''-''"

lemma uuid_str_chars: "list_all uuid_char (uuid_str u)"
proof -
  have "c \<in> set (uuid_str u) \<Longrightarrow> c = CHR ''-'' \<or> c \<in> set (hex_digits 32 u)" for c
    by (auto simp: uuid_str_def Let_def dest: in_set_takeD in_set_dropD)
  then show ?thesis
    unfolding list_all_iff uuid_char_def using hex_digit_chars by blast
qed

lemma uuid_char_no_prefix:
  "list_all uuid_char s \<Longrightarrow> hd pat = CHR ''u'' \<Longrightarrow> pat \<noteq> [] \<Longrightarrow> str_delete pat s = s"
proof (induction s)
  case (Cons c s)
  have "hex_value (CHR ''u'') = None" by (simp add: hex_value_def)
  then have "c \<noteq> CHR ''u''" using Cons.prems by (auto simp: uuid_char_def)
  then show ?case using Cons by (cases pat) auto
qed simp

lemma uuid_str_no_braces: "strip_braces (uuid_str u) = uuid_str u"
proof -
  have no: "\<not> uuid_char (CHR ''{'')" "\<not> uuid_char (CHR ''}'')"
    by (simp_all add: uuid_char_def hex_value_def)
  have fixes_all: "dropWhile (\<lambda>c. c \<in> set [CHR ''{'', CHR ''}'']) s = s" if "list_all uuid_char s" for s
    using that no by (cases s) auto
  have "list_all uuid_char (rev (uuid_str u))"
    using uuid_str_chars by simp
  then show ?thesis
    using fixes_all [OF uuid_str_chars [of u]] fixes_all [of "rev (uuid_str u)"]
    by (simp add: strip_braces_def str_rstrip_def)
qed

lemma uuid_str_digits: "filter (\<lambda>c. c \<noteq> CHR ''-'') (uuid_str u) = hex_digits 32 u"
proof -
  have keep: "filter (\<lambda>c. c \<noteq> CHR ''-'') h = h" if "set h \<subseteq> set (hex_digits 32 u)" for h
  proof -
    have "hex_value (CHR ''-'') = None" by (simp add: hex_value_def)
    then have "CHR ''-'' \<notin> set h" using that hex_digit_chars by blast
    then show ?thesis by (intro filter_True) auto
  qed
  let ?h = "hex_digits 32 u"
  have parts: "set (take 8 ?h) \<subseteq> set ?h" "set (take 4 (drop 8 ?h)) \<subseteq> set ?h"
    "set (take 4 (drop 12 ?h)) \<subseteq> set ?h" "set (take 4 (drop 16 ?h)) \<subseteq> set ?h" "set (drop 20 ?h) \<subseteq> set ?h"
    by (meson in_set_takeD in_set_dropD subsetI)+
  have "take 4 (drop 8 ?h) @ take 4 (drop 12 ?h) @ take 4 (drop 16 ?h) @ drop 20 ?h = drop 8 ?h"
    using append_take_drop_id [of 4 "drop 8 ?h"] append_take_drop_id [of 4 "drop 12 ?h"]
      append_take_drop_id [of 4 "drop 16 ?h"] by simp
  then have "take 8 ?h @ take 4 (drop 8 ?h) @ take 4 (drop 12 ?h) @ take 4 (drop 16 ?h) @ drop 20 ?h = ?h"
    by simp
  then show ?thesis
    by (simp add: uuid_str_def Let_def keep [OF parts(1)] keep [OF parts(2)] keep [OF parts(3)]
        keep [OF parts(4)] keep [OF parts(5)])
qed

lemma parse_uuid_str: "u < 16 ^ 32 \<Longrightarrow> parse_uuid (uuid_str u) = Inr u"
  using uuid_char_no_prefix [OF uuid_str_chars, of "''urn:''" u]
    uuid_char_no_prefix [OF uuid_str_chars, of "''uuid:''" u]
  by (simp add: parse_uuid_def Let_def uuid_str_no_braces uuid_str_digits hex_from_digits)

text \<open>\<open>GUID\<close> stores every identifier as 36 characters, the hyphenated form,
  and reads the same identifier back; the text form of an identifier binds to
  the same column value as the identifier itself.\<close>

theorem guid_roundtrip:
  assumes "u < 16 ^ 32"
  shows "\<exists>s. process_bind_param (GuidUUID u) = Inr (Some s) \<and> length s = 36 \<and>
    process_result_value (Some s) = Inr (Some u) \<and>
    process_bind_param (GuidStr s) = Inr (Some s)"
  using parse_uuid_str [OF assms] by (simp add: uuid_str_def Let_def)

theorem guid_roundtrip_witness:
  "\<exists>s. process_bind_param (GuidUUID 0xC0FFEE) = Inr (Some s) \<and> length s = 36 \<and>
    process_result_value (Some s) = Inr (Some 0xC0FFEE) \<and>
    process_bind_param (GuidStr s) = Inr (Some s)"
  by (rule guid_roundtrip) simp

end
