(* ===== verification/Events_Domain.thy ===== *)
theory Events_Domain
  imports Complex_Main Repository_Table
begin

text \<open>
  \<open>domain/events/entities.py\<close>: the security event, the row through which the
  detectors hand over to correlation. Its payload is a JSON value; an object
  keeps its keys in insertion order. No payload of the program holds a
  floating-point number, so the type has none.
\<close>

datatype json =
    JNull
  | JBool bool
  | JInt int
  | JStr string
  | JArr "json list"
  | JObj "(string \<times> json) list"

text \<open>\<open>payload.get(key)\<close>.\<close>

fun json_get :: "json \<Rightarrow> string \<Rightarrow> json" where
  "json_get (JObj kvs) k = (case map_of kvs k of Some v \<Rightarrow> v | None \<Rightarrow> JNull)"
| "json_get _ k = JNull"

text \<open>The truth value Python gives a JSON value.\<close>

fun json_truthy :: "json \<Rightarrow> bool" where
  "json_truthy JNull = False"
| "json_truthy (JBool b) = b"
| "json_truthy (JInt i) = (i \<noteq> 0)"
| "json_truthy (JStr s) = (s \<noteq> [])"
| "json_truthy (JArr xs) = (xs \<noteq> [])"
| "json_truthy (JObj kvs) = (kvs \<noteq> [])"

definition opt_str :: "string option \<Rightarrow> json" where
  "opt_str s = (case s of None \<Rightarrow> JNull | Some t \<Rightarrow> JStr t)"

definition opt_int :: "int option \<Rightarrow> json" where
  "opt_int s = (case s of None \<Rightarrow> JNull | Some t \<Rightarrow> JInt t)"

record security_event = base_entity +
  ev_event_type :: string
  ev_source_context :: string
  ev_account_id :: "uuid option"
  ev_severity :: severity
  ev_payload :: "(string \<times> json) list"
  ev_occurred_at :: datetime
  ev_processed_at :: "datetime option"
  ev_server_id :: "uuid option"
  ev_file_path :: "string option"
  ev_sha256 :: "string option"
  ev_file_size_bytes :: "int option"
  ev_file_owner :: "string option"
  ev_file_permissions :: "string option"
  ev_mime_type :: "string option"
  ev_scanner_version :: "string option"
  ev_detection_rule_id :: "string option"

text \<open>The constructor with every optional field at its default.\<close>

definition new_event ::
    "uuid \<Rightarrow> datetime \<Rightarrow> string \<Rightarrow> string \<Rightarrow> uuid option \<Rightarrow> severity \<Rightarrow> (string \<times> json) list \<Rightarrow>
     datetime \<Rightarrow> security_event" where
  "new_event i now event_type source account severity payload occurred_at =
     \<lparr>eid = i, created_at = now, updated_at = now, ev_event_type = event_type,
      ev_source_context = source, ev_account_id = account, ev_severity = severity,
      ev_payload = payload, ev_occurred_at = occurred_at, ev_processed_at = None,
      ev_server_id = None, ev_file_path = None, ev_sha256 = None, ev_file_size_bytes = None,
      ev_file_owner = None, ev_file_permissions = None, ev_mime_type = None,
      ev_scanner_version = None, ev_detection_rule_id = None\<rparr>"

definition event_mark_processed :: "datetime \<Rightarrow> datetime \<Rightarrow> security_event \<Rightarrow> security_event" where
  "event_mark_processed now tm e = touch now (e\<lparr>ev_processed_at := Some tm\<rparr>)"

lemma event_mark_processed_simps [simp]:
  "eid (event_mark_processed now tm e) = eid e"
  "ev_processed_at (event_mark_processed now tm e) = Some tm"
  "ev_event_type (event_mark_processed now tm e) = ev_event_type e"
  "ev_payload (event_mark_processed now tm e) = ev_payload e"
  "ev_severity (event_mark_processed now tm e) = ev_severity e"
  "ev_account_id (event_mark_processed now tm e) = ev_account_id e"
  "ev_occurred_at (event_mark_processed now tm e) = ev_occurred_at e"
  by (simp_all add: event_mark_processed_def touch_def)

lemma new_event_simps [simp]:
  "eid (new_event i now t s a sev p tm) = i"
  "ev_event_type (new_event i now t s a sev p tm) = t"
  "ev_account_id (new_event i now t s a sev p tm) = a"
  "ev_severity (new_event i now t s a sev p tm) = sev"
  "ev_payload (new_event i now t s a sev p tm) = p"
  "ev_processed_at (new_event i now t s a sev p tm) = None"
  by (simp_all add: new_event_def)

end
