(* ===== verification/Json_Text.thy ===== *)
theory Json_Text
  imports Events_Domain
begin

text \<open>
  \<open>json.dumps\<close> and \<open>json.loads\<close> of Python's standard library as the repositories
  use them: the payload of an event and the structured fields of a temp-file
  observation are stored as JSON text in one column. \<open>dumps\<close> is called with its
  defaults (separators with a blank behind them, every character outside
  printable ASCII escaped). A text that is not JSON raises
  \<open>JSONDecodeError\<close>; numbers with a fraction or an exponent, \<open>NaN\<close> and
  characters beyond code 255 have no value in the model and are refused as
  well.
\<close>

section \<open>Printing\<close>

definition esc_char :: "char \<Rightarrow> string" where
  "esc_char c =
     (if c = CHR 0x22 then [CHR 0x5C, CHR 0x22]
      else if c = CHR 0x5C then [CHR 0x5C, CHR 0x5C]
      else if c = CHR 0x0A then [CHR 0x5C, CHR ''n'']
      else if c = CHR 0x0D then [CHR 0x5C, CHR ''r'']
      else if c = CHR 0x09 then [CHR 0x5C, CHR ''t'']
      else if c = CHR 0x0C then [CHR 0x5C, CHR ''f'']
      else if c = CHR 0x08 then [CHR 0x5C, CHR ''b'']
      else if 32 \<le> (of_char c :: nat) \<and> (of_char c :: nat) \<le> 126 then [c]
      else [CHR 0x5C, CHR ''u''] @ hex_digits 4 (of_char c))"

definition dumps_str :: "string \<Rightarrow> string" where
  "dumps_str s = CHR 0x22 # concat (map esc_char s) @ [CHR 0x22]"

fun dumps :: "json \<Rightarrow> string" where
  "dumps JNull = ''null''"
| "dumps (JBool b) = (if b then ''true'' else ''false'')"
| "dumps (JInt i) = int_str i"
| "dumps (JStr s) = dumps_str s"
| "dumps (JArr xs) = ''['' @ str_join '', '' (map dumps xs) @ '']''"
| "dumps (JObj kvs) =
     ''{'' @ str_join '', '' (map (\<lambda>kv. dumps_str (fst kv) @ '': '' @ dumps (snd kv)) kvs) @ ''}''"

section \<open>Parsing\<close>

definition json_ws :: "char \<Rightarrow> bool" where
  "json_ws c = (c = CHR '' '' \<or> c = CHR 0x09 \<or> c = CHR 0x0A \<or> c = CHR 0x0D)"

definition skip_ws :: "string \<Rightarrow> string" where
  "skip_ws s = dropWhile json_ws s"

definition unescape :: "char \<Rightarrow> char option" where
  "unescape c = map_of [(CHR 0x22, CHR 0x22), (CHR 0x5C, CHR 0x5C), (CHR ''/'', CHR ''/''),
     (CHR ''b'', CHR 0x08), (CHR ''f'', CHR 0x0C), (CHR ''n'', CHR 0x0A), (CHR ''r'', CHR 0x0D),
     (CHR ''t'', CHR 0x09)] c"

definition unicode_char :: "string \<Rightarrow> char option" where
  "unicode_char ds =
     (if length ds < 4 then None
      else case hex_from 0 ds of
             None \<Rightarrow> None
           | Some n \<Rightarrow> if n < 256 then Some (char_of n) else None)"

definition cons_fst :: "'a \<Rightarrow> ('a list \<times> 'b) option \<Rightarrow> ('a list \<times> 'b) option" where
  "cons_fst x r = map_option (apfst (Cons x)) r"

text \<open>The rest of a string literal behind its opening quote.\<close>

fun str_body :: "string \<Rightarrow> (string \<times> string) option" where
  "str_body [] = None"
| "str_body (c # cs) =
     (if c = CHR 0x22 then Some ([], cs)
      else if c = CHR 0x5C then
        (case cs of
           [] \<Rightarrow> None
         | e # r \<Rightarrow>
             if e = CHR ''u''
             then (case unicode_char (take 4 r) of
                     None \<Rightarrow> None
                   | Some x \<Rightarrow> cons_fst x (str_body (drop 4 r)))
             else (case unescape e of None \<Rightarrow> None | Some x \<Rightarrow> cons_fst x (str_body r)))
      else if (of_char c :: nat) < 32 then None
      else cons_fst c (str_body cs))"

definition is_digit :: "char \<Rightarrow> bool" where
  "is_digit c = (48 \<le> (of_char c :: nat) \<and> (of_char c :: nat) \<le> 57)"

definition digits_nat :: "string \<Rightarrow> nat" where
  "digits_nat ds = foldl (\<lambda>n c. 10 * n + (of_char c - 48)) 0 ds"

text \<open>An integer literal; a leading zero stands alone.\<close>

definition parse_nat :: "string \<Rightarrow> (nat \<times> string) option" where
  "parse_nat s =
     (case s of
        [] \<Rightarrow> None
      | c # r \<Rightarrow>
          if c = CHR ''0'' then Some (0, r)
          else if is_digit c then Some (digits_nat (takeWhile is_digit s), dropWhile is_digit s)
          else None)"

definition float_follows :: "string \<Rightarrow> bool" where
  "float_follows s = (s \<noteq> [] \<and> hd s \<in> {CHR ''.'', CHR ''e'', CHR ''E''})"

definition parse_number :: "string \<Rightarrow> (json \<times> string) option" where
  "parse_number s =
     (let (neg, t) = (if s \<noteq> [] \<and> hd s = CHR ''-'' then (True, tl s) else (False, s))
      in case parse_nat t of
           None \<Rightarrow> None
         | Some (n, r) \<Rightarrow>
             if float_follows r then None
             else Some (JInt (if neg then - int n else int n), r))"

lemma length_skip_ws: "length (skip_ws s) \<le> length s"
  by (simp add: skip_ws_def length_dropWhile_le)

text \<open>The conditions on lengths always hold (a value is never empty); they let
  the recursion be seen to end.\<close>

function (sequential) parse_value :: "string \<Rightarrow> (json \<times> string) option"
  and parse_items :: "string \<Rightarrow> (json list \<times> string) option"
  and parse_pairs :: "string \<Rightarrow> ((string \<times> json) list \<times> string) option" where
  "parse_value [] = None"
| "parse_value (c # r) =
     (if c = CHR 0x22 then map_option (apfst JStr) (str_body r)
      else if c = CHR ''['' then
        (if skip_ws r \<noteq> [] \<and> hd (skip_ws r) = CHR '']'' then Some (JArr [], tl (skip_ws r))
         else map_option (apfst JArr) (parse_items (skip_ws r)))
      else if c = CHR ''{'' then
        (if skip_ws r \<noteq> [] \<and> hd (skip_ws r) = CHR ''}'' then Some (JObj [], tl (skip_ws r))
         else map_option (apfst (\<lambda>ps. JObj (foldl (\<lambda>d (k, v). dict_set k v d) [] ps)))
                (parse_pairs (skip_ws r)))
      else if str_startswith (c # r) ''null'' then Some (JNull, drop 4 (c # r))
      else if str_startswith (c # r) ''true'' then Some (JBool True, drop 4 (c # r))
      else if str_startswith (c # r) ''false'' then Some (JBool False, drop 5 (c # r))
      else parse_number (c # r))"
| "parse_items s =
     (case parse_value s of
        None \<Rightarrow> None
      | Some (v, r) \<Rightarrow>
          (case skip_ws r of
             [] \<Rightarrow> None
           | c # r' \<Rightarrow>
               if c = CHR '']'' then Some ([v], r')
               else if c = CHR '','' \<and> length (skip_ws r') < length s
               then cons_fst v (parse_items (skip_ws r'))
               else None))"
| "parse_pairs s =
     (case s of
        [] \<Rightarrow> None
      | q # body \<Rightarrow>
          if q \<noteq> CHR 0x22 then None
          else (case str_body body of
             None \<Rightarrow> None
           | Some (k, r) \<Rightarrow>
               (case skip_ws r of
                  [] \<Rightarrow> None
                | c # r' \<Rightarrow>
                    if c \<noteq> CHR '':'' \<or> \<not> length (skip_ws r') < length s then None
                    else (case parse_value (skip_ws r') of
                       None \<Rightarrow> None
                     | Some (v, r2) \<Rightarrow>
                         (case skip_ws r2 of
                            [] \<Rightarrow> None
                          | c2 # r3 \<Rightarrow>
                              if c2 = CHR ''}'' then Some ([(k, v)], r3)
                              else if c2 = CHR '','' \<and> length (skip_ws r3) < length s
                              then cons_fst (k, v) (parse_pairs (skip_ws r3))
                              else None)))))"
  by pat_completeness auto

termination parse_value
  by (relation "measure (case_sum (\<lambda>s. 2 * length s)
       (case_sum (\<lambda>s. 2 * length s + 1) (\<lambda>s. 2 * length s + 1)))")
    (auto simp: less_Suc_eq_le length_skip_ws)

definition loads :: "string \<Rightarrow> json res" where
  "loads s =
     (case parse_value (skip_ws s) of
        None \<Rightarrow> Inl (OtherError ''JSONDecodeError'')
      | Some (v, r) \<Rightarrow>
          if skip_ws r = [] then Inr v else Inl (OtherError ''JSONDecodeError''))"


declare parse_items.simps [simp del] parse_pairs.simps [simp del]

section \<open>Reading back what was printed\<close>

lemma char_code_less: "(of_char c :: nat) < 256"
  by (rule nat_of_char_less_256)

lemma unicode_char_escape: "unicode_char (hex_digits 4 (of_char c)) = Some c"
proof -
  have "hex_from 0 (hex_digits 4 n) = Some n" if "n < 256" for n
    using that by (simp add: hex_from_digits)
  from this [OF char_code_less] have "hex_from 0 (hex_digits 4 (of_char c)) = Some (of_char c)" .
  then show ?thesis
    using char_code_less [of c] by (simp add: unicode_char_def)
qed

lemma str_body_escape: "str_body (esc_char c @ t) = cons_fst c (str_body t)"
proof (cases "length (esc_char c) = 6")
  case True
  then have esc: "esc_char c = [CHR 0x5C, CHR ''u''] @ hex_digits 4 (of_char c)"
    by (simp add: esc_char_def split: if_splits)
  show ?thesis
    by (simp add: esc unicode_char_escape)
next
  case False
  then show ?thesis
    by (auto simp: esc_char_def unescape_def)
qed

lemma cons_fst_Some [simp]: "cons_fst x (Some (xs, r)) = Some (x # xs, r)"
  by (simp add: cons_fst_def)

lemma str_body_dumps: "str_body (concat (map esc_char s) @ CHR 0x22 # rest) = Some (s, rest)"
  by (induction s) (simp_all add: str_body_escape)

lemma is_digit_char: "d < 10 \<Longrightarrow> is_digit (digit_char d)"
  by (simp add: is_digit_def digit_char_def)

lemma nat_str_digits: "list_all is_digit (nat_str n)"
proof (induction n rule: nat_str.induct)
  case (1 n)
  then show ?case
    by (subst nat_str.simps) (auto simp: is_digit_char)
qed

lemma nat_str_not_Nil [simp]: "nat_str n \<noteq> []"
  by (subst nat_str.simps) simp

lemma digit_char_code: "d < 10 \<Longrightarrow> (of_char (digit_char d) :: nat) = 48 + d"
  by (simp add: digit_char_def)

lemma digits_nat_str: "digits_nat (nat_str n) = n"
proof (induction n rule: nat_str.induct)
  case (1 n)
  show ?case
  proof (cases "n < 10")
    case True
    then show ?thesis
      by (subst nat_str.simps) (simp add: digits_nat_def digit_char_code)
  next
    case False
    then have "digits_nat (nat_str n) = 10 * digits_nat (nat_str (n div 10)) + n mod 10"
      by (subst nat_str.simps) (simp add: digits_nat_def digit_char_code)
    then show ?thesis
      using 1 False by simp
  qed
qed

lemma nat_str_zero: "hd (nat_str n) = CHR ''0'' \<Longrightarrow> n = 0"
proof (induction n rule: nat_str.induct)
  case (1 n)
  show ?case
  proof (cases "n < 10")
    case True
    then have "hd (nat_str n) = digit_char n"
      by (subst nat_str.simps) simp
    moreover have "(of_char (CHR ''0'') :: nat) = 48" by simp
    ultimately show ?thesis
      using 1(2) digit_char_code [of n] True by (metis add_cancel_left_right)
  next
    case False
    then have "hd (nat_str n) = hd (nat_str (n div 10))"
      by (subst nat_str.simps) simp
    then show ?thesis
      using 1 False by simp
  qed
qed

text \<open>What may follow a value inside a printed text: nothing, or the separator
  or bracket behind it.\<close>

definition closes :: "string \<Rightarrow> bool" where
  "closes rest \<longleftrightarrow> rest = [] \<or> hd rest \<in> {CHR '','', CHR '']'', CHR ''}''}"

lemma closes_simps [simp]:
  "closes []" "closes (CHR '','' # r)" "closes (CHR '']'' # r)" "closes (CHR ''}'' # r)"
  by (simp_all add: closes_def)

lemma parse_nat_str:
  assumes "closes rest"
  shows "parse_nat (nat_str n @ rest) = Some (n, rest)"
proof -
  obtain c r where s: "nat_str n = c # r"
    by (cases "nat_str n") auto
  have c: "is_digit c" "list_all is_digit r"
    using nat_str_digits [of n] by (simp_all add: s)
  have stop: "takeWhile is_digit rest = []" "dropWhile is_digit rest = rest"
    using assms by (cases rest; auto simp: closes_def is_digit_def)+
  have "takeWhile is_digit (nat_str n @ rest) = nat_str n" "dropWhile is_digit (nat_str n @ rest) = rest"
    using nat_str_digits [of n] stop by (simp_all add: list_all_iff)
  moreover have "r = [] \<and> n = 0" if "c = CHR ''0''"
  proof -
    have "n = 0" using that nat_str_zero [of n] by (simp add: s)
    moreover have "nat_str 0 = ''0''" by (simp add: nat_str.simps digit_char_def char_of_def bit_0)
    ultimately show ?thesis using s that by simp
  qed
  ultimately show ?thesis
    using c by (auto simp: parse_nat_def s digits_nat_str [of n, unfolded s])
qed

lemma parse_number_str:
  assumes "closes rest"
  shows "parse_number (int_str i @ rest) = Some (JInt i, rest)"
proof -
  have no_float: "\<not> float_follows rest"
    using assms by (auto simp: float_follows_def closes_def)
  have "hd (nat_str n @ rest) \<noteq> CHR ''-''" for n
    using nat_str_digits [of n] by (cases "nat_str n") (auto simp: is_digit_def)
  then show ?thesis
    using assms no_float by (simp add: parse_number_def int_str_def parse_nat_str)
qed

lemma parse_value_number:
  assumes "is_digit c \<or> c = CHR ''-''"
  shows "parse_value (c # r) = parse_number (c # r)"
proof -
  have "c \<notin> {CHR 0x22, CHR ''['', CHR ''{'', CHR ''n'', CHR ''t'', CHR ''f''}"
    using assms by (auto simp: is_digit_def)
  then show ?thesis
    by (simp add: str_startswith_def)
qed

lemma parse_value_int: "closes rest \<Longrightarrow> parse_value (int_str i @ rest) = Some (JInt i, rest)"
proof -
  obtain c r where s: "int_str i = c # r" and c: "is_digit c \<or> c = CHR ''-''"
    using nat_str_digits [of "nat i"]
    by (cases "nat_str (nat i)"; cases "i < 0") (auto simp: int_str_def)
  assume "closes rest"
  from parse_number_str [OF this, of i] show ?thesis
    using parse_value_number [OF c] by (simp add: s)
qed

text \<open>A dictionary has each key once.\<close>

fun json_wf :: "json \<Rightarrow> bool" where
  "json_wf (JArr xs) = list_all json_wf xs"
| "json_wf (JObj kvs) = (distinct (map fst kvs) \<and> list_all (\<lambda>kv. json_wf (snd kv)) kvs)"
| "json_wf _ = True"

definition begins_value :: "char \<Rightarrow> bool" where
  "begins_value c \<longleftrightarrow> \<not> json_ws c \<and> c \<notin> {CHR '']'', CHR ''}''}"

lemma dumps_begins: "\<exists>c r. dumps j = c # r \<and> begins_value c"
proof (cases j)
  case (JInt i)
  show ?thesis
    using nat_str_digits [of "nat i"] nat_str_digits [of "nat (- i)"]
    by (cases "nat_str (nat i)")
      (auto simp: JInt int_str_def begins_value_def json_ws_def is_digit_def)
qed (auto simp: dumps_str_def begins_value_def json_ws_def)

lemma skip_ws_dumps [simp]: "skip_ws (dumps j @ r) = dumps j @ r"
  using dumps_begins [of j] by (auto simp: skip_ws_def begins_value_def)

lemma skip_ws_nonblank:
  "\<not> json_ws c \<Longrightarrow> skip_ws (c # r) = c # r"
  by (simp add: skip_ws_def)

lemma skip_ws_blank [simp]: "skip_ws (CHR '' '' # r) = skip_ws r"
  by (simp add: skip_ws_def json_ws_def)

lemma skip_ws_marks [simp]:
  "skip_ws (CHR '','' # r) = CHR '','' # r" "skip_ws (CHR '']'' # r) = CHR '']'' # r"
  "skip_ws (CHR ''}'' # r) = CHR ''}'' # r" "skip_ws (CHR '':'' # r) = CHR '':'' # r"
  "skip_ws (CHR 0x22 # r) = CHR 0x22 # r" "skip_ws [] = []"
  by (simp_all add: skip_ws_def json_ws_def)

lemma parse_items_dumps:
  assumes "xs \<noteq> []"
    and "\<And>x r. x \<in> set xs \<Longrightarrow> closes r \<Longrightarrow> parse_value (dumps x @ r) = Some (x, r)"
  shows "parse_items (str_join '', '' (map dumps xs) @ CHR '']'' # rest) = Some (xs, rest)"
  using assms
proof (induction xs)
  case (Cons x xs)
  let ?tail = "CHR '']'' # rest"
  show ?case
  proof (cases "xs = []")
    case True
    then show ?thesis
      using Cons.prems(2) [of x ?tail] by (subst parse_items.simps) simp
  next
    case False
    let ?more = "str_join '', '' (map dumps xs) @ ?tail"
    have printed: "str_join '', '' (map dumps (x # xs)) @ ?tail = dumps x @ CHR '','' # CHR '' '' # ?more"
      using False by (simp add: str_join_Cons)
    have more: "skip_ws ?more = ?more"
      using False by (cases xs; cases "tl xs") (auto simp: str_join_Cons)
    have "parse_items ?more = Some (xs, rest)"
      using False Cons by simp
    then show ?thesis
      using Cons.prems(2) [of x "CHR '','' # CHR '' '' # ?more"]
      unfolding printed by (subst parse_items.simps) (simp add: more)
  qed
qed simp

lemma parse_pairs_dumps:
  assumes "kvs \<noteq> []"
    and "\<And>kv r. kv \<in> set kvs \<Longrightarrow> closes r \<Longrightarrow> parse_value (dumps (snd kv) @ r) = Some (snd kv, r)"
  shows "parse_pairs (str_join '', '' (map (\<lambda>kv. dumps_str (fst kv) @ '': '' @ dumps (snd kv)) kvs) @
           CHR ''}'' # rest) = Some (kvs, rest)"
  using assms
proof (induction kvs)
  case (Cons kv kvs)
  let ?print = "\<lambda>kv. dumps_str (fst kv) @ '': '' @ dumps (snd kv)"
  let ?tail = "CHR ''}'' # rest"
  show ?case
  proof (cases "kvs = []")
    case True
    then show ?thesis
      using Cons.prems(2) [of kv ?tail]
      by (subst parse_pairs.simps) (simp add: dumps_str_def str_body_dumps)
  next
    case False
    define more where "more = str_join '', '' (map ?print kvs) @ ?tail"
    have printed: "str_join '', '' (map ?print (kv # kvs)) @ ?tail =
        ?print kv @ CHR '','' # CHR '' '' # more"
      using False by (simp add: str_join_Cons more_def)
    have "skip_ws more = more"
      using False by (cases kvs; cases "tl kvs") (auto simp: more_def str_join_Cons dumps_str_def)
    moreover have "parse_pairs more = Some (kvs, rest)"
      using False Cons by (simp add: more_def)
    ultimately show ?thesis
      using Cons.prems(2) [of kv "CHR '','' # CHR '' '' # more"]
      unfolding printed by (subst parse_pairs.simps) (simp add: dumps_str_def str_body_dumps)
  qed
qed simp

lemma dict_of_pairs:
  "distinct (map fst d) \<Longrightarrow> distinct (map fst ps) \<Longrightarrow> fst ` set d \<inter> fst ` set ps = {} \<Longrightarrow>
   foldl (\<lambda>d (k, v). dict_set k v d) d ps = d @ ps"
proof (induction ps arbitrary: d)
  case (Cons p ps)
  then have "fst p \<notin> fst ` set d" by auto
  then have step: "dict_set (fst p) (snd p) d = d @ [p]"
    by (simp add: dict_set_fresh)
  show ?case
    using Cons.IH [of "d @ [p]"] Cons.prems by (simp add: step case_prod_beta)
qed simp

lemma parse_value_dumps:
  "json_wf j \<Longrightarrow> closes rest \<Longrightarrow> parse_value (dumps j @ rest) = Some (j, rest)"
proof (induction j arbitrary: rest rule: json_wf.induct)
  case (1 xs)
  show ?case
  proof (cases "xs = []")
    case False
    let ?body = "str_join '', '' (map dumps xs) @ CHR '']'' # rest"
    have "parse_items ?body = Some (xs, rest)"
      using 1 False by (intro parse_items_dumps) (auto simp: list_all_iff)
    moreover obtain c r where "?body = c # r" "begins_value c"
      using False dumps_begins [of "hd xs"] by (cases xs; cases "tl xs") (auto simp: str_join_Cons)
    ultimately show ?thesis
      by (auto simp: skip_ws_nonblank begins_value_def)
  qed simp
next
  case (2 kvs)
  let ?print = "\<lambda>kv. dumps_str (fst kv) @ '': '' @ dumps (snd kv)"
  show ?case
  proof (cases "kvs = []")
    case False
    let ?body = "str_join '', '' (map ?print kvs) @ CHR ''}'' # rest"
    have "parse_pairs ?body = Some (kvs, rest)"
      using 2 False by (intro parse_pairs_dumps) (auto simp: list_all_iff)
    moreover obtain r where "?body = CHR 0x22 # r"
      using False by (cases kvs; cases "tl kvs") (auto simp: str_join_Cons dumps_str_def)
    moreover have "foldl (\<lambda>d (k, v). dict_set k v d) [] kvs = kvs"
      using dict_of_pairs [of "[]" kvs] 2 by simp
    ultimately show ?thesis
      by simp
  qed simp
qed (auto simp: parse_value_int dumps_str_def str_body_dumps str_startswith_def split: if_splits)

text \<open>JSON values survive being stored as text, whatever characters the strings
  hold and however deeply they are nested.\<close>

lemma loads_dumps:
  assumes "json_wf j"
  shows "loads (dumps j) = Inr j"
proof -
  have "skip_ws (dumps j) = dumps j"
    using skip_ws_dumps [of j "[]"] by simp
  then show ?thesis
    using parse_value_dumps [OF assms, of "[]"] by (simp add: loads_def)
qed
end
