(* ===== verification/Discovery_Domain.thy ===== *)
theory Discovery_Domain
  imports Repository_Table
begin

text \<open>
  \<open>domain/discovery\<close>: the host, its cPanel accounts, their WordPress
  installations, and the raw findings of the readers
  (\<open>entities.py\<close>, \<open>value_objects.py\<close>).
\<close>

record server = base_entity +
  sv_hostname :: string
  sv_os_info :: string
  sv_agent_version :: string
  sv_last_seen_at :: datetime

definition server_mark_seen :: "datetime \<Rightarrow> datetime \<Rightarrow> server \<Rightarrow> server" where
  "server_mark_seen now tm s = touch now (s\<lparr>sv_last_seen_at := tm\<rparr>)"

record cpanel_account = base_entity +
  ac_server_id :: uuid
  ac_username :: linux_username
  ac_primary_domain :: domain_name
  ac_home_directory :: absolute_file_path
  ac_is_suspended :: bool
  ac_last_seen_at :: datetime
  ac_is_active :: bool

definition account_mark_seen ::
    "datetime \<Rightarrow> domain_name \<Rightarrow> bool \<Rightarrow> datetime \<Rightarrow> cpanel_account \<Rightarrow> cpanel_account" where
  "account_mark_seen now domain suspended tm a =
     touch now (a\<lparr>ac_primary_domain := domain, ac_is_suspended := suspended,
                  ac_last_seen_at := tm, ac_is_active := True\<rparr>)"

definition account_mark_inactive :: "datetime \<Rightarrow> cpanel_account \<Rightarrow> cpanel_account" where
  "account_mark_inactive now a = touch now (a\<lparr>ac_is_active := False\<rparr>)"

record wordpress_installation = base_entity +
  wi_account_id :: uuid
  wi_absolute_path :: absolute_file_path
  wi_domain :: "domain_name option"
  wi_wp_version :: "string option"
  wi_is_multisite :: bool
  wi_last_seen_at :: datetime
  wi_is_active :: bool
  wi_php_version :: "string option"

definition installation_mark_seen ::
    "datetime \<Rightarrow> domain_name option \<Rightarrow> string option \<Rightarrow> bool \<Rightarrow> datetime \<Rightarrow> string option \<Rightarrow>
     wordpress_installation \<Rightarrow> wordpress_installation" where
  "installation_mark_seen now domain wp_version multisite tm php_version i =
     touch now (i\<lparr>wi_domain := domain, wi_wp_version := wp_version, wi_is_multisite := multisite,
                  wi_last_seen_at := tm, wi_is_active := True, wi_php_version := php_version\<rparr>)"

definition installation_mark_inactive ::
    "datetime \<Rightarrow> wordpress_installation \<Rightarrow> wordpress_installation" where
  "installation_mark_inactive now i = touch now (i\<lparr>wi_is_active := False\<rparr>)"

record discovered_account =
  da_username :: linux_username
  da_primary_domain :: domain_name
  da_home_directory :: absolute_file_path
  da_is_suspended :: bool

record discovered_installation =
  di_absolute_path :: absolute_file_path
  di_domain :: "domain_name option"
  di_wp_version :: "string option"
  di_is_multisite :: bool
  di_php_version :: "string option"

lemma server_mark_seen_simps [simp]:
  "eid (server_mark_seen now tm s) = eid s"
  "sv_hostname (server_mark_seen now tm s) = sv_hostname s"
  "sv_last_seen_at (server_mark_seen now tm s) = tm"
  by (simp_all add: server_mark_seen_def touch_def)

lemma account_mark_seen_simps [simp]:
  "eid (account_mark_seen now d s tm a) = eid a"
  "ac_username (account_mark_seen now d s tm a) = ac_username a"
  "ac_is_active (account_mark_seen now d s tm a) = True"
  "ac_server_id (account_mark_seen now d s tm a) = ac_server_id a"
  "ac_primary_domain (account_mark_seen now d s tm a) = d"
  "ac_is_suspended (account_mark_seen now d s tm a) = s"
  "ac_home_directory (account_mark_seen now d s tm a) = ac_home_directory a"
  "ac_last_seen_at (account_mark_seen now d s tm a) = tm"
  by (simp_all add: account_mark_seen_def touch_def)

lemma account_mark_inactive_simps [simp]:
  "eid (account_mark_inactive now a) = eid a"
  "ac_username (account_mark_inactive now a) = ac_username a"
  "ac_is_active (account_mark_inactive now a) = False"
  by (simp_all add: account_mark_inactive_def touch_def)

lemma installation_mark_seen_simps [simp]:
  "eid (installation_mark_seen now d v m tm php i) = eid i"
  "wi_absolute_path (installation_mark_seen now d v m tm php i) = wi_absolute_path i"
  "wi_account_id (installation_mark_seen now d v m tm php i) = wi_account_id i"
  "wi_is_active (installation_mark_seen now d v m tm php i) = True"
  by (simp_all add: installation_mark_seen_def touch_def)

lemma installation_mark_inactive_simps [simp]:
  "eid (installation_mark_inactive now i) = eid i"
  "wi_absolute_path (installation_mark_inactive now i) = wi_absolute_path i"
  "wi_is_active (installation_mark_inactive now i) = False"
  by (simp_all add: installation_mark_inactive_def touch_def)

end
