(* ===== verification/Intelligence_Domain.thy ===== *)
theory Intelligence_Domain
  imports Complex_Main Repository_Table
begin

text \<open>
  \<open>domain/intelligence\<close>: incidents, their links to accounts and their
  timelines. A confidence is a rational number: Python's rounding of binary
  floating point is not modelled.
\<close>

datatype incident_status = OPEN | CONTAINED | RESOLVED | FALSE_POSITIVE

fun incident_status_value :: "incident_status \<Rightarrow> string" where
  "incident_status_value OPEN = ''OPEN''"
| "incident_status_value CONTAINED = ''CONTAINED''"
| "incident_status_value RESOLVED = ''RESOLVED''"
| "incident_status_value FALSE_POSITIVE = ''FALSE_POSITIVE''"

definition incident_status_of :: "string \<Rightarrow> incident_status res" where
  "incident_status_of s =
     (case map_of (map (\<lambda>v. (incident_status_value v, v)) [OPEN, CONTAINED, RESOLVED, FALSE_POSITIVE]) s of
        Some v \<Rightarrow> Inr v
      | None \<Rightarrow> Inl (OtherError ''ValueError''))"

lemma incident_status_of_value [simp]: "incident_status_of (incident_status_value v) = Inr v"
  by (cases v) (simp_all add: incident_status_of_def)

record root_cause_conclusion =
  rc_confidence :: rat
  rc_summary :: string
  rc_evidence :: "string list"
  rc_reasoning :: string
  rc_recommended_action :: string
  rc_false_positive_probability :: rat

record incident = base_entity +
  in_title :: string
  in_signature :: string
  in_status :: incident_status
  in_severity :: severity
  in_confidence :: rat
  in_first_seen_at :: datetime
  in_last_seen_at :: datetime
  in_root_cause :: "string option"
  in_recommended_actions :: "string option"
  in_false_positive_probability :: "rat option"

definition record_new_evidence ::
    "datetime \<Rightarrow> datetime \<Rightarrow> rat \<Rightarrow> severity \<Rightarrow> incident \<Rightarrow> incident" where
  "record_new_evidence now tm confidence severity i =
     touch now (i\<lparr>in_last_seen_at := max (in_last_seen_at i) tm,
                  in_confidence := confidence,
                  in_severity := (if severity_rank severity > severity_rank (in_severity i)
                                  then severity else in_severity i)\<rparr>)"

definition apply_root_cause ::
    "datetime \<Rightarrow> root_cause_conclusion \<Rightarrow> incident \<Rightarrow> incident" where
  "apply_root_cause now c i =
     touch now (i\<lparr>in_root_cause := Some (rc_summary c),
                  in_recommended_actions := Some (rc_recommended_action c),
                  in_false_positive_probability := Some (rc_false_positive_probability c),
                  in_confidence := max (in_confidence i) (rc_confidence c)\<rparr>)"

definition mark_status :: "datetime \<Rightarrow> incident_status \<Rightarrow> incident \<Rightarrow> incident" where
  "mark_status now status i = touch now (i\<lparr>in_status := status\<rparr>)"

record incident_account_link = base_entity +
  li_incident_id :: uuid
  li_account_id :: uuid

record threat_timeline_entry = base_entity +
  tl_incident_id :: uuid
  tl_stage :: string
  tl_description :: string
  tl_occurred_at :: datetime
  tl_source_event_id :: "uuid option"

lemma record_new_evidence_simps [simp]:
  "eid (record_new_evidence now tm c s i) = eid i"
  "in_signature (record_new_evidence now tm c s i) = in_signature i"
  "in_status (record_new_evidence now tm c s i) = in_status i"
  "in_confidence (record_new_evidence now tm c s i) = c"
  "in_last_seen_at (record_new_evidence now tm c s i) = max (in_last_seen_at i) tm"
  "in_severity (record_new_evidence now tm c s i) = max (in_severity i) s"
  "in_root_cause (record_new_evidence now tm c s i) = in_root_cause i"
  by (auto simp: record_new_evidence_def touch_def max_def less_eq_severity_def)

lemma apply_root_cause_simps [simp]:
  "eid (apply_root_cause now c i) = eid i"
  "in_root_cause (apply_root_cause now c i) = Some (rc_summary c)"
  "in_signature (apply_root_cause now c i) = in_signature i"
  "in_status (apply_root_cause now c i) = in_status i"
  "in_severity (apply_root_cause now c i) = in_severity i"
  "in_confidence (apply_root_cause now c i) = max (in_confidence i) (rc_confidence c)"
  by (simp_all add: apply_root_cause_def touch_def)

end
