(* ===== verification/Inventory_Domain.thy ===== *)
theory Inventory_Domain
  imports Complex_Main Repository_Table
begin

text \<open>
  The remaining entities: plugins and themes (\<open>domain/inventory\<close>),
  configuration items (\<open>domain/monitoring\<close>), cron jobs and core checksums
  (\<open>domain/wordpress\<close>), temp-file observations (\<open>domain/forensics\<close>) and job
  heartbeats (\<open>domain/observability\<close>), with the raw findings their scanners
  produce.
\<close>

section \<open>Plugins and themes\<close>

record installed_plugin = base_entity +
  pl_installation_id :: uuid
  pl_slug :: string
  pl_name :: string
  pl_version :: "string option"
  pl_is_present :: bool
  pl_last_seen_at :: datetime

definition plugin_mark_seen ::
    "datetime \<Rightarrow> string \<Rightarrow> string option \<Rightarrow> datetime \<Rightarrow> installed_plugin \<Rightarrow> installed_plugin" where
  "plugin_mark_seen now name version tm p =
     touch now (p\<lparr>pl_name := name, pl_version := version, pl_is_present := True,
                  pl_last_seen_at := tm\<rparr>)"

definition plugin_mark_absent :: "datetime \<Rightarrow> datetime \<Rightarrow> installed_plugin \<Rightarrow> installed_plugin" where
  "plugin_mark_absent now tm p = touch now (p\<lparr>pl_is_present := False, pl_last_seen_at := tm\<rparr>)"

record installed_theme = base_entity +
  th_installation_id :: uuid
  th_slug :: string
  th_name :: string
  th_version :: "string option"
  th_is_present :: bool
  th_last_seen_at :: datetime

definition theme_mark_seen ::
    "datetime \<Rightarrow> string \<Rightarrow> string option \<Rightarrow> datetime \<Rightarrow> installed_theme \<Rightarrow> installed_theme" where
  "theme_mark_seen now name version tm p =
     touch now (p\<lparr>th_name := name, th_version := version, th_is_present := True,
                  th_last_seen_at := tm\<rparr>)"

definition theme_mark_absent :: "datetime \<Rightarrow> datetime \<Rightarrow> installed_theme \<Rightarrow> installed_theme" where
  "theme_mark_absent now tm p = touch now (p\<lparr>th_is_present := False, th_last_seen_at := tm\<rparr>)"

record discovered_plugin =
  dp_slug :: string
  dp_name :: string
  dp_version :: "string option"

record discovered_theme =
  dt_slug :: string
  dt_name :: string
  dt_version :: "string option"

section \<open>Configuration items\<close>

record configuration_item = base_entity +
  ci_installation_id :: uuid
  ci_config_source :: string
  ci_key :: string
  ci_raw_value :: "string option"
  ci_is_flagged :: bool
  ci_flag_reason :: "string option"
  ci_is_present :: bool
  ci_last_seen_at :: datetime

definition config_mark_seen ::
    "datetime \<Rightarrow> string option \<Rightarrow> bool \<Rightarrow> string option \<Rightarrow> datetime \<Rightarrow>
     configuration_item \<Rightarrow> configuration_item" where
  "config_mark_seen now raw_value flagged reason tm c =
     touch now (c\<lparr>ci_raw_value := raw_value, ci_is_flagged := flagged, ci_flag_reason := reason,
                  ci_is_present := True, ci_last_seen_at := tm\<rparr>)"

definition config_mark_absent :: "datetime \<Rightarrow> datetime \<Rightarrow> configuration_item \<Rightarrow> configuration_item" where
  "config_mark_absent now tm c = touch now (c\<lparr>ci_is_present := False, ci_last_seen_at := tm\<rparr>)"

record discovered_config_item =
  dc_config_source :: string
  dc_key :: string
  dc_raw_value :: "string option"
  dc_is_flagged :: bool
  dc_flag_reason :: "string option"

section \<open>Cron jobs and core checksums\<close>

record wordpress_cron_job = base_entity +
  cj_installation_id :: uuid
  cj_command :: string
  cj_schedule_raw :: string
  cj_is_suspicious :: bool
  cj_flag_reason :: "string option"
  cj_is_present :: bool
  cj_last_seen_at :: datetime

definition cron_mark_seen ::
    "datetime \<Rightarrow> string \<Rightarrow> bool \<Rightarrow> string option \<Rightarrow> datetime \<Rightarrow>
     wordpress_cron_job \<Rightarrow> wordpress_cron_job" where
  "cron_mark_seen now schedule suspicious reason tm c =
     touch now (c\<lparr>cj_schedule_raw := schedule, cj_is_suspicious := suspicious,
                  cj_flag_reason := reason, cj_is_present := True, cj_last_seen_at := tm\<rparr>)"

definition cron_mark_absent :: "datetime \<Rightarrow> datetime \<Rightarrow> wordpress_cron_job \<Rightarrow> wordpress_cron_job" where
  "cron_mark_absent now tm c = touch now (c\<lparr>cj_is_present := False, cj_last_seen_at := tm\<rparr>)"

record core_checksum_record = base_entity +
  cs_wp_version :: string
  cs_relative_path :: string
  cs_sha256 :: string
  cs_fetched_at :: datetime

section \<open>Temp-file observations\<close>

datatype temp_file_verdict = LEGITIMATE | SUSPICIOUS | MALICIOUS

fun verdict_value :: "temp_file_verdict \<Rightarrow> string" where
  "verdict_value LEGITIMATE = ''LEGITIMATE''"
| "verdict_value SUSPICIOUS = ''SUSPICIOUS''"
| "verdict_value MALICIOUS = ''MALICIOUS''"

definition verdict_of :: "string \<Rightarrow> temp_file_verdict res" where
  "verdict_of s =
     (case map_of (map (\<lambda>v. (verdict_value v, v)) [LEGITIMATE, SUSPICIOUS, MALICIOUS]) s of
        Some v \<Rightarrow> Inr v
      | None \<Rightarrow> Inl (OtherError ''ValueError''))"

lemma verdict_of_value [simp]: "verdict_of (verdict_value v) = Inr v"
  by (cases v) (simp_all add: verdict_of_def)

record process_context =
  pc_pid :: "int option"
  pc_ppid :: "int option"
  pc_executable_path :: "string option"
  pc_command_line :: "string option"
  pc_open_files :: "string list"
  pc_network_connections :: "string list"

record temp_file_observation = base_entity +
  to_absolute_path :: absolute_file_path
  to_sha256 :: "sha256_hash option"
  to_owner :: string
  to_size_bytes :: int
  to_verdict :: temp_file_verdict
  to_verdict_reason :: string
  to_matched_rule_ids :: "string list"
  to_process :: "process_context option"
  to_account_id :: "uuid option"
  to_detected_at :: datetime
  to_file_permissions :: "string option"
  to_mime_type :: "string option"
  to_server_id :: "uuid option"

section \<open>Job heartbeats\<close>

datatype job_heartbeat_status = SUCCESS | FAILURE

fun heartbeat_status_value :: "job_heartbeat_status \<Rightarrow> string" where
  "heartbeat_status_value SUCCESS = ''success''"
| "heartbeat_status_value FAILURE = ''failure''"

definition heartbeat_status_of :: "string \<Rightarrow> job_heartbeat_status res" where
  "heartbeat_status_of s =
     (case map_of (map (\<lambda>v. (heartbeat_status_value v, v)) [SUCCESS, FAILURE]) s of
        Some v \<Rightarrow> Inr v
      | None \<Rightarrow> Inl (OtherError ''ValueError''))"

lemma heartbeat_status_of_value [simp]: "heartbeat_status_of (heartbeat_status_value v) = Inr v"
  by (cases v) (simp_all add: heartbeat_status_of_def)

record job_heartbeat = base_entity +
  hb_job_id :: string
  hb_status :: job_heartbeat_status
  hb_last_run_at :: datetime
  hb_last_duration_ms :: rat
  hb_last_error :: "string option"

definition heartbeat_record ::
    "datetime \<Rightarrow> job_heartbeat_status \<Rightarrow> datetime \<Rightarrow> rat \<Rightarrow> string option \<Rightarrow>
     job_heartbeat \<Rightarrow> job_heartbeat" where
  "heartbeat_record now status tm duration_ms err h =
     touch now (h\<lparr>hb_status := status, hb_last_run_at := tm, hb_last_duration_ms := duration_ms,
                  hb_last_error := err\<rparr>)"

lemmas mark_defs = plugin_mark_seen_def plugin_mark_absent_def theme_mark_seen_def
  theme_mark_absent_def config_mark_seen_def config_mark_absent_def cron_mark_seen_def
  cron_mark_absent_def heartbeat_record_def touch_def

lemma mark_eid [simp]:
  "eid (plugin_mark_seen now n v tm p) = eid p"
  "eid (plugin_mark_absent now tm p) = eid p"
  "eid (theme_mark_seen now n v tm t) = eid t"
  "eid (theme_mark_absent now tm t) = eid t"
  "eid (config_mark_seen now rv fl r tm c) = eid c"
  "eid (config_mark_absent now tm c) = eid c"
  "eid (cron_mark_seen now sch su r tm j) = eid j"
  "eid (cron_mark_absent now tm j) = eid j"
  "eid (heartbeat_record now st tm d er h) = eid h"
  by (simp_all add: mark_defs)

lemma plugin_mark_simps [simp]:
  "pl_installation_id (plugin_mark_seen now n v tm p) = pl_installation_id p"
  "pl_slug (plugin_mark_seen now n v tm p) = pl_slug p"
  "pl_name (plugin_mark_seen now n v tm p) = n"
  "pl_version (plugin_mark_seen now n v tm p) = v"
  "pl_is_present (plugin_mark_seen now n v tm p) = True"
  "pl_installation_id (plugin_mark_absent now tm p) = pl_installation_id p"
  "pl_slug (plugin_mark_absent now tm p) = pl_slug p"
  "pl_name (plugin_mark_absent now tm p) = pl_name p"
  "pl_version (plugin_mark_absent now tm p) = pl_version p"
  "pl_is_present (plugin_mark_absent now tm p) = False"
  by (simp_all add: mark_defs)

lemma theme_mark_simps [simp]:
  "th_installation_id (theme_mark_seen now n v tm p) = th_installation_id p"
  "th_slug (theme_mark_seen now n v tm p) = th_slug p"
  "th_name (theme_mark_seen now n v tm p) = n"
  "th_version (theme_mark_seen now n v tm p) = v"
  "th_is_present (theme_mark_seen now n v tm p) = True"
  "th_installation_id (theme_mark_absent now tm p) = th_installation_id p"
  "th_slug (theme_mark_absent now tm p) = th_slug p"
  "th_name (theme_mark_absent now tm p) = th_name p"
  "th_version (theme_mark_absent now tm p) = th_version p"
  "th_is_present (theme_mark_absent now tm p) = False"
  by (simp_all add: mark_defs)

lemma config_mark_simps [simp]:
  "ci_installation_id (config_mark_seen now rv fl r tm c) = ci_installation_id c"
  "ci_config_source (config_mark_seen now rv fl r tm c) = ci_config_source c"
  "ci_key (config_mark_seen now rv fl r tm c) = ci_key c"
  "ci_raw_value (config_mark_seen now rv fl r tm c) = rv"
  "ci_is_flagged (config_mark_seen now rv fl r tm c) = fl"
  "ci_flag_reason (config_mark_seen now rv fl r tm c) = r"
  "ci_is_present (config_mark_seen now rv fl r tm c) = True"
  "ci_installation_id (config_mark_absent now tm c) = ci_installation_id c"
  "ci_config_source (config_mark_absent now tm c) = ci_config_source c"
  "ci_key (config_mark_absent now tm c) = ci_key c"
  "ci_is_present (config_mark_absent now tm c) = False"
  by (simp_all add: mark_defs)

lemma cron_mark_simps [simp]:
  "cj_installation_id (cron_mark_seen now sch su r tm j) = cj_installation_id j"
  "cj_command (cron_mark_seen now sch su r tm j) = cj_command j"
  "cj_schedule_raw (cron_mark_seen now sch su r tm j) = sch"
  "cj_is_suspicious (cron_mark_seen now sch su r tm j) = su"
  "cj_flag_reason (cron_mark_seen now sch su r tm j) = r"
  "cj_is_present (cron_mark_seen now sch su r tm j) = True"
  "cj_installation_id (cron_mark_absent now tm j) = cj_installation_id j"
  "cj_command (cron_mark_absent now tm j) = cj_command j"
  "cj_is_present (cron_mark_absent now tm j) = False"
  by (simp_all add: mark_defs)

end
