(* ===== verification/Row_Mapping.thy ===== *)
theory Row_Mapping
  imports Row_Models Json_Text Discovery_Domain Intelligence_Domain Integrity_Domain Inventory_Domain
begin

text \<open>
  The mapping between entities and rows: the functions \<open>_..._to_model\<close> and
  \<open>_..._to_entity\<close> of \<open>infrastructure/persistence/repositories\<close>. Writing never
  fails; reading validates again, so it can raise. The locale \<open>row_mapping\<close> is
  what the repositories rely on, interpreted for every table: the identifier
  is the row's key, and a valid entity is read back as it was written.

  Instants are numbers of microseconds in UTC, so \<open>ensure_utc\<close>, which only puts
  the time zone back, is the identity here (the repositories of events,
  intelligence, forensics and observability call it, the others do not). A
  JSON column that does not hold the shape its writer gives it is refused with
  the exception of the first access that fails.
\<close>

definition bind_res :: "'a res \<Rightarrow> ('a \<Rightarrow> 'b res) \<Rightarrow> 'b res" where
  "bind_res r f = (case r of Inl e \<Rightarrow> Inl e | Inr x \<Rightarrow> f x)"

definition opt_res :: "('a \<Rightarrow> 'b res) \<Rightarrow> 'a option \<Rightarrow> 'b option res" where
  "opt_res f x = (case x of None \<Rightarrow> Inr None | Some y \<Rightarrow> bind_res (f y) (\<lambda>z. Inr (Some z)))"

fun map_res :: "('a \<Rightarrow> 'b res) \<Rightarrow> 'a list \<Rightarrow> 'b list res" where
  "map_res f [] = Inr []"
| "map_res f (x # xs) = bind_res (f x) (\<lambda>y. bind_res (map_res f xs) (\<lambda>ys. Inr (y # ys)))"

lemma bind_res_simps [simp]: "bind_res (Inr x) f = f x" "bind_res (Inl e) f = Inl e"
  by (simp_all add: bind_res_def)

lemma opt_res_map:
  "pred_option v x \<Longrightarrow> (\<And>y. v y \<Longrightarrow> f (g y) = Inr y) \<Longrightarrow> opt_res f (map_option g x) = Inr x"
  by (cases x) (auto simp: opt_res_def)

lemma map_res_map:
  "(\<And>y. y \<in> set xs \<Longrightarrow> f (g y) = Inr y) \<Longrightarrow> map_res f (map g xs) = Inr xs"
  by (induction xs) auto

declare dumps.simps [simp del]

section \<open>Structured columns\<close>

definition payload_of :: "string \<Rightarrow> (string \<times> json) list res" where
  "payload_of s = bind_res (loads s) (\<lambda>j.
     case j of JObj kvs \<Rightarrow> Inr kvs | _ \<Rightarrow> Inl (TypeError ''payload is not an object''))"

fun str_of_json :: "json \<Rightarrow> string res" where
  "str_of_json (JStr s) = Inr s"
| "str_of_json _ = Inl (TypeError ''expected a string'')"

fun strs_of_json :: "json \<Rightarrow> string list res" where
  "strs_of_json (JArr xs) = map_res str_of_json xs"
| "strs_of_json _ = Inl (TypeError ''expected a list'')"

fun opt_str_of_json :: "json \<Rightarrow> string option res" where
  "opt_str_of_json JNull = Inr None"
| "opt_str_of_json j = bind_res (str_of_json j) (\<lambda>s. Inr (Some s))"

fun opt_int_of_json :: "json \<Rightarrow> int option res" where
  "opt_int_of_json JNull = Inr None"
| "opt_int_of_json (JInt i) = Inr (Some i)"
| "opt_int_of_json _ = Inl (TypeError ''expected an integer'')"

fun json_item :: "json \<Rightarrow> string \<Rightarrow> json res" where
  "json_item (JObj kvs) k = (case map_of kvs k of Some v \<Rightarrow> Inr v | None \<Rightarrow> Inl (OtherError ''KeyError''))"
| "json_item _ k = Inl (TypeError ''not an object'')"

definition rule_ids_of :: "string \<Rightarrow> string list res" where
  "rule_ids_of s = bind_res (loads s) strs_of_json"

definition process_to_json :: "process_context option \<Rightarrow> string option" where
  "process_to_json process =
     (case process of
        None \<Rightarrow> None
      | Some p \<Rightarrow> Some (dumps (JObj
          [(''pid'', opt_int (pc_pid p)), (''ppid'', opt_int (pc_ppid p)),
           (''executable_path'', opt_str (pc_executable_path p)),
           (''command_line'', opt_str (pc_command_line p)),
           (''open_files'', JArr (map JStr (pc_open_files p))),
           (''network_connections'', JArr (map JStr (pc_network_connections p)))])))"

definition process_from_json :: "string option \<Rightarrow> process_context option res" where
  "process_from_json raw =
     (case raw of
        None \<Rightarrow> Inr None
      | Some s \<Rightarrow>
          bind_res (loads s) (\<lambda>data.
          bind_res (bind_res (json_item data ''pid'') opt_int_of_json) (\<lambda>pid.
          bind_res (bind_res (json_item data ''ppid'') opt_int_of_json) (\<lambda>ppid.
          bind_res (bind_res (json_item data ''executable_path'') opt_str_of_json) (\<lambda>exe.
          bind_res (bind_res (json_item data ''command_line'') opt_str_of_json) (\<lambda>cmd.
          bind_res (bind_res (json_item data ''open_files'') strs_of_json) (\<lambda>files.
          bind_res (bind_res (json_item data ''network_connections'') strs_of_json) (\<lambda>conns.
          Inr (Some \<lparr>pc_pid = pid, pc_ppid = ppid, pc_executable_path = exe,
            pc_command_line = cmd, pc_open_files = files, pc_network_connections = conns\<rparr>)))))))))"

lemma payload_of_dumps: "json_wf (JObj kvs) \<Longrightarrow> payload_of (dumps (JObj kvs)) = Inr kvs"
  by (simp only: payload_of_def loads_dumps bind_res_simps json.case)

lemma strs_of_json_strs [simp]: "strs_of_json (JArr (map JStr xs)) = Inr xs"
  by (simp add: map_res_map)

lemma json_wf_strs [simp]: "json_wf (JArr (map JStr xs))"
  by (simp add: list_all_iff)

lemma opt_int_of_opt [simp]: "opt_int_of_json (opt_int x) = Inr x" "json_wf (opt_int x)"
  by (cases x; simp add: opt_int_def)+

lemma opt_str_of_opt [simp]: "opt_str_of_json (opt_str x) = Inr x" "json_wf (opt_str x)"
  by (cases x; simp add: opt_str_def)+

lemma rule_ids_of_dumps: "rule_ids_of (dumps (JArr (map JStr xs))) = Inr xs"
  using loads_dumps [OF json_wf_strs, of xs] by (simp only: rule_ids_of_def bind_res_simps strs_of_json_strs)

lemma process_json_roundtrip: "process_from_json (process_to_json p) = Inr p"
proof (cases p)
  case (Some c)
  have "json_wf (JObj
      [(''pid'', opt_int (pc_pid c)), (''ppid'', opt_int (pc_ppid c)),
       (''executable_path'', opt_str (pc_executable_path c)),
       (''command_line'', opt_str (pc_command_line c)),
       (''open_files'', JArr (map JStr (pc_open_files c))),
       (''network_connections'', JArr (map JStr (pc_network_connections c)))])"
    by (simp del: json_wf.simps(1))
  from loads_dumps [OF this] show ?thesis
    by (simp add: Some process_to_json_def process_from_json_def del: strs_of_json.simps)
qed (simp add: process_to_json_def process_from_json_def)

section \<open>The contract of a mapping\<close>

locale row_mapping =
  fixes to_model :: "'e base_entity_scheme \<Rightarrow> 'm base_entity_scheme"
    and to_entity :: "'m base_entity_scheme \<Rightarrow> 'e base_entity_scheme res"
    and valid :: "'e base_entity_scheme \<Rightarrow> bool"
  assumes model_eid [simp]: "eid (to_model e) = eid e"
    and read_back: "valid e \<Longrightarrow> to_entity (to_model e) = Inr e"
begin

lemma model_inject: "valid e \<Longrightarrow> valid e' \<Longrightarrow> to_model e = to_model e' \<longleftrightarrow> e = e'"
  using read_back by (metis sum.inject(2))

lemma add_model: "tbl_add (to_model e) (map to_model t) = map to_model (tbl_add e t)"
  by (simp add: tbl_add_def)

lemma save_model: "tbl_save (to_model e) (map to_model t) = map to_model (tbl_save e t)"
  by (induction t) auto

lemma get_model: "tbl_get k (map to_model t) = map_option to_model (tbl_get k t)"
  by (induction t) auto

lemma ids_model: "tbl_ids (map to_model t) = tbl_ids t"
  by (induction t) auto

lemma read_all: "list_all valid t \<Longrightarrow> map_res to_entity (map to_model t) = Inr t"
  by (rule map_res_map) (auto simp: list_all_iff read_back)

lemma read_opt: "pred_option valid x \<Longrightarrow> opt_res to_entity (map_option to_model x) = Inr x"
  by (rule opt_res_map [of valid]) (simp_all add: read_back)

lemma read_get: "list_all valid t \<Longrightarrow> opt_res to_entity (tbl_get k (map to_model t)) = Inr (tbl_get k t)"
  unfolding get_model
  by (rule read_opt) (cases "tbl_get k t", auto simp: list_all_iff dest: tbl_get_Some)

end

lemma opt_revalidate:
  "pred_option valid_sha x \<Longrightarrow> opt_res sha256_hash (map_option sha_value x) = Inr x"
  "pred_option valid_domain y \<Longrightarrow> opt_res domain_name (map_option domain_value y) = Inr y"
  by (rule opt_res_map [of valid_sha] opt_res_map [of valid_domain]; simp add: revalidate)+

lemmas mapping_simps = revalidate opt_revalidate
  payload_of_dumps rule_ids_of_dumps process_json_roundtrip

section \<open>Every table\<close>

definition server_to_model :: "server \<Rightarrow> server_model" where
  "server_to_model e =
     \<lparr>eid = eid e, created_at = created_at e, updated_at = updated_at e,
      sm_hostname = sv_hostname e, sm_os_info = sv_os_info e,
      sm_agent_version = sv_agent_version e, sm_last_seen_at = sv_last_seen_at e\<rparr>"

definition server_to_entity :: "server_model \<Rightarrow> server res" where
  "server_to_entity m =
     Inr \<lparr>eid = eid m, created_at = created_at m, updated_at = updated_at m,
          sv_hostname = sm_hostname m, sv_os_info = sm_os_info m,
          sv_agent_version = sm_agent_version m, sv_last_seen_at = sm_last_seen_at m\<rparr>"

interpretation server_rows: row_mapping server_to_model server_to_entity "\<lambda>_. True"
  by unfold_locales (auto simp: mapping_simps server_to_model_def server_to_entity_def)

definition account_to_model :: "cpanel_account \<Rightarrow> account_model" where
  "account_to_model e =
     \<lparr>eid = eid e, created_at = created_at e, updated_at = updated_at e,
      am_server_id = ac_server_id e, am_username = user_value (ac_username e),
      am_primary_domain = domain_value (ac_primary_domain e),
      am_home_directory = abs_value (ac_home_directory e),
      am_is_suspended = ac_is_suspended e, am_is_active = ac_is_active e,
      am_last_seen_at = ac_last_seen_at e\<rparr>"

definition account_to_entity :: "account_model \<Rightarrow> cpanel_account res" where
  "account_to_entity m =
     bind_res (linux_username (am_username m)) (\<lambda>username.
     bind_res (domain_name (am_primary_domain m)) (\<lambda>domain.
     bind_res (absolute_file_path (am_home_directory m)) (\<lambda>home.
     Inr \<lparr>eid = eid m, created_at = created_at m, updated_at = updated_at m,
          ac_server_id = am_server_id m, ac_username = username, ac_primary_domain = domain,
          ac_home_directory = home, ac_is_suspended = am_is_suspended m,
          ac_last_seen_at = am_last_seen_at m, ac_is_active = am_is_active m\<rparr>)))"

definition valid_account :: "cpanel_account \<Rightarrow> bool" where
  "valid_account e \<longleftrightarrow> valid_user (ac_username e) \<and>
     valid_domain (ac_primary_domain e) \<and>
     valid_abs (ac_home_directory e)"

interpretation account_rows: row_mapping account_to_model account_to_entity "valid_account"
  by unfold_locales (auto simp: mapping_simps account_to_model_def account_to_entity_def valid_account_def)

definition installation_to_model :: "wordpress_installation \<Rightarrow> installation_model" where
  "installation_to_model e =
     \<lparr>eid = eid e, created_at = created_at e, updated_at = updated_at e,
      im_cpanel_account_id = wi_account_id e,
      im_absolute_path = abs_value (wi_absolute_path e),
      im_domain = map_option domain_value (wi_domain e), im_wp_version = wi_wp_version e,
      im_is_multisite = wi_is_multisite e, im_is_active = wi_is_active e,
      im_last_seen_at = wi_last_seen_at e, im_php_version = wi_php_version e\<rparr>"

definition installation_to_entity :: "installation_model \<Rightarrow> wordpress_installation res" where
  "installation_to_entity m =
     bind_res (absolute_file_path (im_absolute_path m)) (\<lambda>path.
     bind_res (opt_res domain_name (im_domain m)) (\<lambda>domain.
     Inr \<lparr>eid = eid m, created_at = created_at m, updated_at = updated_at m,
          wi_account_id = im_cpanel_account_id m, wi_absolute_path = path, wi_domain = domain,
          wi_wp_version = im_wp_version m, wi_is_multisite = im_is_multisite m,
          wi_last_seen_at = im_last_seen_at m, wi_is_active = im_is_active m,
          wi_php_version = im_php_version m\<rparr>))"

definition valid_installation :: "wordpress_installation \<Rightarrow> bool" where
  "valid_installation e \<longleftrightarrow> valid_abs (wi_absolute_path e) \<and>
     pred_option valid_domain (wi_domain e)"

interpretation installation_rows: row_mapping installation_to_model installation_to_entity "valid_installation"
  by unfold_locales (auto simp: mapping_simps installation_to_model_def installation_to_entity_def valid_installation_def)

definition baseline_to_model :: "file_baseline \<Rightarrow> baseline_model" where
  "baseline_to_model e =
     \<lparr>eid = eid e, created_at = created_at e, updated_at = updated_at e,
      bm_account_id = fb_account_id e, bm_relative_path = rel_value (fb_relative_path e),
      bm_sha256 = sha_value (fb_sha256 e), bm_size_bytes = fb_size_bytes e,
      bm_mode = fb_mode e, bm_is_active = fb_is_active e,
      bm_last_verified_at = fb_last_verified_at e\<rparr>"

definition baseline_to_entity :: "baseline_model \<Rightarrow> file_baseline res" where
  "baseline_to_entity m =
     bind_res (relative_file_path (bm_relative_path m)) (\<lambda>path.
     bind_res (sha256_hash (bm_sha256 m)) (\<lambda>sha256.
     Inr \<lparr>eid = eid m, created_at = created_at m, updated_at = updated_at m,
          fb_account_id = bm_account_id m, fb_relative_path = path, fb_sha256 = sha256,
          fb_size_bytes = bm_size_bytes m, fb_mode = bm_mode m,
          fb_last_verified_at = bm_last_verified_at m, fb_is_active = bm_is_active m\<rparr>))"

definition valid_baseline :: "file_baseline \<Rightarrow> bool" where
  "valid_baseline e \<longleftrightarrow> valid_rel (fb_relative_path e) \<and>
     valid_sha (fb_sha256 e)"

interpretation baseline_rows: row_mapping baseline_to_model baseline_to_entity "valid_baseline"
  by unfold_locales (auto simp: mapping_simps baseline_to_model_def baseline_to_entity_def valid_baseline_def)

definition finding_to_model :: "integrity_finding \<Rightarrow> finding_model" where
  "finding_to_model e =
     \<lparr>eid = eid e, created_at = created_at e, updated_at = updated_at e,
      fm_account_id = fi_account_id e, fm_relative_path = rel_value (fi_relative_path e),
      fm_change_type = change_type_value (fi_change_type e),
      fm_severity = severity_value (fi_severity e),
      fm_previous_sha256 = map_option sha_value (fi_previous_sha256 e),
      fm_current_sha256 = map_option sha_value (fi_current_sha256 e),
      fm_is_acknowledged = fi_is_acknowledged e,
      fm_remediation_state = state_value (fi_remediation_state e),
      fm_quarantine_path = fi_quarantine_path e, fm_quarantine_mode = fi_quarantine_mode e,
      fm_quarantine_size_bytes = fi_quarantine_size_bytes e,
      fm_quarantine_owner_uid = fi_quarantine_owner_uid e,
      fm_quarantine_owner_gid = fi_quarantine_owner_gid e, fm_detected_at = fi_detected_at e\<rparr>"

definition finding_to_entity :: "finding_model \<Rightarrow> integrity_finding res" where
  "finding_to_entity m =
     bind_res (relative_file_path (fm_relative_path m)) (\<lambda>path.
     bind_res (change_type_of (fm_change_type m)) (\<lambda>change.
     bind_res (severity_of (fm_severity m)) (\<lambda>sev.
     bind_res (opt_res sha256_hash (fm_previous_sha256 m)) (\<lambda>prev.
     bind_res (opt_res sha256_hash (fm_current_sha256 m)) (\<lambda>cur.
     bind_res (state_of (fm_remediation_state m)) (\<lambda>state.
     Inr \<lparr>eid = eid m, created_at = created_at m, updated_at = updated_at m,
          fi_account_id = fm_account_id m, fi_relative_path = path, fi_change_type = change,
          fi_severity = sev, fi_previous_sha256 = prev, fi_current_sha256 = cur,
          fi_detected_at = fm_detected_at m, fi_is_acknowledged = fm_is_acknowledged m,
          fi_remediation_state = state, fi_quarantine_path = fm_quarantine_path m,
          fi_quarantine_mode = fm_quarantine_mode m,
          fi_quarantine_size_bytes = fm_quarantine_size_bytes m,
          fi_quarantine_owner_uid = fm_quarantine_owner_uid m,
          fi_quarantine_owner_gid = fm_quarantine_owner_gid m\<rparr>))))))"

definition valid_finding :: "integrity_finding \<Rightarrow> bool" where
  "valid_finding e \<longleftrightarrow> valid_rel (fi_relative_path e) \<and>
     pred_option valid_sha (fi_previous_sha256 e) \<and>
     pred_option valid_sha (fi_current_sha256 e)"

interpretation finding_rows: row_mapping finding_to_model finding_to_entity "valid_finding"
  by unfold_locales (auto simp: mapping_simps finding_to_model_def finding_to_entity_def valid_finding_def)

definition action_to_model :: "remediation_action \<Rightarrow> action_model" where
  "action_to_model e =
     \<lparr>eid = eid e, created_at = created_at e, updated_at = updated_at e,
      xm_finding_id = ra_finding_id e, xm_account_id = ra_account_id e,
      xm_relative_path = rel_value (ra_relative_path e),
      xm_action_type = action_type_value (ra_action_type e),
      xm_outcome = outcome_value (ra_outcome e), xm_detail = ra_detail e,
      xm_performed_at = ra_performed_at e\<rparr>"

definition action_to_entity :: "action_model \<Rightarrow> remediation_action res" where
  "action_to_entity m =
     bind_res (relative_file_path (xm_relative_path m)) (\<lambda>path.
     bind_res (action_type_of (xm_action_type m)) (\<lambda>action.
     bind_res (outcome_of (xm_outcome m)) (\<lambda>outcome.
     Inr \<lparr>eid = eid m, created_at = created_at m, updated_at = updated_at m,
          ra_finding_id = xm_finding_id m, ra_account_id = xm_account_id m,
          ra_relative_path = path, ra_action_type = action, ra_outcome = outcome,
          ra_detail = xm_detail m, ra_performed_at = xm_performed_at m\<rparr>)))"

definition valid_action :: "remediation_action \<Rightarrow> bool" where
  "valid_action e \<longleftrightarrow> valid_rel (ra_relative_path e)"

interpretation action_rows: row_mapping action_to_model action_to_entity "valid_action"
  by unfold_locales (auto simp: mapping_simps action_to_model_def action_to_entity_def valid_action_def)

definition event_to_model :: "security_event \<Rightarrow> event_model" where
  "event_to_model e =
     \<lparr>eid = eid e, created_at = created_at e, updated_at = updated_at e,
      em_event_type = ev_event_type e, em_source_context = ev_source_context e,
      em_account_id = ev_account_id e, em_severity = severity_value (ev_severity e),
      em_payload = dumps (JObj (ev_payload e)), em_occurred_at = ev_occurred_at e,
      em_processed_at = ev_processed_at e, em_server_id = ev_server_id e,
      em_file_path = ev_file_path e, em_sha256 = ev_sha256 e,
      em_file_size_bytes = ev_file_size_bytes e, em_file_owner = ev_file_owner e,
      em_file_permissions = ev_file_permissions e, em_mime_type = ev_mime_type e,
      em_scanner_version = ev_scanner_version e, em_detection_rule_id = ev_detection_rule_id e\<rparr>"

definition event_to_entity :: "event_model \<Rightarrow> security_event res" where
  "event_to_entity m =
     bind_res (severity_of (em_severity m)) (\<lambda>sev.
     bind_res (payload_of (em_payload m)) (\<lambda>payload.
     Inr \<lparr>eid = eid m, created_at = created_at m, updated_at = updated_at m,
          ev_event_type = em_event_type m, ev_source_context = em_source_context m,
          ev_account_id = em_account_id m, ev_severity = sev, ev_payload = payload,
          ev_occurred_at = em_occurred_at m, ev_processed_at = em_processed_at m,
          ev_server_id = em_server_id m, ev_file_path = em_file_path m,
          ev_sha256 = em_sha256 m, ev_file_size_bytes = em_file_size_bytes m,
          ev_file_owner = em_file_owner m, ev_file_permissions = em_file_permissions m,
          ev_mime_type = em_mime_type m, ev_scanner_version = em_scanner_version m,
          ev_detection_rule_id = em_detection_rule_id m\<rparr>))"

definition valid_event :: "security_event \<Rightarrow> bool" where
  "valid_event e \<longleftrightarrow> json_wf (JObj (ev_payload e))"

interpretation event_rows: row_mapping event_to_model event_to_entity "valid_event"
  by unfold_locales (auto simp: mapping_simps event_to_model_def event_to_entity_def valid_event_def)

definition incident_to_model :: "incident \<Rightarrow> incident_model" where
  "incident_to_model e =
     \<lparr>eid = eid e, created_at = created_at e, updated_at = updated_at e,
      nm_title = in_title e, nm_correlation_signature = in_signature e,
      nm_status = incident_status_value (in_status e),
      nm_severity = severity_value (in_severity e), nm_confidence = in_confidence e,
      nm_first_seen_at = in_first_seen_at e, nm_last_seen_at = in_last_seen_at e,
      nm_root_cause = in_root_cause e, nm_recommended_actions = in_recommended_actions e,
      nm_false_positive_probability = in_false_positive_probability e\<rparr>"

definition incident_to_entity :: "incident_model \<Rightarrow> incident res" where
  "incident_to_entity m =
     bind_res (incident_status_of (nm_status m)) (\<lambda>status.
     bind_res (severity_of (nm_severity m)) (\<lambda>sev.
     Inr \<lparr>eid = eid m, created_at = created_at m, updated_at = updated_at m,
          in_title = nm_title m, in_signature = nm_correlation_signature m,
          in_status = status, in_severity = sev, in_confidence = nm_confidence m,
          in_first_seen_at = nm_first_seen_at m, in_last_seen_at = nm_last_seen_at m,
          in_root_cause = nm_root_cause m, in_recommended_actions = nm_recommended_actions m,
          in_false_positive_probability = nm_false_positive_probability m\<rparr>))"

interpretation incident_rows: row_mapping incident_to_model incident_to_entity "\<lambda>_. True"
  by unfold_locales (auto simp: mapping_simps incident_to_model_def incident_to_entity_def)

definition link_to_model :: "incident_account_link \<Rightarrow> link_model" where
  "link_to_model e =
     \<lparr>eid = eid e, created_at = created_at e, updated_at = updated_at e,
      lm_incident_id = li_incident_id e, lm_account_id = li_account_id e\<rparr>"

definition link_to_entity :: "link_model \<Rightarrow> incident_account_link res" where
  "link_to_entity m =
     Inr \<lparr>eid = eid m, created_at = created_at m, updated_at = updated_at m,
          li_incident_id = lm_incident_id m, li_account_id = lm_account_id m\<rparr>"

interpretation link_rows: row_mapping link_to_model link_to_entity "\<lambda>_. True"
  by unfold_locales (auto simp: mapping_simps link_to_model_def link_to_entity_def)

definition timeline_to_model :: "threat_timeline_entry \<Rightarrow> timeline_model" where
  "timeline_to_model e =
     \<lparr>eid = eid e, created_at = created_at e, updated_at = updated_at e,
      tm_incident_id = tl_incident_id e, tm_stage = tl_stage e,
      tm_description = tl_description e, tm_occurred_at = tl_occurred_at e,
      tm_source_event_id = tl_source_event_id e\<rparr>"

definition timeline_to_entity :: "timeline_model \<Rightarrow> threat_timeline_entry res" where
  "timeline_to_entity m =
     Inr \<lparr>eid = eid m, created_at = created_at m, updated_at = updated_at m,
          tl_incident_id = tm_incident_id m, tl_stage = tm_stage m,
          tl_description = tm_description m, tl_occurred_at = tm_occurred_at m,
          tl_source_event_id = tm_source_event_id m\<rparr>"

interpretation timeline_rows: row_mapping timeline_to_model timeline_to_entity "\<lambda>_. True"
  by unfold_locales (auto simp: mapping_simps timeline_to_model_def timeline_to_entity_def)

definition plugin_to_model :: "installed_plugin \<Rightarrow> plugin_model" where
  "plugin_to_model e =
     \<lparr>eid = eid e, created_at = created_at e, updated_at = updated_at e,
      pm_installation_id = pl_installation_id e, pm_slug = pl_slug e, pm_name = pl_name e,
      pm_version = pl_version e, pm_is_present = pl_is_present e,
      pm_last_seen_at = pl_last_seen_at e\<rparr>"

definition plugin_to_entity :: "plugin_model \<Rightarrow> installed_plugin res" where
  "plugin_to_entity m =
     Inr \<lparr>eid = eid m, created_at = created_at m, updated_at = updated_at m,
          pl_installation_id = pm_installation_id m, pl_slug = pm_slug m, pl_name = pm_name m,
          pl_version = pm_version m, pl_is_present = pm_is_present m,
          pl_last_seen_at = pm_last_seen_at m\<rparr>"

interpretation plugin_rows: row_mapping plugin_to_model plugin_to_entity "\<lambda>_. True"
  by unfold_locales (auto simp: mapping_simps plugin_to_model_def plugin_to_entity_def)

definition theme_to_model :: "installed_theme \<Rightarrow> theme_model" where
  "theme_to_model e =
     \<lparr>eid = eid e, created_at = created_at e, updated_at = updated_at e,
      hm_installation_id = th_installation_id e, hm_slug = th_slug e, hm_name = th_name e,
      hm_version = th_version e, hm_is_present = th_is_present e,
      hm_last_seen_at = th_last_seen_at e\<rparr>"

definition theme_to_entity :: "theme_model \<Rightarrow> installed_theme res" where
  "theme_to_entity m =
     Inr \<lparr>eid = eid m, created_at = created_at m, updated_at = updated_at m,
          th_installation_id = hm_installation_id m, th_slug = hm_slug m, th_name = hm_name m,
          th_version = hm_version m, th_is_present = hm_is_present m,
          th_last_seen_at = hm_last_seen_at m\<rparr>"

interpretation theme_rows: row_mapping theme_to_model theme_to_entity "\<lambda>_. True"
  by unfold_locales (auto simp: mapping_simps theme_to_model_def theme_to_entity_def)

definition config_to_model :: "configuration_item \<Rightarrow> config_model" where
  "config_to_model e =
     \<lparr>eid = eid e, created_at = created_at e, updated_at = updated_at e,
      cm_installation_id = ci_installation_id e, cm_config_source = ci_config_source e,
      cm_key = ci_key e, cm_raw_value = ci_raw_value e, cm_is_flagged = ci_is_flagged e,
      cm_flag_reason = ci_flag_reason e, cm_is_present = ci_is_present e,
      cm_last_seen_at = ci_last_seen_at e\<rparr>"

definition config_to_entity :: "config_model \<Rightarrow> configuration_item res" where
  "config_to_entity m =
     Inr \<lparr>eid = eid m, created_at = created_at m, updated_at = updated_at m,
          ci_installation_id = cm_installation_id m, ci_config_source = cm_config_source m,
          ci_key = cm_key m, ci_raw_value = cm_raw_value m, ci_is_flagged = cm_is_flagged m,
          ci_flag_reason = cm_flag_reason m, ci_is_present = cm_is_present m,
          ci_last_seen_at = cm_last_seen_at m\<rparr>"

interpretation config_rows: row_mapping config_to_model config_to_entity "\<lambda>_. True"
  by unfold_locales (auto simp: mapping_simps config_to_model_def config_to_entity_def)

definition observation_to_model :: "temp_file_observation \<Rightarrow> observation_model" where
  "observation_to_model e =
     \<lparr>eid = eid e, created_at = created_at e, updated_at = updated_at e,
      om_absolute_path = abs_value (to_absolute_path e),
      om_sha256 = map_option sha_value (to_sha256 e), om_owner = to_owner e,
      om_size_bytes = to_size_bytes e, om_verdict = verdict_value (to_verdict e),
      om_verdict_reason = to_verdict_reason e,
      om_matched_rule_ids = dumps (JArr (map JStr (to_matched_rule_ids e))),
      om_process_context = process_to_json (to_process e), om_account_id = to_account_id e,
      om_detected_at = to_detected_at e, om_file_permissions = to_file_permissions e,
      om_mime_type = to_mime_type e, om_server_id = to_server_id e\<rparr>"

definition observation_to_entity :: "observation_model \<Rightarrow> temp_file_observation res" where
  "observation_to_entity m =
     bind_res (absolute_file_path (om_absolute_path m)) (\<lambda>path.
     bind_res (opt_res sha256_hash (om_sha256 m)) (\<lambda>sha256.
     bind_res (verdict_of (om_verdict m)) (\<lambda>verdict.
     bind_res (rule_ids_of (om_matched_rule_ids m)) (\<lambda>rules.
     bind_res (process_from_json (om_process_context m)) (\<lambda>process.
     Inr \<lparr>eid = eid m, created_at = created_at m, updated_at = updated_at m,
          to_absolute_path = path, to_sha256 = sha256, to_owner = om_owner m,
          to_size_bytes = om_size_bytes m, to_verdict = verdict,
          to_verdict_reason = om_verdict_reason m, to_matched_rule_ids = rules,
          to_process = process, to_account_id = om_account_id m,
          to_detected_at = om_detected_at m, to_file_permissions = om_file_permissions m,
          to_mime_type = om_mime_type m, to_server_id = om_server_id m\<rparr>)))))"

definition valid_observation :: "temp_file_observation \<Rightarrow> bool" where
  "valid_observation e \<longleftrightarrow> valid_abs (to_absolute_path e) \<and>
     pred_option valid_sha (to_sha256 e)"

interpretation observation_rows: row_mapping observation_to_model observation_to_entity "valid_observation"
  by unfold_locales (auto simp: mapping_simps observation_to_model_def observation_to_entity_def valid_observation_def)

definition heartbeat_to_model :: "job_heartbeat \<Rightarrow> heartbeat_model" where
  "heartbeat_to_model e =
     \<lparr>eid = eid e, created_at = created_at e, updated_at = updated_at e,
      jm_job_id = hb_job_id e, jm_status = heartbeat_status_value (hb_status e),
      jm_last_run_at = hb_last_run_at e, jm_last_duration_ms = hb_last_duration_ms e,
      jm_last_error = hb_last_error e\<rparr>"

definition heartbeat_to_entity :: "heartbeat_model \<Rightarrow> job_heartbeat res" where
  "heartbeat_to_entity m =
     bind_res (heartbeat_status_of (jm_status m)) (\<lambda>status.
     Inr \<lparr>eid = eid m, created_at = created_at m, updated_at = updated_at m,
          hb_job_id = jm_job_id m, hb_status = status, hb_last_run_at = jm_last_run_at m,
          hb_last_duration_ms = jm_last_duration_ms m, hb_last_error = jm_last_error m\<rparr>)"

interpretation heartbeat_rows: row_mapping heartbeat_to_model heartbeat_to_entity "\<lambda>_. True"
  by unfold_locales (auto simp: mapping_simps heartbeat_to_model_def heartbeat_to_entity_def)

definition checksum_to_model :: "core_checksum_record \<Rightarrow> checksum_model" where
  "checksum_to_model e =
     \<lparr>eid = eid e, created_at = created_at e, updated_at = updated_at e,
      km_wp_version = cs_wp_version e, km_relative_path = cs_relative_path e,
      km_sha256 = cs_sha256 e, km_fetched_at = cs_fetched_at e\<rparr>"

definition checksum_to_entity :: "checksum_model \<Rightarrow> core_checksum_record res" where
  "checksum_to_entity m =
     Inr \<lparr>eid = eid m, created_at = created_at m, updated_at = updated_at m,
          cs_wp_version = km_wp_version m, cs_relative_path = km_relative_path m,
          cs_sha256 = km_sha256 m, cs_fetched_at = km_fetched_at m\<rparr>"

interpretation checksum_rows: row_mapping checksum_to_model checksum_to_entity "\<lambda>_. True"
  by unfold_locales (auto simp: mapping_simps checksum_to_model_def checksum_to_entity_def)

definition cron_to_model :: "wordpress_cron_job \<Rightarrow> cron_model" where
  "cron_to_model e =
     \<lparr>eid = eid e, created_at = created_at e, updated_at = updated_at e,
      wm_installation_id = cj_installation_id e, wm_command = cj_command e,
      wm_schedule_raw = cj_schedule_raw e, wm_is_suspicious = cj_is_suspicious e,
      wm_flag_reason = cj_flag_reason e, wm_is_present = cj_is_present e,
      wm_last_seen_at = cj_last_seen_at e\<rparr>"

definition cron_to_entity :: "cron_model \<Rightarrow> wordpress_cron_job res" where
  "cron_to_entity m =
     Inr \<lparr>eid = eid m, created_at = created_at m, updated_at = updated_at m,
          cj_installation_id = wm_installation_id m, cj_command = wm_command m,
          cj_schedule_raw = wm_schedule_raw m, cj_is_suspicious = wm_is_suspicious m,
          cj_flag_reason = wm_flag_reason m, cj_is_present = wm_is_present m,
          cj_last_seen_at = wm_last_seen_at m\<rparr>"

interpretation cron_rows: row_mapping cron_to_model cron_to_entity "\<lambda>_. True"
  by unfold_locales (auto simp: mapping_simps cron_to_model_def cron_to_entity_def)

end
