(* ===== verification/Finding_Lifecycle.thy ===== *)
theory Finding_Lifecycle
  imports Integrity_Domain
begin

text \<open>
  The remediation life cycle of one \<open>IntegrityFinding\<close>: every method of the
  class that changes a finding is a step, a method that raises is none. The
  invariant \<open>finding_wf\<close> ties the quarantine fields to the state.
\<close>

inductive finding_step :: "integrity_finding \<Rightarrow> integrity_finding \<Rightarrow> bool" where
  Acknowledge: "finding_step f (acknowledge now f)"
| Escalate: "escalate_severity now s f = Inr f' \<Longrightarrow> finding_step f f'"
| Quarantine: "quarantine now q f = Inr f' \<Longrightarrow> finding_step f f'"
| Restore: "restore now f = Inr f' \<Longrightarrow> finding_step f f'"
| Delete: "delete_finding now f = Inr f' \<Longrightarrow> finding_step f f'"

inductive finding_steps :: "integrity_finding \<Rightarrow> integrity_finding \<Rightarrow> bool" where
  Start: "finding_steps f f"
| Step: "finding_steps f f' \<Longrightarrow> finding_step f' f'' \<Longrightarrow> finding_steps f f''"

inductive_cases finding_stepE: "finding_step f f'"

definition quarantine_fields_set :: "integrity_finding \<Rightarrow> bool" where
  "quarantine_fields_set f \<longleftrightarrow>
     fi_quarantine_path f \<noteq> None \<and> fi_quarantine_mode f \<noteq> None \<and>
     fi_quarantine_size_bytes f \<noteq> None \<and> fi_quarantine_owner_uid f \<noteq> None \<and>
     fi_quarantine_owner_gid f \<noteq> None"

definition quarantine_fields_clear :: "integrity_finding \<Rightarrow> bool" where
  "quarantine_fields_clear f \<longleftrightarrow>
     fi_quarantine_path f = None \<and> fi_quarantine_mode f = None \<and>
     fi_quarantine_size_bytes f = None \<and> fi_quarantine_owner_uid f = None \<and>
     fi_quarantine_owner_gid f = None"

definition finding_wf :: "integrity_finding \<Rightarrow> bool" where
  "finding_wf f \<longleftrightarrow>
     (if fi_remediation_state f = RS_QUARANTINED then quarantine_fields_set f
      else quarantine_fields_clear f) \<and>
     (fi_change_type f = DELETED \<longrightarrow> fi_remediation_state f = RS_NONE)"

text \<open>What never changes after creation.\<close>

definition finding_core ::
    "integrity_finding \<Rightarrow> uuid \<times> uuid \<times> relative_file_path \<times> change_type \<times>
       sha256_hash option \<times> sha256_hash option \<times> datetime" where
  "finding_core f = (eid f, fi_account_id f, fi_relative_path f, fi_change_type f,
     fi_previous_sha256 f, fi_current_sha256 f, fi_detected_at f)"

text \<open>The order of the life cycle: a state can only move to a later one.\<close>

fun state_before :: "remediation_state \<Rightarrow> remediation_state \<Rightarrow> bool" where
  "state_before RS_NONE RS_QUARANTINED = True"
| "state_before RS_NONE RS_RESTORED = True"
| "state_before RS_NONE RS_DELETED = True"
| "state_before RS_QUARANTINED RS_RESTORED = True"
| "state_before RS_QUARANTINED RS_DELETED = True"
| "state_before s t = (s = t)"

lemma state_before_refl [simp]: "state_before s s"
  by (cases s) auto

lemma state_before_trans: "state_before s t \<Longrightarrow> state_before t u \<Longrightarrow> state_before s u"
  by (cases s; cases t; cases u) auto

lemmas finding_ops_def = acknowledge_def escalate_severity_def quarantine_def restore_def
  delete_finding_def ensure_can_quarantine_def ensure_can_restore_def ensure_can_delete_def touch_def

lemma acknowledge_simps [simp]:
  "eid (acknowledge now f) = eid f"
  "fi_is_acknowledged (acknowledge now f) = True"
  "fi_remediation_state (acknowledge now f) = fi_remediation_state f"
  "fi_severity (acknowledge now f) = fi_severity f"
  "finding_core (acknowledge now f) = finding_core f"
  "finding_wf (acknowledge now f) = finding_wf f"
  by (simp_all add: acknowledge_def touch_def finding_core_def finding_wf_def
      quarantine_fields_set_def quarantine_fields_clear_def)

definition set_quarantine :: "datetime \<Rightarrow> quarantined_file \<Rightarrow> integrity_finding \<Rightarrow> integrity_finding" where
  "set_quarantine now q f = touch now (f\<lparr>fi_remediation_state := RS_QUARANTINED,
     fi_quarantine_path := Some (qf_quarantine_path q),
     fi_quarantine_mode := Some (qf_mode q),
     fi_quarantine_size_bytes := Some (qf_size_bytes q),
     fi_quarantine_owner_uid := Some (qf_owner_uid q),
     fi_quarantine_owner_gid := Some (qf_owner_gid q)\<rparr>)"

definition set_severity :: "datetime \<Rightarrow> severity \<Rightarrow> integrity_finding \<Rightarrow> integrity_finding" where
  "set_severity now s f = touch now (f\<lparr>fi_severity := s\<rparr>)"

lemma escalate_severity_Inr:
  "escalate_severity now s f = Inr f' \<longleftrightarrow> fi_severity f < s \<and> f' = set_severity now s f"
  by (auto simp: escalate_severity_def less_severity_def set_severity_def)

lemma quarantine_Inr:
  "quarantine now q f = Inr f' \<longleftrightarrow>
     fi_remediation_state f = RS_NONE \<and> fi_change_type f \<noteq> DELETED \<and> f' = set_quarantine now q f"
  by (auto simp: quarantine_def ensure_can_quarantine_def set_quarantine_def)

lemma set_severity_simps [simp]:
  "eid (set_severity now s f) = eid f"
  "fi_severity (set_severity now s f) = s"
  "fi_remediation_state (set_severity now s f) = fi_remediation_state f"
  "fi_change_type (set_severity now s f) = fi_change_type f"
  "finding_core (set_severity now s f) = finding_core f"
  "quarantine_fields_set (set_severity now s f) = quarantine_fields_set f"
  "quarantine_fields_clear (set_severity now s f) = quarantine_fields_clear f"
  by (simp_all add: set_severity_def touch_def finding_core_def quarantine_fields_set_def
      quarantine_fields_clear_def)

lemma set_quarantine_simps [simp]:
  "eid (set_quarantine now q f) = eid f"
  "fi_account_id (set_quarantine now q f) = fi_account_id f"
  "fi_relative_path (set_quarantine now q f) = fi_relative_path f"
  "fi_current_sha256 (set_quarantine now q f) = fi_current_sha256 f"
  "fi_detected_at (set_quarantine now q f) = fi_detected_at f"
  "fi_severity (set_quarantine now q f) = fi_severity f"
  "fi_change_type (set_quarantine now q f) = fi_change_type f"
  "fi_remediation_state (set_quarantine now q f) = RS_QUARANTINED"
  "fi_quarantine_path (set_quarantine now q f) = Some (qf_quarantine_path q)"
  "fi_quarantine_mode (set_quarantine now q f) = Some (qf_mode q)"
  "fi_quarantine_size_bytes (set_quarantine now q f) = Some (qf_size_bytes q)"
  "fi_quarantine_owner_uid (set_quarantine now q f) = Some (qf_owner_uid q)"
  "fi_quarantine_owner_gid (set_quarantine now q f) = Some (qf_owner_gid q)"
  "finding_core (set_quarantine now q f) = finding_core f"
  "quarantine_fields_set (set_quarantine now q f)"
  by (simp_all add: set_quarantine_def touch_def finding_core_def quarantine_fields_set_def)

definition clear_quarantine :: "datetime \<Rightarrow> remediation_state \<Rightarrow> integrity_finding \<Rightarrow> integrity_finding" where
  "clear_quarantine now s f = touch now (f\<lparr>fi_remediation_state := s,
     fi_quarantine_path := None, fi_quarantine_mode := None, fi_quarantine_size_bytes := None,
     fi_quarantine_owner_uid := None, fi_quarantine_owner_gid := None\<rparr>)"

lemma restore_Inr:
  "restore now f = Inr f' \<longleftrightarrow>
     fi_remediation_state f = RS_QUARANTINED \<and> f' = clear_quarantine now RS_RESTORED f"
  by (auto simp: restore_def ensure_can_restore_def clear_quarantine_def)

lemma delete_finding_Inr:
  "delete_finding now f = Inr f' \<longleftrightarrow>
     fi_remediation_state f = RS_QUARANTINED \<and> f' = clear_quarantine now RS_DELETED f"
  by (auto simp: delete_finding_def ensure_can_delete_def clear_quarantine_def)

lemma ensure_can_quarantine_Inr:
  "ensure_can_quarantine f = Inr u \<longleftrightarrow> fi_remediation_state f = RS_NONE \<and> fi_change_type f \<noteq> DELETED"
  by (auto simp: ensure_can_quarantine_def)

lemma ensure_can_restore_Inr:
  "ensure_can_restore f = Inr u \<longleftrightarrow> fi_remediation_state f = RS_QUARANTINED"
  by (auto simp: ensure_can_restore_def)

lemma ensure_can_delete_Inr:
  "ensure_can_delete f = Inr u \<longleftrightarrow> fi_remediation_state f = RS_QUARANTINED"
  by (auto simp: ensure_can_delete_def)

lemma clear_quarantine_simps [simp]:
  "eid (clear_quarantine now s f) = eid f"
  "fi_remediation_state (clear_quarantine now s f) = s"
  "fi_severity (clear_quarantine now s f) = fi_severity f"
  "finding_core (clear_quarantine now s f) = finding_core f"
  "quarantine_fields_clear (clear_quarantine now s f)"
  "fi_change_type (clear_quarantine now s f) = fi_change_type f"
  "fi_account_id (clear_quarantine now s f) = fi_account_id f"
  "fi_relative_path (clear_quarantine now s f) = fi_relative_path f"
  by (simp_all add: clear_quarantine_def touch_def finding_core_def quarantine_fields_clear_def)

lemmas finding_results = escalate_severity_Inr quarantine_Inr restore_Inr delete_finding_Inr

lemma new_finding_wf [simp]: "finding_wf (new_finding i now a p c s h k tm)"
  by (simp add: new_finding_def finding_wf_def quarantine_fields_clear_def)

lemma new_finding_simps [simp]:
  "eid (new_finding i now a p c s h k tm) = i"
  "fi_account_id (new_finding i now a p c s h k tm) = a"
  "fi_relative_path (new_finding i now a p c s h k tm) = p"
  "fi_change_type (new_finding i now a p c s h k tm) = c"
  "fi_severity (new_finding i now a p c s h k tm) = s"
  "fi_current_sha256 (new_finding i now a p c s h k tm) = k"
  "fi_previous_sha256 (new_finding i now a p c s h k tm) = h"
  "fi_detected_at (new_finding i now a p c s h k tm) = tm"
  "fi_remediation_state (new_finding i now a p c s h k tm) = RS_NONE"
  "finding_core (new_finding i now a p c s h k tm) = (i, a, p, c, h, k, tm)"
  by (simp_all add: new_finding_def finding_core_def)

lemma finding_wf_ops [simp]:
  "finding_wf (set_severity now s f) = finding_wf f"
  "finding_wf (set_quarantine now q f) = (fi_change_type f \<noteq> DELETED)"
  "r \<noteq> RS_QUARANTINED \<Longrightarrow>
   finding_wf (clear_quarantine now r f) = (fi_change_type f = DELETED \<longrightarrow> r = RS_NONE)"
  by (simp_all add: finding_wf_def)

lemma finding_wf_quarantined:
  "finding_wf f \<Longrightarrow> fi_remediation_state f = RS_QUARANTINED \<Longrightarrow>
   fi_change_type f \<noteq> DELETED \<and> quarantine_fields_set f"
  by (auto simp: finding_wf_def)

lemma finding_step_wf: "finding_step f f' \<Longrightarrow> finding_wf f \<Longrightarrow> finding_wf f'"
  by (erule finding_stepE) (auto simp: finding_results dest: finding_wf_quarantined)

lemma finding_step_core: "finding_step f f' \<Longrightarrow> finding_core f' = finding_core f"
  by (erule finding_stepE) (auto simp: finding_results)

lemma finding_step_severity: "finding_step f f' \<Longrightarrow> fi_severity f \<le> fi_severity f'"
  by (erule finding_stepE) (auto simp: finding_results)

lemma finding_step_state:
  "finding_step f f' \<Longrightarrow> state_before (fi_remediation_state f) (fi_remediation_state f')"
  by (erule finding_stepE) (auto simp: finding_results)

text \<open>C13. From the moment a finding is created, whatever sequence of
  acknowledgements, escalations, quarantines, restores and deletions succeeds
  on it: its quarantine fields are all present exactly in the state
  \<open>QUARANTINED\<close>, a finding for a deleted file never leaves \<open>NONE\<close>, its recorded
  facts (path, change, hashes, time) are those of its creation, its severity
  is never lowered, and its state only moves forward.\<close>

theorem finding_lifecycle:
  assumes "finding_steps (new_finding i now a p c s h k tm) f"
  shows "finding_wf f \<and> finding_core f = (i, a, p, c, h, k, tm) \<and> s \<le> fi_severity f \<and>
         state_before RS_NONE (fi_remediation_state f)"
  using assms
proof (induction "new_finding i now a p c s h k tm" f rule: finding_steps.induct)
  case Start
  then show ?case by simp
next
  case (Step f' f'')
  note s = \<open>finding_step f' f''\<close>
  show ?case
    using Step finding_step_wf[OF s] finding_step_core[OF s] finding_step_severity[OF s]
      finding_step_state[OF s] state_before_trans order_trans
    by metis
qed

text \<open>\<open>RESTORED\<close> and \<open>DELETED\<close> are final: no sequence of operations leads
  out of them, and in particular such a finding can never be quarantined,
  restored or deleted again.\<close>

theorem terminal_states_final:
  assumes "finding_steps f f'" "fi_remediation_state f \<in> {RS_RESTORED, RS_DELETED}"
  shows "fi_remediation_state f' = fi_remediation_state f \<and>
         isl (quarantine now q f') \<and> isl (restore now f') \<and> isl (delete_finding now f')"
proof -
  have "fi_remediation_state f' = fi_remediation_state f"
    using assms
  proof (induction rule: finding_steps.induct)
    case (Step f f' f'')
    then show ?case
      using finding_step_state[OF \<open>finding_step f' f''\<close>]
      by (cases "fi_remediation_state f''") auto
  qed simp
  then show ?thesis
    using assms(2) by (auto simp: quarantine_def restore_def delete_finding_def
        ensure_can_quarantine_def ensure_can_restore_def ensure_can_delete_def)
qed

definition sample_path :: relative_file_path where
  "sample_path = RelativeFilePath ''public_html/wp-content/x.php''"

definition sample_finding :: integrity_finding where
  "sample_finding = new_finding 7 100 3 sample_path ADDED MEDIUM None (Some (Sha256Hash ''ab'')) 90"

definition sample_quarantined :: quarantined_file where
  "sample_quarantined = \<lparr>qf_quarantine_path = ''/q/bob/1'', qf_mode = ''0644'', qf_size_bytes = 12,
     qf_owner_uid = 1001, qf_owner_gid = 1001\<rparr>"

theorem finding_lifecycle_witness:
  "\<exists>f. quarantine 110 sample_quarantined sample_finding = Inr f \<and> finding_wf f \<and>
       fi_remediation_state f = RS_QUARANTINED"
proof -
  define f where "f = set_quarantine 110 sample_quarantined sample_finding"
  have q: "quarantine 110 sample_quarantined sample_finding = Inr f"
    by (simp add: quarantine_Inr sample_finding_def f_def)
  have "finding_steps sample_finding f"
    using q by (intro finding_steps.Step[OF finding_steps.Start] finding_step.Quarantine)
  from finding_lifecycle[OF this[unfolded sample_finding_def]] q
  show ?thesis by (simp add: f_def)
qed

theorem terminal_states_final_witness:
  "fi_remediation_state (clear_quarantine 120 RS_RESTORED sample_finding) = RS_RESTORED \<and>
   isl (quarantine 130 sample_quarantined (clear_quarantine 120 RS_RESTORED sample_finding))"
  using terminal_states_final[OF finding_steps.Start,
      of "clear_quarantine 120 RS_RESTORED sample_finding" 130 sample_quarantined]
  by simp

text \<open>\<open>escalate_severity\<close> raises \<open>InvariantViolationError\<close> exactly when the
  new severity is not strictly higher; otherwise it changes the severity and
  the modification time and nothing else. It can never lower a severity.\<close>

theorem escalate_severity_spec:
  "escalate_severity now s f =
     (if fi_severity f < s then Inr (f\<lparr>fi_severity := s, updated_at := now\<rparr>)
      else Inl (InvariantViolationError
        (''Finding '' @ uuid_str (eid f) @ '' severity '' @ severity_value (fi_severity f) @
         '' cannot be escalated to '' @ severity_value s)))"
  by (auto simp: escalate_severity_def less_severity_def touch_def)

end
