(* ===== verification/Database.thy ===== *)
theory Database
  imports Discovery_Domain Events_Domain Intelligence_Domain Finding_Lifecycle Inventory_Domain
begin

text \<open>
  The database every process shares: one table per entity
  (\<open>infrastructure/persistence/models\<close>) and the counter from which \<open>uuid4\<close>
  draws. The repositories of
  \<open>infrastructure/persistence/repositories\<close> are, per table, the generic
  operations of \<^theory_text>\<open>Repository_Table\<close> and the queries defined here. A query
  that ends in \<open>scalar_one_or_none\<close> selects on columns with a uniqueness
  constraint; it is the first row that matches.
\<close>

record db =
  tb_servers :: "server list"
  tb_accounts :: "cpanel_account list"
  tb_installations :: "wordpress_installation list"
  tb_baselines :: "file_baseline list"
  tb_findings :: "integrity_finding list"
  tb_actions :: "remediation_action list"
  tb_events :: "security_event list"
  tb_incidents :: "incident list"
  tb_links :: "incident_account_link list"
  tb_timeline :: "threat_timeline_entry list"
  tb_plugins :: "installed_plugin list"
  tb_themes :: "installed_theme list"
  tb_config_items :: "configuration_item list"
  tb_observations :: "temp_file_observation list"
  tb_heartbeats :: "job_heartbeat list"
  tb_checksums :: "core_checksum_record list"
  tb_cron_jobs :: "wordpress_cron_job list"
  next_uuid :: uuid

definition empty_db :: db where
  "empty_db = \<lparr>tb_servers = [], tb_accounts = [], tb_installations = [], tb_baselines = [],
     tb_findings = [], tb_actions = [], tb_events = [], tb_incidents = [], tb_links = [],
     tb_timeline = [], tb_plugins = [], tb_themes = [], tb_config_items = [],
     tb_observations = [], tb_heartbeats = [], tb_checksums = [], tb_cron_jobs = [],
     next_uuid = 0\<rparr>"

definition uuid4 :: "db \<Rightarrow> uuid \<times> db" where
  "uuid4 d = (next_uuid d, d\<lparr>next_uuid := next_uuid d + 1\<rparr>)"

text \<open>Identifiers are primary keys drawn from the counter.\<close>

definition db_wf :: "db \<Rightarrow> bool" where
  "db_wf d \<longleftrightarrow>
     tbl_wf (next_uuid d) (tb_servers d) \<and> tbl_wf (next_uuid d) (tb_accounts d) \<and>
     tbl_wf (next_uuid d) (tb_installations d) \<and> tbl_wf (next_uuid d) (tb_baselines d) \<and>
     tbl_wf (next_uuid d) (tb_findings d) \<and> tbl_wf (next_uuid d) (tb_actions d) \<and>
     tbl_wf (next_uuid d) (tb_events d) \<and> tbl_wf (next_uuid d) (tb_incidents d) \<and>
     tbl_wf (next_uuid d) (tb_links d) \<and> tbl_wf (next_uuid d) (tb_timeline d) \<and>
     tbl_wf (next_uuid d) (tb_plugins d) \<and> tbl_wf (next_uuid d) (tb_themes d) \<and>
     tbl_wf (next_uuid d) (tb_config_items d) \<and> tbl_wf (next_uuid d) (tb_observations d) \<and>
     tbl_wf (next_uuid d) (tb_heartbeats d) \<and> tbl_wf (next_uuid d) (tb_checksums d) \<and>
     tbl_wf (next_uuid d) (tb_cron_jobs d)"

lemma empty_db_wf: "db_wf empty_db"
  by (simp add: db_wf_def empty_db_def tbl_wf_def)

lemma db_wf_uuid4: "db_wf d \<Longrightarrow> db_wf (d\<lparr>next_uuid := Suc (next_uuid d)\<rparr>)"
  by (auto simp: db_wf_def intro: tbl_wf_mono)

lemma db_wf_mono: "db_wf d \<Longrightarrow> next_uuid d \<le> n \<Longrightarrow> db_wf (d\<lparr>next_uuid := n\<rparr>)"
  by (simp add: db_wf_def tbl_wf_mono[of "next_uuid d" _ n])

lemma db_wfD:
  assumes "db_wf d"
  shows "tbl_wf (next_uuid d) (tb_accounts d)" "tbl_wf (next_uuid d) (tb_installations d)"
    "tbl_wf (next_uuid d) (tb_baselines d)" "tbl_wf (next_uuid d) (tb_findings d)"
    "tbl_wf (next_uuid d) (tb_events d)" "tbl_wf (next_uuid d) (tb_incidents d)"
    "tbl_wf (next_uuid d) (tb_links d)" "tbl_wf (next_uuid d) (tb_actions d)"
    "tbl_wf (next_uuid d) (tb_plugins d)" "tbl_wf (next_uuid d) (tb_themes d)"
  using assms by (simp_all add: db_wf_def)

section \<open>Queries\<close>

definition baseline_get_by_account_and_path ::
    "uuid \<Rightarrow> relative_file_path \<Rightarrow> db \<Rightarrow> file_baseline option" where
  "baseline_get_by_account_and_path a p d =
     find (\<lambda>b. fb_account_id b = a \<and> rel_value (fb_relative_path b) = rel_value p) (tb_baselines d)"

definition baselines_by_account :: "uuid \<Rightarrow> db \<Rightarrow> file_baseline list" where
  "baselines_by_account a d = filter (\<lambda>b. fb_account_id b = a) (tb_baselines d)"

definition findings_list :: "nat \<Rightarrow> nat \<Rightarrow> db \<Rightarrow> integrity_finding list" where
  "findings_list limit offset d = tbl_list limit offset (order_desc fi_detected_at (tb_findings d))"

definition findings_unacknowledged :: "nat \<Rightarrow> nat \<Rightarrow> db \<Rightarrow> integrity_finding list" where
  "findings_unacknowledged limit offset d =
     tbl_list limit offset
       (order_desc fi_detected_at (filter (\<lambda>f. \<not> fi_is_acknowledged f) (tb_findings d)))"

definition findings_since :: "datetime \<Rightarrow> nat \<Rightarrow> db \<Rightarrow> integrity_finding list" where
  "findings_since since limit d =
     take limit (order_desc fi_detected_at (filter (\<lambda>f. since \<le> fi_detected_at f) (tb_findings d)))"

definition findings_by_remediation_state ::
    "remediation_state \<Rightarrow> nat \<Rightarrow> db \<Rightarrow> integrity_finding list" where
  "findings_by_remediation_state s limit d =
     take limit (order_desc fi_detected_at
       (filter (\<lambda>f. fi_remediation_state f = s) (tb_findings d)))"

definition findings_critical_unremediated ::
    "datetime \<Rightarrow> nat \<Rightarrow> db \<Rightarrow> integrity_finding list" where
  "findings_critical_unremediated since limit d =
     take limit (order_asc fi_detected_at
       (filter (\<lambda>f. fi_severity f = CRITICAL \<and> fi_remediation_state f = RS_NONE \<and>
                    since \<le> fi_detected_at f) (tb_findings d)))"

definition actions_list :: "nat \<Rightarrow> nat \<Rightarrow> db \<Rightarrow> remediation_action list" where
  "actions_list limit offset d = tbl_list limit offset (order_desc ra_performed_at (tb_actions d))"

definition actions_by_finding :: "uuid \<Rightarrow> db \<Rightarrow> remediation_action list" where
  "actions_by_finding i d =
     order_desc ra_performed_at (filter (\<lambda>a. ra_finding_id a = i) (tb_actions d))"

definition events_list :: "nat \<Rightarrow> nat \<Rightarrow> db \<Rightarrow> security_event list" where
  "events_list limit offset d = tbl_list limit offset (order_desc ev_occurred_at (tb_events d))"

definition events_unprocessed :: "nat \<Rightarrow> db \<Rightarrow> security_event list" where
  "events_unprocessed limit d =
     take limit (order_asc ev_occurred_at (filter (\<lambda>e. ev_processed_at e = None) (tb_events d)))"

definition events_count_unprocessed :: "db \<Rightarrow> nat" where
  "events_count_unprocessed d = length (filter (\<lambda>e. ev_processed_at e = None) (tb_events d))"

definition events_by_account :: "uuid \<Rightarrow> nat \<Rightarrow> db \<Rightarrow> security_event list" where
  "events_by_account a limit d =
     take limit (order_desc ev_occurred_at (filter (\<lambda>e. ev_account_id e = Some a) (tb_events d)))"

definition server_get_by_hostname :: "string \<Rightarrow> db \<Rightarrow> server option" where
  "server_get_by_hostname h d = find (\<lambda>s. sv_hostname s = h) (tb_servers d)"

definition account_get_by_username :: "linux_username \<Rightarrow> db \<Rightarrow> cpanel_account option" where
  "account_get_by_username u d =
     find (\<lambda>a. user_value (ac_username a) = user_value u) (tb_accounts d)"

definition accounts_by_server :: "uuid \<Rightarrow> db \<Rightarrow> cpanel_account list" where
  "accounts_by_server s d = filter (\<lambda>a. ac_server_id a = s) (tb_accounts d)"

definition installation_get_by_path :: "string \<Rightarrow> db \<Rightarrow> wordpress_installation option" where
  "installation_get_by_path p d = find (\<lambda>i. abs_value (wi_absolute_path i) = p) (tb_installations d)"

definition installations_by_account :: "uuid \<Rightarrow> db \<Rightarrow> wordpress_installation list" where
  "installations_by_account a d = filter (\<lambda>i. wi_account_id i = a) (tb_installations d)"

definition incidents_list :: "nat \<Rightarrow> nat \<Rightarrow> db \<Rightarrow> incident list" where
  "incidents_list limit offset d = tbl_list limit offset (order_desc in_last_seen_at (tb_incidents d))"

definition incident_find_open_matching :: "string \<Rightarrow> datetime \<Rightarrow> db \<Rightarrow> incident option" where
  "incident_find_open_matching signature since d =
     (case order_desc in_last_seen_at
        (filter (\<lambda>i. in_signature i = signature \<and> in_status i = OPEN \<and> since \<le> in_last_seen_at i)
          (tb_incidents d)) of
        [] \<Rightarrow> None
      | i # _ \<Rightarrow> Some i)"

definition incidents_open :: "db \<Rightarrow> incident list" where
  "incidents_open d = filter (\<lambda>i. in_status i = OPEN) (tb_incidents d)"

definition link_get :: "uuid \<Rightarrow> uuid \<Rightarrow> db \<Rightarrow> incident_account_link option" where
  "link_get i a d = find (\<lambda>l. li_incident_id l = i \<and> li_account_id l = a) (tb_links d)"

definition links_by_incident :: "uuid \<Rightarrow> db \<Rightarrow> incident_account_link list" where
  "links_by_incident i d = filter (\<lambda>l. li_incident_id l = i) (tb_links d)"

definition timeline_list :: "nat \<Rightarrow> nat \<Rightarrow> db \<Rightarrow> threat_timeline_entry list" where
  "timeline_list limit offset d = tbl_list limit offset (order_desc tl_occurred_at (tb_timeline d))"

definition timeline_by_incident :: "uuid \<Rightarrow> db \<Rightarrow> threat_timeline_entry list" where
  "timeline_by_incident i d =
     order_asc tl_occurred_at (filter (\<lambda>t. tl_incident_id t = i) (tb_timeline d))"

definition plugin_get_by_slug :: "uuid \<Rightarrow> string \<Rightarrow> db \<Rightarrow> installed_plugin option" where
  "plugin_get_by_slug i s d = find (\<lambda>p. pl_installation_id p = i \<and> pl_slug p = s) (tb_plugins d)"

definition plugins_by_installation :: "uuid \<Rightarrow> db \<Rightarrow> installed_plugin list" where
  "plugins_by_installation i d = filter (\<lambda>p. pl_installation_id p = i) (tb_plugins d)"

definition theme_get_by_slug :: "uuid \<Rightarrow> string \<Rightarrow> db \<Rightarrow> installed_theme option" where
  "theme_get_by_slug i s d = find (\<lambda>p. th_installation_id p = i \<and> th_slug p = s) (tb_themes d)"

definition themes_by_installation :: "uuid \<Rightarrow> db \<Rightarrow> installed_theme list" where
  "themes_by_installation i d = filter (\<lambda>p. th_installation_id p = i) (tb_themes d)"

definition config_get :: "uuid \<Rightarrow> string \<Rightarrow> string \<Rightarrow> db \<Rightarrow> configuration_item option" where
  "config_get i src k d =
     find (\<lambda>c. ci_installation_id c = i \<and> ci_config_source c = src \<and> ci_key c = k) (tb_config_items d)"

definition configs_by_installation :: "uuid \<Rightarrow> db \<Rightarrow> configuration_item list" where
  "configs_by_installation i d = filter (\<lambda>c. ci_installation_id c = i) (tb_config_items d)"

definition cron_jobs_by_installation :: "uuid \<Rightarrow> db \<Rightarrow> wordpress_cron_job list" where
  "cron_jobs_by_installation i d = filter (\<lambda>c. cj_installation_id c = i) (tb_cron_jobs d)"

definition observation_get_by_path :: "string \<Rightarrow> db \<Rightarrow> temp_file_observation option" where
  "observation_get_by_path p d = find (\<lambda>t. abs_value (to_absolute_path t) = p) (tb_observations d)"

definition observations_count_by_verdict :: "temp_file_verdict \<Rightarrow> db \<Rightarrow> nat" where
  "observations_count_by_verdict v d = length (filter (\<lambda>t. to_verdict t = v) (tb_observations d))"

definition heartbeat_find_by_job_id :: "string \<Rightarrow> db \<Rightarrow> job_heartbeat option" where
  "heartbeat_find_by_job_id j d = find (\<lambda>h. hb_job_id h = j) (tb_heartbeats d)"

definition checksum_get :: "string \<Rightarrow> string \<Rightarrow> db \<Rightarrow> core_checksum_record option" where
  "checksum_get v p d = find (\<lambda>c. cs_wp_version c = v \<and> cs_relative_path c = p) (tb_checksums d)"

definition checksums_by_version :: "string \<Rightarrow> db \<Rightarrow> core_checksum_record list" where
  "checksums_by_version v d = filter (\<lambda>c. cs_wp_version c = v) (tb_checksums d)"

definition checksums_has_version :: "string \<Rightarrow> db \<Rightarrow> bool" where
  "checksums_has_version v d = (0 < length (checksums_by_version v d))"

section \<open>Facts about the queries\<close>

lemma baseline_lookup_Some:
  "baseline_get_by_account_and_path a p d = Some b \<Longrightarrow>
   b \<in> set (tb_baselines d) \<and> fb_account_id b = a \<and> fb_relative_path b = p"
  by (auto simp: baseline_get_by_account_and_path_def find_Some_iff relative_file_path.expand)

lemma findings_critical_sub:
  "f \<in> set (findings_critical_unremediated since n d) \<Longrightarrow>
   f \<in> set (tb_findings d) \<and> fi_severity f = CRITICAL \<and> fi_remediation_state f = RS_NONE \<and>
   since \<le> fi_detected_at f"
  by (auto simp: findings_critical_unremediated_def dest!: in_set_takeD)

lemma events_unprocessed_sub:
  "e \<in> set (events_unprocessed n d) \<Longrightarrow> e \<in> set (tb_events d) \<and> ev_processed_at e = None"
  by (auto simp: events_unprocessed_def dest!: in_set_takeD)

lemma distinct_map_filter_take:
  "distinct (map g t) \<Longrightarrow> distinct (map g (take n (order_asc f (filter P t))))"
  by (simp add: take_map [symmetric] distinct_map_filter)

lemma incident_find_open_matching_Some:
  "incident_find_open_matching s since d = Some i \<Longrightarrow>
   i \<in> set (tb_incidents d) \<and> in_signature i = s \<and> in_status i = OPEN \<and> since \<le> in_last_seen_at i"
proof -
  let ?xs = "filter (\<lambda>i. in_signature i = s \<and> in_status i = OPEN \<and> since \<le> in_last_seen_at i) (tb_incidents d)"
  assume "incident_find_open_matching s since d = Some i"
  then have "i \<in> set (order_desc in_last_seen_at ?xs)"
    by (auto simp: incident_find_open_matching_def simp del: set_order_desc split: list.splits)
  then show ?thesis by simp
qed

end
