(* ===== verification/Row_Repositories.thy ===== *)
theory Row_Repositories
  imports Row_Mapping Database
begin

text \<open>
  The SQLAlchemy repositories of \<open>infrastructure/persistence/repositories\<close> on
  tables of rows, method by method, and the proof that they implement the
  entity tables of \<^theory_text>\<open>Database\<close>, on which the use cases are modelled: storing a
  database and then running a repository method is running the table
  operation and then storing.

  Every \<open>add\<close> and \<open>save\<close> flushes; the session is created with
  \<open>autoflush=False\<close> and reads its own writes, so the tables are what the next
  query of the same session sees. \<open>scalar_one_or_none\<close> raises when more than
  one row matches.
\<close>

definition scalar_one_or_none :: "'a list \<Rightarrow> 'a option res" where
  "scalar_one_or_none rows =
     (case rows of [] \<Rightarrow> Inr None | [m] \<Rightarrow> Inr (Some m) | _ \<Rightarrow> Inl (OtherError ''MultipleResultsFound''))"

text \<open>\<open>result.scalars().first()\<close>.\<close>

definition first_row :: "'a list \<Rightarrow> 'a option" where
  "first_row rows = (case rows of [] \<Rightarrow> None | m # _ \<Rightarrow> Some m)"

record row_db =
  rw_servers :: "server_model list"
  rw_accounts :: "account_model list"
  rw_installations :: "installation_model list"
  rw_baselines :: "baseline_model list"
  rw_findings :: "finding_model list"
  rw_actions :: "action_model list"
  rw_events :: "event_model list"
  rw_incidents :: "incident_model list"
  rw_links :: "link_model list"
  rw_timeline :: "timeline_model list"
  rw_plugins :: "plugin_model list"
  rw_themes :: "theme_model list"
  rw_config_items :: "config_model list"
  rw_observations :: "observation_model list"
  rw_heartbeats :: "heartbeat_model list"
  rw_checksums :: "checksum_model list"
  rw_cron_jobs :: "cron_model list"

text \<open>The rows that hold a database of entities.\<close>

definition store_db :: "db \<Rightarrow> row_db" where
  "store_db d = \<lparr>rw_servers = map server_to_model (tb_servers d),
     rw_accounts = map account_to_model (tb_accounts d),
     rw_installations = map installation_to_model (tb_installations d),
     rw_baselines = map baseline_to_model (tb_baselines d),
     rw_findings = map finding_to_model (tb_findings d),
     rw_actions = map action_to_model (tb_actions d),
     rw_events = map event_to_model (tb_events d),
     rw_incidents = map incident_to_model (tb_incidents d),
     rw_links = map link_to_model (tb_links d),
     rw_timeline = map timeline_to_model (tb_timeline d),
     rw_plugins = map plugin_to_model (tb_plugins d),
     rw_themes = map theme_to_model (tb_themes d),
     rw_config_items = map config_to_model (tb_config_items d),
     rw_observations = map observation_to_model (tb_observations d),
     rw_heartbeats = map heartbeat_to_model (tb_heartbeats d),
     rw_checksums = map checksum_to_model (tb_checksums d),
     rw_cron_jobs = map cron_to_model (tb_cron_jobs d)\<rparr>"

section \<open>\<open>SqlAlchemyServerRepository\<close>\<close>

definition server_repo_add :: "server \<Rightarrow> row_db \<Rightarrow> row_db" where
  "server_repo_add e r = r\<lparr>rw_servers := tbl_add (server_to_model e) (rw_servers r)\<rparr>"

definition server_repo_save :: "server \<Rightarrow> row_db \<Rightarrow> row_db" where
  "server_repo_save e r = r\<lparr>rw_servers := tbl_save (server_to_model e) (rw_servers r)\<rparr>"

definition server_repo_get :: "uuid \<Rightarrow> row_db \<Rightarrow> server option res" where
  "server_repo_get k r = opt_res server_to_entity (tbl_get k (rw_servers r))"

definition server_repo_list :: "nat \<Rightarrow> nat \<Rightarrow> row_db \<Rightarrow> server list res" where
  "server_repo_list limit offset r = map_res server_to_entity (tbl_list limit offset (rw_servers r))"

definition server_repo_get_by_hostname :: "string \<Rightarrow> row_db \<Rightarrow> server option res" where
  "server_repo_get_by_hostname h r =
     bind_res (scalar_one_or_none (filter (\<lambda>m. sm_hostname m = h) (rw_servers r))) (opt_res server_to_entity)"

section \<open>\<open>SqlAlchemyCpanelAccountRepository\<close>\<close>

definition account_repo_add :: "cpanel_account \<Rightarrow> row_db \<Rightarrow> row_db" where
  "account_repo_add e r = r\<lparr>rw_accounts := tbl_add (account_to_model e) (rw_accounts r)\<rparr>"

definition account_repo_save :: "cpanel_account \<Rightarrow> row_db \<Rightarrow> row_db" where
  "account_repo_save e r = r\<lparr>rw_accounts := tbl_save (account_to_model e) (rw_accounts r)\<rparr>"

definition account_repo_get :: "uuid \<Rightarrow> row_db \<Rightarrow> cpanel_account option res" where
  "account_repo_get k r = opt_res account_to_entity (tbl_get k (rw_accounts r))"

definition account_repo_list :: "nat \<Rightarrow> nat \<Rightarrow> row_db \<Rightarrow> cpanel_account list res" where
  "account_repo_list limit offset r = map_res account_to_entity (tbl_list limit offset (rw_accounts r))"

definition account_repo_count_total :: "row_db \<Rightarrow> nat" where
  "account_repo_count_total r = length (rw_accounts r)"

definition account_repo_get_by_username :: "linux_username \<Rightarrow> row_db \<Rightarrow> cpanel_account option res" where
  "account_repo_get_by_username u r =
     bind_res (scalar_one_or_none (filter (\<lambda>m. am_username m = user_value u) (rw_accounts r))) (opt_res account_to_entity)"

definition account_repo_list_by_server :: "uuid \<Rightarrow> row_db \<Rightarrow> cpanel_account list res" where
  "account_repo_list_by_server sv r =
     map_res account_to_entity (filter (\<lambda>m. am_server_id m = sv) (rw_accounts r))"

section \<open>\<open>SqlAlchemyWordPressInstallationRepository\<close>\<close>

definition installation_repo_add :: "wordpress_installation \<Rightarrow> row_db \<Rightarrow> row_db" where
  "installation_repo_add e r = r\<lparr>rw_installations := tbl_add (installation_to_model e) (rw_installations r)\<rparr>"

definition installation_repo_save :: "wordpress_installation \<Rightarrow> row_db \<Rightarrow> row_db" where
  "installation_repo_save e r = r\<lparr>rw_installations := tbl_save (installation_to_model e) (rw_installations r)\<rparr>"

definition installation_repo_get :: "uuid \<Rightarrow> row_db \<Rightarrow> wordpress_installation option res" where
  "installation_repo_get k r = opt_res installation_to_entity (tbl_get k (rw_installations r))"

definition installation_repo_list :: "nat \<Rightarrow> nat \<Rightarrow> row_db \<Rightarrow> wordpress_installation list res" where
  "installation_repo_list limit offset r = map_res installation_to_entity (tbl_list limit offset (rw_installations r))"

definition installation_repo_get_by_path :: "string \<Rightarrow> row_db \<Rightarrow> wordpress_installation option res" where
  "installation_repo_get_by_path p r =
     bind_res (scalar_one_or_none (filter (\<lambda>m. im_absolute_path m = p) (rw_installations r))) (opt_res installation_to_entity)"

definition installation_repo_list_by_account :: "uuid \<Rightarrow> row_db \<Rightarrow> wordpress_installation list res" where
  "installation_repo_list_by_account a r =
     map_res installation_to_entity (filter (\<lambda>m. im_cpanel_account_id m = a) (rw_installations r))"

section \<open>\<open>SqlAlchemyFileBaselineRepository\<close>\<close>

definition baseline_repo_add :: "file_baseline \<Rightarrow> row_db \<Rightarrow> row_db" where
  "baseline_repo_add e r = r\<lparr>rw_baselines := tbl_add (baseline_to_model e) (rw_baselines r)\<rparr>"

definition baseline_repo_save :: "file_baseline \<Rightarrow> row_db \<Rightarrow> row_db" where
  "baseline_repo_save e r = r\<lparr>rw_baselines := tbl_save (baseline_to_model e) (rw_baselines r)\<rparr>"

definition baseline_repo_get :: "uuid \<Rightarrow> row_db \<Rightarrow> file_baseline option res" where
  "baseline_repo_get k r = opt_res baseline_to_entity (tbl_get k (rw_baselines r))"

definition baseline_repo_list :: "nat \<Rightarrow> nat \<Rightarrow> row_db \<Rightarrow> file_baseline list res" where
  "baseline_repo_list limit offset r = map_res baseline_to_entity (tbl_list limit offset (rw_baselines r))"

definition baseline_repo_get_by_account_and_path :: "uuid \<Rightarrow> relative_file_path \<Rightarrow> row_db \<Rightarrow> file_baseline option res" where
  "baseline_repo_get_by_account_and_path a rp r =
     bind_res (scalar_one_or_none (filter (\<lambda>m. bm_account_id m = a \<and> bm_relative_path m = rel_value rp) (rw_baselines r))) (opt_res baseline_to_entity)"

definition baseline_repo_list_by_account :: "uuid \<Rightarrow> row_db \<Rightarrow> file_baseline list res" where
  "baseline_repo_list_by_account a r =
     map_res baseline_to_entity (filter (\<lambda>m. bm_account_id m = a) (rw_baselines r))"

section \<open>\<open>SqlAlchemyIntegrityFindingRepository\<close>\<close>

definition finding_repo_add :: "integrity_finding \<Rightarrow> row_db \<Rightarrow> row_db" where
  "finding_repo_add e r = r\<lparr>rw_findings := tbl_add (finding_to_model e) (rw_findings r)\<rparr>"

definition finding_repo_save :: "integrity_finding \<Rightarrow> row_db \<Rightarrow> row_db" where
  "finding_repo_save e r = r\<lparr>rw_findings := tbl_save (finding_to_model e) (rw_findings r)\<rparr>"

definition finding_repo_get :: "uuid \<Rightarrow> row_db \<Rightarrow> integrity_finding option res" where
  "finding_repo_get k r = opt_res finding_to_entity (tbl_get k (rw_findings r))"

definition finding_repo_list :: "nat \<Rightarrow> nat \<Rightarrow> row_db \<Rightarrow> integrity_finding list res" where
  "finding_repo_list limit offset r = map_res finding_to_entity (tbl_list limit offset (order_desc fm_detected_at (rw_findings r)))"

definition finding_repo_count_total :: "row_db \<Rightarrow> nat" where
  "finding_repo_count_total r = length (rw_findings r)"

definition finding_repo_list_unacknowledged :: "nat \<Rightarrow> nat \<Rightarrow> row_db \<Rightarrow> integrity_finding list res" where
  "finding_repo_list_unacknowledged limit offset r =
     map_res finding_to_entity (tbl_list limit offset (order_desc fm_detected_at
       (filter (\<lambda>m. \<not> fm_is_acknowledged m) (rw_findings r))))"

definition finding_repo_list_since :: "datetime \<Rightarrow> nat \<Rightarrow> row_db \<Rightarrow> integrity_finding list res" where
  "finding_repo_list_since since limit r =
     map_res finding_to_entity (take limit (order_desc fm_detected_at
       (filter (\<lambda>m. since \<le> fm_detected_at m) (rw_findings r))))"

definition finding_repo_list_by_remediation_state :: "remediation_state \<Rightarrow> nat \<Rightarrow> row_db \<Rightarrow> integrity_finding list res" where
  "finding_repo_list_by_remediation_state st limit r =
     map_res finding_to_entity (take limit (order_desc fm_detected_at
       (filter (\<lambda>m. fm_remediation_state m = state_value st) (rw_findings r))))"

definition finding_repo_list_critical_unremediated :: "datetime \<Rightarrow> nat \<Rightarrow> row_db \<Rightarrow> integrity_finding list res" where
  "finding_repo_list_critical_unremediated since limit r =
     map_res finding_to_entity (take limit (order_asc fm_detected_at
       (filter (\<lambda>m. fm_severity m = severity_value CRITICAL \<and> fm_remediation_state m = state_value RS_NONE \<and>
                    since \<le> fm_detected_at m) (rw_findings r))))"

section \<open>\<open>SqlAlchemyRemediationActionRepository\<close>\<close>

definition action_repo_add :: "remediation_action \<Rightarrow> row_db \<Rightarrow> row_db" where
  "action_repo_add e r = r\<lparr>rw_actions := tbl_add (action_to_model e) (rw_actions r)\<rparr>"

definition action_repo_save :: "remediation_action \<Rightarrow> row_db \<Rightarrow> row_db" where
  "action_repo_save e r = r\<lparr>rw_actions := tbl_save (action_to_model e) (rw_actions r)\<rparr>"

definition action_repo_get :: "uuid \<Rightarrow> row_db \<Rightarrow> remediation_action option res" where
  "action_repo_get k r = opt_res action_to_entity (tbl_get k (rw_actions r))"

definition action_repo_list :: "nat \<Rightarrow> nat \<Rightarrow> row_db \<Rightarrow> remediation_action list res" where
  "action_repo_list limit offset r = map_res action_to_entity (tbl_list limit offset (order_desc xm_performed_at (rw_actions r)))"

definition action_repo_list_by_finding :: "uuid \<Rightarrow> row_db \<Rightarrow> remediation_action list res" where
  "action_repo_list_by_finding i r =
     map_res action_to_entity (order_desc xm_performed_at
       (filter (\<lambda>m. xm_finding_id m = i) (rw_actions r)))"

section \<open>\<open>SqlAlchemyEventRepository\<close>\<close>

definition event_repo_add :: "security_event \<Rightarrow> row_db \<Rightarrow> row_db" where
  "event_repo_add e r = r\<lparr>rw_events := tbl_add (event_to_model e) (rw_events r)\<rparr>"

definition event_repo_save :: "security_event \<Rightarrow> row_db \<Rightarrow> row_db" where
  "event_repo_save e r = r\<lparr>rw_events := tbl_save (event_to_model e) (rw_events r)\<rparr>"

definition event_repo_get :: "uuid \<Rightarrow> row_db \<Rightarrow> security_event option res" where
  "event_repo_get k r = opt_res event_to_entity (tbl_get k (rw_events r))"

definition event_repo_list :: "nat \<Rightarrow> nat \<Rightarrow> row_db \<Rightarrow> security_event list res" where
  "event_repo_list limit offset r = map_res event_to_entity (tbl_list limit offset (order_desc em_occurred_at (rw_events r)))"

definition event_repo_count_total :: "row_db \<Rightarrow> nat" where
  "event_repo_count_total r = length (rw_events r)"

definition event_repo_list_unprocessed :: "nat \<Rightarrow> row_db \<Rightarrow> security_event list res" where
  "event_repo_list_unprocessed limit r =
     map_res event_to_entity (take limit (order_asc em_occurred_at
       (filter (\<lambda>m. em_processed_at m = None) (rw_events r))))"

definition event_repo_list_by_account :: "uuid \<Rightarrow> nat \<Rightarrow> row_db \<Rightarrow> security_event list res" where
  "event_repo_list_by_account a limit r =
     map_res event_to_entity (take limit (order_desc em_occurred_at
       (filter (\<lambda>m. em_account_id m = Some a) (rw_events r))))"

definition event_repo_count_unprocessed :: "row_db \<Rightarrow> nat" where
  "event_repo_count_unprocessed r =
     length (filter (\<lambda>m. em_processed_at m = None) (rw_events r))"

section \<open>\<open>SqlAlchemyIncidentRepository\<close>\<close>

definition incident_repo_add :: "incident \<Rightarrow> row_db \<Rightarrow> row_db" where
  "incident_repo_add e r = r\<lparr>rw_incidents := tbl_add (incident_to_model e) (rw_incidents r)\<rparr>"

definition incident_repo_save :: "incident \<Rightarrow> row_db \<Rightarrow> row_db" where
  "incident_repo_save e r = r\<lparr>rw_incidents := tbl_save (incident_to_model e) (rw_incidents r)\<rparr>"

definition incident_repo_get :: "uuid \<Rightarrow> row_db \<Rightarrow> incident option res" where
  "incident_repo_get k r = opt_res incident_to_entity (tbl_get k (rw_incidents r))"

definition incident_repo_list :: "nat \<Rightarrow> nat \<Rightarrow> row_db \<Rightarrow> incident list res" where
  "incident_repo_list limit offset r = map_res incident_to_entity (tbl_list limit offset (order_desc nm_last_seen_at (rw_incidents r)))"

definition incident_repo_find_open_matching :: "string \<Rightarrow> datetime \<Rightarrow> row_db \<Rightarrow> incident option res" where
  "incident_repo_find_open_matching sig since r =
     opt_res incident_to_entity (first_row (order_desc nm_last_seen_at
       (filter (\<lambda>m. nm_correlation_signature m = sig \<and> nm_status m = incident_status_value OPEN \<and> since \<le> nm_last_seen_at m) (rw_incidents r))))"

definition incident_repo_list_open :: "row_db \<Rightarrow> incident list res" where
  "incident_repo_list_open r =
     map_res incident_to_entity (filter (\<lambda>m. nm_status m = incident_status_value OPEN) (rw_incidents r))"

section \<open>\<open>SqlAlchemyIncidentAccountLinkRepository\<close>\<close>

definition link_repo_add :: "incident_account_link \<Rightarrow> row_db \<Rightarrow> row_db" where
  "link_repo_add e r = r\<lparr>rw_links := tbl_add (link_to_model e) (rw_links r)\<rparr>"

definition link_repo_save :: "incident_account_link \<Rightarrow> row_db \<Rightarrow> row_db" where
  "link_repo_save e r = r\<lparr>rw_links := tbl_save (link_to_model e) (rw_links r)\<rparr>"

definition link_repo_get :: "uuid \<Rightarrow> row_db \<Rightarrow> incident_account_link option res" where
  "link_repo_get k r = opt_res link_to_entity (tbl_get k (rw_links r))"

definition link_repo_list :: "nat \<Rightarrow> nat \<Rightarrow> row_db \<Rightarrow> incident_account_link list res" where
  "link_repo_list limit offset r = map_res link_to_entity (tbl_list limit offset (rw_links r))"

definition link_repo_get_by_incident_and_account :: "uuid \<Rightarrow> uuid \<Rightarrow> row_db \<Rightarrow> incident_account_link option res" where
  "link_repo_get_by_incident_and_account i a r =
     bind_res (scalar_one_or_none (filter (\<lambda>m. lm_incident_id m = i \<and> lm_account_id m = a) (rw_links r))) (opt_res link_to_entity)"

definition link_repo_list_by_incident :: "uuid \<Rightarrow> row_db \<Rightarrow> incident_account_link list res" where
  "link_repo_list_by_incident i r =
     map_res link_to_entity (filter (\<lambda>m. lm_incident_id m = i) (rw_links r))"

section \<open>\<open>SqlAlchemyThreatTimelineEntryRepository\<close>\<close>

definition timeline_repo_add :: "threat_timeline_entry \<Rightarrow> row_db \<Rightarrow> row_db" where
  "timeline_repo_add e r = r\<lparr>rw_timeline := tbl_add (timeline_to_model e) (rw_timeline r)\<rparr>"

definition timeline_repo_save :: "threat_timeline_entry \<Rightarrow> row_db \<Rightarrow> row_db" where
  "timeline_repo_save e r = r\<lparr>rw_timeline := tbl_save (timeline_to_model e) (rw_timeline r)\<rparr>"

definition timeline_repo_get :: "uuid \<Rightarrow> row_db \<Rightarrow> threat_timeline_entry option res" where
  "timeline_repo_get k r = opt_res timeline_to_entity (tbl_get k (rw_timeline r))"

definition timeline_repo_list :: "nat \<Rightarrow> nat \<Rightarrow> row_db \<Rightarrow> threat_timeline_entry list res" where
  "timeline_repo_list limit offset r = map_res timeline_to_entity (tbl_list limit offset (order_desc tm_occurred_at (rw_timeline r)))"

definition timeline_repo_list_by_incident :: "uuid \<Rightarrow> row_db \<Rightarrow> threat_timeline_entry list res" where
  "timeline_repo_list_by_incident i r =
     map_res timeline_to_entity (order_asc tm_occurred_at
       (filter (\<lambda>m. tm_incident_id m = i) (rw_timeline r)))"

section \<open>\<open>SqlAlchemyInstalledPluginRepository\<close>\<close>

definition plugin_repo_add :: "installed_plugin \<Rightarrow> row_db \<Rightarrow> row_db" where
  "plugin_repo_add e r = r\<lparr>rw_plugins := tbl_add (plugin_to_model e) (rw_plugins r)\<rparr>"

definition plugin_repo_save :: "installed_plugin \<Rightarrow> row_db \<Rightarrow> row_db" where
  "plugin_repo_save e r = r\<lparr>rw_plugins := tbl_save (plugin_to_model e) (rw_plugins r)\<rparr>"

definition plugin_repo_get :: "uuid \<Rightarrow> row_db \<Rightarrow> installed_plugin option res" where
  "plugin_repo_get k r = opt_res plugin_to_entity (tbl_get k (rw_plugins r))"

definition plugin_repo_list :: "nat \<Rightarrow> nat \<Rightarrow> row_db \<Rightarrow> installed_plugin list res" where
  "plugin_repo_list limit offset r = map_res plugin_to_entity (tbl_list limit offset (rw_plugins r))"

definition plugin_repo_get_by_slug :: "uuid \<Rightarrow> string \<Rightarrow> row_db \<Rightarrow> installed_plugin option res" where
  "plugin_repo_get_by_slug i s r =
     bind_res (scalar_one_or_none (filter (\<lambda>m. pm_installation_id m = i \<and> pm_slug m = s) (rw_plugins r))) (opt_res plugin_to_entity)"

definition plugin_repo_list_by_installation :: "uuid \<Rightarrow> row_db \<Rightarrow> installed_plugin list res" where
  "plugin_repo_list_by_installation i r =
     map_res plugin_to_entity (filter (\<lambda>m. pm_installation_id m = i) (rw_plugins r))"

section \<open>\<open>SqlAlchemyInstalledThemeRepository\<close>\<close>

definition theme_repo_add :: "installed_theme \<Rightarrow> row_db \<Rightarrow> row_db" where
  "theme_repo_add e r = r\<lparr>rw_themes := tbl_add (theme_to_model e) (rw_themes r)\<rparr>"

definition theme_repo_save :: "installed_theme \<Rightarrow> row_db \<Rightarrow> row_db" where
  "theme_repo_save e r = r\<lparr>rw_themes := tbl_save (theme_to_model e) (rw_themes r)\<rparr>"

definition theme_repo_get :: "uuid \<Rightarrow> row_db \<Rightarrow> installed_theme option res" where
  "theme_repo_get k r = opt_res theme_to_entity (tbl_get k (rw_themes r))"

definition theme_repo_list :: "nat \<Rightarrow> nat \<Rightarrow> row_db \<Rightarrow> installed_theme list res" where
  "theme_repo_list limit offset r = map_res theme_to_entity (tbl_list limit offset (rw_themes r))"

definition theme_repo_get_by_slug :: "uuid \<Rightarrow> string \<Rightarrow> row_db \<Rightarrow> installed_theme option res" where
  "theme_repo_get_by_slug i s r =
     bind_res (scalar_one_or_none (filter (\<lambda>m. hm_installation_id m = i \<and> hm_slug m = s) (rw_themes r))) (opt_res theme_to_entity)"

definition theme_repo_list_by_installation :: "uuid \<Rightarrow> row_db \<Rightarrow> installed_theme list res" where
  "theme_repo_list_by_installation i r =
     map_res theme_to_entity (filter (\<lambda>m. hm_installation_id m = i) (rw_themes r))"

section \<open>\<open>SqlAlchemyConfigurationItemRepository\<close>\<close>

definition config_repo_add :: "configuration_item \<Rightarrow> row_db \<Rightarrow> row_db" where
  "config_repo_add e r = r\<lparr>rw_config_items := tbl_add (config_to_model e) (rw_config_items r)\<rparr>"

definition config_repo_save :: "configuration_item \<Rightarrow> row_db \<Rightarrow> row_db" where
  "config_repo_save e r = r\<lparr>rw_config_items := tbl_save (config_to_model e) (rw_config_items r)\<rparr>"

definition config_repo_get :: "uuid \<Rightarrow> row_db \<Rightarrow> configuration_item option res" where
  "config_repo_get k r = opt_res config_to_entity (tbl_get k (rw_config_items r))"

definition config_repo_list :: "nat \<Rightarrow> nat \<Rightarrow> row_db \<Rightarrow> configuration_item list res" where
  "config_repo_list limit offset r = map_res config_to_entity (tbl_list limit offset (rw_config_items r))"

definition config_repo_get_by_source_and_key :: "uuid \<Rightarrow> string \<Rightarrow> string \<Rightarrow> row_db \<Rightarrow> configuration_item option res" where
  "config_repo_get_by_source_and_key i src ky r =
     bind_res (scalar_one_or_none (filter (\<lambda>m. cm_installation_id m = i \<and> cm_config_source m = src \<and> cm_key m = ky) (rw_config_items r))) (opt_res config_to_entity)"

definition config_repo_list_by_installation :: "uuid \<Rightarrow> row_db \<Rightarrow> configuration_item list res" where
  "config_repo_list_by_installation i r =
     map_res config_to_entity (filter (\<lambda>m. cm_installation_id m = i) (rw_config_items r))"

section \<open>\<open>SqlAlchemyTempFileObservationRepository\<close>\<close>

definition observation_repo_add :: "temp_file_observation \<Rightarrow> row_db \<Rightarrow> row_db" where
  "observation_repo_add e r = r\<lparr>rw_observations := tbl_add (observation_to_model e) (rw_observations r)\<rparr>"

definition observation_repo_save :: "temp_file_observation \<Rightarrow> row_db \<Rightarrow> row_db" where
  "observation_repo_save e r = r\<lparr>rw_observations := tbl_save (observation_to_model e) (rw_observations r)\<rparr>"

definition observation_repo_get :: "uuid \<Rightarrow> row_db \<Rightarrow> temp_file_observation option res" where
  "observation_repo_get k r = opt_res observation_to_entity (tbl_get k (rw_observations r))"

definition observation_repo_list :: "nat \<Rightarrow> nat \<Rightarrow> row_db \<Rightarrow> temp_file_observation list res" where
  "observation_repo_list limit offset r = map_res observation_to_entity (tbl_list limit offset (order_desc om_detected_at (rw_observations r)))"

definition observation_repo_get_by_path :: "string \<Rightarrow> row_db \<Rightarrow> temp_file_observation option res" where
  "observation_repo_get_by_path p r =
     bind_res (scalar_one_or_none (filter (\<lambda>m. om_absolute_path m = p) (rw_observations r))) (opt_res observation_to_entity)"

definition observation_repo_count_by_verdict :: "temp_file_verdict \<Rightarrow> row_db \<Rightarrow> nat" where
  "observation_repo_count_by_verdict vd r =
     length (filter (\<lambda>m. om_verdict m = verdict_value vd) (rw_observations r))"

section \<open>\<open>SqlAlchemyJobHeartbeatRepository\<close>\<close>

definition heartbeat_repo_add :: "job_heartbeat \<Rightarrow> row_db \<Rightarrow> row_db" where
  "heartbeat_repo_add e r = r\<lparr>rw_heartbeats := tbl_add (heartbeat_to_model e) (rw_heartbeats r)\<rparr>"

definition heartbeat_repo_save :: "job_heartbeat \<Rightarrow> row_db \<Rightarrow> row_db" where
  "heartbeat_repo_save e r = r\<lparr>rw_heartbeats := tbl_save (heartbeat_to_model e) (rw_heartbeats r)\<rparr>"

definition heartbeat_repo_get :: "uuid \<Rightarrow> row_db \<Rightarrow> job_heartbeat option res" where
  "heartbeat_repo_get k r = opt_res heartbeat_to_entity (tbl_get k (rw_heartbeats r))"

definition heartbeat_repo_list :: "nat \<Rightarrow> nat \<Rightarrow> row_db \<Rightarrow> job_heartbeat list res" where
  "heartbeat_repo_list limit offset r = map_res heartbeat_to_entity (tbl_list limit offset (rw_heartbeats r))"

definition heartbeat_repo_find_by_job_id :: "string \<Rightarrow> row_db \<Rightarrow> job_heartbeat option res" where
  "heartbeat_repo_find_by_job_id j r =
     bind_res (scalar_one_or_none (filter (\<lambda>m. jm_job_id m = j) (rw_heartbeats r))) (opt_res heartbeat_to_entity)"

section \<open>\<open>SqlAlchemyCoreChecksumRepository\<close>\<close>

definition checksum_repo_add :: "core_checksum_record \<Rightarrow> row_db \<Rightarrow> row_db" where
  "checksum_repo_add e r = r\<lparr>rw_checksums := tbl_add (checksum_to_model e) (rw_checksums r)\<rparr>"

definition checksum_repo_save :: "core_checksum_record \<Rightarrow> row_db \<Rightarrow> row_db" where
  "checksum_repo_save e r = r\<lparr>rw_checksums := tbl_save (checksum_to_model e) (rw_checksums r)\<rparr>"

definition checksum_repo_get :: "uuid \<Rightarrow> row_db \<Rightarrow> core_checksum_record option res" where
  "checksum_repo_get k r = opt_res checksum_to_entity (tbl_get k (rw_checksums r))"

definition checksum_repo_list :: "nat \<Rightarrow> nat \<Rightarrow> row_db \<Rightarrow> core_checksum_record list res" where
  "checksum_repo_list limit offset r = map_res checksum_to_entity (tbl_list limit offset (rw_checksums r))"

definition checksum_repo_get_by_version_and_path :: "string \<Rightarrow> string \<Rightarrow> row_db \<Rightarrow> core_checksum_record option res" where
  "checksum_repo_get_by_version_and_path v p r =
     bind_res (scalar_one_or_none (filter (\<lambda>m. km_wp_version m = v \<and> km_relative_path m = p) (rw_checksums r))) (opt_res checksum_to_entity)"

definition checksum_repo_list_by_version :: "string \<Rightarrow> row_db \<Rightarrow> core_checksum_record list res" where
  "checksum_repo_list_by_version v r =
     map_res checksum_to_entity (filter (\<lambda>m. km_wp_version m = v) (rw_checksums r))"

definition checksum_repo_has_version :: "string \<Rightarrow> row_db \<Rightarrow> bool" where
  "checksum_repo_has_version v r =
     (0 < length (filter (\<lambda>m. km_wp_version m = v) (rw_checksums r)))"

section \<open>\<open>SqlAlchemyWordPressCronJobRepository\<close>\<close>

definition cron_repo_add :: "wordpress_cron_job \<Rightarrow> row_db \<Rightarrow> row_db" where
  "cron_repo_add e r = r\<lparr>rw_cron_jobs := tbl_add (cron_to_model e) (rw_cron_jobs r)\<rparr>"

definition cron_repo_save :: "wordpress_cron_job \<Rightarrow> row_db \<Rightarrow> row_db" where
  "cron_repo_save e r = r\<lparr>rw_cron_jobs := tbl_save (cron_to_model e) (rw_cron_jobs r)\<rparr>"

definition cron_repo_get :: "uuid \<Rightarrow> row_db \<Rightarrow> wordpress_cron_job option res" where
  "cron_repo_get k r = opt_res cron_to_entity (tbl_get k (rw_cron_jobs r))"

definition cron_repo_list :: "nat \<Rightarrow> nat \<Rightarrow> row_db \<Rightarrow> wordpress_cron_job list res" where
  "cron_repo_list limit offset r = map_res cron_to_entity (tbl_list limit offset (rw_cron_jobs r))"

definition cron_repo_list_by_installation :: "uuid \<Rightarrow> row_db \<Rightarrow> wordpress_cron_job list res" where
  "cron_repo_list_by_installation i r =
     map_res cron_to_entity (filter (\<lambda>m. wm_installation_id m = i) (rw_cron_jobs r))"

definition cron_repo_get_by_command :: "uuid \<Rightarrow> string \<Rightarrow> row_db \<Rightarrow> wordpress_cron_job option res" where
  "cron_repo_get_by_command i cmd r =
     bind_res (scalar_one_or_none (filter (\<lambda>m. wm_installation_id m = i \<and> wm_command m = cmd) (rw_cron_jobs r)))
       (opt_res cron_to_entity)"

section \<open>Databases that can be stored\<close>

text \<open>Every validated value in the database is one its class accepts.\<close>

definition valid_db :: "db \<Rightarrow> bool" where
  "valid_db d \<longleftrightarrow> list_all valid_account (tb_accounts d) \<and>
     list_all valid_installation (tb_installations d) \<and>
     list_all valid_baseline (tb_baselines d) \<and>
     list_all valid_finding (tb_findings d) \<and>
     list_all valid_action (tb_actions d) \<and>
     list_all valid_event (tb_events d) \<and>
     list_all valid_observation (tb_observations d)"

text \<open>The uniqueness constraints of the tables.\<close>

definition db_unique :: "db \<Rightarrow> bool" where
  "db_unique d \<longleftrightarrow> distinct (map (\<lambda>e. sv_hostname e) (tb_servers d)) \<and>
     distinct (map (\<lambda>e. user_value (ac_username e)) (tb_accounts d)) \<and>
     distinct (map (\<lambda>e. abs_value (wi_absolute_path e)) (tb_installations d)) \<and>
     distinct (map (\<lambda>e. (fb_account_id e, rel_value (fb_relative_path e))) (tb_baselines d)) \<and>
     distinct (map (\<lambda>e. (li_incident_id e, li_account_id e)) (tb_links d)) \<and>
     distinct (map (\<lambda>e. (pl_installation_id e, pl_slug e)) (tb_plugins d)) \<and>
     distinct (map (\<lambda>e. (th_installation_id e, th_slug e)) (tb_themes d)) \<and>
     distinct (map (\<lambda>e. (ci_installation_id e, ci_config_source e, ci_key e)) (tb_config_items d)) \<and>
     distinct (map (\<lambda>e. abs_value (to_absolute_path e)) (tb_observations d)) \<and>
     distinct (map (\<lambda>e. hb_job_id e) (tb_heartbeats d)) \<and>
     distinct (map (\<lambda>e. (cs_wp_version e, cs_relative_path e)) (tb_checksums d))"

named_theorems row_writes \<open>a write of a repository, on stored entities\<close>
named_theorems row_reads \<open>a query of a repository, on stored entities\<close>

lemma insort_key_map: "insort_key g (f x) (map f xs) = map f (insort_key (\<lambda>y. g (f y)) x xs)"
  by (induction xs) auto

lemma sort_key_map: "sort_key g (map f xs) = map f (sort_key (\<lambda>y. g (f y)) xs)"
  by (induction xs) (simp_all add: insort_key_map)

lemma rows_map:
  "order_desc g (map f xs) = map f (order_desc (\<lambda>y. g (f y)) xs)"
  "order_asc g (map f xs) = map f (order_asc (\<lambda>y. g (f y)) xs)"
  "tbl_list n k (map f xs) = map f (tbl_list n k xs)"
  "take n (map f xs) = map f (take n xs)"
  "first_row (map f xs) = map_option f (first_row xs)"
  by (simp_all add: order_desc_def order_asc_def sort_key_map tbl_list_def take_map drop_map
      first_row_def split: list.splits)

lemma scalar_key:
  assumes "distinct (map key t)"
  shows "scalar_one_or_none (map f (filter (\<lambda>e. key e = k) t)) =
    Inr (map_option f (find (\<lambda>e. key e = k) t))"
proof -
  have "length (filter (\<lambda>e. key e = k) t) \<le> 1"
    using assms by (induction t) (auto simp: filter_empty_conv image_iff)
  moreover have "find Q t = first_row (filter Q t)" for Q
    by (induction t) (auto simp: first_row_def)
  ultimately show ?thesis
    by (cases "filter (\<lambda>e. key e = k) t") (auto simp: scalar_one_or_none_def first_row_def)
qed

lemma valid_parts:
  "list_all v t \<Longrightarrow> list_all v (take n t)"
  "list_all v t \<Longrightarrow> list_all v (tbl_list n k t)"
  "list_all v t \<Longrightarrow> list_all v (order_desc g t)"
  "list_all v t \<Longrightarrow> list_all v (order_asc g t)"
  "list_all v t \<Longrightarrow> list_all v (filter P t)"
  "list_all v t \<Longrightarrow> pred_option v (find P t)"
  "list_all v t \<Longrightarrow> pred_option v (first_row t)"
  by (auto simp: list_all_iff tbl_list_def first_row_def find_Some_iff option.pred_set
      dest: in_set_takeD in_set_dropD find_SomeD split: list.splits)

lemma all_valid [simp]: "list_all (\<lambda>_. True) t" "pred_option (\<lambda>_. True) x"
  by (simp_all add: list_all_iff option.pred_set)

lemma enum_inject:
  "severity_value a = severity_value b \<longleftrightarrow> a = b"
  "state_value s = state_value s' \<longleftrightarrow> s = s'"
  "incident_status_value i = incident_status_value i' \<longleftrightarrow> i = i'"
  "verdict_value v = verdict_value v' \<longleftrightarrow> v = v'"
  by (metis severity_of_value sum.inject(2), metis enum_values(4) sum.inject(2),
      metis incident_status_of_value sum.inject(2), metis verdict_of_value sum.inject(2))

lemmas enum_literals = severity_value.simps state_value.simps incident_status_value.simps
  verdict_value.simps

lemma incident_find_open_first:
  "incident_find_open_matching sig since d = first_row (order_desc in_last_seen_at
     (filter (\<lambda>i. in_signature i = sig \<and> in_status i = OPEN \<and> since \<le> in_last_seen_at i)
       (tb_incidents d)))"
  by (simp add: incident_find_open_matching_def first_row_def)

lemma add_refines [row_writes]:
  "server_repo_add e1 (store_db d) = store_db (d\<lparr>tb_servers := tbl_add e1 (tb_servers d)\<rparr>)"
  "account_repo_add e2 (store_db d) = store_db (d\<lparr>tb_accounts := tbl_add e2 (tb_accounts d)\<rparr>)"
  "installation_repo_add e3 (store_db d) = store_db (d\<lparr>tb_installations := tbl_add e3 (tb_installations d)\<rparr>)"
  "baseline_repo_add e4 (store_db d) = store_db (d\<lparr>tb_baselines := tbl_add e4 (tb_baselines d)\<rparr>)"
  "finding_repo_add e5 (store_db d) = store_db (d\<lparr>tb_findings := tbl_add e5 (tb_findings d)\<rparr>)"
  "action_repo_add e6 (store_db d) = store_db (d\<lparr>tb_actions := tbl_add e6 (tb_actions d)\<rparr>)"
  "event_repo_add e7 (store_db d) = store_db (d\<lparr>tb_events := tbl_add e7 (tb_events d)\<rparr>)"
  "incident_repo_add e8 (store_db d) = store_db (d\<lparr>tb_incidents := tbl_add e8 (tb_incidents d)\<rparr>)"
  "link_repo_add e9 (store_db d) = store_db (d\<lparr>tb_links := tbl_add e9 (tb_links d)\<rparr>)"
  "timeline_repo_add e10 (store_db d) = store_db (d\<lparr>tb_timeline := tbl_add e10 (tb_timeline d)\<rparr>)"
  "plugin_repo_add e11 (store_db d) = store_db (d\<lparr>tb_plugins := tbl_add e11 (tb_plugins d)\<rparr>)"
  "theme_repo_add e12 (store_db d) = store_db (d\<lparr>tb_themes := tbl_add e12 (tb_themes d)\<rparr>)"
  "config_repo_add e13 (store_db d) = store_db (d\<lparr>tb_config_items := tbl_add e13 (tb_config_items d)\<rparr>)"
  "observation_repo_add e14 (store_db d) = store_db (d\<lparr>tb_observations := tbl_add e14 (tb_observations d)\<rparr>)"
  "heartbeat_repo_add e15 (store_db d) = store_db (d\<lparr>tb_heartbeats := tbl_add e15 (tb_heartbeats d)\<rparr>)"
  "checksum_repo_add e16 (store_db d) = store_db (d\<lparr>tb_checksums := tbl_add e16 (tb_checksums d)\<rparr>)"
  "cron_repo_add e17 (store_db d) = store_db (d\<lparr>tb_cron_jobs := tbl_add e17 (tb_cron_jobs d)\<rparr>)"
  by (simp_all add: store_db_def tbl_add_def
      server_repo_add_def
      account_repo_add_def
      installation_repo_add_def
      baseline_repo_add_def
      finding_repo_add_def
      action_repo_add_def
      event_repo_add_def
      incident_repo_add_def
      link_repo_add_def
      timeline_repo_add_def
      plugin_repo_add_def
      theme_repo_add_def
      config_repo_add_def
      observation_repo_add_def
      heartbeat_repo_add_def
      checksum_repo_add_def
      cron_repo_add_def)

lemma save_refines [row_writes]:
  "server_repo_save e1 (store_db d) = store_db (d\<lparr>tb_servers := tbl_save e1 (tb_servers d)\<rparr>)"
  "account_repo_save e2 (store_db d) = store_db (d\<lparr>tb_accounts := tbl_save e2 (tb_accounts d)\<rparr>)"
  "installation_repo_save e3 (store_db d) = store_db (d\<lparr>tb_installations := tbl_save e3 (tb_installations d)\<rparr>)"
  "baseline_repo_save e4 (store_db d) = store_db (d\<lparr>tb_baselines := tbl_save e4 (tb_baselines d)\<rparr>)"
  "finding_repo_save e5 (store_db d) = store_db (d\<lparr>tb_findings := tbl_save e5 (tb_findings d)\<rparr>)"
  "action_repo_save e6 (store_db d) = store_db (d\<lparr>tb_actions := tbl_save e6 (tb_actions d)\<rparr>)"
  "event_repo_save e7 (store_db d) = store_db (d\<lparr>tb_events := tbl_save e7 (tb_events d)\<rparr>)"
  "incident_repo_save e8 (store_db d) = store_db (d\<lparr>tb_incidents := tbl_save e8 (tb_incidents d)\<rparr>)"
  "link_repo_save e9 (store_db d) = store_db (d\<lparr>tb_links := tbl_save e9 (tb_links d)\<rparr>)"
  "timeline_repo_save e10 (store_db d) = store_db (d\<lparr>tb_timeline := tbl_save e10 (tb_timeline d)\<rparr>)"
  "plugin_repo_save e11 (store_db d) = store_db (d\<lparr>tb_plugins := tbl_save e11 (tb_plugins d)\<rparr>)"
  "theme_repo_save e12 (store_db d) = store_db (d\<lparr>tb_themes := tbl_save e12 (tb_themes d)\<rparr>)"
  "config_repo_save e13 (store_db d) = store_db (d\<lparr>tb_config_items := tbl_save e13 (tb_config_items d)\<rparr>)"
  "observation_repo_save e14 (store_db d) = store_db (d\<lparr>tb_observations := tbl_save e14 (tb_observations d)\<rparr>)"
  "heartbeat_repo_save e15 (store_db d) = store_db (d\<lparr>tb_heartbeats := tbl_save e15 (tb_heartbeats d)\<rparr>)"
  "checksum_repo_save e16 (store_db d) = store_db (d\<lparr>tb_checksums := tbl_save e16 (tb_checksums d)\<rparr>)"
  "cron_repo_save e17 (store_db d) = store_db (d\<lparr>tb_cron_jobs := tbl_save e17 (tb_cron_jobs d)\<rparr>)"
  by (simp_all add: store_db_def
      server_repo_save_def server_rows.save_model
      account_repo_save_def account_rows.save_model
      installation_repo_save_def installation_rows.save_model
      baseline_repo_save_def baseline_rows.save_model
      finding_repo_save_def finding_rows.save_model
      action_repo_save_def action_rows.save_model
      event_repo_save_def event_rows.save_model
      incident_repo_save_def incident_rows.save_model
      link_repo_save_def link_rows.save_model
      timeline_repo_save_def timeline_rows.save_model
      plugin_repo_save_def plugin_rows.save_model
      theme_repo_save_def theme_rows.save_model
      config_repo_save_def config_rows.save_model
      observation_repo_save_def observation_rows.save_model
      heartbeat_repo_save_def heartbeat_rows.save_model
      checksum_repo_save_def checksum_rows.save_model
      cron_repo_save_def cron_rows.save_model)

lemma get_refines [row_reads]:
  "server_repo_get k (store_db d) = Inr (tbl_get k (tb_servers d))"
  "valid_db d \<Longrightarrow> account_repo_get k (store_db d) = Inr (tbl_get k (tb_accounts d))"
  "valid_db d \<Longrightarrow> installation_repo_get k (store_db d) = Inr (tbl_get k (tb_installations d))"
  "valid_db d \<Longrightarrow> baseline_repo_get k (store_db d) = Inr (tbl_get k (tb_baselines d))"
  "valid_db d \<Longrightarrow> finding_repo_get k (store_db d) = Inr (tbl_get k (tb_findings d))"
  "valid_db d \<Longrightarrow> action_repo_get k (store_db d) = Inr (tbl_get k (tb_actions d))"
  "valid_db d \<Longrightarrow> event_repo_get k (store_db d) = Inr (tbl_get k (tb_events d))"
  "incident_repo_get k (store_db d) = Inr (tbl_get k (tb_incidents d))"
  "link_repo_get k (store_db d) = Inr (tbl_get k (tb_links d))"
  "timeline_repo_get k (store_db d) = Inr (tbl_get k (tb_timeline d))"
  "plugin_repo_get k (store_db d) = Inr (tbl_get k (tb_plugins d))"
  "theme_repo_get k (store_db d) = Inr (tbl_get k (tb_themes d))"
  "config_repo_get k (store_db d) = Inr (tbl_get k (tb_config_items d))"
  "valid_db d \<Longrightarrow> observation_repo_get k (store_db d) = Inr (tbl_get k (tb_observations d))"
  "heartbeat_repo_get k (store_db d) = Inr (tbl_get k (tb_heartbeats d))"
  "checksum_repo_get k (store_db d) = Inr (tbl_get k (tb_checksums d))"
  "cron_repo_get k (store_db d) = Inr (tbl_get k (tb_cron_jobs d))"
  by (simp_all add: store_db_def valid_db_def all_valid
      server_repo_get_def server_rows.read_get
      account_repo_get_def account_rows.read_get
      installation_repo_get_def installation_rows.read_get
      baseline_repo_get_def baseline_rows.read_get
      finding_repo_get_def finding_rows.read_get
      action_repo_get_def action_rows.read_get
      event_repo_get_def event_rows.read_get
      incident_repo_get_def incident_rows.read_get
      link_repo_get_def link_rows.read_get
      timeline_repo_get_def timeline_rows.read_get
      plugin_repo_get_def plugin_rows.read_get
      theme_repo_get_def theme_rows.read_get
      config_repo_get_def config_rows.read_get
      observation_repo_get_def observation_rows.read_get
      heartbeat_repo_get_def heartbeat_rows.read_get
      checksum_repo_get_def checksum_rows.read_get
      cron_repo_get_def cron_rows.read_get)

lemma server_list_refines [row_reads]:
  "server_repo_list limit offset (store_db d) = Inr (tbl_list limit offset (tb_servers d))"
  by (simp add: server_repo_list_def  store_db_def valid_db_def rows_map comp_def server_to_model_def
      server_rows.read_all all_valid valid_parts)

lemma account_list_refines [row_reads]:
  "valid_db d \<Longrightarrow> account_repo_list limit offset (store_db d) = Inr (tbl_list limit offset (tb_accounts d))"
  by (simp add: account_repo_list_def  store_db_def valid_db_def rows_map comp_def account_to_model_def
      account_rows.read_all all_valid valid_parts)

lemma installation_list_refines [row_reads]:
  "valid_db d \<Longrightarrow> installation_repo_list limit offset (store_db d) = Inr (tbl_list limit offset (tb_installations d))"
  by (simp add: installation_repo_list_def  store_db_def valid_db_def rows_map comp_def installation_to_model_def
      installation_rows.read_all all_valid valid_parts)

lemma baseline_list_refines [row_reads]:
  "valid_db d \<Longrightarrow> baseline_repo_list limit offset (store_db d) = Inr (tbl_list limit offset (tb_baselines d))"
  by (simp add: baseline_repo_list_def  store_db_def valid_db_def rows_map comp_def baseline_to_model_def
      baseline_rows.read_all all_valid valid_parts)

lemma finding_list_refines [row_reads]:
  "valid_db d \<Longrightarrow> finding_repo_list limit offset (store_db d) = Inr (findings_list limit offset d)"
  by (simp add: finding_repo_list_def findings_list_def store_db_def valid_db_def rows_map comp_def finding_to_model_def
      finding_rows.read_all all_valid valid_parts)

lemma action_list_refines [row_reads]:
  "valid_db d \<Longrightarrow> action_repo_list limit offset (store_db d) = Inr (actions_list limit offset d)"
  by (simp add: action_repo_list_def actions_list_def store_db_def valid_db_def rows_map comp_def action_to_model_def
      action_rows.read_all all_valid valid_parts)

lemma event_list_refines [row_reads]:
  "valid_db d \<Longrightarrow> event_repo_list limit offset (store_db d) = Inr (events_list limit offset d)"
  by (simp add: event_repo_list_def events_list_def store_db_def valid_db_def rows_map comp_def event_to_model_def
      event_rows.read_all all_valid valid_parts)

lemma incident_list_refines [row_reads]:
  "incident_repo_list limit offset (store_db d) = Inr (incidents_list limit offset d)"
  by (simp add: incident_repo_list_def incidents_list_def store_db_def valid_db_def rows_map comp_def incident_to_model_def
      incident_rows.read_all all_valid valid_parts)

lemma link_list_refines [row_reads]:
  "link_repo_list limit offset (store_db d) = Inr (tbl_list limit offset (tb_links d))"
  by (simp add: link_repo_list_def  store_db_def valid_db_def rows_map comp_def link_to_model_def
      link_rows.read_all all_valid valid_parts)

lemma timeline_list_refines [row_reads]:
  "timeline_repo_list limit offset (store_db d) = Inr (timeline_list limit offset d)"
  by (simp add: timeline_repo_list_def timeline_list_def store_db_def valid_db_def rows_map comp_def timeline_to_model_def
      timeline_rows.read_all all_valid valid_parts)

lemma plugin_list_refines [row_reads]:
  "plugin_repo_list limit offset (store_db d) = Inr (tbl_list limit offset (tb_plugins d))"
  by (simp add: plugin_repo_list_def  store_db_def valid_db_def rows_map comp_def plugin_to_model_def
      plugin_rows.read_all all_valid valid_parts)

lemma theme_list_refines [row_reads]:
  "theme_repo_list limit offset (store_db d) = Inr (tbl_list limit offset (tb_themes d))"
  by (simp add: theme_repo_list_def  store_db_def valid_db_def rows_map comp_def theme_to_model_def
      theme_rows.read_all all_valid valid_parts)

lemma config_list_refines [row_reads]:
  "config_repo_list limit offset (store_db d) = Inr (tbl_list limit offset (tb_config_items d))"
  by (simp add: config_repo_list_def  store_db_def valid_db_def rows_map comp_def config_to_model_def
      config_rows.read_all all_valid valid_parts)

lemma observation_list_refines [row_reads]:
  "valid_db d \<Longrightarrow> observation_repo_list limit offset (store_db d) = Inr (tbl_list limit offset (order_desc to_detected_at (tb_observations d)))"
  by (simp add: observation_repo_list_def  store_db_def valid_db_def rows_map comp_def observation_to_model_def
      observation_rows.read_all all_valid valid_parts)

lemma heartbeat_list_refines [row_reads]:
  "heartbeat_repo_list limit offset (store_db d) = Inr (tbl_list limit offset (tb_heartbeats d))"
  by (simp add: heartbeat_repo_list_def  store_db_def valid_db_def rows_map comp_def heartbeat_to_model_def
      heartbeat_rows.read_all all_valid valid_parts)

lemma checksum_list_refines [row_reads]:
  "checksum_repo_list limit offset (store_db d) = Inr (tbl_list limit offset (tb_checksums d))"
  by (simp add: checksum_repo_list_def  store_db_def valid_db_def rows_map comp_def checksum_to_model_def
      checksum_rows.read_all all_valid valid_parts)

lemma cron_list_refines [row_reads]:
  "cron_repo_list limit offset (store_db d) = Inr (tbl_list limit offset (tb_cron_jobs d))"
  by (simp add: cron_repo_list_def  store_db_def valid_db_def rows_map comp_def cron_to_model_def
      cron_rows.read_all all_valid valid_parts)

lemma server_get_by_hostname_refines [row_reads]:
  "db_unique d \<Longrightarrow> server_repo_get_by_hostname h (store_db d) = Inr (server_get_by_hostname h d)"
  using scalar_key [where key = "\<lambda>e. sv_hostname e" and t = "tb_servers d" and k = "h" and f = server_to_model]
  by (simp add: server_repo_get_by_hostname_def server_get_by_hostname_def store_db_def valid_db_def db_unique_def filter_map comp_def
      server_to_model_def server_rows.read_opt valid_parts)

lemma account_get_by_username_refines [row_reads]:
  "valid_db d \<Longrightarrow> db_unique d \<Longrightarrow> account_repo_get_by_username u (store_db d) = Inr (account_get_by_username u d)"
  using scalar_key [where key = "\<lambda>e. user_value (ac_username e)" and t = "tb_accounts d" and k = "user_value u" and f = account_to_model]
  by (simp add: account_repo_get_by_username_def account_get_by_username_def store_db_def valid_db_def db_unique_def filter_map comp_def
      account_to_model_def account_rows.read_opt valid_parts)

lemma account_list_by_server_refines [row_reads]:
  "valid_db d \<Longrightarrow> account_repo_list_by_server sv (store_db d) = Inr (accounts_by_server sv d)"
  by (simp add: account_repo_list_by_server_def accounts_by_server_def store_db_def valid_db_def rows_map filter_map comp_def account_to_model_def enum_inject
      account_rows.read_all account_rows.read_opt all_valid valid_parts
      del: enum_literals)

lemma installation_get_by_path_refines [row_reads]:
  "valid_db d \<Longrightarrow> db_unique d \<Longrightarrow> installation_repo_get_by_path p (store_db d) = Inr (installation_get_by_path p d)"
  using scalar_key [where key = "\<lambda>e. abs_value (wi_absolute_path e)" and t = "tb_installations d" and k = "p" and f = installation_to_model]
  by (simp add: installation_repo_get_by_path_def installation_get_by_path_def store_db_def valid_db_def db_unique_def filter_map comp_def
      installation_to_model_def installation_rows.read_opt valid_parts)

lemma installation_list_by_account_refines [row_reads]:
  "valid_db d \<Longrightarrow> installation_repo_list_by_account a (store_db d) = Inr (installations_by_account a d)"
  by (simp add: installation_repo_list_by_account_def installations_by_account_def store_db_def valid_db_def rows_map filter_map comp_def installation_to_model_def enum_inject
      installation_rows.read_all installation_rows.read_opt all_valid valid_parts
      del: enum_literals)

lemma baseline_get_by_account_and_path_refines [row_reads]:
  "valid_db d \<Longrightarrow> db_unique d \<Longrightarrow> baseline_repo_get_by_account_and_path a rp (store_db d) = Inr (baseline_get_by_account_and_path a rp d)"
  using scalar_key [where key = "\<lambda>e. (fb_account_id e, rel_value (fb_relative_path e))" and t = "tb_baselines d" and k = "(a, rel_value rp)" and f = baseline_to_model]
  by (simp add: baseline_repo_get_by_account_and_path_def baseline_get_by_account_and_path_def store_db_def valid_db_def db_unique_def filter_map comp_def
      baseline_to_model_def baseline_rows.read_opt valid_parts)

lemma baseline_list_by_account_refines [row_reads]:
  "valid_db d \<Longrightarrow> baseline_repo_list_by_account a (store_db d) = Inr (baselines_by_account a d)"
  by (simp add: baseline_repo_list_by_account_def baselines_by_account_def store_db_def valid_db_def rows_map filter_map comp_def baseline_to_model_def enum_inject
      baseline_rows.read_all baseline_rows.read_opt all_valid valid_parts
      del: enum_literals)

lemma finding_list_unacknowledged_refines [row_reads]:
  "valid_db d \<Longrightarrow> finding_repo_list_unacknowledged limit offset (store_db d) = Inr (findings_unacknowledged limit offset d)"
  by (simp add: finding_repo_list_unacknowledged_def findings_unacknowledged_def store_db_def valid_db_def rows_map filter_map comp_def finding_to_model_def enum_inject
      finding_rows.read_all finding_rows.read_opt all_valid valid_parts
      del: enum_literals)

lemma finding_list_since_refines [row_reads]:
  "valid_db d \<Longrightarrow> finding_repo_list_since since limit (store_db d) = Inr (findings_since since limit d)"
  by (simp add: finding_repo_list_since_def findings_since_def store_db_def valid_db_def rows_map filter_map comp_def finding_to_model_def enum_inject
      finding_rows.read_all finding_rows.read_opt all_valid valid_parts
      del: enum_literals)

lemma finding_list_by_remediation_state_refines [row_reads]:
  "valid_db d \<Longrightarrow> finding_repo_list_by_remediation_state st limit (store_db d) = Inr (findings_by_remediation_state st limit d)"
  by (simp add: finding_repo_list_by_remediation_state_def findings_by_remediation_state_def store_db_def valid_db_def rows_map filter_map comp_def finding_to_model_def enum_inject
      finding_rows.read_all finding_rows.read_opt all_valid valid_parts
      del: enum_literals)

lemma finding_list_critical_unremediated_refines [row_reads]:
  "valid_db d \<Longrightarrow> finding_repo_list_critical_unremediated since limit (store_db d) = Inr (findings_critical_unremediated since limit d)"
  by (simp add: finding_repo_list_critical_unremediated_def findings_critical_unremediated_def store_db_def valid_db_def rows_map filter_map comp_def finding_to_model_def enum_inject
      finding_rows.read_all finding_rows.read_opt all_valid valid_parts
      del: enum_literals)

lemma action_list_by_finding_refines [row_reads]:
  "valid_db d \<Longrightarrow> action_repo_list_by_finding i (store_db d) = Inr (actions_by_finding i d)"
  by (simp add: action_repo_list_by_finding_def actions_by_finding_def store_db_def valid_db_def rows_map filter_map comp_def action_to_model_def enum_inject
      action_rows.read_all action_rows.read_opt all_valid valid_parts
      del: enum_literals)

lemma event_list_unprocessed_refines [row_reads]:
  "valid_db d \<Longrightarrow> event_repo_list_unprocessed limit (store_db d) = Inr (events_unprocessed limit d)"
  by (simp add: event_repo_list_unprocessed_def events_unprocessed_def store_db_def valid_db_def rows_map filter_map comp_def event_to_model_def enum_inject
      event_rows.read_all event_rows.read_opt all_valid valid_parts
      del: enum_literals)

lemma event_list_by_account_refines [row_reads]:
  "valid_db d \<Longrightarrow> event_repo_list_by_account a limit (store_db d) = Inr (events_by_account a limit d)"
  by (simp add: event_repo_list_by_account_def events_by_account_def store_db_def valid_db_def rows_map filter_map comp_def event_to_model_def enum_inject
      event_rows.read_all event_rows.read_opt all_valid valid_parts
      del: enum_literals)

lemma event_count_unprocessed_refines [row_reads]:
  "event_repo_count_unprocessed (store_db d) = events_count_unprocessed d"
  by (simp add: event_repo_count_unprocessed_def events_count_unprocessed_def store_db_def valid_db_def rows_map filter_map comp_def event_to_model_def enum_inject
      event_rows.read_all event_rows.read_opt all_valid valid_parts
      del: enum_literals)

lemma incident_find_open_matching_refines [row_reads]:
  "incident_repo_find_open_matching sig since (store_db d) = Inr (incident_find_open_matching sig since d)"
  by (simp add: incident_repo_find_open_matching_def incident_find_open_first store_db_def valid_db_def rows_map filter_map comp_def incident_to_model_def enum_inject
      incident_rows.read_all incident_rows.read_opt all_valid valid_parts
      del: enum_literals)

lemma incident_list_open_refines [row_reads]:
  "incident_repo_list_open (store_db d) = Inr (incidents_open d)"
  by (simp add: incident_repo_list_open_def incidents_open_def store_db_def valid_db_def rows_map filter_map comp_def incident_to_model_def enum_inject
      incident_rows.read_all incident_rows.read_opt all_valid valid_parts
      del: enum_literals)

lemma link_get_by_incident_and_account_refines [row_reads]:
  "db_unique d \<Longrightarrow> link_repo_get_by_incident_and_account i a (store_db d) = Inr (link_get i a d)"
  using scalar_key [where key = "\<lambda>e. (li_incident_id e, li_account_id e)" and t = "tb_links d" and k = "(i, a)" and f = link_to_model]
  by (simp add: link_repo_get_by_incident_and_account_def link_get_def store_db_def valid_db_def db_unique_def filter_map comp_def
      link_to_model_def link_rows.read_opt valid_parts)

lemma link_list_by_incident_refines [row_reads]:
  "link_repo_list_by_incident i (store_db d) = Inr (links_by_incident i d)"
  by (simp add: link_repo_list_by_incident_def links_by_incident_def store_db_def valid_db_def rows_map filter_map comp_def link_to_model_def enum_inject
      link_rows.read_all link_rows.read_opt all_valid valid_parts
      del: enum_literals)

lemma timeline_list_by_incident_refines [row_reads]:
  "timeline_repo_list_by_incident i (store_db d) = Inr (timeline_by_incident i d)"
  by (simp add: timeline_repo_list_by_incident_def timeline_by_incident_def store_db_def valid_db_def rows_map filter_map comp_def timeline_to_model_def enum_inject
      timeline_rows.read_all timeline_rows.read_opt all_valid valid_parts
      del: enum_literals)

lemma plugin_get_by_slug_refines [row_reads]:
  "db_unique d \<Longrightarrow> plugin_repo_get_by_slug i s (store_db d) = Inr (plugin_get_by_slug i s d)"
  using scalar_key [where key = "\<lambda>e. (pl_installation_id e, pl_slug e)" and t = "tb_plugins d" and k = "(i, s)" and f = plugin_to_model]
  by (simp add: plugin_repo_get_by_slug_def plugin_get_by_slug_def store_db_def valid_db_def db_unique_def filter_map comp_def
      plugin_to_model_def plugin_rows.read_opt valid_parts)

lemma plugin_list_by_installation_refines [row_reads]:
  "plugin_repo_list_by_installation i (store_db d) = Inr (plugins_by_installation i d)"
  by (simp add: plugin_repo_list_by_installation_def plugins_by_installation_def store_db_def valid_db_def rows_map filter_map comp_def plugin_to_model_def enum_inject
      plugin_rows.read_all plugin_rows.read_opt all_valid valid_parts
      del: enum_literals)

lemma theme_get_by_slug_refines [row_reads]:
  "db_unique d \<Longrightarrow> theme_repo_get_by_slug i s (store_db d) = Inr (theme_get_by_slug i s d)"
  using scalar_key [where key = "\<lambda>e. (th_installation_id e, th_slug e)" and t = "tb_themes d" and k = "(i, s)" and f = theme_to_model]
  by (simp add: theme_repo_get_by_slug_def theme_get_by_slug_def store_db_def valid_db_def db_unique_def filter_map comp_def
      theme_to_model_def theme_rows.read_opt valid_parts)

lemma theme_list_by_installation_refines [row_reads]:
  "theme_repo_list_by_installation i (store_db d) = Inr (themes_by_installation i d)"
  by (simp add: theme_repo_list_by_installation_def themes_by_installation_def store_db_def valid_db_def rows_map filter_map comp_def theme_to_model_def enum_inject
      theme_rows.read_all theme_rows.read_opt all_valid valid_parts
      del: enum_literals)

lemma config_get_by_source_and_key_refines [row_reads]:
  "db_unique d \<Longrightarrow> config_repo_get_by_source_and_key i src ky (store_db d) = Inr (config_get i src ky d)"
  using scalar_key [where key = "\<lambda>e. (ci_installation_id e, ci_config_source e, ci_key e)" and t = "tb_config_items d" and k = "(i, src, ky)" and f = config_to_model]
  by (simp add: config_repo_get_by_source_and_key_def config_get_def store_db_def valid_db_def db_unique_def filter_map comp_def
      config_to_model_def config_rows.read_opt valid_parts)

lemma config_list_by_installation_refines [row_reads]:
  "config_repo_list_by_installation i (store_db d) = Inr (configs_by_installation i d)"
  by (simp add: config_repo_list_by_installation_def configs_by_installation_def store_db_def valid_db_def rows_map filter_map comp_def config_to_model_def enum_inject
      config_rows.read_all config_rows.read_opt all_valid valid_parts
      del: enum_literals)

lemma observation_get_by_path_refines [row_reads]:
  "valid_db d \<Longrightarrow> db_unique d \<Longrightarrow> observation_repo_get_by_path p (store_db d) = Inr (observation_get_by_path p d)"
  using scalar_key [where key = "\<lambda>e. abs_value (to_absolute_path e)" and t = "tb_observations d" and k = "p" and f = observation_to_model]
  by (simp add: observation_repo_get_by_path_def observation_get_by_path_def store_db_def valid_db_def db_unique_def filter_map comp_def
      observation_to_model_def observation_rows.read_opt valid_parts)

lemma observation_count_by_verdict_refines [row_reads]:
  "observation_repo_count_by_verdict vd (store_db d) = observations_count_by_verdict vd d"
  by (simp add: observation_repo_count_by_verdict_def observations_count_by_verdict_def store_db_def valid_db_def rows_map filter_map comp_def observation_to_model_def enum_inject
      observation_rows.read_all observation_rows.read_opt all_valid valid_parts
      del: enum_literals)

lemma heartbeat_find_by_job_id_refines [row_reads]:
  "db_unique d \<Longrightarrow> heartbeat_repo_find_by_job_id j (store_db d) = Inr (heartbeat_find_by_job_id j d)"
  using scalar_key [where key = "\<lambda>e. hb_job_id e" and t = "tb_heartbeats d" and k = "j" and f = heartbeat_to_model]
  by (simp add: heartbeat_repo_find_by_job_id_def heartbeat_find_by_job_id_def store_db_def valid_db_def db_unique_def filter_map comp_def
      heartbeat_to_model_def heartbeat_rows.read_opt valid_parts)

lemma checksum_get_by_version_and_path_refines [row_reads]:
  "db_unique d \<Longrightarrow> checksum_repo_get_by_version_and_path v p (store_db d) = Inr (checksum_get v p d)"
  using scalar_key [where key = "\<lambda>e. (cs_wp_version e, cs_relative_path e)" and t = "tb_checksums d" and k = "(v, p)" and f = checksum_to_model]
  by (simp add: checksum_repo_get_by_version_and_path_def checksum_get_def store_db_def valid_db_def db_unique_def filter_map comp_def
      checksum_to_model_def checksum_rows.read_opt valid_parts)

lemma checksum_list_by_version_refines [row_reads]:
  "checksum_repo_list_by_version v (store_db d) = Inr (checksums_by_version v d)"
  by (simp add: checksum_repo_list_by_version_def checksums_by_version_def store_db_def valid_db_def rows_map filter_map comp_def checksum_to_model_def enum_inject
      checksum_rows.read_all checksum_rows.read_opt all_valid valid_parts
      del: enum_literals)

lemma checksum_has_version_refines [row_reads]:
  "checksum_repo_has_version v (store_db d) = checksums_has_version v d"
  by (simp add: checksum_repo_has_version_def checksums_has_version_def checksums_by_version_def store_db_def valid_db_def rows_map filter_map comp_def checksum_to_model_def enum_inject
      checksum_rows.read_all checksum_rows.read_opt all_valid valid_parts
      del: enum_literals)

lemma cron_list_by_installation_refines [row_reads]:
  "cron_repo_list_by_installation i (store_db d) = Inr (cron_jobs_by_installation i d)"
  by (simp add: cron_repo_list_by_installation_def cron_jobs_by_installation_def store_db_def valid_db_def rows_map filter_map comp_def cron_to_model_def enum_inject
      cron_rows.read_all cron_rows.read_opt all_valid valid_parts
      del: enum_literals)

section \<open>The repositories implement the entity tables\<close>

text \<open>Refinement of the writes: on stored entities, the \<open>add\<close> and the \<open>save\<close> of
  every repository are the insertion and the replacement of the entity in its
  table; all seventeen tables, no hypothesis.\<close>

theorem repository_writes_refine:
  fixes d :: db
  shows
   "server_repo_add e1 (store_db d) = store_db (d\<lparr>tb_servers := tbl_add e1 (tb_servers d)\<rparr>) \<and>
    server_repo_save e1 (store_db d) = store_db (d\<lparr>tb_servers := tbl_save e1 (tb_servers d)\<rparr>) \<and>
    account_repo_add e2 (store_db d) = store_db (d\<lparr>tb_accounts := tbl_add e2 (tb_accounts d)\<rparr>) \<and>
    account_repo_save e2 (store_db d) = store_db (d\<lparr>tb_accounts := tbl_save e2 (tb_accounts d)\<rparr>) \<and>
    installation_repo_add e3 (store_db d) = store_db (d\<lparr>tb_installations := tbl_add e3 (tb_installations d)\<rparr>) \<and>
    installation_repo_save e3 (store_db d) = store_db (d\<lparr>tb_installations := tbl_save e3 (tb_installations d)\<rparr>) \<and>
    baseline_repo_add e4 (store_db d) = store_db (d\<lparr>tb_baselines := tbl_add e4 (tb_baselines d)\<rparr>) \<and>
    baseline_repo_save e4 (store_db d) = store_db (d\<lparr>tb_baselines := tbl_save e4 (tb_baselines d)\<rparr>) \<and>
    finding_repo_add e5 (store_db d) = store_db (d\<lparr>tb_findings := tbl_add e5 (tb_findings d)\<rparr>) \<and>
    finding_repo_save e5 (store_db d) = store_db (d\<lparr>tb_findings := tbl_save e5 (tb_findings d)\<rparr>) \<and>
    action_repo_add e6 (store_db d) = store_db (d\<lparr>tb_actions := tbl_add e6 (tb_actions d)\<rparr>) \<and>
    action_repo_save e6 (store_db d) = store_db (d\<lparr>tb_actions := tbl_save e6 (tb_actions d)\<rparr>) \<and>
    event_repo_add e7 (store_db d) = store_db (d\<lparr>tb_events := tbl_add e7 (tb_events d)\<rparr>) \<and>
    event_repo_save e7 (store_db d) = store_db (d\<lparr>tb_events := tbl_save e7 (tb_events d)\<rparr>) \<and>
    incident_repo_add e8 (store_db d) = store_db (d\<lparr>tb_incidents := tbl_add e8 (tb_incidents d)\<rparr>) \<and>
    incident_repo_save e8 (store_db d) = store_db (d\<lparr>tb_incidents := tbl_save e8 (tb_incidents d)\<rparr>) \<and>
    link_repo_add e9 (store_db d) = store_db (d\<lparr>tb_links := tbl_add e9 (tb_links d)\<rparr>) \<and>
    link_repo_save e9 (store_db d) = store_db (d\<lparr>tb_links := tbl_save e9 (tb_links d)\<rparr>) \<and>
    timeline_repo_add e10 (store_db d) = store_db (d\<lparr>tb_timeline := tbl_add e10 (tb_timeline d)\<rparr>) \<and>
    timeline_repo_save e10 (store_db d) = store_db (d\<lparr>tb_timeline := tbl_save e10 (tb_timeline d)\<rparr>) \<and>
    plugin_repo_add e11 (store_db d) = store_db (d\<lparr>tb_plugins := tbl_add e11 (tb_plugins d)\<rparr>) \<and>
    plugin_repo_save e11 (store_db d) = store_db (d\<lparr>tb_plugins := tbl_save e11 (tb_plugins d)\<rparr>) \<and>
    theme_repo_add e12 (store_db d) = store_db (d\<lparr>tb_themes := tbl_add e12 (tb_themes d)\<rparr>) \<and>
    theme_repo_save e12 (store_db d) = store_db (d\<lparr>tb_themes := tbl_save e12 (tb_themes d)\<rparr>) \<and>
    config_repo_add e13 (store_db d) = store_db (d\<lparr>tb_config_items := tbl_add e13 (tb_config_items d)\<rparr>) \<and>
    config_repo_save e13 (store_db d) = store_db (d\<lparr>tb_config_items := tbl_save e13 (tb_config_items d)\<rparr>) \<and>
    observation_repo_add e14 (store_db d) = store_db (d\<lparr>tb_observations := tbl_add e14 (tb_observations d)\<rparr>) \<and>
    observation_repo_save e14 (store_db d) = store_db (d\<lparr>tb_observations := tbl_save e14 (tb_observations d)\<rparr>) \<and>
    heartbeat_repo_add e15 (store_db d) = store_db (d\<lparr>tb_heartbeats := tbl_add e15 (tb_heartbeats d)\<rparr>) \<and>
    heartbeat_repo_save e15 (store_db d) = store_db (d\<lparr>tb_heartbeats := tbl_save e15 (tb_heartbeats d)\<rparr>) \<and>
    checksum_repo_add e16 (store_db d) = store_db (d\<lparr>tb_checksums := tbl_add e16 (tb_checksums d)\<rparr>) \<and>
    checksum_repo_save e16 (store_db d) = store_db (d\<lparr>tb_checksums := tbl_save e16 (tb_checksums d)\<rparr>) \<and>
    cron_repo_add e17 (store_db d) = store_db (d\<lparr>tb_cron_jobs := tbl_add e17 (tb_cron_jobs d)\<rparr>) \<and>
    cron_repo_save e17 (store_db d) = store_db (d\<lparr>tb_cron_jobs := tbl_save e17 (tb_cron_jobs d)\<rparr>)"
  by (intro conjI; rule row_writes)

lemma cron_get_by_command_refines:
  assumes "valid_db d"
  shows "cron_repo_get_by_command i cmd (store_db d) =
    scalar_one_or_none (filter (\<lambda>c. cj_installation_id c = i \<and> cj_command c = cmd) (tb_cron_jobs d))"
proof -
  have "filter (\<lambda>m. wm_installation_id m = i \<and> wm_command m = cmd) (rw_cron_jobs (store_db d)) =
      map cron_to_model (filter (\<lambda>c. cj_installation_id c = i \<and> cj_command c = cmd) (tb_cron_jobs d))"
    by (simp add: store_db_def filter_map comp_def cron_to_model_def)
  then show ?thesis
    by (cases "filter (\<lambda>c. cj_installation_id c = i \<and> cj_command c = cmd) (tb_cron_jobs d)" rule: remdups_adj.cases)
      (simp_all add: cron_repo_get_by_command_def scalar_one_or_none_def opt_res_def cron_rows.read_back)
qed

lemma count_refines:
  "account_repo_count_total (store_db d) = length (tb_accounts d)"
  "finding_repo_count_total (store_db d) = length (tb_findings d)"
  "event_repo_count_total (store_db d) = length (tb_events d)"
  by (simp_all add: account_repo_count_total_def finding_repo_count_total_def event_repo_count_total_def store_db_def)

lemma rows_read_back:
  assumes "valid_db d"
  shows "map_res server_to_entity (rw_servers (store_db d)) = Inr (tb_servers d) \<and>
    map_res account_to_entity (rw_accounts (store_db d)) = Inr (tb_accounts d) \<and>
    map_res installation_to_entity (rw_installations (store_db d)) = Inr (tb_installations d) \<and>
    map_res baseline_to_entity (rw_baselines (store_db d)) = Inr (tb_baselines d) \<and>
    map_res finding_to_entity (rw_findings (store_db d)) = Inr (tb_findings d) \<and>
    map_res action_to_entity (rw_actions (store_db d)) = Inr (tb_actions d) \<and>
    map_res event_to_entity (rw_events (store_db d)) = Inr (tb_events d) \<and>
    map_res incident_to_entity (rw_incidents (store_db d)) = Inr (tb_incidents d) \<and>
    map_res link_to_entity (rw_links (store_db d)) = Inr (tb_links d) \<and>
    map_res timeline_to_entity (rw_timeline (store_db d)) = Inr (tb_timeline d) \<and>
    map_res plugin_to_entity (rw_plugins (store_db d)) = Inr (tb_plugins d) \<and>
    map_res theme_to_entity (rw_themes (store_db d)) = Inr (tb_themes d) \<and>
    map_res config_to_entity (rw_config_items (store_db d)) = Inr (tb_config_items d) \<and>
    map_res observation_to_entity (rw_observations (store_db d)) = Inr (tb_observations d) \<and>
    map_res heartbeat_to_entity (rw_heartbeats (store_db d)) = Inr (tb_heartbeats d) \<and>
    map_res checksum_to_entity (rw_checksums (store_db d)) = Inr (tb_checksums d) \<and>
    map_res cron_to_entity (rw_cron_jobs (store_db d)) = Inr (tb_cron_jobs d)"
  using assms
  by (intro conjI) (simp_all add: valid_db_def store_db_def server_rows.read_all account_rows.read_all
      installation_rows.read_all baseline_rows.read_all finding_rows.read_all action_rows.read_all
      event_rows.read_all incident_rows.read_all link_rows.read_all timeline_rows.read_all plugin_rows.read_all
      theme_rows.read_all config_rows.read_all observation_rows.read_all heartbeat_rows.read_all
      checksum_rows.read_all cron_rows.read_all)

text \<open>C26. Refinement of the reads: on a stored database whose values are valid and
  whose uniqueness constraints hold, every query of every repository of the tables returns
  what the query of the entity tables returns: the lookups by identifier, the listings with limit and
  offset in their order, the selections, the counts. One query can raise: the table of cron jobs has no
  uniqueness constraint, and \<open>get_by_installation_and_command\<close> raises \<open>MultipleResultsFound\<close> as soon as an
  installation has two rows with the command.\<close>

theorem repository_reads_refine:
  assumes "valid_db d" "db_unique d"
  shows
   "server_repo_get k (store_db d) = Inr (tbl_get k (tb_servers d)) \<and>
    server_repo_list limit offset (store_db d) = Inr (tbl_list limit offset (tb_servers d)) \<and>
    account_repo_get k (store_db d) = Inr (tbl_get k (tb_accounts d)) \<and>
    account_repo_list limit offset (store_db d) = Inr (tbl_list limit offset (tb_accounts d)) \<and>
    installation_repo_get k (store_db d) = Inr (tbl_get k (tb_installations d)) \<and>
    installation_repo_list limit offset (store_db d) = Inr (tbl_list limit offset (tb_installations d)) \<and>
    baseline_repo_get k (store_db d) = Inr (tbl_get k (tb_baselines d)) \<and>
    baseline_repo_list limit offset (store_db d) = Inr (tbl_list limit offset (tb_baselines d)) \<and>
    finding_repo_get k (store_db d) = Inr (tbl_get k (tb_findings d)) \<and>
    finding_repo_list limit offset (store_db d) = Inr (findings_list limit offset d) \<and>
    action_repo_get k (store_db d) = Inr (tbl_get k (tb_actions d)) \<and>
    action_repo_list limit offset (store_db d) = Inr (actions_list limit offset d) \<and>
    event_repo_get k (store_db d) = Inr (tbl_get k (tb_events d)) \<and>
    event_repo_list limit offset (store_db d) = Inr (events_list limit offset d) \<and>
    incident_repo_get k (store_db d) = Inr (tbl_get k (tb_incidents d)) \<and>
    incident_repo_list limit offset (store_db d) = Inr (incidents_list limit offset d) \<and>
    link_repo_get k (store_db d) = Inr (tbl_get k (tb_links d)) \<and>
    link_repo_list limit offset (store_db d) = Inr (tbl_list limit offset (tb_links d)) \<and>
    timeline_repo_get k (store_db d) = Inr (tbl_get k (tb_timeline d)) \<and>
    timeline_repo_list limit offset (store_db d) = Inr (timeline_list limit offset d) \<and>
    plugin_repo_get k (store_db d) = Inr (tbl_get k (tb_plugins d)) \<and>
    plugin_repo_list limit offset (store_db d) = Inr (tbl_list limit offset (tb_plugins d)) \<and>
    theme_repo_get k (store_db d) = Inr (tbl_get k (tb_themes d)) \<and>
    theme_repo_list limit offset (store_db d) = Inr (tbl_list limit offset (tb_themes d)) \<and>
    config_repo_get k (store_db d) = Inr (tbl_get k (tb_config_items d)) \<and>
    config_repo_list limit offset (store_db d) = Inr (tbl_list limit offset (tb_config_items d)) \<and>
    observation_repo_get k (store_db d) = Inr (tbl_get k (tb_observations d)) \<and>
    observation_repo_list limit offset (store_db d) = Inr (tbl_list limit offset (order_desc to_detected_at (tb_observations d))) \<and>
    heartbeat_repo_get k (store_db d) = Inr (tbl_get k (tb_heartbeats d)) \<and>
    heartbeat_repo_list limit offset (store_db d) = Inr (tbl_list limit offset (tb_heartbeats d)) \<and>
    checksum_repo_get k (store_db d) = Inr (tbl_get k (tb_checksums d)) \<and>
    checksum_repo_list limit offset (store_db d) = Inr (tbl_list limit offset (tb_checksums d)) \<and>
    cron_repo_get k (store_db d) = Inr (tbl_get k (tb_cron_jobs d)) \<and>
    cron_repo_list limit offset (store_db d) = Inr (tbl_list limit offset (tb_cron_jobs d)) \<and>
    server_repo_get_by_hostname h (store_db d) = Inr (server_get_by_hostname h d) \<and>
    account_repo_get_by_username u (store_db d) = Inr (account_get_by_username u d) \<and>
    account_repo_list_by_server sv (store_db d) = Inr (accounts_by_server sv d) \<and>
    installation_repo_get_by_path p (store_db d) = Inr (installation_get_by_path p d) \<and>
    installation_repo_list_by_account a (store_db d) = Inr (installations_by_account a d) \<and>
    baseline_repo_get_by_account_and_path a rp (store_db d) = Inr (baseline_get_by_account_and_path a rp d) \<and>
    baseline_repo_list_by_account a (store_db d) = Inr (baselines_by_account a d) \<and>
    finding_repo_list_unacknowledged limit offset (store_db d) = Inr (findings_unacknowledged limit offset d) \<and>
    finding_repo_list_since since limit (store_db d) = Inr (findings_since since limit d) \<and>
    finding_repo_list_by_remediation_state st limit (store_db d) = Inr (findings_by_remediation_state st limit d) \<and>
    finding_repo_list_critical_unremediated since limit (store_db d) = Inr (findings_critical_unremediated since limit d) \<and>
    action_repo_list_by_finding i (store_db d) = Inr (actions_by_finding i d) \<and>
    event_repo_list_unprocessed limit (store_db d) = Inr (events_unprocessed limit d) \<and>
    event_repo_list_by_account a limit (store_db d) = Inr (events_by_account a limit d) \<and>
    event_repo_count_unprocessed (store_db d) = events_count_unprocessed d \<and>
    incident_repo_find_open_matching sig since (store_db d) = Inr (incident_find_open_matching sig since d) \<and>
    incident_repo_list_open (store_db d) = Inr (incidents_open d) \<and>
    link_repo_get_by_incident_and_account i a (store_db d) = Inr (link_get i a d) \<and>
    link_repo_list_by_incident i (store_db d) = Inr (links_by_incident i d) \<and>
    timeline_repo_list_by_incident i (store_db d) = Inr (timeline_by_incident i d) \<and>
    plugin_repo_get_by_slug i s (store_db d) = Inr (plugin_get_by_slug i s d) \<and>
    plugin_repo_list_by_installation i (store_db d) = Inr (plugins_by_installation i d) \<and>
    theme_repo_get_by_slug i s (store_db d) = Inr (theme_get_by_slug i s d) \<and>
    theme_repo_list_by_installation i (store_db d) = Inr (themes_by_installation i d) \<and>
    config_repo_get_by_source_and_key i src ky (store_db d) = Inr (config_get i src ky d) \<and>
    config_repo_list_by_installation i (store_db d) = Inr (configs_by_installation i d) \<and>
    observation_repo_get_by_path p (store_db d) = Inr (observation_get_by_path p d) \<and>
    observation_repo_count_by_verdict vd (store_db d) = observations_count_by_verdict vd d \<and>
    heartbeat_repo_find_by_job_id j (store_db d) = Inr (heartbeat_find_by_job_id j d) \<and>
    checksum_repo_get_by_version_and_path v p (store_db d) = Inr (checksum_get v p d) \<and>
    checksum_repo_list_by_version v (store_db d) = Inr (checksums_by_version v d) \<and>
    checksum_repo_has_version v (store_db d) = checksums_has_version v d \<and>
    cron_repo_list_by_installation i (store_db d) = Inr (cron_jobs_by_installation i d) \<and>
    account_repo_count_total (store_db d) = length (tb_accounts d) \<and>
    finding_repo_count_total (store_db d) = length (tb_findings d) \<and>
    event_repo_count_total (store_db d) = length (tb_events d) \<and>
    cron_repo_get_by_command i cmd (store_db d) =
      (case filter (\<lambda>c. cj_installation_id c = i \<and> cj_command c = cmd) (tb_cron_jobs d) of
         [] \<Rightarrow> Inr None
       | [c] \<Rightarrow> Inr (Some c)
       | _ \<Rightarrow> Inl (OtherError ''MultipleResultsFound''))"
  using assms by (intro conjI; simp add: row_reads count_refines cron_get_by_command_refines scalar_one_or_none_def)

definition demo_rows_db :: db where
  "demo_rows_db = empty_db\<lparr>
     tb_accounts := [\<lparr>eid = 1, created_at = 0, updated_at = 0, ac_server_id = 0,
       ac_username = LinuxUsername ''bob'', ac_primary_domain = DomainName ''a.org'',
       ac_home_directory = AbsoluteFilePath ''/home/bob'', ac_is_suspended = False,
       ac_last_seen_at = 0, ac_is_active = True\<rparr>],
     tb_events := [new_event 2 0 ''integrity'' ''scan'' (Some 1) CRITICAL [(''path'', JStr ''a'')] 5,
       new_event 3 0 ''integrity'' ''scan'' None LOW [] 4]\<rparr>"

lemma demo_rows_ok: "valid_db demo_rows_db" "db_unique demo_rows_db"
proof -
  have "valid_user (LinuxUsername ''bob'')" "valid_domain (DomainName ''a.org'')"
    "valid_abs (AbsoluteFilePath ''/home/bob'')"
    unfolding valid_user_def valid_domain_def valid_abs_def
    by (rule exI [of _ "''bob''"], code_simp) (rule exI [of _ "''a.org''"], code_simp,
      rule exI [of _ "''/home/bob''"], code_simp)
  then show "valid_db demo_rows_db"
    by (simp add: valid_db_def demo_rows_db_def empty_db_def valid_account_def valid_event_def new_event_def)
  show "db_unique demo_rows_db"
    by (simp add: db_unique_def demo_rows_db_def empty_db_def)
qed

theorem repository_reads_refine_witness:
  "event_repo_list_unprocessed 10 (store_db demo_rows_db) =
     Inr [new_event 3 0 ''integrity'' ''scan'' None LOW [] 4,
       new_event 2 0 ''integrity'' ''scan'' (Some 1) CRITICAL [(''path'', JStr ''a'')] 5]"
proof -
  have "events_unprocessed 10 demo_rows_db =
     [new_event 3 0 ''integrity'' ''scan'' None LOW [] 4,
       new_event 2 0 ''integrity'' ''scan'' (Some 1) CRITICAL [(''path'', JStr ''a'')] 5]"
    by (simp add: events_unprocessed_def demo_rows_db_def empty_db_def new_event_def order_asc_def)
  then show ?thesis
    using repository_reads_refine [OF demo_rows_ok] by simp
qed

end
