(* ===== verification/Integrity_Scan.thy ===== *)
theory Integrity_Scan
  imports Database
begin

text \<open>
  \<open>RunIntegrityScanUseCase\<close> (\<open>application/integrity/use_cases.py\<close>): the hashes
  the scanner reports for each active account are reconciled with the
  account's baselines. The scanner is a parameter (a function from accounts to
  reports), as is \<open>mimetypes.guess_type\<close>. All clock readings of one run are the
  one instant \<open>tm\<close>; only \<open>created_at\<close> and \<open>updated_at\<close> can tell.

  The loop over the reports is compared with a reference description: what is
  reported for each path is a function of the baseline and the report alone
  (\<open>file_report\<close>, \<open>missing_report\<close>), and the new baseline table is a map of the
  old one (\<open>rebase\<close>) with the new files behind it.
\<close>

section \<open>The use case\<close>

fun severity_by_change :: "change_type \<Rightarrow> severity" where
  "severity_by_change ADDED = MEDIUM"
| "severity_by_change MODIFIED = HIGH"
| "severity_by_change DELETED = HIGH"
| "severity_by_change PERMISSIONS_CHANGED = MEDIUM"

definition scanner_version :: string where
  "scanner_version = ''integrity-hash-diff@1''"

record integrity_scan_result =
  sr_accounts_scanned :: nat
  sr_baselines_established :: nat
  sr_findings_created :: nat
  sr_baselines_removed :: nat

text \<open>The local variables of \<open>_scan_account\<close>; the baseline objects the loop
  mutates are the values of \<open>baselines_by_path\<close>.\<close>

record scan_state =
  ss_db :: db
  ss_by_path :: "(string \<times> file_baseline) list"
  ss_seen :: "string set"
  ss_established :: nat
  ss_created :: nat
  ss_removed :: nat

abbreviation bpath :: "file_baseline \<Rightarrow> string" where
  "bpath b \<equiv> rel_value (fb_relative_path b)"

abbreviation spath :: "scanned_file \<Rightarrow> string" where
  "spath s \<equiv> rel_value (sf_relative_path s)"

definition new_baseline :: "uuid \<Rightarrow> datetime \<Rightarrow> uuid \<Rightarrow> scanned_file \<Rightarrow> file_baseline" where
  "new_baseline i tm a s =
     \<lparr>eid = i, created_at = tm, updated_at = tm, fb_account_id = a,
      fb_relative_path = sf_relative_path s, fb_sha256 = sf_sha256 s,
      fb_size_bytes = sf_size_bytes s, fb_mode = sf_mode s, fb_last_verified_at = tm,
      fb_is_active = True\<rparr>"

definition finding_event ::
    "(string \<Rightarrow> string option) \<Rightarrow> uuid \<Rightarrow> datetime \<Rightarrow> cpanel_account \<Rightarrow> integrity_finding \<Rightarrow>
     int option \<Rightarrow> string option \<Rightarrow> security_event" where
  "finding_event mime i tm account f size_bytes mode =
     (let path = rel_value (fi_relative_path f);
          sha = map_option sha_value
                  (case fi_current_sha256 f of Some h \<Rightarrow> Some h | None \<Rightarrow> fi_previous_sha256 f)
      in (new_event i tm
            (''integrity_finding_'' @ str_lower (change_type_value (fi_change_type f)))
            ''integrity'' (Some (eid account)) (severity_by_change (fi_change_type f))
            [(''relative_path'', JStr path), (''sha256'', opt_str sha),
             (''finding_id'', JStr (uuid_str (eid f)))] tm)
         \<lparr>ev_server_id := Some (ac_server_id account), ev_file_path := Some path,
          ev_sha256 := sha, ev_file_size_bytes := size_bytes,
          ev_file_owner := Some (user_value (ac_username account)),
          ev_file_permissions := mode, ev_mime_type := mime path,
          ev_scanner_version := Some scanner_version,
          ev_detection_rule_id := Some (change_type_value (fi_change_type f))\<rparr>)"

definition raise_finding ::
    "(string \<Rightarrow> string option) \<Rightarrow> datetime \<Rightarrow> cpanel_account \<Rightarrow> relative_file_path \<Rightarrow> change_type \<Rightarrow>
     sha256_hash option \<Rightarrow> sha256_hash option \<Rightarrow> int option \<Rightarrow> string option \<Rightarrow> db \<Rightarrow> db" where
  "raise_finding mime tm account path change previous current size_bytes mode d =
     (let (i, d) = uuid4 d;
          f = new_finding i tm (eid account) path change (severity_by_change change) previous current tm;
          d = d\<lparr>tb_findings := tbl_add f (tb_findings d)\<rparr>;
          (j, d) = uuid4 d
      in d\<lparr>tb_events := tbl_add (finding_event mime j tm account f size_bytes mode) (tb_events d)\<rparr>)"

text \<open>One pass of the first loop.\<close>

definition scan_file ::
    "(string \<Rightarrow> string option) \<Rightarrow> datetime \<Rightarrow> cpanel_account \<Rightarrow> bool \<Rightarrow> scan_state \<Rightarrow> scanned_file \<Rightarrow>
     scan_state" where
  "scan_file mime tm account is_first st s =
     (let key = spath s;
          st = st\<lparr>ss_seen := insert key (ss_seen st)\<rparr>;
          report = (\<lambda>change previous. raise_finding mime tm account (sf_relative_path s) change previous
                      (Some (sf_sha256 s)) (Some (sf_size_bytes s)) (Some (sf_mode s)))
      in case map_of (ss_by_path st) key of
           None \<Rightarrow>
             (let (i, d) = uuid4 (ss_db st);
                  d = d\<lparr>tb_baselines := tbl_add (new_baseline i tm (eid account) s) (tb_baselines d)\<rparr>;
                  st = st\<lparr>ss_db := d, ss_established := ss_established st + 1\<rparr>
              in if is_first then st
                 else st\<lparr>ss_db := report ADDED None d, ss_created := ss_created st + 1\<rparr>)
         | Some b \<Rightarrow>
             if \<not> fb_is_active b then
               (let b' = baseline_reactivate tm (sf_sha256 s) (sf_size_bytes s) (sf_mode s) tm b;
                    d = (ss_db st)\<lparr>tb_baselines := tbl_save b' (tb_baselines (ss_db st))\<rparr>
                in st\<lparr>ss_db := report ADDED None d, ss_by_path := dict_set key b' (ss_by_path st),
                      ss_established := ss_established st + 1, ss_created := ss_created st + 1\<rparr>)
             else if fb_sha256 b \<noteq> sf_sha256 s then
               (let b' = baseline_update tm (sf_sha256 s) (sf_size_bytes s) (sf_mode s) tm b;
                    d = (ss_db st)\<lparr>tb_baselines := tbl_save b' (tb_baselines (ss_db st))\<rparr>
                in st\<lparr>ss_db := report MODIFIED (Some (fb_sha256 b)) d,
                      ss_by_path := dict_set key b' (ss_by_path st),
                      ss_created := ss_created st + 1\<rparr>)
             else if fb_mode b \<noteq> sf_mode s then
               (let b' = baseline_update tm (sf_sha256 s) (sf_size_bytes s) (sf_mode s) tm b;
                    d = (ss_db st)\<lparr>tb_baselines := tbl_save b' (tb_baselines (ss_db st))\<rparr>
                in st\<lparr>ss_db := report PERMISSIONS_CHANGED (Some (fb_sha256 b')) d,
                      ss_by_path := dict_set key b' (ss_by_path st),
                      ss_created := ss_created st + 1\<rparr>)
             else st)"

text \<open>One pass of the second loop, over the items of the dictionary.\<close>

definition scan_missing ::
    "(string \<Rightarrow> string option) \<Rightarrow> datetime \<Rightarrow> cpanel_account \<Rightarrow> scan_state \<Rightarrow> string \<times> file_baseline \<Rightarrow>
     scan_state" where
  "scan_missing mime tm account st kb =
     (let (key, b) = kb in
      if key \<in> ss_seen st \<or> \<not> fb_is_active b then st
      else
        (let b' = baseline_mark_removed tm tm b;
             d = (ss_db st)\<lparr>tb_baselines := tbl_save b' (tb_baselines (ss_db st))\<rparr>
         in st\<lparr>ss_db := raise_finding mime tm account (fb_relative_path b) DELETED (Some (fb_sha256 b))
                  None (Some (fb_size_bytes b)) (Some (fb_mode b)) d,
               ss_removed := ss_removed st + 1, ss_created := ss_created st + 1\<rparr>))"

definition scan_account ::
    "(string \<Rightarrow> string option) \<Rightarrow> datetime \<Rightarrow> cpanel_account \<Rightarrow> scanned_file list \<Rightarrow> db \<Rightarrow>
     (nat \<times> nat \<times> nat) \<times> db" where
  "scan_account mime tm account scanned d =
     (let existing = baselines_by_account (eid account) d;
          is_first = (length existing = 0);
          st = \<lparr>ss_db = d, ss_by_path = dict_by bpath existing, ss_seen = {},
                ss_established = 0, ss_created = 0, ss_removed = 0\<rparr>;
          st = foldl (scan_file mime tm account is_first) st scanned;
          st = foldl (scan_missing mime tm account) st (ss_by_path st)
      in ((ss_established st, ss_created st, ss_removed st), ss_db st))"

fun scan_accounts ::
    "(string \<Rightarrow> string option) \<Rightarrow> datetime \<Rightarrow> (cpanel_account \<Rightarrow> scanned_file list) \<Rightarrow>
     cpanel_account list \<Rightarrow> integrity_scan_result \<Rightarrow> db \<Rightarrow> integrity_scan_result \<times> db" where
  "scan_accounts mime tm scanner [] r d = (r, d)"
| "scan_accounts mime tm scanner (a # as) r d =
     (if \<not> ac_is_active a then scan_accounts mime tm scanner as r d
      else
        (let ((established, created, removed), d) = scan_account mime tm a (scanner a) d
         in scan_accounts mime tm scanner as
              \<lparr>sr_accounts_scanned = sr_accounts_scanned r + 1,
               sr_baselines_established = sr_baselines_established r + established,
               sr_findings_created = sr_findings_created r + created,
               sr_baselines_removed = sr_baselines_removed r + removed\<rparr> d))"

definition run_integrity_scan ::
    "(string \<Rightarrow> string option) \<Rightarrow> datetime \<Rightarrow> (cpanel_account \<Rightarrow> scanned_file list) \<Rightarrow> db \<Rightarrow>
     integrity_scan_result \<times> db" where
  "run_integrity_scan mime tm scanner d =
     scan_accounts mime tm scanner (tbl_list 10000 0 (tb_accounts d))
       \<lparr>sr_accounts_scanned = 0, sr_baselines_established = 0, sr_findings_created = 0,
        sr_baselines_removed = 0\<rparr> d"

section \<open>The reference description\<close>

type_synonym change_report = "relative_file_path \<times> change_type \<times> sha256_hash option \<times> sha256_hash option"

definition file_report :: "bool \<Rightarrow> (string \<Rightarrow> file_baseline option) \<Rightarrow> scanned_file \<Rightarrow> change_report list" where
  "file_report is_first known s =
     (case known (spath s) of
        None \<Rightarrow> if is_first then [] else [(sf_relative_path s, ADDED, None, Some (sf_sha256 s))]
      | Some b \<Rightarrow>
          if \<not> fb_is_active b then [(sf_relative_path s, ADDED, None, Some (sf_sha256 s))]
          else if fb_sha256 b \<noteq> sf_sha256 s
          then [(sf_relative_path s, MODIFIED, Some (fb_sha256 b), Some (sf_sha256 s))]
          else if fb_mode b \<noteq> sf_mode s
          then [(sf_relative_path s, PERMISSIONS_CHANGED, Some (fb_sha256 b), Some (sf_sha256 s))]
          else [])"

definition missing_report :: "string set \<Rightarrow> file_baseline \<Rightarrow> change_report list" where
  "missing_report seen b =
     (if bpath b \<in> seen \<or> \<not> fb_is_active b then []
      else [(fb_relative_path b, DELETED, Some (fb_sha256 b), None)])"

definition absorb :: "datetime \<Rightarrow> scanned_file \<Rightarrow> file_baseline \<Rightarrow> file_baseline" where
  "absorb tm s b =
     (if \<not> fb_is_active b then baseline_reactivate tm (sf_sha256 s) (sf_size_bytes s) (sf_mode s) tm b
      else if fb_sha256 b \<noteq> sf_sha256 s \<or> fb_mode b \<noteq> sf_mode s
      then baseline_update tm (sf_sha256 s) (sf_size_bytes s) (sf_mode s) tm b
      else b)"

definition absorb_all :: "datetime \<Rightarrow> scanned_file list \<Rightarrow> file_baseline \<Rightarrow> file_baseline" where
  "absorb_all tm fs b = (case find (\<lambda>s. spath s = bpath b) fs of Some s \<Rightarrow> absorb tm s b | None \<Rightarrow> b)"

definition rebase :: "datetime \<Rightarrow> uuid \<Rightarrow> scanned_file list \<Rightarrow> file_baseline \<Rightarrow> file_baseline" where
  "rebase tm a fs b =
     (if fb_account_id b \<noteq> a then b
      else case find (\<lambda>s. spath s = bpath b) fs of
             Some s \<Rightarrow> absorb tm s b
           | None \<Rightarrow> if fb_is_active b then baseline_mark_removed tm tm b else b)"

definition finding_report :: "integrity_finding \<Rightarrow> change_report" where
  "finding_report f = (fi_relative_path f, fi_change_type f, fi_previous_sha256 f, fi_current_sha256 f)"

text \<open>A finding of a scan of account \<open>a\<close> at \<open>tm\<close>, and the event that announces it.\<close>

definition scan_finding :: "uuid \<Rightarrow> datetime \<Rightarrow> integrity_finding \<Rightarrow> bool" where
  "scan_finding a tm f \<longleftrightarrow>
     (\<exists>i path change previous current.
        f = new_finding i tm a path change (severity_by_change change) previous current tm)"

definition announces ::
    "(string \<Rightarrow> string option) \<Rightarrow> datetime \<Rightarrow> cpanel_account \<Rightarrow> integrity_finding \<Rightarrow> security_event \<Rightarrow> bool" where
  "announces mime tm account f e \<longleftrightarrow>
     (\<exists>j size_bytes mode. e = finding_event mime j tm account f size_bytes mode)"

definition baselines_unique :: "db \<Rightarrow> bool" where
  "baselines_unique d \<longleftrightarrow> distinct (map (\<lambda>b. (fb_account_id b, bpath b)) (tb_baselines d))"

section \<open>Basic facts\<close>

lemma new_baseline_simps [simp]:
  "eid (new_baseline i tm a s) = i"
  "fb_account_id (new_baseline i tm a s) = a"
  "fb_relative_path (new_baseline i tm a s) = sf_relative_path s"
  "fb_sha256 (new_baseline i tm a s) = sf_sha256 s"
  "fb_mode (new_baseline i tm a s) = sf_mode s"
  "fb_is_active (new_baseline i tm a s) = True"
  by (simp_all add: new_baseline_def)

lemma new_baseline_eid0 [simp]: "(new_baseline i tm a s)\<lparr>eid := 0\<rparr> = new_baseline 0 tm a s"
  by (simp add: new_baseline_def)

lemma raise_finding_eq:
  "raise_finding mime tm account path change previous current size_bytes mode d =
     (let f = new_finding (next_uuid d) tm (eid account) path change (severity_by_change change)
                previous current tm
      in d\<lparr>tb_findings := tb_findings d @ [f],
           tb_events := tb_events d @ [finding_event mime (Suc (next_uuid d)) tm account f size_bytes mode],
           next_uuid := Suc (Suc (next_uuid d))\<rparr>)"
  by (simp add: raise_finding_def uuid4_def tbl_add_def Let_def)

lemma finding_event_simps [simp]:
  "eid (finding_event mime i tm account f n m) = i"
  "ev_processed_at (finding_event mime i tm account f n m) = None"
  by (simp_all add: finding_event_def Let_def new_event_def)

lemma raise_finding_wf:
  assumes "db_wf d"
  shows "db_wf (raise_finding mime tm account path change previous current n m d)"
proof -
  let ?f = "new_finding (next_uuid d) tm (eid account) path change (severity_by_change change) previous current tm"
  let ?e = "finding_event mime (Suc (next_uuid d)) tm account ?f n m"
  have "tbl_wf (Suc (Suc (next_uuid d))) (tb_findings d @ [?f])"
    using assms tbl_wf_add[of "next_uuid d" "tb_findings d" ?f "Suc (Suc (next_uuid d))"]
    by (simp add: db_wf_def tbl_add_def)
  moreover have "tbl_wf (Suc (Suc (next_uuid d))) (tb_events d @ [?e])"
    using assms tbl_wf_add[of "next_uuid d" "tb_events d" ?e "Suc (Suc (next_uuid d))"]
    by (simp add: db_wf_def tbl_add_def)
  ultimately show ?thesis
    using db_wf_uuid4[OF db_wf_uuid4[OF assms]] by (simp add: raise_finding_eq Let_def db_wf_def)
qed

lemma add_baseline_wf:
  "db_wf d \<Longrightarrow> db_wf (d\<lparr>next_uuid := Suc (next_uuid d),
                          tb_baselines := tb_baselines d @ [new_baseline (next_uuid d) tm a s]\<rparr>)"
  using tbl_wf_add[of "next_uuid d" "tb_baselines d" "new_baseline (next_uuid d) tm a s" "Suc (next_uuid d)"]
    db_wf_uuid4[of d]
  by (auto simp: db_wf_def tbl_add_def)

lemma save_baseline_wf:
  "db_wf d \<Longrightarrow> eid b \<in> set (tbl_ids (tb_baselines d)) \<Longrightarrow>
   db_wf (d\<lparr>tb_baselines := tbl_save b (tb_baselines d)\<rparr>)"
  by (auto simp: db_wf_def in_tbl_ids tbl_wf_def[of _ "tb_baselines d"] list_all_iff
      intro!: tbl_wf_save)

lemma absorb_simps [simp]:
  "eid (absorb tm s b) = eid b"
  "fb_account_id (absorb tm s b) = fb_account_id b"
  "fb_relative_path (absorb tm s b) = fb_relative_path b"
  "fb_sha256 (absorb tm s b) = sf_sha256 s"
  "fb_mode (absorb tm s b) = sf_mode s"
  "fb_is_active (absorb tm s b) = True"
  by (auto simp: absorb_def)

lemma absorb_all_simps [simp]:
  "eid (absorb_all tm fs b) = eid b"
  "fb_account_id (absorb_all tm fs b) = fb_account_id b"
  "fb_relative_path (absorb_all tm fs b) = fb_relative_path b"
  by (auto simp: absorb_all_def split: option.splits)

lemma rebase_simps [simp]:
  "eid (rebase tm a fs b) = eid b"
  "fb_account_id (rebase tm a fs b) = fb_account_id b"
  "fb_relative_path (rebase tm a fs b) = fb_relative_path b"
  by (auto simp: rebase_def split: option.splits)

lemma absorb_all_Nil [simp]: "absorb_all tm [] b = b"
  by (simp add: absorb_all_def)

lemma absorb_all_snoc:
  "spath s \<notin> spath ` set fs \<Longrightarrow>
   absorb_all tm (fs @ [s]) b = (if bpath b = spath s then absorb tm s b else absorb_all tm fs b)"
  using find_None_image[of spath "spath s" fs]
  by (auto simp: absorb_all_def find_append split: option.splits)

lemma absorb_all_unseen: "bpath b \<notin> spath ` set fs \<Longrightarrow> absorb_all tm fs b = b"
  using find_None_image[of spath "bpath b" fs] by (simp add: absorb_all_def)

text \<open>A known file: the loop body in terms of \<open>absorb\<close> and \<open>file_report\<close>.\<close>

lemma scan_file_known:
  assumes "map_of (ss_by_path st) (spath s) = Some b"
  shows "scan_file mime tm account is_first st s =
    (let st = st\<lparr>ss_seen := insert (spath s) (ss_seen st)\<rparr> in
     case file_report is_first (map_of (ss_by_path st)) s of
       [] \<Rightarrow> st
     | (p, change, previous, current) # _ \<Rightarrow>
         st\<lparr>ss_db := raise_finding mime tm account p change previous current
                  (Some (sf_size_bytes s)) (Some (sf_mode s))
                  ((ss_db st)\<lparr>tb_baselines := tbl_save (absorb tm s b) (tb_baselines (ss_db st))\<rparr>),
             ss_by_path := dict_set (spath s) (absorb tm s b) (ss_by_path st),
             ss_established := ss_established st + (if fb_is_active b then 0 else 1),
             ss_created := ss_created st + 1\<rparr>)"
  using assms by (auto simp: scan_file_def file_report_def absorb_def Let_def)

lemma file_report_cases:
  "file_report is_first known s = [] \<or>
   (\<exists>change previous. file_report is_first known s =
      [(sf_relative_path s, change, previous, Some (sf_sha256 s))])"
  by (auto simp: file_report_def split: option.splits)

lemma file_report_Nil_absorb:
  "known (spath s) = Some b \<Longrightarrow> file_report is_first known s = [] \<Longrightarrow> absorb tm s b = b \<and> fb_is_active b"
  by (auto simp: file_report_def absorb_def split: if_splits)

lemma dict_set_map_key:
  "distinct (map fst d) \<Longrightarrow> (k, b) \<in> set d \<Longrightarrow>
   dict_set k v (map (\<lambda>(k, b). (k, g b)) d) = map (\<lambda>(k', b). (k', if k' = k then v else g b)) d"
proof (induction d)
  case (Cons x d)
  have "map (\<lambda>(k', b). (k', if k' = k then v else g b)) d = map (\<lambda>(k, b). (k, g b)) d"
    if "k \<notin> fst ` set d"
    using that by (intro map_cong) (auto simp: image_iff)
  then show ?case
    using Cons by (cases x) (auto simp: dict_set_def image_iff)
qed simp

section \<open>The first loop\<close>

text \<open>The rows a scan appends to the three tables it writes.\<close>

definition scan_rows ::
    "(string \<Rightarrow> string option) \<Rightarrow> datetime \<Rightarrow> cpanel_account \<Rightarrow> scanned_file list \<Rightarrow> change_report list \<Rightarrow>
     file_baseline list \<Rightarrow> integrity_finding list \<Rightarrow> security_event list \<Rightarrow> bool" where
  "scan_rows mime tm account added reports news nf ne \<longleftrightarrow>
     map (\<lambda>b. b\<lparr>eid := 0\<rparr>) news = map (new_baseline 0 tm (eid account)) added \<and>
     map finding_report nf = reports \<and>
     list_all (scan_finding (eid account) tm) nf \<and>
     list_all2 (announces mime tm account) nf ne"

definition dict_of :: "uuid \<Rightarrow> db \<Rightarrow> (string \<times> file_baseline) list" where
  "dict_of a d = dict_by bpath (baselines_by_account a d)"

definition established_by :: "(string \<Rightarrow> file_baseline option) \<Rightarrow> scanned_file \<Rightarrow> bool" where
  "established_by known s = (case known (spath s) of None \<Rightarrow> True | Some b \<Rightarrow> \<not> fb_is_active b)"

definition scan_inv ::
    "(string \<Rightarrow> string option) \<Rightarrow> datetime \<Rightarrow> cpanel_account \<Rightarrow> bool \<Rightarrow> db \<Rightarrow> scanned_file list \<Rightarrow>
     scan_state \<Rightarrow> bool" where
  "scan_inv mime tm account is_first d0 fs st \<longleftrightarrow>
     (let a = eid account; known = map_of (dict_of a d0) in
      db_wf (ss_db st) \<and>
      (\<exists>news nf ne.
         ss_db st = d0\<lparr>
           tb_baselines := map (\<lambda>b. if fb_account_id b = a then absorb_all tm fs b else b) (tb_baselines d0) @ news,
           tb_findings := tb_findings d0 @ nf, tb_events := tb_events d0 @ ne,
           next_uuid := next_uuid (ss_db st)\<rparr> \<and>
         scan_rows mime tm account (filter (\<lambda>s. known (spath s) = None) fs)
           (concat (map (file_report is_first known) fs)) news nf ne \<and>
         ss_created st = length nf) \<and>
      ss_by_path st = map (\<lambda>(k, b). (k, absorb_all tm fs b)) (dict_of a d0) \<and>
      ss_seen st = spath ` set fs \<and>
      ss_established st = length (filter (established_by known) fs) \<and>
      ss_removed st = 0)"

lemma bpath_inj_on_account:
  assumes "baselines_unique d" "b \<in> set (tb_baselines d)" "c \<in> set (tb_baselines d)"
    "fb_account_id b = fb_account_id c" "bpath b = bpath c"
  shows "b = c"
proof -
  have "inj_on (\<lambda>b. (fb_account_id b, bpath b)) (set (tb_baselines d))"
    using assms(1) by (simp add: baselines_unique_def distinct_map)
  from inj_onD[OF this, of b c] assms show ?thesis by simp
qed

lemma distinct_account_paths:
  assumes "baselines_unique d"
  shows "distinct (map bpath (baselines_by_account a d))"
proof -
  have "distinct (map (\<lambda>b. (fb_account_id b, bpath b)) (baselines_by_account a d))"
    using assms by (simp add: baselines_unique_def baselines_by_account_def distinct_map_filter)
  moreover have "map (\<lambda>b. (fb_account_id b, bpath b)) (baselines_by_account a d) =
      map (Pair a) (map bpath (baselines_by_account a d))"
    by (auto simp: baselines_by_account_def)
  ultimately have "distinct (map (Pair a) (map bpath (baselines_by_account a d)))"
    by (simp only:)
  then show ?thesis
    using distinct_map by blast
qed

lemma dict_of_eq:
  "baselines_unique d \<Longrightarrow> dict_of a d = map (\<lambda>b. (bpath b, b)) (baselines_by_account a d)"
  by (simp add: dict_of_def dict_by_distinct distinct_account_paths)

lemma dict_of_keys_distinct: "distinct (map fst (dict_of a d))"
  by (simp add: dict_of_def dict_by_keys_distinct)

lemma dict_of_Some:
  "map_of (dict_of a d) k = Some b \<Longrightarrow>
   b \<in> set (tb_baselines d) \<and> fb_account_id b = a \<and> bpath b = k \<and> (k, b) \<in> set (dict_of a d)"
  using map_of_SomeD[of "dict_of a d" k b] dict_by_elem[of k b bpath "baselines_by_account a d"]
  by (auto simp: dict_of_def baselines_by_account_def)

lemma dict_of_None:
  "map_of (dict_of a d) k = None \<Longrightarrow> b \<in> set (tb_baselines d) \<Longrightarrow> fb_account_id b = a \<Longrightarrow>
   baselines_unique d \<Longrightarrow> bpath b \<noteq> k"
  by (auto simp: dict_of_eq map_of_eq_None_iff baselines_by_account_def image_image)

lemma raise_finding_facts:
  assumes "f = new_finding i tm (eid account) path change (severity_by_change change) previous current tm"
  shows "finding_report f = (path, change, previous, current)" "scan_finding (eid account) tm f"
    "announces mime tm account f (finding_event mime j tm account f n m)"
proof -
  show "finding_report f = (path, change, previous, current)"
    using assms by (simp add: finding_report_def)
  show "scan_finding (eid account) tm f"
    using assms unfolding scan_finding_def by blast
  show "announces mime tm account f (finding_event mime j tm account f n m)"
    unfolding announces_def by blast
qed

lemma scan_rows_add_report:
  "scan_rows mime tm account added reports news nf ne \<Longrightarrow>
   f = new_finding i tm (eid account) path change (severity_by_change change) previous current tm \<Longrightarrow>
   scan_rows mime tm account added (reports @ [(path, change, previous, current)]) news (nf @ [f])
     (ne @ [finding_event mime j tm account f n m])"
  by (auto simp: scan_rows_def raise_finding_facts list_all2_appendI)

lemma scan_rows_add_baseline:
  "scan_rows mime tm account added reports news nf ne \<Longrightarrow>
   scan_rows mime tm account (added @ [s]) reports
     (news @ [new_baseline i tm (eid account) s]) nf ne"
  by (auto simp: scan_rows_def)

lemma absorb_row_snoc:
  assumes "baselines_unique d0" "b \<in> set (tb_baselines d0)" "fb_account_id b = a"
    "bpath b = spath s" "spath s \<notin> spath ` set fs"
  shows "map (\<lambda>x. if x = b then absorb tm s b
                  else if fb_account_id x = a then absorb_all tm fs x else x) (tb_baselines d0) =
         map (\<lambda>x. if fb_account_id x = a then absorb_all tm (fs @ [s]) x else x) (tb_baselines d0)"
proof (rule map_cong[OF refl])
  fix x assume x: "x \<in> set (tb_baselines d0)"
  have "x = b" if "fb_account_id x = a" "bpath x = spath s"
    using bpath_inj_on_account[OF assms(1) x assms(2)] that assms(3,4) by simp
  note unique = this
  show "(if x = b then absorb tm s b else if fb_account_id x = a then absorb_all tm fs x else x) =
        (if fb_account_id x = a then absorb_all tm (fs @ [s]) x else x)"
  proof (cases "x = b")
    case True
    then show ?thesis using assms(3,4,5) by (simp add: absorb_all_snoc)
  next
    case False
    then have "fb_account_id x = a \<Longrightarrow> bpath x \<noteq> spath s" using unique by blast
    then show ?thesis using False assms(5) by (simp add: absorb_all_snoc)
  qed
qed

lemma absorb_row_snoc_new:
  assumes "baselines_unique d0" "map_of (dict_of a d0) (spath s) = None" "spath s \<notin> spath ` set fs"
  shows "map (\<lambda>x. if fb_account_id x = a then absorb_all tm (fs @ [s]) x else x) (tb_baselines d0) =
         map (\<lambda>x. if fb_account_id x = a then absorb_all tm fs x else x) (tb_baselines d0)"
proof (rule map_cong[OF refl])
  fix x assume x: "x \<in> set (tb_baselines d0)"
  show "(if fb_account_id x = a then absorb_all tm (fs @ [s]) x else x) =
        (if fb_account_id x = a then absorb_all tm fs x else x)"
    using dict_of_None[OF assms(2) x _ assms(1)] assms(3) by (auto simp: absorb_all_snoc)
qed

lemma absorb_dict_snoc:
  assumes "spath s \<notin> spath ` set fs" "baselines_unique d0"
  shows "map (\<lambda>(k, b). (k, absorb_all tm (fs @ [s]) b)) (dict_of a d0) =
         (case map_of (dict_of a d0) (spath s) of
            None \<Rightarrow> map (\<lambda>(k, b). (k, absorb_all tm fs b)) (dict_of a d0)
          | Some b \<Rightarrow> dict_set (spath s) (absorb tm s b) (map (\<lambda>(k, b). (k, absorb_all tm fs b)) (dict_of a d0)))"
proof (cases "map_of (dict_of a d0) (spath s)")
  case None
  then have "spath s \<notin> fst ` set (dict_of a d0)"
    by (simp add: map_of_eq_None_iff)
  then show ?thesis
    using assms None by (auto simp: dict_of_eq absorb_all_snoc image_iff intro!: map_cong)
next
  case (Some b)
  then have mem: "(spath s, b) \<in> set (dict_of a d0)"
    by (simp add: dict_of_Some)
  have "absorb_all tm (fs @ [s]) x = (if k = spath s then absorb tm s b else absorb_all tm fs x)"
    if kx: "(k, x) \<in> set (dict_of a d0)" for k x
  proof -
    have k: "bpath x = k" "x \<in> set (baselines_by_account a d0)"
      using dict_by_elem kx by (fastforce simp: dict_of_def)+
    have "x = b" if "k = spath s"
      using Some map_of_is_SomeI[OF dict_of_keys_distinct kx] that by simp
    then show ?thesis
      using k assms(1) by (auto simp: absorb_all_snoc)
  qed
  then show ?thesis
    using Some by (auto simp: dict_set_map_key[OF dict_of_keys_distinct mem])
qed

lemma scan_inv_next:
  assumes "db_wf d'"
    and "d' = d0\<lparr>
           tb_baselines := map (\<lambda>b. if fb_account_id b = eid account then absorb_all tm fs b else b) (tb_baselines d0) @ news,
           tb_findings := tb_findings d0 @ nf, tb_events := tb_events d0 @ ne, next_uuid := n\<rparr>"
    and "scan_rows mime tm account (filter (\<lambda>s. map_of (dict_of (eid account) d0) (spath s) = None) fs)
           (concat (map (file_report is_first (map_of (dict_of (eid account) d0))) fs)) news nf ne"
    and "by_path = map (\<lambda>(k, b). (k, absorb_all tm fs b)) (dict_of (eid account) d0)"
    and "seen = spath ` set fs"
    and "est = length (filter (established_by (map_of (dict_of (eid account) d0))) fs)"
    and "cr = length nf"
  shows "scan_inv mime tm account is_first d0 fs
           \<lparr>ss_db = d', ss_by_path = by_path, ss_seen = seen, ss_established = est,
            ss_created = cr, ss_removed = 0\<rparr>"
proof -
  have "d' = d0\<lparr>
           tb_baselines := map (\<lambda>b. if fb_account_id b = eid account then absorb_all tm fs b else b) (tb_baselines d0) @ news,
           tb_findings := tb_findings d0 @ nf, tb_events := tb_events d0 @ ne, next_uuid := next_uuid d'\<rparr>"
    unfolding assms(2) by simp
  then show ?thesis
    using assms(1,3-) unfolding scan_inv_def Let_def by auto
qed

lemma file_report_absorbed:
  assumes "spath s \<notin> spath ` set fs" "baselines_unique d0"
  shows "file_report is_first (map_of (map (\<lambda>(k, b). (k, absorb_all tm fs b)) (dict_of a d0))) s =
         file_report is_first (map_of (dict_of a d0)) s"
proof (cases "map_of (dict_of a d0) (spath s)")
  case (Some b)
  then have "absorb_all tm fs b = b"
    using dict_of_Some[OF Some] assms(1) by (simp add: absorb_all_unseen)
  with Some show ?thesis by (simp add: file_report_def map_of_map)
qed (simp add: file_report_def map_of_map)

lemma dict_set_present: "map_of e k = Some v \<Longrightarrow> dict_set k v e = e"
  by (induction e) (auto simp: dict_set_def split: if_splits)

abbreviation absorbed :: "uuid \<Rightarrow> datetime \<Rightarrow> scanned_file list \<Rightarrow> db \<Rightarrow> file_baseline list" where
  "absorbed a tm fs d \<equiv> map (\<lambda>b. if fb_account_id b = a then absorb_all tm fs b else b) (tb_baselines d)"

abbreviation db_write ::
    "db \<Rightarrow> file_baseline list \<Rightarrow> integrity_finding list \<Rightarrow> security_event list \<Rightarrow> uuid \<Rightarrow> db" where
  "db_write d bs fs es n \<equiv>
     d\<lparr>tb_baselines := bs, tb_findings := fs, tb_events := es, next_uuid := n\<rparr>"

lemma scan_invE:
  assumes "scan_inv mime tm account is_first d0 fs st"
  obtains news nf ne where
    "db_wf (ss_db st)"
    "tb_baselines (ss_db st) = absorbed (eid account) tm fs d0 @ news"
    "tb_findings (ss_db st) = tb_findings d0 @ nf" "tb_events (ss_db st) = tb_events d0 @ ne"
    "\<And>bs fs es n. db_write (ss_db st) bs fs es n = db_write d0 bs fs es n"
    "scan_rows mime tm account (filter (\<lambda>s. map_of (dict_of (eid account) d0) (spath s) = None) fs)
      (concat (map (file_report is_first (map_of (dict_of (eid account) d0))) fs)) news nf ne"
    "ss_created st = length nf"
    "distinct (tbl_ids (absorbed (eid account) tm fs d0 @ news))"
proof -
  obtain news nf ne where wf: "db_wf (ss_db st)"
    and d: "ss_db st = db_write d0 (absorbed (eid account) tm fs d0 @ news) (tb_findings d0 @ nf)
      (tb_events d0 @ ne) (next_uuid (ss_db st))"
    and rest: "scan_rows mime tm account (filter (\<lambda>s. map_of (dict_of (eid account) d0) (spath s) = None) fs)
      (concat (map (file_report is_first (map_of (dict_of (eid account) d0))) fs)) news nf ne"
      "ss_created st = length nf"
    using assms unfolding scan_inv_def Let_def by blast
  have tabs: "tb_baselines (ss_db st) = absorbed (eid account) tm fs d0 @ news"
    "tb_findings (ss_db st) = tb_findings d0 @ nf" "tb_events (ss_db st) = tb_events d0 @ ne"
    by (subst d, simp)+
  moreover have "db_write (ss_db st) bs fs es n = db_write d0 bs fs es n" for bs fs es n
    by (subst d) simp
  moreover have "distinct (tbl_ids (absorbed (eid account) tm fs d0 @ news))"
    using tbl_wf_distinct[OF db_wfD(3)[OF wf]] unfolding tabs(1) .
  ultimately show ?thesis
    using that wf rest by blast
qed

lemma scan_invD:
  assumes "scan_inv mime tm account is_first d0 fs st"
  shows "ss_by_path st = map (\<lambda>(k, b). (k, absorb_all tm fs b)) (dict_of (eid account) d0)"
    "ss_seen st = spath ` set fs"
    "ss_established st = length (filter (established_by (map_of (dict_of (eid account) d0))) fs)"
    "ss_removed st = 0"
  using assms by (auto simp: scan_inv_def Let_def)

lemma scan_known_facts:
  assumes inv: "scan_inv mime tm account is_first d0 fs st"
    and uniq: "baselines_unique d0" and fresh: "spath s \<notin> spath ` set fs"
    and known: "map_of (dict_of (eid account) d0) (spath s) = Some b"
  shows "map_of (ss_by_path st) (spath s) = Some b"
    and "file_report is_first (map_of (ss_by_path st)) s =
         file_report is_first (map_of (dict_of (eid account) d0)) s"
    and "dict_set (spath s) (absorb tm s b) (ss_by_path st) =
         map (\<lambda>(k, b). (k, absorb_all tm (fs @ [s]) b)) (dict_of (eid account) d0)"
    and "ss_established st + (if fb_is_active b then 0 else 1) =
         length (filter (established_by (map_of (dict_of (eid account) d0))) (fs @ [s]))"
    and "eid (absorb tm s b) \<in> set (tbl_ids (absorbed (eid account) tm fs d0 @ news))"
    and "b \<in> set (absorbed (eid account) tm fs d0)"
    and "distinct (tbl_ids (absorbed (eid account) tm fs d0 @ news)) \<Longrightarrow>
         tbl_save (absorb tm s b) (absorbed (eid account) tm fs d0 @ news) =
         absorbed (eid account) tm (fs @ [s]) d0 @ news"
proof -
  let ?a = "eid account"
  have b: "b \<in> set (tb_baselines d0)" "fb_account_id b = ?a" "bpath b = spath s"
    using dict_of_Some[OF known] by auto
  have abs_b: "absorb_all tm fs b = b"
    using b fresh by (simp add: absorb_all_unseen)
  show "map_of (ss_by_path st) (spath s) = Some b"
    by (simp add: scan_invD(1)[OF inv] map_of_map known abs_b)
  show "file_report is_first (map_of (ss_by_path st)) s = file_report is_first (map_of (dict_of ?a d0)) s"
    by (simp add: scan_invD(1)[OF inv] file_report_absorbed fresh uniq)
  show "dict_set (spath s) (absorb tm s b) (ss_by_path st) =
      map (\<lambda>(k, b). (k, absorb_all tm (fs @ [s]) b)) (dict_of ?a d0)"
    using absorb_dict_snoc[OF fresh uniq, of tm ?a] known scan_invD(1)[OF inv] by simp
  show "ss_established st + (if fb_is_active b then 0 else 1) =
      length (filter (established_by (map_of (dict_of ?a d0))) (fs @ [s]))"
    using known by (simp add: scan_invD(3)[OF inv] established_by_def)
  have "tbl_ids (absorbed ?a tm fs d0) = tbl_ids (tb_baselines d0)"
    by (simp add: tbl_ids_def)
  then show "eid (absorb tm s b) \<in> set (tbl_ids (absorbed ?a tm fs d0 @ news))"
    using b(1) by (auto simp: in_tbl_ids)
  show "b \<in> set (absorbed ?a tm fs d0)"
    using b(1,2) abs_b by force
  show "tbl_save (absorb tm s b) (absorbed ?a tm fs d0 @ news) = absorbed ?a tm (fs @ [s]) d0 @ news"
    if ids: "distinct (tbl_ids (absorbed ?a tm fs d0 @ news))"
    unfolding absorb_row_snoc[OF uniq b fresh, of tm, symmetric]
    by (rule tbl_save_in_map[OF _ ids b(1)]) auto
qed

lemma scan_inv_unchanged:
  assumes inv: "scan_inv mime tm account is_first d0 fs st"
    and uniq: "baselines_unique d0" and fresh: "spath s \<notin> spath ` set fs"
    and known: "map_of (dict_of (eid account) d0) (spath s) = Some b"
    and quiet: "file_report is_first (map_of (dict_of (eid account) d0)) s = []"
  shows "scan_inv mime tm account is_first d0 (fs @ [s]) (scan_file mime tm account is_first st s)"
proof -
  note facts = scan_known_facts[OF inv uniq fresh known]
  obtain news nf ne where wf: "db_wf (ss_db st)"
    and tabs: "tb_baselines (ss_db st) = absorbed (eid account) tm fs d0 @ news"
      "tb_findings (ss_db st) = tb_findings d0 @ nf" "tb_events (ss_db st) = tb_events d0 @ ne"
    and frame: "\<And>bs fs es n. db_write (ss_db st) bs fs es n = db_write d0 bs fs es n"
    and rows: "scan_rows mime tm account (filter (\<lambda>s. map_of (dict_of (eid account) d0) (spath s) = None) fs)
      (concat (map (file_report is_first (map_of (dict_of (eid account) d0))) fs)) news nf ne"
    and cr: "ss_created st = length nf"
    and ids: "distinct (tbl_ids (absorbed (eid account) tm fs d0 @ news))"
    using inv by (rule scan_invE) (rule that)
  have ab: "absorb tm s b = b" and act: "fb_is_active b"
    using file_report_Nil_absorb[of "map_of (dict_of (eid account) d0)" s b, OF known quiet] by auto
  have "tbl_save b (absorbed (eid account) tm fs d0 @ news) = absorbed (eid account) tm fs d0 @ news"
    using ids facts(6) by (intro tbl_save_self tbl_get_mem) auto
  then have same: "absorbed (eid account) tm (fs @ [s]) d0 = absorbed (eid account) tm fs d0"
    using facts(7)[OF ids] ab by simp
  have "scan_file mime tm account is_first st s = st\<lparr>ss_seen := insert (spath s) (ss_seen st)\<rparr>"
    by (simp add: scan_file_known[OF facts(1)] facts(2) quiet)
  then have step: "scan_file mime tm account is_first st s =
      \<lparr>ss_db = ss_db st, ss_by_path = ss_by_path st, ss_seen = insert (spath s) (ss_seen st),
       ss_established = ss_established st, ss_created = ss_created st, ss_removed = 0\<rparr>"
    using scan_invD(4)[OF inv] by (cases st) simp
  show ?thesis
    unfolding step
  proof (rule scan_inv_next[where news = news and nf = nf and ne = ne and n = "next_uuid (ss_db st)"])
    show "ss_db st = db_write d0 (absorbed (eid account) tm (fs @ [s]) d0 @ news) (tb_findings d0 @ nf)
        (tb_events d0 @ ne) (next_uuid (ss_db st))"
      using frame[where bs = "tb_baselines (ss_db st)" and fs = "tb_findings (ss_db st)"
          and es = "tb_events (ss_db st)" and n = "next_uuid (ss_db st)"]
      by (simp add: same tabs [symmetric])
    show "ss_by_path st = map (\<lambda>(k, b). (k, absorb_all tm (fs @ [s]) b)) (dict_of (eid account) d0)"
      using facts(3) ab dict_set_present[OF facts(1)] by simp
  qed (use wf rows known quiet scan_invD(2)[OF inv] facts(4) act cr in auto)
qed

lemma scan_inv_changed:
  assumes inv: "scan_inv mime tm account is_first d0 fs st"
    and uniq: "baselines_unique d0" and fresh: "spath s \<notin> spath ` set fs"
    and known: "map_of (dict_of (eid account) d0) (spath s) = Some b"
    and rep: "file_report is_first (map_of (dict_of (eid account) d0)) s =
      [(sf_relative_path s, change, previous, Some (sf_sha256 s))]"
  shows "scan_inv mime tm account is_first d0 (fs @ [s]) (scan_file mime tm account is_first st s)"
proof -
  note facts = scan_known_facts[OF inv uniq fresh known]
  obtain news nf ne where wf: "db_wf (ss_db st)"
    and tabs: "tb_baselines (ss_db st) = absorbed (eid account) tm fs d0 @ news"
      "tb_findings (ss_db st) = tb_findings d0 @ nf" "tb_events (ss_db st) = tb_events d0 @ ne"
    and frame: "\<And>bs fs es n. db_write (ss_db st) bs fs es n = db_write d0 bs fs es n"
    and rows: "scan_rows mime tm account (filter (\<lambda>s. map_of (dict_of (eid account) d0) (spath s) = None) fs)
      (concat (map (file_report is_first (map_of (dict_of (eid account) d0))) fs)) news nf ne"
    and cr: "ss_created st = length nf"
    and ids: "distinct (tbl_ids (absorbed (eid account) tm fs d0 @ news))"
    using inv by (rule scan_invE) (rule that)
  let ?d = "ss_db st"
  let ?d1 = "?d\<lparr>tb_baselines := tbl_save (absorb tm s b) (tb_baselines ?d)\<rparr>"
  let ?f = "new_finding (next_uuid ?d) tm (eid account) (sf_relative_path s) change
    (severity_by_change change) previous (Some (sf_sha256 s)) tm"
  let ?e = "finding_event mime (Suc (next_uuid ?d)) tm account ?f (Some (sf_size_bytes s)) (Some (sf_mode s))"
  let ?d2 = "raise_finding mime tm account (sf_relative_path s) change previous (Some (sf_sha256 s))
    (Some (sf_size_bytes s)) (Some (sf_mode s)) ?d1"
  have "scan_file mime tm account is_first st s = st\<lparr>ss_seen := insert (spath s) (ss_seen st),
      ss_db := ?d2, ss_by_path := dict_set (spath s) (absorb tm s b) (ss_by_path st),
      ss_established := ss_established st + (if fb_is_active b then 0 else 1),
      ss_created := ss_created st + 1\<rparr>"
    by (simp add: scan_file_known[OF facts(1)] facts(2) rep)
  then have step: "scan_file mime tm account is_first st s =
      \<lparr>ss_db = ?d2, ss_by_path = dict_set (spath s) (absorb tm s b) (ss_by_path st),
       ss_seen = insert (spath s) (ss_seen st),
       ss_established = ss_established st + (if fb_is_active b then 0 else 1),
       ss_created = ss_created st + 1, ss_removed = 0\<rparr>"
    using scan_invD(4)[OF inv] by (cases st) simp
  show ?thesis
    unfolding step
  proof (rule scan_inv_next[where news = news and nf = "nf @ [?f]" and ne = "ne @ [?e]"
        and n = "Suc (Suc (next_uuid ?d))"])
    show "db_wf ?d2"
      using facts(5) by (intro raise_finding_wf save_baseline_wf wf) (simp only: tabs)
    show "?d2 = db_write d0 (absorbed (eid account) tm (fs @ [s]) d0 @ news) (tb_findings d0 @ nf @ [?f])
        (tb_events d0 @ ne @ [?e]) (Suc (Suc (next_uuid ?d)))"
      by (simp add: raise_finding_eq Let_def tabs facts(7)[OF ids] frame)
    show "scan_rows mime tm account
        (filter (\<lambda>s. map_of (dict_of (eid account) d0) (spath s) = None) (fs @ [s]))
        (concat (map (file_report is_first (map_of (dict_of (eid account) d0))) (fs @ [s])))
        news (nf @ [?f]) (ne @ [?e])"
      using scan_rows_add_report[OF rows] known rep by simp
  qed (use scan_invD(2)[OF inv] facts(3,4) cr in auto)
qed

lemma scan_inv_new:
  assumes inv: "scan_inv mime tm account is_first d0 fs st"
    and uniq: "baselines_unique d0" and fresh: "spath s \<notin> spath ` set fs"
    and unknown: "map_of (dict_of (eid account) d0) (spath s) = None"
  shows "scan_inv mime tm account is_first d0 (fs @ [s]) (scan_file mime tm account is_first st s)"
proof -
  obtain news nf ne where wf: "db_wf (ss_db st)"
    and tabs: "tb_baselines (ss_db st) = absorbed (eid account) tm fs d0 @ news"
      "tb_findings (ss_db st) = tb_findings d0 @ nf" "tb_events (ss_db st) = tb_events d0 @ ne"
    and frame: "\<And>bs fs es n. db_write (ss_db st) bs fs es n = db_write d0 bs fs es n"
    and rows: "scan_rows mime tm account (filter (\<lambda>s. map_of (dict_of (eid account) d0) (spath s) = None) fs)
      (concat (map (file_report is_first (map_of (dict_of (eid account) d0))) fs)) news nf ne"
    and cr: "ss_created st = length nf"
    and ids: "distinct (tbl_ids (absorbed (eid account) tm fs d0 @ news))"
    using inv by (rule scan_invE) (rule that)
  let ?d = "ss_db st"
  let ?n = "next_uuid ?d"
  let ?b = "new_baseline ?n tm (eid account) s"
  let ?d1 = "?d\<lparr>next_uuid := Suc ?n, tb_baselines := tb_baselines ?d @ [?b]\<rparr>"
  let ?f = "new_finding (Suc ?n) tm (eid account) (sf_relative_path s) ADDED
    (severity_by_change ADDED) None (Some (sf_sha256 s)) tm"
  let ?e = "finding_event mime (Suc (Suc ?n)) tm account ?f (Some (sf_size_bytes s)) (Some (sf_mode s))"
  let ?d2 = "raise_finding mime tm account (sf_relative_path s) ADDED None (Some (sf_sha256 s))
    (Some (sf_size_bytes s)) (Some (sf_mode s)) ?d1"
  note rows' = scan_rows_add_baseline[OF rows, of s ?n]
  have wf1: "db_wf ?d1"
    by (rule add_baseline_wf[OF wf])
  have look: "map_of (ss_by_path st) (spath s) = None"
    by (simp add: scan_invD(1)[OF inv] map_of_map unknown)
  have dict: "ss_by_path st = map (\<lambda>(k, b). (k, absorb_all tm (fs @ [s]) b)) (dict_of (eid account) d0)"
    using absorb_dict_snoc[OF fresh uniq, of tm "eid account"] unknown scan_invD(1)[OF inv] by simp
  note same = absorb_row_snoc_new[OF uniq unknown fresh, of tm]
  have "scan_file mime tm account is_first st s = st\<lparr>ss_seen := insert (spath s) (ss_seen st),
      ss_db := (if is_first then ?d1 else ?d2), ss_established := ss_established st + 1,
      ss_created := ss_created st + (if is_first then 0 else 1)\<rparr>"
    by (rule scan_state.equality) (simp_all add: scan_file_def look uuid4_def tbl_add_def Let_def)
  then have step: "scan_file mime tm account is_first st s =
      \<lparr>ss_db = (if is_first then ?d1 else ?d2), ss_by_path = ss_by_path st,
       ss_seen = insert (spath s) (ss_seen st), ss_established = ss_established st + 1,
       ss_created = ss_created st + (if is_first then 0 else 1), ss_removed = 0\<rparr>"
    using scan_invD(4)[OF inv] by (cases st) simp
  show ?thesis
    unfolding step
  proof (rule scan_inv_next[where news = "news @ [?b]" and nf = "nf @ (if is_first then [] else [?f])"
        and ne = "ne @ (if is_first then [] else [?e])" and n = "if is_first then Suc ?n else Suc (Suc (Suc ?n))"])
    show "db_wf (if is_first then ?d1 else ?d2)"
      using wf1 raise_finding_wf by simp
    have "?d1 = db_write ?d (tb_baselines ?d @ [?b]) (tb_findings ?d) (tb_events ?d) (Suc ?n)"
      by (rule db.equality) simp_all
    then have d1: "?d1 = db_write d0 (absorbed (eid account) tm fs d0 @ news @ [?b]) (tb_findings d0 @ nf)
        (tb_events d0 @ ne) (Suc ?n)"
      unfolding frame by (simp add: tabs)
    then show "(if is_first then ?d1 else ?d2) =
        db_write d0 (absorbed (eid account) tm (fs @ [s]) d0 @ news @ [?b])
          (tb_findings d0 @ nf @ (if is_first then [] else [?f]))
          (tb_events d0 @ ne @ (if is_first then [] else [?e]))
          (if is_first then Suc ?n else Suc (Suc (Suc ?n)))"
      unfolding same by (simp add: raise_finding_eq Let_def)
    show "scan_rows mime tm account
        (filter (\<lambda>s. map_of (dict_of (eid account) d0) (spath s) = None) (fs @ [s]))
        (concat (map (file_report is_first (map_of (dict_of (eid account) d0))) (fs @ [s])))
        (news @ [?b]) (nf @ (if is_first then [] else [?f])) (ne @ (if is_first then [] else [?e]))"
      using rows' unknown scan_rows_add_report[OF rows' refl, where i = "Suc ?n" and change = ADDED
          and path = "sf_relative_path s" and previous = None and current = "Some (sf_sha256 s)"
          and j = "Suc (Suc ?n)" and n = "Some (sf_size_bytes s)" and m = "Some (sf_mode s)"]
      by (cases is_first) (simp_all add: file_report_def)
  qed (use scan_invD(2,3)[OF inv] dict unknown cr in \<open>auto simp: established_by_def\<close>)
qed

lemma scan_inv_step:
  assumes inv: "scan_inv mime tm account is_first d0 fs st"
    and uniq: "baselines_unique d0" and fresh: "spath s \<notin> spath ` set fs"
  shows "scan_inv mime tm account is_first d0 (fs @ [s]) (scan_file mime tm account is_first st s)"
proof (cases "map_of (dict_of (eid account) d0) (spath s)")
  case None
  then show ?thesis by (rule scan_inv_new[OF assms])
next
  case (Some b)
  then show ?thesis
    using scan_inv_unchanged[OF assms Some] scan_inv_changed[OF assms Some] file_report_cases
    by metis
qed

lemma scan_inv_files:
  assumes "db_wf d0" "baselines_unique d0" "distinct (map spath fs)"
  shows "scan_inv mime tm account is_first d0 fs
    (foldl (scan_file mime tm account is_first)
      \<lparr>ss_db = d0, ss_by_path = dict_of (eid account) d0, ss_seen = {},
       ss_established = 0, ss_created = 0, ss_removed = 0\<rparr> fs)"
  using assms(3)
proof (induction fs rule: rev_induct)
  case Nil
  have "absorbed (eid account) tm [] d0 = tb_baselines d0"
    by (simp add: map_idI)
  then show ?case
    using assms(1) by (auto simp: scan_inv_def scan_rows_def intro!: exI[of _ "[]"])
next
  case (snoc s fs)
  then show ?case
    by (simp add: scan_inv_step assms(2))
qed

section \<open>The second loop\<close>

abbreviation rebased :: "uuid \<Rightarrow> datetime \<Rightarrow> scanned_file list \<Rightarrow> file_baseline list \<Rightarrow> db \<Rightarrow> file_baseline list" where
  "rebased a tm fs bs d \<equiv>
     map (\<lambda>b. if b \<in> set bs then rebase tm a fs b
              else if fb_account_id b = a then absorb_all tm fs b else b) (tb_baselines d)"

definition missing_inv ::
    "(string \<Rightarrow> string option) \<Rightarrow> datetime \<Rightarrow> cpanel_account \<Rightarrow> bool \<Rightarrow> db \<Rightarrow> scanned_file list \<Rightarrow>
     file_baseline list \<Rightarrow> scan_state \<Rightarrow> bool" where
  "missing_inv mime tm account is_first d0 fs bs st \<longleftrightarrow>
     (let a = eid account; known = map_of (dict_of a d0);
          missing = concat (map (missing_report (spath ` set fs)) bs) in
      db_wf (ss_db st) \<and>
      (\<exists>news nf ne.
         ss_db st = db_write d0 (rebased a tm fs bs d0 @ news) (tb_findings d0 @ nf) (tb_events d0 @ ne)
           (next_uuid (ss_db st)) \<and>
         scan_rows mime tm account (filter (\<lambda>s. known (spath s) = None) fs)
           (concat (map (file_report is_first known) fs) @ missing) news nf ne \<and>
         ss_created st = length nf) \<and>
      ss_seen st = spath ` set fs \<and>
      ss_established st = length (filter (established_by known) fs) \<and>
      ss_removed st = length missing)"

lemma scan_missing_eq:
  "scan_missing mime tm account st (k, b) =
     (if k \<in> ss_seen st \<or> \<not> fb_is_active b then st
      else st\<lparr>ss_db := raise_finding mime tm account (fb_relative_path b) DELETED (Some (fb_sha256 b))
                  None (Some (fb_size_bytes b)) (Some (fb_mode b))
                  ((ss_db st)\<lparr>tb_baselines := tbl_save (baseline_mark_removed tm tm b) (tb_baselines (ss_db st))\<rparr>),
              ss_removed := ss_removed st + 1, ss_created := ss_created st + 1\<rparr>)"
  by (simp add: scan_missing_def Let_def)

lemma rebase_skip:
  "fb_account_id b = a \<Longrightarrow> missing_report (spath ` set fs) b = [] \<Longrightarrow> rebase tm a fs b = absorb_all tm fs b"
  using find_None_image[of spath "bpath b" fs]
  by (auto simp: rebase_def absorb_all_def missing_report_def split: option.splits if_splits)

lemma missing_inv_skip:
  assumes inv: "missing_inv mime tm account is_first d0 fs bs st"
    and b: "fb_account_id b = eid account" and quiet: "missing_report (spath ` set fs) b = []"
  shows "missing_inv mime tm account is_first d0 fs (bs @ [b])
    (scan_missing mime tm account st (bpath b, absorb_all tm fs b))"
proof -
  have "scan_missing mime tm account st (bpath b, absorb_all tm fs b) = st"
    using inv quiet absorb_all_unseen[of b fs tm]
    by (auto simp: scan_missing_eq missing_inv_def Let_def missing_report_def split: if_splits)
  note step = this
  have same: "rebased (eid account) tm fs (bs @ [b]) d0 = rebased (eid account) tm fs bs d0"
    using b rebase_skip[OF b quiet] by (intro map_cong) auto
  show ?thesis
    using inv quiet unfolding step missing_inv_def Let_def same by simp
qed

lemma missing_inv_next:
  assumes "db_wf d'"
    and "d' = db_write d0 (rebased (eid account) tm fs bs d0 @ news) (tb_findings d0 @ nf) (tb_events d0 @ ne) n"
    and "scan_rows mime tm account (filter (\<lambda>s. map_of (dict_of (eid account) d0) (spath s) = None) fs)
           (concat (map (file_report is_first (map_of (dict_of (eid account) d0))) fs) @
            concat (map (missing_report (spath ` set fs)) bs)) news nf ne"
    and "seen = spath ` set fs"
    and "est = length (filter (established_by (map_of (dict_of (eid account) d0))) fs)"
    and "cr = length nf" "rem = length (concat (map (missing_report (spath ` set fs)) bs))"
  shows "missing_inv mime tm account is_first d0 fs bs
           \<lparr>ss_db = d', ss_by_path = by_path, ss_seen = seen, ss_established = est,
            ss_created = cr, ss_removed = rem\<rparr>"
proof -
  have "d' = db_write d0 (rebased (eid account) tm fs bs d0 @ news) (tb_findings d0 @ nf) (tb_events d0 @ ne)
      (next_uuid d')"
    unfolding assms(2) by simp
  then show ?thesis
    using assms(1,3-) unfolding missing_inv_def Let_def by auto
qed

lemma missing_inv_removed:
  assumes inv: "missing_inv mime tm account is_first d0 fs bs st"
    and b: "b \<in> set (tb_baselines d0)" "b \<notin> set bs" "fb_account_id b = eid account"
    and gone: "bpath b \<notin> spath ` set fs" "fb_is_active b"
  shows "missing_inv mime tm account is_first d0 fs (bs @ [b])
    (scan_missing mime tm account st (bpath b, absorb_all tm fs b))"
proof -
  let ?a = "eid account" and ?d = "ss_db st"
  let ?b' = "baseline_mark_removed tm tm b"
  obtain news nf ne where wf: "db_wf ?d"
    and d: "?d = db_write d0 (rebased ?a tm fs bs d0 @ news) (tb_findings d0 @ nf) (tb_events d0 @ ne)
           (next_uuid ?d)"
    and rows: "scan_rows mime tm account (filter (\<lambda>s. map_of (dict_of ?a d0) (spath s) = None) fs)
           (concat (map (file_report is_first (map_of (dict_of ?a d0))) fs) @
            concat (map (missing_report (spath ` set fs)) bs)) news nf ne"
    and cr: "ss_created st = length nf"
    using inv unfolding missing_inv_def Let_def by blast
  have seen: "ss_seen st = spath ` set fs" and rem: "ss_removed st = length (concat (map (missing_report (spath ` set fs)) bs))"
    using inv by (auto simp: missing_inv_def Let_def)
  have tabs: "tb_baselines ?d = rebased ?a tm fs bs d0 @ news"
    "tb_findings ?d = tb_findings d0 @ nf" "tb_events ?d = tb_events d0 @ ne"
    by (subst d, simp)+
  have frame: "db_write ?d w x y n = db_write d0 w x y n" for w x y n
    by (subst d) simp
  have removed: "rebase tm ?a fs b = ?b'"
    using b gone find_None_image[of spath "bpath b" fs] by (simp add: rebase_def)
  have ids: "distinct (tbl_ids (rebased ?a tm fs bs d0 @ news))"
    using tbl_wf_distinct[OF db_wfD(3)[OF wf]] unfolding tabs(1) .
  have "tbl_save ?b' (rebased ?a tm fs bs d0 @ news) =
      map (\<lambda>x. if x = b then ?b' else if x \<in> set bs then rebase tm ?a fs x
             else if fb_account_id x = ?a then absorb_all tm fs x else x) (tb_baselines d0) @ news"
    by (rule tbl_save_in_map[OF _ ids b(1)]) auto
  also have "\<dots> = rebased ?a tm fs (bs @ [b]) d0 @ news"
    using removed by (auto intro!: map_cong)
  finally have saved: "tbl_save ?b' (tb_baselines ?d) = rebased ?a tm fs (bs @ [b]) d0 @ news"
    by (simp only: tabs)
  let ?d1 = "?d\<lparr>tb_baselines := tbl_save ?b' (tb_baselines ?d)\<rparr>"
  let ?f = "new_finding (next_uuid ?d) tm ?a (fb_relative_path b) DELETED (severity_by_change DELETED)
    (Some (fb_sha256 b)) None tm"
  let ?e = "finding_event mime (Suc (next_uuid ?d)) tm account ?f (Some (fb_size_bytes b)) (Some (fb_mode b))"
  let ?d2 = "raise_finding mime tm account (fb_relative_path b) DELETED (Some (fb_sha256 b)) None
    (Some (fb_size_bytes b)) (Some (fb_mode b)) ?d1"
  have "scan_missing mime tm account st (bpath b, absorb_all tm fs b) =
      st\<lparr>ss_db := ?d2, ss_removed := ss_removed st + 1, ss_created := ss_created st + 1\<rparr>"
    using gone seen by (simp add: scan_missing_eq absorb_all_unseen)
  then have step: "scan_missing mime tm account st (bpath b, absorb_all tm fs b) =
      \<lparr>ss_db = ?d2, ss_by_path = ss_by_path st, ss_seen = ss_seen st,
       ss_established = ss_established st, ss_created = ss_created st + 1, ss_removed = ss_removed st + 1\<rparr>"
    by (cases st) simp
  show ?thesis
    unfolding step
  proof (rule missing_inv_next[where news = news and nf = "nf @ [?f]" and ne = "ne @ [?e]"
        and n = "Suc (Suc (next_uuid ?d))"])
    have "tbl_ids (rebased ?a tm fs bs d0) = tbl_ids (tb_baselines d0)"
      by (simp add: tbl_ids_def)
    then have "eid ?b' \<in> set (tbl_ids (tb_baselines ?d))"
      using b(1) by (auto simp: tabs in_tbl_ids)
    then show "db_wf ?d2"
      by (intro raise_finding_wf save_baseline_wf wf)
    show "?d2 = db_write d0 (rebased ?a tm fs (bs @ [b]) d0 @ news) (tb_findings d0 @ nf @ [?f])
        (tb_events d0 @ ne @ [?e]) (Suc (Suc (next_uuid ?d)))"
      unfolding raise_finding_eq Let_def saved by (simp add: tabs(2,3) frame)
    show "scan_rows mime tm account (filter (\<lambda>s. map_of (dict_of ?a d0) (spath s) = None) fs)
        (concat (map (file_report is_first (map_of (dict_of ?a d0))) fs) @
         concat (map (missing_report (spath ` set fs)) (bs @ [b]))) news (nf @ [?f]) (ne @ [?e])"
      using scan_rows_add_report[OF rows refl, where i = "next_uuid ?d" and change = DELETED
          and path = "fb_relative_path b" and previous = "Some (fb_sha256 b)" and current = None
          and j = "Suc (next_uuid ?d)" and n = "Some (fb_size_bytes b)" and m = "Some (fb_mode b)"] gone
      by (simp add: missing_report_def)
    show "ss_established st = length (filter (established_by (map_of (dict_of ?a d0))) fs)"
      using inv by (simp add: missing_inv_def Let_def)
  qed (use seen cr rem gone in \<open>auto simp: missing_report_def\<close>)
qed

lemma missing_inv_loop:
  assumes "missing_inv mime tm account is_first d0 fs [] st"
    and "distinct bs" "set bs \<subseteq> set (baselines_by_account (eid account) d0)"
  shows "missing_inv mime tm account is_first d0 fs bs
    (foldl (scan_missing mime tm account) st (map (\<lambda>b. (bpath b, absorb_all tm fs b)) bs))"
  using assms(2,3)
proof (induction bs rule: rev_induct)
  case (snoc b bs)
  let ?st = "foldl (scan_missing mime tm account) st (map (\<lambda>b. (bpath b, absorb_all tm fs b)) bs)"
  have inv: "missing_inv mime tm account is_first d0 fs bs ?st"
    using snoc by simp
  have b: "b \<in> set (tb_baselines d0)" "b \<notin> set bs" "fb_account_id b = eid account"
    using snoc.prems by (auto simp: baselines_by_account_def)
  have "missing_inv mime tm account is_first d0 fs (bs @ [b])
      (scan_missing mime tm account ?st (bpath b, absorb_all tm fs b))"
  proof (cases "missing_report (spath ` set fs) b = []")
    case True
    then show ?thesis by (rule missing_inv_skip[OF inv b(3)])
  next
    case False
    then show ?thesis
      using missing_inv_removed[OF inv b] by (auto simp: missing_report_def split: if_splits)
  qed
  then show ?case by simp
qed (use assms(1) in simp)

section \<open>One account\<close>

definition known_baseline :: "uuid \<Rightarrow> db \<Rightarrow> string \<Rightarrow> file_baseline option" where
  "known_baseline a d k = baseline_get_by_account_and_path a (RelativeFilePath k) d"

lemma known_baseline_dict: "baselines_unique d \<Longrightarrow> map_of (dict_of a d) = known_baseline a d"
proof
  fix k assume u: "baselines_unique d"
  have "map_of (dict_of a d) k = find (\<lambda>b. bpath b = k) (baselines_by_account a d)"
    by (simp add: dict_of_def map_of_dict_by distinct_account_paths[OF u])
  also have "\<dots> = find (\<lambda>b. fb_account_id b = a \<and> bpath b = k) (tb_baselines d)"
    by (simp add: baselines_by_account_def find_filter_conj)
  finally show "map_of (dict_of a d) k = known_baseline a d k"
    by (simp add: known_baseline_def baseline_get_by_account_and_path_def)
qed

text \<open>The reports of one scan: first what changed or appeared, in the order of
  the scanner, then what is gone, in the order of the table.\<close>

definition scan_reports :: "uuid \<Rightarrow> scanned_file list \<Rightarrow> db \<Rightarrow> change_report list" where
  "scan_reports a fs d =
     concat (map (file_report (baselines_by_account a d = []) (known_baseline a d)) fs) @
     concat (map (missing_report (spath ` set fs)) (baselines_by_account a d))"

definition scan_established :: "uuid \<Rightarrow> scanned_file list \<Rightarrow> db \<Rightarrow> nat" where
  "scan_established a fs d = length (filter (established_by (known_baseline a d)) fs)"

definition scan_removed :: "uuid \<Rightarrow> scanned_file list \<Rightarrow> db \<Rightarrow> nat" where
  "scan_removed a fs d =
     length (filter (\<lambda>b. fb_is_active b \<and> bpath b \<notin> spath ` set fs) (baselines_by_account a d))"

lemma missing_report_length:
  "length (concat (map (missing_report S) bs)) = length (filter (\<lambda>b. fb_is_active b \<and> bpath b \<notin> S) bs)"
  by (induction bs) (auto simp: missing_report_def)

lemma rebased_all:
  "rebased a tm fs (baselines_by_account a d) d = map (rebase tm a fs) (tb_baselines d)"
  by (intro map_cong) (auto simp: baselines_by_account_def rebase_def)

lemma scan_account_exact:
  assumes wf: "db_wf d" and uniq: "baselines_unique d" and dist: "distinct (map spath fs)"
  obtains news nf ne where
    "snd (scan_account mime tm account fs d) =
       db_write d (map (rebase tm (eid account) fs) (tb_baselines d) @ news) (tb_findings d @ nf)
         (tb_events d @ ne) (next_uuid (snd (scan_account mime tm account fs d)))"
    "scan_rows mime tm account (filter (\<lambda>s. known_baseline (eid account) d (spath s) = None) fs)
       (scan_reports (eid account) fs d) news nf ne"
    "fst (scan_account mime tm account fs d) =
       (scan_established (eid account) fs d, length nf, scan_removed (eid account) fs d)"
    "db_wf (snd (scan_account mime tm account fs d))"
proof -
  let ?a = "eid account" and ?bs = "baselines_by_account (eid account) d"
  let ?first = "?bs = []"
  let ?st0 = "\<lparr>ss_db = d, ss_by_path = dict_of ?a d, ss_seen = {}, ss_established = 0,
    ss_created = 0, ss_removed = 0\<rparr>"
  define st1 where "st1 = foldl (scan_file mime tm account ?first) ?st0 fs"
  have inv1: "scan_inv mime tm account ?first d fs st1"
    unfolding st1_def by (rule scan_inv_files[OF wf uniq dist])
  have items: "ss_by_path st1 = map (\<lambda>b. (bpath b, absorb_all tm fs b)) ?bs"
    using scan_invD(1)[OF inv1] by (simp add: dict_of_eq[OF uniq] comp_def)
  have "missing_inv mime tm account ?first d fs [] st1"
    using inv1 unfolding scan_inv_def missing_inv_def Let_def by simp
  then have inv2: "missing_inv mime tm account ?first d fs ?bs
      (foldl (scan_missing mime tm account) st1 (ss_by_path st1))"
    unfolding items
    using distinct_account_paths[OF uniq, of ?a] by (intro missing_inv_loop) (auto simp: distinct_map)
  let ?st2 = "foldl (scan_missing mime tm account) st1 (ss_by_path st1)"
  have run: "scan_account mime tm account fs d =
      ((ss_established ?st2, ss_created ?st2, ss_removed ?st2), ss_db ?st2)"
    by (simp add: scan_account_def st1_def dict_of_def Let_def)
  from inv2 obtain news nf ne where
    "ss_db ?st2 = db_write d (map (rebase tm ?a fs) (tb_baselines d) @ news) (tb_findings d @ nf)
       (tb_events d @ ne) (next_uuid (ss_db ?st2))"
    "scan_rows mime tm account (filter (\<lambda>s. known_baseline ?a d (spath s) = None) fs)
       (scan_reports ?a fs d) news nf ne" "ss_created ?st2 = length nf"
    unfolding missing_inv_def Let_def rebased_all known_baseline_dict[OF uniq] scan_reports_def by blast
  moreover have "ss_established ?st2 = scan_established ?a fs d" "ss_removed ?st2 = scan_removed ?a fs d"
    "db_wf (ss_db ?st2)"
    using inv2 unfolding missing_inv_def Let_def known_baseline_dict[OF uniq]
    by (simp_all add: scan_established_def scan_removed_def missing_report_length)
  ultimately show ?thesis
    using that by (simp add: run)
qed

end
