(* ===== verification/Scan_Correctness.thy ===== *)
theory Scan_Correctness
  imports Integrity_Scan
begin

text \<open>
  What one integrity scan guarantees: the findings it raises, the baselines it
  leaves, that scanning an unchanged home directory again is silent, and the
  same for a whole run over all active accounts.
\<close>

section \<open>One account\<close>

lemma scan_account_run:
  assumes "db_wf d" "baselines_unique d" "distinct (map spath fs)"
    and "scan_account mime tm account fs d = (counts, d')"
  obtains news nf ne where
    "d' = db_write d (map (rebase tm (eid account) fs) (tb_baselines d) @ news) (tb_findings d @ nf)
         (tb_events d @ ne) (next_uuid d')"
    "scan_rows mime tm account (filter (\<lambda>s. known_baseline (eid account) d (spath s) = None) fs)
       (scan_reports (eid account) fs d) news nf ne"
    "counts = (scan_established (eid account) fs d, length nf, scan_removed (eid account) fs d)"
    "db_wf d'"
  using scan_account_exact[OF assms(1-3), of mime tm account] unfolding assms(4) fst_conv snd_conv .

lemma map_eid0_baselines:
  "map (\<lambda>b. b\<lparr>eid := 0\<rparr>) news = map (new_baseline 0 tm a) added \<Longrightarrow>
   map (\<lambda>b. (fb_account_id b, fb_relative_path b, fb_sha256 b, fb_mode b, fb_is_active b)) news =
   map (\<lambda>s. (a, sf_relative_path s, sf_sha256 s, sf_mode s, True)) added"
  by (drule arg_cong[where f = "map (\<lambda>b. (fb_account_id b, fb_relative_path b, fb_sha256 b, fb_mode b, fb_is_active b))"])
    (simp add: comp_def)

lemma news_elems:
  assumes "scan_rows mime tm account added reports news nf ne" "b \<in> set news"
  shows "\<exists>s \<in> set added. fb_account_id b = eid account \<and> fb_relative_path b = sf_relative_path s \<and>
     fb_sha256 b = sf_sha256 s \<and> fb_mode b = sf_mode s \<and> fb_is_active b"
proof -
  let ?v = "\<lambda>b. (fb_account_id b, fb_relative_path b, fb_sha256 b, fb_mode b, fb_is_active b)"
  have "map ?v news = map (\<lambda>s. (eid account, sf_relative_path s, sf_sha256 s, sf_mode s, True)) added"
    using assms(1) by (intro map_eid0_baselines[where tm = tm]) (simp add: scan_rows_def)
  then have "?v b \<in> set (map (\<lambda>s. (eid account, sf_relative_path s, sf_sha256 s, sf_mode s, True)) added)"
    using assms(2) by (metis (mono_tags, lifting) image_eqI list.set_map)
  then show ?thesis by auto
qed

lemma news_cover:
  assumes "scan_rows mime tm account added reports news nf ne" "s \<in> set added"
  shows "\<exists>b \<in> set news. fb_account_id b = eid account \<and> fb_relative_path b = sf_relative_path s \<and>
     fb_sha256 b = sf_sha256 s \<and> fb_mode b = sf_mode s \<and> fb_is_active b"
proof -
  let ?v = "\<lambda>b. (fb_account_id b, fb_relative_path b, fb_sha256 b, fb_mode b, fb_is_active b)"
  have "map ?v news = map (\<lambda>s. (eid account, sf_relative_path s, sf_sha256 s, sf_mode s, True)) added"
    using assms(1) by (intro map_eid0_baselines[where tm = tm]) (simp add: scan_rows_def)
  then have "(eid account, sf_relative_path s, sf_sha256 s, sf_mode s, True) \<in> set (map ?v news)"
    using assms(2) by (metis (mono_tags, lifting) image_eqI list.set_map)
  then show ?thesis by auto
qed

lemma news_paths:
  assumes "scan_rows mime tm account added reports news nf ne"
  shows "map (\<lambda>b. (fb_account_id b, bpath b)) news = map (\<lambda>s. (eid account, spath s)) added"
  using arg_cong[OF map_eid0_baselines[of news tm "eid account" added],
      where f = "map (\<lambda>(a, p, h, m, x). (a, rel_value p))"] assms
  by (simp add: scan_rows_def comp_def)

lemma scan_account_unique:
  assumes "db_wf d" "baselines_unique d" "distinct (map spath fs)"
  shows "baselines_unique (snd (scan_account mime tm account fs d))"
proof -
  let ?a = "eid account" and ?d' = "snd (scan_account mime tm account fs d)"
  obtain news nf ne where
    d': "?d' = db_write d (map (rebase tm ?a fs) (tb_baselines d) @ news) (tb_findings d @ nf)
         (tb_events d @ ne) (next_uuid ?d')"
    and rows: "scan_rows mime tm account (filter (\<lambda>s. known_baseline ?a d (spath s) = None) fs)
       (scan_reports ?a fs d) news nf ne"
    using scan_account_exact[OF assms] by blast
  have "tb_baselines ?d' = map (rebase tm ?a fs) (tb_baselines d) @ news"
    by (subst d') simp
  then have keys: "map (\<lambda>b. (fb_account_id b, bpath b)) (tb_baselines ?d') =
      map (\<lambda>b. (fb_account_id b, bpath b)) (tb_baselines d) @
      map (\<lambda>s. (?a, spath s)) (filter (\<lambda>s. known_baseline ?a d (spath s) = None) fs)"
    using news_paths[OF rows] by (simp add: comp_def)
  have "distinct (map spath (filter (\<lambda>s. known_baseline ?a d (spath s) = None) fs))"
    using assms(3) by (rule distinct_map_filter)
  then have "distinct (map (\<lambda>s. (?a, spath s)) (filter (\<lambda>s. known_baseline ?a d (spath s) = None) fs))"
    by (auto simp: distinct_map inj_on_def)
  then show ?thesis
    unfolding baselines_unique_def keys
    using assms(2)
    by (auto simp: baselines_unique_def known_baseline_def baseline_get_by_account_and_path_def find_None_iff)
qed

lemma scan_account_findings_core:
  assumes "db_wf d" "baselines_unique d" "distinct (map spath fs)"
    and "scan_account mime tm account fs d = (counts, d')"
  shows "\<exists>nf ne.
      tb_findings d' = tb_findings d @ nf \<and> tb_events d' = tb_events d @ ne \<and>
      map finding_report nf = scan_reports (eid account) fs d \<and>
      list_all (scan_finding (eid account) tm) nf \<and>
      list_all2 (announces mime tm account) nf ne \<and>
      counts = (scan_established (eid account) fs d, length nf, scan_removed (eid account) fs d)"
proof -
  obtain news nf ne where
    d': "d' = db_write d (map (rebase tm (eid account) fs) (tb_baselines d) @ news) (tb_findings d @ nf)
         (tb_events d @ ne) (next_uuid d')"
    and rows: "scan_rows mime tm account (filter (\<lambda>s. known_baseline (eid account) d (spath s) = None) fs)
       (scan_reports (eid account) fs d) news nf ne"
    and counts: "counts = (scan_established (eid account) fs d, length nf, scan_removed (eid account) fs d)"
    and "db_wf d'"
    using scan_account_run[OF assms] .
  have "tb_findings d' = tb_findings d @ nf" "tb_events d' = tb_events d @ ne"
    by (subst d', simp)+
  with rows counts show ?thesis
    unfolding scan_rows_def by blast
qed

text \<open>C7. A scan of an account raises exactly the findings the reference
  description gives, in its order: \<open>ADDED\<close> for a new or reappeared file,
  \<open>MODIFIED\<close> for a changed hash, \<open>PERMISSIONS_CHANGED\<close> for a changed mode under
  an unchanged hash, \<open>DELETED\<close> for an active baseline no longer on disk, and
  nothing else. Every finding is followed by exactly one event that announces
  it, existing findings and events are untouched, and the three numbers
  returned are the true counts.\<close>

theorem scan_account_findings:
  assumes "db_wf d" "baselines_unique d" "distinct (map spath fs)"
    and "scan_account mime tm account fs d = (counts, d')"
  shows "\<exists>nf ne.
      tb_findings d' = tb_findings d @ nf \<and> tb_events d' = tb_events d @ ne \<and>
      map finding_report nf = scan_reports (eid account) fs d \<and>
      list_all (scan_finding (eid account) tm) nf \<and>
      list_all2 (announces mime tm account) nf ne \<and>
      counts = (scan_established (eid account) fs d, length nf, scan_removed (eid account) fs d)"
  by (rule scan_account_findings_core[OF assms])

text \<open>The first scan of an account is silent: whatever its home directory
  holds, no finding and no event is raised, and every file establishes a
  baseline.\<close>

theorem first_scan_silent:
  assumes "db_wf d" "baselines_unique d" "distinct (map spath fs)"
    and "baselines_by_account (eid account) d = []"
    and "scan_account mime tm account fs d = (counts, d')"
  shows "tb_findings d' = tb_findings d \<and> tb_events d' = tb_events d \<and> counts = (length fs, 0, 0) \<and>
         map (\<lambda>b. (fb_relative_path b, fb_sha256 b, fb_mode b)) (baselines_by_account (eid account) d') =
         map (\<lambda>s. (sf_relative_path s, sf_sha256 s, sf_mode s)) fs"
proof -
  let ?a = "eid account"
  have unknown: "known_baseline ?a d k = None" for k
    using assms(4) by (auto simp: known_baseline_def baseline_get_by_account_and_path_def
        find_None_iff baselines_by_account_def filter_empty_conv)
  have none: "scan_reports ?a fs d = []"
    using assms(4) unknown by (simp add: scan_reports_def file_report_def)
  have est: "scan_established ?a fs d = length fs" "scan_removed ?a fs d = 0"
    using unknown assms(4) by (simp_all add: scan_established_def established_by_def scan_removed_def)
  obtain news nf ne where
    d': "d' = db_write d (map (rebase tm ?a fs) (tb_baselines d) @ news) (tb_findings d @ nf)
         (tb_events d @ ne) (next_uuid d')"
    and rows: "scan_rows mime tm account (filter (\<lambda>s. known_baseline ?a d (spath s) = None) fs)
       (scan_reports ?a fs d) news nf ne"
    and counts: "counts = (scan_established ?a fs d, length nf, scan_removed ?a fs d)"
    and "db_wf d'"
    using scan_account_run[OF assms(1-3,5)] .
  have nf: "nf = []" "ne = []"
    using rows none by (auto simp: scan_rows_def)
  have tb: "tb_findings d' = tb_findings d" "tb_events d' = tb_events d"
    "tb_baselines d' = map (rebase tm ?a fs) (tb_baselines d) @ news"
    by (subst d', simp add: nf)+
  have vals: "map (\<lambda>b. (fb_account_id b, fb_relative_path b, fb_sha256 b, fb_mode b, fb_is_active b)) news =
      map (\<lambda>s. (?a, sf_relative_path s, sf_sha256 s, sf_mode s, True)) fs"
    using rows unknown by (intro map_eid0_baselines[where tm = tm]) (simp add: scan_rows_def)
  have "\<forall>b \<in> set news. fb_account_id b = ?a"
    using news_elems[OF rows] by blast
  then have "baselines_by_account ?a d' = news"
    using assms(4) by (auto simp: baselines_by_account_def tb filter_empty_conv)
  moreover have "map (\<lambda>b. (fb_relative_path b, fb_sha256 b, fb_mode b)) news =
      map (\<lambda>s. (sf_relative_path s, sf_sha256 s, sf_mode s)) fs"
    using arg_cong[OF vals, where f = "map (\<lambda>(a, p, h, m, x). (p, h, m))"] by (simp add: comp_def)
  ultimately show ?thesis
    using tb counts est nf by simp
qed

text \<open>What the active baselines of an account say, and what the scanner saw.\<close>

definition active_view :: "uuid \<Rightarrow> db \<Rightarrow> (string \<times> sha256_hash \<times> string) set" where
  "active_view a d =
     (\<lambda>b. (bpath b, fb_sha256 b, fb_mode b)) ` set (filter fb_is_active (baselines_by_account a d))"

definition disk_view :: "scanned_file list \<Rightarrow> (string \<times> sha256_hash \<times> string) set" where
  "disk_view fs = (\<lambda>s. (spath s, sf_sha256 s, sf_mode s)) ` set fs"

lemma active_viewI:
  "b \<in> set (tb_baselines d) \<Longrightarrow> fb_account_id b = a \<Longrightarrow> fb_is_active b \<Longrightarrow>
   (bpath b, fb_sha256 b, fb_mode b) \<in> active_view a d"
  by (auto simp: active_view_def baselines_by_account_def)

lemma known_baseline_Some:
  "known_baseline a d k = Some b \<Longrightarrow> b \<in> set (tb_baselines d) \<and> fb_account_id b = a \<and> bpath b = k"
  by (auto simp: known_baseline_def dest!: baseline_lookup_Some)

lemma known_baselineI:
  assumes "baselines_unique d" "b \<in> set (tb_baselines d)" "fb_account_id b = a"
  shows "known_baseline a d (bpath b) = Some b"
proof (cases "known_baseline a d (bpath b)")
  case None
  then show ?thesis
    using assms by (auto simp: known_baseline_def baseline_get_by_account_and_path_def find_None_iff)
next
  case (Some c)
  with known_baseline_Some[OF Some] bpath_inj_on_account[OF assms(1), of c b] assms show ?thesis by auto
qed

lemma rebase_other: "fb_account_id b \<noteq> a \<Longrightarrow> rebase tm a fs b = b"
  by (simp add: rebase_def)

lemma rebase_active:
  assumes "fb_account_id b = a" "fb_is_active (rebase tm a fs b)"
  shows "\<exists>s \<in> set fs. rebase tm a fs b = absorb tm s b \<and> spath s = bpath b"
proof (cases "find (\<lambda>s. spath s = bpath b) fs")
  case None
  then show ?thesis using assms by (auto simp: rebase_def split: if_splits)
next
  case (Some s)
  then have "rebase tm a fs b = absorb tm s b"
    using assms(1) by (simp add: rebase_def)
  with find_SomeD[OF Some] show ?thesis by blast
qed

lemma scan_account_view:
  assumes "db_wf d" "baselines_unique d" "distinct (map spath fs)"
    and "scan_account mime tm account fs d = (counts, d')"
  shows "active_view (eid account) d' = disk_view fs"
proof -
  let ?a = "eid account"
  obtain news nf ne where
    d': "d' = db_write d (map (rebase tm ?a fs) (tb_baselines d) @ news) (tb_findings d @ nf)
         (tb_events d @ ne) (next_uuid d')"
    and rows: "scan_rows mime tm account (filter (\<lambda>s. known_baseline ?a d (spath s) = None) fs)
       (scan_reports ?a fs d) news nf ne"
    and "counts = (scan_established ?a fs d, length nf, scan_removed ?a fs d)"
    and "db_wf d'"
    using scan_account_run[OF assms] .
  have tb: "tb_baselines d' = map (rebase tm ?a fs) (tb_baselines d) @ news"
    by (subst d') simp
  show ?thesis
  proof (rule subset_antisym)
    show "active_view ?a d' \<subseteq> disk_view fs"
    proof
      fix x assume "x \<in> active_view ?a d'"
      then obtain b where b: "b \<in> set (tb_baselines d')" "fb_account_id b = ?a" "fb_is_active b"
        "x = (bpath b, fb_sha256 b, fb_mode b)"
        by (auto simp: active_view_def baselines_by_account_def)
      from b(1) consider b0 where "b = rebase tm ?a fs b0" | "b \<in> set news"
        by (auto simp: tb)
      then have "\<exists>s \<in> set fs. bpath b = spath s \<and> fb_sha256 b = sf_sha256 s \<and> fb_mode b = sf_mode s"
      proof cases
        case (1 b0)
        then have "fb_account_id b0 = ?a" using b(2) by simp
        from rebase_active[OF this] obtain s where "s \<in> set fs" "b = absorb tm s b0" "spath s = bpath b0"
          using 1 b(3) by blast
        then show ?thesis by (intro bexI[of _ s]) simp_all
      next
        case 2
        from news_elems[OF rows 2] show ?thesis by auto
      qed
      then show "x \<in> disk_view fs"
        using b(4) by (auto simp: disk_view_def)
    qed
    show "disk_view fs \<subseteq> active_view ?a d'"
    proof
      fix x assume "x \<in> disk_view fs"
      then obtain s where s: "s \<in> set fs" "x = (spath s, sf_sha256 s, sf_mode s)"
        by (auto simp: disk_view_def)
      show "x \<in> active_view ?a d'"
      proof (cases "known_baseline ?a d (spath s)")
        case None
        with s(1) have "s \<in> set (filter (\<lambda>s. known_baseline ?a d (spath s) = None) fs)" by simp
        from news_cover[OF rows this] obtain b where b: "b \<in> set news" "fb_account_id b = ?a"
          "fb_is_active b" "fb_relative_path b = sf_relative_path s" "fb_sha256 b = sf_sha256 s"
          "fb_mode b = sf_mode s"
          by blast
        then show ?thesis
          using s(2) active_viewI[of b d' ?a] by (simp add: tb)
      next
        case (Some b)
        note b = known_baseline_Some[OF Some]
        have "rebase tm ?a fs b = absorb tm s b"
          using b find_distinct[OF assms(3) s(1)] by (simp add: rebase_def)
        then show ?thesis
          using active_viewI[of "absorb tm s b" d' ?a] b s(2) by (force simp: tb image_iff)
      qed
    qed
  qed
qed

lemma scan_account_baselines_core:
  assumes "db_wf d" "baselines_unique d" "distinct (map spath fs)"
    and "scan_account mime tm account fs d = (counts, d')"
  shows "active_view (eid account) d' = disk_view fs \<and>
         (\<forall>c. c \<noteq> eid account \<longrightarrow> baselines_by_account c d' = baselines_by_account c d) \<and>
         d' = d\<lparr>tb_baselines := tb_baselines d', tb_findings := tb_findings d',
                tb_events := tb_events d', next_uuid := next_uuid d'\<rparr> \<and>
         baselines_unique d' \<and> db_wf d'"
proof -
  let ?a = "eid account"
  obtain news nf ne where
    d': "d' = db_write d (map (rebase tm ?a fs) (tb_baselines d) @ news) (tb_findings d @ nf)
         (tb_events d @ ne) (next_uuid d')"
    and rows: "scan_rows mime tm account (filter (\<lambda>s. known_baseline ?a d (spath s) = None) fs)
       (scan_reports ?a fs d) news nf ne"
    and "counts = (scan_established ?a fs d, length nf, scan_removed ?a fs d)"
    and wf: "db_wf d'"
    using scan_account_run[OF assms] .
  have tb: "tb_baselines d' = map (rebase tm ?a fs) (tb_baselines d) @ news"
    by (subst d') simp
  have "baselines_by_account c d' = baselines_by_account c d" if "c \<noteq> ?a" for c
  proof -
    have "filter (\<lambda>b. fb_account_id b = c) news = []"
      using news_elems[OF rows] that by (fastforce simp: filter_empty_conv)
    moreover have "filter (\<lambda>b. fb_account_id b = c) (map (rebase tm ?a fs) t) =
        filter (\<lambda>b. fb_account_id b = c) t" for t
      using that by (induction t) (auto simp: rebase_other)
    ultimately show ?thesis by (simp add: baselines_by_account_def tb)
  qed
  moreover have "d' = db_write d (tb_baselines d') (tb_findings d') (tb_events d') (next_uuid d')"
    by (subst (1 2 3 4) d') simp
  ultimately show ?thesis
    using scan_account_view[OF assms] scan_account_unique[OF assms(1-3), of mime tm account] assms(4) wf
    by simp
qed

text \<open>After the scan of an account, its active baselines are exactly what
  was on disk: for every path the hash and the mode the scanner saw, nothing
  missing and nothing left over. The baselines of every other account, and
  every table other than baselines, findings and events, are as they were; the
  uniqueness of \<open>(account, path)\<close> is kept.\<close>

theorem scan_account_baselines:
  assumes "db_wf d" "baselines_unique d" "distinct (map spath fs)"
    and "scan_account mime tm account fs d = (counts, d')"
  shows "active_view (eid account) d' = disk_view fs \<and>
         (\<forall>c. c \<noteq> eid account \<longrightarrow> baselines_by_account c d' = baselines_by_account c d) \<and>
         d' = d\<lparr>tb_baselines := tb_baselines d', tb_findings := tb_findings d',
                tb_events := tb_events d', next_uuid := next_uuid d'\<rparr> \<and>
         baselines_unique d' \<and> db_wf d'"
  by (rule scan_account_baselines_core[OF assms])

text \<open>An account whose baselines agree with the disk: the next scan changes
  nothing.\<close>

lemma settled_known:
  assumes "baselines_unique d" "active_view a d = disk_view fs" "s \<in> set fs"
  shows "\<exists>b. known_baseline a d (spath s) = Some b \<and> fb_is_active b \<and> fb_sha256 b = sf_sha256 s \<and>
             fb_mode b = sf_mode s"
proof -
  have "(spath s, sf_sha256 s, sf_mode s) \<in> active_view a d"
    using assms by (auto simp: disk_view_def)
  then obtain b where b: "b \<in> set (tb_baselines d)" "fb_account_id b = a" "fb_is_active b"
    "bpath b = spath s" "fb_sha256 b = sf_sha256 s" "fb_mode b = sf_mode s"
    by (auto simp: active_view_def baselines_by_account_def)
  then show ?thesis
    using known_baselineI[OF assms(1) b(1,2)] by auto
qed

lemma settled_rebase:
  assumes "baselines_unique d" "active_view a d = disk_view fs" "b \<in> set (tb_baselines d)"
  shows "rebase tm a fs b = b"
proof (cases "fb_account_id b = a")
  case True
  show ?thesis
  proof (cases "find (\<lambda>s. spath s = bpath b) fs")
    case None
    have "\<not> fb_is_active b"
      using None active_viewI[OF assms(3) True] assms(2)
      by (force simp: disk_view_def find_None_iff)
    then show ?thesis using None by (simp add: rebase_def)
  next
    case (Some s)
    then have s: "s \<in> set fs" "spath s = bpath b"
      by (auto simp: find_Some_iff)
    from settled_known[OF assms(1,2) s(1)] known_baselineI[OF assms(1,3) True] s(2)
    show ?thesis using Some by (simp add: rebase_def absorb_def)
  qed
qed (simp add: rebase_def)

lemma settled_scan:
  assumes "db_wf d" "baselines_unique d" "distinct (map spath fs)"
    and "active_view (eid account) d = disk_view fs"
    and "scan_account mime tm account fs d = (counts, d')"
  shows "counts = (0, 0, 0) \<and> tb_baselines d' = tb_baselines d \<and> tb_findings d' = tb_findings d \<and>
         tb_events d' = tb_events d"
proof -
  let ?a = "eid account"
  have known: "\<exists>b. known_baseline ?a d (spath s) = Some b \<and> fb_is_active b \<and> fb_sha256 b = sf_sha256 s \<and>
      fb_mode b = sf_mode s" if "s \<in> set fs" for s
    by (rule settled_known[OF assms(2,4) that])
  have present: "bpath b \<in> spath ` set fs" if "b \<in> set (baselines_by_account ?a d)" "fb_is_active b" for b
  proof -
    have "(bpath b, fb_sha256 b, fb_mode b) \<in> disk_view fs"
      using that active_viewI[of b d ?a] assms(4) by (auto simp: baselines_by_account_def)
    then show ?thesis by (auto simp: disk_view_def)
  qed
  have "file_report first (known_baseline ?a d) s = []" if "s \<in> set fs" for s first
    using known[OF that] by (auto simp: file_report_def)
  then have none: "scan_reports ?a fs d = []"
    using present by (auto simp: scan_reports_def missing_report_def)
  have zero: "scan_established ?a fs d = 0" "scan_removed ?a fs d = 0"
    using known present
    by (force simp: scan_established_def established_by_def filter_empty_conv)
      (use present in \<open>auto simp: scan_removed_def filter_empty_conv\<close>)
  have unknown: "filter (\<lambda>s. known_baseline ?a d (spath s) = None) fs = []"
    using known by (auto simp: filter_empty_conv)
  obtain news nf ne where
    d': "d' = db_write d (map (rebase tm ?a fs) (tb_baselines d) @ news) (tb_findings d @ nf)
         (tb_events d @ ne) (next_uuid d')"
    and rows: "scan_rows mime tm account (filter (\<lambda>s. known_baseline ?a d (spath s) = None) fs)
       (scan_reports ?a fs d) news nf ne"
    and counts: "counts = (scan_established ?a fs d, length nf, scan_removed ?a fs d)"
    and "db_wf d'"
    using scan_account_run[OF assms(1-3,5)] .
  have empty: "news = []" "nf = []" "ne = []"
    using rows none unknown by (auto simp: scan_rows_def)
  have "map (rebase tm ?a fs) (tb_baselines d) = tb_baselines d"
    using settled_rebase[OF assms(2,4)] by (simp add: map_idI)
  then have "tb_baselines d' = tb_baselines d" "tb_findings d' = tb_findings d" "tb_events d' = tb_events d"
    by (subst d', simp add: empty)+
  then show ?thesis
    using counts zero empty by simp
qed

text \<open>Scanning again is silent: a second scan that finds the same files
  raises no finding and no event, establishes and removes nothing, and leaves
  every baseline untouched.\<close>

theorem rescan_silent:
  assumes "db_wf d" "baselines_unique d" "distinct (map spath fs)"
    and "scan_account mime tm account fs d = (counts, d')"
    and "scan_account mime' tm' account fs d' = (counts', d'')"
  shows "counts' = (0, 0, 0) \<and> tb_baselines d'' = tb_baselines d' \<and>
         tb_findings d'' = tb_findings d' \<and> tb_events d'' = tb_events d'"
proof -
  have "active_view (eid account) d' = disk_view fs" "baselines_unique d'" "db_wf d'"
    using scan_account_view[OF assms(1-4)] scan_account_unique[OF assms(1-3), of mime tm account] assms(4)
      scan_account_run[OF assms(1-4)] by auto
  then show ?thesis
    using settled_scan assms(3,5) by blast
qed

text \<open>The sizes: an active baseline the scan wrote has the size the scanner saw.\<close>

lemma absorb_size: "absorb tm s b = b \<or> fb_size_bytes (absorb tm s b) = sf_size_bytes s"
  by (simp add: absorb_def)

lemma news_sizes:
  assumes "scan_rows mime tm account added reports news nf ne" "b \<in> set news"
  shows "\<exists>s \<in> set added. fb_relative_path b = sf_relative_path s \<and> fb_size_bytes b = sf_size_bytes s"
proof -
  let ?v = "\<lambda>b. (fb_relative_path b, fb_size_bytes b)"
  have "map (\<lambda>b. b\<lparr>eid := 0\<rparr>) news = map (new_baseline 0 tm (eid account)) added"
    using assms(1) by (simp add: scan_rows_def)
  from arg_cong [OF this, where f = "map ?v"]
  have "map ?v news = map (\<lambda>s. (sf_relative_path s, sf_size_bytes s)) added"
    by (simp add: comp_def new_baseline_def)
  then have "?v b \<in> set (map (\<lambda>s. (sf_relative_path s, sf_size_bytes s)) added)"
    using assms(2) by (metis (mono_tags, lifting) image_eqI list.set_map)
  then show ?thesis by auto
qed

lemma scan_account_sizes:
  assumes "db_wf d" "baselines_unique d" "distinct (map spath fs)"
    and "scan_account mime tm account fs d = (counts, d')"
    and "b \<in> set (baselines_by_account (eid account) d')" "fb_is_active b"
  shows "b \<in> set (tb_baselines d) \<or> (\<exists>s \<in> set fs. bpath b = spath s \<and> fb_size_bytes b = sf_size_bytes s)"
proof -
  let ?a = "eid account"
  obtain news nf ne where
    d': "d' = db_write d (map (rebase tm ?a fs) (tb_baselines d) @ news) (tb_findings d @ nf)
         (tb_events d @ ne) (next_uuid d')"
    and rows: "scan_rows mime tm account (filter (\<lambda>s. known_baseline ?a d (spath s) = None) fs)
       (scan_reports ?a fs d) news nf ne"
    and "counts = (scan_established ?a fs d, length nf, scan_removed ?a fs d)" and "db_wf d'"
    using scan_account_run [OF assms(1-4)] .
  have "tb_baselines d' = map (rebase tm ?a fs) (tb_baselines d) @ news" by (subst d') simp
  then consider b0 where "b0 \<in> set (tb_baselines d)" "b = rebase tm ?a fs b0" "fb_account_id b0 = ?a" | "b \<in> set news"
    using assms(5) by (auto simp: baselines_by_account_def)
  then show ?thesis
  proof cases
    case (1 b0)
    then obtain s where "s \<in> set fs" "b = absorb tm s b0" "spath s = bpath b0"
      using rebase_active [OF 1(3)] assms(6) by blast
    then show ?thesis using absorb_size [of tm s b0] 1(1) by force
  next
    case 2
    then show ?thesis using news_sizes [OF rows] by force
  qed
qed

section \<open>A whole run\<close>

text \<open>The accounts a run scans: the active ones among the first ten thousand.\<close>

definition scan_targets :: "db \<Rightarrow> cpanel_account list" where
  "scan_targets d = filter ac_is_active (tbl_list 10000 0 (tb_accounts d))"

definition well_scanned :: "(cpanel_account \<Rightarrow> scanned_file list) \<Rightarrow> db \<Rightarrow> bool" where
  "well_scanned scanner d \<longleftrightarrow> list_all (\<lambda>a. distinct (map spath (scanner a))) (scan_targets d)"

lemma active_view_cong:
  "baselines_by_account a d' = baselines_by_account a d \<Longrightarrow> active_view a d' = active_view a d"
  by (simp add: active_view_def)

lemma known_baseline_own: "known_baseline a d k = find (\<lambda>b. bpath b = k) (baselines_by_account a d)"
  by (simp add: known_baseline_def baseline_get_by_account_and_path_def baselines_by_account_def find_filter_conj)

lemma scan_counts_cong:
  assumes "baselines_by_account a d' = baselines_by_account a d"
  shows "scan_established a fs d' = scan_established a fs d" "scan_removed a fs d' = scan_removed a fs d"
    "scan_reports a fs d' = scan_reports a fs d"
proof -
  have "known_baseline a d' = known_baseline a d" by (rule ext) (simp add: known_baseline_own assms)
  then show "scan_established a fs d' = scan_established a fs d" "scan_removed a fs d' = scan_removed a fs d"
    "scan_reports a fs d' = scan_reports a fs d"
    by (simp_all add: scan_established_def scan_removed_def scan_reports_def assms)
qed

text \<open>The result of a run, as a sum over its accounts.\<close>

definition run_counts ::
    "(cpanel_account \<Rightarrow> scanned_file list) \<Rightarrow> cpanel_account list \<Rightarrow> db \<Rightarrow> integrity_scan_result \<Rightarrow>
     integrity_scan_result" where
  "run_counts scanner as d r =
     \<lparr>sr_accounts_scanned = sr_accounts_scanned r + length as,
      sr_baselines_established = sr_baselines_established r + (\<Sum>a\<leftarrow>as. scan_established (eid a) (scanner a) d),
      sr_findings_created = sr_findings_created r + (\<Sum>a\<leftarrow>as. length (scan_reports (eid a) (scanner a) d)),
      sr_baselines_removed = sr_baselines_removed r + (\<Sum>a\<leftarrow>as. scan_removed (eid a) (scanner a) d)\<rparr>"

lemma run_counts_cong:
  assumes "\<forall>a \<in> set as. baselines_by_account (eid a) d' = baselines_by_account (eid a) d"
  shows "run_counts scanner as d' r = run_counts scanner as d r"
proof -
  have "map (\<lambda>a. scan_established (eid a) (scanner a) d') as = map (\<lambda>a. scan_established (eid a) (scanner a) d) as"
    "map (\<lambda>a. scan_removed (eid a) (scanner a) d') as = map (\<lambda>a. scan_removed (eid a) (scanner a) d) as"
    "map (\<lambda>a. length (scan_reports (eid a) (scanner a) d')) as = map (\<lambda>a. length (scan_reports (eid a) (scanner a) d)) as"
    using scan_counts_cong [OF assms [rule_format]] by simp_all
  then show ?thesis by (simp only: run_counts_def)
qed

lemma run_counts_Cons:
  "run_counts scanner (a # as) d r = run_counts scanner as d
     \<lparr>sr_accounts_scanned = sr_accounts_scanned r + 1,
      sr_baselines_established = sr_baselines_established r + scan_established (eid a) (scanner a) d,
      sr_findings_created = sr_findings_created r + length (scan_reports (eid a) (scanner a) d),
      sr_baselines_removed = sr_baselines_removed r + scan_removed (eid a) (scanner a) d\<rparr>"
  by (simp add: run_counts_def)

lemma scan_accounts_counts:
  assumes "db_wf d" "baselines_unique d" "distinct (map eid as)"
    and "list_all (\<lambda>a. distinct (map spath (scanner a))) as" "list_all ac_is_active as"
    and "scan_accounts mime tm scanner as r d = (r', d')"
  shows "r' = run_counts scanner as d r"
  using assms
proof (induction as arbitrary: r d)
  case Nil
  then show ?case by (simp add: run_counts_def)
next
  case (Cons a as)
  obtain x y z d1 where one: "scan_account mime tm a (scanner a) d = ((x, y, z), d1)"
    by (metis surj_pair)
  have dis: "distinct (map spath (scanner a))" using Cons.prems by simp
  note core = scan_account_baselines_core [OF Cons.prems(1,2) dis one]
  obtain nf ne where "map finding_report nf = scan_reports (eid a) (scanner a) d" "y = length nf"
    "x = scan_established (eid a) (scanner a) d" "z = scan_removed (eid a) (scanner a) d"
    using scan_account_findings_core [OF Cons.prems(1,2) dis one] scan_account_run [OF Cons.prems(1,2) dis one]
    by (metis prod.inject)
  then have counts: "x = scan_established (eid a) (scanner a) d" "z = scan_removed (eid a) (scanner a) d"
    "y = length (scan_reports (eid a) (scanner a) d)" by (auto dest: arg_cong [where f = length])
  have "\<forall>b \<in> set as. baselines_by_account (eid b) d1 = baselines_by_account (eid b) d"
    using core Cons.prems(3) by (metis (no_types, lifting) distinct.simps(2) image_eqI list.set_map list.simps(9))
  note same = run_counts_cong [OF this]
  show ?case
    unfolding run_counts_Cons counts(1,2,3) [symmetric] same [symmetric]
    using Cons.prems core one by (intro Cons.IH [of d1]) simp_all
qed

definition run_outcome ::
    "(cpanel_account \<Rightarrow> scanned_file list) \<Rightarrow> cpanel_account list \<Rightarrow> integrity_scan_result \<Rightarrow> db \<Rightarrow>
     integrity_scan_result \<Rightarrow> db \<Rightarrow> bool" where
  "run_outcome scanner as r d r' d' \<longleftrightarrow>
     (\<forall>a \<in> set as. active_view (eid a) d' = disk_view (scanner a)) \<and>
     (\<forall>c. c \<notin> eid ` set as \<longrightarrow> baselines_by_account c d' = baselines_by_account c d) \<and>
     d' = d\<lparr>tb_baselines := tb_baselines d', tb_findings := tb_findings d',
            tb_events := tb_events d', next_uuid := next_uuid d'\<rparr> \<and>
     baselines_unique d' \<and> db_wf d' \<and>
     (\<exists>nf ne. tb_findings d' = tb_findings d @ nf \<and> tb_events d' = tb_events d @ ne \<and>
        length ne = length nf \<and> sr_findings_created r' = sr_findings_created r + length nf) \<and>
     sr_accounts_scanned r' = sr_accounts_scanned r + length as"

lemma scan_accounts_active:
  "scan_accounts mime tm scanner as r d = scan_accounts mime tm scanner (filter ac_is_active as) r d"
  by (induction as arbitrary: r d) (auto split: prod.splits)

lemma run_outcome_step:
  assumes "db_wf d" "baselines_unique d" "distinct (map spath (scanner a))"
    and "scan_account mime tm a (scanner a) d = ((x, y, z), d1)"
    and r1: "sr_findings_created r1 = sr_findings_created r + y"
      "sr_accounts_scanned r1 = sr_accounts_scanned r + 1"
    and rest: "run_outcome scanner as r1 d1 r' d'" and "eid a \<notin> eid ` set as"
  shows "run_outcome scanner (a # as) r d r' d'"
proof -
  note one = scan_account_baselines_core[OF assms(1-4)]
  obtain nf ne where f1: "tb_findings d1 = tb_findings d @ nf" "tb_events d1 = tb_events d @ ne"
    "list_all2 (announces mime tm a) nf ne" "y = length nf"
    using scan_account_findings_core[OF assms(1-4)] by blast
  obtain nf' ne' where f2: "tb_findings d' = tb_findings d1 @ nf'" "tb_events d' = tb_events d1 @ ne'"
    "length ne' = length nf'" "sr_findings_created r' = sr_findings_created r1 + length nf'"
    using rest unfolding run_outcome_def by blast
  have "active_view (eid a) d' = active_view (eid a) d1"
    using rest assms(8) by (intro active_view_cong) (simp add: run_outcome_def)
  moreover have "d' = db_write d (tb_baselines d') (tb_findings d') (tb_events d') (next_uuid d')"
  proof -
    have "d' = db_write d1 (tb_baselines d') (tb_findings d') (tb_events d') (next_uuid d')"
      using rest by (simp add: run_outcome_def)
    also have "\<dots> = db_write (db_write d (tb_baselines d1) (tb_findings d1) (tb_events d1) (next_uuid d1))
        (tb_baselines d') (tb_findings d') (tb_events d') (next_uuid d')"
      using one by metis
    finally show ?thesis by simp
  qed
  moreover have "tb_findings d' = tb_findings d @ (nf @ nf') \<and> tb_events d' = tb_events d @ (ne @ ne') \<and>
      length (ne @ ne') = length (nf @ nf') \<and>
      sr_findings_created r' = sr_findings_created r + length (nf @ nf')"
    using f1 f2 r1 list_all2_lengthD[OF f1(3)] by simp
  ultimately show ?thesis
    using one rest r1(2) unfolding run_outcome_def by (auto simp del: length_append)
qed

lemma scan_accounts_outcome:
  assumes "db_wf d" "baselines_unique d" "distinct (map eid as)"
    and "list_all (\<lambda>a. distinct (map spath (scanner a))) as" "list_all ac_is_active as"
    and "scan_accounts mime tm scanner as r d = (r', d')"
  shows "run_outcome scanner as r d r' d'"
  using assms
proof (induction as arbitrary: r d)
  case Nil
  then show ?case by (simp add: run_outcome_def)
next
  case (Cons a as)
  obtain x y z d1 where one: "scan_account mime tm a (scanner a) d = ((x, y, z), d1)"
    by (metis surj_pair)
  have d: "distinct (map spath (scanner a))" using Cons.prems by simp
  have "db_wf d1" "baselines_unique d1"
    using scan_account_baselines_core[OF Cons.prems(1,2) d one] by auto
  then have rest: "run_outcome scanner as
      \<lparr>sr_accounts_scanned = sr_accounts_scanned r + 1,
       sr_baselines_established = sr_baselines_established r + x,
       sr_findings_created = sr_findings_created r + y,
       sr_baselines_removed = sr_baselines_removed r + z\<rparr> d1 r' d'"
    using Cons.prems one by (intro Cons.IH) auto
  show ?case
    by (rule run_outcome_step[where scanner = scanner and a = a, OF Cons.prems(1,2) d one _ _ rest])
      (use Cons.prems in simp_all)
qed

lemma run_integrity_scan_outcome:
  assumes "db_wf d" "baselines_unique d" "well_scanned scanner d"
    and "run_integrity_scan mime tm scanner d = (r, d')"
  shows "run_outcome scanner (scan_targets d)
    \<lparr>sr_accounts_scanned = 0, sr_baselines_established = 0, sr_findings_created = 0,
     sr_baselines_removed = 0\<rparr> d r d'"
proof (rule scan_accounts_outcome[OF assms(1,2)])
  have "distinct (map eid (tb_accounts d))"
    using tbl_wf_distinct[OF db_wfD(1)[OF assms(1)]] by (simp add: tbl_ids_def)
  then have "distinct (map eid (tbl_list 10000 0 (tb_accounts d)))"
    by (simp add: tbl_list_def take_map [symmetric])
  then show "distinct (map eid (scan_targets d))"
    unfolding scan_targets_def by (rule distinct_map_filter)
  show "scan_accounts mime tm scanner (scan_targets d)
    \<lparr>sr_accounts_scanned = 0, sr_baselines_established = 0, sr_findings_created = 0,
     sr_baselines_removed = 0\<rparr> d = (r, d')"
    using assms(4) scan_accounts_active unfolding run_integrity_scan_def scan_targets_def by metis
qed (use assms(3) in \<open>simp_all add: well_scanned_def scan_targets_def list_all_iff\<close>)

lemma scan_targets_distinct:
  assumes "db_wf d"
  shows "distinct (map eid (scan_targets d))"
proof -
  have "distinct (map eid (tb_accounts d))"
    using tbl_wf_distinct [OF db_wfD(1) [OF assms]] by (simp add: tbl_ids_def)
  then have "distinct (map eid (tbl_list 10000 0 (tb_accounts d)))"
    by (simp add: tbl_list_def take_map [symmetric])
  then show ?thesis unfolding scan_targets_def by (rule distinct_map_filter)
qed

lemma run_integrity_scan_counts:
  assumes "db_wf d" "baselines_unique d" "well_scanned scanner d"
    and "run_integrity_scan mime tm scanner d = (r, d')"
  shows "r = run_counts scanner (scan_targets d) d
    \<lparr>sr_accounts_scanned = 0, sr_baselines_established = 0, sr_findings_created = 0, sr_baselines_removed = 0\<rparr>"
proof (rule scan_accounts_counts [OF assms(1,2) scan_targets_distinct [OF assms(1)]])
  show "scan_accounts mime tm scanner (scan_targets d)
    \<lparr>sr_accounts_scanned = 0, sr_baselines_established = 0, sr_findings_created = 0, sr_baselines_removed = 0\<rparr> d = (r, d')"
    using assms(4) scan_accounts_active unfolding run_integrity_scan_def scan_targets_def by metis
qed (use assms(3) in \<open>simp_all add: well_scanned_def scan_targets_def list_all_iff\<close>)

text \<open>C8. A run over all accounts brings every active account among the first
  ten thousand to agreement with its disk in path, hash and mode, leaves the baselines of every
  other account alone, writes only the tables of baselines, findings and
  events, and raises one event per finding. The four counts it returns are the number of those accounts and
  the sums, over them, of the baselines established, of the changes to report and of the baselines removed
  that the reference description of one account gives on the database before the run.\<close>

theorem integrity_run_agrees:
  assumes "db_wf d" "baselines_unique d" "well_scanned scanner d"
    and "run_integrity_scan mime tm scanner d = (r, d')"
  shows "(\<forall>a \<in> set (scan_targets d). active_view (eid a) d' = disk_view (scanner a)) \<and>
         (\<forall>c. c \<notin> eid ` set (scan_targets d) \<longrightarrow>
            baselines_by_account c d' = baselines_by_account c d) \<and>
         d' = d\<lparr>tb_baselines := tb_baselines d', tb_findings := tb_findings d',
                tb_events := tb_events d', next_uuid := next_uuid d'\<rparr> \<and>
         length (tb_findings d') = length (tb_findings d) + sr_findings_created r \<and>
         length (tb_events d') = length (tb_events d) + sr_findings_created r \<and>
         sr_accounts_scanned r = length (scan_targets d) \<and>
         sr_baselines_established r = (\<Sum>a\<leftarrow>scan_targets d. scan_established (eid a) (scanner a) d) \<and>
         sr_findings_created r = (\<Sum>a\<leftarrow>scan_targets d. length (scan_reports (eid a) (scanner a) d)) \<and>
         sr_baselines_removed r = (\<Sum>a\<leftarrow>scan_targets d. scan_removed (eid a) (scanner a) d) \<and>
         baselines_unique d' \<and> db_wf d'"
  using run_integrity_scan_outcome[OF assms] run_integrity_scan_counts [OF assms]
  unfolding run_outcome_def run_counts_def by auto

lemma settled_accounts:
  assumes "db_wf d" "baselines_unique d" "list_all ac_is_active as"
    and "list_all (\<lambda>a. distinct (map spath (scanner a))) as"
    and "\<forall>a \<in> set as. active_view (eid a) d = disk_view (scanner a)"
    and "scan_accounts mime tm scanner as r d = (r', d')"
  shows "sr_findings_created r' = sr_findings_created r \<and> tb_baselines d' = tb_baselines d \<and>
         tb_findings d' = tb_findings d \<and> tb_events d' = tb_events d"
  using assms
proof (induction as arbitrary: r d)
  case (Cons a as)
  obtain x y z d1 where one: "scan_account mime tm a (scanner a) d = ((x, y, z), d1)"
    by (metis surj_pair)
  have d: "distinct (map spath (scanner a))" using Cons.prems by simp
  have "db_wf d1" "baselines_unique d1"
    using scan_account_baselines_core[OF Cons.prems(1,2) d one] by auto
  moreover have quiet: "y = 0 \<and> tb_baselines d1 = tb_baselines d \<and> tb_findings d1 = tb_findings d \<and>
      tb_events d1 = tb_events d"
    using settled_scan[OF Cons.prems(1,2) d _ one] Cons.prems(5) by auto
  moreover have "\<forall>a \<in> set as. active_view (eid a) d1 = disk_view (scanner a)"
    using Cons.prems(5) quiet by (simp add: active_view_def baselines_by_account_def)
  ultimately show ?case
    using Cons.prems(3,4,6) one Cons.IH[of d1] by auto
qed simp

text \<open>A second run over unchanged home directories raises nothing: no
  finding, no event, and no baseline changes.\<close>

theorem integrity_rerun_silent:
  assumes "db_wf d" "baselines_unique d" "well_scanned scanner d"
    and "run_integrity_scan mime tm scanner d = (r, d')"
    and "run_integrity_scan mime' tm' scanner d' = (r', d'')"
  shows "sr_findings_created r' = 0 \<and> tb_baselines d'' = tb_baselines d' \<and>
         tb_findings d'' = tb_findings d' \<and> tb_events d'' = tb_events d'"
proof -
  have out: "run_outcome scanner (scan_targets d)
    \<lparr>sr_accounts_scanned = 0, sr_baselines_established = 0, sr_findings_created = 0,
     sr_baselines_removed = 0\<rparr> d r d'"
    by (rule run_integrity_scan_outcome[OF assms(1-4)])
  then have "d' = db_write d (tb_baselines d') (tb_findings d') (tb_events d') (next_uuid d')"
    by (simp add: run_outcome_def)
  then have "tb_accounts d' = tb_accounts d"
    by (metis db.select_convs(2) db.surjective db.update_convs(4,5,7,18))
  then have same: "scan_targets d' = scan_targets d"
    by (simp add: scan_targets_def)
  have "scan_accounts mime' tm' scanner (scan_targets d')
    \<lparr>sr_accounts_scanned = 0, sr_baselines_established = 0, sr_findings_created = 0,
     sr_baselines_removed = 0\<rparr> d' = (r', d'')"
    using assms(5) scan_accounts_active unfolding run_integrity_scan_def scan_targets_def by metis
  moreover have "list_all ac_is_active (scan_targets d')"
    by (simp add: scan_targets_def list_all_iff)
  moreover have "list_all (\<lambda>a. distinct (map spath (scanner a))) (scan_targets d')"
    using assms(3) unfolding same well_scanned_def .
  moreover have "\<forall>a \<in> set (scan_targets d'). active_view (eid a) d' = disk_view (scanner a)"
    "db_wf d'" "baselines_unique d'"
    using out unfolding same run_outcome_def by blast+
  ultimately show ?thesis
    using settled_accounts by fastforce
qed

section \<open>A concrete scan\<close>

definition demo_account :: cpanel_account where
  "demo_account = \<lparr>eid = 1, created_at = 0, updated_at = 0, ac_server_id = 0,
     ac_username = LinuxUsername ''bob'', ac_primary_domain = DomainName ''bob.com'',
     ac_home_directory = AbsoluteFilePath ''/home/bob'', ac_is_suspended = False,
     ac_last_seen_at = 0, ac_is_active = True\<rparr>"

definition demo_file :: "string \<Rightarrow> string \<Rightarrow> string \<Rightarrow> scanned_file" where
  "demo_file p h m = \<lparr>sf_relative_path = RelativeFilePath p, sf_sha256 = Sha256Hash h,
     sf_size_bytes = 1, sf_mode = m\<rparr>"

definition demo_db :: db where
  "demo_db = empty_db\<lparr>tb_accounts := [demo_account],
     tb_baselines := [new_baseline 4 0 1 (demo_file ''a.php'' ''aa'' ''0644''),
                      new_baseline 5 0 1 (demo_file ''gone.php'' ''bb'' ''0644'')],
     next_uuid := 10\<rparr>"

definition demo_scan :: "scanned_file list" where
  "demo_scan = [demo_file ''a.php'' ''cc'' ''0644'', demo_file ''new.php'' ''dd'' ''0600'']"

lemma demo_db_ok: "db_wf demo_db" "baselines_unique demo_db" "distinct (map spath demo_scan)"
  by (simp_all add: demo_db_def db_wf_def empty_db_def tbl_wf_def demo_account_def baselines_unique_def
      demo_file_def demo_scan_def)

lemma demo_targets: "scan_targets demo_db = [demo_account]"
  by (simp add: scan_targets_def demo_db_def empty_db_def tbl_list_def demo_account_def)

lemma demo_tables: "tb_findings demo_db = []" "tb_events demo_db = []" "eid demo_account = 1"
  by (simp_all add: demo_db_def empty_db_def demo_account_def)

lemma demo_reports:
  "scan_reports (eid demo_account) demo_scan demo_db =
     [(RelativeFilePath ''a.php'', MODIFIED, Some (Sha256Hash ''aa''), Some (Sha256Hash ''cc'')),
      (RelativeFilePath ''new.php'', ADDED, None, Some (Sha256Hash ''dd'')),
      (RelativeFilePath ''gone.php'', DELETED, Some (Sha256Hash ''bb''), None)]"
  by (simp add: scan_reports_def demo_scan_def demo_db_def baselines_by_account_def known_baseline_def
      baseline_get_by_account_and_path_def file_report_def missing_report_def demo_file_def
      demo_account_def)

theorem scan_account_findings_witness:
  "map finding_report (tb_findings (snd (scan_account (\<lambda>_. None) 50 demo_account demo_scan demo_db))) =
     [(RelativeFilePath ''a.php'', MODIFIED, Some (Sha256Hash ''aa''), Some (Sha256Hash ''cc'')),
      (RelativeFilePath ''new.php'', ADDED, None, Some (Sha256Hash ''dd'')),
      (RelativeFilePath ''gone.php'', DELETED, Some (Sha256Hash ''bb''), None)]"
  using scan_account_findings[OF demo_db_ok surjective_pairing,
      where mime = "\<lambda>_. None" and tm = 50 and account = demo_account]
  by (auto simp: demo_reports demo_tables(1,2))

theorem first_scan_silent_witness:
  "tb_findings (snd (scan_account (\<lambda>_. None) 50 (demo_account\<lparr>eid := 2\<rparr>) demo_scan demo_db)) = []"
  using first_scan_silent[OF demo_db_ok _ surjective_pairing,
      where account = "demo_account\<lparr>eid := 2\<rparr>" and mime = "\<lambda>_. None" and tm = 50]
  by (simp add: demo_db_def empty_db_def baselines_by_account_def)

theorem scan_account_baselines_witness:
  "active_view (eid demo_account) (snd (scan_account (\<lambda>_. None) 50 demo_account demo_scan demo_db)) =
     {(''a.php'', Sha256Hash ''cc'', ''0644''), (''new.php'', Sha256Hash ''dd'', ''0600'')}"
  using scan_account_baselines[OF demo_db_ok surjective_pairing,
      where mime = "\<lambda>_. None" and tm = 50 and account = demo_account]
  by (simp add: disk_view_def demo_scan_def demo_file_def)

theorem rescan_silent_witness:
  "fst (scan_account (\<lambda>_. None) 60 demo_account demo_scan
     (snd (scan_account (\<lambda>_. None) 50 demo_account demo_scan demo_db))) = (0, 0, 0)"
  using rescan_silent[OF demo_db_ok surjective_pairing surjective_pairing,
      where mime = "\<lambda>_. None" and tm = 50 and account = demo_account and mime' = "\<lambda>_. None" and tm' = 60]
  by simp

lemma demo_well_scanned: "well_scanned (\<lambda>_. demo_scan) demo_db"
  by (simp add: well_scanned_def demo_targets demo_db_ok)

theorem integrity_run_agrees_witness:
  "active_view (eid demo_account) (snd (run_integrity_scan (\<lambda>_. None) 50 (\<lambda>_. demo_scan) demo_db)) =
     {(''a.php'', Sha256Hash ''cc'', ''0644''), (''new.php'', Sha256Hash ''dd'', ''0600'')}"
  using integrity_run_agrees[OF demo_db_ok(1,2) demo_well_scanned surjective_pairing,
      where mime = "\<lambda>_. None" and tm = 50]
  by (simp add: demo_targets disk_view_def demo_scan_def demo_file_def)

theorem integrity_rerun_silent_witness:
  "sr_findings_created (fst (run_integrity_scan (\<lambda>_. None) 60 (\<lambda>_. demo_scan)
     (snd (run_integrity_scan (\<lambda>_. None) 50 (\<lambda>_. demo_scan) demo_db)))) = 0"
  using integrity_rerun_silent[OF demo_db_ok(1,2) demo_well_scanned surjective_pairing surjective_pairing,
      where mime = "\<lambda>_. None" and tm = 50 and mime' = "\<lambda>_. None" and tm' = 60]
  by simp

end
