(* ===== verification/Path_Resolution.thy ===== *)
theory Path_Resolution
  imports Value_Objects "HOL-Library.Word"
begin

text \<open>
  Paths and symbolic links: the directory tree the agent works on, the kernel's
  walk along a path (what \<open>open\<close>, \<open>stat\<close> and \<open>rename\<close> reach) and
  \<open>pathlib.Path.resolve\<close>, by which \<open>resolve_contained\<close>
  (\<open>infrastructure/filesystem/_quarantine_ops.py\<close>) decides whether a path stays
  below its root. A path is the list of its components from the root directory;
  a tree is an association list from paths to nodes.
\<close>

type_synonym path = "string list"

section \<open>Nodes\<close>

text \<open>\<open>f_mode\<close> are the twelve permission bits of \<open>st_mode\<close> (with set-uid, set-gid
  and sticky); a symbolic link holds its target as written.\<close>

record file_data =
  f_bytes :: string
  f_mode :: "12 word"
  f_uid :: int
  f_gid :: int

datatype node = Regular file_data | Directory | Symlink string

type_synonym tree = "(path \<times> node) list"

text \<open>The errors of the system calls.\<close>

datatype os_fault = EPERM | ENOENT | ENOTDIR | EEXIST | EISDIR | ENOTEMPTY | ELOOP | EOTHER nat

definition node_of :: "tree \<Rightarrow> path \<Rightarrow> node option" where
  "node_of t p = (if p = [] then Some Directory else map_of t p)"

definition is_link :: "tree \<Rightarrow> path \<Rightarrow> bool" where
  "is_link t p = (case node_of t p of Some (Symlink _) \<Rightarrow> True | _ \<Rightarrow> False)"

section \<open>Paths as strings\<close>

definition path_parts :: "string \<Rightarrow> path" where
  "path_parts s = filter (\<lambda>c. c \<noteq> [] \<and> c \<noteq> ''.'') (str_split CHR ''/'' s)"

definition path_str :: "path \<Rightarrow> string" where
  "path_str p = CHR ''/'' # str_join ''/'' p"

definition part_ok :: "string \<Rightarrow> bool" where
  "part_ok c \<longleftrightarrow> c \<noteq> [] \<and> c \<noteq> ''.'' \<and> CHR ''/'' \<notin> set c"

lemma str_split_join:
  "ps \<noteq> [] \<Longrightarrow> list_all (\<lambda>c. sep \<notin> set c) ps \<Longrightarrow> str_split sep (str_join [sep] ps) = ps"
  by (induction "[sep]" ps rule: str_join.induct) (auto simp: str_split_no_sep str_split_append)

lemma path_parts_str [simp]: "list_all part_ok p \<Longrightarrow> path_parts (path_str p) = p"
proof (cases "p = []")
  case False
  assume p: "list_all part_ok p"
  then have "list_all (\<lambda>c. CHR ''/'' \<notin> set c) p" by (auto simp: list_all_iff part_ok_def)
  moreover have "filter (\<lambda>c. c \<noteq> [] \<and> c \<noteq> ''.'') p = p"
    using p by (auto simp: list_all_iff part_ok_def filter_id_conv)
  ultimately show ?thesis using False by (simp add: path_parts_def path_str_def str_split_join)
qed (simp add: path_parts_def path_str_def)

lemma path_parts_ok: "list_all part_ok (path_parts s)"
  by (auto simp: path_parts_def part_ok_def list_all_iff dest: str_split_parts)

section \<open>The kernel's walk\<close>

text \<open>\<open>kwalk n t cur rest\<close> follows the components \<open>rest\<close> from the directory \<open>cur\<close>,
  expanding at most \<open>n\<close> symbolic links, and gives the physical path reached.\<close>

definition link_start :: "path \<Rightarrow> string \<Rightarrow> path" where
  "link_start cur target = (if str_startswith target ''/'' then [] else cur)"

fun kwalk :: "nat \<Rightarrow> tree \<Rightarrow> path \<Rightarrow> string list \<Rightarrow> os_fault + path" where
  "kwalk n t cur [] = Inr cur"
| "kwalk n t cur (c # rest) =
     (if node_of t cur \<noteq> Some Directory then Inl ENOTDIR
      else if c = [] \<or> c = ''.'' then kwalk n t cur rest
      else if c = ''..'' then kwalk n t (butlast cur) rest
      else case node_of t (cur @ [c]) of
             None \<Rightarrow> Inl ENOENT
           | Some (Symlink target) \<Rightarrow>
               (if n = 0 then Inl ELOOP
                else kwalk (n - 1) t (link_start cur target) (str_split CHR ''/'' target @ rest))
           | Some _ \<Rightarrow> kwalk n t (cur @ [c]) rest)"

text \<open>Linux expands 40 links.\<close>

definition max_links :: nat where
  "max_links = 40"

definition kstat :: "tree \<Rightarrow> path \<Rightarrow> os_fault + path" where
  "kstat t p = kwalk max_links t [] p"

section \<open>\<open>Path.resolve\<close>\<close>

text \<open>\<open>os.path.realpath(path, strict=False)\<close>: the second component tells whether
  no loop was found; \<open>seen\<close> are the links being expanded. Links already expanded
  are expanded again here, where the code remembers the result.\<close>

function joinreal :: "tree \<Rightarrow> path list \<Rightarrow> path \<Rightarrow> string list \<Rightarrow> path \<times> bool" where
  "joinreal t seen cur [] = (cur, True)"
| "joinreal t seen cur (c # rest) =
     (if c = [] \<or> c = ''.'' then joinreal t seen cur rest
      else if c = ''..'' then joinreal t seen (butlast cur) rest
      else case node_of t (cur @ [c]) of
             Some (Symlink target) \<Rightarrow>
               (if cur @ [c] \<in> set seen then (cur @ [c] @ rest, False)
                else case joinreal t ((cur @ [c]) # seen) (link_start cur target) (str_split CHR ''/'' target) of
                       (cur', True) \<Rightarrow> joinreal t seen cur' rest
                     | (cur', False) \<Rightarrow> (cur' @ rest, False))
           | _ \<Rightarrow> joinreal t seen (cur @ [c]) rest)"
  by pat_completeness auto

text \<open>Every expansion marks one more link of the tree.\<close>

lemma links_left:
  assumes "node_of t p = Some (Symlink target)" "p \<notin> set seen"
  shows "card (fst ` set t - set (p # seen)) < card (fst ` set t - set seen)"
proof (rule psubset_card_mono)
  have "p \<in> fst ` set t"
    using assms(1) by (auto simp: node_of_def split: if_splits dest!: map_of_SomeD intro: rev_image_eqI)
  then show "fst ` set t - set (p # seen) \<subset> fst ` set t - set seen" using assms(2) by auto
qed simp

termination joinreal
  by (relation "measures [\<lambda>(t, seen, cur, rest). card (fst ` set t - set seen), \<lambda>(t, seen, cur, rest). length rest]")
    (auto simp del: set_simps simp: links_left)

declare joinreal.simps(2) [simp del] kwalk.simps(2) [simp del]

text \<open>\<open>path.resolve(strict=False)\<close>: a loop that a following \<open>stat\<close> runs into is a
  \<open>RuntimeError\<close>.\<close>

definition resolve :: "tree \<Rightarrow> path \<Rightarrow> path res" where
  "resolve t p =
     (let (r, ok) = joinreal t [] [] p
      in if kstat t r = Inl ELOOP then Inl (OtherError (''Symlink loop from '' @ CHR 0x27 # path_str r @ [CHR 0x27])) else Inr r)"

section \<open>What \<open>resolve\<close> gives is physical\<close>

text \<open>A normal path names no \<open>.\<close> or \<open>..\<close>; a path is link-free when no directory on
  the way, nor the node it names, is a symbolic link.\<close>

definition normal :: "path \<Rightarrow> bool" where
  "normal p \<longleftrightarrow> list_all (\<lambda>c. c \<noteq> [] \<and> c \<noteq> ''.'' \<and> c \<noteq> ''..'') p"

definition link_free :: "tree \<Rightarrow> path \<Rightarrow> bool" where
  "link_free t p \<longleftrightarrow> (\<forall>k \<le> length p. \<not> is_link t (take k p))"

lemma link_free_Nil [simp]: "link_free t []"
  by (simp add: link_free_def is_link_def node_of_def)

lemma link_free_snoc: "link_free t (p @ [c]) \<longleftrightarrow> link_free t p \<and> \<not> is_link t (p @ [c])"
  by (auto simp: link_free_def le_Suc_eq)

lemma link_free_butlast: "link_free t p \<Longrightarrow> link_free t (butlast p)"
  by (cases p rule: rev_cases) (simp_all add: link_free_snoc)

lemma link_free_take: "link_free t p \<Longrightarrow> link_free t (take k p)"
  by (auto simp: link_free_def min_def)

lemma normal_simps [simp]:
  "normal []" "normal (p @ q) \<longleftrightarrow> normal p \<and> normal q"
  "normal (c # p) \<longleftrightarrow> c \<noteq> [] \<and> c \<noteq> ''.'' \<and> c \<noteq> ''..'' \<and> normal p"
  by (auto simp: normal_def)

lemma normal_butlast: "normal p \<Longrightarrow> normal (butlast p)"
  by (cases p rule: rev_cases) simp_all

lemma link_start_clean [simp]:
  "normal cur \<Longrightarrow> normal (link_start cur target)"
  "link_free t cur \<Longrightarrow> link_free t (link_start cur target)"
  by (simp_all add: link_start_def)

lemma is_link_cases:
  "is_link t p \<Longrightarrow> (\<And>target. node_of t p = Some (Symlink target) \<Longrightarrow> P) \<Longrightarrow> P"
  by (auto simp: is_link_def split: option.splits node.splits)

text \<open>One component, in the four cases the two walks distinguish.\<close>

lemma joinreal_skip: "c = [] \<or> c = ''.'' \<Longrightarrow> joinreal t seen cur (c # rest) = joinreal t seen cur rest"
  and joinreal_up: "joinreal t seen cur (''..'' # rest) = joinreal t seen (butlast cur) rest"
  and joinreal_down:
    "c \<noteq> [] \<Longrightarrow> c \<noteq> ''.'' \<Longrightarrow> c \<noteq> ''..'' \<Longrightarrow> \<not> is_link t (cur @ [c]) \<Longrightarrow>
     joinreal t seen cur (c # rest) = joinreal t seen (cur @ [c]) rest"
  and joinreal_link:
    "c \<noteq> [] \<Longrightarrow> c \<noteq> ''.'' \<Longrightarrow> c \<noteq> ''..'' \<Longrightarrow> node_of t (cur @ [c]) = Some (Symlink target) \<Longrightarrow>
     joinreal t seen cur (c # rest) =
       (if cur @ [c] \<in> set seen then (cur @ [c] @ rest, False)
        else case joinreal t ((cur @ [c]) # seen) (link_start cur target) (str_split CHR ''/'' target) of
               (cur', True) \<Rightarrow> joinreal t seen cur' rest
             | (cur', False) \<Rightarrow> (cur' @ rest, False))"
  by (auto simp: joinreal.simps(2) is_link_def split: option.splits node.splits)

lemma kwalk_skip: "c = [] \<or> c = ''.'' \<Longrightarrow> node_of t cur = Some Directory \<Longrightarrow> kwalk n t cur (c # rest) = kwalk n t cur rest"
  and kwalk_up: "node_of t cur = Some Directory \<Longrightarrow> kwalk n t cur (''..'' # rest) = kwalk n t (butlast cur) rest"
  and kwalk_down:
    "c \<noteq> [] \<Longrightarrow> c \<noteq> ''.'' \<Longrightarrow> c \<noteq> ''..'' \<Longrightarrow> \<not> is_link t (cur @ [c]) \<Longrightarrow> node_of t cur = Some Directory \<Longrightarrow>
     kwalk n t cur (c # rest) = (if node_of t (cur @ [c]) = None then Inl ENOENT else kwalk n t (cur @ [c]) rest)"
  and kwalk_link:
    "c \<noteq> [] \<Longrightarrow> c \<noteq> ''.'' \<Longrightarrow> c \<noteq> ''..'' \<Longrightarrow> node_of t (cur @ [c]) = Some (Symlink target) \<Longrightarrow>
     node_of t cur = Some Directory \<Longrightarrow>
     kwalk n t cur (c # rest) =
       (if n = 0 then Inl ELOOP
        else kwalk (n - 1) t (link_start cur target) (str_split CHR ''/'' target @ rest))"
  and kwalk_dir: "kwalk n t cur (c # rest) = Inr q \<Longrightarrow> node_of t cur = Some Directory"
  by (auto simp: kwalk.simps(2) is_link_def split: option.splits node.splits if_splits)

text \<open>The four cases as a rule.\<close>

lemma component_cases:
  obtains (skip) "c = [] \<or> c = ''.''" | (up) "c = ''..''"
  | (link) target where "c \<noteq> []" "c \<noteq> ''.''" "c \<noteq> ''..''" "node_of t (cur @ [c]) = Some (Symlink target)"
  | (down) "c \<noteq> []" "c \<noteq> ''.''" "c \<noteq> ''..''" "\<not> is_link t (cur @ [c])"
  by (cases "is_link t (cur @ [c])") (auto elim: is_link_cases)

lemma joinreal_walk_induct [case_names nil skip up loop link down]:
  assumes nil: "\<And>seen cur. P seen cur []"
    and skip: "\<And>seen cur c rest. c = [] \<or> c = ''.'' \<Longrightarrow> P seen cur rest \<Longrightarrow> P seen cur (c # rest)"
    and up: "\<And>seen cur rest. P seen (butlast cur) rest \<Longrightarrow> P seen cur (''..'' # rest)"
    and loop: "\<And>seen cur c rest target. normal [c] \<Longrightarrow> node_of t (cur @ [c]) = Some (Symlink target) \<Longrightarrow>
      cur @ [c] \<in> set seen \<Longrightarrow> P seen cur (c # rest)"
    and link: "\<And>seen cur c rest target. normal [c] \<Longrightarrow> node_of t (cur @ [c]) = Some (Symlink target) \<Longrightarrow>
      cur @ [c] \<notin> set seen \<Longrightarrow>
      P ((cur @ [c]) # seen) (link_start cur target) (str_split CHR ''/'' target) \<Longrightarrow>
      (\<And>q. joinreal t ((cur @ [c]) # seen) (link_start cur target) (str_split CHR ''/'' target) = (q, True) \<Longrightarrow>
        P seen q rest) \<Longrightarrow> P seen cur (c # rest)"
    and down: "\<And>seen cur c rest. normal [c] \<Longrightarrow> \<not> is_link t (cur @ [c]) \<Longrightarrow>
      P seen (cur @ [c]) rest \<Longrightarrow> P seen cur (c # rest)"
  shows "P seen cur rest"
proof -
  have "u = t \<Longrightarrow> P seen cur rest" for u
  proof (induction u seen cur rest rule: joinreal.induct)
    case (2 u seen cur c rest)
    have u: "u = t" using "2.prems" by simp
    note IH = "2.IH"[unfolded u]
    show ?case
    proof (cases rule: component_cases[where c = c and t = t and cur = cur])
      case c: skip
      then show ?thesis using skip[OF c] IH(1) by simp
    next
      case c: up
      then show ?thesis using up IH(2) by simp
    next
      case c: (link target)
      then have n: "normal [c]" by simp
      show ?thesis
      proof (cases "cur @ [c] \<in> set seen")
        case True
        then show ?thesis by (rule loop[OF n c(4)])
      next
        case False
        show ?thesis
          by (rule link[OF n c(4) False]) (use IH(6,7) c False in simp_all)
      qed
    next
      case c: down
      have "P seen (cur @ [c]) rest"
      proof (cases "node_of t (cur @ [c])")
        case None
        then show ?thesis using IH(3) c by simp
      next
        case (Some x)
        then show ?thesis using IH(4,5) c by (cases x) (simp_all add: is_link_def)
      qed
      then show ?thesis using c down by simp
    qed
  qed (simp add: nil)
  then show ?thesis by simp
qed

lemma joinreal_link_free:
  "joinreal t seen cur rest = (r, True) \<Longrightarrow> normal cur \<Longrightarrow> link_free t cur \<Longrightarrow> normal r \<and> link_free t r"
proof (induction seen cur rest arbitrary: r rule: joinreal_walk_induct[where t = t])
  case (skip seen cur c rest)
  then show ?case by (simp add: joinreal_skip)
next
  case (up seen cur rest)
  then show ?case by (simp add: joinreal_up normal_butlast link_free_butlast)
next
  case (loop seen cur c rest target)
  then show ?case by (simp add: joinreal_link)
next
  case (link seen cur c rest target)
  then show ?case by (auto simp: joinreal_link split: prod.splits bool.splits)
next
  case (down seen cur c rest)
  then show ?case by (simp add: joinreal_down link_free_snoc)
qed simp

section \<open>Python's resolution and the kernel's walk agree\<close>

text \<open>Induction over a walk that arrives.\<close>

lemma kwalk_arrives_induct [consumes 1, case_names nil skip up link down]:
  assumes "kwalk n t cur rest = Inr q"
    and nil: "\<And>n. P n q []"
    and skip: "\<And>n cur c rest. c = [] \<or> c = ''.'' \<Longrightarrow> node_of t cur = Some Directory \<Longrightarrow>
      kwalk n t cur rest = Inr q \<Longrightarrow> P n cur rest \<Longrightarrow> P n cur (c # rest)"
    and up: "\<And>n cur rest. node_of t cur = Some Directory \<Longrightarrow> kwalk n t (butlast cur) rest = Inr q \<Longrightarrow>
      P n (butlast cur) rest \<Longrightarrow> P n cur (''..'' # rest)"
    and link: "\<And>n cur c rest target. normal [c] \<Longrightarrow> node_of t cur = Some Directory \<Longrightarrow>
      node_of t (cur @ [c]) = Some (Symlink target) \<Longrightarrow>
      kwalk n t (link_start cur target) (str_split CHR ''/'' target @ rest) = Inr q \<Longrightarrow>
      P n (link_start cur target) (str_split CHR ''/'' target @ rest) \<Longrightarrow> P (Suc n) cur (c # rest)"
    and down: "\<And>n cur c rest. normal [c] \<Longrightarrow> node_of t cur = Some Directory \<Longrightarrow> \<not> is_link t (cur @ [c]) \<Longrightarrow>
      node_of t (cur @ [c]) \<noteq> None \<Longrightarrow> kwalk n t (cur @ [c]) rest = Inr q \<Longrightarrow> P n (cur @ [c]) rest \<Longrightarrow>
      P n cur (c # rest)"
  shows "P n cur rest"
proof -
  have "u = t \<Longrightarrow> kwalk n u cur rest = Inr q \<Longrightarrow> P n cur rest" for u
  proof (induction n u cur rest rule: kwalk.induct)
    case (2 n u cur c rest)
    have u: "u = t" using "2.prems" by simp
    note IH = "2.IH"[unfolded u] and w = "2.prems"(2)[unfolded u]
    have d: "node_of t cur = Some Directory" using w by (rule kwalk_dir)
    show ?case
    proof (cases rule: component_cases[where c = c and t = t and cur = cur])
      case c: skip
      then show ?thesis using skip[OF c d] IH(1) w d by (simp add: kwalk_skip)
    next
      case c: up
      then show ?thesis using up[OF d] IH(2) w d by (simp add: kwalk_up)
    next
      case c: (link target)
      then obtain m where m: "n = Suc m" "kwalk m t (link_start cur target) (str_split CHR ''/'' target @ rest) = Inr q"
        using w d by (cases n) (simp_all add: kwalk_link)
      show ?thesis unfolding m(1)
        by (rule link[OF _ d c(4) m(2)]) (use IH(5) c d m in simp_all)
    next
      case c: down
      then have x: "node_of t (cur @ [c]) \<noteq> None" "kwalk n t (cur @ [c]) rest = Inr q"
        using w d by (simp_all add: kwalk_down split: if_splits)
      then have "P n (cur @ [c]) rest"
        using IH(3,4) c d by (cases "the (node_of t (cur @ [c]))") (auto simp: is_link_def)
      then show ?thesis using down[OF _ d c(4) x] c by simp
    qed
  qed (simp add: nil)
  then show ?thesis using assms(1) by simp
qed

lemma kwalk_mono: "kwalk n t cur rest = Inr q \<Longrightarrow> n \<le> m \<Longrightarrow> kwalk m t cur rest = Inr q"
proof (induction arbitrary: m rule: kwalk_arrives_induct)
  case (link n cur c rest target)
  then show ?case by (cases m) (simp_all add: kwalk_link)
qed (simp_all add: kwalk_skip kwalk_up kwalk_down)

lemma kwalk_unique: "kwalk n t cur rest = Inr q \<Longrightarrow> kwalk m t cur rest = Inr q' \<Longrightarrow> q = q'"
  using kwalk_mono[of n t cur rest q "max n m"] kwalk_mono[of m t cur rest q' "max n m"] by simp

lemma kwalk_append:
  "kwalk n t cur (xs @ ys) = Inr q \<Longrightarrow>
   \<exists>q1 n1. n1 \<le> n \<and> kwalk n1 t cur xs = Inr q1 \<and> kwalk (n - n1) t q1 ys = Inr q"
proof (induction n cur "xs @ ys" arbitrary: xs rule: kwalk_arrives_induct)
  case nil
  then show ?case by auto
next
  case (skip n cur c rest)
  show ?case
  proof (cases xs)
    case Nil
    then show ?thesis using skip by (auto simp: kwalk_skip)
  next
    case (Cons x zs)
    then show ?thesis using skip by (auto simp: kwalk_skip)
  qed
next
  case (up n cur rest)
  then show ?case by (cases xs) (auto simp: kwalk_up)
next
  case (link n cur c rest target)
  show ?case
  proof (cases xs)
    case Nil
    then show ?thesis using link by (auto simp: kwalk_link)
  next
    case (Cons x zs)
    then obtain q1 n1 where q1: "n1 \<le> n" "kwalk n1 t (link_start cur target) (str_split CHR ''/'' target @ zs) = Inr q1"
      "kwalk (n - n1) t q1 ys = Inr q"
      using link(5)[of "str_split CHR ''/'' target @ zs"] link(6) by auto
    then have "kwalk (Suc n1) t cur xs = Inr q1" using link Cons by (simp add: kwalk_link)
    then show ?thesis using q1 by (metis Suc_le_mono diff_Suc_Suc)
  qed
next
  case (down n cur c rest)
  then show ?case by (cases xs) (auto simp: kwalk_down)
qed

text \<open>Along a link-free path the walk stays where the path says.\<close>

lemma kwalk_link_free:
  "kwalk n t cur rest = Inr q \<Longrightarrow> rest = p @ ys \<Longrightarrow> normal p \<Longrightarrow> link_free t (cur @ p) \<Longrightarrow>
   kwalk n t (cur @ p) ys = Inr q"
proof (induction p arbitrary: cur rest)
  case (Cons c p)
  have "\<not> is_link t (cur @ [c])"
    using Cons.prems(4) link_free_take[of t "cur @ c # p" "Suc (length cur)"] by (simp add: link_free_snoc)
  then have "kwalk n t (cur @ [c]) (p @ ys) = Inr q"
    using Cons.prems kwalk_dir[of n t cur c "p @ ys" q] by (simp add: kwalk_down split: if_splits)
  then show ?case using Cons.IH[of "cur @ [c]"] Cons.prems by simp
qed simp

text \<open>Where the kernel arrives, \<open>realpath\<close> arrives at the same place. No link
  being expanded can be walked with the fuel that is left.\<close>

definition unreachable :: "tree \<Rightarrow> nat \<Rightarrow> path \<Rightarrow> bool" where
  "unreachable t n l \<longleftrightarrow> (\<forall>m \<le> n. \<forall>q. kwalk m t (butlast l) [last l] \<noteq> Inr q)"

lemma unreachable_mono: "unreachable t n l \<Longrightarrow> m \<le> n \<Longrightarrow> unreachable t m l"
  by (simp add: unreachable_def)

lemma kwalk_joinreal:
  "kwalk n t cur rest = Inr q \<Longrightarrow> list_all (unreachable t n) seen \<Longrightarrow> joinreal t seen cur rest = (q, True)"
proof (induction n arbitrary: cur rest q seen rule: less_induct)
  case (less n)
  note fuel = less.IH
  show ?case
    using less.prems
  proof (induction rest arbitrary: cur)
    case (Cons c rest)
    have d: "node_of t cur = Some Directory" using Cons.prems(1) by (rule kwalk_dir)
    show ?case
    proof (cases rule: component_cases[where c = c and t = t and cur = cur])
      case skip
      then show ?thesis using Cons d by (simp add: joinreal_skip kwalk_skip)
    next
      case up
      then show ?thesis using Cons d by (simp add: joinreal_up kwalk_up)
    next
      case down
      then show ?thesis using Cons d by (simp add: joinreal_down kwalk_down split: if_splits)
    next
      case (link target)
      obtain q1 n1 where n1: "n1 \<le> n" "kwalk n1 t cur [c] = Inr q1" "kwalk (n - n1) t q1 rest = Inr q"
        using kwalk_append[of n t cur "[c]" rest q] Cons.prems(1) by auto
      have new: "cur @ [c] \<notin> set seen"
        using Cons.prems(2) n1 by (auto simp: list_all_iff unreachable_def)
      define k where "k = (LEAST m. \<exists>q. kwalk m t cur [c] = Inr q)"
      have "\<exists>q. kwalk k t cur [c] = Inr q" unfolding k_def by (rule LeastI) (use n1 in blast)
      then have kq: "kwalk k t cur [c] = Inr q1" using kwalk_unique[OF n1(2)] by blast
      have le: "k \<le> n1" unfolding k_def by (rule Least_le) (use n1 in blast)
      obtain j where j: "k = Suc j" "kwalk j t (link_start cur target) (str_split CHR ''/'' target) = Inr q1"
        using kq d link by (cases k) (simp_all add: kwalk_link)
      have "unreachable t j (cur @ [c])"
        using not_less_Least[of _ "\<lambda>m. \<exists>q. kwalk m t cur [c] = Inr q", folded k_def] j(1)
        by (auto simp: unreachable_def)
      moreover have "list_all (unreachable t j) seen"
        using Cons.prems(2) j(1) le n1(1) by (auto simp: list_all_iff intro: unreachable_mono)
      ultimately have "joinreal t ((cur @ [c]) # seen) (link_start cur target) (str_split CHR ''/'' target) = (q1, True)"
        using fuel[OF _ j(2)] j(1) le n1(1) by simp
      moreover have "joinreal t seen q1 rest = (q, True)"
      proof (rule fuel[OF _ n1(3)])
        show "list_all (unreachable t (n - n1)) seen"
          using Cons.prems(2) by (auto simp: list_all_iff intro: unreachable_mono)
      qed (use j(1) le n1(1) in simp)
      ultimately show ?thesis using link new by (simp add: joinreal_link)
    qed
  qed simp
qed

text \<open>A link found while it is being expanded cannot be walked at all: a walk would
  contain a shorter one. \<open>reaches t l cur rest\<close>: every walk along \<open>l\<close> contains a
  shorter one along \<open>rest\<close> from \<open>cur\<close>.\<close>

definition reaches :: "tree \<Rightarrow> path \<Rightarrow> path \<Rightarrow> string list \<Rightarrow> bool" where
  "reaches t l cur rest \<longleftrightarrow>
     (\<forall>m q. kwalk m t (butlast l) [last l] = Inr q \<longrightarrow> (\<exists>k < m. \<exists>q. kwalk k t cur rest = Inr q))"

lemma reaches_trans:
  "reaches t l (butlast l') [last l'] \<Longrightarrow> reaches t l' cur rest \<Longrightarrow> reaches t l cur rest"
  unfolding reaches_def by (meson less_trans)

lemma reaches_loop:
  assumes "reaches t l (butlast l) [last l]"
  shows "kwalk m t (butlast l) [last l] \<noteq> Inr q"
proof (induction m arbitrary: q rule: less_induct)
  case (less m)
  then show ?case using assms unfolding reaches_def by blast
qed

text \<open>A resolution that succeeds does not depend on the links being expanded.\<close>

lemma joinreal_fewer:
  "joinreal t seen cur rest = (r, True) \<Longrightarrow> set seen' \<subseteq> set seen \<Longrightarrow> joinreal t seen' cur rest = (r, True)"
proof (induction seen cur rest arbitrary: r seen' rule: joinreal_walk_induct[where t = t])
  case (link seen cur c rest target)
  obtain q where q: "joinreal t ((cur @ [c]) # seen) (link_start cur target) (str_split CHR ''/'' target) = (q, True)"
      "joinreal t seen q rest = (r, True)"
    using link.prems(1) link(1-3) by (auto simp: joinreal_link split: prod.splits bool.splits)
  have "joinreal t ((cur @ [c]) # seen') (link_start cur target) (str_split CHR ''/'' target) = (q, True)"
    using link(4)[OF q(1), of "(cur @ [c]) # seen'"] link.prems(2) by auto
  moreover have "joinreal t seen' q rest = (r, True)" using link(5)[OF q] link.prems(2) by blast
  moreover have "cur @ [c] \<notin> set seen'" using link(3) link.prems(2) by blast
  ultimately show ?case using link(1,2) by (simp add: joinreal_link)
next
  case (skip seen cur c rest)
  show ?case using skip(1) skip(2)[of r seen'] skip.prems by (simp add: joinreal_skip)
next
  case (up seen cur rest)
  show ?case using up(1)[of r seen'] up.prems by (simp add: joinreal_up)
next
  case (loop seen cur c rest target)
  then show ?case by (simp add: joinreal_link)
next
  case (down seen cur c rest)
  show ?case using down(1,2) down(3)[of r seen'] down.prems by (simp add: joinreal_down)
qed simp

text \<open>Every link being expanded leads to the present position.\<close>

lemma joinreal_loop:
  "joinreal t seen cur rest = (r, False) \<Longrightarrow> normal cur \<Longrightarrow> link_free t cur \<Longrightarrow>
   list_all (\<lambda>l. reaches t l cur rest) seen \<Longrightarrow> kwalk m t [] r \<noteq> Inr q"
proof (induction seen cur rest arbitrary: r q m rule: joinreal_walk_induct[where t = t])
  case (skip seen cur c rest)
  have "reaches t l cur rest" if "reaches t l cur (c # rest)" for l
    using that skip(1) unfolding reaches_def by (metis kwalk_skip kwalk_dir)
  then show ?case using skip by (simp add: joinreal_skip list_all_iff)
next
  case (up seen cur rest)
  have "reaches t l (butlast cur) rest" if "reaches t l cur (''..'' # rest)" for l
    using that unfolding reaches_def by (metis kwalk_up kwalk_dir)
  then show ?case using up by (simp add: joinreal_up list_all_iff normal_butlast link_free_butlast)
next
  case (down seen cur c rest)
  have "reaches t l (cur @ [c]) rest" if l: "reaches t l cur (c # rest)" for l
    unfolding reaches_def
  proof (intro allI impI)
    fix m q assume "kwalk m t (butlast l) [last l] = Inr q"
    then obtain k q' where "k < m" "kwalk k t cur (c # rest) = Inr q'" using l unfolding reaches_def by blast
    moreover from this have "kwalk k t (cur @ [c]) rest = Inr q'"
      using down(1,2) kwalk_dir[of k t cur c rest q'] by (simp add: kwalk_down split: if_splits)
    ultimately show "\<exists>k < m. \<exists>q. kwalk k t (cur @ [c]) rest = Inr q" by blast
  qed
  then show ?case using down by (simp add: joinreal_down list_all_iff link_free_snoc)
next
  case (loop seen cur c rest target)
  have r: "r = cur @ [c] @ rest" using loop by (simp add: joinreal_link)
  have "reaches t (cur @ [c]) cur (c # rest)" using loop by (auto simp: list_all_iff)
  then have "reaches t (cur @ [c]) (butlast (cur @ [c])) [last (cur @ [c])]"
    unfolding reaches_def using kwalk_append[of _ t cur "[c]" rest] by simp (metis le_less_trans)
  then have none: "kwalk k t cur [c] \<noteq> Inr q'" for k q'
    using reaches_loop[of t "cur @ [c]"] by simp
  show ?case
  proof
    assume w: "kwalk m t [] r = Inr q"
    have "kwalk m t cur (c # rest) = Inr q"
      using kwalk_link_free[OF w, of cur "c # rest"] loop r by simp
    then show False using kwalk_append[of m t cur "[c]" rest q] none by auto
  qed
next
  case (link seen cur c rest target)
  let ?ts = "str_split CHR ''/'' target"
  have into: "\<exists>j < k. \<exists>q1. kwalk j t (link_start cur target) ?ts = Inr q1"
    if w: "kwalk k t cur (c # ys) = Inr q" for k q ys
  proof -
    obtain j where j: "k = Suc j" "kwalk j t (link_start cur target) (?ts @ ys) = Inr q"
      using w link(1,2) kwalk_dir[OF w] by (cases k) (simp_all add: kwalk_link)
    from kwalk_append[OF j(2)] obtain q1 n1 where "n1 \<le> j" "kwalk n1 t (link_start cur target) ?ts = Inr q1"
      by blast
    then show ?thesis using j(1) by (auto simp: less_Suc_eq_le)
  qed
  have "reaches t (cur @ [c]) (link_start cur target) ?ts"
    unfolding reaches_def using into[of _ "[]"] by simp
  moreover have "reaches t l (link_start cur target) ?ts" if l: "reaches t l cur (c # rest)" for l
    using l into[of _ rest] unfolding reaches_def by (meson less_trans)
  ultimately have expand: "list_all (\<lambda>l. reaches t l (link_start cur target) ?ts) ((cur @ [c]) # seen)"
    using link.prems(4) by (simp add: list_all_iff)
  obtain q1 ok where e: "joinreal t ((cur @ [c]) # seen) (link_start cur target) ?ts = (q1, ok)"
    by fastforce
  show ?case
  proof (cases ok)
    case False
    then have "r = q1 @ rest" using link.prems(1) link(1-3) e by (simp add: joinreal_link)
    moreover have "kwalk k t [] q1 \<noteq> Inr q'" for k q'
      using link(4)[OF e[unfolded False[THEN eq_False[THEN iffD2]]] _ _ expand] link.prems(2,3) by simp
    ultimately show ?thesis using kwalk_append[of m t "[]" q1 rest q] by auto
  next
    case True
    have j: "joinreal t seen q1 rest = (r, False)"
      using link.prems(1) link(1-3) e True by (simp add: joinreal_link)
    have q1: "normal q1 \<and> link_free t q1"
      using joinreal_link_free[of t _ "link_start cur target" ?ts q1] e True link.prems(2,3) by simp
    have "reaches t l q1 rest" if l: "reaches t l cur (c # rest)" for l
      unfolding reaches_def
    proof (intro allI impI)
      fix k q assume "kwalk k t (butlast l) [last l] = Inr q"
      then obtain k1 q2 where k1: "k1 < k" "kwalk k1 t cur (c # rest) = Inr q2" using l unfolding reaches_def by blast
      obtain q3 n1 where q3: "kwalk n1 t cur [c] = Inr q3" "kwalk (k1 - n1) t q3 rest = Inr q2"
        using kwalk_append[of k1 t cur "[c]" rest q2] k1(2) by auto
      obtain j where "kwalk j t (link_start cur target) ?ts = Inr q3"
        using q3(1) link(1,2) kwalk_dir[OF q3(1)] by (cases n1) (simp_all add: kwalk_link)
      then have "joinreal t [] (link_start cur target) ?ts = (q3, True)" by (rule kwalk_joinreal) simp
      then have "q3 = q1" using joinreal_fewer[of t _ _ _ q1 "[]"] e True by simp
      then show "\<exists>k' < k. \<exists>q. kwalk k' t q1 rest = Inr q" using q3(2) k1(1) by (meson diff_le_self le_less_trans)
    qed
    then show ?thesis using link(5)[of q1, OF e[unfolded True[THEN eq_True[THEN iffD2]]] j] q1 link.prems(4) by (simp add: list_all_iff)
  qed
qed simp

section \<open>Resolution as a whole\<close>

lemma kstat_link_free: "normal r \<Longrightarrow> link_free t r \<Longrightarrow> kwalk n t [] r = Inr q \<Longrightarrow> q = r"
  using kwalk_link_free[of n t "[]" r q r "[]"] by simp

lemma kwalk_no_eloop: "normal p \<Longrightarrow> link_free t (cur @ p) \<Longrightarrow> kwalk n t cur p \<noteq> Inl ELOOP"
proof (induction p arbitrary: cur)
  case (Cons c p)
  then have c: "\<not> is_link t (cur @ [c])"
    using link_free_take[of t "cur @ c # p" "Suc (length cur)"] by (simp add: link_free_snoc)
  show ?case
  proof (cases "node_of t cur = Some Directory")
    case True
    then show ?thesis using Cons.IH[of "cur @ [c]"] Cons.prems c by (simp add: kwalk_down)
  qed (simp add: kwalk.simps(2))
qed simp

text \<open>What the kernel opens at a path that \<open>resolve\<close> returned is the node at
  exactly this path: no symbolic link leads anywhere else.\<close>

lemma resolve_physical:
  assumes "resolve t p = Inr r" "kstat t r = Inr q"
  shows "q = r \<and> normal r \<and> link_free t r"
proof -
  obtain ok where j: "joinreal t [] [] p = (r, ok)"
    using assms(1) by (auto simp: resolve_def split: prod.splits if_splits)
  have w: "kwalk max_links t [] r = Inr q" using assms(2) by (simp add: kstat_def)
  have "ok"
    using joinreal_loop[of t "[]" "[]" p r max_links q] j w by (cases ok) simp_all
  then have "normal r" "link_free t r" using joinreal_link_free[of t "[]" "[]" p r] j by simp_all
  then show ?thesis using kstat_link_free w by blast
qed

text \<open>Python's resolution and the kernel's walk agree: wherever the kernel gets
  along a path, \<open>resolve\<close> returns the place it gets to.\<close>

theorem resolve_agrees_with_kernel:
  assumes "kstat t p = Inr q"
  shows "resolve t p = Inr q"
proof -
  have j: "joinreal t [] [] p = (q, True)"
    using kwalk_joinreal[of max_links t "[]" p q "[]"] assms by (simp add: kstat_def)
  then have "normal q" "link_free t q" using joinreal_link_free[OF j] by simp_all
  then have "kstat t q \<noteq> Inl ELOOP" using kwalk_no_eloop[of q t "[]"] by (simp add: kstat_def)
  then show ?thesis using j by (simp add: resolve_def)
qed

section \<open>A concrete tree\<close>

text \<open>\<open>www\<close> is a link to \<open>pub\<close>, beside it.\<close>

definition demo_tree :: tree where
  "demo_tree =
     [([''home''], Directory), ([''home'', ''bob''], Directory),
      ([''home'', ''bob'', ''pub''], Directory), ([''home'', ''bob'', ''www''], Symlink ''pub''),
      ([''home'', ''bob'', ''pub'', ''a.php''],
        Regular \<lparr>f_bytes = ''<?php'', f_mode = 420, f_uid = 7, f_gid = 7\<rparr>)]"

definition demo_www :: path where
  "demo_www = [''home'', ''bob'', ''www'', ''a.php'']"

definition demo_pub :: path where
  "demo_pub = [''home'', ''bob'', ''pub'', ''a.php'']"

lemma demo_kstat: "kstat demo_tree demo_www = Inr demo_pub" "kstat demo_tree demo_pub = Inr demo_pub"
  by code_simp+

theorem resolve_agrees_with_kernel_witness: "resolve demo_tree demo_www = Inr demo_pub"
  by (rule resolve_agrees_with_kernel[OF demo_kstat(1)])

end
