(* ===== verification/Detection_Jobs.thy ===== *)
theory Detection_Jobs
  imports Scan_Correctness Path_Resolution
begin

text \<open>
  Three detection use cases that feed the event log:
  \<open>ScanTempDirectoriesUseCase\<close> (\<open>application/forensics/use_cases.py\<close>),
  \<open>AnalyzeWordPressIntegrityUseCase\<close> (\<open>application/wordpress/integrity/use_cases.py\<close>)
  and \<open>RunWordPressForensicScanUseCase\<close>
  (\<open>application/wordpress/forensic/use_cases.py\<close>). The scanners are parameters:
  what a temp-directory scan found, and a function from an installation to its
  forensic findings. A scanner that builds an observation draws its identifier.
\<close>

section \<open>Temp-file observations\<close>

record temp_file_scan_result =
  ts_files_observed :: nat
  ts_events_raised :: nat

fun severity_by_verdict :: "temp_file_verdict \<Rightarrow> severity option" where
  "severity_by_verdict MALICIOUS = Some CRITICAL"
| "severity_by_verdict SUSPICIOUS = Some MEDIUM"
| "severity_by_verdict LEGITIMATE = None"

definition join_rules :: "string list \<Rightarrow> string option" where
  "join_rules ids = (if ids \<noteq> [] then Some (str_join '','' ids) else None)"

definition observation_event ::
    "string \<Rightarrow> datetime \<Rightarrow> severity \<Rightarrow> temp_file_observation \<Rightarrow> uuid \<Rightarrow> security_event" where
  "observation_event version now severity ob i =
     (let path = abs_value (to_absolute_path ob); sha = map_option sha_value (to_sha256 ob)
      in (new_event i now (''temp_file_'' @ str_lower (verdict_value (to_verdict ob))) ''forensics''
            (to_account_id ob) severity
            [(''absolute_path'', JStr path), (''sha256'', opt_str sha),
             (''matched_rule_ids'', JArr (map JStr (to_matched_rule_ids ob))),
             (''owner'', JStr (to_owner ob)), (''verdict_reason'', JStr (to_verdict_reason ob))]
            (to_detected_at ob))
         \<lparr>ev_server_id := to_server_id ob, ev_file_path := Some path, ev_sha256 := sha,
          ev_file_size_bytes := Some (to_size_bytes ob), ev_file_owner := Some (to_owner ob),
          ev_file_permissions := to_file_permissions ob, ev_mime_type := to_mime_type ob,
          ev_scanner_version := Some version,
          ev_detection_rule_id := join_rules (to_matched_rule_ids ob)\<rparr>)"

text \<open>The scanner draws one identifier per observation.\<close>

fun stamp_ids :: "uuid \<Rightarrow> temp_file_observation list \<Rightarrow> temp_file_observation list" where
  "stamp_ids n [] = []"
| "stamp_ids n (ob # obs) = ob\<lparr>eid := n\<rparr> # stamp_ids (Suc n) obs"

fun observe_files ::
    "string \<Rightarrow> datetime \<Rightarrow> temp_file_observation list \<Rightarrow> nat \<Rightarrow> nat \<Rightarrow> db \<Rightarrow> (nat \<times> nat) \<times> db" where
  "observe_files version now [] observed raised d = ((observed, raised), d)"
| "observe_files version now (ob # obs) observed raised d =
     (case observation_get_by_path (abs_value (to_absolute_path ob)) d of
        Some _ \<Rightarrow> observe_files version now obs observed raised d
      | None \<Rightarrow>
          (let d = d\<lparr>tb_observations := tbl_add ob (tb_observations d)\<rparr>
           in case severity_by_verdict (to_verdict ob) of
                None \<Rightarrow> observe_files version now obs (observed + 1) raised d
              | Some severity \<Rightarrow>
                  (let (i, d) = uuid4 d
                   in observe_files version now obs (observed + 1) (raised + 1)
                        (d\<lparr>tb_events := tbl_add (observation_event version now severity ob i) (tb_events d)\<rparr>))))"

definition scan_temp_directories ::
    "string \<Rightarrow> datetime \<Rightarrow> temp_file_observation list \<Rightarrow> db \<Rightarrow> temp_file_scan_result \<times> db" where
  "scan_temp_directories version now found d =
     (let obs = stamp_ids (next_uuid d) found;
          d = d\<lparr>next_uuid := next_uuid d + length found\<rparr>;
          ((observed, raised), d) = observe_files version now obs 0 0 d
      in (\<lparr>ts_files_observed = observed, ts_events_raised = raised\<rparr>, d))"

section \<open>The WordPress integrity audit\<close>

record wordpress_audit_result =
  wa_findings_examined :: nat
  wa_critical_findings_flagged :: nat

definition audit_event :: "datetime \<Rightarrow> integrity_finding \<Rightarrow> uuid \<Rightarrow> security_event" where
  "audit_event now f i =
     (let path = rel_value (fi_relative_path f)
      in (new_event i now ''wordpress_core_file_modified'' ''wordpress'' (Some (fi_account_id f)) CRITICAL
            [(''finding_id'', JStr (uuid_str (eid f))), (''relative_path'', JStr path),
             (''change_type'', JStr (change_type_value (fi_change_type f)))] (fi_detected_at f))
         \<lparr>ev_file_path := Some path, ev_sha256 := map_option sha_value (fi_current_sha256 f),
          ev_detection_rule_id := Some ''wordpress-critical-file'',
          ev_scanner_version := Some ''wordpress-integrity@1''\<rparr>)"

definition audit_escalate :: "datetime \<Rightarrow> integrity_finding \<Rightarrow> db \<Rightarrow> (integrity_finding \<times> db) res" where
  "audit_escalate now f d =
     (if severity_rank (fi_severity f) < severity_rank CRITICAL
      then (case escalate_severity now CRITICAL f of
              Inl e \<Rightarrow> Inl e
            | Inr f \<Rightarrow> Inr (f, d\<lparr>tb_findings := tbl_save f (tb_findings d)\<rparr>))
      else Inr (f, d))"

fun audit_findings ::
    "string list \<Rightarrow> datetime \<Rightarrow> integrity_finding list \<Rightarrow> nat \<Rightarrow> nat \<Rightarrow> db \<Rightarrow> (nat \<times> nat) res \<times> db" where
  "audit_findings critical now [] examined flagged d = (Inr (examined, flagged), d)"
| "audit_findings critical now (f # fs) examined flagged d =
     (if rel_value (fi_relative_path f) \<notin> set critical
      then audit_findings critical now fs examined flagged d
      else if installations_by_account (fi_account_id f) d = []
      then audit_findings critical now fs (examined + 1) flagged d
      else (case audit_escalate now f d of
              Inl e \<Rightarrow> (Inl e, d)
            | Inr (f, d) \<Rightarrow>
                (let (i, d) = uuid4 d
                 in audit_findings critical now fs (examined + 1) (flagged + 1)
                      (d\<lparr>tb_events := tbl_add (audit_event now f i) (tb_events d)\<rparr>))))"

definition analyze_wordpress_integrity ::
    "string list \<Rightarrow> int \<Rightarrow> datetime \<Rightarrow> db \<Rightarrow> wordpress_audit_result res \<times> db" where
  "analyze_wordpress_integrity critical lookback now d =
     (case audit_findings critical now (findings_since (now - lookback * 60000000) 500 d) 0 0 d of
        (Inl e, d) \<Rightarrow> (Inl e, d)
      | (Inr (examined, flagged), d) \<Rightarrow>
          (Inr \<lparr>wa_findings_examined = examined, wa_critical_findings_flagged = flagged\<rparr>, d))"

section \<open>The WordPress forensic scan\<close>

record wordpress_forensic_finding =
  wf_finding_type :: string
  wf_relative_path :: string
  wf_description :: string
  wf_severity :: severity
  wf_matched_rule_ids :: "string list"
  wf_sha256 :: "string option"

record wordpress_forensic_result =
  fr_installations_scanned :: nat
  fr_findings_raised :: nat
  fr_suspicious_cron_alerts :: nat

definition forensic_event :: "string \<Rightarrow> datetime \<Rightarrow> uuid \<Rightarrow> wordpress_forensic_finding \<Rightarrow> uuid \<Rightarrow> security_event" where
  "forensic_event version now account f i =
     (new_event i now (''wordpress_'' @ wf_finding_type f) ''wordpress'' (Some account) (wf_severity f)
        [(''relative_path'', JStr (wf_relative_path f)), (''description'', JStr (wf_description f)),
         (''matched_rule_ids'', JArr (map JStr (wf_matched_rule_ids f)))] now)
     \<lparr>ev_file_path := Some (wf_relative_path f), ev_scanner_version := Some version,
      ev_detection_rule_id := join_rules (wf_matched_rule_ids f)\<rparr>"

definition cron_event :: "datetime \<Rightarrow> uuid \<Rightarrow> wordpress_cron_job \<Rightarrow> uuid \<Rightarrow> security_event" where
  "cron_event now account j i =
     (new_event i now ''wordpress_suspicious_cron'' ''wordpress'' (Some account) HIGH
        [(''command'', JStr (cj_command j)), (''schedule_raw'', JStr (cj_schedule_raw j)),
         (''flag_reason'', opt_str (cj_flag_reason j))] now)
     \<lparr>ev_detection_rule_id := cj_flag_reason j\<rparr>"

text \<open>\<open>Path(root) / relative\<close> as components, and \<open>p.relative_to(home)\<close> as
  \<open>str\<close> prints it: an absolute second operand replaces the first, \<open>..\<close> is kept
  as it is, and a path relative to itself is \<open>.\<close>.\<close>

definition path_joined :: "string \<Rightarrow> string \<Rightarrow> path" where
  "path_joined base rel =
     (if str_startswith rel ''/'' then path_parts rel else path_parts base @ path_parts rel)"

definition relative_to :: "path \<Rightarrow> path \<Rightarrow> string option" where
  "relative_to p home =
     (if take (length home) p \<noteq> home then None
      else if drop (length home) p = [] then Some ''.''
      else Some (str_join ''/'' (drop (length home) p)))"

definition materialize_finding ::
    "datetime \<Rightarrow> cpanel_account \<Rightarrow> wordpress_installation \<Rightarrow> wordpress_forensic_finding \<Rightarrow> db \<Rightarrow>
     unit res \<times> db" where
  "materialize_finding now account w f d =
     (case relative_to (path_joined (abs_value (wi_absolute_path w)) (wf_relative_path f))
             (path_parts (abs_value (ac_home_directory account))) of
        None \<Rightarrow> (Inr (), d)
      | Some rel \<Rightarrow>
          (case relative_file_path rel of
             Inl e \<Rightarrow> (Inl e, d)
           | Inr path \<Rightarrow>
               (case (case wf_sha256 f of
                        None \<Rightarrow> Inr None
                      | Some v \<Rightarrow> if v = [] then Inr None else map_sum id Some (sha256_hash v)) of
                  Inl e \<Rightarrow> (Inl e, d)
                | Inr sha \<Rightarrow>
                    (let (i, d) = uuid4 d
                     in (Inr (), d\<lparr>tb_findings := tbl_add
                          (new_finding i now (eid account) path ADDED CRITICAL None sha now)
                          (tb_findings d)\<rparr>)))))"

fun forensic_findings ::
    "string \<Rightarrow> datetime \<Rightarrow> cpanel_account option \<Rightarrow> wordpress_installation \<Rightarrow>
     wordpress_forensic_finding list \<Rightarrow> db \<Rightarrow> unit res \<times> db" where
  "forensic_findings version now account w [] d = (Inr (), d)"
| "forensic_findings version now account w (f # fs) d =
     (let (i, d) = uuid4 d;
          d = d\<lparr>tb_events := tbl_add (forensic_event version now (wi_account_id w) f i) (tb_events d)\<rparr>
      in case account of
           None \<Rightarrow> forensic_findings version now account w fs d
         | Some a \<Rightarrow>
             if wf_severity f \<noteq> CRITICAL then forensic_findings version now account w fs d
             else (case materialize_finding now a w f d of
                     (Inl e, d) \<Rightarrow> (Inl e, d)
                   | (Inr _, d) \<Rightarrow> forensic_findings version now account w fs d))"

fun cron_alerts :: "datetime \<Rightarrow> uuid \<Rightarrow> wordpress_cron_job list \<Rightarrow> db \<Rightarrow> db" where
  "cron_alerts now account [] d = d"
| "cron_alerts now account (j # js) d =
     (let (i, d) = uuid4 d
      in cron_alerts now account js
           (d\<lparr>tb_events := tbl_add (cron_event now account j i) (tb_events d)\<rparr>))"

fun forensic_installations ::
    "string \<Rightarrow> datetime \<Rightarrow> (wordpress_installation \<Rightarrow> wordpress_forensic_finding list) \<Rightarrow>
     wordpress_installation list \<Rightarrow> wordpress_forensic_result \<Rightarrow> db \<Rightarrow> wordpress_forensic_result res \<times> db" where
  "forensic_installations version now scanner [] r d = (Inr r, d)"
| "forensic_installations version now scanner (w # ws) r d =
     (if \<not> wi_is_active w then forensic_installations version now scanner ws r d
      else (case forensic_findings version now (tbl_get (wi_account_id w) (tb_accounts d)) w (scanner w) d of
              (Inl e, d) \<Rightarrow> (Inl e, d)
            | (Inr _, d) \<Rightarrow>
                (let alerts = filter (\<lambda>j. cj_is_present j \<and> cj_is_suspicious j)
                                (cron_jobs_by_installation (eid w) d)
                 in forensic_installations version now scanner ws
                      \<lparr>fr_installations_scanned = fr_installations_scanned r + 1,
                       fr_findings_raised = fr_findings_raised r + length (scanner w),
                       fr_suspicious_cron_alerts = fr_suspicious_cron_alerts r + length alerts\<rparr>
                      (cron_alerts now (wi_account_id w) alerts d))))"

definition run_wordpress_forensic_scan ::
    "string \<Rightarrow> datetime \<Rightarrow> (wordpress_installation \<Rightarrow> wordpress_forensic_finding list) \<Rightarrow> db \<Rightarrow>
     wordpress_forensic_result res \<times> db" where
  "run_wordpress_forensic_scan version now scanner d =
     forensic_installations version now scanner (tbl_list 10000 0 (tb_installations d))
       \<lparr>fr_installations_scanned = 0, fr_findings_raised = 0, fr_suspicious_cron_alerts = 0\<rparr> d"

section \<open>A temp-directory scan\<close>

text \<open>The observations whose path has not been seen before, each path once.\<close>

fun first_new :: "string set \<Rightarrow> temp_file_observation list \<Rightarrow> temp_file_observation list" where
  "first_new seen [] = []"
| "first_new seen (ob # obs) =
     (let p = abs_value (to_absolute_path ob)
      in if p \<in> seen then first_new seen obs else ob # first_new (insert p seen) obs)"

abbreviation obs_paths :: "temp_file_observation list \<Rightarrow> string set" where
  "obs_paths obs \<equiv> (\<lambda>ob. abs_value (to_absolute_path ob)) ` set obs"

definition alerts :: "string \<Rightarrow> datetime \<Rightarrow> temp_file_observation list \<Rightarrow> security_event list \<Rightarrow> bool" where
  "alerts version now obs es \<longleftrightarrow>
     list_all2 (\<lambda>ob e. \<exists>i s. severity_by_verdict (to_verdict ob) = Some s \<and>
                             e = observation_event version now s ob i)
       (filter (\<lambda>ob. to_verdict ob \<noteq> LEGITIMATE) obs) es"

lemma severity_by_verdict_None [simp]: "severity_by_verdict v = None \<longleftrightarrow> v = LEGITIMATE"
  by (cases v) auto

lemma observation_get_None:
  "observation_get_by_path p d = None \<longleftrightarrow> p \<notin> obs_paths (tb_observations d)"
  by (auto simp: observation_get_by_path_def find_None_iff)

lemma observe_files_effect:
  "\<exists>es. observe_files version now obs n m d =
     ((n + length (first_new (obs_paths (tb_observations d)) obs), m + length es),
      d\<lparr>tb_observations := tb_observations d @ first_new (obs_paths (tb_observations d)) obs,
        tb_events := tb_events d @ es, next_uuid := next_uuid d + length es\<rparr>) \<and>
     alerts version now (first_new (obs_paths (tb_observations d)) obs) es"
proof (induction obs arbitrary: n m d)
  case Nil
  show ?case by (simp add: alerts_def)
next
  case (Cons ob obs)
  let ?p = "abs_value (to_absolute_path ob)"
  let ?d = "d\<lparr>tb_observations := tbl_add ob (tb_observations d)\<rparr>"
  have paths: "obs_paths (tb_observations d @ [ob]) = insert ?p (obs_paths (tb_observations d))"
    by auto
  consider (seen) "?p \<in> obs_paths (tb_observations d)"
    | (quiet) "?p \<notin> obs_paths (tb_observations d)" "to_verdict ob = LEGITIMATE"
    | (loud) s where "?p \<notin> obs_paths (tb_observations d)" "severity_by_verdict (to_verdict ob) = Some s"
    by (cases "severity_by_verdict (to_verdict ob)") auto
  then show ?case
  proof cases
    case seen
    then obtain x where "observation_get_by_path ?p d = Some x"
      using observation_get_None [of ?p d] by (cases "observation_get_by_path ?p d") auto
    then show ?thesis using Cons [of n m d] seen by simp
  next
    case quiet
    then have "observation_get_by_path ?p d = None" by (simp add: observation_get_None)
    then show ?thesis
      using Cons [of "n + 1" m ?d] quiet by (simp add: tbl_add_def paths alerts_def)
  next
    case loud
    then have new: "observation_get_by_path ?p d = None" by (simp add: observation_get_None)
    let ?e = "observation_event version now s ob (next_uuid d)"
    let ?d2 = "?d\<lparr>next_uuid := next_uuid d + 1, tb_events := tb_events d @ [?e]\<rparr>"
    obtain es where es: "observe_files version now obs (n + 1) (m + 1) ?d2 =
       ((n + 1 + length (first_new (obs_paths (tb_observations ?d2)) obs), m + 1 + length es),
        ?d2\<lparr>tb_observations := tb_observations ?d2 @ first_new (obs_paths (tb_observations ?d2)) obs,
          tb_events := tb_events ?d2 @ es, next_uuid := next_uuid ?d2 + length es\<rparr>)"
      "alerts version now (first_new (obs_paths (tb_observations ?d2)) obs) es"
      using Cons [of "n + 1" "m + 1" ?d2] by blast
    have "to_verdict ob \<noteq> LEGITIMATE" using loud(2) by auto
    then have "alerts version now (first_new (obs_paths (tb_observations d)) (ob # obs)) (?e # es)"
      using es(2) loud by (auto simp: alerts_def tbl_add_def paths)
    then show ?thesis
      using es(1) loud new
      by (intro exI [of _ "?e # es"]) (simp add: tbl_add_def uuid4_def paths)
  qed
qed

lemma first_new_known: "obs_paths obs \<subseteq> seen \<Longrightarrow> first_new seen obs = []"
  by (induction obs) auto

lemma first_new_paths: "seen \<union> obs_paths (first_new seen obs) = seen \<union> obs_paths obs"
proof (induction obs arbitrary: seen)
  case (Cons ob obs)
  let ?p = "abs_value (to_absolute_path ob)"
  show ?case
    using Cons [of seen] Cons [of "insert ?p seen"] by (cases "?p \<in> seen") auto
qed simp

lemma stamp_ids_paths [simp]: "obs_paths (stamp_ids n obs) = obs_paths obs"
  by (induction obs arbitrary: n) auto

text \<open>A temp-directory scan records exactly the files whose path was never
  observed before (the first observation of each), raises exactly one event for
  each of them that is not legitimate, CRITICAL for a malicious and MEDIUM for
  a suspicious file, and changes no other table. A later scan that finds only
  known paths records and raises nothing: a file is processed once.\<close>

theorem temp_scan_once:
  assumes run: "scan_temp_directories version now found d = (r, d')"
    and later: "obs_paths found' \<subseteq> obs_paths (tb_observations d) \<union> obs_paths found"
  shows "(\<exists>news es.
      news = first_new (obs_paths (tb_observations d)) (stamp_ids (next_uuid d) found) \<and>
      d' = d\<lparr>tb_observations := tb_observations d @ news, tb_events := tb_events d @ es,
             next_uuid := next_uuid d'\<rparr> \<and>
      alerts version now news es \<and>
      r = \<lparr>ts_files_observed = length news, ts_events_raised = length es\<rparr>) \<and>
    scan_temp_directories version' now' found' d' =
      (\<lparr>ts_files_observed = 0, ts_events_raised = 0\<rparr>, d'\<lparr>next_uuid := next_uuid d' + length found'\<rparr>)"
proof -
  let ?d = "d\<lparr>next_uuid := next_uuid d + length found\<rparr>"
  let ?obs = "stamp_ids (next_uuid d) found"
  let ?news = "first_new (obs_paths (tb_observations d)) ?obs"
  obtain es where es: "observe_files version now ?obs 0 0 ?d =
      ((length ?news, length es), ?d\<lparr>tb_observations := tb_observations d @ ?news,
        tb_events := tb_events d @ es, next_uuid := next_uuid ?d + length es\<rparr>)"
    "alerts version now ?news es"
    using observe_files_effect [of version now ?obs 0 0 ?d] by auto
  have d': "d' = ?d\<lparr>tb_observations := tb_observations d @ ?news,
        tb_events := tb_events d @ es, next_uuid := next_uuid ?d + length es\<rparr>"
    and r: "r = \<lparr>ts_files_observed = length ?news, ts_events_raised = length es\<rparr>"
    using run es(1) by (simp_all add: scan_temp_directories_def)
  let ?d2 = "d'\<lparr>next_uuid := next_uuid d' + length found'\<rparr>"
  have "obs_paths (tb_observations d') = obs_paths (tb_observations d) \<union> obs_paths ?news"
    by (simp add: d' image_Un)
  also have "\<dots> = obs_paths (tb_observations d) \<union> obs_paths found"
    using first_new_paths [of "obs_paths (tb_observations d)" ?obs] by simp
  finally have "obs_paths (stamp_ids (next_uuid d') found') \<subseteq> obs_paths (tb_observations ?d2)"
    using later by simp
  then have none: "first_new (obs_paths (tb_observations ?d2)) (stamp_ids (next_uuid d') found') = []"
    by (rule first_new_known)
  obtain es' where es': "observe_files version' now' (stamp_ids (next_uuid d') found') 0 0 ?d2 =
      ((0, length es'), ?d2\<lparr>tb_events := tb_events ?d2 @ es', next_uuid := next_uuid ?d2 + length es'\<rparr>)"
    "alerts version' now' [] es'"
    using observe_files_effect [of version' now' "stamp_ids (next_uuid d') found'" 0 0 ?d2] none by auto
  moreover have "es' = []" using es'(2) by (simp add: alerts_def)
  ultimately have "scan_temp_directories version' now' found' d' =
      (\<lparr>ts_files_observed = 0, ts_events_raised = 0\<rparr>, ?d2)"
    by (simp add: scan_temp_directories_def)
  moreover have "d' = d\<lparr>tb_observations := tb_observations d @ ?news, tb_events := tb_events d @ es,
             next_uuid := next_uuid d'\<rparr>"
    by (simp add: d')
  ultimately show ?thesis using es(2) r by blast
qed

section \<open>The audit of WordPress core files\<close>

definition escalated :: "datetime \<Rightarrow> integrity_finding \<Rightarrow> integrity_finding" where
  "escalated now f =
     (if fi_severity f = CRITICAL then f else touch now (f\<lparr>fi_severity := CRITICAL\<rparr>))"

definition audit_selects :: "string list \<Rightarrow> db \<Rightarrow> integrity_finding \<Rightarrow> bool" where
  "audit_selects critical d f \<longleftrightarrow>
     rel_value (fi_relative_path f) \<in> set critical \<and> installations_by_account (fi_account_id f) d \<noteq> []"

definition flags :: "datetime \<Rightarrow> integrity_finding list \<Rightarrow> security_event list \<Rightarrow> bool" where
  "flags now fs es \<longleftrightarrow> list_all2 (\<lambda>f e. \<exists>i. e = audit_event now (escalated now f) i) fs es"

lemma escalated_eid [simp]: "eid (escalated now f) = eid f"
  by (simp add: escalated_def)

lemma audit_escalate_eq:
  assumes "distinct (tbl_ids (tb_findings d))" "f \<in> set (tb_findings d)"
  shows "audit_escalate now f d = Inr (escalated now f,
    d\<lparr>tb_findings := map (\<lambda>x. if eid x = eid f then escalated now f else x) (tb_findings d)\<rparr>)"
proof (cases "fi_severity f = CRITICAL")
  case True
  then have same: "escalated now f = f" by (simp add: escalated_def)
  have "map (\<lambda>x. if eid x = eid f then escalated now f else x) (tb_findings d) = tb_findings d"
    using assms same by (intro map_idI) (auto simp: tbl_ids_def distinct_map inj_on_def)
  then show ?thesis
    using True same by (simp add: audit_escalate_def)
next
  case False
  have "severity_rank (fi_severity f) < severity_rank CRITICAL"
    using False by (cases "fi_severity f") auto
  moreover have "eid f \<in> set (tbl_ids (tb_findings d))" using assms(2) by (auto simp: in_tbl_ids)
  ultimately show ?thesis
    using False assms(1)
    by (simp add: audit_escalate_def escalate_severity_def escalated_def tbl_save_map)
qed

lemma audit_findings_effect:
  assumes "distinct (tbl_ids (tb_findings d))" "distinct (map eid fs)" "set fs \<subseteq> set (tb_findings d)"
  shows "\<exists>es. audit_findings critical now fs n m d =
     (Inr (n + length (filter (\<lambda>f. rel_value (fi_relative_path f) \<in> set critical) fs),
           m + length (filter (audit_selects critical d) fs)),
      d\<lparr>tb_findings := map (\<lambda>x. if x \<in> set fs \<and> audit_selects critical d x then escalated now x else x)
                         (tb_findings d),
        tb_events := tb_events d @ es, next_uuid := next_uuid d + length es\<rparr>) \<and>
     flags now (filter (audit_selects critical d) fs) es"
  using assms
proof (induction fs arbitrary: n m d)
  case Nil
  show ?case by (simp add: flags_def)
next
  case (Cons f fs)
  show ?case
  proof (cases "audit_selects critical d f")
    case False
    have same: "map (\<lambda>x. if x \<in> set (f # fs) \<and> audit_selects critical d x then escalated now x else x) (tb_findings d) =
        map (\<lambda>x. if x \<in> set fs \<and> audit_selects critical d x then escalated now x else x) (tb_findings d)"
      using False by auto
    show ?thesis
      using False Cons.IH [of d "if rel_value (fi_relative_path f) \<in> set critical then n + 1 else n" m] Cons.prems
      unfolding same by (auto simp: audit_selects_def)
  next
    case True
    let ?upd = "\<lambda>x. if eid x = eid f then escalated now f else x"
    let ?e = "audit_event now (escalated now f) (next_uuid d)"
    let ?d = "d\<lparr>tb_findings := map ?upd (tb_findings d), next_uuid := next_uuid d + 1,
                tb_events := tb_events d @ [?e]\<rparr>"
    have f: "f \<in> set (tb_findings d)" using Cons.prems by simp
    have others: "eid x \<noteq> eid f" if "x \<in> set fs" for x using that Cons.prems(2) by (auto simp: image_iff)
    have unique: "x = f" if "x \<in> set (tb_findings d)" "eid x = eid f" for x
      using that f Cons.prems(1) by (auto simp: tbl_ids_def distinct_map inj_on_def)
    have sel: "audit_selects critical ?d = audit_selects critical d"
      by (simp add: audit_selects_def installations_by_account_def fun_eq_iff)
    have "tbl_ids (map ?upd (tb_findings d)) = tbl_ids (tb_findings d)"
      by (simp add: tbl_ids_def comp_def if_distrib cong: if_cong)
    moreover have "set fs \<subseteq> set (map ?upd (tb_findings d))"
      using others Cons.prems(3) by force
    ultimately obtain es where es: "audit_findings critical now fs (n + 1) (m + 1) ?d =
       (Inr (n + 1 + length (filter (\<lambda>f. rel_value (fi_relative_path f) \<in> set critical) fs),
             m + 1 + length (filter (audit_selects critical d) fs)),
        ?d\<lparr>tb_findings := map (\<lambda>x. if x \<in> set fs \<and> audit_selects critical d x then escalated now x else x)
                           (map ?upd (tb_findings d)),
          tb_events := tb_events ?d @ es, next_uuid := next_uuid ?d + length es\<rparr>)"
      "flags now (filter (audit_selects critical d) fs) es"
      using Cons.IH [of ?d "n + 1" "m + 1"] Cons.prems sel by auto
    have notin: "escalated now f \<notin> set fs" using others [of "escalated now f"] by auto
    have maps: "map (\<lambda>x. if x \<in> set fs \<and> audit_selects critical d x then escalated now x else x)
          (map ?upd (tb_findings d)) =
        map (\<lambda>x. if x \<in> set (f # fs) \<and> audit_selects critical d x then escalated now x else x) (tb_findings d)"
      using unique notin others True by (auto simp: comp_def)
    have "audit_findings critical now (f # fs) n m d = audit_findings critical now fs (n + 1) (m + 1) ?d"
      using True audit_escalate_eq [OF Cons.prems(1) f, of now]
      by (simp add: audit_selects_def uuid4_def tbl_add_def)
    moreover have "rel_value (fi_relative_path f) \<in> set critical"
      using True by (simp add: audit_selects_def)
    ultimately show ?thesis
      using es True unfolding maps
      by (intro exI [of _ "?e # es"]) (auto simp: flags_def)
  qed
qed

lemma findings_since_listed:
  assumes "distinct (tbl_ids (tb_findings d))"
  shows "distinct (map eid (findings_since since n d))" "set (findings_since since n d) \<subseteq> set (tb_findings d)"
proof -
  have "mset (order_desc fi_detected_at (filter P t)) = mset (filter P t)" for P t
    by (simp add: order_desc_def)
  then have "distinct (map eid (order_desc fi_detected_at (filter P (tb_findings d))))" for P
    using assms by (metis distinct_map_filter mset_eq_imp_distinct_iff mset_map tbl_ids_def)
  then show "distinct (map eid (findings_since since n d))"
    by (simp add: findings_since_def take_map [symmetric])
  show "set (findings_since since n d) \<subseteq> set (tb_findings d)"
    by (auto simp: findings_since_def dest!: in_set_takeD)
qed

lemma audit_exact_core:
  assumes "db_wf d"
  shows "\<exists>es. let recent = findings_since (now - lookback * 60000000) 500 d;
                  picked = filter (audit_selects critical d) recent in
     analyze_wordpress_integrity critical lookback now d =
       (Inr \<lparr>wa_findings_examined = length (filter (\<lambda>f. rel_value (fi_relative_path f) \<in> set critical) recent),
             wa_critical_findings_flagged = length picked\<rparr>,
        d\<lparr>tb_findings := map (\<lambda>f. if f \<in> set picked then escalated now f else f) (tb_findings d),
          tb_events := tb_events d @ es, next_uuid := next_uuid d + length es\<rparr>) \<and>
     flags now picked es"
proof -
  let ?recent = "findings_since (now - lookback * 60000000) 500 d"
  have ids: "distinct (tbl_ids (tb_findings d))"
    using db_wfD(4) [OF assms] by (rule tbl_wf_distinct)
  show ?thesis
    using audit_findings_effect [OF ids findings_since_listed [OF ids], of critical now
        "now - lookback * 60000000" 500 0 0]
    by (auto simp: analyze_wordpress_integrity_def Let_def)
qed

text \<open>C27. The audit never fails, and its effect is exactly this: every finding
  among the 500 latest of the window whose path is on the list of critical
  files and whose account has a WordPress installation is CRITICAL afterwards,
  with one event for each, and no other finding changes.\<close>

theorem wordpress_audit_exact:
  assumes "db_wf d"
  shows "\<exists>es. let recent = findings_since (now - lookback * 60000000) 500 d;
                  picked = filter (audit_selects critical d) recent in
     analyze_wordpress_integrity critical lookback now d =
       (Inr \<lparr>wa_findings_examined = length (filter (\<lambda>f. rel_value (fi_relative_path f) \<in> set critical) recent),
             wa_critical_findings_flagged = length picked\<rparr>,
        d\<lparr>tb_findings := map (\<lambda>f. if f \<in> set picked then escalated now f else f) (tb_findings d),
          tb_events := tb_events d @ es, next_uuid := next_uuid d + length es\<rparr>) \<and>
     flags now picked es"
  by (rule audit_exact_core [OF assms])

section \<open>The forensic scan\<close>

text \<open>A database to which findings and events were appended.\<close>

definition grow :: "db \<Rightarrow> integrity_finding list \<Rightarrow> security_event list \<Rightarrow> db" where
  "grow d nf ne = d\<lparr>tb_findings := tb_findings d @ nf, tb_events := tb_events d @ ne,
     next_uuid := next_uuid d + length nf + length ne\<rparr>"

lemma grow_grow [simp]: "grow (grow d nf ne) nf' ne' = grow d (nf @ nf') (ne @ ne')"
  by (simp add: grow_def)

lemma grow_simps [simp]:
  "tb_accounts (grow d nf ne) = tb_accounts d" "tb_cron_jobs (grow d nf ne) = tb_cron_jobs d"
  "tb_installations (grow d nf ne) = tb_installations d" "grow d [] [] = d"
  by (simp_all add: grow_def)

type_synonym alert_view = "string \<times> uuid option \<times> severity \<times> string option"

definition alert_view :: "security_event \<Rightarrow> alert_view" where
  "alert_view e = (ev_event_type e, ev_account_id e, ev_severity e, ev_file_path e)"

definition finding_alert :: "uuid \<Rightarrow> wordpress_forensic_finding \<Rightarrow> alert_view" where
  "finding_alert account f = (''wordpress_'' @ wf_finding_type f, Some account, wf_severity f, Some (wf_relative_path f))"

definition cron_alert :: "uuid \<Rightarrow> alert_view" where
  "cron_alert account = (''wordpress_suspicious_cron'', Some account, HIGH, None)"

text \<open>Where a critical finding is materialised: the account and the path below
  its home directory.\<close>

definition critical_target ::
    "cpanel_account option \<Rightarrow> wordpress_installation \<Rightarrow> wordpress_forensic_finding \<Rightarrow> (uuid \<times> string) list" where
  "critical_target account w f =
     (case account of
        None \<Rightarrow> []
      | Some a \<Rightarrow>
          if wf_severity f \<noteq> CRITICAL then []
          else (case relative_to (path_joined (abs_value (wi_absolute_path w)) (wf_relative_path f))
                       (path_parts (abs_value (ac_home_directory a))) of
                  None \<Rightarrow> []
                | Some rel \<Rightarrow> [(eid a, rel)]))"

definition materialized :: "datetime \<Rightarrow> (uuid \<times> string) list \<Rightarrow> integrity_finding list \<Rightarrow> bool" where
  "materialized now targets nf \<longleftrightarrow>
     list_all2 (\<lambda>(a, rel) f. \<exists>i sha. f = new_finding i now a (RelativeFilePath rel) ADDED CRITICAL None sha now)
       targets nf"

definition no_up :: "string \<Rightarrow> bool" where
  "no_up s \<longleftrightarrow> ''..'' \<notin> set (str_split CHR ''/'' s)"

text \<open>What the scanner reports: paths below the installation without \<open>..\<close>, and
  hashes that are hashes.\<close>

definition reportable :: "wordpress_installation \<Rightarrow> wordpress_forensic_finding \<Rightarrow> bool" where
  "reportable w f \<longleftrightarrow> no_up (abs_value (wi_absolute_path w)) \<and> no_up (wf_relative_path f) \<and>
     (\<forall>v. wf_sha256 f = Some v \<longrightarrow> v = [] \<or> sha256_pattern (str_lower v))"

lemma path_joined_no_up:
  "no_up base \<Longrightarrow> no_up rel \<Longrightarrow> ''..'' \<notin> set (path_joined base rel)"
  by (auto simp: no_up_def path_joined_def path_parts_def)

lemma path_joined_ok: "list_all part_ok (path_joined base rel)"
  using path_parts_ok by (auto simp: path_joined_def)

text \<open>The relative path names the same file: joined to the home directory it
  gives the path it was taken from, and it is a path \<open>RelativeFilePath\<close>
  accepts.\<close>

lemma relative_to_anchor:
  assumes "relative_to p home = Some rel" "list_all part_ok p" "''..'' \<notin> set p"
  shows "home @ path_parts rel = p" "relative_file_path rel = Inr (RelativeFilePath rel)"
proof -
  let ?tail = "drop (length home) p"
  have p: "p = home @ ?tail"
    using assms(1) by (metis append_take_drop_id option.distinct(1) relative_to_def)
  have ok: "list_all part_ok ?tail" using assms(2) by (auto simp: list_all_iff dest: in_set_dropD)
  have "path_parts rel = ?tail \<and> relative_file_path rel = Inr (RelativeFilePath rel)"
  proof (cases "?tail = []")
    case True
    then have "rel = ''.''" using assms(1) by (auto simp: relative_to_def split: if_splits)
    then show ?thesis
      using True by (simp add: path_parts_def relative_file_path_def str_startswith_def)
  next
    case False
    then have rel: "rel = str_join ''/'' ?tail"
      using assms(1) by (auto simp: relative_to_def split: if_splits)
    have "list_all (\<lambda>c. CHR ''/'' \<notin> set c) ?tail" using ok by (auto simp: list_all_iff part_ok_def)
    then have split: "str_split CHR ''/'' rel = ?tail"
      unfolding rel by (rule str_split_join [OF False])
    have "filter (\<lambda>c. c \<noteq> [] \<and> c \<noteq> ''.'') ?tail = ?tail"
      using ok by (auto simp: list_all_iff part_ok_def filter_id_conv)
    then have parts: "path_parts rel = ?tail" by (simp add: path_parts_def split)
    obtain c cs where hd: "?tail = c # cs" using False by (cases ?tail) auto
    then have c: "part_ok c" using ok by simp
    then obtain x xs where x: "c = x # xs" "x \<noteq> CHR ''/''"
      by (cases c) (auto simp: part_ok_def)
    have "rel = x # xs @ (if cs = [] then [] else CHR ''/'' # str_join ''/'' cs)"
      unfolding rel hd by (cases cs) (simp_all add: x)
    then have "rel \<noteq> []" "\<not> str_startswith rel ''/''" using x(2) by (auto simp: str_startswith_def)
    moreover have "''..'' \<notin> set ?tail" using assms(3) by (auto dest: in_set_dropD)
    ultimately show ?thesis
      using parts by (simp add: relative_file_path_def split)
  qed
  with p show "home @ path_parts rel = p" "relative_file_path rel = Inr (RelativeFilePath rel)"
    by auto
qed

lemma materialize_ok:
  assumes "reportable w f" "wf_severity f = CRITICAL"
  obtains nf where "materialize_finding now a w f d = (Inr (), grow d nf [])"
    "materialized now (critical_target (Some a) w f) nf"
proof (cases "relative_to (path_joined (abs_value (wi_absolute_path w)) (wf_relative_path f))
    (path_parts (abs_value (ac_home_directory a)))")
  case None
  then show ?thesis
    using that [of "[]"] by (simp add: materialize_finding_def critical_target_def materialized_def)
next
  case (Some rel)
  have rel: "relative_file_path rel = Inr (RelativeFilePath rel)"
    using relative_to_anchor(2) [OF Some path_joined_ok] assms(1) path_joined_no_up
    by (auto simp: reportable_def)
  obtain sha where sha: "(case wf_sha256 f of None \<Rightarrow> Inr None
      | Some v \<Rightarrow> if v = [] then Inr None else map_sum id Some (sha256_hash v)) = Inr sha"
  proof (cases "wf_sha256 f")
    case (Some v)
    then have "v = [] \<or> sha256_hash v = Inr (Sha256Hash (str_lower v))"
      using assms(1) by (auto simp: reportable_def sha256_hash_def Let_def)
    then show ?thesis
      using Some that [of "if v = [] then None else Some (Sha256Hash (str_lower v))"] by auto
  qed auto
  show ?thesis
    using that [of "[new_finding (next_uuid d) now (eid a) (RelativeFilePath rel) ADDED CRITICAL None sha now]"]
      Some rel sha assms(2)
    by (auto simp: materialize_finding_def uuid4_def grow_def tbl_add_def critical_target_def materialized_def)
qed

lemma materialized_append:
  "materialized now ts nf \<Longrightarrow> materialized now us ng \<Longrightarrow> materialized now (ts @ us) (nf @ ng)"
  by (simp add: materialized_def list_all2_appendI)

lemma forensic_findings_effect:
  assumes "\<forall>f \<in> set fs. reportable w f"
  shows "\<exists>nf ne. forensic_findings version now account w fs d = (Inr (), grow d nf ne) \<and>
    map alert_view ne = map (finding_alert (wi_account_id w)) fs \<and>
    materialized now (concat (map (critical_target account w) fs)) nf"
  using assms
proof (induction fs arbitrary: d)
  case Nil
  show ?case by (intro exI [of _ "[]"]) (simp add: materialized_def)
next
  case (Cons f fs)
  let ?e = "forensic_event version now (wi_account_id w) f (next_uuid d)"
  let ?d = "grow d [] [?e]"
  have d1: "(snd (uuid4 d))\<lparr>tb_events := tbl_add ?e (tb_events (snd (uuid4 d)))\<rparr> = ?d"
    by (simp add: uuid4_def grow_def tbl_add_def)
  have view: "alert_view ?e = finding_alert (wi_account_id w) f"
    by (simp add: alert_view_def finding_alert_def forensic_event_def new_event_def)
  have "\<exists>ng. forensic_findings version now account w (f # fs) d =
      forensic_findings version now account w fs (grow ?d ng []) \<and>
      materialized now (critical_target account w f) ng"
  proof (cases "account = None \<or> wf_severity f \<noteq> CRITICAL")
    case True
    then have "critical_target account w f = []"
      by (auto simp: critical_target_def split: option.splits)
    then show ?thesis
      using True d1
      by (intro exI [of _ "[]"]) (auto simp: materialized_def uuid4_def Let_def split: option.splits)
  next
    case False
    then obtain a where a: "account = Some a" "wf_severity f = CRITICAL" by auto
    obtain ng where "materialize_finding now a w f ?d = (Inr (), grow ?d ng [])"
      "materialized now (critical_target (Some a) w f) ng"
      using materialize_ok [of w f now a ?d] a Cons.prems by auto
    then show ?thesis
      using a d1 by (intro exI [of _ ng]) (auto simp: uuid4_def Let_def)
  qed
  then obtain ng where ng: "forensic_findings version now account w (f # fs) d =
      forensic_findings version now account w fs (grow ?d ng [])"
      "materialized now (critical_target account w f) ng" by blast
  obtain nf ne where "forensic_findings version now account w fs (grow ?d ng []) =
      (Inr (), grow (grow ?d ng []) nf ne)"
    "map alert_view ne = map (finding_alert (wi_account_id w)) fs"
    "materialized now (concat (map (critical_target account w) fs)) nf"
    using Cons.IH [of "grow ?d ng []"] Cons.prems by auto
  then show ?case
    using ng view materialized_append
    by (intro exI [of _ "ng @ nf"] exI [of _ "?e # ne"]) auto
qed

lemma cron_alerts_effect:
  "\<exists>ne. cron_alerts now account js d = grow d [] ne \<and> map alert_view ne = map (\<lambda>_. cron_alert account) js"
proof (induction js arbitrary: d)
  case Nil
  show ?case by (intro exI [of _ "[]"]) simp
next
  case (Cons j js)
  let ?e = "cron_event now account j (next_uuid d)"
  obtain ne where "cron_alerts now account js (grow d [] [?e]) = grow (grow d [] [?e]) [] ne"
    "map alert_view ne = map (\<lambda>_. cron_alert account) js"
    using Cons by blast
  moreover have "(snd (uuid4 d))\<lparr>tb_events := tbl_add ?e (tb_events (snd (uuid4 d)))\<rparr> = grow d [] [?e]"
    by (simp add: uuid4_def grow_def tbl_add_def)
  then have "cron_alerts now account (j # js) d = cron_alerts now account js (grow d [] [?e])"
    by (simp add: uuid4_def Let_def)
  moreover have "alert_view ?e = cron_alert account"
    by (simp add: alert_view_def cron_alert_def cron_event_def new_event_def)
  ultimately show ?case by (intro exI [of _ "?e # ne"]) simp
qed

definition suspicious_jobs :: "db \<Rightarrow> wordpress_installation \<Rightarrow> wordpress_cron_job list" where
  "suspicious_jobs d w = filter (\<lambda>j. cj_is_present j \<and> cj_is_suspicious j) (cron_jobs_by_installation (eid w) d)"

definition forensic_alerts ::
    "db \<Rightarrow> (wordpress_installation \<Rightarrow> wordpress_forensic_finding list) \<Rightarrow> wordpress_installation \<Rightarrow> alert_view list" where
  "forensic_alerts d scanner w =
     map (finding_alert (wi_account_id w)) (scanner w) @ map (\<lambda>_. cron_alert (wi_account_id w)) (suspicious_jobs d w)"

definition forensic_targets ::
    "db \<Rightarrow> (wordpress_installation \<Rightarrow> wordpress_forensic_finding list) \<Rightarrow> wordpress_installation \<Rightarrow> (uuid \<times> string) list" where
  "forensic_targets d scanner w =
     concat (map (critical_target (tbl_get (wi_account_id w) (tb_accounts d)) w) (scanner w))"

lemma suspicious_jobs_grow [simp]: "suspicious_jobs (grow d nf ne) = suspicious_jobs d"
  by (simp add: fun_eq_iff suspicious_jobs_def cron_jobs_by_installation_def)

lemma forensic_same [simp]:
  "forensic_alerts (grow d nf ne) = forensic_alerts d" "forensic_targets (grow d nf ne) = forensic_targets d"
  by (simp_all add: fun_eq_iff forensic_alerts_def forensic_targets_def)

lemma forensic_installations_effect:
  assumes "\<forall>w \<in> set ws. wi_is_active w \<longrightarrow> (\<forall>f \<in> set (scanner w). reportable w f)"
  shows "\<exists>nf ne. forensic_installations version now scanner ws r d =
      (Inr \<lparr>fr_installations_scanned = fr_installations_scanned r + length (filter wi_is_active ws),
            fr_findings_raised = fr_findings_raised r + length (concat (map scanner (filter wi_is_active ws))),
            fr_suspicious_cron_alerts = fr_suspicious_cron_alerts r +
              length (concat (map (suspicious_jobs d) (filter wi_is_active ws)))\<rparr>, grow d nf ne) \<and>
    map alert_view ne = concat (map (forensic_alerts d scanner) (filter wi_is_active ws)) \<and>
    materialized now (concat (map (forensic_targets d scanner) (filter wi_is_active ws))) nf"
  using assms
proof (induction ws arbitrary: r d)
  case Nil
  show ?case by (intro exI [of _ "[]"]) (simp add: materialized_def)
next
  case (Cons w ws)
  show ?case
  proof (cases "wi_is_active w")
    case False
    then show ?thesis using Cons.IH [of r d] Cons.prems by simp
  next
    case True
    let ?acc = "tbl_get (wi_account_id w) (tb_accounts d)"
    obtain nf ne where f: "forensic_findings version now ?acc w (scanner w) d = (Inr (), grow d nf ne)"
      "map alert_view ne = map (finding_alert (wi_account_id w)) (scanner w)"
      "materialized now (forensic_targets d scanner w) nf"
      using forensic_findings_effect [of "scanner w" w version now ?acc d] True Cons.prems
      by (auto simp: forensic_targets_def)
    obtain nc where c: "cron_alerts now (wi_account_id w) (suspicious_jobs d w) (grow d nf ne) = grow d nf (ne @ nc)"
      "map alert_view nc = map (\<lambda>_. cron_alert (wi_account_id w)) (suspicious_jobs d w)"
      using cron_alerts_effect [of now "wi_account_id w" "suspicious_jobs d w" "grow d nf ne"] by auto
    let ?r = "\<lparr>fr_installations_scanned = fr_installations_scanned r + 1,
               fr_findings_raised = fr_findings_raised r + length (scanner w),
               fr_suspicious_cron_alerts = fr_suspicious_cron_alerts r + length (suspicious_jobs d w)\<rparr>"
    have susp: "filter (\<lambda>j. cj_is_present j \<and> cj_is_suspicious j)
        (cron_jobs_by_installation (eid w) (grow d nf ne)) = suspicious_jobs d w"
      by (simp add: suspicious_jobs_def cron_jobs_by_installation_def)
    have step: "forensic_installations version now scanner (w # ws) r d =
        forensic_installations version now scanner ws ?r (grow d nf (ne @ nc))"
      using True f(1) c(1) by (simp add: susp Let_def)
    obtain nf' ne' where "forensic_installations version now scanner ws ?r (grow d nf (ne @ nc)) =
        (Inr \<lparr>fr_installations_scanned = fr_installations_scanned r + 1 + length (filter wi_is_active ws),
              fr_findings_raised = fr_findings_raised r + length (scanner w) +
                length (concat (map scanner (filter wi_is_active ws))),
              fr_suspicious_cron_alerts = fr_suspicious_cron_alerts r + length (suspicious_jobs d w) +
                length (concat (map (suspicious_jobs d) (filter wi_is_active ws)))\<rparr>,
         grow d (nf @ nf') (ne @ nc @ ne'))"
      "map alert_view ne' = concat (map (forensic_alerts d scanner) (filter wi_is_active ws))"
      "materialized now (concat (map (forensic_targets d scanner) (filter wi_is_active ws))) nf'"
      using Cons.IH [of ?r "grow d nf (ne @ nc)"] Cons.prems by auto
    then show ?thesis
      using True f(2,3) c(2) materialized_append step
      by (intro exI [of _ "nf @ nf'"] exI [of _ "ne @ nc @ ne'"]) (auto simp: forensic_alerts_def [of d scanner w])
  qed
qed

text \<open>The forensic scan never fails on what its scanner reports, alerts on
  every forensic finding and on every suspicious cron job that is still present
  of every active installation, and turns exactly the CRITICAL findings inside
  their account's home directory into integrity findings: new, CRITICAL,
  \<open>ADDED\<close> (so open to quarantine), at the same file seen from the home
  directory. It touches no other table.\<close>

theorem wordpress_forensic_exact:
  assumes run: "run_wordpress_forensic_scan version now scanner d = (r, d')"
    and active: "active = filter wi_is_active (tbl_list 10000 0 (tb_installations d))"
    and ok: "\<forall>w \<in> set active. \<forall>f \<in> set (scanner w). reportable w f"
  shows "r = Inr \<lparr>fr_installations_scanned = length active,
       fr_findings_raised = length (concat (map scanner active)),
       fr_suspicious_cron_alerts = length (concat (map (suspicious_jobs d) active))\<rparr> \<and>
    (\<exists>nf ne. d' = grow d nf ne \<and>
       map alert_view ne = concat (map (forensic_alerts d scanner) active) \<and>
       materialized now (concat (map (forensic_targets d scanner) active)) nf) \<and>
    (\<forall>w \<in> set active. \<forall>f \<in> set (scanner w). \<forall>a rel.
       (eid a, rel) \<in> set (critical_target (Some a) w f) \<longrightarrow>
       path_parts (abs_value (ac_home_directory a)) @ path_parts rel =
         path_joined (abs_value (wi_absolute_path w)) (wf_relative_path f))"
proof -
  have "\<forall>w \<in> set (tbl_list 10000 0 (tb_installations d)).
      wi_is_active w \<longrightarrow> (\<forall>f \<in> set (scanner w). reportable w f)"
    using ok by (simp add: active)
  from forensic_installations_effect [OF this, of version now
      "\<lparr>fr_installations_scanned = 0, fr_findings_raised = 0, fr_suspicious_cron_alerts = 0\<rparr>" d]
  have "r = Inr \<lparr>fr_installations_scanned = length active,
       fr_findings_raised = length (concat (map scanner active)),
       fr_suspicious_cron_alerts = length (concat (map (suspicious_jobs d) active))\<rparr> \<and>
    (\<exists>nf ne. d' = grow d nf ne \<and>
       map alert_view ne = concat (map (forensic_alerts d scanner) active) \<and>
       materialized now (concat (map (forensic_targets d scanner) active)) nf)"
    using run by (auto simp: run_wordpress_forensic_scan_def active)
  moreover have "path_parts (abs_value (ac_home_directory a)) @ path_parts rel =
         path_joined (abs_value (wi_absolute_path w)) (wf_relative_path f)"
    if "w \<in> set active" "f \<in> set (scanner w)" "(eid a, rel) \<in> set (critical_target (Some a) w f)" for w f a rel
  proof -
    have "relative_to (path_joined (abs_value (wi_absolute_path w)) (wf_relative_path f))
        (path_parts (abs_value (ac_home_directory a))) = Some rel"
      using that(3) by (auto simp: critical_target_def split: if_splits option.splits)
    moreover have "''..'' \<notin> set (path_joined (abs_value (wi_absolute_path w)) (wf_relative_path f))"
      using ok that(1,2) path_joined_no_up by (auto simp: reportable_def)
    ultimately show ?thesis
      by (rule relative_to_anchor(1) [OF _ path_joined_ok])
  qed
  ultimately show ?thesis by blast
qed

section \<open>The theorems at work\<close>

definition demo_obs :: "string \<Rightarrow> temp_file_verdict \<Rightarrow> temp_file_observation" where
  "demo_obs path v = \<lparr>eid = 0, created_at = 0, updated_at = 0, to_absolute_path = AbsoluteFilePath path,
     to_sha256 = None, to_owner = ''bob'', to_size_bytes = 3, to_verdict = v, to_verdict_reason = ''rule'',
     to_matched_rule_ids = [''rce''], to_process = None, to_account_id = None, to_detected_at = 7,
     to_file_permissions = None, to_mime_type = None, to_server_id = None\<rparr>"

lemma demo_obs_path: "abs_value (to_absolute_path (demo_obs p v)) = p"
  by (simp add: demo_obs_def)

theorem temp_scan_once_witness:
  "let found = [demo_obs ''/tmp/a.php'' MALICIOUS, demo_obs ''/tmp/b.php'' LEGITIMATE,
                demo_obs ''/tmp/a.php'' MALICIOUS];
       (r, d) = scan_temp_directories ''1.0.0'' 10 found empty_db
   in r = \<lparr>ts_files_observed = 2, ts_events_raised = 1\<rparr> \<and>
      scan_temp_directories ''1.0.0'' 20 [demo_obs ''/tmp/b.php'' SUSPICIOUS] d =
        (\<lparr>ts_files_observed = 0, ts_events_raised = 0\<rparr>, d\<lparr>next_uuid := next_uuid d + 1\<rparr>)"
proof -
  let ?found = "[demo_obs ''/tmp/a.php'' MALICIOUS, demo_obs ''/tmp/b.php'' LEGITIMATE,
                demo_obs ''/tmp/a.php'' MALICIOUS]"
  let ?run = "scan_temp_directories ''1.0.0'' 10 ?found empty_db"
  have "fst ?run = \<lparr>ts_files_observed = 2, ts_events_raised = 1\<rparr>"
    by (simp add: scan_temp_directories_def demo_obs_def empty_db_def observation_get_by_path_def
        tbl_add_def uuid4_def)
  moreover have "scan_temp_directories ''1.0.0'' 20 [demo_obs ''/tmp/b.php'' SUSPICIOUS] (snd ?run) =
      (\<lparr>ts_files_observed = 0, ts_events_raised = 0\<rparr>, (snd ?run)\<lparr>next_uuid := next_uuid (snd ?run) + 1\<rparr>)"
    using temp_scan_once [where version = "''1.0.0''" and now = 10 and found = ?found and d = empty_db
        and d' = "snd ?run" and version' = "''1.0.0''" and now' = 20
        and found' = "[demo_obs ''/tmp/b.php'' SUSPICIOUS]", OF prod.collapse [symmetric]]
    by (simp add: demo_obs_path)
  ultimately show ?thesis by (simp add: case_prod_beta Let_def)
qed

definition demo_home :: cpanel_account where
  "demo_home = \<lparr>eid = 1, created_at = 0, updated_at = 0, ac_server_id = 0,
     ac_username = LinuxUsername ''bob'', ac_primary_domain = DomainName ''a.org'',
     ac_home_directory = AbsoluteFilePath ''/home/bob'', ac_is_suspended = False,
     ac_last_seen_at = 0, ac_is_active = True\<rparr>"

definition demo_site :: wordpress_installation where
  "demo_site = \<lparr>eid = 2, created_at = 0, updated_at = 0, wi_account_id = 1,
     wi_absolute_path = AbsoluteFilePath ''/home/bob/public_html'', wi_domain = None, wi_wp_version = None,
     wi_is_multisite = False, wi_last_seen_at = 0, wi_is_active = True, wi_php_version = None\<rparr>"

definition demo_job_db :: db where
  "demo_job_db = empty_db\<lparr>tb_accounts := [demo_home], tb_installations := [demo_site],
     tb_findings := [new_finding 3 0 1 (RelativeFilePath ''wp-content/db.php'') ADDED MEDIUM None None 5,
                     new_finding 4 0 1 (RelativeFilePath ''notes.txt'') ADDED MEDIUM None None 6],
     next_uuid := 5\<rparr>"

theorem wordpress_audit_exact_witness:
  "let (r, d) = analyze_wordpress_integrity [''wp-content/db.php''] 30 10 demo_job_db
   in r = Inr \<lparr>wa_findings_examined = 1, wa_critical_findings_flagged = 1\<rparr> \<and>
      map fi_severity (tb_findings d) = [CRITICAL, MEDIUM] \<and> length (tb_events d) = 1"
proof -
  have wf: "db_wf demo_job_db"
    by (simp add: demo_job_db_def db_wf_def empty_db_def tbl_wf_def demo_home_def demo_site_def)
  have recent: "findings_since (10 - 30 * 60000000) 500 demo_job_db =
      [new_finding 4 0 1 (RelativeFilePath ''notes.txt'') ADDED MEDIUM None None 6,
       new_finding 3 0 1 (RelativeFilePath ''wp-content/db.php'') ADDED MEDIUM None None 5]"
    by (simp add: demo_job_db_def findings_since_def order_desc_def new_finding_def)
  obtain es where "analyze_wordpress_integrity [''wp-content/db.php''] 30 10 demo_job_db =
      (Inr \<lparr>wa_findings_examined = 1, wa_critical_findings_flagged = 1\<rparr>,
       demo_job_db\<lparr>tb_findings := [escalated 10 (tb_findings demo_job_db ! 0), tb_findings demo_job_db ! 1],
         tb_events := es, next_uuid := 5 + length es\<rparr>)" "length es = 1"
    using wordpress_audit_exact [OF wf, where critical = "[''wp-content/db.php'']" and now = 10 and lookback = 30]
    unfolding recent
    by (auto simp: Let_def audit_selects_def installations_by_account_def demo_job_db_def demo_site_def
        new_finding_def empty_db_def flags_def list_all2_Cons1)
  then show ?thesis
    by (simp add: demo_job_db_def escalated_def new_finding_def touch_def)
qed

definition demo_backdoor :: wordpress_forensic_finding where
  "demo_backdoor = \<lparr>wf_finding_type = ''dropin'', wf_relative_path = ''wp-content/db.php'',
     wf_description = ''drop-in'', wf_severity = CRITICAL, wf_matched_rule_ids = [], wf_sha256 = None\<rparr>"

theorem wordpress_forensic_exact_witness:
  "let (r, d) = run_wordpress_forensic_scan ''1.0.0'' 10 (\<lambda>_. [demo_backdoor]) demo_job_db
   in r = Inr \<lparr>fr_installations_scanned = 1, fr_findings_raised = 1, fr_suspicious_cron_alerts = 0\<rparr> \<and>
      map (\<lambda>f. (fi_account_id f, rel_value (fi_relative_path f))) (drop 2 (tb_findings d)) =
        [(1, ''public_html/wp-content/db.php'')]"
proof -
  let ?run = "run_wordpress_forensic_scan ''1.0.0'' 10 (\<lambda>_. [demo_backdoor]) demo_job_db"
  have active: "[demo_site] = filter wi_is_active (tbl_list 10000 0 (tb_installations demo_job_db))"
    by (simp add: demo_job_db_def tbl_list_def demo_site_def)
  have "\<forall>w \<in> set [demo_site]. \<forall>f \<in> set [demo_backdoor]. reportable w f"
    by (simp add: reportable_def no_up_def demo_site_def demo_backdoor_def)
  note exact = wordpress_forensic_exact [where version = "''1.0.0''" and now = 10, OF prod.collapse [symmetric] active this]
  obtain nf ne where d: "snd ?run = grow demo_job_db nf ne"
    and "materialized 10 (forensic_targets demo_job_db (\<lambda>_. [demo_backdoor]) demo_site) nf"
    using exact by auto
  moreover have "forensic_targets demo_job_db (\<lambda>_. [demo_backdoor]) demo_site =
      [(1, ''public_html/wp-content/db.php'')]"
    by (simp add: forensic_targets_def critical_target_def demo_job_db_def demo_site_def demo_home_def
        demo_backdoor_def path_joined_def path_parts_def relative_to_def str_startswith_def)
  ultimately have "map (\<lambda>f. (fi_account_id f, rel_value (fi_relative_path f))) (drop 2 (tb_findings (snd ?run))) =
      [(1, ''public_html/wp-content/db.php'')]"
    by (auto simp: materialized_def list_all2_Cons1 grow_def demo_job_db_def new_finding_def)
  moreover have "fst ?run = Inr \<lparr>fr_installations_scanned = 1, fr_findings_raised = 1, fr_suspicious_cron_alerts = 0\<rparr>"
    using exact by (simp add: suspicious_jobs_def cron_jobs_by_installation_def demo_job_db_def empty_db_def)
  ultimately show ?thesis by (simp add: case_prod_beta)
qed

end
