(* ===== verification/Remediation.thy ===== *)
theory Remediation
  imports Scan_Correctness
begin

text \<open>
  The remediation use cases of \<open>application/integrity/use_cases.py\<close>:
  \<open>QuarantineFindingUseCase\<close>, \<open>RestoreFindingUseCase\<close> and
  \<open>DeleteFindingUseCase\<close>. They act on the database and, through the port
  \<open>FileRemediator\<close> (\<open>domain/integrity/ports.py\<close>), on a file system whose state
  has the type \<open>'fs\<close>. A use case returns its result or the exception it raises,
  with both states as they are at that moment: what it wrote before it raised
  is still in the session, and whether that is committed is its caller's
  business.
\<close>

section \<open>The port\<close>

record 'fs file_remediator =
  rm_quarantine :: "cpanel_account \<Rightarrow> relative_file_path \<Rightarrow> string \<Rightarrow> severity \<Rightarrow> datetime \<Rightarrow> 'fs \<Rightarrow>
                      quarantined_file res \<times> 'fs"
  rm_restore :: "cpanel_account \<Rightarrow> relative_file_path \<Rightarrow> string \<Rightarrow> string \<Rightarrow> int option \<Rightarrow> int option \<Rightarrow> 'fs \<Rightarrow>
                      unit res \<times> 'fs"
  rm_purge :: "string \<Rightarrow> 'fs \<Rightarrow> unit res \<times> 'fs"

section \<open>Helpers\<close>

definition load_finding :: "uuid \<Rightarrow> db \<Rightarrow> integrity_finding res" where
  "load_finding i d =
     (case tbl_get i (tb_findings d) of
        None \<Rightarrow> Inl (EntityNotFoundError ''IntegrityFinding'' i)
      | Some f \<Rightarrow> Inr f)"

definition load_account :: "uuid \<Rightarrow> db \<Rightarrow> cpanel_account res" where
  "load_account i d =
     (case tbl_get i (tb_accounts d) of
        None \<Rightarrow> Inl (EntityNotFoundError ''CpanelAccount'' i)
      | Some a \<Rightarrow> Inr a)"

definition record_remediation_action ::
    "datetime \<Rightarrow> integrity_finding \<Rightarrow> remediation_action_type \<Rightarrow> remediation_outcome \<Rightarrow> string option \<Rightarrow>
     db \<Rightarrow> db" where
  "record_remediation_action now f action_type outcome detail d =
     (let (i, d) = uuid4 d
      in d\<lparr>tb_actions := tbl_add
             \<lparr>eid = i, created_at = now, updated_at = now, ra_finding_id = eid f,
              ra_account_id = fi_account_id f, ra_relative_path = fi_relative_path f,
              ra_action_type = action_type, ra_outcome = outcome, ra_detail = detail,
              ra_performed_at = now\<rparr> (tb_actions d)\<rparr>)"

definition save_finding :: "integrity_finding \<Rightarrow> db \<Rightarrow> db" where
  "save_finding f d = d\<lparr>tb_findings := tbl_save f (tb_findings d)\<rparr>"

definition save_baseline :: "file_baseline \<Rightarrow> db \<Rightarrow> db" where
  "save_baseline b d = d\<lparr>tb_baselines := tbl_save b (tb_baselines d)\<rparr>"

section \<open>The use cases\<close>

definition quarantine_finding ::
    "'fs file_remediator \<Rightarrow> datetime \<Rightarrow> uuid \<Rightarrow> string \<Rightarrow> db \<Rightarrow> 'fs \<Rightarrow>
     integrity_finding res \<times> db \<times> 'fs" where
  "quarantine_finding rm now i triggered_by d fs =
     (case load_finding i d of Inl e \<Rightarrow> (Inl e, d, fs) | Inr f \<Rightarrow>
      case load_account (fi_account_id f) d of Inl e \<Rightarrow> (Inl e, d, fs) | Inr account \<Rightarrow>
      case ensure_can_quarantine f of Inl e \<Rightarrow> (Inl e, d, fs) | Inr _ \<Rightarrow>
      case rm_quarantine rm account (fi_relative_path f)
             (change_type_value (fi_change_type f) @ '' file change'') (fi_severity f)
             (fi_detected_at f) fs of
        (Inl (FileRemediationError m), fs) \<Rightarrow>
          (Inl (FileRemediationError m),
           record_remediation_action now f QUARANTINE FAILED (Some (triggered_by @ '': '' @ m)) d, fs)
      | (Inl e, fs) \<Rightarrow> (Inl e, d, fs)
      | (Inr q, fs) \<Rightarrow>
          (case quarantine now q f of Inl e \<Rightarrow> (Inl e, d, fs) | Inr f \<Rightarrow>
           let d = save_finding f d;
               d = (case baseline_get_by_account_and_path (fi_account_id f) (fi_relative_path f) d of
                      None \<Rightarrow> d
                    | Some b \<Rightarrow> if fb_is_active b then save_baseline (baseline_mark_removed now now b) d else d);
               d = record_remediation_action now f QUARANTINE SUCCEEDED
                     (Some (triggered_by @ '': '' @ qf_quarantine_path q)) d
           in (Inr f, d, fs)))"

text \<open>\<open>finding.quarantine_size_bytes or baseline.size_bytes\<close>.\<close>

definition int_or :: "int option \<Rightarrow> int \<Rightarrow> int" where
  "int_or x y = (case x of None \<Rightarrow> y | Some n \<Rightarrow> if n = 0 then y else n)"

definition restore_finding ::
    "'fs file_remediator \<Rightarrow> datetime \<Rightarrow> uuid \<Rightarrow> db \<Rightarrow> 'fs \<Rightarrow> integrity_finding res \<times> db \<times> 'fs" where
  "restore_finding rm now i d fs =
     (case load_finding i d of Inl e \<Rightarrow> (Inl e, d, fs) | Inr f \<Rightarrow>
      case load_account (fi_account_id f) d of Inl e \<Rightarrow> (Inl e, d, fs) | Inr account \<Rightarrow>
      case ensure_can_restore f of Inl e \<Rightarrow> (Inl e, d, fs) | Inr _ \<Rightarrow>
      case fi_quarantine_path f of None \<Rightarrow> (Inl AssertionError, d, fs) | Some path \<Rightarrow>
      case fi_quarantine_mode f of None \<Rightarrow> (Inl AssertionError, d, fs) | Some mode \<Rightarrow>
      case rm_restore rm account (fi_relative_path f) path mode (fi_quarantine_owner_uid f)
             (fi_quarantine_owner_gid f) fs of
        (Inl (FileRemediationError m), fs) \<Rightarrow>
          (Inl (FileRemediationError m),
           record_remediation_action now f RESTORE FAILED (Some m) d, fs)
      | (Inl e, fs) \<Rightarrow> (Inl e, d, fs)
      | (Inr _, fs) \<Rightarrow>
          (let d = (case baseline_get_by_account_and_path (fi_account_id f) (fi_relative_path f) d of
                      None \<Rightarrow> d
                    | Some b \<Rightarrow>
                        (case fi_current_sha256 f of None \<Rightarrow> d | Some sha \<Rightarrow>
                           save_baseline
                             (baseline_reactivate now sha
                                (int_or (fi_quarantine_size_bytes f) (fb_size_bytes b)) mode now b) d))
           in case restore now f of Inl e \<Rightarrow> (Inl e, d, fs) | Inr f \<Rightarrow>
              (Inr f, record_remediation_action now f RESTORE SUCCEEDED None (save_finding f d), fs)))"

definition delete_quarantined_finding ::
    "'fs file_remediator \<Rightarrow> datetime \<Rightarrow> uuid \<Rightarrow> db \<Rightarrow> 'fs \<Rightarrow> integrity_finding res \<times> db \<times> 'fs" where
  "delete_quarantined_finding rm now i d fs =
     (case load_finding i d of Inl e \<Rightarrow> (Inl e, d, fs) | Inr f \<Rightarrow>
      case ensure_can_delete f of Inl e \<Rightarrow> (Inl e, d, fs) | Inr _ \<Rightarrow>
      case fi_quarantine_path f of None \<Rightarrow> (Inl AssertionError, d, fs) | Some path \<Rightarrow>
      case rm_purge rm path fs of
        (Inl (FileRemediationError m), fs) \<Rightarrow>
          (Inl (FileRemediationError m),
           record_remediation_action now f DELETE FAILED (Some m) d, fs)
      | (Inl e, fs) \<Rightarrow> (Inl e, d, fs)
      | (Inr _, fs) \<Rightarrow>
          (case delete_finding now f of Inl e \<Rightarrow> (Inl e, d, fs) | Inr f \<Rightarrow>
           (Inr f, record_remediation_action now f DELETE SUCCEEDED None (save_finding f d), fs)))"

section \<open>Facts about the helpers\<close>

definition action_row ::
    "uuid \<Rightarrow> datetime \<Rightarrow> integrity_finding \<Rightarrow> remediation_action_type \<Rightarrow> remediation_outcome \<Rightarrow>
     string option \<Rightarrow> remediation_action" where
  "action_row i now f action_type outcome detail =
     \<lparr>eid = i, created_at = now, updated_at = now, ra_finding_id = eid f,
      ra_account_id = fi_account_id f, ra_relative_path = fi_relative_path f,
      ra_action_type = action_type, ra_outcome = outcome, ra_detail = detail, ra_performed_at = now\<rparr>"

lemma record_action_eq:
  "record_remediation_action now f ty outc detail d =
     d\<lparr>next_uuid := Suc (next_uuid d),
       tb_actions := tb_actions d @ [action_row (next_uuid d) now f ty outc detail]\<rparr>"
  by (simp add: record_remediation_action_def uuid4_def tbl_add_def action_row_def)

lemma record_action_simps [simp]:
  "tb_findings (record_remediation_action now f ty outc detail d) = tb_findings d"
  "tb_baselines (record_remediation_action now f ty outc detail d) = tb_baselines d"
  "tb_events (record_remediation_action now f ty outc detail d) = tb_events d"
  "tb_accounts (record_remediation_action now f ty outc detail d) = tb_accounts d"
  "tb_actions (record_remediation_action now f ty outc detail d) =
     tb_actions d @ [action_row (next_uuid d) now f ty outc detail]"
  by (simp_all add: record_action_eq)

lemma save_simps [simp]:
  "tb_findings (save_finding f d) = tbl_save f (tb_findings d)"
  "tb_baselines (save_finding f d) = tb_baselines d"
  "tb_events (save_finding f d) = tb_events d"
  "tb_accounts (save_finding f d) = tb_accounts d"
  "tb_actions (save_finding f d) = tb_actions d"
  "next_uuid (save_finding f d) = next_uuid d"
  "tb_findings (save_baseline b d) = tb_findings d"
  "tb_baselines (save_baseline b d) = tbl_save b (tb_baselines d)"
  "tb_events (save_baseline b d) = tb_events d"
  "tb_accounts (save_baseline b d) = tb_accounts d"
  "tb_actions (save_baseline b d) = tb_actions d"
  "next_uuid (save_baseline b d) = next_uuid d"
  by (simp_all add: save_finding_def save_baseline_def)

lemma baseline_lookup_cong [simp]:
  "baseline_get_by_account_and_path a p (save_finding f d) = baseline_get_by_account_and_path a p d"
  "baselines_by_account a (save_finding f d) = baselines_by_account a d"
  "baselines_by_account a (record_remediation_action now f ty outc detail d) = baselines_by_account a d"
  "baselines_unique (save_finding f d) = baselines_unique d"
  "baselines_unique (record_remediation_action now f ty outc detail d) = baselines_unique d"
  by (simp_all add: baseline_get_by_account_and_path_def baselines_by_account_def baselines_unique_def)

lemma load_finding_Inr: "load_finding i d = Inr f \<longleftrightarrow> tbl_get i (tb_findings d) = Some f"
  by (auto simp: load_finding_def split: option.splits)

lemma load_account_Inr: "load_account i d = Inr a \<longleftrightarrow> tbl_get i (tb_accounts d) = Some a"
  by (auto simp: load_account_def split: option.splits)

lemma action_row_eid [simp]: "eid (action_row i now f ty outc detail) = i"
  by (simp add: action_row_def)

lemma record_action_wf [simp]:
  "db_wf d \<Longrightarrow> db_wf (record_remediation_action now f ty outc detail d)"
  using tbl_wf_add[of "next_uuid d" "tb_actions d" "action_row (next_uuid d) now f ty outc detail"
      "Suc (next_uuid d)"] db_wf_uuid4[of d]
  by (auto simp: db_wf_def record_action_eq tbl_add_def)

lemma save_finding_wf:
  "db_wf d \<Longrightarrow> eid f \<in> set (tbl_ids (tb_findings d)) \<Longrightarrow> db_wf (save_finding f d)"
  by (auto simp: db_wf_def in_tbl_ids tbl_wf_def[of _ "tb_findings d"] list_all_iff save_finding_def
      intro!: tbl_wf_save)

lemma save_baseline_wf':
  "db_wf d \<Longrightarrow> eid b \<in> set (tbl_ids (tb_baselines d)) \<Longrightarrow> db_wf (save_baseline b d)"
  by (simp add: save_baseline_def save_baseline_wf)

lemma tbl_get_ids: "tbl_get i t = Some e \<Longrightarrow> i \<in> set (tbl_ids t)"
  by (drule tbl_get_Some) (auto simp: in_tbl_ids)

end
