(* ===== verification/Remediation_Correctness.thy ===== *)
theory Remediation_Correctness
  imports Remediation
begin

text \<open>
  What the remediation use cases guarantee, on every branch: the audit trail,
  the state of the finding, and the agreement with the integrity scan, which
  must not report a removal or a return that Sentinel itself performed.
\<close>

section \<open>Quarantine\<close>

text \<open>The database effect of a successful quarantine.\<close>

definition retire_baseline :: "datetime \<Rightarrow> integrity_finding \<Rightarrow> db \<Rightarrow> db" where
  "retire_baseline now f d =
     (case baseline_get_by_account_and_path (fi_account_id f) (fi_relative_path f) d of
        None \<Rightarrow> d
      | Some b \<Rightarrow> if fb_is_active b then save_baseline (baseline_mark_removed now now b) d else d)"

lemma retire_baseline_simps [simp]:
  "tb_findings (retire_baseline now f d) = tb_findings d"
  "tb_accounts (retire_baseline now f d) = tb_accounts d"
  "tb_actions (retire_baseline now f d) = tb_actions d"
  "tb_events (retire_baseline now f d) = tb_events d"
  "next_uuid (retire_baseline now f d) = next_uuid d"
  by (auto simp: retire_baseline_def split: option.splits)

definition quarantine_effect ::
    "datetime \<Rightarrow> string \<Rightarrow> integrity_finding \<Rightarrow> quarantined_file \<Rightarrow> db \<Rightarrow> db" where
  "quarantine_effect now triggered_by f q d =
     record_remediation_action now (set_quarantine now q f) QUARANTINE SUCCEEDED
       (Some (triggered_by @ '': '' @ qf_quarantine_path q))
       (retire_baseline now f (save_finding (set_quarantine now q f) d))"

text \<open>The use case once finding and account are loaded and the life cycle
  allows the quarantine.\<close>

lemma quarantine_rejected:
  assumes "tbl_get i (tb_findings d) = Some f" "tbl_get (fi_account_id f) (tb_accounts d) = Some a"
    and "ensure_can_quarantine f = Inl e"
  shows "quarantine_finding rm now i triggered_by d fs = (Inl e, d, fs)"
  using assms by (simp add: quarantine_finding_def load_finding_def load_account_def)

lemma quarantine_allowed:
  assumes "tbl_get i (tb_findings d) = Some f" "tbl_get (fi_account_id f) (tb_accounts d) = Some a"
    and "fi_remediation_state f = RS_NONE" "fi_change_type f \<noteq> DELETED"
    and "rm_quarantine rm a (fi_relative_path f) (change_type_value (fi_change_type f) @ '' file change'')
       (fi_severity f) (fi_detected_at f) fs = (r, fs')"
  shows "quarantine_finding rm now i triggered_by d fs =
     (case r of
        Inr q \<Rightarrow> (Inr (set_quarantine now q f), quarantine_effect now triggered_by f q d, fs')
      | Inl (FileRemediationError m) \<Rightarrow>
          (Inl (FileRemediationError m),
           record_remediation_action now f QUARANTINE FAILED (Some (triggered_by @ '': '' @ m)) d, fs')
      | Inl e \<Rightarrow> (Inl e, d, fs'))"
proof -
  have "ensure_can_quarantine f = Inr ()"
    using assms by (simp add: ensure_can_quarantine_Inr)
  moreover have "quarantine now q f = Inr (set_quarantine now q f)" for q
    using assms by (simp add: quarantine_Inr)
  ultimately show ?thesis
    using assms(1,2,5)
    by (simp add: quarantine_finding_def load_finding_def load_account_def quarantine_effect_def
        retire_baseline_def Let_def split: sum.split exn.split)
qed

lemma quarantine_cases:
  obtains (not_found) e where "quarantine_finding rm now i triggered_by d fs = (Inl e, d, fs)"
      "tbl_get i (tb_findings d) = None \<and> e = EntityNotFoundError ''IntegrityFinding'' i \<or>
       (\<exists>f. tbl_get i (tb_findings d) = Some f \<and> tbl_get (fi_account_id f) (tb_accounts d) = None \<and>
            e = EntityNotFoundError ''CpanelAccount'' (fi_account_id f))"
  | (rejected) f e where "tbl_get i (tb_findings d) = Some f" "ensure_can_quarantine f = Inl e"
      "quarantine_finding rm now i triggered_by d fs = (Inl e, d, fs)"
  | (attempted) f a r fs' where "tbl_get i (tb_findings d) = Some f"
      "tbl_get (fi_account_id f) (tb_accounts d) = Some a"
      "fi_remediation_state f = RS_NONE" "fi_change_type f \<noteq> DELETED"
      "rm_quarantine rm a (fi_relative_path f) (change_type_value (fi_change_type f) @ '' file change'')
         (fi_severity f) (fi_detected_at f) fs = (r, fs')"
proof (cases "tbl_get i (tb_findings d)")
  case None
  then show ?thesis
    using that(1)[of "EntityNotFoundError ''IntegrityFinding'' i"]
    by (simp add: quarantine_finding_def load_finding_def)
next
  case (Some f)
  show ?thesis
  proof (cases "tbl_get (fi_account_id f) (tb_accounts d)")
    case None
    with Some show ?thesis
      using that(1)[of "EntityNotFoundError ''CpanelAccount'' (fi_account_id f)"]
      by (simp add: quarantine_finding_def load_finding_def load_account_def)
  next
    case acc: (Some a)
    show ?thesis
    proof (cases "ensure_can_quarantine f")
      case (Inl e)
      with Some acc show ?thesis using that(2)[OF Some Inl quarantine_rejected[OF Some acc Inl]] by blast
    next
      case (Inr u)
      then have "fi_remediation_state f = RS_NONE" "fi_change_type f \<noteq> DELETED"
        by (simp_all add: ensure_can_quarantine_Inr)
      with Some acc show ?thesis using that(3)[of f a] surj_pair by metis
    qed
  qed
qed

lemma quarantine_success:
  assumes "quarantine_finding rm now i triggered_by d fs = (Inr f', d', fs')"
  obtains f a q where "tbl_get i (tb_findings d) = Some f"
    "tbl_get (fi_account_id f) (tb_accounts d) = Some a"
    "fi_remediation_state f = RS_NONE" "fi_change_type f \<noteq> DELETED"
    "rm_quarantine rm a (fi_relative_path f) (change_type_value (fi_change_type f) @ '' file change'')
       (fi_severity f) (fi_detected_at f) fs = (Inr q, fs')"
    "f' = set_quarantine now q f" "d' = quarantine_effect now triggered_by f q d"
proof (rule quarantine_cases[of rm now i triggered_by d fs])
  fix f a r fs''
  assume f: "tbl_get i (tb_findings d) = Some f" "tbl_get (fi_account_id f) (tb_accounts d) = Some a"
    "fi_remediation_state f = RS_NONE" "fi_change_type f \<noteq> DELETED"
    "rm_quarantine rm a (fi_relative_path f) (change_type_value (fi_change_type f) @ '' file change'')
       (fi_severity f) (fi_detected_at f) fs = (r, fs'')"
  from quarantine_allowed[OF this, of now triggered_by] assms
  obtain q where "r = Inr q" "fs'' = fs'" "f' = set_quarantine now q f"
    "d' = quarantine_effect now triggered_by f q d"
    by (auto split: sum.splits exn.splits)
  with f that show thesis by blast
qed (use assms in auto)

lemma quarantine_keeps_db_wf:
  assumes "db_wf d" "quarantine_finding rm now i triggered_by d fs = (r, d', fs')"
  shows "db_wf d'"
proof (cases rule: quarantine_cases[of rm now i triggered_by d fs])
  case (attempted f a x fs'')
  have id: "eid f = i" using tbl_get_Some[OF attempted(1)] by simp
  have s: "db_wf (save_finding (set_quarantine now q f) d)" for q
    using tbl_get_ids[OF attempted(1)] id by (intro save_finding_wf assms(1)) simp
  have b: "db_wf (retire_baseline now f e)" if "db_wf e" for e
    using that baseline_lookup_Some[of "fi_account_id f" "fi_relative_path f" e]
    by (auto simp: retire_baseline_def in_tbl_ids intro!: save_baseline_wf' split: option.split)
  show ?thesis
    using quarantine_allowed[OF attempted, of now triggered_by] assms b[OF s]
    by (auto simp: quarantine_effect_def split: sum.splits exn.splits)
qed (use assms in auto)

lemma quarantine_failure_core:
  assumes "quarantine_finding rm now i triggered_by d fs = (Inl e, d', fs')"
  shows "tb_findings d' = tb_findings d \<and> tb_baselines d' = tb_baselines d \<and>
         tb_events d' = tb_events d \<and>
         (case tbl_get i (tb_findings d) of
            None \<Rightarrow> e = EntityNotFoundError ''IntegrityFinding'' i \<and> d' = d \<and> fs' = fs
          | Some f \<Rightarrow>
              (case tbl_get (fi_account_id f) (tb_accounts d) of
                 None \<Rightarrow> e = EntityNotFoundError ''CpanelAccount'' (fi_account_id f) \<and> d' = d \<and> fs' = fs
               | Some a \<Rightarrow>
                   if fi_remediation_state f \<noteq> RS_NONE \<or> fi_change_type f = DELETED
                   then ensure_can_quarantine f = Inl e \<and> d' = d \<and> fs' = fs
                   else rm_quarantine rm a (fi_relative_path f)
                          (change_type_value (fi_change_type f) @ '' file change'') (fi_severity f)
                          (fi_detected_at f) fs = (Inl e, fs') \<and>
                        (case e of
                           FileRemediationError m \<Rightarrow>
                             tb_actions d' = tb_actions d @ [action_row (next_uuid d) now f QUARANTINE FAILED
                               (Some (triggered_by @ '': '' @ m))]
                         | _ \<Rightarrow> d' = d)))"
proof (rule quarantine_cases[of rm now i triggered_by d fs])
  fix x
  assume "quarantine_finding rm now i triggered_by d fs = (Inl x, d, fs)"
    "tbl_get i (tb_findings d) = None \<and> x = EntityNotFoundError ''IntegrityFinding'' i \<or>
       (\<exists>f. tbl_get i (tb_findings d) = Some f \<and> tbl_get (fi_account_id f) (tb_accounts d) = None \<and>
            x = EntityNotFoundError ''CpanelAccount'' (fi_account_id f))"
  then show ?thesis using assms by auto
next
  fix f x
  assume *: "tbl_get i (tb_findings d) = Some f" "ensure_can_quarantine f = Inl x"
    "quarantine_finding rm now i triggered_by d fs = (Inl x, d, fs)"
  have "fi_remediation_state f \<noteq> RS_NONE \<or> fi_change_type f = DELETED"
    using *(2) by (auto simp: ensure_can_quarantine_def split: if_splits)
  with * show ?thesis
    using assms by (cases "tbl_get (fi_account_id f) (tb_accounts d)")
      (auto simp: quarantine_finding_def load_finding_def load_account_def)
next
  fix f a r fs''
  assume f: "tbl_get i (tb_findings d) = Some f" "tbl_get (fi_account_id f) (tb_accounts d) = Some a"
    "fi_remediation_state f = RS_NONE" "fi_change_type f \<noteq> DELETED"
    "rm_quarantine rm a (fi_relative_path f) (change_type_value (fi_change_type f) @ '' file change'')
       (fi_severity f) (fi_detected_at f) fs = (r, fs'')"
  show ?thesis
    using quarantine_allowed[OF f, of now triggered_by] assms f
    by (cases r) (auto split: exn.splits)
qed

text \<open>C12. A quarantine request that fails never half-changes the records: the
  findings, baselines and events are as before. If the finding or its account
  is unknown, or the life cycle forbids it, neither the database nor the file
  system is touched. Otherwise the file operation was attempted and raised the
  same exception: for a \<open>FileRemediationError\<close> exactly one audit row with
  outcome \<open>FAILED\<close> and the reason is added, for any other exception nothing.\<close>

theorem quarantine_failure:
  assumes "quarantine_finding rm now i triggered_by d fs = (Inl e, d', fs')"
  shows "tb_findings d' = tb_findings d \<and> tb_baselines d' = tb_baselines d \<and>
         tb_events d' = tb_events d \<and>
         (case tbl_get i (tb_findings d) of
            None \<Rightarrow> e = EntityNotFoundError ''IntegrityFinding'' i \<and> d' = d \<and> fs' = fs
          | Some f \<Rightarrow>
              (case tbl_get (fi_account_id f) (tb_accounts d) of
                 None \<Rightarrow> e = EntityNotFoundError ''CpanelAccount'' (fi_account_id f) \<and> d' = d \<and> fs' = fs
               | Some a \<Rightarrow>
                   if fi_remediation_state f \<noteq> RS_NONE \<or> fi_change_type f = DELETED
                   then ensure_can_quarantine f = Inl e \<and> d' = d \<and> fs' = fs
                   else rm_quarantine rm a (fi_relative_path f)
                          (change_type_value (fi_change_type f) @ '' file change'') (fi_severity f)
                          (fi_detected_at f) fs = (Inl e, fs') \<and>
                        (case e of
                           FileRemediationError m \<Rightarrow>
                             tb_actions d' = tb_actions d @ [action_row (next_uuid d) now f QUARANTINE FAILED
                               (Some (triggered_by @ '': '' @ m))]
                         | _ \<Rightarrow> d' = d)))"
  by (rule quarantine_failure_core[OF assms])

section \<open>Baselines and the active view\<close>

lemma unique_saved_baseline:
  assumes "db_wf d" "baselines_unique d" "b \<in> set (tb_baselines d)"
    and "eid b' = eid b" "fb_account_id b' = fb_account_id b" "fb_relative_path b' = fb_relative_path b"
  shows "baselines_unique (save_baseline b' d)"
    and "set (tb_baselines (save_baseline b' d)) = insert b' (set (tb_baselines d) - {b})"
    and "db_wf (save_baseline b' d)"
    and "map (\<lambda>b. (fb_account_id b, bpath b)) (tb_baselines (save_baseline b' d)) =
      map (\<lambda>b. (fb_account_id b, bpath b)) (tb_baselines d)"
proof -
  have dist: "distinct (tbl_ids (tb_baselines d))"
    using tbl_wf_distinct[OF db_wfD(3)[OF assms(1)]] .
  have ids: "eid b' \<in> set (tbl_ids (tb_baselines d))"
    using assms(3,4) by (auto simp: in_tbl_ids)
  have same: "x = b" if "x \<in> set (tb_baselines d)" "eid x = eid b" for x
    using dist that assms(3) by (metis distinct_map inj_onD tbl_ids_def)
  show "map (\<lambda>b. (fb_account_id b, bpath b)) (tb_baselines (save_baseline b' d)) =
      map (\<lambda>b. (fb_account_id b, bpath b)) (tb_baselines d)"
    using same assms(4-6) by (auto simp: tbl_save_map[OF dist ids] assms(4))
  then show "baselines_unique (save_baseline b' d)"
    using assms(2) by (simp add: baselines_unique_def)
  show "set (tb_baselines (save_baseline b' d)) = insert b' (set (tb_baselines d) - {b})"
    using set_tbl_save[OF dist] same assms(4) by auto
  show "db_wf (save_baseline b' d)"
    using save_baseline_wf'[OF assms(1) ids] .
qed

lemma active_view_alt:
  "v \<in> active_view a d \<longleftrightarrow>
   (\<exists>b \<in> set (tb_baselines d). fb_account_id b = a \<and> fb_is_active b \<and> v = (bpath b, fb_sha256 b, fb_mode b))"
  by (auto simp: active_view_def baselines_by_account_def)

lemma active_view_save:
  assumes "db_wf d" "baselines_unique d" "b \<in> set (tb_baselines d)"
    and "eid b' = eid b" "fb_account_id b' = fb_account_id b" "fb_relative_path b' = fb_relative_path b"
  shows "active_view a (save_baseline b' d) =
     (if a = fb_account_id b
      then {v \<in> active_view a d. fst v \<noteq> bpath b} \<union>
           (if fb_is_active b' then {(bpath b, fb_sha256 b', fb_mode b')} else {})
      else active_view a d)"
proof -
  have mem: "x \<in> set (tb_baselines (save_baseline b' d)) \<longleftrightarrow> x = b' \<or> x \<in> set (tb_baselines d) \<and> x \<noteq> b" for x
    using unique_saved_baseline(2)[OF assms] by auto
  have only: "x = b" if "x \<in> set (tb_baselines d)" "fb_account_id x = fb_account_id b" "bpath x = bpath b" for x
    using bpath_inj_on_account[OF assms(2) that(1) assms(3) that(2,3)] .
  show ?thesis
  proof (rule set_eqI)
    fix v
    show "v \<in> active_view a (save_baseline b' d) \<longleftrightarrow> v \<in> (if a = fb_account_id b
      then {v \<in> active_view a d. fst v \<noteq> bpath b} \<union>
           (if fb_is_active b' then {(bpath b, fb_sha256 b', fb_mode b')} else {})
      else active_view a d)"
      unfolding active_view_alt Bex_def mem using only assms(5,6)
      by (auto simp: active_view_alt)
  qed
qed

lemma known_None_view:
  assumes "baseline_get_by_account_and_path a p d = None"
  shows "{v \<in> active_view a d. fst v \<noteq> rel_value p} = active_view a d"
proof -
  have "bpath b \<noteq> rel_value p" if "b \<in> set (tb_baselines d)" "fb_account_id b = a" for b
    using assms that by (auto simp: baseline_get_by_account_and_path_def find_None_iff)
  then have "fst v \<noteq> rel_value p" if "v \<in> active_view a d" for v
    using that unfolding active_view_alt by force
  then show ?thesis by blast
qed

lemma inactive_view:
  assumes "baselines_unique d" "baseline_get_by_account_and_path a p d = Some b" "\<not> fb_is_active b"
  shows "{v \<in> active_view a d. fst v \<noteq> rel_value p} = active_view a d"
proof -
  note b = baseline_lookup_Some[OF assms(2)]
  have "c = b" if "c \<in> set (tb_baselines d)" "fb_account_id c = a" "bpath c = rel_value p" for c
    using bpath_inj_on_account[OF assms(1) that(1), of b] that b by simp
  then show ?thesis using assms(3) by (auto simp: active_view_alt)
qed

lemma retire_baseline_view:
  assumes "db_wf d" "baselines_unique d"
  shows "active_view a (retire_baseline now f d) =
     (if a = fi_account_id f then {v \<in> active_view a d. fst v \<noteq> rel_value (fi_relative_path f)}
      else active_view a d)"
    and "baselines_unique (retire_baseline now f d)" "db_wf (retire_baseline now f d)"
proof -
  let ?l = "baseline_get_by_account_and_path (fi_account_id f) (fi_relative_path f) d"
  show "active_view a (retire_baseline now f d) =
     (if a = fi_account_id f then {v \<in> active_view a d. fst v \<noteq> rel_value (fi_relative_path f)}
      else active_view a d)"
  proof (cases ?l)
    case None
    then show ?thesis using known_None_view by (simp add: retire_baseline_def)
  next
    case (Some b)
    note b = baseline_lookup_Some[OF Some]
    then show ?thesis
      using Some inactive_view[OF assms(2) Some]
        active_view_save[OF assms, of b "baseline_mark_removed now now b"]
      by (auto simp: retire_baseline_def)
  qed
  show "baselines_unique (retire_baseline now f d)" "db_wf (retire_baseline now f d)"
    using assms unique_saved_baseline(1,3)[OF assms, where b' = "baseline_mark_removed now now b" for b]
      baseline_lookup_Some[of "fi_account_id f" "fi_relative_path f" d]
    by (auto simp: retire_baseline_def save_baseline_def split: option.split)
qed

lemma retire_baseline_keys:
  assumes "db_wf d" "baselines_unique d"
  shows "map (\<lambda>b. (fb_account_id b, bpath b)) (tb_baselines (retire_baseline now f d)) =
    map (\<lambda>b. (fb_account_id b, bpath b)) (tb_baselines d)"
  using unique_saved_baseline(4)[OF assms] baseline_lookup_Some[of "fi_account_id f" "fi_relative_path f" d]
  by (auto simp: retire_baseline_def save_baseline_def split: option.split)

lemma active_view_frame [simp]:
  "active_view a (save_finding f d) = active_view a d"
  "active_view a (record_remediation_action now f ty outc detail d) = active_view a d"
  by (simp_all add: active_view_def)

lemma retire_frame [simp]:
  "baselines_by_account a (retire_baseline now f (save_finding g d)) =
   baselines_by_account a (retire_baseline now f d)"
  by (auto simp: retire_baseline_def baselines_by_account_def split: option.splits)

section \<open>A successful quarantine\<close>

lemma tbl_save_update:
  "distinct (tbl_ids t) \<Longrightarrow> tbl_get i t = Some f \<Longrightarrow> eid f' = i \<Longrightarrow>
   tbl_save f' t = map (\<lambda>x. if eid x = i then f' else x) t"
  using tbl_save_map[of t f'] by (simp add: tbl_get_ids)

lemma quarantine_success_effect_core:
  assumes "db_wf d" "baselines_unique d"
    and "quarantine_finding rm now i triggered_by d fs = (Inr f', d', fs')"
  shows "\<exists>f q. tbl_get i (tb_findings d) = Some f \<and> fi_remediation_state f = RS_NONE \<and>
       fi_change_type f \<noteq> DELETED \<and> f' = set_quarantine now q f \<and>
       tb_findings d' = map (\<lambda>x. if eid x = i then f' else x) (tb_findings d) \<and>
       tb_events d' = tb_events d \<and>
       tb_actions d' = tb_actions d @ [action_row (next_uuid d) now f' QUARANTINE SUCCEEDED
         (Some (triggered_by @ '': '' @ qf_quarantine_path q))] \<and>
       (\<forall>a. active_view a d' =
          (if a = fi_account_id f then {v \<in> active_view a d. fst v \<noteq> rel_value (fi_relative_path f)}
           else active_view a d)) \<and>
       baselines_unique d' \<and> db_wf d'"
proof -
  from assms(3) obtain f a q where f: "tbl_get i (tb_findings d) = Some f"
    "tbl_get (fi_account_id f) (tb_accounts d) = Some a"
    "fi_remediation_state f = RS_NONE" "fi_change_type f \<noteq> DELETED"
    "rm_quarantine rm a (fi_relative_path f) (change_type_value (fi_change_type f) @ '' file change'')
       (fi_severity f) (fi_detected_at f) fs = (Inr q, fs')"
    and f': "f' = set_quarantine now q f" and d': "d' = quarantine_effect now triggered_by f q d"
    by (rule quarantine_success)
  have i: "eid f = i" "eid f' = i" using tbl_get_Some[OF f(1)] f' by auto
  let ?s = "save_finding f' d"
  have wf: "db_wf ?s" "baselines_unique ?s"
    using assms(1,2) tbl_get_ids[OF f(1)] i(2) by (auto intro!: save_finding_wf)
  have dist: "distinct (tbl_ids (tb_findings d))"
    using tbl_wf_distinct[OF db_wfD(4)[OF assms(1)]] .
  have "tb_findings d' = map (\<lambda>x. if eid x = i then f' else x) (tb_findings d)"
    using tbl_save_update[OF dist f(1) i(2)] by (simp add: d' f' quarantine_effect_def)
  moreover have "active_view x d' =
      (if x = fi_account_id f then {v \<in> active_view x d. fst v \<noteq> rel_value (fi_relative_path f)}
       else active_view x d)" for x
    using retire_baseline_view(1)[OF wf, of x now f] by (simp add: d' f' quarantine_effect_def)
  moreover have "baselines_unique d'" "db_wf d'"
    using retire_baseline_view(2,3)[OF wf, of now f] by (simp_all add: d' f' quarantine_effect_def)
  ultimately show ?thesis
    using f f' by (auto simp: d' quarantine_effect_def)
qed

lemma retire_only_baselines:
  "retire_baseline now f d = d\<lparr>tb_baselines := tb_baselines (retire_baseline now f d)\<rparr>"
  by (auto simp: retire_baseline_def save_baseline_def split: option.split)


text \<open>C9. Sentinel does not report its own quarantine: if the account agreed
  with its disk before, a scan after the quarantine that sees the same files
  without the quarantined one raises no finding and no event, in particular no
  \<open>DELETED\<close> finding.\<close>

theorem scan_after_quarantine_silent:
  assumes "db_wf d" "baselines_unique d"
    and "quarantine_finding rm now i triggered_by d fs = (Inr f', d', fs')"
    and "active_view (fi_account_id f') d = disk_view files" "distinct (map spath files)"
    and "eid account = fi_account_id f'"
    and "scan_account mime tm account
           (filter (\<lambda>s. spath s \<noteq> rel_value (fi_relative_path f')) files) d' = (counts, d'')"
  shows "counts = (0, 0, 0) \<and> tb_findings d'' = tb_findings d' \<and> tb_events d'' = tb_events d' \<and>
         tb_baselines d'' = tb_baselines d'"
proof -
  obtain f q where f': "f' = set_quarantine now q f"
    and view: "active_view (fi_account_id f) d' =
      {v \<in> active_view (fi_account_id f) d. fst v \<noteq> rel_value (fi_relative_path f)}"
    and wf: "baselines_unique d'" "db_wf d'"
    using quarantine_success_effect_core[OF assms(1-3)] by auto
  have "active_view (eid account) d' =
      disk_view (filter (\<lambda>s. spath s \<noteq> rel_value (fi_relative_path f')) files)"
    using view assms(4,6) by (auto simp: f' disk_view_def)
  from settled_scan[OF wf(2,1) _ this assms(7)] assms(5) show ?thesis
    by (simp add: distinct_map_filter)
qed

section \<open>Restore\<close>

definition revive_baseline :: "datetime \<Rightarrow> integrity_finding \<Rightarrow> string \<Rightarrow> db \<Rightarrow> db" where
  "revive_baseline now f mode d =
     (case baseline_get_by_account_and_path (fi_account_id f) (fi_relative_path f) d of
        None \<Rightarrow> d
      | Some b \<Rightarrow>
          (case fi_current_sha256 f of None \<Rightarrow> d | Some sha \<Rightarrow>
             save_baseline
               (baseline_reactivate now sha
                  (int_or (fi_quarantine_size_bytes f) (fb_size_bytes b)) mode now b) d))"

lemma revive_baseline_simps [simp]:
  "tb_findings (revive_baseline now f mode d) = tb_findings d"
  "tb_actions (revive_baseline now f mode d) = tb_actions d"
  "tb_events (revive_baseline now f mode d) = tb_events d"
  "next_uuid (revive_baseline now f mode d) = next_uuid d"
  by (auto simp: revive_baseline_def split: option.splits)

lemma restore_cases:
  obtains (refused) e where "restore_finding rm now i d fs = (Inl e, d, fs)"
  | (attempted) f a path mode r fs' where "tbl_get i (tb_findings d) = Some f"
      "tbl_get (fi_account_id f) (tb_accounts d) = Some a"
      "fi_remediation_state f = RS_QUARANTINED"
      "fi_quarantine_path f = Some path" "fi_quarantine_mode f = Some mode"
      "rm_restore rm a (fi_relative_path f) path mode (fi_quarantine_owner_uid f)
         (fi_quarantine_owner_gid f) fs = (r, fs')"
      "restore_finding rm now i d fs =
         (case r of
            Inr _ \<Rightarrow> (Inr (clear_quarantine now RS_RESTORED f),
              record_remediation_action now (clear_quarantine now RS_RESTORED f) RESTORE SUCCEEDED None
                (save_finding (clear_quarantine now RS_RESTORED f) (revive_baseline now f mode d)), fs')
          | Inl (FileRemediationError m) \<Rightarrow>
              (Inl (FileRemediationError m), record_remediation_action now f RESTORE FAILED (Some m) d, fs')
          | Inl e \<Rightarrow> (Inl e, d, fs'))"
proof (cases "tbl_get i (tb_findings d)")
  case None
  then show ?thesis using that(1) by (simp add: restore_finding_def load_finding_def)
next
  case f: (Some f)
  show ?thesis
  proof (cases "tbl_get (fi_account_id f) (tb_accounts d)")
    case None
    then show ?thesis
      using f that(1) by (simp add: restore_finding_def load_finding_def load_account_def)
  next
    case a: (Some a)
    show ?thesis
    proof (cases "fi_remediation_state f = RS_QUARANTINED \<and> fi_quarantine_path f \<noteq> None \<and>
        fi_quarantine_mode f \<noteq> None")
      case False
      then have "\<exists>e. restore_finding rm now i d fs = (Inl e, d, fs)"
        using f a by (auto simp: restore_finding_def load_finding_def load_account_def
            ensure_can_restore_def split: option.split)
      then show ?thesis using that(1) by blast
    next
      case True
      then obtain path mode where q: "fi_remediation_state f = RS_QUARANTINED"
        "fi_quarantine_path f = Some path" "fi_quarantine_mode f = Some mode" by blast
      obtain r fs' where r: "rm_restore rm a (fi_relative_path f) path mode (fi_quarantine_owner_uid f)
         (fi_quarantine_owner_gid f) fs = (r, fs')" by (metis surj_pair)
      have "ensure_can_restore f = Inr ()" "restore now f = Inr (clear_quarantine now RS_RESTORED f)"
        using q by (simp_all add: ensure_can_restore_Inr restore_Inr)
      then show ?thesis
        using that(2)[OF f a q r] f a q r
        by (simp add: restore_finding_def load_finding_def load_account_def revive_baseline_def Let_def
            split: sum.split exn.split)
    qed
  qed
qed

lemma revive_baseline_view:
  assumes "db_wf d" "baselines_unique d"
    and "baseline_get_by_account_and_path (fi_account_id f) (fi_relative_path f) d = Some b"
    and "fi_current_sha256 f = Some sha"
  shows "active_view a (revive_baseline now f mode d) =
     (if a = fi_account_id f
      then insert (rel_value (fi_relative_path f), sha, mode)
             {v \<in> active_view a d. fst v \<noteq> rel_value (fi_relative_path f)}
      else active_view a d)"
proof -
  let ?b' = "baseline_reactivate now sha (int_or (fi_quarantine_size_bytes f) (fb_size_bytes b)) mode now b"
  note b = baseline_lookup_Some[OF assms(3)]
  have mem: "b \<in> set (tb_baselines d)" using b by blast
  have "active_view a (save_baseline ?b' d) =
     (if a = fb_account_id b
      then {v \<in> active_view a d. fst v \<noteq> bpath b} \<union> {(bpath b, sha, mode)}
      else active_view a d)"
    using active_view_save[OF assms(1,2) mem, of ?b' a] by simp
  then show ?thesis
    using b assms(3,4) by (auto simp: revive_baseline_def)
qed

lemma revive_baseline_wf:
  assumes "db_wf d" "baselines_unique d"
  shows "db_wf (revive_baseline now f mode d)" "baselines_unique (revive_baseline now f mode d)"
proof -
  have "db_wf (save_baseline b' d) \<and> baselines_unique (save_baseline b' d)"
    if "baseline_get_by_account_and_path a p d = Some b" "eid b' = eid b"
      "fb_account_id b' = fb_account_id b" "fb_relative_path b' = fb_relative_path b" for a p b b'
    using unique_saved_baseline(1,3)[OF assms _ that(2-4)] baseline_lookup_Some[OF that(1)] by blast
  then show "db_wf (revive_baseline now f mode d)" "baselines_unique (revive_baseline now f mode d)"
    using assms by (auto simp: revive_baseline_def split: option.split)
qed

lemma restore_success_effect_core:
  assumes "db_wf d" "baselines_unique d" "fi_current_sha256 f = Some sha"
    and "tbl_get i (tb_findings d) = Some f"
    and "baseline_get_by_account_and_path (fi_account_id f) (fi_relative_path f) d = Some b"
    and "restore_finding rm now i d fs = (Inr f', d', fs')"
  shows "\<exists>mode. fi_remediation_state f = RS_QUARANTINED \<and> fi_quarantine_mode f = Some mode \<and>
       f' = clear_quarantine now RS_RESTORED f \<and>
       tb_findings d' = map (\<lambda>x. if eid x = i then f' else x) (tb_findings d) \<and>
       tb_events d' = tb_events d \<and>
       tb_actions d' = tb_actions d @ [action_row (next_uuid d) now f' RESTORE SUCCEEDED None] \<and>
       (\<forall>a. active_view a d' =
          (if a = fi_account_id f
           then insert (rel_value (fi_relative_path f), sha, mode)
                  {v \<in> active_view a d. fst v \<noteq> rel_value (fi_relative_path f)}
           else active_view a d)) \<and>
       baselines_unique d' \<and> db_wf d'"
proof (rule restore_cases[of rm now i d fs])
  fix e assume "restore_finding rm now i d fs = (Inl e, d, fs)"
  then show ?thesis using assms(6) by simp
next
  fix g a path mode r fs''
  assume g: "tbl_get i (tb_findings d) = Some g" "fi_remediation_state g = RS_QUARANTINED"
    "fi_quarantine_mode g = Some mode"
    and run: "restore_finding rm now i d fs =
         (case r of
            Inr _ \<Rightarrow> (Inr (clear_quarantine now RS_RESTORED g),
              record_remediation_action now (clear_quarantine now RS_RESTORED g) RESTORE SUCCEEDED None
                (save_finding (clear_quarantine now RS_RESTORED g) (revive_baseline now g mode d)), fs'')
          | Inl (FileRemediationError m) \<Rightarrow>
              (Inl (FileRemediationError m), record_remediation_action now g RESTORE FAILED (Some m) d, fs'')
          | Inl e \<Rightarrow> (Inl e, d, fs''))"
  from g(1) assms(4) have fg: "g = f" by simp
  from run assms(6) have f': "f' = clear_quarantine now RS_RESTORED f"
    and d': "d' = record_remediation_action now f' RESTORE SUCCEEDED None
      (save_finding f' (revive_baseline now f mode d))"
    by (auto simp: fg split: sum.splits exn.splits)
  have i: "eid f = i" "eid f' = i" using tbl_get_Some[OF assms(4)] f' by auto
  have dist: "distinct (tbl_ids (tb_findings d))"
    using tbl_wf_distinct[OF db_wfD(4)[OF assms(1)]] .
  have "db_wf (save_finding f' (revive_baseline now f mode d))"
    using tbl_get_ids[OF assms(4)] i(2) by (intro save_finding_wf revive_baseline_wf assms(1,2)) simp
  then have "db_wf d'" "baselines_unique d'"
    using revive_baseline_wf[OF assms(1,2)] by (simp_all add: d')
  then show ?thesis
    using g fg i f' tbl_save_update[OF dist assms(4) i(2)] revive_baseline_view[OF assms(1,2,5,3)]
    by (auto simp: d')
qed

text \<open>Restoring undoes a quarantine in the records: the finding ends in
  \<open>RESTORED\<close> with its quarantine fields cleared, the baseline of its path is
  active again with the hash of the finding and the mode the file had when it
  was quarantined, all other paths are as they were, and one \<open>SUCCEEDED\<close> row
  is added.\<close>

theorem restore_success_effect:
  assumes "db_wf d" "baselines_unique d" "fi_current_sha256 f = Some sha"
    and "tbl_get i (tb_findings d) = Some f"
    and "baseline_get_by_account_and_path (fi_account_id f) (fi_relative_path f) d = Some b"
    and "restore_finding rm now i d fs = (Inr f', d', fs')"
  shows "\<exists>mode. fi_remediation_state f = RS_QUARANTINED \<and> fi_quarantine_mode f = Some mode \<and>
       f' = clear_quarantine now RS_RESTORED f \<and>
       tb_findings d' = map (\<lambda>x. if eid x = i then f' else x) (tb_findings d) \<and>
       tb_events d' = tb_events d \<and>
       tb_actions d' = tb_actions d @ [action_row (next_uuid d) now f' RESTORE SUCCEEDED None] \<and>
       (\<forall>a. active_view a d' =
          (if a = fi_account_id f
           then insert (rel_value (fi_relative_path f), sha, mode)
                  {v \<in> active_view a d. fst v \<noteq> rel_value (fi_relative_path f)}
           else active_view a d)) \<and>
       baselines_unique d' \<and> db_wf d'"
  by (rule restore_success_effect_core[OF assms])

lemma disk_view_unique:
  "distinct (map spath fs) \<Longrightarrow> v \<in> disk_view fs \<Longrightarrow> w \<in> disk_view fs \<Longrightarrow> fst v = fst w \<Longrightarrow> v = w"
  unfolding disk_view_def distinct_map by (auto dest: inj_onD)

lemma insert_others:
  assumes "\<And>v. v \<in> D \<Longrightarrow> fst v = p \<Longrightarrow> v = x" "x \<in> D"
  shows "insert x {v \<in> {v \<in> D. fst v \<noteq> p}. fst v \<noteq> p} = D"
  using assms by blast

text \<open>The round trip is invisible to the next scan: if the account agreed
  with its disk, and a file the disk showed with the finding's hash and the
  mode the quarantine recorded was quarantined and later restored, then a scan
  that sees the same files as before the quarantine raises nothing.\<close>

theorem scan_after_restore_silent:
  assumes "db_wf d" "baselines_unique d"
    and "quarantine_finding rm now i triggered_by d fs = (Inr q, d1, fs1)"
    and "active_view (fi_account_id q) d = disk_view files" "distinct (map spath files)"
    and "fi_current_sha256 q = Some sha" "fi_quarantine_mode q = Some mode"
    and "(rel_value (fi_relative_path q), sha, mode) \<in> disk_view files"
    and "restore_finding rm now' i d1 fs1 = (Inr r, d2, fs2)"
    and "eid account = fi_account_id q"
    and "scan_account mime tm account files d2 = (counts, d3)"
  shows "counts = (0, 0, 0) \<and> tb_findings d3 = tb_findings d2 \<and> tb_events d3 = tb_events d2 \<and>
         tb_baselines d3 = tb_baselines d2"
proof -
  let ?a = "fi_account_id q" and ?p = "fi_relative_path q"
  obtain f0 q0 where f0: "tbl_get i (tb_findings d) = Some f0" "q = set_quarantine now q0 f0"
    and d1: "tb_findings d1 = map (\<lambda>x. if eid x = i then q else x) (tb_findings d)"
      "active_view ?a d1 = {v \<in> active_view ?a d. fst v \<noteq> rel_value ?p}"
      "baselines_unique d1" "db_wf d1"
    using quarantine_success_effect_core[OF assms(1-3)] by auto
  have "eid q = i" using tbl_get_Some[OF f0(1)] f0(2) by auto
  then have "tb_findings d1 = tbl_save q (tb_findings d)"
    using d1(1) tbl_save_update[OF tbl_wf_distinct[OF db_wfD(4)[OF assms(1)]] f0(1)] by simp
  then have q1: "tbl_get i (tb_findings d1) = Some q"
    using \<open>eid q = i\<close> by simp
  obtain f2 q2 where "tbl_get i (tb_findings d) = Some f2"
    "q = set_quarantine now q2 f2" "d1 = quarantine_effect now triggered_by f2 q2 d"
    using assms(3) by (rule quarantine_success) (rule that)
  moreover from this have "db_wf (save_finding q d)"
    using tbl_get_ids \<open>eid q = i\<close> by (intro save_finding_wf assms(1)) simp
  ultimately have keys: "map (\<lambda>b. (fb_account_id b, bpath b)) (tb_baselines d1) =
      map (\<lambda>b. (fb_account_id b, bpath b)) (tb_baselines d)"
    using retire_baseline_keys[of "save_finding q d"] assms(2) by (simp add: quarantine_effect_def)
  have "(?a, rel_value ?p) \<in> (\<lambda>b. (fb_account_id b, bpath b)) ` set (tb_baselines d)"
    using assms(8) unfolding assms(4)[symmetric] active_view_alt by force
  then have "(?a, rel_value ?p) \<in> (\<lambda>b. (fb_account_id b, bpath b)) ` set (tb_baselines d1)"
    by (metis keys list.set_map)
  then obtain b where "b \<in> set (tb_baselines d1)" "fb_account_id b = ?a" "bpath b = rel_value ?p"
    by auto
  then obtain b' where b: "baseline_get_by_account_and_path ?a ?p d1 = Some b'"
    by (cases "baseline_get_by_account_and_path ?a ?p d1")
      (auto simp: baseline_get_by_account_and_path_def find_None_iff)
  have "active_view ?a d2 = insert (rel_value ?p, sha, mode) {v \<in> active_view ?a d1. fst v \<noteq> rel_value ?p}"
    "baselines_unique d2" "db_wf d2"
  proof -
    obtain m where m: "fi_quarantine_mode q = Some m"
      "\<forall>a. active_view a d2 = (if a = ?a
           then insert (rel_value ?p, sha, m) {v \<in> active_view a d1. fst v \<noteq> rel_value ?p}
           else active_view a d1)" "baselines_unique d2" "db_wf d2"
      using restore_success_effect_core[OF d1(4,3) assms(6) q1 b assms(9)] by blast
    then show "active_view ?a d2 = insert (rel_value ?p, sha, mode) {v \<in> active_view ?a d1. fst v \<noteq> rel_value ?p}"
      "baselines_unique d2" "db_wf d2"
      using assms(7) by simp_all
  qed
  note view2 = this
  have only: "v = (rel_value ?p, sha, mode)" if "v \<in> disk_view files" "fst v = rel_value ?p" for v
    by (rule disk_view_unique[OF assms(5) that(1) assms(8)]) (simp add: that)
  have "active_view (eid account) d2 = disk_view files"
    unfolding assms(10) view2(1) d1(2) assms(4) by (rule insert_others[OF only assms(8)])
  from settled_scan[OF view2(3,2) assms(5) this assms(11)] show ?thesis by simp
qed

section \<open>Delete\<close>

text \<open>Deleting a quarantined file. A finding that is not quarantined is
  refused before anything is touched; a failed purge leaves the finding
  quarantined and one \<open>FAILED\<close> row; success moves it to \<open>DELETED\<close>, clears its
  quarantine fields and writes one \<open>SUCCEEDED\<close> row. Baselines and events are
  never touched, and the purge only ever gets the path of a quarantined
  finding.\<close>

theorem delete_outcome:
  assumes "delete_quarantined_finding rm now i d fs = (r, d', fs')"
    and "tbl_get i (tb_findings d) = Some f" "finding_wf f"
  shows "tb_baselines d' = tb_baselines d \<and> tb_events d' = tb_events d \<and>
     (if fi_remediation_state f \<noteq> RS_QUARANTINED
      then r = Inl (not_quarantined_error f) \<and> d' = d \<and> fs' = fs
      else \<exists>path. fi_quarantine_path f = Some path \<and>
        (case rm_purge rm path fs of
           (Inr _, fs1) \<Rightarrow>
             fs' = fs1 \<and> r = Inr (clear_quarantine now RS_DELETED f) \<and>
             tb_findings d' = tbl_save (clear_quarantine now RS_DELETED f) (tb_findings d) \<and>
             tb_actions d' = tb_actions d @ [action_row (next_uuid d) now f DELETE SUCCEEDED None]
         | (Inl e, fs1) \<Rightarrow>
             fs' = fs1 \<and> r = Inl e \<and> tb_findings d' = tb_findings d \<and>
             tb_actions d' = tb_actions d @
               (case e of FileRemediationError m \<Rightarrow> [action_row (next_uuid d) now f DELETE FAILED (Some m)]
                | _ \<Rightarrow> [])))"
proof (cases "fi_remediation_state f = RS_QUARANTINED")
  case False
  then show ?thesis
    using assms by (auto simp: delete_quarantined_finding_def load_finding_def ensure_can_delete_def)
next
  case True
  then obtain path where path: "fi_quarantine_path f = Some path"
    using finding_wf_quarantined[OF assms(3)] by (auto simp: quarantine_fields_set_def)
  have "ensure_can_delete f = Inr ()" "delete_finding now f = Inr (clear_quarantine now RS_DELETED f)"
    using True by (simp_all add: ensure_can_delete_Inr delete_finding_Inr)
  moreover obtain p fs1 where "rm_purge rm path fs = (p, fs1)" by (metis surj_pair)
  moreover have "action_row n now (clear_quarantine now RS_DELETED f) DELETE SUCCEEDED None =
      action_row n now f DELETE SUCCEEDED None" for n
    by (simp add: action_row_def)
  ultimately show ?thesis
    using assms(1,2) True path
    by (auto simp: delete_quarantined_finding_def load_finding_def split: sum.splits exn.splits)
qed

section \<open>The life cycle in the database\<close>

definition findings_wf :: "db \<Rightarrow> bool" where
  "findings_wf d \<longleftrightarrow> list_all finding_wf (tb_findings d)"

lemma findings_wf_save:
  assumes "db_wf d" "findings_wf d" "finding_wf f"
  shows "list_all finding_wf (tbl_save f (tb_findings d))"
  using assms set_tbl_save[OF tbl_wf_distinct[OF db_wfD(4)[OF assms(1)]], of f]
  by (auto simp: findings_wf_def list_all_iff)

lemma findings_wf_get: "findings_wf d \<Longrightarrow> tbl_get i (tb_findings d) = Some f \<Longrightarrow> finding_wf f"
  by (drule tbl_get_Some) (auto simp: findings_wf_def list_all_iff)

lemma restore_findings_wf:
  assumes "db_wf d" "findings_wf d" "restore_finding rm now i d fs = (r, d', fs')"
  shows "findings_wf d' \<and> db_wf d'"
proof (rule restore_cases[of rm now i d fs])
  fix e assume "restore_finding rm now i d fs = (Inl e, d, fs)"
  then show ?thesis using assms by simp
next
  fix f a path mode x fs''
  assume f: "tbl_get i (tb_findings d) = Some f" "fi_remediation_state f = RS_QUARANTINED"
    and run: "restore_finding rm now i d fs =
         (case x of
            Inr _ \<Rightarrow> (Inr (clear_quarantine now RS_RESTORED f),
              record_remediation_action now (clear_quarantine now RS_RESTORED f) RESTORE SUCCEEDED None
                (save_finding (clear_quarantine now RS_RESTORED f) (revive_baseline now f mode d)), fs'')
          | Inl (FileRemediationError m) \<Rightarrow>
              (Inl (FileRemediationError m), record_remediation_action now f RESTORE FAILED (Some m) d, fs'')
          | Inl e \<Rightarrow> (Inl e, d, fs''))"
  have wf: "finding_wf (clear_quarantine now RS_RESTORED f)"
    using finding_wf_quarantined[OF findings_wf_get[OF assms(2) f(1)] f(2)] by simp
  have id: "eid f = i" using tbl_get_Some[OF f(1)] by simp
  have b: "db_wf (revive_baseline now f mode d)"
  proof (cases "baseline_get_by_account_and_path (fi_account_id f) (fi_relative_path f) d")
    case (Some b)
    then show ?thesis
      using assms(1) baseline_lookup_Some[OF Some]
      by (auto simp: revive_baseline_def in_tbl_ids intro!: save_baseline_wf' split: option.split)
  qed (use assms(1) in \<open>simp add: revive_baseline_def\<close>)
  have "db_wf (save_finding (clear_quarantine now RS_RESTORED f) (revive_baseline now f mode d))"
    using tbl_get_ids[OF f(1)] id by (intro save_finding_wf b) simp
  then show ?thesis
    using run assms findings_wf_save[OF assms(1,2) wf]
    by (auto simp: findings_wf_def split: sum.splits exn.splits)
qed

lemma quarantine_findings_wf:
  assumes "db_wf d" "findings_wf d" "quarantine_finding rm now i triggered_by d fs = (r, d', fs')"
  shows "findings_wf d' \<and> db_wf d'"
proof (cases rule: quarantine_cases[of rm now i triggered_by d fs])
  case (attempted f a x fs'')
  have wf: "finding_wf (set_quarantine now q f)" for q
    using attempted by simp
  have id: "eid f = i" using tbl_get_Some[OF attempted(1)] by simp
  have s: "db_wf (save_finding (set_quarantine now q f) d)" for q
    using tbl_get_ids[OF attempted(1)] id by (intro save_finding_wf assms(1)) simp
  have b: "db_wf (retire_baseline now f e)" if "db_wf e" for e
    using that baseline_lookup_Some[of "fi_account_id f" "fi_relative_path f" e]
    by (auto simp: retire_baseline_def in_tbl_ids intro!: save_baseline_wf' split: option.split)
  show ?thesis
    using quarantine_allowed[OF attempted, of now triggered_by] assms b[OF s]
      findings_wf_save[OF assms(1,2) wf]
    by (auto simp: findings_wf_def quarantine_effect_def split: sum.splits exn.splits)
qed (use assms in auto)

lemma delete_findings_wf:
  assumes "db_wf d" "findings_wf d" "delete_quarantined_finding rm now i d fs = (r, d', fs')"
  shows "findings_wf d' \<and> db_wf d'"
proof (cases "tbl_get i (tb_findings d)")
  case None
  then show ?thesis
    using assms by (auto simp: delete_quarantined_finding_def load_finding_def)
next
  case (Some f)
  show ?thesis
  proof (cases "ensure_can_delete f")
    case (Inl e)
    then show ?thesis
      using assms Some by (auto simp: delete_quarantined_finding_def load_finding_def)
  next
    case (Inr u)
    then have q: "fi_remediation_state f = RS_QUARANTINED"
      by (simp add: ensure_can_delete_Inr)
    have wf: "finding_wf (clear_quarantine now RS_DELETED f)"
      using finding_wf_quarantined[OF findings_wf_get[OF assms(2) Some] q] by simp
    have "eid f = i" using tbl_get_Some[OF Some] by simp
    then have "db_wf (save_finding (clear_quarantine now RS_DELETED f) d)"
      using tbl_get_ids[OF Some] by (intro save_finding_wf assms(1)) simp
    moreover have "delete_finding now f = Inr (clear_quarantine now RS_DELETED f)"
      using q by (simp add: delete_finding_Inr)
    ultimately show ?thesis
      using assms Some Inr findings_wf_save[OF assms(1,2) wf]
      by (auto simp: delete_quarantined_finding_def load_finding_def findings_wf_def
          split: option.splits prod.splits sum.splits exn.splits)
  qed
qed

lemma restore_never_asserts:
  assumes "findings_wf d" "\<And>a p q m u g fs. fst (rm_restore rm a p q m u g fs) \<noteq> Inl AssertionError"
  shows "fst (restore_finding rm now i d fs) \<noteq> Inl AssertionError"
proof (cases "tbl_get i (tb_findings d)")
  case (Some f)
  note wf = findings_wf_get[OF assms(1) Some]
  show ?thesis
  proof (cases "fi_remediation_state f = RS_QUARANTINED")
    case True
    then obtain p m where q: "fi_quarantine_path f = Some p" "fi_quarantine_mode f = Some m"
      using finding_wf_quarantined[OF wf] by (auto simp: quarantine_fields_set_def)
    have can: "ensure_can_restore f = Inr ()" "restore now f = Inr (clear_quarantine now RS_RESTORED f)"
      using True by (simp_all add: ensure_can_restore_Inr restore_Inr)
    show ?thesis
    proof (cases "tbl_get (fi_account_id f) (tb_accounts d)")
      case None
      then show ?thesis
        using Some by (simp add: restore_finding_def load_finding_def load_account_def)
    next
      case a: (Some a)
      obtain r fs' where r: "rm_restore rm a (fi_relative_path f) p m (fi_quarantine_owner_uid f)
          (fi_quarantine_owner_gid f) fs = (r, fs')" by (metis surj_pair)
      have "r \<noteq> Inl AssertionError"
        using assms(2) r by (metis fst_conv)
      then show ?thesis
        using Some q can a r
        by (simp add: restore_finding_def load_finding_def load_account_def split: sum.split exn.split)
    qed
  next
    case False
    then show ?thesis
      using Some by (auto simp: restore_finding_def load_finding_def load_account_def
          ensure_can_restore_def not_quarantined_error_def split: option.split)
  qed
qed (simp add: restore_finding_def load_finding_def)

lemma delete_never_asserts:
  assumes "findings_wf d" "\<And>p fs. fst (rm_purge rm p fs) \<noteq> Inl AssertionError"
  shows "fst (delete_quarantined_finding rm now i d fs) \<noteq> Inl AssertionError"
proof (cases "tbl_get i (tb_findings d)")
  case (Some f)
  note wf = findings_wf_get[OF assms(1) Some]
  show ?thesis
  proof (cases "fi_remediation_state f = RS_QUARANTINED")
    case True
    then obtain p where q: "fi_quarantine_path f = Some p"
      using finding_wf_quarantined[OF wf] by (auto simp: quarantine_fields_set_def)
    have can: "ensure_can_delete f = Inr ()" "delete_finding now f = Inr (clear_quarantine now RS_DELETED f)"
      using True by (simp_all add: ensure_can_delete_Inr delete_finding_Inr)
    show ?thesis
      using Some q can assms(2)[of p fs]
      by (auto simp: delete_quarantined_finding_def load_finding_def
          split: sum.split prod.split exn.split)
  next
    case False
    then show ?thesis
      using Some by (auto simp: delete_quarantined_finding_def load_finding_def
          ensure_can_delete_def not_quarantined_error_def)
  qed
qed (simp add: delete_quarantined_finding_def load_finding_def)

text \<open>Whatever the file operations do, and whether a request succeeds or
  raises, every finding in the database keeps the invariant that ties its
  quarantine fields to its state, and identifiers stay unique.\<close>

theorem remediation_keeps_invariant:
  assumes "db_wf d" "findings_wf d"
  shows "let d1 = fst (snd (quarantine_finding rm now i triggered_by d fs));
             d2 = fst (snd (restore_finding rm now i d fs));
             d3 = fst (snd (delete_quarantined_finding rm now i d fs))
         in findings_wf d1 \<and> db_wf d1 \<and> findings_wf d2 \<and> db_wf d2 \<and> findings_wf d3 \<and> db_wf d3"
  using quarantine_findings_wf[OF assms, of rm now i triggered_by fs]
    restore_findings_wf[OF assms, of rm now i fs] delete_findings_wf[OF assms, of rm now i fs]
  by (simp add: Let_def) (metis fst_conv snd_conv surj_pair)

text \<open>The assertions in the restore and delete code never fail on a
  database that keeps the invariant: an \<open>AssertionError\<close> could only come out of
  the file operation itself.\<close>

theorem remediation_never_asserts:
  assumes "findings_wf d"
    and "\<And>a p q m u g fs. fst (rm_restore rm a p q m u g fs) \<noteq> Inl AssertionError"
    and "\<And>p fs. fst (rm_purge rm p fs) \<noteq> Inl AssertionError"
  shows "fst (restore_finding rm now i d fs) \<noteq> Inl AssertionError \<and>
         fst (delete_quarantined_finding rm now i d fs) \<noteq> Inl AssertionError"
  using restore_never_asserts[OF assms(1,2)] delete_never_asserts[OF assms(1,3)] by simp

section \<open>A concrete remediation\<close>

definition demo_quarantined :: quarantined_file where
  "demo_quarantined = \<lparr>qf_quarantine_path = ''/q/bob/1'', qf_mode = ''0644'', qf_size_bytes = 1,
     qf_owner_uid = 1001, qf_owner_gid = 1001\<rparr>"

definition demo_remediator :: "unit file_remediator" where
  "demo_remediator = \<lparr>rm_quarantine = (\<lambda>_ _ _ _ _ fs. (Inr demo_quarantined, fs)),
     rm_restore = (\<lambda>_ _ _ _ _ _ fs. (Inr (), fs)), rm_purge = (\<lambda>_ fs. (Inr (), fs))\<rparr>"

definition broken_remediator :: "unit file_remediator" where
  "broken_remediator = \<lparr>rm_quarantine = (\<lambda>_ _ _ _ _ fs. (Inl (FileRemediationError ''gone''), fs)),
     rm_restore = (\<lambda>_ _ _ _ _ _ fs. (Inl (FileRemediationError ''gone''), fs)),
     rm_purge = (\<lambda>_ fs. (Inl (FileRemediationError ''gone''), fs))\<rparr>"

definition demo_finding :: integrity_finding where
  "demo_finding = new_finding 6 0 1 (RelativeFilePath ''a.php'') MODIFIED HIGH
     (Some (Sha256Hash ''aa'')) (Some (Sha256Hash ''cc'')) 0"

definition demo_rem_db :: db where
  "demo_rem_db = empty_db\<lparr>tb_accounts := [demo_account],
     tb_baselines := [new_baseline 4 0 1 (demo_file ''a.php'' ''cc'' ''0644''),
                      new_baseline 5 0 1 (demo_file ''b.php'' ''dd'' ''0600'')],
     tb_findings := [demo_finding], next_uuid := 10\<rparr>"

definition demo_disk :: "scanned_file list" where
  "demo_disk = [demo_file ''a.php'' ''cc'' ''0644'', demo_file ''b.php'' ''dd'' ''0600'']"

lemma demo_rem_ok:
  "db_wf demo_rem_db" "baselines_unique demo_rem_db" "findings_wf demo_rem_db"
  "tbl_get 6 (tb_findings demo_rem_db) = Some demo_finding"
  "tbl_get 1 (tb_accounts demo_rem_db) = Some demo_account"
  "active_view 1 demo_rem_db = disk_view demo_disk" "distinct (map spath demo_disk)"
  by (simp_all add: demo_rem_db_def db_wf_def empty_db_def tbl_wf_def demo_account_def demo_finding_def
      baselines_unique_def demo_file_def findings_wf_def demo_disk_def disk_view_def active_view_def
      baselines_by_account_def)

lemma demo_finding_simps [simp]:
  "fi_account_id demo_finding = 1" "fi_remediation_state demo_finding = RS_NONE"
  "fi_change_type demo_finding = MODIFIED" "fi_relative_path demo_finding = RelativeFilePath ''a.php''"
  "fi_current_sha256 demo_finding = Some (Sha256Hash ''cc'')" "finding_wf demo_finding" "eid demo_finding = 6"
  by (simp_all add: demo_finding_def)

lemma demo_quarantine_runs:
  "quarantine_finding demo_remediator 20 6 ''manual'' demo_rem_db () =
     (Inr (set_quarantine 20 demo_quarantined demo_finding),
      quarantine_effect 20 ''manual'' demo_finding demo_quarantined demo_rem_db, ())"
  using quarantine_allowed[of 6 demo_rem_db demo_finding demo_account demo_remediator "()" "Inr demo_quarantined" "()"]
    demo_rem_ok(4,5) by (simp add: demo_remediator_def)


theorem quarantine_failure_witness:
  "tb_actions (fst (snd (quarantine_finding broken_remediator 20 6 ''manual'' demo_rem_db ()))) =
     [action_row 10 20 demo_finding QUARANTINE FAILED (Some ''manual: gone'')]"
proof -
  have "quarantine_finding broken_remediator 20 6 ''manual'' demo_rem_db () =
     (Inl (FileRemediationError ''gone''),
      record_remediation_action 20 demo_finding QUARANTINE FAILED (Some ''manual: gone'') demo_rem_db, ())"
    using quarantine_allowed[of 6 demo_rem_db demo_finding demo_account broken_remediator "()"
        "Inl (FileRemediationError ''gone'')" "()"] demo_rem_ok(4,5)
    by (simp add: broken_remediator_def)
  from quarantine_failure[OF this] demo_rem_ok(4,5) this show ?thesis
    by (simp add: demo_rem_db_def empty_db_def)
qed

theorem remediation_keeps_invariant_witness:
  "findings_wf (fst (snd (quarantine_finding demo_remediator 20 6 ''auto'' demo_rem_db ())))"
  using remediation_keeps_invariant[OF demo_rem_ok(1,3),
      where rm = demo_remediator and now = 20 and i = 6 and triggered_by = "''auto''" and fs = "()"]
  by (simp add: Let_def)

theorem remediation_never_asserts_witness:
  "fst (restore_finding demo_remediator 20 6 demo_rem_db ()) \<noteq> Inl AssertionError"
  using remediation_never_asserts[OF demo_rem_ok(3), of demo_remediator]
  by (simp add: demo_remediator_def)


definition demo_quarantined_db :: db where
  "demo_quarantined_db = quarantine_effect 20 ''manual'' demo_finding demo_quarantined demo_rem_db"

lemma demo_quarantined_db_ok:
  "tbl_get 6 (tb_findings demo_quarantined_db) = Some (set_quarantine 20 demo_quarantined demo_finding)"
  "tbl_get 1 (tb_accounts demo_quarantined_db) = Some demo_account"
  "db_wf demo_quarantined_db" "baselines_unique demo_quarantined_db" "findings_wf demo_quarantined_db"
proof -
  show "tbl_get 6 (tb_findings demo_quarantined_db) = Some (set_quarantine 20 demo_quarantined demo_finding)"
    "tbl_get 1 (tb_accounts demo_quarantined_db) = Some demo_account"
    using demo_rem_ok(5) by (simp_all add: demo_quarantined_db_def quarantine_effect_def)
  have "db_wf (save_finding (set_quarantine 20 demo_quarantined demo_finding) demo_rem_db)"
    using demo_rem_ok(1) tbl_get_ids[OF demo_rem_ok(4)] by (intro save_finding_wf) simp_all
  then show "db_wf demo_quarantined_db" "baselines_unique demo_quarantined_db"
    using retire_baseline_view(2,3)[of "save_finding (set_quarantine 20 demo_quarantined demo_finding) demo_rem_db"]
      demo_rem_ok(2) by (simp_all add: demo_quarantined_db_def quarantine_effect_def)
  show "findings_wf demo_quarantined_db"
    using quarantine_findings_wf[OF demo_rem_ok(1,3) demo_quarantine_runs] by (simp add: demo_quarantined_db_def)
qed

lemma demo_restore_runs:
  "restore_finding demo_remediator 30 6 demo_quarantined_db () =
     (Inr (clear_quarantine 30 RS_RESTORED (set_quarantine 20 demo_quarantined demo_finding)),
      fst (snd (restore_finding demo_remediator 30 6 demo_quarantined_db ())), ())"
  using demo_quarantined_db_ok(1,2)
  by (simp add: restore_finding_def load_finding_def load_account_def demo_remediator_def
      ensure_can_restore_def restore_Inr[THEN iffD2] Let_def
      restore_Inr[of 30 "set_quarantine 20 demo_quarantined demo_finding", THEN iffD2])

theorem scan_after_quarantine_silent_witness:
  "fst (scan_account (\<lambda>_. None) 40 demo_account
     (filter (\<lambda>s. spath s \<noteq> ''a.php'') demo_disk) demo_quarantined_db) = (0, 0, 0)"
  using scan_after_quarantine_silent[OF demo_rem_ok(1,2) demo_quarantine_runs _ demo_rem_ok(7) _ surjective_pairing,
      where account = demo_account and mime = "\<lambda>_. None" and tm = 40] demo_rem_ok(6)
  by (simp add: demo_tables demo_quarantined_db_def)

theorem scan_after_restore_silent_witness:
  "fst (scan_account (\<lambda>_. None) 40 demo_account demo_disk
     (fst (snd (restore_finding demo_remediator 30 6 demo_quarantined_db ())))) = (0, 0, 0)"
  using scan_after_restore_silent[OF demo_rem_ok(1,2) demo_quarantine_runs _ demo_rem_ok(7) _ _ _
      demo_restore_runs[unfolded demo_quarantined_db_def] _ surjective_pairing,
      where account = demo_account and mime = "\<lambda>_. None" and tm = 40
        and sha = "Sha256Hash ''cc''" and mode = "''0644''"] demo_rem_ok(6)
  by (simp add: demo_tables demo_quarantined_db_def demo_quarantined_def disk_view_def demo_disk_def demo_file_def)

theorem restore_success_effect_witness:
  "\<exists>m. (''a.php'', Sha256Hash ''cc'', m) \<in>
     active_view 1 (fst (snd (restore_finding demo_remediator 30 6 demo_quarantined_db ())))"
proof -
  have "\<exists>b. baseline_get_by_account_and_path 1 (RelativeFilePath ''a.php'') demo_quarantined_db = Some b"
    by (simp add: demo_quarantined_db_def quarantine_effect_def retire_baseline_def
        baseline_get_by_account_and_path_def demo_rem_db_def demo_file_def)
  then obtain b where b: "baseline_get_by_account_and_path 1 (RelativeFilePath ''a.php'') demo_quarantined_db = Some b" ..
  show ?thesis
    using restore_success_effect[OF demo_quarantined_db_ok(3,4) _ demo_quarantined_db_ok(1) _ demo_restore_runs,
        where sha = "Sha256Hash ''cc''" and b = b] b by auto
qed

theorem delete_outcome_witness:
  "tb_findings (fst (snd (delete_quarantined_finding demo_remediator 30 6 demo_quarantined_db ()))) =
     tbl_save (clear_quarantine 30 RS_DELETED (set_quarantine 20 demo_quarantined demo_finding))
       (tb_findings demo_quarantined_db)"
proof -
  obtain r d' where run: "delete_quarantined_finding demo_remediator 30 6 demo_quarantined_db () = (r, d', ())"
    by (metis surj_pair unit.exhaust)
  from delete_outcome[OF run demo_quarantined_db_ok(1)] run show ?thesis
    by (auto simp: demo_remediator_def)
qed

end
