(* ===== verification/Auto_Quarantine.thy ===== *)
theory Auto_Quarantine
  imports Remediation_Correctness
begin

text \<open>
  \<open>AutoQuarantineCriticalFindingsUseCase\<close>
  (\<open>application/integrity/use_cases.py\<close>): which critical findings are
  quarantined without an operator, and how many. It runs the quarantine use
  case of \<^theory_text>\<open>Remediation\<close> in a loop, so its effect on the database is a
  sequence of single quarantines; the relation \<open>auto_step\<close> states what such a
  sequence can do.
\<close>

section \<open>The use case\<close>

text \<open>Instants count microseconds.\<close>

definition minutes :: "int \<Rightarrow> int" where
  "minutes m = m * 60000000"

record auto_quarantine_result =
  aq_accounts_examined :: nat
  aq_findings_quarantined :: nat
  aq_circuit_breaker_trips :: nat

text \<open>\<open>except (FileRemediationError, InvariantViolationError, EntityNotFoundError)\<close>.\<close>

fun auto_caught :: "exn \<Rightarrow> bool" where
  "auto_caught (FileRemediationError _) = True"
| "auto_caught (InvariantViolationError _) = True"
| "auto_caught (EntityNotFoundError _ _) = True"
| "auto_caught _ = False"

fun quarantine_batch ::
    "'fs file_remediator \<Rightarrow> datetime \<Rightarrow> integrity_finding list \<Rightarrow> nat \<Rightarrow> db \<Rightarrow> 'fs \<Rightarrow> nat res \<times> db \<times> 'fs" where
  "quarantine_batch rm now [] n d fs = (Inr n, d, fs)"
| "quarantine_batch rm now (f # rest) n d fs =
     (case quarantine_finding rm now (eid f) ''auto'' d fs of
        (Inr _, d, fs) \<Rightarrow> quarantine_batch rm now rest (n + 1) d fs
      | (Inl e, d, fs) \<Rightarrow> if auto_caught e then quarantine_batch rm now rest n d fs else (Inl e, d, fs))"

definition circuit_breaker_event ::
    "uuid \<Rightarrow> datetime \<Rightarrow> uuid \<Rightarrow> nat \<Rightarrow> nat \<Rightarrow> int \<Rightarrow> security_event" where
  "circuit_breaker_event i now account quarantined remaining max_per_account =
     (new_event i now ''auto_quarantine_circuit_breaker_tripped'' ''integrity'' (Some account) CRITICAL
        [(''quarantined_this_run'', JInt (int quarantined)),
         (''remaining_unremediated'', JInt (int remaining)),
         (''max_per_account_per_run'', JInt max_per_account)] now)
     \<lparr>ev_detection_rule_id := Some ''auto-quarantine-circuit-breaker''\<rparr>"

definition trip_circuit_breaker ::
    "datetime \<Rightarrow> uuid \<Rightarrow> nat \<Rightarrow> nat \<Rightarrow> int \<Rightarrow> db \<Rightarrow> db" where
  "trip_circuit_breaker now account quarantined remaining max_per_account d =
     (let (i, d) = uuid4 d
      in d\<lparr>tb_events := tbl_add (circuit_breaker_event i now account quarantined remaining max_per_account)
                          (tb_events d)\<rparr>)"

fun auto_accounts ::
    "'fs file_remediator \<Rightarrow> datetime \<Rightarrow> int \<Rightarrow> (uuid \<times> integrity_finding list) list \<Rightarrow> nat \<Rightarrow> nat \<Rightarrow> db \<Rightarrow> 'fs \<Rightarrow>
     (nat \<times> nat) res \<times> db \<times> 'fs" where
  "auto_accounts rm now cap [] n trips d fs = (Inr (n, trips), d, fs)"
| "auto_accounts rm now cap ((account, found) # rest) n trips d fs =
     (let to_quarantine = slice_to cap found;
          remaining = length found - length to_quarantine
      in case quarantine_batch rm now to_quarantine n d fs of
           (Inl e, d, fs) \<Rightarrow> (Inl e, d, fs)
         | (Inr n, d, fs) \<Rightarrow>
             if remaining > 0
             then auto_accounts rm now cap rest n (trips + 1)
                    (trip_circuit_breaker now account (length to_quarantine) remaining cap d) fs
             else auto_accounts rm now cap rest n trips d fs)"

definition auto_quarantine ::
    "'fs file_remediator \<Rightarrow> string \<Rightarrow> int \<Rightarrow> int \<Rightarrow> datetime \<Rightarrow> db \<Rightarrow> 'fs \<Rightarrow>
     auto_quarantine_result res \<times> db \<times> 'fs" where
  "auto_quarantine rm mode cap lookback_minutes now d fs =
     (if mode \<noteq> ''active'' then
        (Inr \<lparr>aq_accounts_examined = 0, aq_findings_quarantined = 0, aq_circuit_breaker_trips = 0\<rparr>, d, fs)
      else
        (let since = now - minutes lookback_minutes;
             by_account = group_by fi_account_id (findings_critical_unremediated since 500 d)
         in case auto_accounts rm now cap by_account 0 0 d fs of
              (Inl e, d, fs) \<Rightarrow> (Inl e, d, fs)
            | (Inr (n, trips), d, fs) \<Rightarrow>
                (Inr \<lparr>aq_accounts_examined = length by_account, aq_findings_quarantined = n,
                      aq_circuit_breaker_trips = trips\<rparr>, d, fs)))"

section \<open>What a sequence of quarantines can do\<close>

definition quarantined_from :: "datetime \<Rightarrow> integrity_finding set \<Rightarrow> integrity_finding \<Rightarrow> integrity_finding \<Rightarrow> bool" where
  "quarantined_from now S f f' \<longleftrightarrow>
     f' = f \<or> (f \<in> S \<and> fi_remediation_state f = RS_NONE \<and> fi_change_type f \<noteq> DELETED \<and>
              (\<exists>q. f' = set_quarantine now q f))"

definition quarantined_count :: "db \<Rightarrow> nat" where
  "quarantined_count d = length (filter (\<lambda>f. fi_remediation_state f = RS_QUARANTINED) (tb_findings d))"

definition auto_step :: "datetime \<Rightarrow> integrity_finding set \<Rightarrow> nat \<Rightarrow> db \<Rightarrow> db \<Rightarrow> bool" where
  "auto_step now S n d d' \<longleftrightarrow>
     list_all2 (quarantined_from now S) (tb_findings d) (tb_findings d') \<and>
     quarantined_count d' = quarantined_count d + n \<and>
     db_wf d' \<and> baselines_unique d'"

lemma list_all2_sameI: "(\<And>x. x \<in> set xs \<Longrightarrow> P x x) \<Longrightarrow> list_all2 P xs xs"
  by (simp add: list_all2_same)

lemma auto_step_refl: "db_wf d \<Longrightarrow> baselines_unique d \<Longrightarrow> auto_step now S 0 d d"
  by (simp add: auto_step_def quarantined_from_def list_all2_same)

lemma quarantined_from_trans:
  assumes "quarantined_from now S f f'" "quarantined_from now S f' f''"
  shows "quarantined_from now S f f''"
  using assms by (auto simp: quarantined_from_def)

lemma auto_step_trans:
  assumes "auto_step now S n d d'" "auto_step now S m d' d''"
  shows "auto_step now S (n + m) d d''"
  using assms list_all2_trans[of "quarantined_from now S" "quarantined_from now S" "quarantined_from now S"]
    quarantined_from_trans[of now S]
  unfolding auto_step_def by (metis (no_types, lifting) add.assoc)

lemma auto_step_cong:
  assumes "tb_findings e = tb_findings d'" "db_wf e" "baselines_unique e" "auto_step now S n d d'"
  shows "auto_step now S n d e"
  using assms by (simp add: auto_step_def quarantined_count_def)

lemma count_update:
  assumes "distinct (tbl_ids t)" "tbl_get i t = Some f" "\<not> P f" "P f'"
  shows "length (filter P (map (\<lambda>x. if eid x = i then f' else x) t)) = Suc (length (filter P t))"
  using assms
proof (induction t)
  case (Cons x t)
  show ?case
  proof (cases "eid x = i")
    case True
    then have "map (\<lambda>x. if eid x = i then f' else x) t = t"
      using Cons.prems(1) by (intro map_idI) (auto simp: in_tbl_ids)
    then show ?thesis using Cons.prems True by simp
  next
    case False
    then show ?thesis using Cons by simp
  qed
qed simp

lemma auto_step_quarantine:
  assumes "db_wf d" "baselines_unique d" "quarantine_finding rm now i ''auto'' d fs = (r, d', fs')"
    and "\<And>f. tbl_get i (tb_findings d) = Some f \<Longrightarrow> fi_remediation_state f = RS_NONE \<Longrightarrow> f \<in> S"
  shows "auto_step now S (if isl r then 0 else 1) d d' \<and> tb_events d' = tb_events d"
proof (cases r)
  case (Inl e)
  then have "tb_findings d' = tb_findings d" "tb_baselines d' = tb_baselines d" "tb_events d' = tb_events d"
    using quarantine_failure_core[of rm now i "''auto''" d fs e d' fs'] assms(3) by auto
  moreover have "db_wf d'"
    using quarantine_keeps_db_wf[OF assms(1,3)] .
  ultimately show ?thesis
    using Inl auto_step_refl[OF assms(1,2), of now S]
    by (simp add: auto_step_def quarantined_count_def baselines_unique_def)
next
  case (Inr f')
  obtain f q where f: "tbl_get i (tb_findings d) = Some f" "fi_remediation_state f = RS_NONE"
      "fi_change_type f \<noteq> DELETED" "f' = set_quarantine now q f"
    and t: "tb_findings d' = map (\<lambda>x. if eid x = i then f' else x) (tb_findings d)"
      "tb_events d' = tb_events d" "db_wf d'" "baselines_unique d'"
    using quarantine_success_effect_core[OF assms(1,2) assms(3)[unfolded Inr]] by auto
  have dist: "distinct (tbl_ids (tb_findings d))"
    using tbl_wf_distinct[OF db_wfD(4)[OF assms(1)]] .
  have "x = f" if "x \<in> set (tb_findings d)" "eid x = i" for x
    using that f(1) tbl_get_mem[OF dist that(1)] by simp
  then have "list_all2 (quarantined_from now S) (tb_findings d) (tb_findings d')"
    unfolding t(1) list_all2_map2
    using f assms(4)[OF f(1,2)] by (auto simp: quarantined_from_def intro!: list_all2_sameI)
  moreover have "quarantined_count d' = Suc (quarantined_count d)"
    unfolding quarantined_count_def t(1) using f by (intro count_update[OF dist f(1)]) auto
  ultimately show ?thesis
    using t Inr by (simp add: auto_step_def)
qed

lemma auto_step_get:
  assumes "auto_step now S n d0 d" "db_wf d0" "f \<in> set (tb_findings d0)"
    and "tbl_get (eid f) (tb_findings d) = Some g" "fi_remediation_state g = RS_NONE"
  shows "g = f"
proof -
  have g: "g \<in> set (tb_findings d)" "eid g = eid f" using tbl_get_Some[OF assms(4)] by auto
  then obtain f0 where f0: "f0 \<in> set (tb_findings d0)" "quarantined_from now S f0 g"
    using assms(1) unfolding auto_step_def by (metis list_all2_conv_all_nth in_set_conv_nth)
  then have "g = f0" using assms(5) by (auto simp: quarantined_from_def)
  moreover have "distinct (tbl_ids (tb_findings d0))"
    using tbl_wf_distinct[OF db_wfD(4)[OF assms(2)]] .
  ultimately show ?thesis
    using f0(1) g(2) assms(3) tbl_get_mem by (metis option.inject)
qed

lemma quarantine_batch_step:
  assumes "db_wf d0" "S \<subseteq> set (tb_findings d0)" "set fl \<subseteq> S"
    and "auto_step now S m d0 d" "quarantine_batch rm now fl n d fs = (r, d', fs')"
  shows "\<exists>k \<le> length fl. auto_step now S (m + k) d0 d' \<and> tb_events d' = tb_events d \<and>
           (\<forall>n'. r = Inr n' \<longrightarrow> n' = n + k)"
  using assms(3-)
proof (induction fl arbitrary: m n d fs)
  case Nil
  then show ?case by auto
next
  case (Cons f fl)
  obtain r1 d1 fs1 where one: "quarantine_finding rm now (eid f) ''auto'' d fs = (r1, d1, fs1)"
    by (metis surj_pair)
  have f: "f \<in> S" "f \<in> set (tb_findings d0)" using Cons.prems(1) assms(2) by auto
  have wf: "db_wf d" "baselines_unique d" using Cons.prems(2) by (auto simp: auto_step_def)
  have sel: "g \<in> S" if "tbl_get (eid f) (tb_findings d) = Some g" "fi_remediation_state g = RS_NONE" for g
    using auto_step_get[OF Cons.prems(2) assms(1) f(2) that] f(1) by simp
  have step: "auto_step now S (if isl r1 then 0 else 1) d d1" "tb_events d1 = tb_events d"
    using auto_step_quarantine[OF wf one sel] by auto
  note both = auto_step_trans[OF Cons.prems(2) step(1)]
  have sub: "set fl \<subseteq> S" using Cons.prems(1) by simp
  show ?case
  proof (cases r1)
    case (Inr x)
    have "quarantine_batch rm now fl (n + 1) d1 fs1 = (r, d', fs')"
      using Cons.prems(3) one Inr by simp
    moreover have "auto_step now S (m + 1) d0 d1" using both Inr by simp
    ultimately obtain k where "k \<le> length fl" "auto_step now S (m + 1 + k) d0 d'"
      "tb_events d' = tb_events d1" "\<forall>n'. r = Inr n' \<longrightarrow> n' = n + 1 + k"
      using Cons.IH[OF sub] by blast
    then show ?thesis using step(2) by (intro exI[of _ "k + 1"]) (simp add: add.assoc)
  next
    case (Inl e)
    have m: "auto_step now S m d0 d1" using both Inl by simp
    show ?thesis
    proof (cases "auto_caught e")
      case True
      then have "quarantine_batch rm now fl n d1 fs1 = (r, d', fs')"
        using Cons.prems(3) one Inl by simp
      from Cons.IH[OF sub m this] show ?thesis using step(2) by (metis le_Suc_eq list.size(4) add.right_neutral add_Suc_right)
    next
      case False
      then show ?thesis using Cons.prems(3) one Inl m step(2) by (intro exI[of _ 0]) auto
    qed
  qed
qed

text \<open>The events of the circuit breaker: one per account over its cap, in order.\<close>

definition over_cap :: "int \<Rightarrow> uuid \<times> integrity_finding list \<Rightarrow> bool" where
  "over_cap cap g \<longleftrightarrow> length (slice_to cap (snd g)) < length (snd g)"

definition breaker_of :: "datetime \<Rightarrow> int \<Rightarrow> uuid \<times> integrity_finding list \<Rightarrow> security_event \<Rightarrow> bool" where
  "breaker_of now cap g e \<longleftrightarrow>
     (\<exists>i. e = circuit_breaker_event i now (fst g) (length (slice_to cap (snd g)))
            (length (snd g) - length (slice_to cap (snd g))) cap)"

lemma trip_simps [simp]:
  "tb_findings (trip_circuit_breaker now a q k cap d) = tb_findings d"
  "tb_baselines (trip_circuit_breaker now a q k cap d) = tb_baselines d"
  "tb_events (trip_circuit_breaker now a q k cap d) =
     tb_events d @ [circuit_breaker_event (next_uuid d) now a q k cap]"
  by (simp_all add: trip_circuit_breaker_def uuid4_def tbl_add_def)

lemma trip_wf: "db_wf d \<Longrightarrow> db_wf (trip_circuit_breaker now a q k cap d)"
proof -
  assume wf: "db_wf d"
  let ?e = "circuit_breaker_event (next_uuid d) now a q k cap"
  have "eid ?e = next_uuid d" by (simp add: circuit_breaker_event_def new_event_def)
  then have "tbl_wf (Suc (next_uuid d)) (tb_events d @ [?e])"
    using tbl_wf_add[of "next_uuid d" "tb_events d" ?e "Suc (next_uuid d)"] wf
    by (simp add: db_wf_def tbl_add_def)
  then show ?thesis
    using db_wf_uuid4[OF wf] by (simp add: db_wf_def trip_circuit_breaker_def uuid4_def tbl_add_def)
qed

lemma auto_step_trip:
  "auto_step now S n d0 d \<Longrightarrow> auto_step now S n d0 (trip_circuit_breaker now a q k cap d)"
  by (rule auto_step_cong) (auto simp: auto_step_def baselines_unique_def intro: trip_wf)

lemma auto_accounts_step:
  assumes "db_wf d0" "S \<subseteq> set (tb_findings d0)"
    and "\<And>a g. (a, g) \<in> set gs \<Longrightarrow> set (slice_to cap g) \<subseteq> S"
    and "auto_step now S m d0 d" "auto_accounts rm now cap gs n trips d fs = (r, d', fs')"
  shows "\<exists>k ne. auto_step now S (m + k) d0 d' \<and> tb_events d' = tb_events d @ ne \<and>
           (\<forall>n' t'. r = Inr (n', t') \<longrightarrow> n' = n + k \<and> t' = trips + length ne \<and>
              list_all2 (breaker_of now cap) (filter (over_cap cap) gs) ne)"
  using assms(3-)
proof (induction gs arbitrary: m n trips d fs)
  case Nil
  then show ?case by (intro exI[of _ 0] exI[of _ "[]"]) auto
next
  case (Cons ag gs)
  obtain a g where ag: "ag = (a, g)" by fastforce
  let ?sl = "slice_to cap g"
  obtain r1 d1 fs1 where one: "quarantine_batch rm now ?sl n d fs = (r1, d1, fs1)"
    by (metis surj_pair)
  have "set ?sl \<subseteq> S" using Cons.prems(1) ag by auto
  from quarantine_batch_step[OF assms(1,2) this Cons.prems(2) one]
  obtain k1 where k1: "auto_step now S (m + k1) d0 d1" "tb_events d1 = tb_events d"
    "\<forall>n'. r1 = Inr n' \<longrightarrow> n' = n + k1" by blast
  have sub: "\<And>b h. (b, h) \<in> set gs \<Longrightarrow> set (slice_to cap h) \<subseteq> S" using Cons.prems(1) by auto
  show ?case
  proof (cases r1)
    case (Inl e)
    then show ?thesis
      using Cons.prems(3) one ag k1 by (intro exI[of _ k1] exI[of _ "[]"]) (auto simp: Let_def)
  next
    case (Inr n1)
    with k1(3) have n1: "n1 = n + k1" by simp
    let ?rem = "length g - length ?sl"
    let ?d2 = "trip_circuit_breaker now a (length ?sl) ?rem cap d1"
    show ?thesis
    proof (cases "?rem > 0")
      case True
      have run: "auto_accounts rm now cap gs n1 (trips + 1) ?d2 fs1 = (r, d', fs')"
        using Cons.prems(3) one ag Inr True by (simp add: Let_def)
      have "breaker_of now cap ag (circuit_breaker_event (next_uuid d1) now a (length ?sl) ?rem cap)"
        unfolding breaker_of_def ag by auto
      moreover have "over_cap cap ag" using True by (simp add: over_cap_def ag)
      moreover obtain k2 ne where "auto_step now S (m + k1 + k2) d0 d'" "tb_events d' = tb_events ?d2 @ ne"
        "\<forall>n' t'. r = Inr (n', t') \<longrightarrow> n' = n1 + k2 \<and> t' = trips + 1 + length ne \<and>
           list_all2 (breaker_of now cap) (filter (over_cap cap) gs) ne"
        using Cons.IH[OF _ auto_step_trip[OF k1(1)] run] sub by blast
      ultimately show ?thesis using k1(2) n1
        by (intro exI[of _ "k1 + k2"] exI[of _ "circuit_breaker_event (next_uuid d1) now a (length ?sl) ?rem cap # ne"])
          (simp add: add.assoc)
    next
      case False
      have run: "auto_accounts rm now cap gs n1 trips d1 fs1 = (r, d', fs')"
        using Cons.prems(3) one ag Inr False by (simp add: Let_def)
      have "\<not> over_cap cap ag" using False by (simp add: over_cap_def ag)
      moreover obtain k2 ne where "auto_step now S (m + k1 + k2) d0 d'" "tb_events d' = tb_events d1 @ ne"
        "\<forall>n' t'. r = Inr (n', t') \<longrightarrow> n' = n1 + k2 \<and> t' = trips + length ne \<and>
           list_all2 (breaker_of now cap) (filter (over_cap cap) gs) ne"
        using Cons.IH[OF _ k1(1) run] sub by blast
      ultimately show ?thesis using k1(2) n1
        by (intro exI[of _ "k1 + k2"] exI[of _ ne]) (simp add: add.assoc)
    qed
  qed
qed

section \<open>The properties\<close>

text \<open>The groups a run works on and the findings it may act on.\<close>

definition auto_groups :: "int \<Rightarrow> datetime \<Rightarrow> db \<Rightarrow> (uuid \<times> integrity_finding list) list" where
  "auto_groups lookback now d =
     group_by fi_account_id (findings_critical_unremediated (now - minutes lookback) 500 d)"

definition auto_selected :: "int \<Rightarrow> int \<Rightarrow> datetime \<Rightarrow> db \<Rightarrow> integrity_finding set" where
  "auto_selected cap lookback now d =
     (\<Union>(a, g) \<in> set (auto_groups lookback now d). set (slice_to cap g))"

lemma auto_groups_mem:
  "(a, g) \<in> set (auto_groups lookback now d) \<Longrightarrow> f \<in> set g \<Longrightarrow>
   f \<in> set (tb_findings d) \<and> fi_account_id f = a \<and> fi_severity f = CRITICAL \<and>
   fi_remediation_state f = RS_NONE \<and> now - minutes lookback \<le> fi_detected_at f"
  unfolding auto_groups_def group_by_elem by (auto dest: findings_critical_sub)

lemma auto_selected_mem:
  assumes "f \<in> auto_selected cap lookback now d"
  shows "f \<in> set (tb_findings d) \<and> fi_severity f = CRITICAL \<and> fi_remediation_state f = RS_NONE \<and>
    now - minutes lookback \<le> fi_detected_at f \<and>
    (\<exists>g. (fi_account_id f, g) \<in> set (auto_groups lookback now d) \<and> f \<in> set (slice_to cap g))"
proof -
  from assms obtain a g where "(a, g) \<in> set (auto_groups lookback now d)" "f \<in> set (slice_to cap g)"
    by (auto simp: auto_selected_def)
  then show ?thesis using auto_groups_mem[of a g lookback now d f] slice_to_sub[of cap g] by auto
qed

lemma auto_quarantine_step:
  assumes "db_wf d" "baselines_unique d"
    and "auto_quarantine rm ''active'' cap lookback now d fs = (r, d', fs')"
  shows "\<exists>k ne. auto_step now (auto_selected cap lookback now d) k d d' \<and> tb_events d' = tb_events d @ ne \<and>
     (\<forall>res. r = Inr res \<longrightarrow>
        aq_accounts_examined res = length (auto_groups lookback now d) \<and>
        aq_findings_quarantined res = k \<and> aq_circuit_breaker_trips res = length ne \<and>
        list_all2 (breaker_of now cap) (filter (over_cap cap) (auto_groups lookback now d)) ne)"
proof -
  let ?S = "auto_selected cap lookback now d"
  obtain r1 d1 fs1 where run: "auto_accounts rm now cap (auto_groups lookback now d) 0 0 d fs = (r1, d1, fs1)"
    by (metis surj_pair)
  have S: "?S \<subseteq> set (tb_findings d)" using auto_selected_mem by blast
  have sel: "set (slice_to cap g) \<subseteq> ?S" if "(a, g) \<in> set (auto_groups lookback now d)" for a g
    using that by (force simp: auto_selected_def)
  from auto_accounts_step[where S = ?S and m = 0, OF assms(1) S _ auto_step_refl[OF assms(1,2)] run] sel
  obtain k ne where "auto_step now ?S k d d1" "tb_events d1 = tb_events d @ ne"
    "\<forall>n' t'. r1 = Inr (n', t') \<longrightarrow> n' = k \<and> t' = length ne \<and>
       list_all2 (breaker_of now cap) (filter (over_cap cap) (auto_groups lookback now d)) ne" by auto
  moreover have "d' = d1" "\<And>res. r = Inr res \<Longrightarrow> \<exists>n t. r1 = Inr (n, t) \<and>
      res = \<lparr>aq_accounts_examined = length (auto_groups lookback now d), aq_findings_quarantined = n,
             aq_circuit_breaker_trips = t\<rparr>"
    using assms(3) run by (auto simp: auto_quarantine_def auto_groups_def Let_def split: sum.splits)
  ultimately show ?thesis by (intro exI[of _ k] exI[of _ ne]) auto
qed

text \<open>Unless the mode is \<open>active\<close>, the automatic quarantine changes
  nothing, neither records nor files.\<close>

theorem auto_quarantine_inactive:
  assumes "mode \<noteq> ''active''"
  shows "auto_quarantine rm mode cap lookback now d fs =
    (Inr \<lparr>aq_accounts_examined = 0, aq_findings_quarantined = 0, aq_circuit_breaker_trips = 0\<rparr>, d, fs)"
  using assms by (simp add: auto_quarantine_def)

text \<open>C14. What an unattended run may touch, however the file operations behave
  and even if the run is cut short by an exception: only findings that were
  \<open>CRITICAL\<close>, untreated, recent, not deletions, and within their account's cap
  change, and they change only to \<open>QUARANTINED\<close>. A run that completes reports
  exactly the number of findings it quarantined.\<close>

theorem auto_quarantine_scope:
  assumes "db_wf d" "baselines_unique d"
    and "auto_quarantine rm ''active'' cap lookback now d fs = (r, d', fs')"
  shows "list_all2 (\<lambda>f f'. f' = f \<or>
       (fi_severity f = CRITICAL \<and> fi_remediation_state f = RS_NONE \<and> fi_change_type f \<noteq> DELETED \<and>
        now - minutes lookback \<le> fi_detected_at f \<and>
        (\<exists>g. (fi_account_id f, g) \<in> set (auto_groups lookback now d) \<and> f \<in> set (slice_to cap g)) \<and>
        (\<exists>q. f' = set_quarantine now q f)))
     (tb_findings d) (tb_findings d') \<and>
     (\<forall>res. r = Inr res \<longrightarrow> quarantined_count d' = quarantined_count d + aq_findings_quarantined res)"
proof -
  from auto_quarantine_step[OF assms] obtain k where
    step: "auto_step now (auto_selected cap lookback now d) k d d'"
    and n: "\<forall>res. r = Inr res \<longrightarrow> aq_findings_quarantined res = k" by blast
  have "list_all2 (quarantined_from now (auto_selected cap lookback now d)) (tb_findings d) (tb_findings d')"
    using step by (simp add: auto_step_def)
  then have "list_all2 (\<lambda>f f'. f' = f \<or>
       (fi_severity f = CRITICAL \<and> fi_remediation_state f = RS_NONE \<and> fi_change_type f \<noteq> DELETED \<and>
        now - minutes lookback \<le> fi_detected_at f \<and>
        (\<exists>g. (fi_account_id f, g) \<in> set (auto_groups lookback now d) \<and> f \<in> set (slice_to cap g)) \<and>
        (\<exists>q. f' = set_quarantine now q f))) (tb_findings d) (tb_findings d')"
    by (rule list_all2_mono) (auto simp: quarantined_from_def dest: auto_selected_mem)
  then show ?thesis
    using step n by (auto simp: auto_step_def)
qed

text \<open>C15. The cap holds per account: in one run no account has more findings
  quarantined than \<open>max_per_account_per_run\<close>.\<close>

theorem auto_quarantine_cap:
  assumes "db_wf d" "baselines_unique d" "0 \<le> cap"
    and "auto_quarantine rm ''active'' cap lookback now d fs = (r, d', fs')"
  shows "int (length (filter (\<lambda>f. fi_account_id f = a \<and> f \<notin> set (tb_findings d')) (tb_findings d))) \<le> cap"
proof -
  let ?ch = "filter (\<lambda>f. fi_account_id f = a \<and> f \<notin> set (tb_findings d')) (tb_findings d)"
  from auto_quarantine_step[OF assms(1,2,4)] obtain k where
    step: "auto_step now (auto_selected cap lookback now d) k d d'" by blast
  have changed: "f \<in> auto_selected cap lookback now d" if "f \<in> set (tb_findings d)" "f \<notin> set (tb_findings d')" for f
  proof -
    from that(1) obtain i where i: "i < length (tb_findings d)" "tb_findings d ! i = f"
      by (auto simp: in_set_conv_nth)
    have l2: "list_all2 (quarantined_from now (auto_selected cap lookback now d)) (tb_findings d) (tb_findings d')"
      using step by (simp add: auto_step_def)
    then have "quarantined_from now (auto_selected cap lookback now d) f (tb_findings d' ! i)"
      "tb_findings d' ! i \<in> set (tb_findings d')"
      using i list_all2_nthD[OF l2 i(1)] list_all2_lengthD[OF l2] by auto
    then show ?thesis using that(2) by (auto simp: quarantined_from_def)
  qed
  have dist: "distinct ?ch"
    using tbl_wf_distinct[OF db_wfD(4)[OF assms(1)]] by (simp add: tbl_ids_def distinct_map)
  show ?thesis
  proof (cases "\<exists>g. (a, g) \<in> set (auto_groups lookback now d)")
    case False
    then have "?ch = []" using changed auto_selected_mem by (fastforce simp: filter_empty_conv)
    then show ?thesis using assms(3) by simp
  next
    case True
    then obtain g where g: "(a, g) \<in> set (auto_groups lookback now d)" by blast
    have "set ?ch \<subseteq> set (slice_to cap g)"
    proof
      fix f assume "f \<in> set ?ch"
      then obtain h where "(a, h) \<in> set (auto_groups lookback now d)" "f \<in> set (slice_to cap h)"
        using changed auto_selected_mem by fastforce
      then show "f \<in> set (slice_to cap g)" using g by (simp add: auto_groups_def group_by_elem)
    qed
    then have "length ?ch \<le> length (slice_to cap g)"
      using dist by (metis card_length card_mono distinct_card List.finite_set le_trans)
    then show ?thesis using length_slice_to_le[OF assms(3), of g] by linarith
  qed
qed

text \<open>When a run completes, it has raised one \<open>CRITICAL\<close> circuit-breaker
  event for every account that had more critical findings than its cap, in the
  order of the accounts, and no other event; the number of trips it returns is
  the number of those events.\<close>

theorem auto_quarantine_breaker:
  assumes "db_wf d" "baselines_unique d"
    and "auto_quarantine rm ''active'' cap lookback now d fs = (Inr res, d', fs')"
  shows "\<exists>ne. tb_events d' = tb_events d @ ne \<and>
     list_all2 (breaker_of now cap) (filter (over_cap cap) (auto_groups lookback now d)) ne \<and>
     aq_circuit_breaker_trips res = length ne \<and>
     aq_accounts_examined res = length (auto_groups lookback now d)"
  using auto_quarantine_step[OF assms] by auto

section \<open>Accounts that a run leaves alone\<close>

text \<open>What a quarantine of a finding leaves in the records of its account.\<close>

definition account_rows :: "uuid \<Rightarrow> db \<Rightarrow> remediation_action list \<times> file_baseline list" where
  "account_rows a d = (filter (\<lambda>x. ra_account_id x = a) (tb_actions d), baselines_by_account a d)"

lemma account_rows_trip [simp]: "account_rows a (trip_circuit_breaker now b q k cap d) = account_rows a d"
  by (simp add: account_rows_def trip_circuit_breaker_def baselines_by_account_def uuid4_def)

lemma account_rows_record:
  "fi_account_id f \<noteq> a \<Longrightarrow> account_rows a (record_remediation_action now f ty oc detail d) = account_rows a d"
  by (simp add: account_rows_def record_action_eq action_row_def baselines_by_account_def)

lemma save_other_baseline:
  "fb_account_id b \<noteq> a \<Longrightarrow> \<forall>x \<in> set t. eid x = eid b \<longrightarrow> fb_account_id x \<noteq> a \<Longrightarrow>
     filter (\<lambda>x. fb_account_id x = a) (tbl_save b t) = filter (\<lambda>x. fb_account_id x = a) t"
  by (induction t) auto

lemma account_rows_retire:
  assumes "db_wf d" "fi_account_id f \<noteq> a"
  shows "account_rows a (retire_baseline now f d) = account_rows a d"
proof (cases "baseline_get_by_account_and_path (fi_account_id f) (fi_relative_path f) d")
  case (Some b)
  then have b: "b \<in> set (tb_baselines d)" "fb_account_id b = fi_account_id f" by (auto dest!: baseline_lookup_Some)
  have "distinct (tbl_ids (tb_baselines d))" using assms(1) tbl_wf_distinct by (auto simp: db_wf_def)
  then have "\<forall>x \<in> set (tb_baselines d). eid x = eid b \<longrightarrow> fb_account_id x \<noteq> a"
    using b assms(2) tbl_get_mem by (metis option.inject)
  then show ?thesis
    using Some b assms(2)
    by (simp add: retire_baseline_def account_rows_def save_baseline_def baselines_by_account_def save_other_baseline)
qed (simp add: retire_baseline_def)

lemma account_rows_save_finding [simp]: "account_rows a (save_finding f d) = account_rows a d"
  by (simp add: account_rows_def save_finding_def baselines_by_account_def)

lemma quarantine_other_account:
  assumes "db_wf d" "quarantine_finding rm now i by d fs = (r, d', fs')"
    and "\<And>f. tbl_get i (tb_findings d) = Some f \<Longrightarrow> fi_remediation_state f = RS_NONE \<Longrightarrow> fi_account_id f \<noteq> a"
  shows "account_rows a d' = account_rows a d"
proof (cases rule: quarantine_cases [of rm now i "by" d fs])
  case (attempted f account r1 fs1)
  have other: "fi_account_id f \<noteq> a" using assms(3) attempted(1,3) by blast
  have "eid f = i" using tbl_get_Some [OF attempted(1)] by simp
  then have "db_wf (save_finding (set_quarantine now q f) d)" for q
    using assms(1) tbl_get_ids [OF attempted(1)] by (intro save_finding_wf) simp_all
  then have "account_rows a (quarantine_effect now by f q d) = account_rows a d" for q
    using other by (simp add: quarantine_effect_def account_rows_record account_rows_retire)
  then show ?thesis
    using quarantine_allowed [OF attempted, of now "by"] assms(2) other
    by (auto simp: account_rows_record split: sum.splits exn.splits)
qed (use assms(2) in simp_all)

lemma quarantine_deleted:
  assumes "tbl_get i (tb_findings d) = Some f" "fi_change_type f = DELETED"
  shows "\<exists>e. quarantine_finding rm now i by d fs = (Inl e, d, fs) \<and> auto_caught e"
proof (cases rule: quarantine_cases [of rm now i "by" d fs])
  case (rejected g e)
  have "auto_caught e" using rejected(2) by (auto simp: ensure_can_quarantine_def split: if_splits)
  then show ?thesis using rejected(3) by blast
qed (use assms in auto)

lemma auto_step_deleted:
  assumes "auto_step now S m d0 d" "db_wf d0" "f \<in> set (tb_findings d0)" "fi_change_type f = DELETED"
  shows "tbl_get (eid f) (tb_findings d) = Some f"
proof -
  obtain i where i: "i < length (tb_findings d0)" "tb_findings d0 ! i = f" using assms(3) by (auto simp: in_set_conv_nth)
  have l: "list_all2 (quarantined_from now S) (tb_findings d0) (tb_findings d)" "db_wf d"
    using assms(1) by (simp_all add: auto_step_def)
  from list_all2_nthD [OF l(1) i(1)] have "tb_findings d ! i = f" using i(2) assms(4) by (auto simp: quarantined_from_def)
  then have "f \<in> set (tb_findings d)" using i(1) list_all2_lengthD [OF l(1)] by (metis nth_mem)
  then show ?thesis using tbl_get_mem [OF tbl_wf_distinct [OF db_wfD(4) [OF l(2)]]] by blast
qed

lemma batch_deleted:
  assumes "auto_step now S m d0 d" "db_wf d0" "set fl \<subseteq> set (tb_findings d0)"
    and "list_all (\<lambda>f. fi_change_type f = DELETED) fl"
  shows "quarantine_batch rm now fl n d fs = (Inr n, d, fs)"
  using assms(3,4)
proof (induction fl)
  case (Cons f fl)
  have "tbl_get (eid f) (tb_findings d) = Some f" "fi_change_type f = DELETED"
    using auto_step_deleted [OF assms(1,2)] Cons.prems by simp_all
  from quarantine_deleted [OF this, of rm now "''auto''" fs] show ?case using Cons by auto
qed simp

lemma batch_other_account:
  assumes "db_wf d0" "S \<subseteq> set (tb_findings d0)" "set fl \<subseteq> S" "list_all (\<lambda>f. fi_account_id f \<noteq> a) fl"
    and "auto_step now S m d0 d" "quarantine_batch rm now fl n d fs = (r, d', fs')"
  shows "account_rows a d' = account_rows a d"
  using assms(3-)
proof (induction fl arbitrary: m n d fs)
  case (Cons f fl)
  obtain r1 d1 fs1 where one: "quarantine_finding rm now (eid f) ''auto'' d fs = (r1, d1, fs1)"
    by (metis surj_pair)
  have f: "f \<in> S" "f \<in> set (tb_findings d0)" using Cons.prems(1) assms(2) by auto
  have wf: "db_wf d" "baselines_unique d" using Cons.prems(3) by (auto simp: auto_step_def)
  have sel: "g = f" if "tbl_get (eid f) (tb_findings d) = Some g" "fi_remediation_state g = RS_NONE" for g
    using auto_step_get [OF Cons.prems(3) assms(1) f(2) that] .
  have rows: "account_rows a d1 = account_rows a d"
    by (rule quarantine_other_account [OF wf(1) one]) (use sel Cons.prems(2) in auto)
  have step: "auto_step now S (m + (if isl r1 then 0 else 1)) d0 d1"
    by (rule auto_step_trans [OF Cons.prems(3)], rule conjunct1 [OF auto_step_quarantine [OF wf one]])
      (use sel f(1) in blast)
  have sub: "set fl \<subseteq> S" "list_all (\<lambda>f. fi_account_id f \<noteq> a) fl" using Cons.prems by simp_all
  show ?case
    using Cons.prems(4) one Cons.IH [OF sub step] rows by (auto split: sum.splits if_splits)
qed simp

lemma accounts_starved:
  assumes "db_wf d0" "S \<subseteq> set (tb_findings d0)"
    and "\<And>b g. (b, g) \<in> set gs \<Longrightarrow> set (slice_to cap g) \<subseteq> S"
    and "\<And>b g. (b, g) \<in> set gs \<Longrightarrow> if b = a then list_all (\<lambda>f. fi_change_type f = DELETED) (slice_to cap g)
           else list_all (\<lambda>f. fi_account_id f \<noteq> a) (slice_to cap g)"
    and "auto_step now S m d0 d" "auto_accounts rm now cap gs n trips d fs = (r, d', fs')"
  shows "account_rows a d' = account_rows a d"
  using assms(3-)
proof (induction gs arbitrary: m n trips d fs)
  case (Cons bg gs)
  obtain b g where bg: "bg = (b, g)" by fastforce
  let ?sl = "slice_to cap g"
  obtain r1 d1 fs1 where one: "quarantine_batch rm now ?sl n d fs = (r1, d1, fs1)" by (metis surj_pair)
  have sl: "set ?sl \<subseteq> S" using Cons.prems(1) bg by auto
  obtain k where k: "auto_step now S (m + k) d0 d1"
    using quarantine_batch_step [OF assms(1,2) sl Cons.prems(3) one] by blast
  have rows: "account_rows a d1 = account_rows a d"
  proof (cases "b = a")
    case True
    then have "list_all (\<lambda>f. fi_change_type f = DELETED) ?sl" using Cons.prems(2) bg by force
    moreover have "set ?sl \<subseteq> set (tb_findings d0)" using sl assms(2) by blast
    ultimately show ?thesis using batch_deleted [OF Cons.prems(3) assms(1)] one by (metis prod.inject)
  next
    case False
    then have "list_all (\<lambda>f. fi_account_id f \<noteq> a) ?sl" using Cons.prems(2) bg by force
    from batch_other_account [OF assms(1,2) sl this Cons.prems(3) one] show ?thesis .
  qed
  have sub: "\<And>b g. (b, g) \<in> set gs \<Longrightarrow> set (slice_to cap g) \<subseteq> S"
    "\<And>b g. (b, g) \<in> set gs \<Longrightarrow> if b = a then list_all (\<lambda>f. fi_change_type f = DELETED) (slice_to cap g)
       else list_all (\<lambda>f. fi_account_id f \<noteq> a) (slice_to cap g)"
    subgoal for b g using Cons.prems(1) [of b g] by simp
    subgoal for b g using Cons.prems(2) [of b g] by simp
    done
  have rest: "account_rows a d' = account_rows a e"
    if "auto_step now S m1 d0 e" "auto_accounts rm now cap gs n1 trips1 e fs2 = (r, d', fs')" for m1 e n1 trips1 fs2
    by (rule Cons.IH [OF _ _ that]) (use sub in auto)
  show ?case
    using Cons.prems(4) one bg rows rest [OF k] rest [OF auto_step_trip [OF k]]
    by (auto simp: Let_def split: sum.splits if_splits)
qed simp

lemma filter_kept:
  "list_all2 (\<lambda>f f'. g f' = g f \<and> (g f = a \<longrightarrow> f' = f)) xs ys \<Longrightarrow>
     filter (\<lambda>f. g f = a) ys = filter (\<lambda>f. g f = a) xs"
  by (induction rule: list_all2_induct) auto

lemma starved_findings:
  assumes "db_wf d" "baselines_unique d"
    and "auto_quarantine rm ''active'' cap lookback now d fs = (r, d', fs')"
    and "(a, g) \<in> set (auto_groups lookback now d)"
    and "list_all (\<lambda>f. fi_change_type f = DELETED) (slice_to cap g)"
  shows "filter (\<lambda>f. fi_account_id f = a) (tb_findings d') = filter (\<lambda>f. fi_account_id f = a) (tb_findings d)"
proof (rule filter_kept)
  let ?S = "auto_selected cap lookback now d"
  have gone: "fi_change_type f = DELETED" if f: "f \<in> ?S" "fi_account_id f = a" for f
  proof -
    obtain h where "(a, h) \<in> set (auto_groups lookback now d)" "f \<in> set (slice_to cap h)"
      using auto_selected_mem [OF f(1)] f(2) by blast
    then have "f \<in> set (slice_to cap g)" using assms(4) by (simp add: auto_groups_def group_by_elem)
    then show ?thesis using assms(5) by (simp add: list_all_iff)
  qed
  from auto_quarantine_step [OF assms(1-3)]
  have "list_all2 (quarantined_from now ?S) (tb_findings d) (tb_findings d')" by (auto simp: auto_step_def)
  then show "list_all2 (\<lambda>f f'. fi_account_id f' = fi_account_id f \<and> (fi_account_id f = a \<longrightarrow> f' = f))
      (tb_findings d) (tb_findings d')"
    by (rule list_all2_mono) (use gone in \<open>auto simp: quarantined_from_def\<close>)
qed

lemma starved_rows:
  assumes "db_wf d" "baselines_unique d"
    and "auto_quarantine rm ''active'' cap lookback now d fs = (r, d', fs')"
    and "(a, g) \<in> set (auto_groups lookback now d)"
    and "list_all (\<lambda>f. fi_change_type f = DELETED) (slice_to cap g)"
  shows "account_rows a d' = account_rows a d"
proof -
  let ?S = "auto_selected cap lookback now d"
  obtain r1 fs1 where run: "auto_accounts rm now cap (auto_groups lookback now d) 0 0 d fs = (r1, d', fs1)"
    using assms(3) by (auto simp: auto_quarantine_def auto_groups_def Let_def split: prod.splits sum.splits)
  have S: "?S \<subseteq> set (tb_findings d)" using auto_selected_mem by blast
  have sel: "set (slice_to cap h) \<subseteq> ?S" if "(b, h) \<in> set (auto_groups lookback now d)" for b h
    using that by (force simp: auto_selected_def)
  have "if b = a then list_all (\<lambda>f. fi_change_type f = DELETED) (slice_to cap h)
       else list_all (\<lambda>f. fi_account_id f \<noteq> a) (slice_to cap h)"
    if h: "(b, h) \<in> set (auto_groups lookback now d)" for b h
  proof (cases "b = a")
    case True
    then have "h = g" using h assms(4) by (simp add: auto_groups_def group_by_elem)
    then show ?thesis using True assms(5) by simp
  next
    case False
    then show ?thesis using auto_groups_mem [OF h] slice_to_sub [of cap h] by (auto simp: list_all_iff)
  qed
  from accounts_starved [where S = ?S and m = 0, OF assms(1) S sel this auto_step_refl [OF assms(1,2)] run]
  show ?thesis .
qed

lemma starved_alone:
  assumes "db_wf d" "baselines_unique d"
    and "auto_quarantine rm ''active'' cap lookback now d fs = (r, d', fs')"
    and "auto_groups lookback now d = [(a, g)]"
    and "list_all (\<lambda>f. fi_change_type f = DELETED) (slice_to cap g)"
  shows "fs' = fs"
proof -
  have "set (slice_to cap g) \<subseteq> set (tb_findings d)"
    using auto_groups_mem [of a g lookback now d] assms(4) slice_to_sub [of cap g] by auto
  note none = batch_deleted [OF auto_step_refl [OF assms(1,2), where S = "{}"] assms(1) this assms(5), of rm now 0 fs]
  show ?thesis
    using assms(3) unfolding auto_quarantine_def auto_groups_def [symmetric] Let_def assms(4)
    by (auto simp: none Let_def split: if_splits)
qed

text \<open>C16. Critical findings for deleted files starve the others: if the oldest untreated critical
  findings of an account, as many as the cap admits, are all \<open>DELETED\<close> (there is
  no file to quarantine), then the run attempts nothing in that account, however many quarantinable critical
  findings it has: no finding of the account changes, no audit row is written for it (every attempt at a file
  leaves one, \<open>SUCCEEDED\<close> or \<open>FAILED\<close>), its baselines are as before, and if no other account has
  critical findings then no file operation is called at all.\<close>

theorem auto_quarantine_starved:
  assumes "db_wf d" "baselines_unique d"
    and "auto_quarantine rm ''active'' cap lookback now d fs = (r, d', fs')"
    and "(a, g) \<in> set (auto_groups lookback now d)"
    and "list_all (\<lambda>f. fi_change_type f = DELETED) (slice_to cap g)"
  shows "filter (\<lambda>f. fi_account_id f = a) (tb_findings d') = filter (\<lambda>f. fi_account_id f = a) (tb_findings d) \<and>
    filter (\<lambda>x. ra_account_id x = a) (tb_actions d') = filter (\<lambda>x. ra_account_id x = a) (tb_actions d) \<and>
    baselines_by_account a d' = baselines_by_account a d \<and>
    (auto_groups lookback now d = [(a, g)] \<longrightarrow> fs' = fs)"
  using starved_findings [OF assms] starved_rows [OF assms] starved_alone [OF assms(1-3) _ assms(5)]
  by (simp add: account_rows_def)


section \<open>A concrete run\<close>

text \<open>Three critical findings of one account: the oldest is a deletion.\<close>

definition demo_critical :: "uuid \<Rightarrow> datetime \<Rightarrow> change_type \<Rightarrow> integrity_finding" where
  "demo_critical i detected change = demo_finding\<lparr>eid := i, fi_severity := CRITICAL,
     fi_detected_at := detected, fi_change_type := change\<rparr>"

definition demo_auto_db :: db where
  "demo_auto_db = demo_rem_db\<lparr>tb_findings :=
     [demo_critical 6 3 DELETED, demo_critical 7 5 MODIFIED, demo_critical 8 4 ADDED]\<rparr>"

lemma demo_auto_ok: "db_wf demo_auto_db" "baselines_unique demo_auto_db"
  using demo_rem_ok(1,2)
  by (simp_all add: demo_auto_db_def db_wf_def baselines_unique_def demo_critical_def tbl_wf_def demo_rem_db_def)

lemma demo_auto_groups:
  "auto_groups 15 20 demo_auto_db =
     [(1, [demo_critical 6 3 DELETED, demo_critical 8 4 ADDED, demo_critical 7 5 MODIFIED])]"
  by (simp add: auto_groups_def findings_critical_unremediated_def demo_auto_db_def demo_critical_def
      minutes_def order_asc_def group_by_def group_add_def dict_set_def)

theorem auto_quarantine_inactive_witness:
  "snd (auto_quarantine demo_remediator ''observe'' 5 15 20 demo_auto_db ()) = (demo_auto_db, ())"
  by (subst auto_quarantine_inactive) simp_all

lemma demo_auto_get:
  "tbl_get 6 (tb_findings demo_auto_db) = Some (demo_critical 6 3 DELETED)"
  "tbl_get 8 (tb_findings demo_auto_db) = Some (demo_critical 8 4 ADDED)"
  "tbl_get 1 (tb_accounts demo_auto_db) = Some demo_account"
  using demo_rem_ok(5) by (simp_all add: demo_auto_db_def demo_critical_def tbl_get_def)

lemma demo_critical_simps [simp]:
  "fi_account_id (demo_critical i t c) = 1" "fi_remediation_state (demo_critical i t c) = RS_NONE"
  "fi_change_type (demo_critical i t c) = c" "fi_severity (demo_critical i t c) = CRITICAL"
  "fi_detected_at (demo_critical i t c) = t" "eid (demo_critical i t c) = i"
  by (simp_all add: demo_critical_def)

lemma unit_run:
  fixes x :: "'a \<times> 'b \<times> unit"
  obtains r d where "x = (r, d, ())"
  by (cases x) auto

lemma demo_auto_first:
  "\<exists>m. quarantine_finding demo_remediator 20 6 ''auto'' demo_auto_db () =
     (Inl (InvariantViolationError m), demo_auto_db, ())"
  by (simp add: quarantine_finding_def load_finding_def load_account_def demo_auto_get
      demo_auto_get(3)[unfolded One_nat_def] ensure_can_quarantine_def)

lemma demo_auto_second:
  "\<exists>f d'. quarantine_finding demo_remediator 20 8 ''auto'' demo_auto_db () = (Inr f, d', ())"
  using quarantine_allowed[OF demo_auto_get(2), of demo_account demo_remediator "()" "Inr demo_quarantined" "()" 20 "''auto''"]
    demo_auto_get(3) by (simp add: demo_remediator_def)

lemma demo_auto_runs:
  obtains d' where "auto_quarantine demo_remediator ''active'' 2 15 20 demo_auto_db () =
     (Inr \<lparr>aq_accounts_examined = 1, aq_findings_quarantined = 1, aq_circuit_breaker_trips = 1\<rparr>, d', ())"
proof -
  obtain m where one: "quarantine_finding demo_remediator 20 6 ''auto'' demo_auto_db () =
     (Inl (InvariantViolationError m), demo_auto_db, ())" using demo_auto_first ..
  obtain f d' where two: "quarantine_finding demo_remediator 20 8 ''auto'' demo_auto_db () = (Inr f, d', ())"
    using demo_auto_second by blast
  have "auto_accounts demo_remediator 20 2 (auto_groups 15 20 demo_auto_db) 0 0 demo_auto_db () =
     (Inr (1, 1), trip_circuit_breaker 20 1 2 1 2 d', ())"
    by (simp add: demo_auto_groups slice_to_def one two numeral_2_eq_2)
  then have "auto_quarantine demo_remediator ''active'' 2 15 20 demo_auto_db () =
     (Inr \<lparr>aq_accounts_examined = 1, aq_findings_quarantined = 1, aq_circuit_breaker_trips = 1\<rparr>,
      trip_circuit_breaker 20 1 2 1 2 d', ())"
    using demo_auto_groups by (simp add: auto_quarantine_def auto_groups_def)
  then show ?thesis by (rule that)
qed

theorem auto_quarantine_scope_witness:
  "quarantined_count (fst (snd (auto_quarantine demo_remediator ''active'' 2 15 20 demo_auto_db ()))) = 1"
proof -
  obtain d' where run: "auto_quarantine demo_remediator ''active'' 2 15 20 demo_auto_db () =
     (Inr \<lparr>aq_accounts_examined = 1, aq_findings_quarantined = 1, aq_circuit_breaker_trips = 1\<rparr>, d', ())"
    by (rule demo_auto_runs)
  have "quarantined_count demo_auto_db = 0"
    by (simp add: quarantined_count_def demo_auto_db_def)
  then show ?thesis
    using auto_quarantine_scope[OF demo_auto_ok run, THEN conjunct2] unfolding run by simp
qed

theorem auto_quarantine_cap_witness:
  "int (length (filter (\<lambda>f. fi_account_id f = 1 \<and>
       f \<notin> set (tb_findings (fst (snd (auto_quarantine demo_remediator ''active'' 2 15 20 demo_auto_db ())))))
     (tb_findings demo_auto_db))) \<le> 2"
proof -
  obtain r d' where run: "auto_quarantine demo_remediator ''active'' 2 15 20 demo_auto_db () = (r, d', ())"
    by (rule unit_run)
  show ?thesis
    unfolding run fst_conv snd_conv by (rule auto_quarantine_cap[OF demo_auto_ok _ run]) simp
qed

theorem auto_quarantine_breaker_witness:
  "\<exists>i. tb_events (fst (snd (auto_quarantine demo_remediator ''active'' 2 15 20 demo_auto_db ()))) =
     [circuit_breaker_event i 20 1 2 1 2]"
proof -
  obtain d' where run: "auto_quarantine demo_remediator ''active'' 2 15 20 demo_auto_db () =
     (Inr \<lparr>aq_accounts_examined = 1, aq_findings_quarantined = 1, aq_circuit_breaker_trips = 1\<rparr>, d', ())"
    by (rule demo_auto_runs)
  have "tb_events demo_auto_db = []"
    by (simp add: demo_auto_db_def demo_rem_db_def empty_db_def)
  moreover have "filter (over_cap 2) (auto_groups 15 20 demo_auto_db) =
      [(1, [demo_critical 6 3 DELETED, demo_critical 8 4 ADDED, demo_critical 7 5 MODIFIED])]"
    by (simp add: demo_auto_groups over_cap_def slice_to_def)
  moreover obtain ne where "tb_events d' = tb_events demo_auto_db @ ne"
    "list_all2 (breaker_of 20 2) (filter (over_cap 2) (auto_groups 15 20 demo_auto_db)) ne"
    using auto_quarantine_breaker[OF demo_auto_ok run] by blast
  ultimately obtain e where e: "tb_events d' = [e]"
    "breaker_of 20 2 (1, [demo_critical 6 3 DELETED, demo_critical 8 4 ADDED, demo_critical 7 5 MODIFIED]) e"
    by (auto simp: list_all2_Cons1)
  have "length (slice_to 2 [x, y, z]) = 2 \<and> length [x, y, z] - length (slice_to 2 [x, y, z]) = 1"
    for x y z :: integrity_finding by (simp add: slice_to_def)
  then show ?thesis
    using e unfolding run breaker_of_def fst_conv snd_conv by metis
qed

theorem auto_quarantine_starved_witness:
  "\<exists>r d'. auto_quarantine demo_remediator ''active'' 1 15 20 demo_auto_db () = (r, d', ()) \<and>
     filter (\<lambda>f. fi_account_id f = 1) (tb_findings d') =
       [demo_critical 6 3 DELETED, demo_critical 7 5 MODIFIED, demo_critical 8 4 ADDED] \<and>
     filter (\<lambda>x. ra_account_id x = 1) (tb_actions d') = []"
proof -
  obtain r d' where run: "auto_quarantine demo_remediator ''active'' 1 15 20 demo_auto_db () = (r, d', ())"
    by (rule unit_run)
  have g: "(1, [demo_critical 6 3 DELETED, demo_critical 8 4 ADDED, demo_critical 7 5 MODIFIED])
      \<in> set (auto_groups 15 20 demo_auto_db)" by (simp add: demo_auto_groups)
  have "tb_findings demo_auto_db = [demo_critical 6 3 DELETED, demo_critical 7 5 MODIFIED, demo_critical 8 4 ADDED]"
    "tb_actions demo_auto_db = []"
    by (simp_all add: demo_auto_db_def demo_rem_db_def empty_db_def)
  then show ?thesis
    using auto_quarantine_starved [OF demo_auto_ok run g] by (simp add: run slice_to_def)
qed

end
