(* ===== verification/Reconcile.thy ===== *)
theory Reconcile
  imports Repository_Table
begin

text \<open>
  What the discovery, inventory, configuration and cron use cases have in
  common: a scanner produces items, every item is matched by a natural key
  with a stored row, a row that matches is refreshed (\<open>mark_seen\<close>), an item
  without a row gets one, and rows that were not seen are marked.

  The locale \<open>upserting\<close> states what an entity class promises for this
  (\<open>mark_seen\<close> keeps identity and key, and leaves the row agreeing with the
  item); the effect of a whole pass over the items is proved in it once.
\<close>

section \<open>One item\<close>

text \<open>Look the key up; add a new entity, or refresh and save the one found. The
  result is the entity, the table, and the counter of identifiers.\<close>

definition upsert ::
    "('a base_entity_scheme \<Rightarrow> 'k) \<Rightarrow> 'k \<Rightarrow> (uuid \<Rightarrow> 'a base_entity_scheme) \<Rightarrow>
     ('a base_entity_scheme \<Rightarrow> 'a base_entity_scheme) \<Rightarrow> uuid \<Rightarrow> 'a base_entity_scheme list \<Rightarrow>
     'a base_entity_scheme \<times> 'a base_entity_scheme list \<times> uuid" where
  "upsert key k new refresh n t =
     (case find (\<lambda>e. key e = k) t of
        None \<Rightarrow> (new n, tbl_add (new n) t, n + 1)
      | Some e \<Rightarrow> (refresh e, tbl_save (refresh e) t, n))"

text \<open>The last item with a key: the one whose values a row ends up with.\<close>

definition last_item :: "('i \<Rightarrow> 'k) \<Rightarrow> 'i list \<Rightarrow> 'k \<Rightarrow> 'i option" where
  "last_item item_key items k = find (\<lambda>i. item_key i = k) (rev items)"

lemma last_item_Nil [simp]: "last_item item_key [] k = None"
  by (simp add: last_item_def)

lemma last_item_snoc [simp]:
  "last_item item_key (items @ [i]) k = (if item_key i = k then Some i else last_item item_key items k)"
  by (simp add: last_item_def)

lemma last_item_None: "last_item item_key items k = None \<longleftrightarrow> k \<notin> item_key ` set items"
  by (auto simp: last_item_def find_None_iff)

lemma last_item_Some: "last_item item_key items k = Some i \<Longrightarrow> i \<in> set items \<and> item_key i = k"
  by (auto simp: last_item_def dest: find_SomeD)

lemma last_item_distinct:
  assumes "distinct (map item_key items)" "i \<in> set items"
  shows "last_item item_key items (item_key i) = Some i"
  using find_distinct[of item_key "rev items" i] assms by (simp add: last_item_def rev_map [symmetric])

lemma image_invariant:
  assumes "\<And>x. h (g x) = h x" "\<And>x. k (g x) = k x"
  shows "h ` {y \<in> g ` A. k y \<in> K} = h ` {x \<in> A. k x \<in> K}"
proof -
  have "{y \<in> g ` A. k y \<in> K} = g ` {x \<in> A. k x \<in> K}" using assms(2) by auto
  then show ?thesis by (simp add: image_image assms(1))
qed

section \<open>A pass over the items\<close>

locale upserting =
  fixes row_key :: "'a base_entity_scheme \<Rightarrow> 'k"
    and item_key :: "'i \<Rightarrow> 'k"
    and new :: "'i \<Rightarrow> uuid \<Rightarrow> 'a base_entity_scheme"
    and refresh :: "'i \<Rightarrow> 'a base_entity_scheme \<Rightarrow> 'a base_entity_scheme"
    and agrees :: "'i \<Rightarrow> 'a base_entity_scheme \<Rightarrow> bool"
    and kept :: "'a base_entity_scheme \<Rightarrow> 'b"
    and made :: "'i \<Rightarrow> 'b"
  assumes new_id: "eid (new i n) = n"
    and new_key: "row_key (new i n) = item_key i"
    and new_agrees: "agrees i (new i n)"
    and new_made: "kept (new i n) = made i"
    and refresh_id: "eid (refresh i e) = eid e"
    and refresh_key: "row_key (refresh i e) = row_key e"
    and refresh_agrees: "agrees i (refresh i e)"
    and refresh_kept: "kept (refresh i e) = kept e"
begin

text \<open>The state of the pass after \<open>items\<close>, started with the table \<open>t0\<close>: old
  rows stay where they are and keep what \<open>mark_seen\<close> does not own, the keys are
  those of the old rows and of the items, a row whose key was seen agrees with
  the last item of that key, and other old rows are unchanged.\<close>

definition absorbed ::
    "'i list \<Rightarrow> 'a base_entity_scheme list \<Rightarrow> uuid \<Rightarrow> 'a base_entity_scheme list \<Rightarrow> uuid set \<Rightarrow> bool" where
  "absorbed items t0 n t seen \<longleftrightarrow>
     tbl_wf n t \<and> distinct (map row_key t) \<and>
     (\<exists>old news. t = old @ news \<and>
        list_all2 (\<lambda>e0 e. eid e = eid e0 \<and> row_key e = row_key e0 \<and> kept e = kept e0 \<and>
                     (row_key e0 \<notin> item_key ` set items \<longrightarrow> e = e0)) t0 old \<and>
        row_key ` set news = item_key ` set items - row_key ` set t0 \<and>
        (\<forall>e \<in> set news. \<exists>i \<in> set items. item_key i = row_key e \<and> kept e = made i)) \<and>
     (\<forall>e \<in> set t. \<forall>i. last_item item_key items (row_key e) = Some i \<longrightarrow> agrees i e) \<and>
     seen = eid ` {e \<in> set t. row_key e \<in> item_key ` set items}"

lemma absorbedI:
  assumes "tbl_wf n t" "distinct (map row_key t)"
    and "list_all2 (\<lambda>e0 e. eid e = eid e0 \<and> row_key e = row_key e0 \<and> kept e = kept e0 \<and>
                     (row_key e0 \<notin> item_key ` set items \<longrightarrow> e = e0)) t0 old"
    and "row_key ` set news = item_key ` set items - row_key ` set t0"
    and "\<forall>e \<in> set news. \<exists>i \<in> set items. item_key i = row_key e \<and> kept e = made i"
    and "\<forall>e \<in> set t. \<forall>i. last_item item_key items (row_key e) = Some i \<longrightarrow> agrees i e"
    and "seen = eid ` {e \<in> set t. row_key e \<in> item_key ` set items}" "t = old @ news"
  shows "absorbed items t0 n t seen"
  unfolding absorbed_def using assms by blast

lemma absorbed_Nil:
  "tbl_wf n t \<Longrightarrow> distinct (map row_key t) \<Longrightarrow> absorbed [] t n t {}"
  by (auto simp: absorbed_def list_all2_same)

lemma absorbed_wf: "absorbed items t0 n t seen \<Longrightarrow> tbl_wf n t"
  by (simp add: absorbed_def)

lemma absorbed_mono: "absorbed items t0 n t seen \<Longrightarrow> n \<le> m \<Longrightarrow> absorbed items t0 m t seen"
  by (auto simp: absorbed_def intro: tbl_wf_mono)

lemma upsert_found:
  assumes "distinct (map row_key t)" "e \<in> set t" "row_key e = k"
  shows "find (\<lambda>e. row_key e = k) t = Some e"
  using find_distinct[OF assms(1,2)] assms(3) by simp

lemma absorbed_step:
  assumes "absorbed items t0 n t seen"
    and "upsert row_key (item_key i) (new i) (refresh i) n t = (e, t', n')"
  shows "absorbed (items @ [i]) t0 n' t' (insert (eid e) seen)" "n \<le> n'" "row_key e = item_key i" "e \<in> set t'"
proof -
  from assms(1) obtain old news where wf: "tbl_wf n t" "distinct (map row_key t)"
    and t: "t = old @ news"
    and old: "list_all2 (\<lambda>e0 e. eid e = eid e0 \<and> row_key e = row_key e0 \<and> kept e = kept e0 \<and>
                     (row_key e0 \<notin> item_key ` set items \<longrightarrow> e = e0)) t0 old"
    and news: "row_key ` set news = item_key ` set items - row_key ` set t0"
    and made: "\<forall>e \<in> set news. \<exists>i \<in> set items. item_key i = row_key e \<and> kept e = made i"
    and ag: "\<forall>e \<in> set t. \<forall>i. last_item item_key items (row_key e) = Some i \<longrightarrow> agrees i e"
    and seen: "seen = eid ` {e \<in> set t. row_key e \<in> item_key ` set items}"
    by (auto simp: absorbed_def)
  have ids: "distinct (tbl_ids t)" using tbl_wf_distinct[OF wf(1)] .
  have keys: "row_key ` set t0 = row_key ` set old"
    using old by (induction rule: list_all2_induct) auto
  have "absorbed (items @ [i]) t0 n' t' (insert (eid e) seen) \<and> n \<le> n' \<and> row_key e = item_key i \<and> e \<in> set t'"
  proof (cases "find (\<lambda>e. row_key e = item_key i) t")
    case None
    then have out: "e = new i n" "t' = t @ [e]" "n' = n + 1"
      using assms(2) by (auto simp: upsert_def tbl_add_def)
    have fresh: "item_key i \<notin> row_key ` set t" using None by (auto simp: find_None_iff)
    then have e: "eid e = n" "row_key e = item_key i" "agrees i e" "e \<notin> set t"
      using out by (auto simp: new_id new_key new_agrees) (metis image_eqI new_key)
    have "tbl_wf n' t'" using tbl_wf_add[OF wf(1), of e n'] e(1) out by (simp add: tbl_add_def)
    moreover have "distinct (map row_key t')" using wf(2) fresh e(2) out by simp
    moreover have "list_all2 (\<lambda>e0 e. eid e = eid e0 \<and> row_key e = row_key e0 \<and> kept e = kept e0 \<and>
                     (row_key e0 \<notin> item_key ` set (items @ [i]) \<longrightarrow> e = e0)) t0 old"
      using old by (rule list.rel_mono_strong) simp
    moreover have "row_key ` set (news @ [e]) = item_key ` set (items @ [i]) - row_key ` set t0"
      using fresh news e(2) keys t by auto
    moreover have "\<forall>y \<in> set (news @ [e]). \<exists>j \<in> set (items @ [i]). item_key j = row_key y \<and> kept y = made j"
      using made e(2) new_made out(1) by auto
    moreover have "\<forall>y \<in> set t'. \<forall>j. last_item item_key (items @ [i]) (row_key y) = Some j \<longrightarrow> agrees j y"
      using ag e fresh out by auto
    moreover have "insert (eid e) seen = eid ` {y \<in> set t'. row_key y \<in> item_key ` set (items @ [i])}"
    proof -
      have "{y \<in> set t'. row_key y \<in> item_key ` set (items @ [i])} =
          insert e {y \<in> set t. row_key y \<in> item_key ` set items}"
        using fresh e(2) out(2) by (auto simp: image_iff)
      then show ?thesis by (simp add: seen)
    qed
    moreover have "t' = old @ (news @ [e])" using out t by simp
    ultimately have "absorbed (items @ [i]) t0 n' t' (insert (eid e) seen)" by (rule absorbedI)
    then show ?thesis using out e(2) by simp
  next
    case (Some e0)
    let ?g = "\<lambda>x. if x = e0 then refresh i e0 else x"
    have e0: "e0 \<in> set t" "row_key e0 = item_key i" using find_SomeD[OF Some] by auto
    have uniq: "x = e0" if "x \<in> set t" "row_key x = item_key i" for x
      using that e0 wf(2) by (metis distinct_map inj_onD)
    have out: "e = refresh i e0" "n' = n" "t' = tbl_save (refresh i e0) t"
      using assms(2) Some by (auto simp: upsert_def)
    have "t' = map (\<lambda>x. if eid x = eid e0 then refresh i e0 else x) t"
      using tbl_save_map[OF ids, of "refresh i e0"] e0(1) by (auto simp: out refresh_id in_tbl_ids)
    also have "\<dots> = map ?g t"
      using tbl_get_mem[OF ids] e0(1) by (intro map_cong) (auto, metis option.inject)
    finally have t': "t' = map ?g t" .
    have g: "eid (?g x) = eid x" "row_key (?g x) = row_key x" "kept (?g x) = kept x" for x
      by (auto simp: refresh_id refresh_key refresh_kept)
    have "tbl_wf n' t'" using wf(1) e0 unfolding out(2,3)
      by (intro tbl_wf_save) (auto simp: refresh_id tbl_wf_def list_all_iff)
    moreover have "distinct (map row_key t')" using wf(2) by (simp add: t' comp_def g)
    moreover have "list_all2 (\<lambda>e0 e. eid e = eid e0 \<and> row_key e = row_key e0 \<and> kept e = kept e0 \<and>
                     (row_key e0 \<notin> item_key ` set (items @ [i]) \<longrightarrow> e = e0)) t0 (map ?g old)"
      unfolding list_all2_map2 using old by (rule list.rel_mono_strong) (use e0(2) g in auto)
    moreover have "row_key ` set (map ?g news) = item_key ` set (items @ [i]) - row_key ` set t0"
    proof -
      have "row_key ` set (map ?g news) = row_key ` set news"
        unfolding set_map [symmetric] map_map comp_def g ..
      moreover have "item_key i \<in> row_key ` set t0 \<union> row_key ` set news"
        using e0 keys t by (metis image_Un image_eqI set_append)
      ultimately show ?thesis using news by auto
    qed
    moreover have "\<forall>y \<in> set (map ?g news). \<exists>j \<in> set (items @ [i]). item_key j = row_key y \<and> kept y = made j"
      unfolding set_map ball_simps(9) g using made by auto
    moreover have "\<forall>y \<in> set t'. \<forall>j. last_item item_key (items @ [i]) (row_key y) = Some j \<longrightarrow> agrees j y"
    proof (intro ballI allI impI)
      fix y j
      assume y: "y \<in> set t'" "last_item item_key (items @ [i]) (row_key y) = Some j"
      then obtain x where x: "x \<in> set t" "y = ?g x" by (auto simp: t')
      show "agrees j y"
      proof (cases "x = e0")
        case True
        then show ?thesis using x y(2) e0(2) by (simp add: refresh_agrees refresh_key)
      next
        case False
        then have "row_key x \<noteq> item_key i" using uniq x(1) by blast
        then show ?thesis using False x y(2) ag by simp
      qed
    qed
    moreover have "insert (eid e) seen = eid ` {y \<in> set t'. row_key y \<in> item_key ` set (items @ [i])}"
    proof -
      have "eid ` {y \<in> set t'. row_key y \<in> item_key ` set (items @ [i])} =
          eid ` {x \<in> set t. row_key x \<in> item_key ` set (items @ [i])}"
        unfolding t' set_map by (rule image_invariant[where g = ?g and h = eid and k = row_key, OF g(1,2)])
      also have "{x \<in> set t. row_key x \<in> item_key ` set (items @ [i])} =
          insert e0 {x \<in> set t. row_key x \<in> item_key ` set items}"
      proof (rule set_eqI)
        fix x
        have "x = e0 \<Longrightarrow> x \<in> set t \<and> row_key x = item_key i" using e0 by simp
        then show "x \<in> {x \<in> set t. row_key x \<in> item_key ` set (items @ [i])} \<longleftrightarrow>
            x \<in> insert e0 {x \<in> set t. row_key x \<in> item_key ` set items}"
          using uniq[of x] by (cases "x = e0") (simp, auto simp only: set_append image_Un mem_Collect_eq Un_iff list.set image_insert image_empty insert_iff empty_iff)
      qed
      also have "eid ` \<dots> = insert (eid e0) seen" by (simp add: seen)
      finally show ?thesis by (simp add: out refresh_id)
    qed
    moreover have "t' = map ?g old @ map ?g news" using t' t by simp
    ultimately have "absorbed (items @ [i]) t0 n' t' (insert (eid e) seen)" by (rule absorbedI)
    moreover have "e \<in> set t'"
      using tbl_get_Some[of "eid (refresh i e0)" t' "refresh i e0"] by (simp add: out)
    ultimately show ?thesis using out(1,2) e0(2) by (simp add: refresh_key)
  qed
  then show "absorbed (items @ [i]) t0 n' t' (insert (eid e) seen)" "n \<le> n'" "row_key e = item_key i" "e \<in> set t'"
    by auto
qed

text \<open>A lookup by key after a step: the row written for its own key, the row as
  it was for every other.\<close>

lemma absorbed_step_lookup:
  assumes "absorbed items t0 n t seen"
    and "upsert row_key (item_key i) (new i) (refresh i) n t = (e, t', n')"
  shows "find (\<lambda>x. row_key x = k) t' = (if k = item_key i then Some e else find (\<lambda>x. row_key x = k) t)"
proof -
  note step = absorbed_step[OF assms]
  have dist: "distinct (map row_key t)" "distinct (tbl_ids t)" "distinct (map row_key t')"
    using assms(1) step(1) by (auto simp: absorbed_def tbl_wf_def)
  have same: "x \<in> set t' \<longleftrightarrow> x \<in> set t" if "row_key x \<noteq> item_key i" for x
  proof (cases "find (\<lambda>e. row_key e = item_key i) t")
    case None
    then have "t' = t @ [new i n]" using assms(2) by (auto simp: upsert_def tbl_add_def)
    then show ?thesis using that new_key[of i n] by auto
  next
    case (Some e0)
    then have e0: "e0 \<in> set t" "row_key e0 = item_key i" and t': "t' = tbl_save (refresh i e0) t"
      using find_SomeD[OF Some] assms(2) by (auto simp: upsert_def)
    have "x \<noteq> refresh i e0" "x \<in> set t \<Longrightarrow> eid x \<noteq> eid e0"
      using that e0 refresh_key[of i e0] tbl_get_mem[OF dist(2) e0(1)] tbl_get_mem[OF dist(2), of x] by auto
    then show ?thesis by (auto simp: t' set_tbl_save[OF dist(2)] refresh_id)
  qed
  have iff: "find (\<lambda>x. row_key x = k) u = Some x \<longleftrightarrow> x \<in> set u \<and> row_key x = k"
    if "distinct (map row_key u)" for u x
    using find_distinct[OF that, of x] find_SomeD[of "\<lambda>x. row_key x = k" u x] by blast
  show ?thesis
  proof (cases "k = item_key i")
    case True
    then show ?thesis using iff[OF dist(3), of e] step(3,4) by simp
  next
    case False
    have "find (\<lambda>x. row_key x = k) t' = Some x \<longleftrightarrow> find (\<lambda>x. row_key x = k) t = Some x" for x
      unfolding iff[OF dist(3)] iff[OF dist(1)] using same False by metis
    then show ?thesis using False by (metis option.exhaust)
  qed
qed

lemma absorbedE:
  assumes "absorbed items t0 n t seen"
  obtains old news where "t = old @ news"
    "list_all2 (\<lambda>e0 e. eid e = eid e0 \<and> row_key e = row_key e0 \<and> kept e = kept e0 \<and>
                  (row_key e0 \<notin> item_key ` set items \<longrightarrow> e = e0)) t0 old"
    "row_key ` set news = item_key ` set items - row_key ` set t0"
    "\<forall>e \<in> set news. \<exists>i \<in> set items. item_key i = row_key e \<and> kept e = made i"
    "\<forall>e \<in> set t. \<forall>i. last_item item_key items (row_key e) = Some i \<longrightarrow> agrees i e"
    "distinct (map row_key t)" "distinct (tbl_ids t)"
    "seen = eid ` {e \<in> set t. row_key e \<in> item_key ` set items}"
  using assms unfolding absorbed_def tbl_wf_def by blast

lemma absorbed_seen:
  assumes "absorbed items t0 n t seen" "e \<in> set t"
  shows "eid e \<in> seen \<longleftrightarrow> row_key e \<in> item_key ` set items"
proof -
  from assms(1) have ids: "distinct (tbl_ids t)"
    and seen: "seen = eid ` {e \<in> set t. row_key e \<in> item_key ` set items}"
    by (auto elim: absorbedE)
  have "e' = e" if "e' \<in> set t" "eid e' = eid e" for e'
    using tbl_get_mem[OF ids assms(2)] tbl_get_mem[OF ids that(1)] that(2) by simp
  then show ?thesis using assms(2) by (auto simp: seen)
qed

lemma absorbed_keys:
  assumes "absorbed items t0 n t seen"
  shows "row_key ` set t = row_key ` set t0 \<union> item_key ` set items"
proof -
  from assms obtain old news where t: "t = old @ news"
    and old: "list_all2 (\<lambda>e0 e. eid e = eid e0 \<and> row_key e = row_key e0 \<and> kept e = kept e0 \<and>
                  (row_key e0 \<notin> item_key ` set items \<longrightarrow> e = e0)) t0 old"
    and news: "row_key ` set news = item_key ` set items - row_key ` set t0"
    by (rule absorbedE)
  have "row_key ` set t0 = row_key ` set old"
    using old by (induction rule: list_all2_induct) auto
  then show ?thesis using t news by auto
qed

end

section \<open>Retiring what was not seen\<close>

locale retiring = upserting row_key item_key new refresh agrees kept made
  for row_key :: "'a base_entity_scheme \<Rightarrow> 'k" and item_key :: "'i \<Rightarrow> 'k"
    and new refresh agrees and kept :: "'a base_entity_scheme \<Rightarrow> 'b" and made +
  fixes active :: "'a base_entity_scheme \<Rightarrow> bool"
    and retire :: "'a base_entity_scheme \<Rightarrow> 'a base_entity_scheme"
  assumes agrees_active: "agrees i e \<Longrightarrow> active e"
    and retire_id: "eid (retire e) = eid e"
    and retire_key: "row_key (retire e) = row_key e"
    and retire_kept: "kept (retire e) = kept e"
    and retire_inactive: "\<not> active (retire e)"
begin

text \<open>What a whole reconciliation of \<open>t0\<close> with \<open>items\<close> leaves.\<close>

definition reconciled ::
    "'i list \<Rightarrow> 'a base_entity_scheme list \<Rightarrow> 'a base_entity_scheme list \<Rightarrow> bool" where
  "reconciled items t0 t \<longleftrightarrow>
     distinct (map row_key t) \<and>
     (\<forall>e \<in> set t. active e \<longleftrightarrow> row_key e \<in> item_key ` set items) \<and>
     (\<forall>e \<in> set t. \<forall>i. last_item item_key items (row_key e) = Some i \<longrightarrow> agrees i e) \<and>
     row_key ` set t = row_key ` set t0 \<union> item_key ` set items \<and>
     length t0 \<le> length t \<and>
     list_all2 (\<lambda>e0 e. eid e = eid e0 \<and> row_key e = row_key e0 \<and> kept e = kept e0 \<and>
                  (row_key e0 \<notin> item_key ` set items \<longrightarrow> e = (if active e0 then retire e0 else e0)))
       t0 (take (length t0) t) \<and>
     (\<forall>e \<in> set (drop (length t0) t). \<exists>i \<in> set items. item_key i = row_key e \<and> kept e = made i)"

lemma retire_pass:
  assumes ab: "absorbed items t0 n t seen" and len: "length t \<le> m"
    and run: "save_where (\<lambda>e. active e \<and> eid e \<notin> seen) retire (take m t) t 0 = (t', k)"
  shows "reconciled items t0 t' \<and> tbl_wf n t' \<and>
    k = length (filter (\<lambda>e. active e \<and> row_key e \<notin> item_key ` set items) t0)"
proof -
  from ab obtain old news where t: "t = old @ news"
    and old: "list_all2 (\<lambda>e0 e. eid e = eid e0 \<and> row_key e = row_key e0 \<and> kept e = kept e0 \<and>
                  (row_key e0 \<notin> item_key ` set items \<longrightarrow> e = e0)) t0 old"
    and news: "row_key ` set news = item_key ` set items - row_key ` set t0"
    and made: "\<forall>e \<in> set news. \<exists>i \<in> set items. item_key i = row_key e \<and> kept e = made i"
    and ag: "\<forall>e \<in> set t. \<forall>i. last_item item_key items (row_key e) = Some i \<longrightarrow> agrees i e"
    and dist: "distinct (map row_key t)" "distinct (tbl_ids t)"
    by (rule absorbedE)
  let ?g = "\<lambda>e. if active e \<and> eid e \<notin> seen then retire e else e"
  have t': "t' = map ?g t" and k: "k = length (filter (\<lambda>e. active e \<and> eid e \<notin> seen) t)"
    using save_where_take[of retire t "\<lambda>e. active e \<and> eid e \<notin> seen" m 0] dist(2) run len
    by (simp_all add: retire_id)
  have gk: "row_key (?g e) = row_key e" "eid (?g e) = eid e" "kept (?g e) = kept e" for e
    by (simp_all add: retire_key retire_id retire_kept)
  have seen: "eid e \<in> seen \<longleftrightarrow> row_key e \<in> item_key ` set items" if "e \<in> set t" for e
    using absorbed_seen[OF ab that] .
  have seen_ag: "\<exists>i. agrees i e \<and> last_item item_key items (row_key e) = Some i"
    if "e \<in> set t" "row_key e \<in> item_key ` set items" for e
    using that ag last_item_None[of item_key items "row_key e"] by (metis not_None_eq)
  have len_old: "length old = length t0" using old by (simp add: list_all2_lengthD)
  have c1: "distinct (map row_key t')" using dist(1) by (simp add: t' comp_def gk)
  have c2: "\<forall>e \<in> set t'. active e \<longleftrightarrow> row_key e \<in> item_key ` set items"
    using seen seen_ag agrees_active by (auto simp: t' retire_key retire_inactive)
  have c3: "\<forall>e \<in> set t'. \<forall>i. last_item item_key items (row_key e) = Some i \<longrightarrow> agrees i e"
  proof (intro ballI allI impI)
    fix e i assume "e \<in> set t'" "last_item item_key items (row_key e) = Some i"
    moreover from this obtain x where "x \<in> set t" "e = ?g x" by (auto simp: t')
    moreover have "row_key x \<in> item_key ` set items" if "last_item item_key items (row_key x) = Some i" for x
      using last_item_Some[OF that] by force
    ultimately show "agrees i e" using seen ag by (simp add: gk retire_key split: if_splits)
  qed
  have c4: "row_key ` set t' = row_key ` set t0 \<union> item_key ` set items"
    using absorbed_keys[OF ab] unfolding t' set_map image_image gk by simp
  have c5: "list_all2 (\<lambda>e0 e. eid e = eid e0 \<and> row_key e = row_key e0 \<and> kept e = kept e0 \<and>
        (row_key e0 \<notin> item_key ` set items \<longrightarrow> e = (if active e0 then retire e0 else e0))) t0 (map ?g old)"
    unfolding list_all2_map2
    using old by (rule list.rel_mono_strong) (use seen t in \<open>auto simp: retire_id retire_key retire_kept\<close>)
  have c6: "\<forall>e \<in> set (map ?g news). \<exists>i \<in> set items. item_key i = row_key e \<and> kept e = made i"
    unfolding set_map ball_simps(9) gk by (rule made)
  have "filter (\<lambda>e. active e \<and> eid e \<notin> seen) news = []"
    using seen news by (auto simp: filter_empty_conv t)
  moreover have "length (filter (\<lambda>e. active e \<and> row_key e \<notin> item_key ` set items) old) =
      length (filter (\<lambda>e. active e \<and> row_key e \<notin> item_key ` set items) t0)"
    using old by (induction rule: list_all2_induct) auto
  moreover have "filter (\<lambda>e. active e \<and> eid e \<notin> seen) old =
      filter (\<lambda>e. active e \<and> row_key e \<notin> item_key ` set items) old"
    using seen t by (intro filter_cong) auto
  ultimately have "k = length (filter (\<lambda>e. active e \<and> row_key e \<notin> item_key ` set items) t0)"
    by (simp add: k t)
  moreover have "tbl_wf n t'"
    using absorbed_wf[OF ab] unfolding t' tbl_wf_def by (auto simp: tbl_ids_def comp_def gk list_all_iff retire_id)
  moreover have "length t0 \<le> length t'" "take (length t0) t' = map ?g old" "drop (length t0) t' = map ?g news"
    using len_old by (simp_all add: t' t)
  then have "reconciled items t0 t'"
    unfolding reconciled_def using c1 c2 c3 c4 c5 c6 by simp
  ultimately show ?thesis by blast
qed

text \<open>Reconciling again with items of the same keys retires nothing and adds
  no row.\<close>

lemma reconciled_again:
  assumes "reconciled items t0 t" "item_key ` set items' = item_key ` set items"
  shows "filter (\<lambda>e. active e \<and> row_key e \<notin> item_key ` set items') t = []"
  using assms by (auto simp: reconciled_def filter_empty_conv)

lemma reconciled_ids:
  assumes "reconciled items t0 t"
  shows "distinct (map row_key t)" "row_key ` set t = row_key ` set t0 \<union> item_key ` set items"
    "list_all2 (\<lambda>e0 e. eid e = eid e0) t0 (take (length t0) t)"
  using assms by (auto simp: reconciled_def elim!: list_all2_mono)

lemma reconciled_again_ids:
  assumes "reconciled items t0 t" "item_key ` set items' = item_key ` set items"
    and "distinct (map row_key t2)" "row_key ` set t2 = row_key ` set t \<union> item_key ` set items'"
    and "list_all2 (\<lambda>e0 e. eid e = eid e0) t (take (length t) t2)"
  shows "map eid t2 = map eid t"
proof -
  have "row_key ` set t2 = row_key ` set t"
    using assms(1,2,4) by (auto simp: reconciled_def)
  then have "card (set (map row_key t2)) = card (set (map row_key t))" by simp
  then have "length t2 = length t"
    using assms(1,3) distinct_card[of "map row_key t"] distinct_card[of "map row_key t2"]
    by (simp add: reconciled_def)
  then have "list_all2 (\<lambda>e0 e. eid e = eid e0) t t2" using assms(5) by simp
  then show ?thesis by (induction rule: list_all2_induct) auto
qed

text \<open>The row a key had before: same identifier, and what a refresh keeps.\<close>

lemma reconciled_old:
  assumes "reconciled items t0 t" "e0 \<in> set t0"
  shows "\<exists>e \<in> set t. eid e = eid e0 \<and> row_key e = row_key e0 \<and> kept e = kept e0"
proof -
  have "list_all2 (\<lambda>e0 e. eid e = eid e0 \<and> row_key e = row_key e0 \<and> kept e = kept e0) t0 (take (length t0) t)"
    using assms(1) unfolding reconciled_def by (auto elim!: list_all2_mono)
  then obtain e where "e \<in> set (take (length t0) t)" "eid e = eid e0 \<and> row_key e = row_key e0 \<and> kept e = kept e0"
    using assms(2) by (induction rule: list_all2_induct) auto
  then show ?thesis by (blast dest: in_set_takeD)
qed

lemma reconciled_new:
  assumes "reconciled items t0 t" "e \<in> set (drop (length t0) t)"
  shows "\<exists>i \<in> set items. item_key i = row_key e \<and> kept e = made i"
  using assms unfolding reconciled_def by blast

lemma reconciled_rows:
  assumes "reconciled items t0 t" "i \<in> set items"
  shows "\<exists>!e. e \<in> set t \<and> row_key e = item_key i"
proof -
  have "item_key i \<in> row_key ` set t" using assms by (auto simp: reconciled_def)
  then obtain e where "e \<in> set t" "row_key e = item_key i" by auto
  moreover have "inj_on row_key (set t)" using assms(1) by (simp add: reconciled_def distinct_map)
  ultimately show ?thesis by (metis inj_onD)
qed

end

end
