(* ===== verification/Discovery.thy ===== *)
theory Discovery
  imports Database Reconcile
begin

text \<open>
  \<open>RunDiscoveryUseCase\<close> (\<open>application/discovery/use_cases.py\<close>): one pass that
  identifies the host, reads its cPanel accounts, detects the WordPress
  installations of each and reconciles the three tables. The readers
  (\<open>CpanelAccountReader\<close>, \<open>WordPressDetector\<close>, \<open>HostInfoProvider\<close>) are
  parameters: a list of accounts, a function from the refreshed account to its
  installations, and three strings. Accounts and installations are instances of
  the locale \<open>retiring\<close> of \<^theory_text>\<open>Reconcile\<close>.
\<close>

section \<open>The use case\<close>

record discovery_result =
  dr_server_id :: uuid
  dr_accounts_found :: nat
  dr_accounts_deactivated :: nat
  dr_installations_found :: nat
  dr_installations_deactivated :: nat

record host_info =
  hi_hostname :: string
  hi_os_info :: string
  hi_agent_version :: string

definition new_server :: "datetime \<Rightarrow> host_info \<Rightarrow> uuid \<Rightarrow> server" where
  "new_server now h i = \<lparr>eid = i, created_at = now, updated_at = now, sv_hostname = hi_hostname h,
     sv_os_info = hi_os_info h, sv_agent_version = hi_agent_version h, sv_last_seen_at = now\<rparr>"

definition reconcile_server :: "host_info \<Rightarrow> datetime \<Rightarrow> db \<Rightarrow> server \<times> db" where
  "reconcile_server h now d =
     (case server_get_by_hostname (hi_hostname h) d of
        None \<Rightarrow>
          (let (i, d) = uuid4 d; s = new_server now h i
           in (s, d\<lparr>tb_servers := tbl_add s (tb_servers d)\<rparr>))
      | Some s \<Rightarrow>
          (let s = server_mark_seen now now s
           in (s, d\<lparr>tb_servers := tbl_save s (tb_servers d)\<rparr>)))"

definition new_account :: "datetime \<Rightarrow> uuid \<Rightarrow> discovered_account \<Rightarrow> uuid \<Rightarrow> cpanel_account" where
  "new_account now server_id f i = \<lparr>eid = i, created_at = now, updated_at = now,
     ac_server_id = server_id, ac_username = da_username f, ac_primary_domain = da_primary_domain f,
     ac_home_directory = da_home_directory f, ac_is_suspended = da_is_suspended f,
     ac_last_seen_at = now, ac_is_active = True\<rparr>"

definition reconcile_account ::
    "uuid \<Rightarrow> discovered_account \<Rightarrow> datetime \<Rightarrow> db \<Rightarrow> cpanel_account \<times> db" where
  "reconcile_account server_id f now d =
     (case account_get_by_username (da_username f) d of
        None \<Rightarrow>
          (let (i, d) = uuid4 d; a = new_account now server_id f i
           in (a, d\<lparr>tb_accounts := tbl_add a (tb_accounts d)\<rparr>))
      | Some a \<Rightarrow>
          (let a = account_mark_seen now (da_primary_domain f) (da_is_suspended f) now a
           in (a, d\<lparr>tb_accounts := tbl_save a (tb_accounts d)\<rparr>)))"

definition new_installation ::
    "datetime \<Rightarrow> uuid \<Rightarrow> discovered_installation \<Rightarrow> uuid \<Rightarrow> wordpress_installation" where
  "new_installation now account_id f i = \<lparr>eid = i, created_at = now, updated_at = now,
     wi_account_id = account_id, wi_absolute_path = di_absolute_path f, wi_domain = di_domain f,
     wi_wp_version = di_wp_version f, wi_is_multisite = di_is_multisite f, wi_last_seen_at = now,
     wi_is_active = True, wi_php_version = di_php_version f\<rparr>"

definition reconcile_installation ::
    "uuid \<Rightarrow> discovered_installation \<Rightarrow> datetime \<Rightarrow> db \<Rightarrow> wordpress_installation \<times> db" where
  "reconcile_installation account_id f now d =
     (case installation_get_by_path (abs_value (di_absolute_path f)) d of
        None \<Rightarrow>
          (let (i, d) = uuid4 d; w = new_installation now account_id f i
           in (w, d\<lparr>tb_installations := tbl_add w (tb_installations d)\<rparr>))
      | Some w \<Rightarrow>
          (let w = installation_mark_seen now (di_domain f) (di_wp_version f) (di_is_multisite f) now
                     (di_php_version f) w
           in (w, d\<lparr>tb_installations := tbl_save w (tb_installations d)\<rparr>)))"

text \<open>The two nested loops of \<open>execute\<close>, with the sets of identifiers seen.\<close>

fun discover_installations ::
    "datetime \<Rightarrow> uuid \<Rightarrow> discovered_installation list \<Rightarrow> uuid set \<Rightarrow> db \<Rightarrow> uuid set \<times> db" where
  "discover_installations now account_id [] seen d = (seen, d)"
| "discover_installations now account_id (f # fs) seen d =
     (let (w, d) = reconcile_installation account_id f now d
      in discover_installations now account_id fs (insert (eid w) seen) d)"

fun discover_accounts ::
    "datetime \<Rightarrow> uuid \<Rightarrow> (cpanel_account \<Rightarrow> discovered_installation list) \<Rightarrow>
     discovered_account list \<Rightarrow> uuid set \<Rightarrow> uuid set \<Rightarrow> nat \<Rightarrow> db \<Rightarrow> uuid set \<times> uuid set \<times> nat \<times> db" where
  "discover_accounts now server_id detect [] accs insts n d = (accs, insts, n, d)"
| "discover_accounts now server_id detect (f # fs) accs insts n d =
     (let (a, d) = reconcile_account server_id f now d;
          installations = detect a;
          (insts, d) = discover_installations now (eid a) installations insts d
      in discover_accounts now server_id detect fs (insert (eid a) accs) insts
           (n + length installations) d)"

definition deactivate_stale_accounts :: "datetime \<Rightarrow> uuid set \<Rightarrow> db \<Rightarrow> nat \<times> db" where
  "deactivate_stale_accounts now seen d =
     (let (t, n) = save_where (\<lambda>a. ac_is_active a \<and> eid a \<notin> seen) (account_mark_inactive now)
                     (tbl_list 10000 0 (tb_accounts d)) (tb_accounts d) 0
      in (n, d\<lparr>tb_accounts := t\<rparr>))"

definition deactivate_stale_installations :: "datetime \<Rightarrow> uuid set \<Rightarrow> db \<Rightarrow> nat \<times> db" where
  "deactivate_stale_installations now seen d =
     (let (t, n) = save_where (\<lambda>w. wi_is_active w \<and> eid w \<notin> seen) (installation_mark_inactive now)
                     (tbl_list 10000 0 (tb_installations d)) (tb_installations d) 0
      in (n, d\<lparr>tb_installations := t\<rparr>))"

definition run_discovery ::
    "host_info \<Rightarrow> discovered_account list \<Rightarrow> (cpanel_account \<Rightarrow> discovered_installation list) \<Rightarrow>
     datetime \<Rightarrow> db \<Rightarrow> discovery_result \<times> db" where
  "run_discovery h found detect now d =
     (let (server, d) = reconcile_server h now d;
          (accs, insts, n, d) = discover_accounts now (eid server) detect found {} {} 0 d;
          (accounts_deactivated, d) = deactivate_stale_accounts now accs d;
          (installations_deactivated, d) = deactivate_stale_installations now insts d
      in (\<lparr>dr_server_id = eid server, dr_accounts_found = length found,
           dr_accounts_deactivated = accounts_deactivated, dr_installations_found = n,
           dr_installations_deactivated = installations_deactivated\<rparr>, d))"

section \<open>Accounts and installations keep the contract\<close>

abbreviation ac_key :: "cpanel_account \<Rightarrow> string" where
  "ac_key a \<equiv> user_value (ac_username a)"

abbreviation da_key :: "discovered_account \<Rightarrow> string" where
  "da_key f \<equiv> user_value (da_username f)"

abbreviation wi_key :: "wordpress_installation \<Rightarrow> string" where
  "wi_key w \<equiv> abs_value (wi_absolute_path w)"

abbreviation di_key :: "discovered_installation \<Rightarrow> string" where
  "di_key f \<equiv> abs_value (di_absolute_path f)"

text \<open>What \<open>mark_seen\<close> refreshes from a report. The home directory of an account and the account of an
  installation are not among it: they are written once, when the row is made, and are what the two locales below
  call \<open>kept\<close> and \<open>made\<close>.\<close>

definition account_agrees :: "datetime \<Rightarrow> discovered_account \<Rightarrow> cpanel_account \<Rightarrow> bool" where
  "account_agrees now f a \<longleftrightarrow> ac_primary_domain a = da_primary_domain f \<and>
     ac_is_suspended a = da_is_suspended f \<and> ac_last_seen_at a = now \<and> ac_is_active a"

definition installation_agrees :: "datetime \<Rightarrow> discovered_installation \<Rightarrow> wordpress_installation \<Rightarrow> bool" where
  "installation_agrees now f w \<longleftrightarrow> wi_domain w = di_domain f \<and> wi_wp_version w = di_wp_version f \<and>
     wi_is_multisite w = di_is_multisite f \<and> wi_php_version w = di_php_version f \<and>
     wi_last_seen_at w = now \<and> wi_is_active w"

interpretation acc: retiring ac_key da_key "new_account now server_id"
    "\<lambda>f. account_mark_seen now (da_primary_domain f) (da_is_suspended f) now" "account_agrees now"
    "\<lambda>a. (created_at a, ac_home_directory a)" "\<lambda>f. (now, da_home_directory f)" ac_is_active
    "account_mark_inactive now"
  for now :: datetime and server_id :: uuid
  by unfold_locales
    (auto simp: new_account_def account_agrees_def account_mark_seen_def account_mark_inactive_def touch_def)

interpretation srv: upserting sv_hostname hi_hostname "new_server now" "\<lambda>_. server_mark_seen now now"
    "\<lambda>_ s. sv_last_seen_at s = now" "\<lambda>s. (created_at s, sv_os_info s)" "\<lambda>h. (now, hi_os_info h)"
  for now :: datetime
  by unfold_locales (auto simp: new_server_def server_mark_seen_def touch_def)

interpretation inst: retiring wi_key "\<lambda>p. di_key (snd p)" "\<lambda>p. new_installation now (fst p) (snd p)"
    "\<lambda>p. installation_mark_seen now (di_domain (snd p)) (di_wp_version (snd p)) (di_is_multisite (snd p)) now
           (di_php_version (snd p))" "\<lambda>p. installation_agrees now (snd p)"
    "\<lambda>w. (created_at w, wi_account_id w)" "\<lambda>p. (now, fst p)" wi_is_active "installation_mark_inactive now"
  for now :: datetime
  by unfold_locales
    (auto simp: new_installation_def installation_agrees_def installation_mark_seen_def
       installation_mark_inactive_def touch_def)

lemma reconcile_account_upsert:
  assumes "reconcile_account server_id f now d = (a, d')"
  obtains t n where "d' = d\<lparr>tb_accounts := t, next_uuid := n\<rparr>"
    "upsert ac_key (da_key f) (new_account now server_id f)
       (account_mark_seen now (da_primary_domain f) (da_is_suspended f) now) (next_uuid d) (tb_accounts d) = (a, t, n)"
proof -
  have "\<exists>t n. d' = d\<lparr>tb_accounts := t, next_uuid := n\<rparr> \<and>
    upsert ac_key (da_key f) (new_account now server_id f)
       (account_mark_seen now (da_primary_domain f) (da_is_suspended f) now) (next_uuid d) (tb_accounts d) = (a, t, n)"
    using assms
    by (auto simp: reconcile_account_def upsert_def account_get_by_username_def uuid4_def Let_def
        split: option.splits)
  then show ?thesis using that by blast
qed

lemma reconcile_installation_upsert:
  assumes "reconcile_installation account_id f now d = (w, d')"
  obtains t n where "d' = d\<lparr>tb_installations := t, next_uuid := n\<rparr>"
    "upsert wi_key (di_key f) (new_installation now account_id f)
       (installation_mark_seen now (di_domain f) (di_wp_version f) (di_is_multisite f) now (di_php_version f))
       (next_uuid d) (tb_installations d) = (w, t, n)"
proof -
  have "\<exists>t n. d' = d\<lparr>tb_installations := t, next_uuid := n\<rparr> \<and>
    upsert wi_key (di_key f) (new_installation now account_id f)
       (installation_mark_seen now (di_domain f) (di_wp_version f) (di_is_multisite f) now (di_php_version f))
       (next_uuid d) (tb_installations d) = (w, t, n)"
    using assms
    by (auto simp: reconcile_installation_def upsert_def installation_get_by_path_def uuid4_def Let_def
        split: option.splits)
  then show ?thesis using that by blast
qed

section \<open>The loops\<close>

lemma discover_installations_absorbed:
  assumes "inst.absorbed now items t0 (next_uuid d) (tb_installations d) seen"
    and "discover_installations now account_id fs seen d = (seen', d')"
  shows "\<exists>t n. d' = d\<lparr>tb_installations := t, next_uuid := n\<rparr> \<and> next_uuid d \<le> n \<and>
    inst.absorbed now (items @ map (Pair account_id) fs) t0 n t seen'"
  using assms
proof (induction fs arbitrary: items seen d)
  case Nil
  then show ?case by (intro exI[of _ "tb_installations d"] exI[of _ "next_uuid d"]) simp
next
  case (Cons f fs)
  obtain w d1 where one: "reconcile_installation account_id f now d = (w, d1)" by fastforce
  then obtain t1 n1 where up: "d1 = d\<lparr>tb_installations := t1, next_uuid := n1\<rparr>"
    "upsert wi_key (di_key f) (new_installation now account_id f)
       (installation_mark_seen now (di_domain f) (di_wp_version f) (di_is_multisite f) now (di_php_version f))
       (next_uuid d) (tb_installations d) = (w, t1, n1)" by (rule reconcile_installation_upsert)
  note step = inst.absorbed_step[where i = "(account_id, f)", OF Cons.prems(1), unfolded fst_conv snd_conv, OF up(2)]
  have "discover_installations now account_id fs (insert (eid w) seen) d1 = (seen', d')"
    using Cons.prems(2) one by simp
  with Cons.IH[of "items @ [(account_id, f)]" d1 "insert (eid w) seen"] step(1)
  obtain t n where "d' = d1\<lparr>tb_installations := t, next_uuid := n\<rparr>" "n1 \<le> n"
    "inst.absorbed now (items @ map (Pair account_id) (f # fs)) t0 n t seen'"
    unfolding up(1) by auto
  then show ?case using step(2) up(1) by (intro exI[of _ t] exI[of _ n]) simp
qed

definition detections ::
    "(cpanel_account \<Rightarrow> discovered_installation list) \<Rightarrow> db \<Rightarrow> discovered_account \<Rightarrow>
     (uuid \<times> discovered_installation) list" where
  "detections detect d f =
     (case account_get_by_username (da_username f) d of
        None \<Rightarrow> []
      | Some a \<Rightarrow> map (Pair (eid a)) (detect a))"

lemma detections_cong:
  assumes "\<And>f. f \<in> set fs \<Longrightarrow> account_get_by_username (da_username f) d' = account_get_by_username (da_username f) d"
  shows "concat (map (detections detect d') fs) = concat (map (detections detect d) fs)"
  using assms by (intro arg_cong[where f = concat] map_cong) (auto simp: detections_def)

lemma discover_accounts_absorbed:
  assumes "acc.absorbed now fs0 a0 (next_uuid d) (tb_accounts d) accs"
    and "inst.absorbed now (concat (map (detections detect d) fs0)) i0 (next_uuid d) (tb_installations d) insts"
    and "n = length (concat (map (detections detect d) fs0))" "distinct (map da_key (fs0 @ fs))"
    and "discover_accounts now server_id detect fs accs insts n d = (accs', insts', n', d')"
  shows "\<exists>ta ti m. d' = d\<lparr>tb_accounts := ta, tb_installations := ti, next_uuid := m\<rparr> \<and> next_uuid d \<le> m \<and>
    acc.absorbed now (fs0 @ fs) a0 m ta accs' \<and>
    inst.absorbed now (concat (map (detections detect d') (fs0 @ fs))) i0 m ti insts' \<and>
    n' = length (concat (map (detections detect d') (fs0 @ fs)))"
  using assms
proof (induction fs arbitrary: fs0 accs insts n d)
  case Nil
  then show ?case
    by (intro exI[of _ "tb_accounts d"] exI[of _ "tb_installations d"] exI[of _ "next_uuid d"]) auto
next
  case (Cons f fs)
  obtain a d1 where one: "reconcile_account server_id f now d = (a, d1)" by fastforce
  then obtain ta n1 where up: "d1 = d\<lparr>tb_accounts := ta, next_uuid := n1\<rparr>"
    "upsert ac_key (da_key f) (new_account now server_id f)
       (account_mark_seen now (da_primary_domain f) (da_is_suspended f) now) (next_uuid d) (tb_accounts d) = (a, ta, n1)"
    by (rule reconcile_account_upsert)
  obtain insts2 d2 where two: "discover_installations now (eid a) (detect a) insts d1 = (insts2, d2)" by fastforce
  note step = acc.absorbed_step[OF Cons.prems(1) up(2)]
  have lookup: "account_get_by_username u d1 =
      (if user_value u = da_key f then Some a else account_get_by_username u d)" for u
    using acc.absorbed_step_lookup[OF Cons.prems(1) up(2), of "user_value u"]
    by (simp add: account_get_by_username_def up(1))
  let ?items = "concat (map (detections detect d) fs0)"
  have "inst.absorbed now ?items i0 (next_uuid d1) (tb_installations d1) insts"
    using inst.absorbed_mono[OF Cons.prems(2) step(2)] by (simp add: up(1))
  from discover_installations_absorbed[OF this two]
  obtain ti n2 where d2: "d2 = d1\<lparr>tb_installations := ti, next_uuid := n2\<rparr>" "n1 \<le> n2"
    and ab2: "inst.absorbed now (?items @ map (Pair (eid a)) (detect a)) i0 n2 ti insts2"
    by (auto simp: up(1))
  have lookup2: "account_get_by_username u d2 = account_get_by_username u d1" for u
    by (simp add: account_get_by_username_def d2(1))
  have "concat (map (detections detect d2) fs0) = ?items"
    using Cons.prems(4) by (intro detections_cong) (auto simp: lookup2 lookup, metis imageI)
  moreover have "detections detect d2 f = map (Pair (eid a)) (detect a)"
    by (simp add: detections_def lookup2 lookup)
  ultimately have items: "concat (map (detections detect d2) (fs0 @ [f])) = ?items @ map (Pair (eid a)) (detect a)"
    by simp
  have tabs: "next_uuid d2 = n2" "tb_installations d2 = ti" by (simp_all add: d2(1))
  have "discover_accounts now server_id detect fs (insert (eid a) accs) insts2
      (n + length (detect a)) d2 = (accs', insts', n', d')"
    using Cons.prems(5) one two by simp
  moreover have "acc.absorbed now (fs0 @ [f]) a0 (next_uuid d2) (tb_accounts d2) (insert (eid a) accs)"
    using acc.absorbed_mono[OF step(1) d2(2)] by (simp add: d2(1) up(1))
  moreover have "inst.absorbed now (concat (map (detections detect d2) (fs0 @ [f]))) i0 (next_uuid d2)
      (tb_installations d2) insts2"
    using ab2 unfolding items tabs .
  moreover have "n + length (detect a) = length (concat (map (detections detect d2) (fs0 @ [f])))"
    unfolding items using Cons.prems(3) by simp
  moreover have "distinct (map da_key ((fs0 @ [f]) @ fs))" using Cons.prems(4) by simp
  ultimately obtain ta' ti' m where "d' = d2\<lparr>tb_accounts := ta', tb_installations := ti', next_uuid := m\<rparr>"
    "next_uuid d2 \<le> m" "acc.absorbed now (fs0 @ f # fs) a0 m ta' accs'"
    "inst.absorbed now (concat (map (detections detect d') (fs0 @ f # fs))) i0 m ti' insts'"
    "n' = length (concat (map (detections detect d') (fs0 @ f # fs)))"
    using Cons.IH[of "fs0 @ [f]" d2 "insert (eid a) accs" insts2 "n + length (detect a)"] by auto
  then show ?case
    using step(2) d2 up(1) by (intro exI[of _ ta'] exI[of _ ti'] exI[of _ m]) simp
qed

section \<open>A whole pass\<close>

definition discovery_unique :: "db \<Rightarrow> bool" where
  "discovery_unique d \<longleftrightarrow> distinct (map ac_key (tb_accounts d)) \<and> distinct (map wi_key (tb_installations d)) \<and>
     distinct (map sv_hostname (tb_servers d))"

lemma reconcile_server_effect:
  assumes "reconcile_server h now d = (s, d')" "tbl_wf (next_uuid d) (tb_servers d)"
    and "distinct (map sv_hostname (tb_servers d))"
  shows "\<exists>t n. d' = d\<lparr>tb_servers := t, next_uuid := n\<rparr> \<and> next_uuid d \<le> n \<and> tbl_wf n t \<and>
    distinct (map sv_hostname t) \<and> s \<in> set t \<and> sv_hostname s = hi_hostname h"
proof -
  have "\<exists>t n. d' = d\<lparr>tb_servers := t, next_uuid := n\<rparr> \<and>
    upsert sv_hostname (hi_hostname h) (new_server now h) (server_mark_seen now now) (next_uuid d) (tb_servers d) =
      (s, t, n)"
    using assms(1)
    by (auto simp: reconcile_server_def upsert_def server_get_by_hostname_def uuid4_def Let_def
        split: option.splits)
  then obtain t n where d': "d' = d\<lparr>tb_servers := t, next_uuid := n\<rparr>"
    and up: "upsert sv_hostname (hi_hostname h) (new_server now h) (server_mark_seen now now) (next_uuid d)
        (tb_servers d) = (s, t, n)" by blast
  note step = srv.absorbed_step[OF srv.absorbed_Nil[OF assms(2,3)] up]
  from step(1) have "tbl_wf n t" "distinct (map sv_hostname t)"
    by (auto simp: srv.absorbed_def)
  then show ?thesis using d' step(2-4) by blast
qed

lemma find_map_id:
  assumes "\<And>x. k (g x) = k x" "\<And>x. x \<in> set t \<Longrightarrow> k x = c \<Longrightarrow> g x = x"
  shows "find (\<lambda>x. k x = c) (map g t) = find (\<lambda>x. k x = c) t"
  using assms by (induction t) auto

lemma run_discovery_reconciled:
  assumes "db_wf d" "discovery_unique d" "distinct (map da_key found)"
    and "run_discovery h found detect now d = (r, d')"
    and "length (tb_accounts d') \<le> 10000" "length (tb_installations d') \<le> 10000"
  shows "acc.reconciled now found (tb_accounts d) (tb_accounts d') \<and>
    inst.reconciled now (concat (map (detections detect d') found)) (tb_installations d) (tb_installations d') \<and>
    dr_accounts_found r = length found \<and>
    dr_accounts_deactivated r = length (filter (\<lambda>a. ac_is_active a \<and> ac_key a \<notin> da_key ` set found) (tb_accounts d)) \<and>
    dr_installations_found r = length (concat (map (detections detect d') found)) \<and>
    dr_installations_deactivated r = length (filter (\<lambda>w. wi_is_active w \<and>
       wi_key w \<notin> (\<lambda>p. di_key (snd p)) ` set (concat (map (detections detect d') found))) (tb_installations d)) \<and>
    db_wf d' \<and> discovery_unique d' \<and>
    (\<exists>ts ta ti n. d' = d\<lparr>tb_servers := ts, tb_accounts := ta, tb_installations := ti, next_uuid := n\<rparr>)"
proof -
  obtain s d1 where srv: "reconcile_server h now d = (s, d1)" by fastforce
  with reconcile_server_effect[OF srv] assms(1,2) obtain ts n1 where
    d1: "d1 = d\<lparr>tb_servers := ts, next_uuid := n1\<rparr>" "next_uuid d \<le> n1" "tbl_wf n1 ts" "distinct (map sv_hostname ts)"
    by (auto simp: db_wf_def discovery_unique_def)
  obtain accs insts n d2 where loop: "discover_accounts now (eid s) detect found {} {} 0 d1 = (accs, insts, n, d2)"
    by (metis prod_cases4)
  have "acc.absorbed now [] (tb_accounts d) (next_uuid d1) (tb_accounts d1) {}"
    using assms(1,2) d1(2) unfolding d1(1) discovery_unique_def
    by (auto intro!: acc.absorbed_Nil tbl_wf_mono[OF db_wfD(1)[OF assms(1)]])
  moreover have "inst.absorbed now (concat (map (detections detect d1) [])) (tb_installations d) (next_uuid d1) (tb_installations d1) {}"
    using assms(1,2) d1(2) unfolding d1(1) discovery_unique_def
    by (auto intro!: inst.absorbed_Nil tbl_wf_mono[OF db_wfD(2)[OF assms(1)]])
  ultimately obtain ta ti m where d2: "d2 = d1\<lparr>tb_accounts := ta, tb_installations := ti, next_uuid := m\<rparr>" "n1 \<le> m"
    and aa: "acc.absorbed now found (tb_accounts d) m ta accs"
    and ii: "inst.absorbed now (concat (map (detections detect d2) found)) (tb_installations d) m ti insts"
    and n: "n = length (concat (map (detections detect d2) found))"
    using discover_accounts_absorbed[of now "[]" "tb_accounts d" d1 "{}" detect "tb_installations d" "{}" 0 found "eid s"]
      loop assms(3) by (auto simp: d1(1))
  obtain ta' ka where ra: "save_where (\<lambda>a. ac_is_active a \<and> eid a \<notin> accs) (account_mark_inactive now) (take 10000 ta) ta 0 = (ta', ka)"
    by fastforce
  obtain ti' ki where ri: "save_where (\<lambda>w. wi_is_active w \<and> eid w \<notin> insts) (installation_mark_inactive now) (take 10000 ti) ti 0 = (ti', ki)"
    by fastforce
  have out: "d' = d\<lparr>tb_servers := ts, tb_accounts := ta', tb_installations := ti', next_uuid := m\<rparr>"
    "r = \<lparr>dr_server_id = eid s, dr_accounts_found = length found, dr_accounts_deactivated = ka,
          dr_installations_found = n, dr_installations_deactivated = ki\<rparr>"
    using assms(4) srv loop ra ri
    by (auto simp: run_discovery_def deactivate_stale_accounts_def deactivate_stale_installations_def
        tbl_list_def d2(1) d1(1))
  have ids: "distinct (tbl_ids ta)" "distinct (tbl_ids ti)"
    using acc.absorbed_wf[OF aa] inst.absorbed_wf[OF ii] by (simp_all add: tbl_wf_def)
  have lens: "length ta \<le> 10000" "length ti \<le> 10000"
    using save_where_take[OF _ ids(1), of "account_mark_inactive now" _ 10000 0] ra
      save_where_take[OF _ ids(2), of "installation_mark_inactive now" _ 10000 0] ri assms(5,6)
    by (auto simp: out(1))
  note pa = acc.retire_pass[OF aa lens(1) ra]
  note pi = inst.retire_pass[OF ii lens(2) ri]
  let ?g = "\<lambda>a. if ac_is_active a \<and> eid a \<notin> accs then account_mark_inactive now a else a"
  have ta': "ta' = map ?g ta"
    using save_where_take[OF _ ids(1), of "account_mark_inactive now" _ 10000 0] ra lens(1) by simp
  have det: "concat (map (detections detect d') found) = concat (map (detections detect d2) found)"
  proof (rule detections_cong)
    fix f assume f: "f \<in> set found"
    have "find (\<lambda>a. ac_key a = da_key f) (map ?g ta) = find (\<lambda>a. ac_key a = da_key f) ta"
      using acc.absorbed_seen[OF aa] f by (intro find_map_id) auto
    then show "account_get_by_username (da_username f) d' = account_get_by_username (da_username f) d2"
      by (simp add: account_get_by_username_def out(1) d2(1) ta')
  qed
  have "db_wf d'"
    using assms(1) d1(2,3) d2(2) pa pi tbl_wf_mono[OF d1(3) d2(2)]
    by (auto simp: db_wf_def out(1) intro: tbl_wf_mono[OF _ order_trans[OF d1(2) d2(2)]])
  moreover have "discovery_unique d'"
    using pa pi d1(4) by (simp add: discovery_unique_def out(1) acc.reconciled_def inst.reconciled_def)
  ultimately show ?thesis
    using pa pi n unfolding det by (auto simp: out)
qed

section \<open>The properties\<close>

text \<open>The limit of the two deactivation queries is 10000 rows; beyond it, rows
  that were not seen stay active. The hypotheses say that the tables fit.\<close>

definition discovery_fits :: "db \<Rightarrow> bool" where
  "discovery_fits d \<longleftrightarrow> length (tb_accounts d) \<le> 10000 \<and> length (tb_installations d) \<le> 10000"

text \<open>C17. After a discovery pass the accounts table mirrors the server: an
  account is active exactly when the reader reported its user name, every
  reported account has exactly one row and the row carries the domain and the suspension that were reported;
  no row is ever deleted, and an account that disappeared is only marked
  inactive. The home directory is the reported one in a row the pass made; in an older row it stays what it was,
  whatever the reader reports now. The counts of the result are the true ones.\<close>

theorem discovery_accounts:
  assumes "db_wf d" "discovery_unique d" "distinct (map da_key found)"
    and "run_discovery h found detect now d = (r, d')" "discovery_fits d'"
  shows "(\<forall>a \<in> set (tb_accounts d'). ac_is_active a \<longleftrightarrow> ac_key a \<in> da_key ` set found) \<and>
    (\<forall>f \<in> set found. \<exists>!a. a \<in> set (tb_accounts d') \<and> ac_key a = da_key f) \<and>
    (\<forall>f \<in> set found. \<forall>a \<in> set (tb_accounts d'). ac_key a = da_key f \<longrightarrow> account_agrees now f a) \<and>
    list_all2 (\<lambda>a a'. eid a' = eid a \<and> ac_key a' = ac_key a \<and> ac_home_directory a' = ac_home_directory a \<and>
        (ac_key a \<notin> da_key ` set found \<longrightarrow> a' = (if ac_is_active a then account_mark_inactive now a else a)))
      (tb_accounts d) (take (length (tb_accounts d)) (tb_accounts d')) \<and>
    (\<forall>a \<in> set (drop (length (tb_accounts d)) (tb_accounts d')).
       \<exists>f \<in> set found. ac_key a = da_key f \<and> ac_home_directory a = da_home_directory f) \<and>
    dr_accounts_found r = length found \<and>
    dr_accounts_deactivated r = length (filter (\<lambda>a. ac_is_active a \<and> ac_key a \<notin> da_key ` set found) (tb_accounts d))"
proof -
  have R: "acc.reconciled now found (tb_accounts d) (tb_accounts d')"
    and n: "dr_accounts_found r = length found"
      "dr_accounts_deactivated r = length (filter (\<lambda>a. ac_is_active a \<and> ac_key a \<notin> da_key ` set found) (tb_accounts d))"
    using run_discovery_reconciled[OF assms(1-4)] assms(5) by (simp_all add: discovery_fits_def)
  have "account_agrees now f a" if "f \<in> set found" "a \<in> set (tb_accounts d')" "ac_key a = da_key f" for f a
    using R that last_item_distinct[OF assms(3) that(1)] by (simp add: acc.reconciled_def)
  moreover have "\<exists>!a. a \<in> set (tb_accounts d') \<and> ac_key a = da_key f" if "f \<in> set found" for f
    using acc.reconciled_rows[OF R that] .
  moreover have "list_all2 (\<lambda>a a'. eid a' = eid a \<and> ac_key a' = ac_key a \<and> ac_home_directory a' = ac_home_directory a \<and>
        (ac_key a \<notin> da_key ` set found \<longrightarrow> a' = (if ac_is_active a then account_mark_inactive now a else a)))
      (tb_accounts d) (take (length (tb_accounts d)) (tb_accounts d'))"
    using R unfolding acc.reconciled_def by (auto elim!: list_all2_mono)
  moreover have "\<exists>f \<in> set found. ac_key a = da_key f \<and> ac_home_directory a = da_home_directory f"
    if "a \<in> set (drop (length (tb_accounts d)) (tb_accounts d'))" for a
    using acc.reconciled_new [OF R that] by (auto intro!: bexI)
  ultimately show ?thesis
    using R n by (simp add: acc.reconciled_def)
qed

text \<open>What the detector finds: in the accounts that are active after the pass.\<close>

lemma detections_active:
  assumes "db_wf d" "discovery_unique d" "distinct (map da_key found)"
    and "run_discovery h found detect now d = (r, d')" "discovery_fits d'"
  shows "set (concat (map (detections detect d') found)) =
    {(eid a, x) | a x. a \<in> set (tb_accounts d') \<and> ac_is_active a \<and> x \<in> set (detect a)}"
proof -
  have R: "acc.reconciled now found (tb_accounts d) (tb_accounts d')"
    using run_discovery_reconciled[OF assms(1-4)] assms(5) by (simp add: discovery_fits_def)
  have dist: "distinct (map ac_key (tb_accounts d'))" using R by (simp add: acc.reconciled_def)
  have act: "ac_is_active a \<longleftrightarrow> ac_key a \<in> da_key ` set found" if "a \<in> set (tb_accounts d')" for a
    using R that by (simp add: acc.reconciled_def)
  have get: "account_get_by_username (da_username f) d' = Some a \<longleftrightarrow> a \<in> set (tb_accounts d') \<and> ac_key a = da_key f" for f a
    using find_distinct[OF dist, of a] find_SomeD[of "\<lambda>a. ac_key a = da_key f" "tb_accounts d'" a]
    by (auto simp: account_get_by_username_def)
  have "p \<in> set (detections detect d' f) \<longleftrightarrow>
      (\<exists>a x. p = (eid a, x) \<and> a \<in> set (tb_accounts d') \<and> ac_key a = da_key f \<and> x \<in> set (detect a))" for p f
    using get[of f] by (cases "account_get_by_username (da_username f) d'") (auto simp: detections_def, metis imageI)
  then show ?thesis using act by (auto simp: image_iff) metis+
qed

text \<open>C18. After a discovery pass an installation is active exactly when the
  detector finds its path in the home directory of an account that is active
  after the pass, and then it carries what the detector reported for that
  path; every path found has exactly one row. A row the pass made belongs to such an account, one that is active
  and in whose home directory the detector found the path; an older row keeps the account it had.\<close>

theorem discovery_installations:
  assumes "db_wf d" "discovery_unique d" "distinct (map da_key found)"
    and "run_discovery h found detect now d = (r, d')" "discovery_fits d'"
  shows "(\<forall>w \<in> set (tb_installations d'). wi_is_active w \<longleftrightarrow>
       (\<exists>a \<in> set (tb_accounts d'). ac_is_active a \<and> wi_key w \<in> di_key ` set (detect a))) \<and>
    (\<forall>w \<in> set (tb_installations d'). wi_is_active w \<longrightarrow>
       (\<exists>a \<in> set (tb_accounts d'). ac_is_active a \<and>
          (\<exists>x \<in> set (detect a). di_key x = wi_key w \<and> installation_agrees now x w))) \<and>
    (\<forall>a \<in> set (tb_accounts d'). ac_is_active a \<longrightarrow> (\<forall>x \<in> set (detect a).
       \<exists>!w. w \<in> set (tb_installations d') \<and> wi_key w = di_key x)) \<and>
    list_all2 (\<lambda>w w'. eid w' = eid w \<and> wi_key w' = wi_key w \<and> wi_account_id w' = wi_account_id w)
      (tb_installations d) (take (length (tb_installations d)) (tb_installations d')) \<and>
    (\<forall>w \<in> set (drop (length (tb_installations d)) (tb_installations d')).
       \<exists>a \<in> set (tb_accounts d'). ac_is_active a \<and> wi_key w \<in> di_key ` set (detect a) \<and> wi_account_id w = eid a)"
proof -
  let ?items = "concat (map (detections detect d') found)"
  have R: "inst.reconciled now ?items (tb_installations d) (tb_installations d')"
    using run_discovery_reconciled[OF assms(1-4)] assms(5) by (simp add: discovery_fits_def)
  note det = detections_active[OF assms]
  have act: "wi_is_active w \<longleftrightarrow> wi_key w \<in> (\<lambda>p. di_key (snd p)) ` set ?items" if "w \<in> set (tb_installations d')" for w
    using R that by (simp add: inst.reconciled_def)
  have keys: "k \<in> (\<lambda>p. di_key (snd p)) ` set ?items \<longleftrightarrow>
      (\<exists>a \<in> set (tb_accounts d'). ac_is_active a \<and> k \<in> di_key ` set (detect a))" for k
    unfolding det by (auto simp: image_iff)
  have agree: "\<exists>a \<in> set (tb_accounts d'). ac_is_active a \<and>
          (\<exists>x \<in> set (detect a). di_key x = wi_key w \<and> installation_agrees now x w)"
    if w: "w \<in> set (tb_installations d')" "wi_is_active w" for w
  proof -
    obtain p where p: "last_item (\<lambda>p. di_key (snd p)) ?items (wi_key w) = Some p"
      using act[OF w(1)] w(2) last_item_None by (metis not_None_eq)
    then have "installation_agrees now (snd p) w" using R w(1) unfolding inst.reconciled_def by blast
    moreover have "p \<in> set ?items" "di_key (snd p) = wi_key w" using last_item_Some[OF p] by auto
    ultimately show ?thesis unfolding det by force
  qed
  have rows: "\<exists>!w. w \<in> set (tb_installations d') \<and> wi_key w = di_key x"
    if "a \<in> set (tb_accounts d')" "ac_is_active a" "x \<in> set (detect a)" for a x
  proof -
    have "(eid a, x) \<in> set ?items" unfolding det using that by blast
    from inst.reconciled_rows[OF R this] show ?thesis by simp
  qed
  have active: "\<forall>w \<in> set (tb_installations d'). wi_is_active w \<longleftrightarrow>
       (\<exists>a \<in> set (tb_accounts d'). ac_is_active a \<and> wi_key w \<in> di_key ` set (detect a))"
    using act unfolding keys by blast
  have old: "list_all2 (\<lambda>w w'. eid w' = eid w \<and> wi_key w' = wi_key w \<and> wi_account_id w' = wi_account_id w)
      (tb_installations d) (take (length (tb_installations d)) (tb_installations d'))"
    using R unfolding inst.reconciled_def by (auto elim!: list_all2_mono)
  have "\<exists>a \<in> set (tb_accounts d'). ac_is_active a \<and> wi_key w \<in> di_key ` set (detect a) \<and> wi_account_id w = eid a"
    if w: "w \<in> set (drop (length (tb_installations d)) (tb_installations d'))" for w
  proof -
    obtain p where "p \<in> set ?items" "di_key (snd p) = wi_key w" "wi_account_id w = fst p"
      using inst.reconciled_new [OF R w] by auto
    then show ?thesis unfolding det by force
  qed
  then show ?thesis using agree rows active old by simp
qed

text \<open>Discovery is idempotent: a second pass over an unchanged server
  deactivates nothing and creates nothing, neither accounts nor installations.
  The detector looks only at the home directory and the primary domain.\<close>

theorem discovery_idempotent:
  assumes "db_wf d" "discovery_unique d" "distinct (map da_key found)"
    and "run_discovery h found detect now d = (r, d')" "discovery_fits d'"
    and "run_discovery h found detect later d' = (r2, d2)" "discovery_fits d2"
    and "\<And>a b. ac_home_directory a = ac_home_directory b \<Longrightarrow> ac_primary_domain a = ac_primary_domain b \<Longrightarrow>
           detect a = detect b"
  shows "dr_accounts_deactivated r2 = 0 \<and> dr_installations_deactivated r2 = 0 \<and>
    map eid (tb_accounts d2) = map eid (tb_accounts d') \<and>
    map eid (tb_installations d2) = map eid (tb_installations d')"
proof -
  let ?it = "\<lambda>d. concat (map (detections detect d) found)"
  have one: "acc.reconciled now found (tb_accounts d) (tb_accounts d')"
    "inst.reconciled now (?it d') (tb_installations d) (tb_installations d')" "db_wf d'" "discovery_unique d'"
    using run_discovery_reconciled[OF assms(1-4)] assms(5) by (simp_all only: discovery_fits_def)
  have two: "acc.reconciled later found (tb_accounts d') (tb_accounts d2)"
    "inst.reconciled later (?it d2) (tb_installations d') (tb_installations d2)"
    "dr_accounts_deactivated r2 = length (filter (\<lambda>a. ac_is_active a \<and> ac_key a \<notin> da_key ` set found) (tb_accounts d'))"
    "dr_installations_deactivated r2 = length (filter (\<lambda>w. wi_is_active w \<and>
       wi_key w \<notin> (\<lambda>p. di_key (snd p)) ` set (?it d2)) (tb_installations d'))"
    using run_discovery_reconciled[OF one(3,4) assms(3,6)] assms(7) by (simp_all only: discovery_fits_def)
  have R: "(\<forall>a \<in> set (tb_accounts d'). ac_is_active a \<longleftrightarrow> ac_key a \<in> da_key ` set found)"
    "(\<forall>a \<in> set (tb_accounts d2). ac_is_active a \<longleftrightarrow> ac_key a \<in> da_key ` set found)"
    "da_key ` set found \<subseteq> ac_key ` set (tb_accounts d')" "distinct (map ac_key (tb_accounts d2))"
    using one(1) two(1) by (auto simp: acc.reconciled_def)
  have dom: "ac_primary_domain a = da_primary_domain f"
    if "f \<in> set found" "ac_key a = da_key f" "a \<in> set (tb_accounts d') \<or> a \<in> set (tb_accounts d2)" for f a
    using one(1) two(1) that last_item_distinct[OF assms(3) that(1)]
    by (auto simp: acc.reconciled_def account_agrees_def)
  have fwd: "\<exists>b \<in> set (tb_accounts d2). ac_is_active b \<and> ac_key b = ac_key a \<and> detect b = detect a"
    if a: "a \<in> set (tb_accounts d')" "ac_is_active a" for a
  proof -
    obtain b where b: "b \<in> set (tb_accounts d2)" "ac_key b = ac_key a" "ac_home_directory b = ac_home_directory a"
      using acc.reconciled_old[OF two(1) a(1)] by auto
    obtain f where "f \<in> set found" "ac_key a = da_key f" using R(1) a by auto
    then have "ac_primary_domain b = ac_primary_domain a" using dom a(1) b(1,2) by metis
    then show ?thesis using b a R assms(8) by metis
  qed
  have bwd: "\<exists>a \<in> set (tb_accounts d'). ac_is_active a \<and> detect a = detect b"
    if b: "b \<in> set (tb_accounts d2)" "ac_is_active b" for b
  proof -
    have "ac_key b \<in> da_key ` set found" using R(2) b by blast
    moreover from this have "ac_key b \<in> ac_key ` set (tb_accounts d')" using R(3) by blast
    ultimately obtain a where a: "a \<in> set (tb_accounts d')" "ac_key a = ac_key b" "ac_is_active a"
      using R(1) by auto
    from fwd[OF a(1,3)] obtain b' where b': "b' \<in> set (tb_accounts d2)" "ac_key b' = ac_key a" "detect b' = detect a"
      by blast
    then have "b' = b" using R(4) a(2) b(1) by (metis distinct_map inj_onD)
    then show ?thesis using a b' by auto
  qed
  have "(\<lambda>p. di_key (snd p)) ` set (?it d2) = (\<lambda>p. di_key (snd p)) ` set (?it d')"
    unfolding detections_active[OF one(3,4) assms(3,6,7)] detections_active[OF assms(1-5)]
  proof (rule subset_antisym; rule subsetI)
    fix k assume "k \<in> (\<lambda>p. di_key (snd p)) ` {(eid a, x) |a x. a \<in> set (tb_accounts d2) \<and> ac_is_active a \<and> x \<in> set (detect a)}"
    then obtain b x where b: "b \<in> set (tb_accounts d2)" "ac_is_active b" "x \<in> set (detect b)" "k = di_key x" by auto
    with bwd[OF b(1,2)] obtain a where "a \<in> set (tb_accounts d')" "ac_is_active a" "x \<in> set (detect a)" by auto
    then show "k \<in> (\<lambda>p. di_key (snd p)) ` {(eid a, x) |a x. a \<in> set (tb_accounts d') \<and> ac_is_active a \<and> x \<in> set (detect a)}"
      using b(4) by force
  next
    fix k assume "k \<in> (\<lambda>p. di_key (snd p)) ` {(eid a, x) |a x. a \<in> set (tb_accounts d') \<and> ac_is_active a \<and> x \<in> set (detect a)}"
    then obtain b x where b: "b \<in> set (tb_accounts d')" "ac_is_active b" "x \<in> set (detect b)" "k = di_key x" by auto
    with fwd[OF b(1,2)] obtain a where "a \<in> set (tb_accounts d2)" "ac_is_active a" "x \<in> set (detect a)" by auto
    then show "k \<in> (\<lambda>p. di_key (snd p)) ` {(eid a, x) |a x. a \<in> set (tb_accounts d2) \<and> ac_is_active a \<and> x \<in> set (detect a)}"
      using b(4) by force
  qed
  then show ?thesis
    using acc.reconciled_again[OF one(1), of found] acc.reconciled_again_ids[OF one(1) refl acc.reconciled_ids[OF two(1)]]
      inst.reconciled_again[OF one(2), of "?it d2"] inst.reconciled_again_ids[OF one(2) _ inst.reconciled_ids[OF two(2)]] two(3,4)
    by (simp only: list.size simp_thms)
qed

section \<open>A concrete pass\<close>

text \<open>The database knows \<open>bob\<close> and \<open>carl\<close>; the server has \<open>bob\<close> and \<open>alice\<close>,
  each with an installation.\<close>

definition demo_host :: host_info where
  "demo_host = \<lparr>hi_hostname = ''h'', hi_os_info = ''os'', hi_agent_version = ''1''\<rparr>"

definition demo_found :: "string \<Rightarrow> discovered_account" where
  "demo_found u = \<lparr>da_username = LinuxUsername u, da_primary_domain = DomainName ''x.com'',
     da_home_directory = AbsoluteFilePath (CHR ''/'' # u), da_is_suspended = False\<rparr>"

definition demo_detect :: "cpanel_account \<Rightarrow> discovered_installation list" where
  "demo_detect a = [\<lparr>di_absolute_path = ac_home_directory a, di_domain = Some (ac_primary_domain a),
     di_wp_version = Some ''6'', di_is_multisite = False, di_php_version = None\<rparr>]"

definition demo_disc_db :: db where
  "demo_disc_db = empty_db\<lparr>
     tb_accounts := [new_account 1 0 (demo_found ''bob'') 3, new_account 1 0 (demo_found ''carl'') 4],
     next_uuid := 10\<rparr>"

definition demo_pass :: "datetime \<Rightarrow> db \<Rightarrow> discovery_result \<times> db" where
  "demo_pass now d = run_discovery demo_host [demo_found ''bob'', demo_found ''alice''] demo_detect now d"

lemma demo_disc_ok:
  "db_wf demo_disc_db" "discovery_unique demo_disc_db"
  "distinct (map da_key [demo_found ''bob'', demo_found ''alice''])"
  by (simp_all add: demo_disc_db_def empty_db_def db_wf_def tbl_wf_def new_account_def demo_found_def
      discovery_unique_def)

lemmas discovery_run_defs = run_discovery_def reconcile_server_def server_get_by_hostname_def uuid4_def tbl_add_def
  reconcile_account_def account_get_by_username_def new_server_def new_account_def new_installation_def
  reconcile_installation_def installation_get_by_path_def deactivate_stale_accounts_def
  deactivate_stale_installations_def tbl_list_def demo_pass_def demo_disc_db_def demo_host_def demo_found_def
  demo_detect_def empty_db_def account_mark_seen_def installation_mark_seen_def account_mark_inactive_def
  touch_def server_mark_seen_def Let_def

lemma demo_pass_runs:
  "tb_servers (snd (demo_pass 5 demo_disc_db)) = [new_server 5 demo_host 10]"
  "tb_accounts (snd (demo_pass 5 demo_disc_db)) =
     [account_mark_seen 5 (DomainName ''x.com'') False 5 (new_account 1 0 (demo_found ''bob'') 3),
      account_mark_inactive 5 (new_account 1 0 (demo_found ''carl'') 4), new_account 5 10 (demo_found ''alice'') 12]"
  "length (tb_installations (snd (demo_pass 5 demo_disc_db))) = 2"
  by (simp_all add: discovery_run_defs)

lemma demo_pass_fits:
  "discovery_fits (snd (demo_pass 5 demo_disc_db))"
  "discovery_fits (snd (demo_pass 6 (snd (demo_pass 5 demo_disc_db))))"
  by (simp_all add: discovery_fits_def discovery_run_defs)

theorem discovery_accounts_witness:
  "dr_accounts_deactivated (fst (demo_pass 5 demo_disc_db)) = 1"
  using discovery_accounts[OF demo_disc_ok prod.collapse [symmetric] demo_pass_fits(1)[unfolded demo_pass_def]]
  by (simp add: demo_pass_def demo_disc_db_def new_account_def demo_found_def)

theorem discovery_installations_witness:
  "{w \<in> set (tb_installations (snd (demo_pass 5 demo_disc_db))). wi_is_active w} =
   {w \<in> set (tb_installations (snd (demo_pass 5 demo_disc_db))).
     (\<exists>a \<in> set (tb_accounts (snd (demo_pass 5 demo_disc_db))).
        ac_is_active a \<and> wi_key w \<in> di_key ` set (demo_detect a))}"
  using discovery_installations[OF demo_disc_ok prod.collapse [symmetric] demo_pass_fits(1)[unfolded demo_pass_def]]
  unfolding demo_pass_def by blast

theorem discovery_idempotent_witness:
  "dr_accounts_deactivated (fst (demo_pass 6 (snd (demo_pass 5 demo_disc_db)))) = 0"
  using discovery_idempotent[OF demo_disc_ok prod.collapse [symmetric] demo_pass_fits(1)[unfolded demo_pass_def]
      prod.collapse [symmetric] demo_pass_fits(2)[unfolded demo_pass_def]]
  by (simp add: demo_pass_def demo_detect_def)

end
