(* ===== verification/Correlation.thy ===== *)
theory Correlation
  imports Database "HOL-Library.List_Lexorder" "HOL-Library.Char_ord"
begin

text \<open>
  \<open>RunCorrelationUseCase\<close> (\<open>application/intelligence/use_cases.py\<close>): the
  unprocessed security events, oldest first and at most 200 of them, are
  grouped by their signature; each group goes to the open incident of that
  signature seen within the time window, or to a new one.

  \<open>str\<close> of a value that is neither a string, a number, a truth value nor
  \<open>None\<close> is Python's and is the parameter \<open>pystr\<close>.
\<close>

section \<open>The use case\<close>

record correlation_result =
  cr_events_processed :: nat
  cr_incidents_created :: nat
  cr_incidents_updated :: nat

definition json_str :: "(json \<Rightarrow> string) \<Rightarrow> json \<Rightarrow> string" where
  "json_str pystr v =
     (case v of
        JNull \<Rightarrow> ''None''
      | JBool b \<Rightarrow> (if b then ''True'' else ''False'')
      | JInt i \<Rightarrow> int_str i
      | JStr s \<Rightarrow> s
      | _ \<Rightarrow> pystr v)"

definition signature_for :: "(json \<Rightarrow> string) \<Rightarrow> security_event \<Rightarrow> string" where
  "signature_for pystr e =
     (let rule_ids = (case json_get (JObj (ev_payload e)) ''matched_rule_ids'' of
                        JArr xs \<Rightarrow> sort (map (json_str pystr) xs)
                      | _ \<Rightarrow> [])
      in if rule_ids \<noteq> [] then ev_event_type e @ '':'' @ str_join ''|'' rule_ids else ev_event_type e)"

definition confidence_for :: "nat \<Rightarrow> rat" where
  "confidence_for distinct_account_count =
     (if distinct_account_count = 0 then 1 / 2
      else min (99 / 100) (1 / 2 + 1 / 10 * of_nat distinct_account_count))"

definition new_incident :: "datetime \<Rightarrow> string \<Rightarrow> security_event list \<Rightarrow> uuid \<Rightarrow> incident" where
  "new_incident now signature cluster i =
     \<lparr>eid = i, created_at = now, updated_at = now,
      in_title = ''Correlated '' @ ev_event_type (hd cluster) @ '' activity'',
      in_signature = signature, in_status = OPEN, in_severity = ev_severity (hd cluster),
      in_confidence = 1 / 2, in_first_seen_at = Min (ev_occurred_at ` set cluster),
      in_last_seen_at = Max (ev_occurred_at ` set cluster), in_root_cause = None,
      in_recommended_actions = None, in_false_positive_probability = None\<rparr>"

definition get_or_create_incident ::
    "int \<Rightarrow> datetime \<Rightarrow> string \<Rightarrow> security_event list \<Rightarrow> db \<Rightarrow> incident \<times> bool \<times> db" where
  "get_or_create_incident window now signature cluster d =
     (case incident_find_open_matching signature (now - window) d of
        Some i \<Rightarrow> (i, False, d)
      | None \<Rightarrow>
          (let (u, d) = uuid4 d; i = new_incident now signature cluster u
           in (i, True, d\<lparr>tb_incidents := tbl_add i (tb_incidents d)\<rparr>)))"

definition link_account :: "datetime \<Rightarrow> uuid \<Rightarrow> uuid \<Rightarrow> db \<Rightarrow> db" where
  "link_account now incident account d =
     (case link_get incident account d of
        Some _ \<Rightarrow> d
      | None \<Rightarrow>
          (let (u, d) = uuid4 d
           in d\<lparr>tb_links := tbl_add \<lparr>eid = u, created_at = now, updated_at = now,
                 li_incident_id = incident, li_account_id = account\<rparr> (tb_links d)\<rparr>))"

definition event_description :: "(json \<Rightarrow> string) \<Rightarrow> security_event \<Rightarrow> string" where
  "event_description pystr e =
     (let reason = json_get (JObj (ev_payload e)) ''verdict_reason'';
          path = json_get (JObj (ev_payload e)) ''absolute_path''
      in if json_truthy reason then json_str pystr reason
         else if json_truthy path then json_str pystr path
         else ev_event_type e)"

definition timeline_entry ::
    "(json \<Rightarrow> string) \<Rightarrow> datetime \<Rightarrow> uuid \<Rightarrow> security_event \<Rightarrow> uuid \<Rightarrow> threat_timeline_entry" where
  "timeline_entry pystr now incident e u =
     \<lparr>eid = u, created_at = now, updated_at = now, tl_incident_id = incident,
      tl_stage = str_upper (ev_event_type e), tl_description = event_description pystr e,
      tl_occurred_at = ev_occurred_at e, tl_source_event_id = Some (eid e)\<rparr>"

text \<open>The body of the inner loop.\<close>

definition correlate_event ::
    "(json \<Rightarrow> string) \<Rightarrow> datetime \<Rightarrow> uuid \<Rightarrow> security_event \<Rightarrow> db \<Rightarrow> db" where
  "correlate_event pystr now incident e d =
     (let d = (case ev_account_id e of None \<Rightarrow> d | Some a \<Rightarrow> link_account now incident a d);
          (u, d) = uuid4 d;
          d = d\<lparr>tb_timeline := tbl_add (timeline_entry pystr now incident e u) (tb_timeline d)\<rparr>
      in d\<lparr>tb_events := tbl_save (event_mark_processed now now e) (tb_events d)\<rparr>)"

definition correlate_cluster ::
    "(json \<Rightarrow> string) \<Rightarrow> int \<Rightarrow> datetime \<Rightarrow> string \<times> security_event list \<Rightarrow> db \<Rightarrow> bool \<times> db" where
  "correlate_cluster pystr window now g d =
     (let (signature, cluster) = g;
          (i, created, d) = get_or_create_incident window now signature cluster d;
          d = fold (correlate_event pystr now (eid i)) cluster d;
          linked = links_by_incident (eid i) d;
          confidence = confidence_for (card (li_account_id ` set linked));
          i = record_new_evidence now now confidence (max_severity (ev_severity (hd cluster)) (map ev_severity (tl cluster))) i
      in (created, d\<lparr>tb_incidents := tbl_save i (tb_incidents d)\<rparr>))"

fun correlate_clusters ::
    "(json \<Rightarrow> string) \<Rightarrow> int \<Rightarrow> datetime \<Rightarrow> (string \<times> security_event list) list \<Rightarrow> nat \<Rightarrow> nat \<Rightarrow> db \<Rightarrow>
     nat \<times> nat \<times> db" where
  "correlate_clusters pystr window now [] created updated d = (created, updated, d)"
| "correlate_clusters pystr window now (g # gs) created updated d =
     (case correlate_cluster pystr window now g d of
        (True, d) \<Rightarrow> correlate_clusters pystr window now gs (created + 1) updated d
      | (False, d) \<Rightarrow> correlate_clusters pystr window now gs created (updated + 1) d)"

definition run_correlation ::
    "(json \<Rightarrow> string) \<Rightarrow> int \<Rightarrow> datetime \<Rightarrow> db \<Rightarrow> correlation_result \<times> db" where
  "run_correlation pystr window now d =
     (let events = events_unprocessed 200 d;
          clusters = group_by (signature_for pystr) events;
          (created, updated, d) = correlate_clusters pystr window now clusters 0 0 d
      in (\<lparr>cr_events_processed = length events, cr_incidents_created = created,
           cr_incidents_updated = updated\<rparr>, d))"

section \<open>One event\<close>

definition links_unique :: "db \<Rightarrow> bool" where
  "links_unique d \<longleftrightarrow> distinct (map (\<lambda>l. (li_incident_id l, li_account_id l)) (tb_links d))"

lemma link_get_None:
  "link_get i a d = None \<longleftrightarrow> (i, a) \<notin> (\<lambda>l. (li_incident_id l, li_account_id l)) ` set (tb_links d)"
  by (auto simp: link_get_def find_None_iff)

lemma link_account_effect:
  assumes "db_wf d" "links_unique d"
  shows "\<exists>ls n. link_account now i a d = d\<lparr>tb_links := tb_links d @ ls, next_uuid := n\<rparr> \<and> next_uuid d \<le> n \<and>
    (\<forall>l \<in> set ls. li_incident_id l = i \<and> li_account_id l = a) \<and>
    (\<exists>l \<in> set (tb_links d @ ls). li_incident_id l = i \<and> li_account_id l = a) \<and>
    db_wf (link_account now i a d) \<and> links_unique (link_account now i a d)"
proof (cases "link_get i a d")
  case (Some l)
  then have "link_account now i a d = d\<lparr>tb_links := tb_links d @ [], next_uuid := next_uuid d\<rparr>"
    "l \<in> set (tb_links d)" "li_incident_id l = i" "li_account_id l = a"
    by (auto simp: link_account_def link_get_def dest: find_SomeD)
  then show ?thesis using assms by (intro exI[of _ "[]"] exI[of _ "next_uuid d"]) (auto simp: link_account_def Some)
next
  case None
  let ?l = "\<lparr>eid = next_uuid d, created_at = now, updated_at = now, li_incident_id = i, li_account_id = a\<rparr>"
  have eq: "link_account now i a d = d\<lparr>tb_links := tb_links d @ [?l], next_uuid := Suc (next_uuid d)\<rparr>"
    by (simp add: link_account_def None uuid4_def tbl_add_def)
  have "tbl_wf (Suc (next_uuid d)) (tb_links d @ [?l])"
    using tbl_wf_add[OF db_wfD(7)[OF assms(1)], of ?l "Suc (next_uuid d)"] by (simp add: tbl_add_def)
  then have "db_wf (link_account now i a d)"
    using db_wf_uuid4[OF assms(1)] by (simp add: eq db_wf_def)
  moreover have "links_unique (link_account now i a d)"
    using assms(2) None by (auto simp: links_unique_def eq link_get_None)
  ultimately show ?thesis
    unfolding eq by (intro exI[of _ "[?l]"] exI[of _ "Suc (next_uuid d)"]) simp
qed

text \<open>What the inner loop has done after the events \<open>es\<close>: the links it added
  are of this incident and cover the accounts of the events, the timeline has
  one entry per event in their order, and exactly these events are processed.\<close>

definition marked :: "datetime \<Rightarrow> security_event set \<Rightarrow> security_event \<Rightarrow> security_event" where
  "marked now S e = (if e \<in> S then event_mark_processed now now e else e)"

definition timeline_for ::
    "(json \<Rightarrow> string) \<Rightarrow> uuid \<Rightarrow> security_event \<Rightarrow> threat_timeline_entry \<Rightarrow> bool" where
  "timeline_for pystr i e t \<longleftrightarrow> tl_incident_id t = i \<and> tl_stage t = str_upper (ev_event_type e) \<and>
     tl_description t = event_description pystr e \<and> tl_occurred_at t = ev_occurred_at e \<and>
     tl_source_event_id t = Some (eid e)"

definition events_done ::
    "(json \<Rightarrow> string) \<Rightarrow> datetime \<Rightarrow> uuid \<Rightarrow> security_event list \<Rightarrow> db \<Rightarrow> db \<Rightarrow> bool" where
  "events_done pystr now i es d d' \<longleftrightarrow>
     (\<exists>ls ts n. d' = d\<lparr>tb_links := tb_links d @ ls, tb_timeline := tb_timeline d @ ts,
          tb_events := map (marked now (set es)) (tb_events d), next_uuid := n\<rparr> \<and> next_uuid d \<le> n \<and>
        (\<forall>l \<in> set ls. li_incident_id l = i) \<and>
        (\<forall>e \<in> set es. \<forall>a. ev_account_id e = Some a \<longrightarrow>
           (\<exists>l \<in> set (tb_links d @ ls). li_incident_id l = i \<and> li_account_id l = a)) \<and>
        list_all2 (timeline_for pystr i) es ts) \<and>
     db_wf d' \<and> links_unique d'"

lemma marked_empty [simp]: "marked now {} = (\<lambda>e. e)"
  by (rule ext) (simp add: marked_def)

lemma events_done_Nil:
  "db_wf d \<Longrightarrow> links_unique d \<Longrightarrow> events_done pystr now i [] d d"
  unfolding events_done_def
  by (intro conjI exI[of _ "[]"] exI[of _ "next_uuid d"]) simp_all

lemma marked_id [simp]: "eid (marked now S e) = eid e"
  by (simp add: marked_def)

lemma marked_step:
  assumes "distinct (map eid es)" "e \<in> set es" "e \<notin> S"
  shows "tbl_save (event_mark_processed now now e) (map (marked now S) es) = map (marked now (insert e S)) es"
proof -
  have ids: "tbl_ids (map (marked now S) es) = map eid es"
    by (simp add: tbl_ids_def marked_def)
  have "eid x = eid e \<longleftrightarrow> x = e" if "x \<in> set es" for x
    using assms(1,2) that by (metis distinct_map inj_onD)
  then show ?thesis
    using assms(1,2) by (subst tbl_save_map) (auto simp: ids marked_def)
qed

lemma correlate_event_done:
  assumes "events_done pystr now i es d d1" "distinct (map eid (tb_events d))" "e \<in> set (tb_events d)" "e \<notin> set es"
  shows "events_done pystr now i (es @ [e]) d (correlate_event pystr now i e d1)"
proof -
  from assms(1) obtain ls ts n where
    d1: "d1 = d\<lparr>tb_links := tb_links d @ ls, tb_timeline := tb_timeline d @ ts,
          tb_events := map (marked now (set es)) (tb_events d), next_uuid := n\<rparr>" "next_uuid d \<le> n"
    and ls: "\<forall>l \<in> set ls. li_incident_id l = i"
      "\<forall>e \<in> set es. \<forall>a. ev_account_id e = Some a \<longrightarrow>
           (\<exists>l \<in> set (tb_links d @ ls). li_incident_id l = i \<and> li_account_id l = a)"
    and ts: "list_all2 (timeline_for pystr i) es ts" and wf: "db_wf d1" "links_unique d1"
    unfolding events_done_def by blast
  define d2 where "d2 = (case ev_account_id e of None \<Rightarrow> d1 | Some a \<Rightarrow> link_account now i a d1)"
  have "\<exists>ls' n2. d2 = d1\<lparr>tb_links := tb_links d1 @ ls', next_uuid := n2\<rparr> \<and> next_uuid d1 \<le> n2 \<and>
      (\<forall>l \<in> set ls'. li_incident_id l = i) \<and>
      (\<forall>a. ev_account_id e = Some a \<longrightarrow> (\<exists>l \<in> set (tb_links d1 @ ls'). li_incident_id l = i \<and> li_account_id l = a)) \<and>
      db_wf d2 \<and> links_unique d2"
  proof (cases "ev_account_id e")
    case None
    then show ?thesis using wf by (intro exI[of _ "[]"] exI[of _ "next_uuid d1"]) (simp add: d2_def)
  next
    case (Some a)
    then show ?thesis using link_account_effect[OF wf, of now i a] by (auto simp: d2_def)
  qed
  then obtain ls' n2 where d2: "d2 = d1\<lparr>tb_links := tb_links d1 @ ls', next_uuid := n2\<rparr>" "next_uuid d1 \<le> n2"
    and ls': "\<forall>l \<in> set ls'. li_incident_id l = i"
      "\<forall>a. ev_account_id e = Some a \<longrightarrow> (\<exists>l \<in> set (tb_links d1 @ ls'). li_incident_id l = i \<and> li_account_id l = a)"
    and wf2: "db_wf d2" "links_unique d2" by blast
  let ?t = "timeline_entry pystr now i e n2"
  let ?evs = "map (marked now (set (es @ [e]))) (tb_events d)"
  have "tbl_save (event_mark_processed now now e) (map (marked now (set es)) (tb_events d)) = ?evs"
    using marked_step[OF assms(2-4)] by simp
  then have out: "correlate_event pystr now i e d1 = d\<lparr>tb_links := tb_links d @ (ls @ ls'),
      tb_timeline := tb_timeline d @ (ts @ [?t]), tb_events := ?evs, next_uuid := Suc n2\<rparr>"
    unfolding correlate_event_def d2_def [symmetric]
    by (simp add: Let_def uuid4_def tbl_add_def d2(1) d1(1))
  have tl: "tbl_wf (Suc n2) (tb_timeline d @ (ts @ [?t]))"
    using tbl_wf_add[of n2 "tb_timeline d @ ts" ?t "Suc n2"] wf2(1)
    by (simp add: db_wf_def d2(1) d1(1) tbl_add_def timeline_entry_def)
  have ev: "tbl_wf (Suc n2) ?evs"
  proof -
    have "tbl_wf n2 (tb_events d1)" using wf2(1) by (simp add: db_wf_def d2(1))
    then show ?thesis by (auto simp: d1(1) tbl_wf_map intro: tbl_wf_mono)
  qed
  have "db_wf (correlate_event pystr now i e d1)"
    using db_wf_uuid4[OF wf2(1)] tl ev unfolding out by (simp add: db_wf_def d2(1) d1(1))
  moreover have "links_unique (correlate_event pystr now i e d1)"
    using wf2(2) unfolding out by (simp add: links_unique_def d2(1) d1(1))
  moreover have "list_all2 (timeline_for pystr i) (es @ [e]) (ts @ [?t])"
    using ts by (simp add: list_all2_appendI timeline_for_def timeline_entry_def)
  moreover have "\<forall>x \<in> set (es @ [e]). \<forall>a. ev_account_id x = Some a \<longrightarrow>
      (\<exists>l \<in> set (tb_links d @ (ls @ ls')). li_incident_id l = i \<and> li_account_id l = a)"
  proof (intro ballI allI impI)
    fix x a assume x: "x \<in> set (es @ [e])" "ev_account_id x = Some a"
    have "\<exists>l \<in> set (tb_links d @ ls) \<union> set (tb_links d1 @ ls'). li_incident_id l = i \<and> li_account_id l = a"
    proof (cases "x = e")
      case True
      then have "\<exists>l \<in> set (tb_links d1 @ ls'). li_incident_id l = i \<and> li_account_id l = a"
        using ls'(2) x(2) by blast
      then show ?thesis by blast
    next
      case False
      then have "x \<in> set es" using x(1) by simp
      then have "\<exists>l \<in> set (tb_links d @ ls). li_incident_id l = i \<and> li_account_id l = a"
        using ls(2) x(2) by blast
      then show ?thesis by blast
    qed
    moreover have "set (tb_links d @ ls) \<union> set (tb_links d1 @ ls') = set (tb_links d @ (ls @ ls'))"
      by (auto simp: d1(1))
    ultimately show "\<exists>l \<in> set (tb_links d @ (ls @ ls')). li_incident_id l = i \<and> li_account_id l = a" by simp
  qed
  moreover have "\<forall>l \<in> set (ls @ ls'). li_incident_id l = i" using ls(1) ls'(1) by auto
  moreover have "next_uuid d \<le> Suc n2" using d1 d2(2) by simp
  ultimately show ?thesis
    unfolding events_done_def using out by blast
qed

lemma correlate_events_done:
  assumes "db_wf d" "links_unique d" "set es \<subseteq> set (tb_events d)" "distinct es"
  shows "events_done pystr now i es d (fold (correlate_event pystr now i) es d)"
  using assms(3,4)
proof (induction es rule: rev_induct)
  case Nil
  then show ?case using events_done_Nil[OF assms(1,2)] by simp
next
  case (snoc e es)
  moreover have "distinct (map eid (tb_events d))"
    using tbl_wf_distinct[OF db_wfD(5)[OF assms(1)]] by (simp add: tbl_ids_def)
  ultimately show ?case by (auto intro!: correlate_event_done)
qed

section \<open>One cluster\<close>

text \<open>The incident a cluster is to be attached to, and what attaching the cluster makes of it: the latest open
  incident of the signature that was seen within the window, or a new one.\<close>

definition incident_match :: "int \<Rightarrow> datetime \<Rightarrow> string \<Rightarrow> db \<Rightarrow> incident option" where
  "incident_match window now sig d = incident_find_open_matching sig (now - window) d"

definition evidence_on :: "datetime \<Rightarrow> string \<Rightarrow> security_event list \<Rightarrow> incident option \<Rightarrow> incident \<Rightarrow> bool" where
  "evidence_on now sig es m i \<longleftrightarrow>
     i = record_new_evidence now now (in_confidence i) (max_severity (ev_severity (hd es)) (map ev_severity (tl es)))
       (case m of Some j \<Rightarrow> j | None \<Rightarrow> new_incident now sig es (eid i))"

lemma incident_match_cong:
  assumes "filter (\<lambda>i. in_signature i = sig) (tb_incidents d') = filter (\<lambda>i. in_signature i = sig) (tb_incidents d)"
  shows "incident_match window now sig d' = incident_match window now sig d"
proof -
  have "filter (\<lambda>i. in_signature i = sig \<and> in_status i = OPEN \<and> now - window \<le> in_last_seen_at i) t =
      filter (\<lambda>i. in_status i = OPEN \<and> now - window \<le> in_last_seen_at i) (filter (\<lambda>i. in_signature i = sig) t)" for t
    by (simp add: conj_commute)
  note split = this
  show ?thesis unfolding incident_match_def incident_find_open_matching_def split assms ..
qed

lemma save_same_signature:
  "\<forall>x \<in> set t. eid x = eid i \<longrightarrow> in_signature x = in_signature i \<Longrightarrow> in_signature i \<noteq> sig \<Longrightarrow>
     filter (\<lambda>x. in_signature x = sig) (tbl_save i t) = filter (\<lambda>x. in_signature x = sig) t"
  by (induction t) auto

text \<open>What a cluster must have led to: an open incident of its signature, seen
  now, at least as severe as every event, with the confidence that the number
  of linked accounts gives, and linked to the account of every event.\<close>

definition incident_for ::
    "datetime \<Rightarrow> string \<Rightarrow> security_event list \<Rightarrow> incident option \<Rightarrow> incident_account_link list \<Rightarrow> incident \<Rightarrow> bool" where
  "incident_for now sig es m links i \<longleftrightarrow> evidence_on now sig es m i \<and>
     in_signature i = sig \<and> in_status i = OPEN \<and> now \<le> in_last_seen_at i \<and>
     (\<forall>e \<in> set es. ev_severity e \<le> in_severity i) \<and>
     in_confidence i = confidence_for (card (li_account_id ` {l \<in> set links. li_incident_id l = eid i})) \<and>
     (\<forall>e \<in> set es. \<forall>a. ev_account_id e = Some a \<longrightarrow>
        (\<exists>l \<in> set links. li_incident_id l = eid i \<and> li_account_id l = a))"

text \<open>What an incident keeps: everything unless its signature is among those
  processed, and then its identity, signature and status, while its severity
  does not fall.\<close>

definition incident_kept :: "string set \<Rightarrow> incident \<Rightarrow> incident \<Rightarrow> bool" where
  "incident_kept sigs j j' \<longleftrightarrow> eid j' = eid j \<and> in_signature j' = in_signature j \<and>
     in_status j' = in_status j \<and> in_severity j \<le> in_severity j' \<and>
     (in_signature j \<notin> sigs \<longrightarrow> j' = j)"

text \<open>Whether a new incident was made, and that the incidents of other signatures stay in their places.\<close>

definition cluster_reuse :: "string \<Rightarrow> incident option \<Rightarrow> bool \<Rightarrow> incident \<Rightarrow> db \<Rightarrow> incident list \<Rightarrow> bool" where
  "cluster_reuse sig m created i d is \<longleftrightarrow>
     created = (m = None) \<and> (m = None \<longrightarrow> eid i \<notin> set (tbl_ids (tb_incidents d))) \<and>
     (\<forall>sig'. sig' \<noteq> sig \<longrightarrow> filter (\<lambda>x. in_signature x = sig') is =
        filter (\<lambda>x. in_signature x = sig') (tb_incidents d))"

definition cluster_done ::
    "(json \<Rightarrow> string) \<Rightarrow> datetime \<Rightarrow> string \<Rightarrow> security_event list \<Rightarrow> incident option \<Rightarrow> bool \<Rightarrow> incident \<Rightarrow> db \<Rightarrow> db \<Rightarrow>
     bool" where
  "cluster_done pystr now sig es m created i d d' \<longleftrightarrow>
     cluster_reuse sig m created i d (tb_incidents d') \<and>
     (\<exists>is ls ts n. d' = d\<lparr>tb_incidents := is, tb_links := tb_links d @ ls, tb_timeline := tb_timeline d @ ts,
          tb_events := map (marked now (set es)) (tb_events d), next_uuid := n\<rparr> \<and> next_uuid d \<le> n \<and>
        i \<in> set is \<and> incident_for now sig es m (tb_links d @ ls) i \<and>
        (\<forall>j \<in> set (tb_incidents d). \<exists>j' \<in> set is. incident_kept {sig} j j') \<and>
        length is = length (tb_incidents d) + (if created then 1 else 0) \<and>
        (\<forall>l \<in> set ls. li_incident_id l = eid i) \<and>
        list_all2 (timeline_for pystr (eid i)) es ts) \<and>
     db_wf d' \<and> links_unique d'"

lemma max_severity_ge:
  "es \<noteq> [] \<Longrightarrow> e \<in> set es \<Longrightarrow> ev_severity e \<le> max_severity (ev_severity (hd es)) (map ev_severity (tl es))"
  by (cases es) (auto simp: max_severity_Max)

lemma finish_cluster:
  assumes d: "db_wf d" "db_wf d1" "links_unique d1" "i \<in> set (tb_incidents d1)" "in_signature i = sig" "in_status i = OPEN"
    and ev: "events_done pystr now (eid i) es d1 d2" and ne: "es \<noteq> []"
    and new: "i' = record_new_evidence now now (confidence_for (card (li_account_id ` set (links_by_incident (eid i) d2))))
       (max_severity (ev_severity (hd es)) (map ev_severity (tl es))) i"
    and d1: "d1 = d\<lparr>tb_incidents := is, next_uuid := n1\<rparr>" "next_uuid d \<le> n1"
      "length is = length (tb_incidents d) + (if created then 1 else 0)" "set (tb_incidents d) \<subseteq> set is"
    and m: "cluster_reuse sig m created i d is"
      "i = (case m of Some j \<Rightarrow> j | None \<Rightarrow> new_incident now sig es (eid i))"
  shows "cluster_done pystr now sig es m created i' d (d2\<lparr>tb_incidents := tbl_save i' (tb_incidents d2)\<rparr>)"
proof -
  from ev obtain ls ts n where
    d2: "d2 = d1\<lparr>tb_links := tb_links d1 @ ls, tb_timeline := tb_timeline d1 @ ts,
          tb_events := map (marked now (set es)) (tb_events d1), next_uuid := n\<rparr>" "next_uuid d1 \<le> n"
    and ls: "\<forall>l \<in> set ls. li_incident_id l = eid i"
    and cover: "\<forall>e \<in> set es. \<forall>a. ev_account_id e = Some a \<longrightarrow>
           (\<exists>l \<in> set (tb_links d1 @ ls). li_incident_id l = eid i \<and> li_account_id l = a)"
    and ts: "list_all2 (timeline_for pystr (eid i)) es ts" and wf: "db_wf d2" "links_unique d2"
    unfolding events_done_def by blast
  have id: "eid i' = eid i" by (simp add: new)
  let ?is = "tbl_save i' is"
  have ids: "distinct (tbl_ids is)" "i \<in> set is"
    using tbl_wf_distinct[OF db_wfD(6)[OF d(2)]] d(4) by (simp_all add: d1(1))
  have set_is: "set ?is = insert i' {x \<in> set is. eid x \<noteq> eid i}"
    using set_tbl_save[OF ids(1), of i'] by (simp add: id)
  have len: "length ?is = length is" using ids(2) by (intro length_tbl_save) (auto simp: id in_tbl_ids)
  have fo: "incident_for now sig es m (tb_links d @ ls) i'"
    unfolding incident_for_def
  proof (intro conjI)
    show "evidence_on now sig es m i'"
      using m(2) unfolding evidence_on_def id by (simp add: new)
    show "in_signature i' = sig" "in_status i' = OPEN" "now \<le> in_last_seen_at i'"
      using d(5,6) by (simp_all add: new)
    show "\<forall>e \<in> set es. ev_severity e \<le> in_severity i'"
      using max_severity_ge[OF ne] by (auto simp: new intro: max.coboundedI2)
    show "in_confidence i' = confidence_for (card (li_account_id ` {l \<in> set (tb_links d @ ls). li_incident_id l = eid i'}))"
    proof -
      have "set (links_by_incident (eid i) d2) = {l \<in> set (tb_links d @ ls). li_incident_id l = eid i}"
        by (auto simp: links_by_incident_def d2(1) d1(1))
      then show ?thesis by (simp only: new record_new_evidence_simps)
    qed
    show "\<forall>e \<in> set es. \<forall>a. ev_account_id e = Some a \<longrightarrow>
        (\<exists>l \<in> set (tb_links d @ ls). li_incident_id l = eid i' \<and> li_account_id l = a)"
      using cover by (simp add: id d1(1))
  qed
  have kept: "\<exists>j' \<in> set ?is. incident_kept {sig} j j'" if j: "j \<in> set (tb_incidents d)" for j
  proof (cases "eid j = eid i")
    case True
    then have "j = i" using j d1(4) ids by (metis option.inject subsetD tbl_get_mem)
    then have "incident_kept {sig} j i'" using d(5) by (simp add: incident_kept_def new)
    then show ?thesis by (auto simp: set_is)
  next
    case False
    then have "j \<in> set ?is" using j d1(4) by (auto simp: set_is)
    then show ?thesis by (auto simp: incident_kept_def)
  qed
  let ?d' = "d2\<lparr>tb_incidents := tbl_save i' (tb_incidents d2)\<rparr>"
  have eq: "?d' = d\<lparr>tb_incidents := ?is, tb_links := tb_links d @ ls, tb_timeline := tb_timeline d @ ts,
          tb_events := map (marked now (set es)) (tb_events d), next_uuid := n\<rparr>"
    by (simp add: d2(1) d1(1))
  have "tbl_wf n ?is"
  proof (rule tbl_wf_save)
    show "tbl_wf n is" using db_wfD(6)[OF wf(1)] by (simp add: d2(1) d1(1))
    then show "eid i' < n" using ids(2) by (auto simp: id tbl_wf_def list_all_iff)
  qed
  then have "db_wf ?d'" using wf(1) by (simp add: db_wf_def eq) (simp add: d2(1) d1(1))
  moreover have "links_unique ?d'" using wf(2) by (simp add: links_unique_def)
  moreover have "next_uuid d \<le> n" using d1 d2(2) by simp
  moreover have "i' \<in> set ?is" by (simp add: set_is)
  moreover have "length ?is = length (tb_incidents d) + (if created then 1 else 0)" using len d1(3) by simp
  moreover have "\<forall>l \<in> set ls. li_incident_id l = eid i'" using ls by (simp add: id)
  moreover have "list_all2 (timeline_for pystr (eid i')) es ts" using ts by (simp add: id)
  moreover have "cluster_reuse sig m created i' d (tb_incidents ?d')"
  proof -
    have same: "\<forall>x \<in> set is. eid x = eid i' \<longrightarrow> in_signature x = in_signature i'"
      using ids d(5) by (metis id new option.inject record_new_evidence_simps(2) tbl_get_mem)
    have "in_signature i' = sig" by (simp add: new d(5))
    then have "filter (\<lambda>x. in_signature x = sig') ?is = filter (\<lambda>x. in_signature x = sig') is" if "sig' \<noteq> sig" for sig'
      using save_same_signature [OF same] that by metis
    moreover have "tb_incidents ?d' = ?is" by (simp add: d2(1) d1(1))
    ultimately show ?thesis using m(1) by (simp add: cluster_reuse_def id)
  qed
  ultimately show ?thesis
    unfolding cluster_done_def using eq fo kept by blast
qed

lemma correlate_cluster_done:
  assumes "db_wf d" "links_unique d" "set es \<subseteq> set (tb_events d)" "distinct es" "es \<noteq> []"
    and "correlate_cluster pystr window now (sig, es) d = (created, d')"
  shows "\<exists>i. cluster_done pystr now sig es (incident_match window now sig d) created i d d'"
proof -
  obtain i d1 where get: "get_or_create_incident window now sig es d = (i, created, d1)"
    and d': "d' = (let d2 = fold (correlate_event pystr now (eid i)) es d1;
        i' = record_new_evidence now now (confidence_for (card (li_account_id ` set (links_by_incident (eid i) d2))))
          (max_severity (ev_severity (hd es)) (map ev_severity (tl es))) i
      in d2\<lparr>tb_incidents := tbl_save i' (tb_incidents d2)\<rparr>)"
    using assms(6) by (auto simp: correlate_cluster_def Let_def split: prod.splits)
  have "\<exists>is n. d1 = d\<lparr>tb_incidents := is, next_uuid := n\<rparr> \<and> next_uuid d \<le> n \<and>
      length is = length (tb_incidents d) + (if created then 1 else 0) \<and> set (tb_incidents d) \<subseteq> set is \<and>
      i \<in> set is \<and> in_signature i = sig \<and> in_status i = OPEN \<and> db_wf d1 \<and>
      cluster_reuse sig (incident_match window now sig d) created i d is \<and>
      i = (case incident_match window now sig d of Some j \<Rightarrow> j | None \<Rightarrow> new_incident now sig es (eid i))"
  proof (cases "incident_find_open_matching sig (now - window) d")
    case (Some j)
    then have "i = j" "\<not> created" "d1 = d" using get by (auto simp: get_or_create_incident_def)
    then show ?thesis
      using incident_find_open_matching_Some[OF Some] assms(1)
      by (intro exI[of _ "tb_incidents d"] exI[of _ "next_uuid d"]) (simp add: incident_match_def Some cluster_reuse_def)
  next
    case None
    let ?i = "new_incident now sig es (next_uuid d)"
    have eq: "i = ?i" "created" "d1 = d\<lparr>tb_incidents := tb_incidents d @ [?i], next_uuid := Suc (next_uuid d)\<rparr>"
      using get None by (auto simp: get_or_create_incident_def uuid4_def tbl_add_def Let_def)
    have "tbl_wf (Suc (next_uuid d)) (tb_incidents d @ [?i])"
      using tbl_wf_add[OF db_wfD(6)[OF assms(1)], of ?i "Suc (next_uuid d)"] by (simp add: tbl_add_def new_incident_def)
    then have "db_wf d1" using db_wf_uuid4[OF assms(1)] by (simp add: eq(3) db_wf_def)
    moreover have "next_uuid d \<notin> set (tbl_ids (tb_incidents d))"
      using db_wfD(6)[OF assms(1)] by (auto simp: tbl_wf_def tbl_ids_def list_all_iff)
    moreover have "eid ?i = next_uuid d" "in_signature ?i = sig" "in_status ?i = OPEN" by (simp_all add: new_incident_def)
    ultimately show ?thesis
      using eq None by (intro exI[of _ "tb_incidents d @ [?i]"] exI[of _ "Suc (next_uuid d)"])
        (auto simp: incident_match_def cluster_reuse_def)
  qed
  then obtain "is" n1 where d1: "d1 = d\<lparr>tb_incidents := is, next_uuid := n1\<rparr>" "next_uuid d \<le> n1"
      "length is = length (tb_incidents d) + (if created then 1 else 0)" "set (tb_incidents d) \<subseteq> set is"
    and i: "i \<in> set is" "in_signature i = sig" "in_status i = OPEN" and wf1: "db_wf d1"
    and m: "cluster_reuse sig (incident_match window now sig d) created i d is"
      "i = (case incident_match window now sig d of Some j \<Rightarrow> j | None \<Rightarrow> new_incident now sig es (eid i))"
    by blast
  have u1: "links_unique d1" using assms(2) by (simp add: d1(1) links_unique_def)
  have ev: "events_done pystr now (eid i) es d1 (fold (correlate_event pystr now (eid i)) es d1)"
    using correlate_events_done[OF wf1 u1 _ assms(4)] assms(3) by (simp add: d1(1))
  have "i \<in> set (tb_incidents d1)" using i(1) by (simp add: d1(1))
  from finish_cluster[OF assms(1) wf1 u1 this i(2,3) ev assms(5) refl d1 m]
  show ?thesis unfolding d' Let_def by blast
qed

section \<open>All clusters\<close>

lemma marked_marked: "(\<forall>e \<in> T. e \<notin> S) \<Longrightarrow> T \<subseteq> set es \<Longrightarrow> distinct (map eid es) \<Longrightarrow>
   map (marked now T) (map (marked now S) es) = map (marked now (S \<union> T)) es"
proof -
  assume T: "\<forall>e \<in> T. e \<notin> S" "T \<subseteq> set es" and dist: "distinct (map eid es)"
  have "event_mark_processed now now x \<notin> T" if "x \<in> set es" "x \<in> S" for x
  proof
    assume m: "event_mark_processed now now x \<in> T"
    then have "event_mark_processed now now x \<in> set es" using T(2) by blast
    then have "event_mark_processed now now x = x"
      using dist that(1) event_mark_processed_simps(1) by (metis distinct_map inj_onD)
    then show False using m T(1) that(2) by metis
  qed
  then show ?thesis by (auto simp: marked_def)
qed

definition run_done ::
    "(json \<Rightarrow> string) \<Rightarrow> int \<Rightarrow> datetime \<Rightarrow> (string \<times> security_event list) list \<Rightarrow> nat \<Rightarrow> db \<Rightarrow> db \<Rightarrow> bool" where
  "run_done pystr window now gs created d d' \<longleftrightarrow>
     created = length (filter (\<lambda>(sig, es). incident_match window now sig d = None) gs) \<and>
     (\<exists>is ls ts n. d' = d\<lparr>tb_incidents := is, tb_links := tb_links d @ ls, tb_timeline := tb_timeline d @ ts,
          tb_events := map (marked now (set (concat (map snd gs)))) (tb_events d), next_uuid := n\<rparr> \<and>
        next_uuid d \<le> n \<and>
        (\<forall>(sig, es) \<in> set gs. \<exists>i \<in> set is. incident_for now sig es (incident_match window now sig d) (tb_links d @ ls) i \<and>
           (incident_match window now sig d = None \<longrightarrow> eid i \<notin> set (tbl_ids (tb_incidents d)))) \<and>
        (\<forall>j \<in> set (tb_incidents d). \<exists>j' \<in> set is. incident_kept (fst ` set gs) j j') \<and>
        length is = length (tb_incidents d) + created \<and>
        (\<forall>l \<in> set ls. \<exists>i \<in> set is. eid i = li_incident_id l \<and> in_signature i \<in> fst ` set gs) \<and>
        list_all2 (\<lambda>(sig, e) t. \<exists>i \<in> set is. in_signature i = sig \<and> timeline_for pystr (eid i) e t)
          (concat (map (\<lambda>(sig, es). map (Pair sig) es) gs)) ts) \<and>
     db_wf d' \<and> links_unique d'"

lemma run_done_Nil: "db_wf d \<Longrightarrow> links_unique d \<Longrightarrow> run_done pystr window now [] 0 d d"
  unfolding run_done_def
  by (intro conjI exI[of _ "tb_incidents d"] exI[of _ "[]"] exI[of _ "next_uuid d"])
    (auto simp: incident_kept_def)

lemma incident_kept_trans:
  "incident_kept A j j' \<Longrightarrow> incident_kept B j' j'' \<Longrightarrow> incident_kept (A \<union> B) j j''"
  by (auto simp: incident_kept_def)

lemma incident_for_links:
  assumes "incident_for now sig es m ls i" "\<forall>l \<in> set ls'. li_incident_id l \<noteq> eid i"
  shows "incident_for now sig es m (ls @ ls') i"
proof -
  have same: "{l \<in> set (ls @ ls'). li_incident_id l = eid i} = {l \<in> set ls. li_incident_id l = eid i}"
    using assms(2) by auto
  have cover: "\<forall>e \<in> set es. \<forall>a. ev_account_id e = Some a \<longrightarrow>
      (\<exists>l \<in> set (ls @ ls'). li_incident_id l = eid i \<and> li_account_id l = a)"
    using assms(1) unfolding incident_for_def set_append by blast
  show ?thesis
    using assms(1) cover unfolding incident_for_def same by blast
qed

lemma run_done_Cons:
  assumes one: "cluster_done pystr now sig es (incident_match window now sig d) c i d d1" and rest: "run_done pystr window now gs k d1 d'"
    and ne: "sig \<notin> fst ` set gs" and es: "set (concat (map snd gs)) \<subseteq> set (tb_events d)"
    "distinct (es @ concat (map snd gs))" "db_wf d"
  shows "run_done pystr window now ((sig, es) # gs) (k + (if c then 1 else 0)) d d'"
proof -
  from one obtain is1 ls1 ts1 n1 where
    d1: "d1 = d\<lparr>tb_incidents := is1, tb_links := tb_links d @ ls1, tb_timeline := tb_timeline d @ ts1,
          tb_events := map (marked now (set es)) (tb_events d), next_uuid := n1\<rparr>" "next_uuid d \<le> n1"
    and i: "i \<in> set is1" "incident_for now sig es (incident_match window now sig d) (tb_links d @ ls1) i"
    and reuse: "cluster_reuse sig (incident_match window now sig d) c i d (tb_incidents d1)"
    and kept1: "\<forall>j \<in> set (tb_incidents d). \<exists>j' \<in> set is1. incident_kept {sig} j j'"
    and len1: "length is1 = length (tb_incidents d) + (if c then 1 else 0)"
    and ls1: "\<forall>l \<in> set ls1. li_incident_id l = eid i"
    and ts1: "list_all2 (timeline_for pystr (eid i)) es ts1"
    unfolding cluster_done_def by blast
  from rest obtain "is" ls ts n where
    d': "d' = d1\<lparr>tb_incidents := is, tb_links := tb_links d1 @ ls, tb_timeline := tb_timeline d1 @ ts,
          tb_events := map (marked now (set (concat (map snd gs)))) (tb_events d1), next_uuid := n\<rparr>" "next_uuid d1 \<le> n"
    and for2: "\<forall>(sig, es) \<in> set gs. \<exists>i \<in> set is. incident_for now sig es (incident_match window now sig d1) (tb_links d1 @ ls) i \<and>
        (incident_match window now sig d1 = None \<longrightarrow> eid i \<notin> set (tbl_ids (tb_incidents d1)))"
    and k: "k = length (filter (\<lambda>(sig, es). incident_match window now sig d1 = None) gs)"
    and kept2: "\<forall>j \<in> set (tb_incidents d1). \<exists>j' \<in> set is. incident_kept (fst ` set gs) j j'"
    and len2: "length is = length (tb_incidents d1) + k"
    and ls2: "\<forall>l \<in> set ls. \<exists>i \<in> set is. eid i = li_incident_id l \<and> in_signature i \<in> fst ` set gs"
    and ts2: "list_all2 (\<lambda>(sig, e) t. \<exists>i \<in> set is. in_signature i = sig \<and> timeline_for pystr (eid i) e t)
          (concat (map (\<lambda>(sig, es). map (Pair sig) es) gs)) ts"
    and wf: "db_wf d'" "links_unique d'"
    unfolding run_done_def by blast
  have m: "c = (incident_match window now sig d = None)"
      "incident_match window now sig d = None \<longrightarrow> eid i \<notin> set (tbl_ids (tb_incidents d))"
    and others: "\<forall>sig'. sig' \<noteq> sig \<longrightarrow> filter (\<lambda>x. in_signature x = sig') (tb_incidents d1) =
        filter (\<lambda>x. in_signature x = sig') (tb_incidents d)"
    using reuse unfolding cluster_reuse_def by simp_all
  have sig_i: "in_signature i = sig" using i(2) by (simp add: incident_for_def)
  have i_in: "i \<in> set is"
    using kept2 i(1) sig_i ne by (auto simp: d1(1) incident_kept_def)
  have ids: "distinct (tbl_ids is)"
    using tbl_wf_distinct[OF db_wfD(6)[OF wf(1)]] by (simp add: d'(1))
  have other: "\<forall>l \<in> set ls. li_incident_id l \<noteq> eid i"
    using ls2 ne sig_i i_in ids by (metis option.inject tbl_get_mem)
  have same: "incident_match window now sig' d1 = incident_match window now sig' d" if g: "(sig', es') \<in> set gs" for sig' es'
  proof -
    have "sig' \<noteq> sig" using g ne by force
    then show ?thesis using others by (intro incident_match_cong) blast
  qed
  have old_ids: "set (tbl_ids (tb_incidents d)) \<subseteq> set (tbl_ids (tb_incidents d1))"
  proof
    fix x assume "x \<in> set (tbl_ids (tb_incidents d))"
    then obtain j where j: "j \<in> set (tb_incidents d)" "x = eid j" by (auto simp: tbl_ids_def)
    then obtain j' where "j' \<in> set is1" "eid j' = eid j" using kept1 unfolding incident_kept_def by blast
    then show "x \<in> set (tbl_ids (tb_incidents d1))" using j(2) by (auto simp: d1(1) tbl_ids_def intro!: image_eqI [of _ eid j'])
  qed
  have one_for: "incident_for now sig es (incident_match window now sig d) (tb_links d @ ls1 @ ls) i"
    using incident_for_links[OF i(2) other] by simp
  have rest_for: "\<exists>i \<in> set is. incident_for now sig' es' (incident_match window now sig' d) (tb_links d @ (ls1 @ ls)) i \<and>
      (incident_match window now sig' d = None \<longrightarrow> eid i \<notin> set (tbl_ids (tb_incidents d)))"
    if "(sig', es') \<in> set gs" for sig' es'
  proof -
    from for2 that obtain x where "x \<in> set is"
      "incident_for now sig' es' (incident_match window now sig' d1) (tb_links d1 @ ls) x"
      "incident_match window now sig' d1 = None \<longrightarrow> eid x \<notin> set (tbl_ids (tb_incidents d1))" by blast
    then show ?thesis using old_ids unfolding same [OF that] by (auto simp: d1(1))
  qed
  have fo: "\<forall>(sig', es') \<in> set ((sig, es) # gs). \<exists>i \<in> set is.
      incident_for now sig' es' (incident_match window now sig' d) (tb_links d @ (ls1 @ ls)) i \<and>
      (incident_match window now sig' d = None \<longrightarrow> eid i \<notin> set (tbl_ids (tb_incidents d)))"
    using rest_for one_for i_in m(2) by auto
  have "filter (\<lambda>(sig, es). incident_match window now sig d1 = None) gs =
      filter (\<lambda>(sig, es). incident_match window now sig d = None) gs"
    using same by (intro filter_cong) auto
  then have count: "k + (if c then 1 else 0) =
      length (filter (\<lambda>(sig, es). incident_match window now sig d = None) ((sig, es) # gs))"
    using k m(1) by simp
  have kept: "\<forall>j \<in> set (tb_incidents d). \<exists>j' \<in> set is. incident_kept (fst ` set ((sig, es) # gs)) j j'"
  proof
    fix j assume "j \<in> set (tb_incidents d)"
    then obtain j1 where j1: "j1 \<in> set is1" "incident_kept {sig} j j1" using kept1 by blast
    then obtain j2 where "j2 \<in> set is" "incident_kept (fst ` set gs) j1 j2" using kept2 by (auto simp: d1(1))
    then show "\<exists>j' \<in> set is. incident_kept (fst ` set ((sig, es) # gs)) j j'"
      using incident_kept_trans[OF j1(2)] by auto
  qed
  have ls: "\<forall>l \<in> set (ls1 @ ls). \<exists>i \<in> set is. eid i = li_incident_id l \<and> in_signature i \<in> fst ` set ((sig, es) # gs)"
    using ls1 ls2 i_in sig_i by fastforce
  have "list_all2 (\<lambda>(sig, e) t. \<exists>i \<in> set is. in_signature i = sig \<and> timeline_for pystr (eid i) e t) (map (Pair sig) es) ts1"
    unfolding list_all2_map1 using ts1 i_in sig_i by (auto elim!: list_all2_mono)
  then have ts: "list_all2 (\<lambda>(sig, e) t. \<exists>i \<in> set is. in_signature i = sig \<and> timeline_for pystr (eid i) e t)
      (concat (map (\<lambda>(sig, es). map (Pair sig) es) ((sig, es) # gs))) (ts1 @ ts)"
    using ts2 by (simp add: list_all2_appendI)
  have ev: "map (marked now (set (concat (map snd gs)))) (map (marked now (set es)) (tb_events d)) =
      map (marked now (set (concat (map snd ((sig, es) # gs))))) (tb_events d)"
    using marked_marked[of "set (concat (map snd gs))" "set es" "tb_events d" now] es
      tbl_wf_distinct[OF db_wfD(5)[OF es(3)]] by (auto simp: tbl_ids_def)
  have "d' = d\<lparr>tb_incidents := is, tb_links := tb_links d @ (ls1 @ ls), tb_timeline := tb_timeline d @ (ts1 @ ts),
          tb_events := map (marked now (set (concat (map snd ((sig, es) # gs))))) (tb_events d), next_uuid := n\<rparr>"
    unfolding ev [symmetric] by (simp add: d' d1)
  moreover have "next_uuid d \<le> n" using d1 d' by simp
  moreover have "length is = length (tb_incidents d) + (k + (if c then 1 else 0))"
    using len1 len2 by (simp add: d1(1))
  ultimately show ?thesis
    unfolding run_done_def using fo kept ls ts wf count by blast
qed

lemma correlate_clusters_done:
  assumes "db_wf d" "links_unique d" "distinct (map fst gs)"
    and "set (concat (map snd gs)) \<subseteq> set (tb_events d)" "distinct (concat (map snd gs))" "\<forall>(sig, es) \<in> set gs. es \<noteq> []"
    and "correlate_clusters pystr window now gs created updated d = (created', updated', d')"
  shows "\<exists>k. run_done pystr window now gs k d d' \<and> created' = created + k \<and> created' + updated' = created + updated + length gs"
  using assms
proof (induction gs arbitrary: created updated d)
  case Nil
  then show ?case using run_done_Nil by auto
next
  case (Cons g gs)
  obtain sig es where g: "g = (sig, es)" by fastforce
  obtain c d1 where one: "correlate_cluster pystr window now (sig, es) d = (c, d1)" by fastforce
  have es: "set es \<subseteq> set (tb_events d)" "distinct es" "es \<noteq> []" using Cons.prems g by auto
  from correlate_cluster_done[OF Cons.prems(1,2) es one] obtain i where
    dn: "cluster_done pystr now sig es (incident_match window now sig d) c i d d1" by blast
  then have wf1: "db_wf d1" "links_unique d1" and ev1: "tb_events d1 = map (marked now (set es)) (tb_events d)"
    by (auto simp: cluster_done_def)
  have sub: "set (concat (map snd gs)) \<subseteq> set (tb_events d1)"
  proof
    fix e assume e: "e \<in> set (concat (map snd gs))"
    then have "e \<notin> set es" "e \<in> set (tb_events d)" using Cons.prems(4,5) g by auto
    then have "marked now (set es) e = e" by (simp add: marked_def)
    then show "e \<in> set (tb_events d1)" using \<open>e \<in> set (tb_events d)\<close> unfolding ev1 by force
  qed
  have run: "correlate_clusters pystr window now gs (if c then created + 1 else created)
      (if c then updated else updated + 1) d1 = (created', updated', d')"
    using Cons.prems(7) one g by (cases c) auto
  have "distinct (map fst gs)" "distinct (concat (map snd gs))" "\<forall>(sig, es) \<in> set gs. es \<noteq> []"
    using Cons.prems by auto
  from Cons.IH[OF wf1 this(1) sub this(2,3) run] obtain k where
    k: "run_done pystr window now gs k d1 d'" "created' = (if c then created + 1 else created) + k"
      "created' + updated' = (if c then created + 1 else created) + (if c then updated else updated + 1) + length gs"
    by blast
  have "run_done pystr window now ((sig, es) # gs) (k + (if c then 1 else 0)) d d'"
  proof (rule run_done_Cons[OF dn k(1) _ _ _ Cons.prems(1)])
    show "sig \<notin> fst ` set gs" using Cons.prems(3) g by simp
    show "set (concat (map snd gs)) \<subseteq> set (tb_events d)" using Cons.prems(4) g by simp
    show "distinct (es @ concat (map snd gs))" using Cons.prems(5) g by simp
  qed
  then show ?case using k g by (intro exI[of _ "k + (if c then 1 else 0)"]) auto
qed

section \<open>The properties\<close>

lemma listed_events:
  assumes "db_wf d"
  shows "set (events_unprocessed n d) \<subseteq> set (tb_events d)" "distinct (events_unprocessed n d)"
    "\<forall>e \<in> set (events_unprocessed n d). ev_processed_at e = None"
proof -
  have "distinct (map eid (tb_events d))"
    using tbl_wf_distinct[OF db_wfD(5)[OF assms]] by (simp add: tbl_ids_def)
  then have "distinct (map eid (events_unprocessed n d))"
    unfolding events_unprocessed_def by (rule distinct_map_filter_take)
  then show "distinct (events_unprocessed n d)" by (simp add: distinct_map)
  show "set (events_unprocessed n d) \<subseteq> set (tb_events d)"
    "\<forall>e \<in> set (events_unprocessed n d). ev_processed_at e = None"
    using events_unprocessed_sub by blast+
qed

lemma run_correlation_done:
  assumes "db_wf d" "links_unique d" "run_correlation pystr window now d = (r, d')"
  shows "\<exists>k. run_done pystr window now (group_by (signature_for pystr) (events_unprocessed 200 d)) k d d' \<and>
    cr_events_processed r = length (events_unprocessed 200 d) \<and> cr_incidents_created r = k \<and>
    k + cr_incidents_updated r = length (group_by (signature_for pystr) (events_unprocessed 200 d))"
proof -
  let ?ev = "events_unprocessed 200 d"
  let ?gs = "group_by (signature_for pystr) ?ev"
  obtain c u where run: "correlate_clusters pystr window now ?gs 0 0 d = (c, u, d')"
    and r: "r = \<lparr>cr_events_processed = length ?ev, cr_incidents_created = c, cr_incidents_updated = u\<rparr>"
    using assms(3) by (auto simp: run_correlation_def Let_def split: prod.splits)
  have all: "set (concat (map snd ?gs)) = set ?ev"
    using group_by_mset[of "signature_for pystr" ?ev] by (metis set_mset_mset)
  have "set (concat (map snd ?gs)) \<subseteq> set (tb_events d)"
    unfolding all using listed_events(1)[OF assms(1)] .
  moreover have "distinct (concat (map snd ?gs))"
    using group_by_mset[of "signature_for pystr" ?ev] listed_events(2)[OF assms(1)]
    by (metis mset_eq_imp_distinct_iff)
  moreover have "\<forall>(sig, es) \<in> set ?gs. es \<noteq> []" by (auto simp: group_by_elem)
  ultimately show ?thesis
    using correlate_clusters_done[OF assms(1,2) group_by_keys_distinct _ _ _ run] r by auto
qed

lemma evidence_on_fields:
  assumes "evidence_on now sig es m i" "es \<noteq> []"
  shows "case m of
      Some j \<Rightarrow> eid i = eid j \<and> in_severity i = max (in_severity j) (Max (ev_severity ` set es)) \<and>
        in_last_seen_at i = max (in_last_seen_at j) now \<and> in_first_seen_at i = in_first_seen_at j
    | None \<Rightarrow> in_severity i = Max (ev_severity ` set es) \<and>
        in_first_seen_at i = Min (ev_occurred_at ` set es) \<and>
        in_last_seen_at i = max (Max (ev_occurred_at ` set es)) now"
proof -
  have top: "max_severity (ev_severity (hd es)) (map ev_severity (tl es)) = Max (ev_severity ` set es)"
    using assms(2) by (cases es) (simp_all add: max_severity_Max)
  have hd: "max (ev_severity (hd es)) (Max (ev_severity ` set es)) = Max (ev_severity ` set es)"
    using assms(2) by (intro max_absorb2) simp
  have first: "in_first_seen_at (record_new_evidence now now c x y) = in_first_seen_at y" for c x y
    by (simp add: record_new_evidence_def touch_def)
  note i = assms(1) [unfolded evidence_on_def top]
  show ?thesis
  proof (cases m)
    case None
    then show ?thesis using hd by (subst (1 2 3) i) (simp add: first new_incident_def)
  next
    case (Some j)
    then show ?thesis by (subst (1 2 3 4) i) (simp add: first)
  qed
qed

text \<open>C19. Correlation attaches each group of the unprocessed events it took, those of one signature, to one open
  incident of that signature: to the latest one seen within the window before the run, if there is one, and
  else to a new one. The incident's severity is the highest of the events and of what it had, it is seen now,
  it is linked to the account of each event, and its confidence is what the number of its linked accounts gives.
  No incident disappears, changes its status or loses severity, and incidents of other signatures are
  unchanged. The number of incidents created is the number of groups without an incident to reuse, and the
  groups are as many as those created and updated.\<close>

theorem correlation_incidents:
  assumes "db_wf d" "links_unique d" "run_correlation pystr window now d = (r, d')"
  shows "(\<forall>(sig, es) \<in> set (group_by (signature_for pystr) (events_unprocessed 200 d)).
       \<exists>i \<in> set (tb_incidents d'). in_signature i = sig \<and> in_status i = OPEN \<and>
         (case incident_find_open_matching sig (now - window) d of
            Some j \<Rightarrow> eid i = eid j \<and> in_severity i = max (in_severity j) (Max (ev_severity ` set es)) \<and>
              in_last_seen_at i = max (in_last_seen_at j) now \<and> in_first_seen_at i = in_first_seen_at j
          | None \<Rightarrow> eid i \<notin> set (tbl_ids (tb_incidents d)) \<and> in_severity i = Max (ev_severity ` set es) \<and>
              in_first_seen_at i = Min (ev_occurred_at ` set es) \<and>
              in_last_seen_at i = max (Max (ev_occurred_at ` set es)) now) \<and>
         in_confidence i =
           confidence_for (card (li_account_id ` {l \<in> set (tb_links d'). li_incident_id l = eid i})) \<and>
         (\<forall>e \<in> set es. \<forall>a. ev_account_id e = Some a \<longrightarrow>
            (\<exists>l \<in> set (tb_links d'). li_incident_id l = eid i \<and> li_account_id l = a))) \<and>
    (\<forall>j \<in> set (tb_incidents d). \<exists>j' \<in> set (tb_incidents d'). eid j' = eid j \<and>
       in_signature j' = in_signature j \<and> in_status j' = in_status j \<and> in_severity j \<le> in_severity j' \<and>
       (in_signature j \<notin> signature_for pystr ` set (events_unprocessed 200 d) \<longrightarrow> j' = j)) \<and>
    length (tb_incidents d') = length (tb_incidents d) + cr_incidents_created r \<and>
    cr_incidents_created r = length (filter (\<lambda>(sig, es). incident_find_open_matching sig (now - window) d = None)
      (group_by (signature_for pystr) (events_unprocessed 200 d))) \<and>
    cr_incidents_created r + cr_incidents_updated r =
      length (group_by (signature_for pystr) (events_unprocessed 200 d)) \<and>
    db_wf d' \<and> links_unique d'"
proof -
  let ?gs = "group_by (signature_for pystr) (events_unprocessed 200 d)"
  obtain k where rd: "run_done pystr window now ?gs k d d'" "cr_incidents_created r = k"
    "k + cr_incidents_updated r = length ?gs"
    using run_correlation_done [OF assms] by blast
  have attached: "\<exists>i \<in> set (tb_incidents d'). in_signature i = sig \<and> in_status i = OPEN \<and>
         (case incident_find_open_matching sig (now - window) d of
            Some j \<Rightarrow> eid i = eid j \<and> in_severity i = max (in_severity j) (Max (ev_severity ` set es)) \<and>
              in_last_seen_at i = max (in_last_seen_at j) now \<and> in_first_seen_at i = in_first_seen_at j
          | None \<Rightarrow> eid i \<notin> set (tbl_ids (tb_incidents d)) \<and> in_severity i = Max (ev_severity ` set es) \<and>
              in_first_seen_at i = Min (ev_occurred_at ` set es) \<and>
              in_last_seen_at i = max (Max (ev_occurred_at ` set es)) now) \<and>
         in_confidence i =
           confidence_for (card (li_account_id ` {l \<in> set (tb_links d'). li_incident_id l = eid i})) \<and>
         (\<forall>e \<in> set es. \<forall>a. ev_account_id e = Some a \<longrightarrow>
            (\<exists>l \<in> set (tb_links d'). li_incident_id l = eid i \<and> li_account_id l = a))"
    if g: "(sig, es) \<in> set ?gs" for sig es
  proof -
    have ne: "es \<noteq> []" using g by (auto simp: group_by_elem)
    obtain i where i: "i \<in> set (tb_incidents d')"
      "incident_for now sig es (incident_match window now sig d) (tb_links d') i"
      "incident_match window now sig d = None \<longrightarrow> eid i \<notin> set (tbl_ids (tb_incidents d))"
      using rd(1) g unfolding run_done_def by fastforce
    then have ev: "evidence_on now sig es (incident_match window now sig d) i" by (simp add: incident_for_def)
    show ?thesis
      using evidence_on_fields [OF ev ne] i unfolding incident_match_def incident_for_def
      by (intro bexI [of _ i]) (simp_all split: option.splits)
  qed
  have kept: "\<forall>j \<in> set (tb_incidents d). \<exists>j' \<in> set (tb_incidents d'). eid j' = eid j \<and>
       in_signature j' = in_signature j \<and> in_status j' = in_status j \<and> in_severity j \<le> in_severity j' \<and>
       (in_signature j \<notin> signature_for pystr ` set (events_unprocessed 200 d) \<longrightarrow> j' = j)"
    "length (tb_incidents d') = length (tb_incidents d) + k" "db_wf d'" "links_unique d'"
    "k = length (filter (\<lambda>(sig, es). incident_find_open_matching sig (now - window) d = None) ?gs)"
    using rd(1) by (auto simp: run_done_def incident_kept_def group_by_keys incident_match_def)
  show ?thesis
    unfolding rd(2) Ball_def [of "set ?gs"] split_paired_All prod.case
    by (intro conjI allI impI; (rule attached kept rd(3))?; assumption?)
qed

text \<open>C20. Every event a run took is processed exactly once: it is stamped, all
  other events are as they were, and the timeline grows by one entry per event,
  carrying the event's stage, description, time and identifier, of an incident
  that has the event's signature. The number returned is the number of events
  taken, at most 200.\<close>

theorem correlation_events:
  assumes "db_wf d" "links_unique d" "run_correlation pystr window now d = (r, d')"
  shows "tb_events d' = map (\<lambda>e. if e \<in> set (events_unprocessed 200 d)
                              then event_mark_processed now now e else e) (tb_events d) \<and>
    (\<exists>taken ts. mset taken = mset (events_unprocessed 200 d) \<and> tb_timeline d' = tb_timeline d @ ts \<and>
       list_all2 (\<lambda>e t. \<exists>i \<in> set (tb_incidents d'). in_signature i = signature_for pystr e \<and>
         tl_incident_id t = eid i \<and> tl_stage t = str_upper (ev_event_type e) \<and>
         tl_description t = event_description pystr e \<and> tl_occurred_at t = ev_occurred_at e \<and>
         tl_source_event_id t = Some (eid e)) taken ts) \<and>
    cr_events_processed r = length (events_unprocessed 200 d) \<and> cr_events_processed r \<le> 200"
proof -
  let ?ev = "events_unprocessed 200 d"
  let ?gs = "group_by (signature_for pystr) ?ev"
  from run_correlation_done[OF assms] obtain k where
    rd: "run_done pystr window now ?gs k d d'" and n: "cr_events_processed r = length ?ev" by blast
  from rd obtain "is" ls ts m where
    d': "d' = d\<lparr>tb_incidents := is, tb_links := tb_links d @ ls, tb_timeline := tb_timeline d @ ts,
          tb_events := map (marked now (set (concat (map snd ?gs)))) (tb_events d), next_uuid := m\<rparr>"
    and ts: "list_all2 (\<lambda>(sig, e) t. \<exists>i \<in> set is. in_signature i = sig \<and> timeline_for pystr (eid i) e t)
          (concat (map (\<lambda>(sig, es). map (Pair sig) es) ?gs)) ts"
    unfolding run_done_def by blast
  have all: "set (concat (map snd ?gs)) = set ?ev"
    using group_by_mset[of "signature_for pystr" ?ev] by (metis set_mset_mset)
  have pairs: "concat (map (\<lambda>(sig, es). map (Pair sig) es) ?gs) =
      map (\<lambda>e. (signature_for pystr e, e)) (concat (map snd ?gs))"
  proof -
    have "map (Pair sig) es = map (\<lambda>e. (signature_for pystr e, e)) es" if "(sig, es) \<in> set ?gs" for sig es
      using that by (auto simp: group_by_elem)
    then have "map (\<lambda>(sig, es). map (Pair sig) es) ?gs =
        map (\<lambda>g. map (\<lambda>e. (signature_for pystr e, e)) (snd g)) ?gs"
      by (intro map_cong) auto
    then show ?thesis by (simp only: map_concat map_map comp_def)
  qed
  have ev: "tb_events d' = map (\<lambda>e. if e \<in> set ?ev then event_mark_processed now now e else e) (tb_events d)"
    unfolding d' all marked_def by simp
  have "list_all2 (\<lambda>e t. \<exists>i \<in> set (tb_incidents d'). in_signature i = signature_for pystr e \<and>
         tl_incident_id t = eid i \<and> tl_stage t = str_upper (ev_event_type e) \<and>
         tl_description t = event_description pystr e \<and> tl_occurred_at t = ev_occurred_at e \<and>
         tl_source_event_id t = Some (eid e)) (concat (map snd ?gs)) ts"
    using ts unfolding pairs list_all2_map1 by (auto simp: d' timeline_for_def elim!: list_all2_mono)
  moreover have "tb_timeline d' = tb_timeline d @ ts" by (simp add: d')
  moreover have "length ?ev \<le> 200" by (simp add: events_unprocessed_def)
  ultimately show ?thesis
    using ev n group_by_mset[of "signature_for pystr" ?ev] by auto
qed

lemma count_marked:
  assumes "set S \<subseteq> set es" "distinct S" "\<forall>e \<in> set S. ev_processed_at e = None" "distinct es"
  shows "length (filter (\<lambda>e. ev_processed_at e = None) (map (marked now (set S)) es)) + length S =
    length (filter (\<lambda>e. ev_processed_at e = None) es)"
proof -
  have "filter (\<lambda>e. ev_processed_at e = None) (map (marked now (set S)) es) =
      map (marked now (set S)) (filter (\<lambda>e. ev_processed_at e = None \<and> e \<notin> set S) es)"
    by (simp add: filter_map comp_def) (rule arg_cong[where f = "map _"], rule filter_cong, auto simp: marked_def)
  moreover have "{e \<in> set es. ev_processed_at e = None} = {e \<in> set es. ev_processed_at e = None \<and> e \<notin> set S} \<union> set S"
    using assms(1,3) by auto
  then have "card {e \<in> set es. ev_processed_at e = None} =
      card {e \<in> set es. ev_processed_at e = None \<and> e \<notin> set S} + card (set S)"
    by (simp add: card_Un_disjoint disjoint_iff)
  ultimately show ?thesis
    using assms(2,4) by (simp add: distinct_length_filter Int_def conj_commute distinct_card)
qed

lemma correlation_count:
  assumes "db_wf d" "links_unique d" "run_correlation pystr window now d = (r, d')"
  shows "events_count_unprocessed d' = events_count_unprocessed d - 200" "db_wf d'" "links_unique d'"
    "cr_events_processed r = min 200 (events_count_unprocessed d)"
proof -
  let ?ev = "events_unprocessed 200 d"
  let ?gs = "group_by (signature_for pystr) ?ev"
  from run_correlation_done[OF assms] obtain k where
    rd: "run_done pystr window now ?gs k d d'" and r: "cr_events_processed r = length ?ev" by blast
  have all: "set (concat (map snd ?gs)) = set ?ev"
    using group_by_mset[of "signature_for pystr" ?ev] by (metis set_mset_mset)
  have ev: "tb_events d' = map (marked now (set ?ev)) (tb_events d)"
    using rd unfolding run_done_def all by auto
  have "distinct (tb_events d)"
    using tbl_wf_distinct[OF db_wfD(5)[OF assms(1)]] by (simp add: tbl_ids_def distinct_map)
  from count_marked[OF listed_events[OF assms(1), of 200] this, of now]
  have "events_count_unprocessed d' + length ?ev = events_count_unprocessed d"
    by (simp add: events_count_unprocessed_def ev)
  moreover have len: "length ?ev = min 200 (events_count_unprocessed d)"
    by (simp add: events_unprocessed_def events_count_unprocessed_def)
  ultimately show "events_count_unprocessed d' = events_count_unprocessed d - 200" by simp
  show "cr_events_processed r = min 200 (events_count_unprocessed d)" using r len by simp
  show "db_wf d'" "links_unique d'" using rd by (auto simp: run_done_def)
qed

text \<open>Correlation runs at the given times, nothing else happening in between.\<close>

fun correlation_runs ::
    "(json \<Rightarrow> string) \<Rightarrow> int \<Rightarrow> datetime list \<Rightarrow> db \<Rightarrow> db" where
  "correlation_runs pystr window [] d = d"
| "correlation_runs pystr window (now # tms) d =
     correlation_runs pystr window tms (snd (run_correlation pystr window now d))"

lemma correlation_runs_count:
  assumes "db_wf d" "links_unique d"
  shows "events_count_unprocessed (correlation_runs pystr window tms d) =
    events_count_unprocessed d - 200 * length tms"
  using assms
proof (induction tms arbitrary: d)
  case (Cons now tms)
  obtain r d1 where run: "run_correlation pystr window now d = (r, d1)" by fastforce
  note step = correlation_count[OF Cons.prems run]
  show ?case using Cons.IH[OF step(2,3)] step(1) run by simp
qed simp

text \<open>No event is starved: after as many runs as the backlog has blocks of
  200 events, every event has been processed, and a further run takes nothing,
  creates and updates no incident and leaves the database as it is.\<close>

theorem correlation_drains:
  assumes "db_wf d" "links_unique d" "events_count_unprocessed d \<le> 200 * length tms"
  shows "events_count_unprocessed (correlation_runs pystr window tms d) = 0 \<and>
    run_correlation pystr window now (correlation_runs pystr window tms d) =
      (\<lparr>cr_events_processed = 0, cr_incidents_created = 0, cr_incidents_updated = 0\<rparr>,
       correlation_runs pystr window tms d)"
proof -
  let ?d = "correlation_runs pystr window tms d"
  have "events_count_unprocessed ?d = 0"
    using correlation_runs_count[OF assms(1,2)] assms(3) by simp
  then have "events_unprocessed 200 ?d = []"
    by (simp add: events_count_unprocessed_def events_unprocessed_def order_asc_def)
  then have "run_correlation pystr window now ?d =
      (\<lparr>cr_events_processed = 0, cr_incidents_created = 0, cr_incidents_updated = 0\<rparr>, ?d)"
    by (simp add: run_correlation_def group_by_def)
  with \<open>events_count_unprocessed ?d = 0\<close> show ?thesis by blast
qed

text \<open>The signature of an event does not depend on the order in which the
  scanner reported the matched rules.\<close>

theorem signature_order_irrelevant:
  assumes "ev_event_type e' = ev_event_type e"
    and "json_get (JObj (ev_payload e)) ''matched_rule_ids'' = JArr xs"
    and "json_get (JObj (ev_payload e')) ''matched_rule_ids'' = JArr ys" "mset xs = mset ys"
  shows "signature_for pystr e' = signature_for pystr e"
proof -
  have "mset (map (json_str pystr) xs) = mset (map (json_str pystr) ys)" using assms(4) by simp
  then have "sort (map (json_str pystr) xs) = sort (map (json_str pystr) ys)"
    by (metis sorted_list_of_multiset_mset)
  then show ?thesis unfolding signature_for_def assms(1-3) by (simp add: Let_def)
qed

text \<open>The confidence of an incident lies between 0.5 and 0.99, does not fall
  when another account is linked, and reaches its maximum at five accounts.\<close>

theorem confidence_bounds:
  "1 / 2 \<le> confidence_for n \<and> confidence_for n \<le> 99 / 100 \<and> confidence_for n \<le> confidence_for (Suc n) \<and>
   confidence_for (5 + n) = 99 / 100 \<and> confidence_for 4 < 99 / 100"
proof -
  have "(0::rat) \<le> of_nat n" by simp
  moreover have "(1::rat) \<le> of_nat n" if "n \<noteq> 0" using that by (simp add: Suc_leI)
  ultimately show ?thesis by (auto simp: confidence_for_def min_def field_simps)
qed

section \<open>A concrete run\<close>

text \<open>Two events of two accounts that matched the same rules.\<close>

definition demo_event :: "uuid \<Rightarrow> uuid \<Rightarrow> string list \<Rightarrow> security_event" where
  "demo_event i a rules = new_event i 0 ''scan'' ''forensics'' (Some a) HIGH
     [(''matched_rule_ids'', JArr (map JStr rules))] 0"

definition demo_corr_db :: db where
  "demo_corr_db = empty_db\<lparr>tb_events := [demo_event 3 7 [''b'', ''a''], demo_event 4 8 [''a'', ''b'']],
     next_uuid := 10\<rparr>"

definition demo_run :: "correlation_result \<times> db" where
  "demo_run = run_correlation (\<lambda>_. []) 60 5 demo_corr_db"

lemma demo_corr_ok: "db_wf demo_corr_db" "links_unique demo_corr_db"
  by (simp_all add: demo_corr_db_def empty_db_def db_wf_def tbl_wf_def demo_event_def links_unique_def)

lemma demo_signatures:
  "signature_for (\<lambda>_. []) (demo_event 3 7 [''b'', ''a'']) = ''scan:a|b''"
  "signature_for (\<lambda>_. []) (demo_event 4 8 [''a'', ''b'']) = ''scan:a|b''"
  by (simp_all add: signature_for_def demo_event_def json_str_def Let_def)

lemma demo_listed:
  "events_unprocessed 200 demo_corr_db = [demo_event 3 7 [''b'', ''a''], demo_event 4 8 [''a'', ''b'']]"
  by (simp add: events_unprocessed_def demo_corr_db_def order_asc_def demo_event_def new_event_def)

lemma demo_clusters:
  "group_by (signature_for (\<lambda>_. [])) (events_unprocessed 200 demo_corr_db) =
     [(''scan:a|b'', [demo_event 3 7 [''b'', ''a''], demo_event 4 8 [''a'', ''b'']])]"
  by (simp add: demo_listed group_by_def group_add_def demo_signatures dict_set_def)

theorem correlation_incidents_witness:
  "\<exists>i \<in> set (tb_incidents (snd demo_run)). in_signature i = ''scan:a|b'' \<and> in_severity i = HIGH \<and> in_last_seen_at i = 5"
proof -
  have "run_correlation (\<lambda>_. []) 60 5 demo_corr_db = (fst demo_run, snd demo_run)"
    by (simp add: demo_run_def)
  from correlation_incidents[OF demo_corr_ok this, THEN conjunct1]
  have "\<forall>(sig, es) \<in> {(''scan:a|b'', [demo_event 3 7 [''b'', ''a''], demo_event 4 8 [''a'', ''b'']])}.
      \<exists>i \<in> set (tb_incidents (snd demo_run)). in_signature i = sig \<and>
        in_severity i = Max (ev_severity ` set es) \<and> in_last_seen_at i = max (Max (ev_occurred_at ` set es)) 5"
    unfolding demo_clusters by (auto simp: incident_find_open_matching_def demo_corr_db_def empty_db_def order_desc_def)
  then show ?thesis by (simp add: demo_event_def new_event_def)
qed

theorem correlation_events_witness: "cr_events_processed (fst demo_run) = 2"
proof -
  have "run_correlation (\<lambda>_. []) 60 5 demo_corr_db = (fst demo_run, snd demo_run)"
    by (simp add: demo_run_def)
  from correlation_events[OF demo_corr_ok this] show ?thesis by (simp add: demo_listed)
qed

theorem correlation_drains_witness:
  "events_count_unprocessed (correlation_runs (\<lambda>_. []) 60 [5] demo_corr_db) = 0"
  using correlation_drains[OF demo_corr_ok, of "[5]"]
  by (simp add: events_count_unprocessed_def demo_corr_db_def demo_event_def)

theorem signature_order_irrelevant_witness:
  "signature_for (\<lambda>_. []) (demo_event 4 8 [''a'', ''b'']) = signature_for (\<lambda>_. []) (demo_event 3 7 [''b'', ''a''])"
  by (rule signature_order_irrelevant[where xs = "[JStr ''b'', JStr ''a'']" and ys = "[JStr ''a'', JStr ''b'']"])
    (simp_all add: demo_event_def)

end
