(* ===== verification/Root_Cause.thy ===== *)
theory Root_Cause
  imports Database "HOL-Library.List_Lexorder" "HOL-Library.Char_ord" "HOL-Library.Option_ord"
    "HOL-Library.Product_Lexorder"
begin

text \<open>
  \<open>AnalyzeRootCauseUseCase\<close> (\<open>application/intelligence/use_cases.py\<close>): for an
  open incident of at least two accounts, a plugin and version that every one
  of them has installed. Python sorts the pairs of slug and version; a version
  that is \<open>None\<close> and one that is a string cannot be compared, so \<open>sorted\<close>
  raises \<open>TypeError\<close> exactly when both occur with the same slug.
\<close>

section \<open>The use case\<close>

type_synonym plugin_version = "string \<times> string option"

definition account_plugins :: "db \<Rightarrow> uuid \<Rightarrow> plugin_version set" where
  "account_plugins d account =
     (\<Union>i \<in> set (installations_by_account account d).
        (\<lambda>p. (pl_slug p, pl_version p)) ` set (filter pl_is_present (plugins_by_installation (eid i) d)))"

definition common_plugins :: "db \<Rightarrow> uuid set \<Rightarrow> plugin_version set" where
  "common_plugins d accounts = (if accounts = {} then {} else (\<Inter>a \<in> accounts. account_plugins d a))"

definition sort_candidates :: "plugin_version set \<Rightarrow> plugin_version list res" where
  "sort_candidates c =
     (if \<exists>p \<in> c. snd p = None \<and> (\<exists>q \<in> c. fst q = fst p \<and> snd q \<noteq> None)
      then Inl (TypeError ''not supported between instances of str and NoneType'')
      else Inr (sorted_list_of_set c))"

definition conclude :: "nat \<Rightarrow> plugin_version list \<Rightarrow> root_cause_conclusion" where
  "conclude account_count candidates =
     (let slug = fst (hd candidates); version = snd (hd candidates);
          unambiguous = (length candidates = 1);
          version_label = (case version of None \<Rightarrow> ''unknown version''
                             | Some v \<Rightarrow> if v = [] then ''unknown version'' else v);
          count = nat_str account_count;
          reasoning = ''All '' @ count @ '' accounts linked to this incident have plugin '' @ [CHR 0x27] @ slug @
            [CHR 0x27] @ '' version '' @ [CHR 0x27] @ version_label @ [CHR 0x27] @ '' installed'';
          reasoning = (if unambiguous then reasoning
            else reasoning @ ''; '' @ nat_str (length candidates) @
              '' plugins are shared across every affected account, reporting the most likely candidate '' @
              [CHR 0xE2, CHR 0x80, CHR 0x94] @
              '' ranking by known vulnerability data is deferred to the plugin reputation engine (a later phase)'')
      in \<lparr>rc_confidence = (if unambiguous then 9 / 10 else 6 / 10),
          rc_summary = ''Shared plugin '' @ slug @ '' ('' @ version_label @ '') across all '' @ count @
            '' affected accounts'',
          rc_evidence = [slug @ '' '' @ version_label @ '' present on every affected account''],
          rc_reasoning = reasoning,
          rc_recommended_action = ''Update or remove plugin '' @ [CHR 0x27] @ slug @ [CHR 0x27] @
            '' on all affected accounts'',
          rc_false_positive_probability = (if unambiguous then 1 / 10 else 4 / 10)\<rparr>)"

definition analyze :: "uuid set \<Rightarrow> db \<Rightarrow> root_cause_conclusion option res" where
  "analyze accounts d =
     (let common = common_plugins d accounts
      in if common = {} then Inr None
         else case sort_candidates common of
                Inl e \<Rightarrow> Inl e
              | Inr candidates \<Rightarrow> Inr (Some (conclude (card accounts) candidates)))"

fun analyze_incidents :: "datetime \<Rightarrow> incident list \<Rightarrow> nat \<Rightarrow> db \<Rightarrow> nat res \<times> db" where
  "analyze_incidents now [] n d = (Inr n, d)"
| "analyze_incidents now (i # is) n d =
     (if in_root_cause i \<noteq> None then analyze_incidents now is n d
      else
        (let accounts = li_account_id ` set (links_by_incident (eid i) d)
         in if card accounts < 2 then analyze_incidents now is n d
            else case analyze accounts d of
                   Inl e \<Rightarrow> (Inl e, d)
                 | Inr None \<Rightarrow> analyze_incidents now is n d
                 | Inr (Some c) \<Rightarrow>
                     analyze_incidents now is (n + 1)
                       (d\<lparr>tb_incidents := tbl_save (apply_root_cause now c i) (tb_incidents d)\<rparr>)))"

definition analyze_root_cause :: "datetime \<Rightarrow> db \<Rightarrow> nat res \<times> db" where
  "analyze_root_cause now d = analyze_incidents now (incidents_open d) 0 d"

section \<open>The loop\<close>

definition linked_accounts :: "db \<Rightarrow> incident \<Rightarrow> uuid set" where
  "linked_accounts d i = li_account_id ` {l \<in> set (tb_links d). li_incident_id l = eid i}"

text \<open>The incidents a run works on.\<close>

definition analyzable :: "db \<Rightarrow> incident \<Rightarrow> bool" where
  "analyzable d i \<longleftrightarrow> in_status i = OPEN \<and> in_root_cause i = None \<and> 2 \<le> card (linked_accounts d i) \<and>
     common_plugins d (linked_accounts d i) \<noteq> {}"

text \<open>The same plugin is on every account once with and once without a known
  version.\<close>

definition mixed_versions :: "db \<Rightarrow> incident \<Rightarrow> bool" where
  "mixed_versions d i \<longleftrightarrow>
     (\<exists>s v. (s, None) \<in> common_plugins d (linked_accounts d i) \<and> (s, Some v) \<in> common_plugins d (linked_accounts d i))"

definition concluded :: "datetime \<Rightarrow> db \<Rightarrow> incident \<Rightarrow> incident" where
  "concluded now d i =
     (if analyzable d i
      then apply_root_cause now (conclude (card (linked_accounts d i))
             (sorted_list_of_set (common_plugins d (linked_accounts d i)))) i
      else i)"

lemma finite_common: "finite (common_plugins d accounts)"
proof (cases "accounts = {}")
  case False
  then obtain a where "a \<in> accounts" by blast
  then have "common_plugins d accounts \<subseteq> account_plugins d a"
    by (auto simp: common_plugins_def)
  moreover have "finite (account_plugins d a)" by (simp add: account_plugins_def)
  ultimately show ?thesis by (rule finite_subset)
qed (simp add: common_plugins_def)

lemma mixed_iff:
  "(\<exists>p \<in> c. snd p = None \<and> (\<exists>q \<in> c. fst q = fst p \<and> snd q \<noteq> None)) \<longleftrightarrow>
   (\<exists>s v. (s, None) \<in> c \<and> (s, Some v) \<in> c)"
proof
  assume "\<exists>p \<in> c. snd p = None \<and> (\<exists>q \<in> c. fst q = fst p \<and> snd q \<noteq> None)"
  then obtain s w v where "(s, w) \<in> c" "w = None" "(s, Some v) \<in> c" by auto
  then show "\<exists>s v. (s, None) \<in> c \<and> (s, Some v) \<in> c" by blast
next
  assume "\<exists>s v. (s, None) \<in> c \<and> (s, Some v) \<in> c"
  then obtain s v where "(s, None) \<in> c" "(s, Some v) \<in> c" by blast
  then show "\<exists>p \<in> c. snd p = None \<and> (\<exists>q \<in> c. fst q = fst p \<and> snd q \<noteq> None)"
    by (intro bexI[of _ "(s, None)"] conjI bexI[of _ "(s, Some v)"]) simp_all
qed

lemma sort_candidates_cases:
  "sort_candidates (common_plugins d (linked_accounts d i)) =
     (if mixed_versions d i then Inl (TypeError ''not supported between instances of str and NoneType'')
      else Inr (sorted_list_of_set (common_plugins d (linked_accounts d i))))"
  unfolding sort_candidates_def mixed_versions_def mixed_iff ..

lemma concluded_id [simp]: "eid (concluded now d i) = eid i" "in_status (concluded now d i) = in_status i"
  "in_signature (concluded now d i) = in_signature i" "in_severity (concluded now d i) = in_severity i"
  by (simp_all add: concluded_def)

lemma concluded_cong:
  "tb_links d' = tb_links d \<Longrightarrow> tb_installations d' = tb_installations d \<Longrightarrow> tb_plugins d' = tb_plugins d \<Longrightarrow>
   linked_accounts d' = linked_accounts d \<and> common_plugins d' = common_plugins d"
  by (rule conjI; rule ext)
    (simp_all add: linked_accounts_def common_plugins_def account_plugins_def installations_by_account_def
      plugins_by_installation_def)

lemma links_accounts: "li_account_id ` set (links_by_incident (eid i) d) = linked_accounts d i"
  by (auto simp: links_by_incident_def linked_accounts_def)

text \<open>One run over distinct open incidents \<open>is\<close>: either it stops at the first
  incident with mixed versions, or it concludes all of them.\<close>

lemma analyze_incidents_run:
  assumes "distinct (tbl_ids (tb_incidents d))" "set is \<subseteq> set (tb_incidents d)" "distinct is"
    and "\<forall>i \<in> set is. in_status i = OPEN"
  shows "analyze_incidents now is n d =
    (let pre = takeWhile (\<lambda>i. \<not> (analyzable d i \<and> mixed_versions d i)) is;
         d' = d\<lparr>tb_incidents := map (\<lambda>i. if i \<in> set pre then concluded now d i else i) (tb_incidents d)\<rparr>
     in (if pre = is then Inr (n + length (filter (analyzable d) is))
         else Inl (TypeError ''not supported between instances of str and NoneType''), d'))"
  using assms
proof (induction "is" arbitrary: n d)
  case Nil
  then show ?case by simp
next
  case (Cons i "is")
  have i: "i \<in> set (tb_incidents d)" "in_status i = OPEN" using Cons.prems by auto
  show ?case
  proof (cases "analyzable d i")
    case False
    then have "analyze_incidents now (i # is) n d = analyze_incidents now is n d"
      using i(2) by (auto simp: analyze_def analyzable_def links_accounts Let_def)
    moreover have "concluded now d i = i" using False by (simp add: concluded_def)
    ultimately show ?thesis
      using Cons False by (auto simp: Let_def intro!: arg_cong[where f = "\<lambda>x. d\<lparr>tb_incidents := x\<rparr>"])
  next
    case an: True
    then have ok: "in_root_cause i = None" "2 \<le> card (linked_accounts d i)"
      "common_plugins d (linked_accounts d i) \<noteq> {}" by (simp_all add: analyzable_def)
    show ?thesis
    proof (cases "mixed_versions d i")
      case True
      then show ?thesis
        using an ok by (simp add: Let_def links_accounts analyze_def sort_candidates_cases)
    next
      case False
      let ?i = "concluded now d i"
      let ?g = "\<lambda>x. if x = i then ?i else x"
      let ?d = "d\<lparr>tb_incidents := tbl_save ?i (tb_incidents d)\<rparr>"
      have step: "analyze_incidents now (i # is) n d = analyze_incidents now is (n + 1) ?d"
        using an ok False by (simp add: Let_def links_accounts analyze_def sort_candidates_cases concluded_def)
      have save: "tbl_save ?i (tb_incidents d) = map ?g (tb_incidents d)"
      proof -
        have "tbl_save ?i (tb_incidents d) = map (\<lambda>x. if eid x = eid i then ?i else x) (tb_incidents d)"
          using tbl_save_map[OF Cons.prems(1), of ?i] i(1) by (auto simp: in_tbl_ids)
        also have "\<dots> = map ?g (tb_incidents d)"
          using tbl_get_mem[OF Cons.prems(1)] i(1) by (intro map_cong) (auto, metis option.inject)
        finally show ?thesis .
      qed
      have same: "linked_accounts ?d = linked_accounts d" "common_plugins ?d = common_plugins d"
        using concluded_cong[of ?d d] by simp_all
      then have same': "analyzable ?d = analyzable d" "mixed_versions ?d = mixed_versions d"
        "concluded now ?d = concluded now d"
        by (intro ext; simp add: analyzable_def mixed_versions_def concluded_def)+
      have ids: "distinct (tbl_ids (tb_incidents ?d))"
        using Cons.prems(1) i(1) by (simp add: tbl_ids_save in_tbl_ids)
      have sub: "set is \<subseteq> set (tb_incidents ?d)"
        using Cons.prems(2,3) by (auto simp: save)
      have fin: "map (\<lambda>x. if x \<in> S then concluded now d x else x) (tb_incidents ?d) =
          map (\<lambda>x. if x = i \<or> x \<in> S then concluded now d x else x) (tb_incidents d)"
        if "S \<subseteq> set is" for S
      proof -
        have "?i \<notin> S"
        proof
          assume "?i \<in> S"
          then have "?i \<in> set is" "?i \<in> set (tb_incidents d)" using that Cons.prems(2) by auto
          then have "?i = i"
            using tbl_get_mem[OF Cons.prems(1) i(1)] tbl_get_mem[OF Cons.prems(1), of ?i] by simp
          then show False using \<open>?i \<in> set is\<close> Cons.prems(3) by simp
        qed
        then show ?thesis using that Cons.prems(3) by (auto simp: save)
      qed
      let ?pre = "takeWhile (\<lambda>i. \<not> (analyzable d i \<and> mixed_versions d i)) is"
      have pre: "takeWhile (\<lambda>i. \<not> (analyzable d i \<and> mixed_versions d i)) (i # is) = i # ?pre"
        using an False by simp
      have "set ?pre \<subseteq> set is" by (auto dest: set_takeWhileD)
      note fin = fin[OF this]
      have "distinct is" "\<forall>i \<in> set is. in_status i = OPEN" using Cons.prems by auto
      from Cons.IH[OF ids sub this, of "n + 1", unfolded same'] show ?thesis
        unfolding step pre Let_def fin using an by (simp add: fin)
    qed
  qed
qed

section \<open>The properties\<close>

lemma analyze_root_cause_run:
  assumes "db_wf d" "analyze_root_cause now d = (r, d')"
  shows "(\<exists>i \<in> set (tb_incidents d). analyzable d i \<and> mixed_versions d i) \<Longrightarrow>
      r = Inl (TypeError ''not supported between instances of str and NoneType'')"
    and "\<not> (\<exists>i \<in> set (tb_incidents d). analyzable d i \<and> mixed_versions d i) \<Longrightarrow>
      r = Inr (length (filter (analyzable d) (tb_incidents d))) \<and>
      d' = d\<lparr>tb_incidents := map (concluded now d) (tb_incidents d)\<rparr>"
    and "\<exists>S. d' = d\<lparr>tb_incidents := map (\<lambda>i. if i \<in> S then concluded now d i else i) (tb_incidents d)\<rparr>"
proof -
  let ?P = "\<lambda>i. \<not> (analyzable d i \<and> mixed_versions d i)"
  let ?open = "incidents_open d"
  have ids: "distinct (tbl_ids (tb_incidents d))"
    using tbl_wf_distinct[OF db_wfD(6)[OF assms(1)]] .
  then have "distinct (tb_incidents d)" by (simp add: tbl_ids_def distinct_map)
  then have op: "set ?open \<subseteq> set (tb_incidents d)" "distinct ?open" "\<forall>i \<in> set ?open. in_status i = OPEN"
    by (auto simp: incidents_open_def)
  have an_open: "i \<in> set ?open" if "i \<in> set (tb_incidents d)" "analyzable d i" for i
    using that by (simp add: incidents_open_def analyzable_def)
  note run = analyze_incidents_run[OF ids op, of now 0, folded analyze_root_cause_def, unfolded assms(2) Let_def prod.inject]
  show "r = Inl (TypeError ''not supported between instances of str and NoneType'')"
    if ex: "\<exists>i \<in> set (tb_incidents d). analyzable d i \<and> mixed_versions d i"
  proof -
    have "takeWhile ?P ?open \<noteq> ?open" using ex an_open by (auto simp: takeWhile_eq_all_conv)
    then show ?thesis using run by simp
  qed
  show "r = Inr (length (filter (analyzable d) (tb_incidents d))) \<and>
      d' = d\<lparr>tb_incidents := map (concluded now d) (tb_incidents d)\<rparr>"
    if none: "\<not> (\<exists>i \<in> set (tb_incidents d). analyzable d i \<and> mixed_versions d i)"
  proof -
    have all: "takeWhile ?P ?open = ?open" using none op(1) by (auto simp: takeWhile_eq_all_conv)
    have "filter (analyzable d) ?open = filter (analyzable d) (tb_incidents d)"
      unfolding incidents_open_def filter_filter by (rule filter_cong) (auto simp: analyzable_def)
    moreover have "map (\<lambda>i. if i \<in> set ?open then concluded now d i else i) (tb_incidents d) =
        map (concluded now d) (tb_incidents d)"
      using an_open by (intro map_cong) (auto simp: concluded_def)
    ultimately show ?thesis using run unfolding all by simp
  qed
  show "\<exists>S. d' = d\<lparr>tb_incidents := map (\<lambda>i. if i \<in> S then concluded now d i else i) (tb_incidents d)\<rparr>"
    using run by blast
qed

text \<open>C21. Root-cause analysis either concludes every open incident that has no
  root cause yet, at least two accounts and a plugin version common to all of
  them, and nothing else, and returns their number; or it fails with the
  \<open>TypeError\<close> of comparing \<open>None\<close> with a string. It fails exactly when for one
  of these incidents the same plugin is common with an unknown version and
  with a known one.\<close>

theorem root_cause_outcome:
  assumes "db_wf d" "analyze_root_cause now d = (r, d')"
  shows "(r = Inl (TypeError ''not supported between instances of str and NoneType'') \<longleftrightarrow>
       (\<exists>i \<in> set (tb_incidents d). analyzable d i \<and> mixed_versions d i)) \<and>
    (r = Inl (TypeError ''not supported between instances of str and NoneType'') \<or>
     r = Inr (length (filter (analyzable d) (tb_incidents d))) \<and>
     d' = d\<lparr>tb_incidents := map (concluded now d) (tb_incidents d)\<rparr>)"
  using analyze_root_cause_run(1,2)[OF assms] by (metis Inl_Inr_False)

text \<open>It never guesses: an incident that a run gave a root cause was open,
  without one, and linked to at least two accounts, and the summary names a
  plugin and version that is present in an installation of every one of these
  accounts. Identity, status, signature and severity stay, and the confidence
  does not fall. This holds for the part done before a failure, too.\<close>

theorem root_cause_evidence:
  assumes "db_wf d" "analyze_root_cause now d = (r, d')"
    and "i \<in> set (tb_incidents d')" "i \<notin> set (tb_incidents d)"
  shows "\<exists>i0 \<in> set (tb_incidents d). eid i = eid i0 \<and> in_status i = OPEN \<and> in_root_cause i0 = None \<and>
    in_severity i = in_severity i0 \<and> in_signature i = in_signature i0 \<and> in_confidence i0 \<le> in_confidence i \<and>
    2 \<le> card (linked_accounts d i0) \<and>
    (\<exists>slug version c. in_root_cause i = Some (rc_summary c) \<and>
       c = conclude (card (linked_accounts d i0)) ((slug, version) # tl (sorted_list_of_set
             (common_plugins d (linked_accounts d i0)))) \<and>
       (\<forall>a \<in> linked_accounts d i0. \<exists>w \<in> set (tb_installations d). wi_account_id w = a \<and>
          (\<exists>p \<in> set (tb_plugins d). pl_installation_id p = eid w \<and> pl_is_present p \<and>
             pl_slug p = slug \<and> pl_version p = version)))"
proof -
  obtain S where "d' = d\<lparr>tb_incidents := map (\<lambda>i. if i \<in> S then concluded now d i else i) (tb_incidents d)\<rparr>"
    using analyze_root_cause_run(3)[OF assms(1,2)] by blast
  then obtain i0 where i0: "i0 \<in> set (tb_incidents d)" "i = concluded now d i0" "analyzable d i0"
    using assms(3,4) by (auto simp: concluded_def split: if_splits)
  let ?c = "common_plugins d (linked_accounts d i0)"
  have an: "in_status i0 = OPEN" "in_root_cause i0 = None" "2 \<le> card (linked_accounts d i0)" "?c \<noteq> {}"
    using i0(3) by (simp_all add: analyzable_def)
  have "sorted_list_of_set ?c \<noteq> []" using an(4) finite_common[of d "linked_accounts d i0"] by simp
  then obtain slug version where sv: "sorted_list_of_set ?c = (slug, version) # tl (sorted_list_of_set ?c)"
    by (metis list.exhaust_sel surj_pair)
  then have mem: "(slug, version) \<in> ?c"
    using finite_common[of d "linked_accounts d i0"] by (metis list.set_intros(1) set_sorted_list_of_set)
  have on_all: "\<forall>a \<in> linked_accounts d i0. \<exists>w \<in> set (tb_installations d). wi_account_id w = a \<and>
          (\<exists>p \<in> set (tb_plugins d). pl_installation_id p = eid w \<and> pl_is_present p \<and>
             pl_slug p = slug \<and> pl_version p = version)"
  proof
    fix a assume "a \<in> linked_accounts d i0"
    then have "(slug, version) \<in> account_plugins d a"
      using mem by (auto simp: common_plugins_def split: if_splits)
    then show "\<exists>w \<in> set (tb_installations d). wi_account_id w = a \<and>
          (\<exists>p \<in> set (tb_plugins d). pl_installation_id p = eid w \<and> pl_is_present p \<and>
             pl_slug p = slug \<and> pl_version p = version)"
      by (auto simp: account_plugins_def installations_by_account_def plugins_by_installation_def)
  qed
  let ?k = "conclude (card (linked_accounts d i0)) (sorted_list_of_set ?c)"
  have i: "i = apply_root_cause now ?k i0" using i0(2,3) by (simp add: concluded_def)
  have "in_root_cause i = Some (rc_summary ?k)" by (simp add: i)
  then have "\<exists>slug version c. in_root_cause i = Some (rc_summary c) \<and>
       c = conclude (card (linked_accounts d i0)) ((slug, version) # tl (sorted_list_of_set ?c)) \<and>
       (\<forall>a \<in> linked_accounts d i0. \<exists>w \<in> set (tb_installations d). wi_account_id w = a \<and>
          (\<exists>p \<in> set (tb_plugins d). pl_installation_id p = eid w \<and> pl_is_present p \<and>
             pl_slug p = slug \<and> pl_version p = version))"
    using on_all sv by metis
  then show ?thesis using i0(1) an i by (intro bexI[of _ i0]) simp_all
qed

text \<open>A second analysis over unchanged links and inventory does nothing.\<close>

theorem root_cause_rerun:
  assumes "db_wf d" "analyze_root_cause now d = (Inr n, d')"
  shows "analyze_root_cause later d' = (Inr 0, d')"
proof -
  have no: "\<not> (\<exists>i \<in> set (tb_incidents d). analyzable d i \<and> mixed_versions d i)"
    using analyze_root_cause_run(1)[OF assms] by auto
  then have d': "d' = d\<lparr>tb_incidents := map (concluded now d) (tb_incidents d)\<rparr>"
    using analyze_root_cause_run(2)[OF assms] by blast
  have same: "linked_accounts d' = linked_accounts d" "common_plugins d' = common_plugins d"
    using concluded_cong[of d' d] by (simp_all add: d')
  have lk: "linked_accounts d (concluded now d i) = linked_accounts d i" for i
    by (simp add: linked_accounts_def)
  have none: "\<not> analyzable d' (concluded now d i)" for i
    using lk[of i] by (cases "analyzable d i") (auto simp: analyzable_def same concluded_def split: if_splits)
  have wf': "db_wf d'"
    using assms(1) by (simp add: d' db_wf_def tbl_wf_map)
  obtain r d2 where run: "analyze_root_cause later d' = (r, d2)" by fastforce
  have not': "\<not> (\<exists>i \<in> set (tb_incidents d'). analyzable d' i \<and> mixed_versions d' i)"
    using none by (auto simp: d')
  have tb: "tb_incidents d' = map (concluded now d) (tb_incidents d)" by (simp add: d')
  have "concluded later d' (concluded now d i) = concluded now d i" for i
    unfolding concluded_def[of later] using none by (simp only: if_False)
  then have "map (concluded later d') (tb_incidents d') = tb_incidents d'"
    unfolding tb map_map comp_def by simp
  moreover have "filter (analyzable d') (tb_incidents d') = []"
    using none unfolding tb by (auto simp: filter_empty_conv)
  ultimately show ?thesis
    using analyze_root_cause_run(2)[OF wf' run not'] run by simp
qed
section \<open>Concrete runs\<close>

text \<open>Two accounts with one installation each; every installation has the
  plugin \<open>x\<close> in the given versions.\<close>

definition demo_incident :: incident where
  "demo_incident = \<lparr>eid = 5, created_at = 0, updated_at = 0, in_title = [], in_signature = ''s'',
     in_status = OPEN, in_severity = HIGH, in_confidence = 1 / 2, in_first_seen_at = 0, in_last_seen_at = 0,
     in_root_cause = None, in_recommended_actions = None, in_false_positive_probability = None\<rparr>"

definition demo_link :: "uuid \<Rightarrow> uuid \<Rightarrow> incident_account_link" where
  "demo_link i a = \<lparr>eid = i, created_at = 0, updated_at = 0, li_incident_id = 5, li_account_id = a\<rparr>"

definition demo_install :: "uuid \<Rightarrow> uuid \<Rightarrow> wordpress_installation" where
  "demo_install i a = \<lparr>eid = i, created_at = 0, updated_at = 0, wi_account_id = a,
     wi_absolute_path = AbsoluteFilePath ''/w'', wi_domain = None, wi_wp_version = None,
     wi_is_multisite = False, wi_last_seen_at = 0, wi_is_active = True, wi_php_version = None\<rparr>"

definition demo_plugin :: "uuid \<Rightarrow> uuid \<Rightarrow> string option \<Rightarrow> installed_plugin" where
  "demo_plugin i w v = \<lparr>eid = i, created_at = 0, updated_at = 0, pl_installation_id = w, pl_slug = ''x'',
     pl_name = ''x'', pl_version = v, pl_is_present = True, pl_last_seen_at = 0\<rparr>"

definition demo_rc_db :: "string option list \<Rightarrow> db" where
  "demo_rc_db vs = empty_db\<lparr>tb_incidents := [demo_incident],
     tb_links := [demo_link 20 7, demo_link 21 8],
     tb_installations := [demo_install 30 7, demo_install 31 8],
     tb_plugins := [demo_plugin 40 30 (vs ! 0), demo_plugin 41 31 (vs ! 0),
                    demo_plugin 42 30 (vs ! 1), demo_plugin 43 31 (vs ! 1)], next_uuid := 50\<rparr>"

lemmas demo_rc_defs = demo_rc_db_def demo_incident_def demo_link_def demo_install_def demo_plugin_def empty_db_def

lemma demo_rc_ok: "db_wf (demo_rc_db vs)"
  by (simp add: demo_rc_defs db_wf_def tbl_wf_def)

lemma demo_rc_linked: "linked_accounts (demo_rc_db vs) demo_incident = {7, 8}"
proof -
  have "{l \<in> set (tb_links (demo_rc_db vs)). li_incident_id l = eid demo_incident} = {demo_link 20 7, demo_link 21 8}"
    by (auto simp: demo_rc_defs)
  then show ?thesis by (simp add: linked_accounts_def) (simp add: demo_link_def)
qed

lemma demo_rc_common:
  "common_plugins (demo_rc_db vs) {7, 8} = {(''x'', vs ! 0), (''x'', vs ! 1)}"
  by (simp add: common_plugins_def account_plugins_def installations_by_account_def plugins_by_installation_def
      demo_rc_defs insert_commute)

lemma demo_rc_analyzable: "analyzable (demo_rc_db vs) demo_incident"
  by (simp add: analyzable_def demo_rc_linked demo_rc_common) (simp add: demo_incident_def)

lemma demo_rc_incidents: "tb_incidents (demo_rc_db vs) = [demo_incident]"
  by (simp add: demo_rc_db_def)

lemma demo_rc_runs:
  "analyze_root_cause 9 (demo_rc_db [Some ''1'', Some ''1'']) =
     (Inr 1, (demo_rc_db [Some ''1'', Some ''1''])\<lparr>tb_incidents :=
        [concluded 9 (demo_rc_db [Some ''1'', Some ''1'']) demo_incident]\<rparr>)"
proof -
  obtain r d' where run: "analyze_root_cause 9 (demo_rc_db [Some ''1'', Some ''1'']) = (r, d')" by fastforce
  have "\<not> mixed_versions (demo_rc_db [Some ''1'', Some ''1'']) demo_incident"
    by (simp add: mixed_versions_def demo_rc_linked demo_rc_common)
  then show ?thesis
    using analyze_root_cause_run(2)[OF demo_rc_ok run] run by (simp add: demo_rc_incidents demo_rc_analyzable)
qed

theorem root_cause_outcome_witness:
  "fst (analyze_root_cause 9 (demo_rc_db [None, Some ''1''])) =
     Inl (TypeError ''not supported between instances of str and NoneType'')"
proof -
  have "mixed_versions (demo_rc_db [None, Some ''1'']) demo_incident"
    by (simp add: mixed_versions_def demo_rc_linked demo_rc_common)
  then show ?thesis
    using root_cause_outcome[OF demo_rc_ok prod.collapse [symmetric], of 9 "[None, Some ''1'']"]
    by (simp add: demo_rc_incidents demo_rc_analyzable)
qed

theorem root_cause_evidence_witness:
  "2 \<le> card (linked_accounts (demo_rc_db [Some ''1'', Some ''1'']) demo_incident)"
proof -
  let ?i = "concluded 9 (demo_rc_db [Some ''1'', Some ''1'']) demo_incident"
  have "?i \<notin> set (tb_incidents (demo_rc_db [Some ''1'', Some ''1'']))"
  proof -
    have "in_root_cause ?i \<noteq> in_root_cause demo_incident"
      by (simp add: concluded_def demo_rc_analyzable) (simp add: demo_incident_def)
    then show ?thesis by (auto simp: demo_rc_incidents)
  qed
  from root_cause_evidence[OF demo_rc_ok demo_rc_runs _ this] show ?thesis by (simp add: demo_rc_incidents)
qed

theorem root_cause_rerun_witness:
  "fst (analyze_root_cause 11 (snd (analyze_root_cause 9 (demo_rc_db [Some ''1'', Some ''1''])))) = Inr 0"
  using root_cause_rerun[OF demo_rc_ok demo_rc_runs, of 11] by (simp add: demo_rc_runs)

end
