(* ===== verification/Row_Reconcile.thy ===== *)
theory Row_Reconcile
  imports Repository_Table
begin

text \<open>
  The reconciliation that the inventory, configuration and cron scans share:
  the rows of one installation are put into a dictionary by their natural key,
  the discovered items refresh the row of their key or become new rows, and the
  rows whose key was not discovered are marked absent. The code writes this
  loop four times (\<open>_reconcile_plugins\<close>, \<open>_reconcile_themes\<close>, \<open>_reconcile\<close> and
  \<open>_reconcile_cron_jobs\<close>); the operations of the entity are parameters here.
\<close>

section \<open>The loops\<close>

fun reconcile_items ::
    "('i \<Rightarrow> 'k) \<Rightarrow> ('i \<Rightarrow> uuid \<Rightarrow> 'a base_entity_scheme) \<Rightarrow>
     ('i \<Rightarrow> 'a base_entity_scheme \<Rightarrow> 'a base_entity_scheme) \<Rightarrow> 'i list \<Rightarrow>
     ('k \<times> 'a base_entity_scheme) list \<Rightarrow> 'a base_entity_scheme list \<Rightarrow> uuid \<Rightarrow>
     ('k \<times> 'a base_entity_scheme) list \<times> 'a base_entity_scheme list \<times> uuid" where
  "reconcile_items item_key new refresh [] ex t n = (ex, t, n)"
| "reconcile_items item_key new refresh (i # is) ex t n =
     (case map_of ex (item_key i) of
        None \<Rightarrow> reconcile_items item_key new refresh is ex (tbl_add (new i n) t) (n + 1)
      | Some e \<Rightarrow>
          (let e' = refresh i e
           in reconcile_items item_key new refresh is (dict_set (item_key i) e' ex) (tbl_save e' t) n))"

fun retire_items ::
    "('a base_entity_scheme \<Rightarrow> bool) \<Rightarrow> ('a base_entity_scheme \<Rightarrow> 'a base_entity_scheme) \<Rightarrow> 'k set \<Rightarrow>
     ('k \<times> 'a base_entity_scheme) list \<Rightarrow> 'a base_entity_scheme list \<Rightarrow> nat \<Rightarrow>
     'a base_entity_scheme list \<times> nat" where
  "retire_items present absent seen [] t m = (t, m)"
| "retire_items present absent seen ((k, e) # ex) t m =
     (if present e \<and> k \<notin> seen then retire_items present absent seen ex (tbl_save (absent e) t) (m + 1)
      else retire_items present absent seen ex t m)"

definition reconcile_rows ::
    "('a base_entity_scheme \<Rightarrow> 'k) \<Rightarrow> ('i \<Rightarrow> 'k) \<Rightarrow> ('i \<Rightarrow> uuid \<Rightarrow> 'a base_entity_scheme) \<Rightarrow>
     ('i \<Rightarrow> 'a base_entity_scheme \<Rightarrow> 'a base_entity_scheme) \<Rightarrow> ('a base_entity_scheme \<Rightarrow> bool) \<Rightarrow>
     ('a base_entity_scheme \<Rightarrow> 'a base_entity_scheme) \<Rightarrow> 'a base_entity_scheme list \<Rightarrow> 'i list \<Rightarrow>
     'a base_entity_scheme list \<Rightarrow> uuid \<Rightarrow> nat \<times> 'a base_entity_scheme list \<times> uuid" where
  "reconcile_rows row_key item_key new refresh present absent existing items t n =
     (let (ex, t, n) = reconcile_items item_key new refresh items (dict_by row_key existing) t n;
          (t, removed) = retire_items present absent (item_key ` set items) ex t 0
      in (removed, t, n))"

section \<open>The effect of a pass\<close>

lemma dict_set_map:
  assumes "distinct (map f xs)" "k \<in> f ` set xs"
  shows "dict_set k v (map (\<lambda>x. (f x, g x)) xs) = map (\<lambda>x. (f x, if f x = k then v else g x)) xs"
  using assms
proof (induction xs)
  case (Cons x xs)
  then show ?case
    by (cases "f x = k") (auto simp: dict_set_def, metis imageI)
qed simp

locale reconcilable =
  fixes row_key :: "'a base_entity_scheme \<Rightarrow> 'k"
    and item_key :: "'i \<Rightarrow> 'k"
    and owner :: "'a base_entity_scheme \<Rightarrow> uuid"
    and new :: "uuid \<Rightarrow> 'i \<Rightarrow> uuid \<Rightarrow> 'a base_entity_scheme"
    and refresh :: "'i \<Rightarrow> 'a base_entity_scheme \<Rightarrow> 'a base_entity_scheme"
    and present :: "'a base_entity_scheme \<Rightarrow> bool"
    and absent :: "'a base_entity_scheme \<Rightarrow> 'a base_entity_scheme"
    and row_view :: "'a base_entity_scheme \<Rightarrow> 'v"
    and item_view :: "'i \<Rightarrow> 'v"
  assumes new_id: "eid (new own i n) = n" and new_key: "row_key (new own i n) = item_key i"
    and new_owner: "owner (new own i n) = own" and new_present: "present (new own i n)"
    and new_view: "row_view (new own i n) = item_view i"
    and refresh_id: "eid (refresh i e) = eid e" and refresh_key: "row_key (refresh i e) = row_key e"
    and refresh_owner: "owner (refresh i e) = owner e" and refresh_present: "present (refresh i e)"
    and refresh_view: "row_key e = item_key i \<Longrightarrow> row_view (refresh i e) = item_view i"
    and absent_id: "eid (absent e) = eid e" and absent_key: "row_key (absent e) = row_key e"
    and absent_owner: "owner (absent e) = owner e" and absent_present: "\<not> present (absent e)"
begin

definition refreshed :: "'i list \<Rightarrow> 'a base_entity_scheme \<Rightarrow> 'a base_entity_scheme" where
  "refreshed items e = (case find (\<lambda>i. item_key i = row_key e) items of None \<Rightarrow> e | Some i \<Rightarrow> refresh i e)"

text \<open>What becomes of a row of the installation.\<close>

definition settled :: "'i list \<Rightarrow> 'a base_entity_scheme \<Rightarrow> 'a base_entity_scheme" where
  "settled items e =
     (case find (\<lambda>i. item_key i = row_key e) items of
        None \<Rightarrow> if present e then absent e else e
      | Some i \<Rightarrow> refresh i e)"

fun new_rows :: "uuid \<Rightarrow> 'k set \<Rightarrow> 'i list \<Rightarrow> uuid \<Rightarrow> 'a base_entity_scheme list" where
  "new_rows own known [] n = []"
| "new_rows own known (i # is) n =
     (if item_key i \<in> known then new_rows own known is n else new own i n # new_rows own known is (n + 1))"

lemma refreshed_id [simp]: "eid (refreshed items e) = eid e" "row_key (refreshed items e) = row_key e"
  "owner (refreshed items e) = owner e"
  by (auto simp: refreshed_def refresh_id refresh_key refresh_owner split: option.splits)

lemma settled_id [simp]: "eid (settled items e) = eid e" "row_key (settled items e) = row_key e"
  "owner (settled items e) = owner e"
  by (auto simp: settled_def refresh_id refresh_key refresh_owner absent_id absent_key absent_owner split: option.splits)

lemma new_rows_length: "length (new_rows own known is n) = length (filter (\<lambda>i. item_key i \<notin> known) is)"
  by (induction own known "is" n rule: new_rows.induct) auto

lemma new_rows_ids: "map eid (new_rows own known is n) = [n..<n + length (new_rows own known is n)]"
  by (induction own known "is" n rule: new_rows.induct) (auto simp: new_id upt_conv_Cons simp del: upt_Suc)

lemma new_rows_mem:
  "e \<in> set (new_rows own known is n) \<Longrightarrow>
   \<exists>i \<in> set is. item_key i \<notin> known \<and> row_key e = item_key i \<and> owner e = own \<and> present e \<and> row_view e = item_view i"
  by (induction own known "is" n rule: new_rows.induct) (auto simp: new_key new_owner new_present new_view split: if_splits)

lemma new_rows_keys:
  "map row_key (new_rows own known is n) = map item_key (filter (\<lambda>i. item_key i \<notin> known) is)"
  by (induction own known "is" n rule: new_rows.induct) (auto simp: new_key)

lemma new_rows_append:
  "new_rows own known (is @ [i]) n = new_rows own known is n @
     (if item_key i \<in> known then [] else [new own i (n + length (new_rows own known is n))])"
  by (induction own known "is" n rule: new_rows.induct) auto

lemma reconcile_items_append:
  "reconcile_items ik nw rf (is @ js) ex t n =
     (let (ex, t, n) = reconcile_items ik nw rf is ex t n in reconcile_items ik nw rf js ex t n)"
  by (induction ik nw rf "is" ex t n rule: reconcile_items.induct) (auto simp: Let_def split: option.splits)

lemma refreshed_snoc:
  assumes "distinct (map item_key (items @ [i]))"
  shows "refreshed (items @ [i]) e = (if item_key i = row_key e then refresh i e else refreshed items e)"
proof (cases "item_key i = row_key e")
  case True
  then have "find (\<lambda>j. item_key j = row_key e) items = None"
    using assms by (auto simp: find_None_iff) (metis imageI)
  then show ?thesis using True by (simp add: refreshed_def find_append)
qed (simp add: refreshed_def find_append split: option.splits)

lemma refreshed_unseen: "row_key e \<notin> item_key ` set items \<Longrightarrow> refreshed items e = e"
proof -
  assume "row_key e \<notin> item_key ` set items"
  then have "find (\<lambda>i. item_key i = row_key e) items = None" by (force simp: find_None_iff)
  then show ?thesis by (simp add: refreshed_def)
qed

lemma refreshed_Nil [simp]: "refreshed [] = (\<lambda>e. e)"
  by (rule ext) (simp add: refreshed_def)

lemma state_ids:
  assumes "tbl_wf n t0" "\<And>e. eid (g e) = eid e"
  shows "distinct (tbl_ids (map g t0 @ new_rows own known items n))"
    "tbl_wf (n + length (new_rows own known items n)) (map g t0 @ new_rows own known items n)"
proof -
  have ids: "tbl_ids (map g t0 @ new_rows own known items n) =
      tbl_ids t0 @ [n..<n + length (new_rows own known items n)]"
    using new_rows_ids assms(2) by (simp add: tbl_ids_def comp_def)
  have lt: "k < n" if "k \<in> set (tbl_ids t0)" for k
    using assms(1) that by (auto simp: tbl_wf_def list_all_iff in_tbl_ids)
  show dist: "distinct (tbl_ids (map g t0 @ new_rows own known items n))"
    unfolding ids using assms(1) by (auto simp: tbl_wf_def dest: lt)
  have "\<forall>k \<in> set (tbl_ids (map g t0 @ new_rows own known items n)). k < n + length (new_rows own known items n)"
    unfolding ids using lt by force
  then show "tbl_wf (n + length (new_rows own known items n)) (map g t0 @ new_rows own known items n)"
    using dist by (simp only: tbl_wf_iff simp_thms)
qed

lemma reconcile_items_state:
  assumes "tbl_wf n t0" "distinct (map row_key (filter (\<lambda>e. owner e = own) t0))" "distinct (map item_key items)"
  shows "reconcile_items item_key (new own) refresh items
      (map (\<lambda>e. (row_key e, e)) (filter (\<lambda>e. owner e = own) t0)) t0 n =
    (let news = new_rows own (row_key ` set (filter (\<lambda>e. owner e = own) t0)) items n
     in (map (\<lambda>e. (row_key e, refreshed items e)) (filter (\<lambda>e. owner e = own) t0),
         map (\<lambda>e. if owner e = own then refreshed items e else e) t0 @ news, n + length news))"
  using assms(3)
proof (induction items rule: rev_induct)
  case Nil
  then show ?case by (simp cong: if_cong)
next
  case (snoc i items)
  let ?ex = "filter (\<lambda>e. owner e = own) t0"
  let ?known = "row_key ` set ?ex"
  let ?news = "new_rows own ?known items n"
  let ?g = "\<lambda>e. if owner e = own then refreshed items e else e"
  have IH: "reconcile_items item_key (new own) refresh items (map (\<lambda>e. (row_key e, e)) ?ex) t0 n =
    (map (\<lambda>e. (row_key e, refreshed items e)) ?ex, map ?g t0 @ ?news, n + length ?news)"
    using snoc by (simp add: Let_def)
  have look: "map_of (map (\<lambda>e. (row_key e, refreshed items e)) ?ex) (item_key i) =
      map_option (refreshed items) (find (\<lambda>e. row_key e = item_key i) ?ex)"
    by (induction t0) auto
  show ?case
  proof (cases "find (\<lambda>e. row_key e = item_key i) ?ex")
    case None
    then have no: "item_key i \<notin> ?known" by (auto simp: find_None_iff)
    then have "refreshed (items @ [i]) e = refreshed items e" if "e \<in> set ?ex" for e
      using that refreshed_snoc[OF snoc.prems] by (metis imageI)
    then have same: "map (\<lambda>e. (row_key e, refreshed (items @ [i]) e)) ?ex = map (\<lambda>e. (row_key e, refreshed items e)) ?ex"
      "map (\<lambda>e. if owner e = own then refreshed (items @ [i]) e else e) t0 = map ?g t0"
      by auto
    show ?thesis
      unfolding reconcile_items_append IH Let_def prod.case same new_rows_append
      using no by (simp add: look None tbl_add_def)
  next
    case (Some b)
    then have b: "b \<in> set ?ex" "row_key b = item_key i" by (auto dest: find_SomeD)
    then have known: "item_key i \<in> ?known" by force
    have fresh: "refreshed items b = b"
      using snoc.prems b(2) by (intro refreshed_unseen) auto
    have uniq: "e = b" if "e \<in> set ?ex" "row_key e = item_key i" for e
      using that b assms(2) by (metis distinct_map inj_onD)
    have d: "dict_set (item_key i) (refresh i b) (map (\<lambda>e. (row_key e, refreshed items e)) ?ex) =
        map (\<lambda>e. (row_key e, refreshed (items @ [i]) e)) ?ex"
      unfolding dict_set_map[OF assms(2) known]
    proof (rule map_cong[OF refl])
      fix e assume "e \<in> set ?ex"
      then show "(row_key e, if row_key e = item_key i then refresh i b else refreshed items e) =
          (row_key e, refreshed (items @ [i]) e)"
        using uniq[of e] refreshed_snoc[OF snoc.prems, of e] by auto
    qed
    have "tbl_save (refresh i b) (map ?g t0 @ ?news) = map (\<lambda>x. if x = b then refresh i b else ?g x) t0 @ ?news"
      using state_ids(1)[OF assms(1), of ?g] b(1) by (intro tbl_save_in_map) (auto simp: refresh_id)
    also have "map (\<lambda>x. if x = b then refresh i b else ?g x) t0 =
        map (\<lambda>e. if owner e = own then refreshed (items @ [i]) e else e) t0"
    proof (rule map_cong[OF refl])
      fix e assume e: "e \<in> set t0"
      show "(if e = b then refresh i b else ?g e) = (if owner e = own then refreshed (items @ [i]) e else e)"
      proof (cases "e = b")
        case True
        then show ?thesis using b refreshed_snoc[OF snoc.prems, of b] by simp
      next
        case False
        then have "owner e = own \<Longrightarrow> row_key e \<noteq> item_key i" using uniq[of e] e by auto
        then show ?thesis
          using False refreshed_snoc[OF snoc.prems, of e] by (cases "owner e = own") auto
      qed
    qed
    finally show ?thesis
      unfolding reconcile_items_append IH Let_def prod.case new_rows_append
      using known by (simp add: look Some fresh d Let_def)
  qed
qed

lemma retire_items_state:
  assumes "\<And>x. eid (g x) = eid x" "\<And>x. eid (h x) = eid x" "distinct (tbl_ids (map g old @ news))"
    and "set xs \<subseteq> set old" "distinct xs"
  shows "retire_items present absent seen (map (\<lambda>e. (row_key e, h e)) xs) (map g old @ news) m =
    (map (\<lambda>e. if e \<in> set xs \<and> present (h e) \<and> row_key e \<notin> seen then absent (h e) else g e) old @ news,
     m + length (filter (\<lambda>e. present (h e) \<and> row_key e \<notin> seen) xs))"
  using assms(1,3-)
proof (induction xs arbitrary: g m)
  case (Cons x xs)
  show ?case
  proof (cases "present (h x) \<and> row_key x \<notin> seen")
    case False
    then have "map (\<lambda>e. if e \<in> set (x # xs) \<and> present (h e) \<and> row_key e \<notin> seen then absent (h e) else g e) old =
        map (\<lambda>e. if e \<in> set xs \<and> present (h e) \<and> row_key e \<notin> seen then absent (h e) else g e) old"
      by (intro map_cong) auto
    then show ?thesis using Cons False by auto
  next
    case True
    let ?g = "\<lambda>e. if e = x then absent (h x) else g e"
    have "tbl_save (absent (h x)) (map g old @ news) = map ?g old @ news"
      using Cons.prems assms(2) by (intro tbl_save_in_map) (auto simp: absent_id)
    moreover have ids: "eid (?g e) = eid e" for e using Cons.prems(1) assms(2) by (simp add: absent_id)
    moreover have "tbl_ids (map ?g old @ news) = tbl_ids (map g old @ news)"
      using Cons.prems(1) ids by (simp add: tbl_ids_def comp_def)
    ultimately have "retire_items present absent seen (map (\<lambda>e. (row_key e, h e)) (x # xs)) (map g old @ news) m =
       (map (\<lambda>e. if e \<in> set xs \<and> present (h e) \<and> row_key e \<notin> seen then absent (h e) else ?g e) old @ news,
        (m + 1) + length (filter (\<lambda>e. present (h e) \<and> row_key e \<notin> seen) xs))"
      using Cons.IH[of ?g "m + 1"] Cons.prems True by simp
    moreover have "map (\<lambda>e. if e \<in> set xs \<and> present (h e) \<and> row_key e \<notin> seen then absent (h e) else ?g e) old =
        map (\<lambda>e. if e \<in> set (x # xs) \<and> present (h e) \<and> row_key e \<notin> seen then absent (h e) else g e) old"
      using True by (intro map_cong) auto
    ultimately show ?thesis using True by simp
  qed
qed simp

text \<open>The table after a pass: every row of the installation settled, one new
  row per item whose key had none, everything else as it was.\<close>

lemma reconcile_rows_exact:
  assumes "tbl_wf n t0" "distinct (map row_key (filter (\<lambda>e. owner e = own) t0))" "distinct (map item_key items)"
  shows "reconcile_rows row_key item_key (new own) refresh present absent (filter (\<lambda>e. owner e = own) t0) items t0 n =
    (let news = new_rows own (row_key ` set (filter (\<lambda>e. owner e = own) t0)) items n
     in (length (filter (\<lambda>e. owner e = own \<and> present e \<and> row_key e \<notin> item_key ` set items) t0),
         map (\<lambda>e. if owner e = own then settled items e else e) t0 @ news, n + length news))"
proof -
  let ?ex = "filter (\<lambda>e. owner e = own) t0"
  let ?news = "new_rows own (row_key ` set ?ex) items n"
  let ?g = "\<lambda>e. if owner e = own then refreshed items e else e"
  let ?seen = "item_key ` set items"
  have "distinct t0" using assms(1) by (simp add: tbl_wf_def tbl_ids_def distinct_map)
  then have ex: "set ?ex \<subseteq> set t0" "distinct ?ex" by auto
  have gid: "eid (?g e) = eid e" for e by simp
  note ret = retire_items_state[of ?g "refreshed items" t0 ?news ?ex ?seen 0, OF gid refreshed_id(1)
      state_ids(1)[OF assms(1) gid] ex]
  have "filter (\<lambda>e. present (refreshed items e) \<and> row_key e \<notin> ?seen) ?ex =
      filter (\<lambda>e. owner e = own \<and> present e \<and> row_key e \<notin> ?seen) t0"
    unfolding filter_filter using refreshed_unseen by (intro filter_cong) auto
  moreover have "map (\<lambda>e. if e \<in> set ?ex \<and> present (refreshed items e) \<and> row_key e \<notin> ?seen
      then absent (refreshed items e) else ?g e) t0 = map (\<lambda>e. if owner e = own then settled items e else e) t0"
  proof (rule map_cong[OF refl])
    fix e assume e: "e \<in> set t0"
    show "(if e \<in> set ?ex \<and> present (refreshed items e) \<and> row_key e \<notin> ?seen then absent (refreshed items e) else ?g e) =
        (if owner e = own then settled items e else e)"
    proof (cases "row_key e \<in> ?seen")
      case True
      then have "find (\<lambda>i. item_key i = row_key e) items \<noteq> None" by (auto simp: find_None_iff)
      then show ?thesis using True e by (auto simp: settled_def refreshed_def split: option.splits)
    next
      case False
      then have "find (\<lambda>i. item_key i = row_key e) items = None" by (force simp: find_None_iff)
      then show ?thesis using False e by (simp add: settled_def refreshed_def)
    qed
  qed
  ultimately show ?thesis
    unfolding reconcile_rows_def dict_by_distinct[OF assms(2)] reconcile_items_state[OF assms] Let_def prod.case ret
    by simp
qed

text \<open>What the scan promises: the rows present for the installation are the
  discovered items, those of other installations are untouched, no row is
  lost, and keys stay unique per installation.\<close>

definition mirrored :: "uuid \<Rightarrow> 'i list \<Rightarrow> 'a base_entity_scheme list \<Rightarrow> 'a base_entity_scheme list \<Rightarrow> bool" where
  "mirrored own items t t' \<longleftrightarrow>
     row_view ` {e \<in> set t'. owner e = own \<and> present e} = item_view ` set items \<and>
     (\<forall>o'. o' \<noteq> own \<longrightarrow> filter (\<lambda>e. owner e = o') t' = filter (\<lambda>e. owner e = o') t) \<and>
     map eid t = take (length t) (map eid t') \<and>
     distinct (map (\<lambda>e. (owner e, row_key e)) t')"

lemma unique_own:
  assumes "distinct (map (\<lambda>e. (owner e, row_key e)) t)"
  shows "distinct (map row_key (filter (\<lambda>e. owner e = own) t))"
  using assms by (auto simp: distinct_map inj_on_def)

lemma new_rows_ex:
  "i \<in> set is \<Longrightarrow> item_key i \<notin> known \<Longrightarrow> \<exists>m. new own i m \<in> set (new_rows own known is n)"
  by (induction own known "is" n rule: new_rows.induct) auto

lemma reconcile_rows_mirrored:
  assumes "tbl_wf n t" "distinct (map (\<lambda>e. (owner e, row_key e)) t)" "distinct (map item_key items)"
    and "reconcile_rows row_key item_key (new own) refresh present absent (filter (\<lambda>e. owner e = own) t) items t n =
      (removed, t', n')"
  shows "mirrored own items t t'" "tbl_wf n' t'" "n \<le> n'"
    "removed = length (filter (\<lambda>e. owner e = own \<and> present e \<and> row_key e \<notin> item_key ` set items) t)"
proof -
  let ?known = "row_key ` set (filter (\<lambda>e. owner e = own) t)"
  let ?news = "new_rows own ?known items n"
  let ?s = "\<lambda>e. if owner e = own then settled items e else e"
  note u = unique_own[OF assms(2), of own]
  have t': "t' = map ?s t @ ?news" and n': "n' = n + length ?news"
    and r: "removed = length (filter (\<lambda>e. owner e = own \<and> present e \<and> row_key e \<notin> item_key ` set items) t)"
    using reconcile_rows_exact[OF assms(1) u assms(3)] assms(4) by (simp_all add: Let_def)
  have sid: "eid (?s e) = eid e" "owner (?s e) = owner e" "row_key (?s e) = row_key e" for e by simp_all
  show "removed = length (filter (\<lambda>e. owner e = own \<and> present e \<and> row_key e \<notin> item_key ` set items) t)" by (rule r)
  show "tbl_wf n' t'" "n \<le> n'" using state_ids(2)[OF assms(1) sid(1)] by (simp_all add: t' n')
  have "row_view ` {e \<in> set t'. owner e = own \<and> present e} = item_view ` set items"
  proof (rule subset_antisym; rule subsetI)
    fix v assume "v \<in> row_view ` {e \<in> set t'. owner e = own \<and> present e}"
    then obtain e where e: "e \<in> set t'" "owner e = own" "present e" "v = row_view e" by auto
    show "v \<in> item_view ` set items"
    proof (cases "e \<in> set ?news")
      case True
      then show ?thesis using e(4) by (auto dest: new_rows_mem)
    next
      case False
      then obtain e0 where e0: "e0 \<in> set t" "e = ?s e0" using e(1) by (auto simp: t')
      then have own: "owner e0 = own" using e(2) sid(2) by metis
      with e0 e(3) obtain i where i: "find (\<lambda>i. item_key i = row_key e0) items = Some i"
        by (auto simp: settled_def absent_present split: option.splits if_splits)
      then have "e = refresh i e0" "i \<in> set items" "item_key i = row_key e0"
        using e0(2) own find_SomeD[OF i] by (auto simp: settled_def)
      then show ?thesis using e(4) by (auto simp: refresh_view)
    qed
  next
    fix v assume "v \<in> item_view ` set items"
    then obtain i where i: "i \<in> set items" "v = item_view i" by auto
    show "v \<in> row_view ` {e \<in> set t'. owner e = own \<and> present e}"
    proof (cases "item_key i \<in> ?known")
      case True
      then obtain e0 where e0: "e0 \<in> set t" "owner e0 = own" "row_key e0 = item_key i" by auto
      have "settled items e0 = refresh i e0"
        using find_distinct[OF assms(3) i(1)] by (simp add: settled_def e0(3))
      then have "refresh i e0 \<in> set t'" using e0(1,2) by (force simp: t')
      then show ?thesis
        using i(2) e0 by (intro image_eqI[of _ _ "refresh i e0"]) (auto simp: refresh_view refresh_owner refresh_present)
    next
      case False
      then obtain m where "new own i m \<in> set ?news" using new_rows_ex[OF i(1)] by blast
      then show ?thesis
        using i(2) by (intro image_eqI[of _ _ "new own i m"]) (auto simp: t' new_view new_owner new_present)
    qed
  qed
  moreover have "filter (\<lambda>e. owner e = o') t' = filter (\<lambda>e. owner e = o') t" if "o' \<noteq> own" for o'
  proof -
    have "filter (\<lambda>e. owner e = o') ?news = []"
      using that by (auto simp: filter_empty_conv dest: new_rows_mem)
    moreover have "filter (\<lambda>e. owner e = o') (map ?s t) = filter (\<lambda>e. owner e = o') t"
      using that by (induction t) auto
    ultimately show ?thesis by (simp add: t')
  qed
  moreover have "map eid t = take (length t) (map eid t')"
    by (simp add: t' comp_def)
  moreover have "distinct (map (\<lambda>e. (owner e, row_key e)) t')"
  proof -
    let ?k = "\<lambda>e. (owner e, row_key e)"
    have eq: "map ?k t' = map ?k t @ map ?k ?news" by (simp add: t' comp_def)
    have "distinct (map row_key ?news)"
      unfolding new_rows_keys using assms(3) by (simp add: distinct_map_filter)
    then have "distinct (map ?k ?news)" by (auto simp: distinct_map inj_on_def)
    moreover have "set (map ?k t) \<inter> set (map ?k ?news) = {}"
      by (force dest: new_rows_mem)
    ultimately show ?thesis unfolding eq distinct_append using assms(2) by blast
  qed
  ultimately show "mirrored own items t t'" unfolding mirrored_def by blast
qed

section \<open>Several installations\<close>

definition removed_count :: "uuid \<Rightarrow> 'i list \<Rightarrow> 'a base_entity_scheme list \<Rightarrow> nat" where
  "removed_count own items t =
     length (filter (\<lambda>e. owner e = own \<and> present e \<and> row_key e \<notin> item_key ` set items) t)"

text \<open>The passes over the installations of \<open>gs\<close>, each with its items.\<close>

definition mirrors :: "(uuid \<times> 'i list) list \<Rightarrow> 'a base_entity_scheme list \<Rightarrow> 'a base_entity_scheme list \<Rightarrow> bool" where
  "mirrors gs t t' \<longleftrightarrow>
     (\<forall>(own, items) \<in> set gs. row_view ` {e \<in> set t'. owner e = own \<and> present e} = item_view ` set items) \<and>
     (\<forall>o'. o' \<notin> fst ` set gs \<longrightarrow> filter (\<lambda>e. owner e = o') t' = filter (\<lambda>e. owner e = o') t) \<and>
     map eid t = take (length t) (map eid t') \<and>
     distinct (map (\<lambda>e. (owner e, row_key e)) t')"

lemma mirrors_Nil: "distinct (map (\<lambda>e. (owner e, row_key e)) t) \<Longrightarrow> mirrors [] t t"
  by (simp add: mirrors_def)

lemma same_rows:
  assumes "filter (\<lambda>e. owner e = o') t' = filter (\<lambda>e. owner e = o') t"
  shows "{e \<in> set t'. owner e = o' \<and> P e} = {e \<in> set t. owner e = o' \<and> P e}"
    and "filter (\<lambda>e. owner e = o' \<and> P e) t' = filter (\<lambda>e. owner e = o' \<and> P e) t"
proof -
  have f: "filter (\<lambda>e. owner e = o' \<and> P e) u = filter P (filter (\<lambda>e. owner e = o') u)" for u
    by (simp add: conj_commute)
  show "filter (\<lambda>e. owner e = o' \<and> P e) t' = filter (\<lambda>e. owner e = o' \<and> P e) t"
    unfolding f assms ..
  then show "{e \<in> set t'. owner e = o' \<and> P e} = {e \<in> set t. owner e = o' \<and> P e}"
    by (metis set_filter)
qed

lemma mirrors_Cons:
  assumes "mirrored own items t t1" "mirrors gs t1 t2" "own \<notin> fst ` set gs"
  shows "mirrors ((own, items) # gs) t t2"
proof -
  have own: "filter (\<lambda>e. owner e = own) t2 = filter (\<lambda>e. owner e = own) t1"
    using assms(2,3) by (simp add: mirrors_def)
  have "row_view ` {e \<in> set t2. owner e = own \<and> present e} = item_view ` set items"
    using assms(1) unfolding same_rows(1)[OF own] by (simp add: mirrored_def)
  moreover have "filter (\<lambda>e. owner e = o') t2 = filter (\<lambda>e. owner e = o') t" if "o' \<notin> fst ` set ((own, items) # gs)" for o'
    using assms that by (simp add: mirrors_def mirrored_def)
  moreover have "map eid t = take (length t) (map eid t2)"
  proof -
    have a: "map eid t = take (length t) (map eid t1)" "map eid t1 = take (length t1) (map eid t2)"
      using assms by (simp_all add: mirrored_def mirrors_def)
    have len: "length t \<le> length t1"
      using arg_cong[OF a(1), of length] by (simp add: min_def split: if_splits)
    have "take (length t) (map eid t1) = take (length t) (take (length t1) (map eid t2))"
      using a(2) by simp
    then show ?thesis using a(1) len by (simp only: take_take min.absorb1)
  qed
  ultimately show ?thesis using assms(2) by (auto simp: mirrors_def)
qed

lemma mirrored_removed_count:
  "mirrored own items t t1 \<Longrightarrow> o' \<noteq> own \<Longrightarrow> removed_count o' items' t1 = removed_count o' items' t"
  unfolding removed_count_def using same_rows(2)[of o' t1 t] by (simp add: mirrored_def)

end

end
