(* ===== verification/Inventory.thy ===== *)
theory Inventory
  imports Database Row_Reconcile
begin

text \<open>
  \<open>RunInventoryScanUseCase\<close> (\<open>application/inventory/use_cases.py\<close>) and
  \<open>RunConfigurationScanUseCase\<close> (\<open>application/monitoring/use_cases.py\<close>). The
  scanners are parameters: functions from an installation to what they find.
  Plugins, themes and configuration items are instances of the locale
  \<open>reconcilable\<close>.
\<close>

section \<open>Plugins and themes\<close>

record inventory_scan_result =
  ir_installations_scanned :: nat
  ir_plugins_found :: nat
  ir_plugins_removed :: nat
  ir_themes_found :: nat
  ir_themes_removed :: nat

definition new_plugin :: "datetime \<Rightarrow> uuid \<Rightarrow> discovered_plugin \<Rightarrow> uuid \<Rightarrow> installed_plugin" where
  "new_plugin now own x u = \<lparr>eid = u, created_at = now, updated_at = now, pl_installation_id = own,
     pl_slug = dp_slug x, pl_name = dp_name x, pl_version = dp_version x, pl_is_present = True,
     pl_last_seen_at = now\<rparr>"

definition reconcile_plugins ::
    "datetime \<Rightarrow> uuid \<Rightarrow> installed_plugin list \<Rightarrow> discovered_plugin list \<Rightarrow> db \<Rightarrow> (nat \<times> nat) \<times> db" where
  "reconcile_plugins now own existing discovered d =
     (let (removed, t, n) = reconcile_rows pl_slug dp_slug (new_plugin now own)
            (\<lambda>x. plugin_mark_seen now (dp_name x) (dp_version x) now) pl_is_present
            (plugin_mark_absent now now) existing discovered (tb_plugins d) (next_uuid d)
      in ((length discovered, removed), d\<lparr>tb_plugins := t, next_uuid := n\<rparr>))"

definition new_theme :: "datetime \<Rightarrow> uuid \<Rightarrow> discovered_theme \<Rightarrow> uuid \<Rightarrow> installed_theme" where
  "new_theme now own x u = \<lparr>eid = u, created_at = now, updated_at = now, th_installation_id = own,
     th_slug = dt_slug x, th_name = dt_name x, th_version = dt_version x, th_is_present = True,
     th_last_seen_at = now\<rparr>"

definition reconcile_themes ::
    "datetime \<Rightarrow> uuid \<Rightarrow> installed_theme list \<Rightarrow> discovered_theme list \<Rightarrow> db \<Rightarrow> (nat \<times> nat) \<times> db" where
  "reconcile_themes now own existing discovered d =
     (let (removed, t, n) = reconcile_rows th_slug dt_slug (new_theme now own)
            (\<lambda>x. theme_mark_seen now (dt_name x) (dt_version x) now) th_is_present
            (theme_mark_absent now now) existing discovered (tb_themes d) (next_uuid d)
      in ((length discovered, removed), d\<lparr>tb_themes := t, next_uuid := n\<rparr>))"

definition inventory_installation ::
    "(wordpress_installation \<Rightarrow> discovered_plugin list) \<Rightarrow> (wordpress_installation \<Rightarrow> discovered_theme list) \<Rightarrow>
     datetime \<Rightarrow> wordpress_installation \<Rightarrow> db \<Rightarrow> (nat \<times> nat \<times> nat \<times> nat) \<times> db" where
  "inventory_installation scan_plugins scan_themes now w d =
     (let existing_plugins = plugins_by_installation (eid w) d;
          existing_themes = themes_by_installation (eid w) d;
          ((pf, pr), d) = reconcile_plugins now (eid w) existing_plugins (scan_plugins w) d;
          ((tf, tr), d) = reconcile_themes now (eid w) existing_themes (scan_themes w) d
      in ((pf, pr, tf, tr), d))"

fun inventory_installations ::
    "(wordpress_installation \<Rightarrow> discovered_plugin list) \<Rightarrow> (wordpress_installation \<Rightarrow> discovered_theme list) \<Rightarrow>
     datetime \<Rightarrow> wordpress_installation list \<Rightarrow> nat \<times> nat \<times> nat \<times> nat \<Rightarrow> db \<Rightarrow> (nat \<times> nat \<times> nat \<times> nat) \<times> db" where
  "inventory_installations scan_plugins scan_themes now [] acc d = (acc, d)"
| "inventory_installations scan_plugins scan_themes now (w # ws) acc d =
     (let ((pf, pr, tf, tr), d) = inventory_installation scan_plugins scan_themes now w d;
          (a, b, c, e) = acc
      in inventory_installations scan_plugins scan_themes now ws (a + pf, b + pr, c + tf, e + tr) d)"

definition run_inventory_scan ::
    "(wordpress_installation \<Rightarrow> discovered_plugin list) \<Rightarrow> (wordpress_installation \<Rightarrow> discovered_theme list) \<Rightarrow>
     datetime \<Rightarrow> db \<Rightarrow> inventory_scan_result \<times> db" where
  "run_inventory_scan scan_plugins scan_themes now d =
     (let active = filter wi_is_active (tbl_list 10000 0 (tb_installations d));
          ((pf, pr, tf, tr), d) = inventory_installations scan_plugins scan_themes now active (0, 0, 0, 0) d
      in (\<lparr>ir_installations_scanned = length active, ir_plugins_found = pf, ir_plugins_removed = pr,
           ir_themes_found = tf, ir_themes_removed = tr\<rparr>, d))"

section \<open>Configuration items\<close>

record configuration_scan_result =
  co_installations_scanned :: nat
  co_items_found :: nat
  co_items_flagged :: nat
  co_items_removed :: nat

definition new_config_item :: "datetime \<Rightarrow> uuid \<Rightarrow> discovered_config_item \<Rightarrow> uuid \<Rightarrow> configuration_item" where
  "new_config_item now own x u = \<lparr>eid = u, created_at = now, updated_at = now, ci_installation_id = own,
     ci_config_source = dc_config_source x, ci_key = dc_key x, ci_raw_value = dc_raw_value x,
     ci_is_flagged = dc_is_flagged x, ci_flag_reason = dc_flag_reason x, ci_is_present = True,
     ci_last_seen_at = now\<rparr>"

definition reconcile_config ::
    "datetime \<Rightarrow> uuid \<Rightarrow> configuration_item list \<Rightarrow> discovered_config_item list \<Rightarrow> db \<Rightarrow>
     (nat \<times> nat \<times> nat) \<times> db" where
  "reconcile_config now own existing discovered d =
     (let (removed, t, n) = reconcile_rows (\<lambda>c. (ci_config_source c, ci_key c))
            (\<lambda>x. (dc_config_source x, dc_key x)) (new_config_item now own)
            (\<lambda>x. config_mark_seen now (dc_raw_value x) (dc_is_flagged x) (dc_flag_reason x) now) ci_is_present
            (config_mark_absent now now) existing discovered (tb_config_items d) (next_uuid d)
      in ((length discovered, length (filter dc_is_flagged discovered), removed),
          d\<lparr>tb_config_items := t, next_uuid := n\<rparr>))"

fun config_installations ::
    "(wordpress_installation \<Rightarrow> discovered_config_item list) \<Rightarrow> datetime \<Rightarrow> wordpress_installation list \<Rightarrow>
     nat \<times> nat \<times> nat \<Rightarrow> db \<Rightarrow> (nat \<times> nat \<times> nat) \<times> db" where
  "config_installations scan now [] acc d = (acc, d)"
| "config_installations scan now (w # ws) acc d =
     (let existing = configs_by_installation (eid w) d;
          ((f, g, r), d) = reconcile_config now (eid w) existing (scan w) d;
          (a, b, c) = acc
      in config_installations scan now ws (a + f, b + g, c + r) d)"

definition run_configuration_scan ::
    "(wordpress_installation \<Rightarrow> discovered_config_item list) \<Rightarrow> datetime \<Rightarrow> db \<Rightarrow> configuration_scan_result \<times> db" where
  "run_configuration_scan scan now d =
     (let active = filter wi_is_active (tbl_list 10000 0 (tb_installations d));
          ((f, g, r), d) = config_installations scan now active (0, 0, 0) d
      in (\<lparr>co_installations_scanned = length active, co_items_found = f, co_items_flagged = g,
           co_items_removed = r\<rparr>, d))"

section \<open>The entities keep the contract\<close>

interpretation plug: reconcilable pl_slug dp_slug pl_installation_id "new_plugin now"
    "\<lambda>x. plugin_mark_seen now (dp_name x) (dp_version x) now" pl_is_present "plugin_mark_absent now now"
    "\<lambda>p. (pl_slug p, pl_name p, pl_version p)" "\<lambda>x. (dp_slug x, dp_name x, dp_version x)" for now :: datetime
  by unfold_locales (auto simp: new_plugin_def)

interpretation them: reconcilable th_slug dt_slug th_installation_id "new_theme now"
    "\<lambda>x. theme_mark_seen now (dt_name x) (dt_version x) now" th_is_present "theme_mark_absent now now"
    "\<lambda>p. (th_slug p, th_name p, th_version p)" "\<lambda>x. (dt_slug x, dt_name x, dt_version x)" for now :: datetime
  by unfold_locales (auto simp: new_theme_def)

interpretation conf: reconcilable "\<lambda>c. (ci_config_source c, ci_key c)" "\<lambda>x. (dc_config_source x, dc_key x)"
    ci_installation_id "new_config_item now"
    "\<lambda>x. config_mark_seen now (dc_raw_value x) (dc_is_flagged x) (dc_flag_reason x) now" ci_is_present
    "config_mark_absent now now"
    "\<lambda>c. (ci_config_source c, ci_key c, ci_raw_value c, ci_is_flagged c, ci_flag_reason c)"
    "\<lambda>x. (dc_config_source x, dc_key x, dc_raw_value x, dc_is_flagged x, dc_flag_reason x)" for now :: datetime
  by unfold_locales (auto simp: new_config_item_def)

definition inventory_unique :: "db \<Rightarrow> bool" where
  "inventory_unique d \<longleftrightarrow>
     distinct (map (\<lambda>p. (pl_installation_id p, pl_slug p)) (tb_plugins d)) \<and>
     distinct (map (\<lambda>p. (th_installation_id p, th_slug p)) (tb_themes d)) \<and>
     distinct (map (\<lambda>c. (ci_installation_id c, ci_config_source c, ci_key c)) (tb_config_items d))"

section \<open>The loops\<close>

lemma reconcile_plugins_step:
  assumes "db_wf d" "inventory_unique d" "distinct (map dp_slug xs)"
    and "reconcile_plugins now own (plugins_by_installation own d) xs d = ((f, r), d')"
  obtains t n where "d' = d\<lparr>tb_plugins := t, next_uuid := n\<rparr>" "plug.mirrored own xs (tb_plugins d) t"
    "db_wf d'" "inventory_unique d'" "f = length xs" "r = plug.removed_count own xs (tb_plugins d)"
proof -
  obtain t n where rows: "reconcile_rows pl_slug dp_slug (new_plugin now own)
            (\<lambda>x. plugin_mark_seen now (dp_name x) (dp_version x) now) pl_is_present
            (plugin_mark_absent now now) (filter (\<lambda>e. pl_installation_id e = own) (tb_plugins d)) xs (tb_plugins d)
            (next_uuid d) = (r, t, n)"
    and d': "d' = d\<lparr>tb_plugins := t, next_uuid := n\<rparr>" and f: "f = length xs"
    using assms(4) by (auto simp: reconcile_plugins_def plugins_by_installation_def Let_def split: prod.splits)
  have "distinct (map (\<lambda>p. (pl_installation_id p, pl_slug p)) (tb_plugins d))"
    using assms(2) by (simp add: inventory_unique_def)
  note m = plug.reconcile_rows_mirrored[OF db_wfD(9)[OF assms(1)] this assms(3) rows]
  have "db_wf d'"
    using db_wf_mono[OF assms(1) m(3)] m(2) unfolding d' by (simp add: db_wf_def)
  moreover have "inventory_unique d'"
    using assms(2) m(1) by (simp add: inventory_unique_def d' plug.mirrored_def)
  ultimately show ?thesis using m(4) by (intro that[OF d' m(1) _ _ f]) (simp_all only: plug.removed_count_def)
qed

lemma reconcile_themes_step:
  assumes "db_wf d" "inventory_unique d" "distinct (map dt_slug xs)"
    and "reconcile_themes now own (themes_by_installation own d) xs d = ((f, r), d')"
  obtains t n where "d' = d\<lparr>tb_themes := t, next_uuid := n\<rparr>" "them.mirrored own xs (tb_themes d) t"
    "db_wf d'" "inventory_unique d'" "f = length xs" "r = them.removed_count own xs (tb_themes d)"
proof -
  obtain t n where rows: "reconcile_rows th_slug dt_slug (new_theme now own)
            (\<lambda>x. theme_mark_seen now (dt_name x) (dt_version x) now) th_is_present
            (theme_mark_absent now now) (filter (\<lambda>e. th_installation_id e = own) (tb_themes d)) xs (tb_themes d)
            (next_uuid d) = (r, t, n)"
    and d': "d' = d\<lparr>tb_themes := t, next_uuid := n\<rparr>" and f: "f = length xs"
    using assms(4) by (auto simp: reconcile_themes_def themes_by_installation_def Let_def split: prod.splits)
  have "distinct (map (\<lambda>p. (th_installation_id p, th_slug p)) (tb_themes d))"
    using assms(2) by (simp add: inventory_unique_def)
  note m = them.reconcile_rows_mirrored[OF db_wfD(10)[OF assms(1)] this assms(3) rows]
  have "db_wf d'"
    using db_wf_mono[OF assms(1) m(3)] m(2) unfolding d' by (simp add: db_wf_def)
  moreover have "inventory_unique d'"
    using assms(2) m(1) by (simp add: inventory_unique_def d' them.mirrored_def)
  ultimately show ?thesis using m(4) by (intro that[OF d' m(1) _ _ f]) (simp_all only: them.removed_count_def)
qed

lemma reconcile_config_step:
  assumes "db_wf d" "inventory_unique d" "distinct (map (\<lambda>x. (dc_config_source x, dc_key x)) xs)"
    and "reconcile_config now own (configs_by_installation own d) xs d = ((f, g, r), d')"
  obtains t n where "d' = d\<lparr>tb_config_items := t, next_uuid := n\<rparr>" "conf.mirrored own xs (tb_config_items d) t"
    "db_wf d'" "inventory_unique d'" "f = length xs" "g = length (filter dc_is_flagged xs)"
    "r = conf.removed_count own xs (tb_config_items d)"
proof -
  obtain t n where rows: "reconcile_rows (\<lambda>c. (ci_config_source c, ci_key c))
            (\<lambda>x. (dc_config_source x, dc_key x)) (new_config_item now own)
            (\<lambda>x. config_mark_seen now (dc_raw_value x) (dc_is_flagged x) (dc_flag_reason x) now) ci_is_present
            (config_mark_absent now now) (filter (\<lambda>e. ci_installation_id e = own) (tb_config_items d)) xs
            (tb_config_items d) (next_uuid d) = (r, t, n)"
    and d': "d' = d\<lparr>tb_config_items := t, next_uuid := n\<rparr>" and f: "f = length xs"
    and g: "g = length (filter dc_is_flagged xs)"
    using assms(4) by (auto simp: reconcile_config_def configs_by_installation_def Let_def split: prod.splits)
  have u: "distinct (map (\<lambda>c. (ci_installation_id c, ci_config_source c, ci_key c)) (tb_config_items d))"
    using assms(2) by (simp add: inventory_unique_def)
  have wf: "tbl_wf (next_uuid d) (tb_config_items d)" using assms(1) by (simp add: db_wf_def)
  note m = conf.reconcile_rows_mirrored[OF wf u assms(3) rows]
  have "db_wf d'"
    using db_wf_mono[OF assms(1) m(3)] m(2) unfolding d' by (simp add: db_wf_def)
  moreover have "inventory_unique d'"
    using assms(2) m(1) by (simp add: inventory_unique_def d' conf.mirrored_def)
  ultimately show ?thesis using m(4) by (intro that[OF d' m(1) _ _ f g]) (simp_all only: conf.removed_count_def)
qed

text \<open>What a scanner gives for each installation of a list.\<close>

definition scanned_by :: "(wordpress_installation \<Rightarrow> 'x list) \<Rightarrow> wordpress_installation list \<Rightarrow> (uuid \<times> 'x list) list" where
  "scanned_by scan ws = map (\<lambda>w. (eid w, scan w)) ws"

lemma inventory_loop:
  assumes "db_wf d" "inventory_unique d" "distinct (map eid ws)"
    and "\<forall>w \<in> set ws. distinct (map dp_slug (sp w)) \<and> distinct (map dt_slug (st w))"
    and "inventory_installations sp st now ws (a, b, c, e) d = ((a', b', c', e'), d')"
  shows "plug.mirrors (scanned_by sp ws) (tb_plugins d) (tb_plugins d') \<and>
    them.mirrors (scanned_by st ws) (tb_themes d) (tb_themes d') \<and>
    db_wf d' \<and> inventory_unique d' \<and>
    a' = a + length (concat (map sp ws)) \<and> c' = c + length (concat (map st ws)) \<and>
    b' = b + sum_list (map (\<lambda>w. plug.removed_count (eid w) (sp w) (tb_plugins d)) ws) \<and>
    e' = e + sum_list (map (\<lambda>w. them.removed_count (eid w) (st w) (tb_themes d)) ws) \<and>
    (\<exists>tp tt n. d' = d\<lparr>tb_plugins := tp, tb_themes := tt, next_uuid := n\<rparr>)"
  using assms
proof (induction ws arbitrary: a b c e d)
  case Nil
  have "plug.mirrors [] (tb_plugins d) (tb_plugins d)" "them.mirrors [] (tb_themes d) (tb_themes d)"
    using Nil.prems(2) by (simp_all add: inventory_unique_def plug.mirrors_Nil them.mirrors_Nil)
  moreover have "\<exists>tp tt n. d = d\<lparr>tb_plugins := tp, tb_themes := tt, next_uuid := n\<rparr>"
    by (intro exI[of _ "tb_plugins d"] exI[of _ "tb_themes d"] exI[of _ "next_uuid d"]) simp
  moreover have "a' = a" "b' = b" "c' = c" "e' = e" "d' = d" using Nil.prems(5) by auto
  ultimately show ?case
    using Nil.prems(1,2) unfolding scanned_by_def
    by (simp only: list.map list.size concat.simps sum_list.Nil add_0_right simp_thms)
next
  case (Cons w ws)
  obtain pf pr d1 where p: "reconcile_plugins now (eid w) (plugins_by_installation (eid w) d) (sp w) d = ((pf, pr), d1)"
    by (metis surj_pair)
  have dist: "distinct (map dp_slug (sp w))" "distinct (map dt_slug (st w))" using Cons.prems(4) by auto
  from reconcile_plugins_step[OF Cons.prems(1,2) dist(1) p] obtain t1 n1 where
    d1: "d1 = d\<lparr>tb_plugins := t1, next_uuid := n1\<rparr>" and m1: "plug.mirrored (eid w) (sp w) (tb_plugins d) t1"
    and w1: "db_wf d1" "inventory_unique d1" and c1: "pf = length (sp w)"
      "pr = plug.removed_count (eid w) (sp w) (tb_plugins d)" .
  have ex: "themes_by_installation (eid w) d = themes_by_installation (eid w) d1"
    by (simp add: themes_by_installation_def d1)
  obtain tf tr d2 where q: "reconcile_themes now (eid w) (themes_by_installation (eid w) d1) (st w) d1 = ((tf, tr), d2)"
    by (metis surj_pair)
  from reconcile_themes_step[OF w1 dist(2) q] obtain t2 n2 where
    d2: "d2 = d1\<lparr>tb_themes := t2, next_uuid := n2\<rparr>" and m2: "them.mirrored (eid w) (st w) (tb_themes d1) t2"
    and w2: "db_wf d2" "inventory_unique d2" and c2: "tf = length (st w)"
      "tr = them.removed_count (eid w) (st w) (tb_themes d1)" .
  have run: "inventory_installations sp st now ws (a + pf, b + pr, c + tf, e + tr) d2 = ((a', b', c', e'), d')"
    using Cons.prems(5) p q ex by (simp add: inventory_installation_def)
  have "distinct (map eid ws)" "\<forall>w \<in> set ws. distinct (map dp_slug (sp w)) \<and> distinct (map dt_slug (st w))"
    using Cons.prems(3,4) by auto
  note IH = Cons.IH[OF w2 this run]
  have tabs: "tb_plugins d2 = t1" "tb_themes d2 = t2" "tb_themes d1 = tb_themes d" by (simp_all add: d2 d1)
  have notin: "eid w \<notin> fst ` set (scanned_by sp ws)" "eid w \<notin> fst ` set (scanned_by st ws)"
    using Cons.prems(3) by (auto simp: scanned_by_def)
  have ne: "eid x \<noteq> eid w" if "x \<in> set ws" for x
  proof
    assume "eid x = eid w"
    then have "eid w \<in> eid ` set ws" using that by (metis imageI)
    then show False using Cons.prems(3) by simp
  qed
  have "plug.mirrors (scanned_by sp (w # ws)) (tb_plugins d) (tb_plugins d')"
    using plug.mirrors_Cons[OF m1 _ notin(1)] IH[THEN conjunct1, unfolded tabs]
    unfolding scanned_by_def list.map by blast
  moreover have "them.mirrors (scanned_by st (w # ws)) (tb_themes d) (tb_themes d')"
    using them.mirrors_Cons[OF m2[unfolded tabs] _ notin(2)] IH[THEN conjunct2, THEN conjunct1, unfolded tabs]
    unfolding scanned_by_def list.map by blast
  moreover have "sum_list (map (\<lambda>x. plug.removed_count (eid x) (sp x) t1) ws) =
      sum_list (map (\<lambda>x. plug.removed_count (eid x) (sp x) (tb_plugins d)) ws)"
    by (intro arg_cong[where f = sum_list] map_cong refl plug.mirrored_removed_count[OF m1] ne)
  moreover have "sum_list (map (\<lambda>x. them.removed_count (eid x) (st x) t2) ws) =
      sum_list (map (\<lambda>x. them.removed_count (eid x) (st x) (tb_themes d)) ws)"
    by (intro arg_cong[where f = sum_list] map_cong refl them.mirrored_removed_count[OF m2[unfolded tabs]] ne)
  moreover have "\<exists>tp tt n. d' = d\<lparr>tb_plugins := tp, tb_themes := tt, next_uuid := n\<rparr>"
    using IH by (auto simp: d2 d1)
  ultimately show ?case
    using IH c1 c2 by (simp add: tabs)
qed

lemma config_loop:
  assumes "db_wf d" "inventory_unique d" "distinct (map eid ws)"
    and "\<forall>w \<in> set ws. distinct (map (\<lambda>x. (dc_config_source x, dc_key x)) (sc w))"
    and "config_installations sc now ws (a, b, c) d = ((a', b', c'), d')"
  shows "conf.mirrors (scanned_by sc ws) (tb_config_items d) (tb_config_items d') \<and>
    db_wf d' \<and> inventory_unique d' \<and>
    a' = a + length (concat (map sc ws)) \<and> b' = b + length (filter dc_is_flagged (concat (map sc ws))) \<and>
    c' = c + sum_list (map (\<lambda>w. conf.removed_count (eid w) (sc w) (tb_config_items d)) ws) \<and>
    (\<exists>t n. d' = d\<lparr>tb_config_items := t, next_uuid := n\<rparr>)"
  using assms
proof (induction ws arbitrary: a b c d)
  case Nil
  have "conf.mirrors [] (tb_config_items d) (tb_config_items d)"
    using Nil.prems(2) by (simp add: inventory_unique_def conf.mirrors_Nil)
  moreover have "\<exists>t n. d = d\<lparr>tb_config_items := t, next_uuid := n\<rparr>"
    by (intro exI[of _ "tb_config_items d"] exI[of _ "next_uuid d"]) simp
  moreover have "a' = a" "b' = b" "c' = c" "d' = d" using Nil.prems(5) by auto
  ultimately show ?case
    using Nil.prems(1,2) unfolding scanned_by_def
    by (simp only: list.map list.size concat.simps filter.simps sum_list.Nil add_0_right simp_thms)
next
  case (Cons w ws)
  obtain f g r d1 where p: "reconcile_config now (eid w) (configs_by_installation (eid w) d) (sc w) d = ((f, g, r), d1)"
    by (metis surj_pair)
  have dist: "distinct (map (\<lambda>x. (dc_config_source x, dc_key x)) (sc w))" using Cons.prems(4) by auto
  from reconcile_config_step[OF Cons.prems(1,2) dist p] obtain t1 n1 where
    d1: "d1 = d\<lparr>tb_config_items := t1, next_uuid := n1\<rparr>" and m1: "conf.mirrored (eid w) (sc w) (tb_config_items d) t1"
    and w1: "db_wf d1" "inventory_unique d1" and c1: "f = length (sc w)" "g = length (filter dc_is_flagged (sc w))"
      "r = conf.removed_count (eid w) (sc w) (tb_config_items d)" .
  have run: "config_installations sc now ws (a + f, b + g, c + r) d1 = ((a', b', c'), d')"
    using Cons.prems(5) p by simp
  have "distinct (map eid ws)" "\<forall>w \<in> set ws. distinct (map (\<lambda>x. (dc_config_source x, dc_key x)) (sc w))"
    using Cons.prems(3,4) by auto
  note IH = Cons.IH[OF w1 this run]
  have tab: "tb_config_items d1 = t1" by (simp add: d1)
  have notin: "eid w \<notin> fst ` set (scanned_by sc ws)"
    using Cons.prems(3) by (auto simp: scanned_by_def)
  have ne: "eid x \<noteq> eid w" if "x \<in> set ws" for x
  proof
    assume "eid x = eid w"
    then have "eid w \<in> eid ` set ws" using that by (metis imageI)
    then show False using Cons.prems(3) by simp
  qed
  have "conf.mirrors (scanned_by sc (w # ws)) (tb_config_items d) (tb_config_items d')"
    using conf.mirrors_Cons[OF m1 _ notin] IH[THEN conjunct1, unfolded tab]
    unfolding scanned_by_def list.map by blast
  moreover have "sum_list (map (\<lambda>x. conf.removed_count (eid x) (sc x) t1) ws) =
      sum_list (map (\<lambda>x. conf.removed_count (eid x) (sc x) (tb_config_items d)) ws)"
    by (intro arg_cong[where f = sum_list] map_cong refl conf.mirrored_removed_count[OF m1] ne)
  moreover have "\<exists>t n. d' = d\<lparr>tb_config_items := t, next_uuid := n\<rparr>"
    using IH by (auto simp: d1)
  ultimately show ?case
    using IH c1 by (simp add: tab)
qed

section \<open>The properties\<close>

text \<open>The installations a scan works on.\<close>

definition active_installations :: "db \<Rightarrow> wordpress_installation list" where
  "active_installations d = filter wi_is_active (tbl_list 10000 0 (tb_installations d))"

lemma active_installations_distinct: "db_wf d \<Longrightarrow> distinct (map eid (active_installations d))"
  using tbl_wf_distinct[OF db_wfD(2)]
  by (simp add: active_installations_def tbl_list_def distinct_map_filter tbl_ids_def take_map [symmetric])

text \<open>C22. After an inventory scan, the plugins and themes marked present for an
  active installation are exactly those its scanner found, with name and
  version; nothing is changed for any other installation, and no row is ever
  deleted or loses its place. The counts returned are the true ones.\<close>

theorem inventory_mirrors_disk:
  assumes "db_wf d" "inventory_unique d"
    and "\<And>w. distinct (map dp_slug (sp w))" "\<And>w. distinct (map dt_slug (st w))"
    and "run_inventory_scan sp st now d = (r, d')"
  shows "(\<forall>w \<in> set (active_installations d).
        (\<lambda>p. (pl_slug p, pl_name p, pl_version p)) ` {p \<in> set (tb_plugins d'). pl_installation_id p = eid w \<and> pl_is_present p} =
          (\<lambda>x. (dp_slug x, dp_name x, dp_version x)) ` set (sp w) \<and>
        (\<lambda>p. (th_slug p, th_name p, th_version p)) ` {p \<in> set (tb_themes d'). th_installation_id p = eid w \<and> th_is_present p} =
          (\<lambda>x. (dt_slug x, dt_name x, dt_version x)) ` set (st w)) \<and>
    (\<forall>i. i \<notin> eid ` set (active_installations d) \<longrightarrow>
        filter (\<lambda>p. pl_installation_id p = i) (tb_plugins d') = filter (\<lambda>p. pl_installation_id p = i) (tb_plugins d) \<and>
        filter (\<lambda>p. th_installation_id p = i) (tb_themes d') = filter (\<lambda>p. th_installation_id p = i) (tb_themes d)) \<and>
    map eid (tb_plugins d) = take (length (tb_plugins d)) (map eid (tb_plugins d')) \<and>
    map eid (tb_themes d) = take (length (tb_themes d)) (map eid (tb_themes d')) \<and>
    ir_installations_scanned r = length (active_installations d) \<and>
    ir_plugins_found r = length (concat (map sp (active_installations d))) \<and>
    ir_themes_found r = length (concat (map st (active_installations d))) \<and>
    db_wf d' \<and> inventory_unique d'"
proof -
  obtain a b c e where run: "inventory_installations sp st now (active_installations d) (0, 0, 0, 0) d = ((a, b, c, e), d')"
    and r: "r = \<lparr>ir_installations_scanned = length (active_installations d), ir_plugins_found = a,
      ir_plugins_removed = b, ir_themes_found = c, ir_themes_removed = e\<rparr>"
    using assms(5) by (auto simp: run_inventory_scan_def active_installations_def Let_def split: prod.splits)
  have "\<forall>w \<in> set (active_installations d). distinct (map dp_slug (sp w)) \<and> distinct (map dt_slug (st w))"
    using assms(3,4) by blast
  note L = inventory_loop[OF assms(1,2) active_installations_distinct[OF assms(1)] this run]
  have m: "plug.mirrors (scanned_by sp (active_installations d)) (tb_plugins d) (tb_plugins d')"
    "them.mirrors (scanned_by st (active_installations d)) (tb_themes d) (tb_themes d')"
    using L by blast+
  have keys: "fst ` set (scanned_by f ws) = eid ` set ws" for f :: "wordpress_installation \<Rightarrow> 'x list" and ws
    by (simp add: scanned_by_def image_image)
  have mem: "(eid w, f w) \<in> set (scanned_by f ws)" if "w \<in> set ws" for f :: "wordpress_installation \<Rightarrow> 'x list" and ws w
    using that by (simp add: scanned_by_def)
  have v1: "(\<lambda>p. (pl_slug p, pl_name p, pl_version p)) ` {p \<in> set (tb_plugins d'). pl_installation_id p = eid w \<and> pl_is_present p} =
      (\<lambda>x. (dp_slug x, dp_name x, dp_version x)) ` set (sp w)" if "w \<in> set (active_installations d)" for w
    using bspec[OF m(1)[unfolded plug.mirrors_def, THEN conjunct1] mem[OF that]] by simp
  have v2: "(\<lambda>p. (th_slug p, th_name p, th_version p)) ` {p \<in> set (tb_themes d'). th_installation_id p = eid w \<and> th_is_present p} =
      (\<lambda>x. (dt_slug x, dt_name x, dt_version x)) ` set (st w)" if "w \<in> set (active_installations d)" for w
    using bspec[OF m(2)[unfolded them.mirrors_def, THEN conjunct1] mem[OF that]] by simp
  have f1: "filter (\<lambda>p. pl_installation_id p = i) (tb_plugins d') = filter (\<lambda>p. pl_installation_id p = i) (tb_plugins d)"
    if "i \<notin> eid ` set (active_installations d)" for i
    using m(1)[unfolded plug.mirrors_def keys] that by blast
  have f2: "filter (\<lambda>p. th_installation_id p = i) (tb_themes d') = filter (\<lambda>p. th_installation_id p = i) (tb_themes d)"
    if "i \<notin> eid ` set (active_installations d)" for i
    using m(2)[unfolded them.mirrors_def keys] that by blast
  have e: "map eid (tb_plugins d) = take (length (tb_plugins d)) (map eid (tb_plugins d'))"
    "map eid (tb_themes d) = take (length (tb_themes d)) (map eid (tb_themes d'))"
    by (rule m(1)[unfolded plug.mirrors_def, THEN conjunct2, THEN conjunct2, THEN conjunct1],
        rule m(2)[unfolded them.mirrors_def, THEN conjunct2, THEN conjunct2, THEN conjunct1])
  have "a = length (concat (map sp (active_installations d)))" "c = length (concat (map st (active_installations d)))"
    using L unfolding add_0 by blast+
  then have c: "ir_installations_scanned r = length (active_installations d)"
    "ir_plugins_found r = length (concat (map sp (active_installations d)))"
    "ir_themes_found r = length (concat (map st (active_installations d)))" "db_wf d'" "inventory_unique d'"
    using L unfolding r by (simp_all only: inventory_scan_result.select_convs)
  show ?thesis by (intro conjI ballI allI impI v1 v2 f1 f2 e c)
qed

text \<open>The same for the security-relevant configuration settings: after a
  configuration scan the items present for an active installation are exactly
  those found, with their value and flag, and the counts of items, of flagged
  items and of items that disappeared are the true ones.\<close>

theorem configuration_mirrors_disk:
  assumes "db_wf d" "inventory_unique d"
    and "\<And>w. distinct (map (\<lambda>x. (dc_config_source x, dc_key x)) (sc w))"
    and "run_configuration_scan sc now d = (r, d')"
  shows "(\<forall>w \<in> set (active_installations d).
        (\<lambda>c. (ci_config_source c, ci_key c, ci_raw_value c, ci_is_flagged c, ci_flag_reason c)) `
            {c \<in> set (tb_config_items d'). ci_installation_id c = eid w \<and> ci_is_present c} =
          (\<lambda>x. (dc_config_source x, dc_key x, dc_raw_value x, dc_is_flagged x, dc_flag_reason x)) ` set (sc w)) \<and>
    (\<forall>i. i \<notin> eid ` set (active_installations d) \<longrightarrow>
        filter (\<lambda>c. ci_installation_id c = i) (tb_config_items d') = filter (\<lambda>c. ci_installation_id c = i) (tb_config_items d)) \<and>
    co_items_found r = length (concat (map sc (active_installations d))) \<and>
    co_items_flagged r = length (filter dc_is_flagged (concat (map sc (active_installations d)))) \<and>
    co_items_removed r = sum_list (map (\<lambda>w. length (filter (\<lambda>c. ci_installation_id c = eid w \<and> ci_is_present c \<and>
        (ci_config_source c, ci_key c) \<notin> (\<lambda>x. (dc_config_source x, dc_key x)) ` set (sc w)) (tb_config_items d)))
      (active_installations d)) \<and>
    db_wf d' \<and> inventory_unique d'"
proof -
  obtain a b c where run: "config_installations sc now (active_installations d) (0, 0, 0) d = ((a, b, c), d')"
    and r: "r = \<lparr>co_installations_scanned = length (active_installations d), co_items_found = a,
      co_items_flagged = b, co_items_removed = c\<rparr>"
    using assms(4) by (auto simp: run_configuration_scan_def active_installations_def Let_def split: prod.splits)
  have "\<forall>w \<in> set (active_installations d). distinct (map (\<lambda>x. (dc_config_source x, dc_key x)) (sc w))"
    using assms(3) by blast
  note L = config_loop[OF assms(1,2) active_installations_distinct[OF assms(1)] this run]
  have m: "conf.mirrors (scanned_by sc (active_installations d)) (tb_config_items d) (tb_config_items d')"
    using L by blast
  have keys: "fst ` set (scanned_by sc ws) = eid ` set ws" for ws
    by (simp add: scanned_by_def image_image)
  have mem: "(eid w, sc w) \<in> set (scanned_by sc ws)" if "w \<in> set ws" for ws w
    using that by (simp add: scanned_by_def)
  have v: "(\<lambda>c. (ci_config_source c, ci_key c, ci_raw_value c, ci_is_flagged c, ci_flag_reason c)) `
            {c \<in> set (tb_config_items d'). ci_installation_id c = eid w \<and> ci_is_present c} =
          (\<lambda>x. (dc_config_source x, dc_key x, dc_raw_value x, dc_is_flagged x, dc_flag_reason x)) ` set (sc w)"
    if "w \<in> set (active_installations d)" for w
    using bspec[OF m[unfolded conf.mirrors_def, THEN conjunct1] mem[OF that]] by simp
  have f: "filter (\<lambda>c. ci_installation_id c = i) (tb_config_items d') = filter (\<lambda>c. ci_installation_id c = i) (tb_config_items d)"
    if "i \<notin> eid ` set (active_installations d)" for i
    using m[unfolded conf.mirrors_def keys] that by blast
  have "co_items_found r = length (concat (map sc (active_installations d)))"
    "co_items_flagged r = length (filter dc_is_flagged (concat (map sc (active_installations d))))"
    "co_items_removed r = sum_list (map (\<lambda>w. length (filter (\<lambda>c. ci_installation_id c = eid w \<and> ci_is_present c \<and>
        (ci_config_source c, ci_key c) \<notin> (\<lambda>x. (dc_config_source x, dc_key x)) ` set (sc w)) (tb_config_items d)))
      (active_installations d))" "db_wf d'" "inventory_unique d'"
    using L r by (simp_all add: conf.removed_count_def)
  then show ?thesis by (intro conjI ballI allI impI v f)
qed

section \<open>A concrete scan\<close>

definition demo_wp :: wordpress_installation where
  "demo_wp = \<lparr>eid = 3, created_at = 0, updated_at = 0, wi_account_id = 1,
     wi_absolute_path = AbsoluteFilePath ''/w'', wi_domain = None, wi_wp_version = None,
     wi_is_multisite = False, wi_last_seen_at = 0, wi_is_active = True, wi_php_version = None\<rparr>"

definition demo_inv_db :: db where
  "demo_inv_db = empty_db\<lparr>tb_installations := [demo_wp],
     tb_plugins := [new_plugin 0 3 \<lparr>dp_slug = ''old'', dp_name = ''Old'', dp_version = None\<rparr> 4],
     next_uuid := 10\<rparr>"

lemma demo_inv_ok: "db_wf demo_inv_db" "inventory_unique demo_inv_db"
  by (simp_all add: demo_inv_db_def empty_db_def db_wf_def tbl_wf_def demo_wp_def new_plugin_def inventory_unique_def)

lemma demo_inv_active: "active_installations demo_inv_db = [demo_wp]"
  by (simp add: active_installations_def demo_inv_db_def tbl_list_def demo_wp_def)

theorem inventory_mirrors_disk_witness:
  "{p \<in> set (tb_plugins (snd (run_inventory_scan (\<lambda>_. []) (\<lambda>_. []) 5 demo_inv_db))).
      pl_installation_id p = eid demo_wp \<and> pl_is_present p} = {}"
  using inventory_mirrors_disk[OF demo_inv_ok _ _ prod.collapse [symmetric],
      of "\<lambda>_. []" "\<lambda>_. []" 5, THEN conjunct1] by (simp add: demo_inv_active)

theorem configuration_mirrors_disk_witness:
  "co_items_flagged (fst (run_configuration_scan (\<lambda>_. [\<lparr>dc_config_source = ''c'', dc_key = ''k'',
     dc_raw_value = None, dc_is_flagged = True, dc_flag_reason = None\<rparr>]) 5 demo_inv_db)) = 1"
  using configuration_mirrors_disk[OF demo_inv_ok _ prod.collapse [symmetric],
      of "\<lambda>_. [\<lparr>dc_config_source = ''c'', dc_key = ''k'', dc_raw_value = None, dc_is_flagged = True, dc_flag_reason = None\<rparr>]" 5]
  by (simp add: demo_inv_active)

end
