(* ===== verification/Cron_Inventory.thy ===== *)
theory Cron_Inventory
  imports Inventory
begin

text \<open>
  \<open>SystemCrontabScanner\<close> (\<open>infrastructure/wordpress/cron_scanner.py\<close>) and
  \<open>RunWordPressInventoryUseCase\<close> (\<open>application/wordpress/inventory/use_cases.py\<close>):
  the entries of an account's crontab, their classification, the table of cron
  jobs and the snapshot event. Characters are code points below 256; white space and line
  breaks are those of Python's \<open>str\<close> among them. \<open>repr\<close> of a string is Python's
  and is a parameter.
\<close>

section \<open>Python's white space\<close>

definition py_space :: "char \<Rightarrow> bool" where
  "py_space c = (let n = (of_char c :: nat) in (9 \<le> n \<and> n \<le> 13) \<or> (28 \<le> n \<and> n \<le> 32) \<or> n = 133 \<or> n = 160)"

definition line_break :: "char \<Rightarrow> bool" where
  "line_break c = (let n = (of_char c :: nat) in (10 \<le> n \<and> n \<le> 13) \<or> (28 \<le> n \<and> n \<le> 30) \<or> n = 133)"

text \<open>\<open>s.splitlines()\<close>; a carriage return and a following line feed are one
  break.\<close>

fun split_lines :: "string \<Rightarrow> string \<Rightarrow> string list" where
  "split_lines acc [] = (if acc = [] then [] else [rev acc])"
| "split_lines acc (c # cs) =
     (if c = CHR 0x0D \<and> cs \<noteq> [] \<and> hd cs = CHR 0x0A then rev acc # split_lines [] (tl cs)
      else if line_break c then rev acc # split_lines [] cs
      else split_lines (c # acc) cs)"

definition str_strip :: "string \<Rightarrow> string" where
  "str_strip s = rev (dropWhile py_space (rev (dropWhile py_space s)))"

text \<open>\<open>s.split(maxsplit=k)\<close>.\<close>

fun split_ws :: "nat \<Rightarrow> string \<Rightarrow> string list" where
  "split_ws 0 s = (let s = dropWhile py_space s in if s = [] then [] else [s])"
| "split_ws (Suc k) s =
     (let s = dropWhile py_space s
      in if s = [] then []
         else takeWhile (\<lambda>c. \<not> py_space c) s # split_ws k (dropWhile (\<lambda>c. \<not> py_space c) s))"

section \<open>The crontab\<close>

record crontab_entry =
  ce_schedule_raw :: string
  ce_command :: string

definition schedule_field_count :: nat where
  "schedule_field_count = 5"

definition name_start :: "char \<Rightarrow> bool" where
  "name_start c = (let n = (of_char c :: nat) in (65 \<le> n \<and> n \<le> 90) \<or> (97 \<le> n \<and> n \<le> 122) \<or> n = 95)"

definition name_char :: "char \<Rightarrow> bool" where
  "name_char c = (let n = (of_char c :: nat) in name_start c \<or> (48 \<le> n \<and> n \<le> 57))"

text \<open>\<open>_ENV_ASSIGNMENT_PATTERN.match(line)\<close>: a name, white space, an equals
  sign.\<close>

definition env_assignment :: "string \<Rightarrow> bool" where
  "env_assignment s =
     (s \<noteq> [] \<and> name_start (hd s) \<and>
      (let rest = dropWhile py_space (dropWhile name_char (tl s)) in rest \<noteq> [] \<and> hd rest = CHR ''=''))"

definition crontab_line :: "string \<Rightarrow> crontab_entry option" where
  "crontab_line line =
     (let stripped = str_strip line
      in if stripped = [] \<or> hd stripped = CHR ''#'' then None
         else if env_assignment stripped then None
         else (let fields = split_ws schedule_field_count stripped
               in if length fields \<le> schedule_field_count then None
                  else Some \<lparr>ce_schedule_raw = str_join '' '' (take schedule_field_count fields),
                             ce_command = fields ! schedule_field_count\<rparr>))"

text \<open>\<open>SystemCrontabScanner.scan\<close> on what reading the file gave; \<open>None\<close> is
  \<open>OSError\<close>.\<close>

definition scan_crontab :: "string option \<Rightarrow> crontab_entry list" where
  "scan_crontab content =
     (case content of None \<Rightarrow> [] | Some s \<Rightarrow> List.map_filter crontab_line (split_lines [] s))"

section \<open>The use case\<close>

record wordpress_inventory_result =
  wr_installations_scanned :: nat
  wr_cron_jobs_found :: nat
  wr_suspicious_cron_jobs :: nat

definition classify_cron :: "(string \<Rightarrow> string) \<Rightarrow> string list \<Rightarrow> string \<Rightarrow> bool \<times> string option" where
  "classify_cron repr markers command =
     (case find (\<lambda>m. sublist m (str_lower command)) (map str_lower markers) of
        Some m \<Rightarrow> (True, Some (''command contains suspicious pattern: '' @ repr m))
      | None \<Rightarrow> (False, None))"

definition new_cron_job ::
    "(string \<Rightarrow> string) \<Rightarrow> string list \<Rightarrow> datetime \<Rightarrow> uuid \<Rightarrow> crontab_entry \<Rightarrow> uuid \<Rightarrow> wordpress_cron_job" where
  "new_cron_job repr markers now own x u =
     (let (suspicious, reason) = classify_cron repr markers (ce_command x)
      in \<lparr>eid = u, created_at = now, updated_at = now, cj_installation_id = own, cj_command = ce_command x,
          cj_schedule_raw = ce_schedule_raw x, cj_is_suspicious = suspicious, cj_flag_reason = reason,
          cj_is_present = True, cj_last_seen_at = now\<rparr>)"

definition refresh_cron_job ::
    "(string \<Rightarrow> string) \<Rightarrow> string list \<Rightarrow> datetime \<Rightarrow> crontab_entry \<Rightarrow> wordpress_cron_job \<Rightarrow> wordpress_cron_job" where
  "refresh_cron_job repr markers now x =
     (let (suspicious, reason) = classify_cron repr markers (ce_command x)
      in cron_mark_seen now (ce_schedule_raw x) suspicious reason now)"

definition reconcile_cron_jobs ::
    "(string \<Rightarrow> string) \<Rightarrow> string list \<Rightarrow> datetime \<Rightarrow> uuid \<Rightarrow> crontab_entry list \<Rightarrow> db \<Rightarrow> (nat \<times> nat) \<times> db" where
  "reconcile_cron_jobs repr markers now own entries d =
     (let existing = cron_jobs_by_installation own d;
          (removed, t, n) = reconcile_rows cj_command ce_command (new_cron_job repr markers now own)
            (refresh_cron_job repr markers now) cj_is_present (cron_mark_absent now now) existing entries
            (tb_cron_jobs d) (next_uuid d)
      in ((length entries, length (filter (\<lambda>x. fst (classify_cron repr markers (ce_command x))) entries)),
          d\<lparr>tb_cron_jobs := t, next_uuid := n\<rparr>))"

definition emit_snapshot :: "datetime \<Rightarrow> uuid \<Rightarrow> uuid \<Rightarrow> db \<Rightarrow> db" where
  "emit_snapshot now own account d =
     (let plugins = filter pl_is_present (plugins_by_installation own d);
          themes = filter th_is_present (themes_by_installation own d);
          cron_jobs = filter cj_is_present (cron_jobs_by_installation own d);
          (u, d) = uuid4 d;
          e = new_event u now ''wordpress_inventory_snapshot'' ''wordpress'' (Some account) INFO
            [(''installation_id'', JStr (uuid_str own)),
             (''plugin_count'', JInt (int (length plugins))),
             (''theme_count'', JInt (int (length themes))),
             (''cron_job_count'', JInt (int (length cron_jobs))),
             (''plugins'', JArr (map (\<lambda>p. JObj [(''slug'', JStr (pl_slug p)), (''version'', opt_str (pl_version p))]) plugins)),
             (''themes'', JArr (map (\<lambda>p. JObj [(''slug'', JStr (th_slug p)), (''version'', opt_str (th_version p))]) themes))]
            now
      in d\<lparr>tb_events := tbl_add e (tb_events d)\<rparr>)"

fun wp_inventory_installations ::
    "(string \<Rightarrow> string) \<Rightarrow> string list \<Rightarrow> (cpanel_account \<Rightarrow> string option) \<Rightarrow> datetime \<Rightarrow>
     wordpress_installation list \<Rightarrow> wordpress_inventory_result \<Rightarrow> db \<Rightarrow> wordpress_inventory_result \<times> db" where
  "wp_inventory_installations repr markers read_crontab now [] r d = (r, d)"
| "wp_inventory_installations repr markers read_crontab now (w # ws) r d =
     (if \<not> wi_is_active w then wp_inventory_installations repr markers read_crontab now ws r d
      else case tbl_get (wi_account_id w) (tb_accounts d) of
             None \<Rightarrow> wp_inventory_installations repr markers read_crontab now ws r d
           | Some account \<Rightarrow>
               (let ((found, suspicious), d) = reconcile_cron_jobs repr markers now (eid w)
                      (scan_crontab (read_crontab account)) d;
                    d = emit_snapshot now (eid w) (eid account) d
                in wp_inventory_installations repr markers read_crontab now ws
                     \<lparr>wr_installations_scanned = wr_installations_scanned r + 1,
                      wr_cron_jobs_found = wr_cron_jobs_found r + found,
                      wr_suspicious_cron_jobs = wr_suspicious_cron_jobs r + suspicious\<rparr> d))"

definition run_wordpress_inventory ::
    "(string \<Rightarrow> string) \<Rightarrow> string list \<Rightarrow> (cpanel_account \<Rightarrow> string option) \<Rightarrow> datetime \<Rightarrow> db \<Rightarrow>
     wordpress_inventory_result \<times> db" where
  "run_wordpress_inventory repr markers read_crontab now d =
     wp_inventory_installations repr markers read_crontab now (tbl_list 10000 0 (tb_installations d))
       \<lparr>wr_installations_scanned = 0, wr_cron_jobs_found = 0, wr_suspicious_cron_jobs = 0\<rparr> d"

section \<open>Cron jobs keep the contract\<close>

interpretation cron: reconcilable cj_command ce_command cj_installation_id "new_cron_job repr markers now"
    "refresh_cron_job repr markers now" cj_is_present "cron_mark_absent now now"
    "\<lambda>j. (cj_command j, cj_schedule_raw j, cj_is_suspicious j, cj_flag_reason j)"
    "\<lambda>x. (ce_command x, ce_schedule_raw x, fst (classify_cron repr markers (ce_command x)),
          snd (classify_cron repr markers (ce_command x)))"
  for repr :: "string \<Rightarrow> string" and markers :: "string list" and now :: datetime
  by unfold_locales (auto simp: new_cron_job_def refresh_cron_job_def split: prod.splits)

section \<open>Parsing what a crontab contains\<close>

text \<open>A crontab line from its five schedule fields and its command.\<close>

definition crontab_text :: "string list \<Rightarrow> string \<Rightarrow> string" where
  "crontab_text fls command = str_join '' '' fls @ '' '' @ command"

definition crontab_ok :: "string list \<Rightarrow> string \<Rightarrow> bool" where
  "crontab_ok fls command \<longleftrightarrow>
     length fls = 5 \<and> list_all (\<lambda>f. f \<noteq> [] \<and> list_all (\<lambda>c. \<not> py_space c) f) fls \<and>
     hd (hd fls) \<noteq> CHR ''#'' \<and> \<not> env_assignment (crontab_text fls command) \<and>
     command \<noteq> [] \<and> \<not> py_space (hd command) \<and> \<not> py_space (last command) \<and>
     list_all (\<lambda>c. \<not> line_break c) command"

lemma line_break_space: "line_break c \<Longrightarrow> py_space c"
  by (auto simp: line_break_def py_space_def Let_def)

lemma space_is_space [simp]: "py_space CHR '' ''" "\<not> line_break CHR '' ''"
  by (simp_all add: py_space_def line_break_def)

lemma lf_break [simp]: "line_break CHR 0x0A" "line_break CHR 0x0D"
  by (simp_all add: line_break_def)

lemma split_lines_line:
  "list_all (\<lambda>c. \<not> line_break c) s \<Longrightarrow>
   split_lines acc (s @ CHR 0x0A # rest) = (rev acc @ s) # split_lines [] rest"
proof (induction s arbitrary: acc)
  case (Cons c s)
  then have "c \<noteq> CHR 0x0D" using lf_break(2) by auto
  then show ?case using Cons by simp
qed simp

lemma split_lines_all:
  "list_all (list_all (\<lambda>c. \<not> line_break c)) ls \<Longrightarrow>
   split_lines [] (concat (map (\<lambda>s. s @ [CHR 0x0A]) ls)) = ls"
  by (induction ls) (simp_all add: split_lines_line)

lemma str_strip_id: "s \<noteq> [] \<Longrightarrow> \<not> py_space (hd s) \<Longrightarrow> \<not> py_space (last s) \<Longrightarrow> str_strip s = s"
proof -
  assume s: "s \<noteq> []" "\<not> py_space (hd s)" "\<not> py_space (last s)"
  have keep: "xs \<noteq> [] \<Longrightarrow> \<not> py_space (hd xs) \<Longrightarrow> dropWhile py_space xs = xs" for xs
    by (cases xs) simp_all
  show ?thesis using s by (simp add: str_strip_def keep hd_rev)
qed

lemma split_ws_space [simp]: "split_ws k (CHR '' '' # s) = split_ws k s"
  by (cases k) (simp_all add: Let_def)

lemma takeWhile_field:
  assumes "list_all (\<lambda>c. \<not> py_space c) f"
  shows "takeWhile (\<lambda>c. \<not> py_space c) (f @ CHR '' '' # s) = f"
    "dropWhile (\<lambda>c. \<not> py_space c) (f @ CHR '' '' # s) = CHR '' '' # s"
  using assms by (induction f) auto

lemma split_ws_field:
  assumes "f \<noteq> []" "list_all (\<lambda>c. \<not> py_space c) f"
  shows "split_ws (Suc k) (f @ CHR '' '' # s) = f # split_ws k s"
proof -
  have "dropWhile py_space (f @ CHR '' '' # s) = f @ CHR '' '' # s"
    using assms by (cases f) auto
  then show ?thesis using assms by (simp add: takeWhile_field)
qed

lemma split_ws_fields:
  assumes "fls \<noteq> []" "list_all (\<lambda>f. f \<noteq> [] \<and> list_all (\<lambda>c. \<not> py_space c) f) fls"
    and "command \<noteq> []" "\<not> py_space (hd command)"
  shows "split_ws (length fls) (crontab_text fls command) = fls @ [command]"
  using assms(1,2)
proof (induction fls)
  case (Cons f fls)
  show ?case
  proof (cases "fls = []")
    case True
    have "dropWhile py_space command = command" using assms(3,4) by (cases command) auto
    then have "split_ws 0 command = [command]" using assms(3) by simp
    then show ?thesis using Cons.prems True by (simp add: crontab_text_def split_ws_field del: split_ws.simps)
  next
    case False
    then have "crontab_text (f # fls) command = f @ CHR '' '' # crontab_text fls command"
      by (simp add: crontab_text_def str_join_Cons)
    then show ?thesis using Cons False by (simp add: split_ws_field del: split_ws.simps)
  qed
qed simp

lemma str_join_chars: "list_all (list_all P) xs \<Longrightarrow> list_all P sep \<Longrightarrow> list_all P (str_join sep xs)"
  by (induction sep xs rule: str_join.induct) auto

lemma crontab_line_text:
  assumes "crontab_ok fls command"
  shows "crontab_line (crontab_text fls command) = Some \<lparr>ce_schedule_raw = str_join '' '' fls, ce_command = command\<rparr>"
    "list_all (\<lambda>c. \<not> line_break c) (crontab_text fls command)"
proof -
  have ok: "length fls = 5" "list_all (\<lambda>f. f \<noteq> [] \<and> list_all (\<lambda>c. \<not> py_space c) f) fls"
    "hd (hd fls) \<noteq> CHR ''#''" "\<not> env_assignment (crontab_text fls command)"
    "command \<noteq> []" "\<not> py_space (hd command)" "\<not> py_space (last command)" "list_all (\<lambda>c. \<not> line_break c) command"
    using assms unfolding crontab_ok_def by blast+
  obtain f fs where f: "fls = f # fs" "fs \<noteq> []"
    using ok(1) by (cases fls) fastforce+
  let ?s = "crontab_text fls command"
  have s: "?s = f @ CHR '' '' # str_join '' '' fs @ '' '' @ command"
    using f by (simp add: crontab_text_def str_join_Cons)
  obtain c cs where c: "f = c # cs" "\<not> py_space c"
    using ok(2) f(1) by (cases f) simp_all
  have h: "?s \<noteq> []" "hd ?s = hd (hd fls)" "\<not> py_space (hd ?s)"
    unfolding s using c by (simp_all add: f(1))
  have "last ?s = last command" using ok(5) by (simp add: crontab_text_def)
  then have "str_strip ?s = ?s" using str_strip_id[OF h(1,3)] ok(7) by simp
  moreover have "split_ws 5 ?s = fls @ [command]"
    using split_ws_fields[OF _ ok(2,5,6)] f(1) unfolding ok(1) by blast
  ultimately show "crontab_line ?s = Some \<lparr>ce_schedule_raw = str_join '' '' fls, ce_command = command\<rparr>"
    using ok(1,3,4) h by (simp add: crontab_line_def schedule_field_count_def Let_def nth_append del: split_ws.simps)
  have "list_all (list_all (\<lambda>c. \<not> line_break c)) fls"
    using ok(2) by (auto simp: list_all_iff dest: line_break_space)
  then show "list_all (\<lambda>c. \<not> line_break c) ?s"
    using ok(8) str_join_chars[of "\<lambda>c. \<not> line_break c" fls "'' ''"] by (simp add: crontab_text_def)
qed

section \<open>The properties\<close>

text \<open>Round trip: a crontab written line by line from schedule fields and
  commands is read back as exactly these entries, in order.\<close>

theorem crontab_roundtrip:
  assumes "list_all (\<lambda>(fls, command). crontab_ok fls command) es"
  shows "scan_crontab (Some (concat (map (\<lambda>(fls, command). crontab_text fls command @ [CHR 0x0A]) es))) =
    map (\<lambda>(fls, command). \<lparr>ce_schedule_raw = str_join '' '' fls, ce_command = command\<rparr>) es"
proof -
  let ?ls = "map (\<lambda>(fls, command). crontab_text fls command) es"
  have "list_all (list_all (\<lambda>c. \<not> line_break c)) ?ls"
    using assms crontab_line_text(2) by (auto simp: list_all_iff)
  moreover have "map (\<lambda>(fls, command). crontab_text fls command @ [CHR 0x0A]) es = map (\<lambda>s. s @ [CHR 0x0A]) ?ls"
    by auto
  ultimately have "split_lines [] (concat (map (\<lambda>(fls, command). crontab_text fls command @ [CHR 0x0A]) es)) = ?ls"
    using split_lines_all by metis
  moreover have "List.map_filter crontab_line ?ls =
      map (\<lambda>(fls, command). \<lparr>ce_schedule_raw = str_join '' '' fls, ce_command = command\<rparr>) es"
    using assms by (induction es) (auto simp: map_filter_simps crontab_line_text(1))
  ultimately show ?thesis by (simp add: scan_crontab_def)
qed

text \<open>When the commands of a crontab are distinct, the cron jobs present for
  the installation afterwards are exactly its entries, each with the verdict
  of the suspicious-pattern check on its command, jobs of other installations
  are untouched, and both counts returned are the true ones.\<close>

theorem cron_jobs_mirror_crontab:
  assumes "db_wf d" "distinct (map (\<lambda>j. (cj_installation_id j, cj_command j)) (tb_cron_jobs d))"
    and "distinct (map ce_command entries)"
    and "reconcile_cron_jobs repr markers now own entries d = ((found, suspicious), d')"
  shows "(\<lambda>j. (cj_command j, cj_schedule_raw j, cj_is_suspicious j, cj_flag_reason j)) `
        {j \<in> set (tb_cron_jobs d'). cj_installation_id j = own \<and> cj_is_present j} =
      (\<lambda>x. (ce_command x, ce_schedule_raw x, fst (classify_cron repr markers (ce_command x)),
          snd (classify_cron repr markers (ce_command x)))) ` set entries \<and>
    (\<forall>i. i \<noteq> own \<longrightarrow> filter (\<lambda>j. cj_installation_id j = i) (tb_cron_jobs d') =
      filter (\<lambda>j. cj_installation_id j = i) (tb_cron_jobs d)) \<and>
    map eid (tb_cron_jobs d) = take (length (tb_cron_jobs d)) (map eid (tb_cron_jobs d')) \<and>
    found = length entries \<and>
    suspicious = length (filter (\<lambda>x. \<exists>m \<in> set markers. sublist (str_lower m) (str_lower (ce_command x))) entries)"
proof -
  obtain r t n where rows: "reconcile_rows cj_command ce_command (new_cron_job repr markers now own)
            (refresh_cron_job repr markers now) cj_is_present (cron_mark_absent now now)
            (filter (\<lambda>j. cj_installation_id j = own) (tb_cron_jobs d)) entries
            (tb_cron_jobs d) (next_uuid d) = (r, t, n)"
    and out: "d' = d\<lparr>tb_cron_jobs := t, next_uuid := n\<rparr>" "found = length entries"
      "suspicious = length (filter (\<lambda>x. fst (classify_cron repr markers (ce_command x))) entries)"
    using assms(4) by (auto simp: reconcile_cron_jobs_def cron_jobs_by_installation_def Let_def split: prod.splits)
  have wf: "tbl_wf (next_uuid d) (tb_cron_jobs d)" using assms(1) by (simp add: db_wf_def)
  note m = cron.reconcile_rows_mirrored(1)[OF wf assms(2,3) rows, unfolded cron.mirrored_def]
  have cl: "fst (classify_cron repr markers c) \<longleftrightarrow> (\<exists>m \<in> set markers. sublist (str_lower m) (str_lower c))" for c
    by (auto simp: classify_cron_def find_None_iff find_Some_iff split: option.splits intro: nth_mem)
  have "suspicious = length (filter (\<lambda>x. \<exists>m \<in> set markers. sublist (str_lower m) (str_lower (ce_command x))) entries)"
    using out(3) unfolding cl .
  moreover have "tb_cron_jobs d' = t" by (simp add: out(1))
  ultimately show ?thesis using m out(2) by simp
qed

text \<open>A command that occurs twice in a crontab (with two schedules) is not
  reconciled correctly: the first scan stores two jobs, a later scan only sees
  one of them, so when the command has disappeared from the crontab one job
  stays present for ever and keeps being counted and alerted.\<close>

theorem cron_duplicate_stays_present:
  assumes "tb_cron_jobs d = []" "ce_command x = ce_command y"
    and "reconcile_cron_jobs repr markers now own [x, y] d = (r1, d1)"
    and "reconcile_cron_jobs repr markers later own [] d1 = (r2, d2)"
  shows "\<exists>j \<in> set (tb_cron_jobs d2). cj_installation_id j = own \<and> cj_command j = ce_command x \<and> cj_is_present j"
proof -
  let ?x = "new_cron_job repr markers now own x (next_uuid d)"
  let ?y = "new_cron_job repr markers now own y (Suc (next_uuid d))"
  have c: "cj_command ?x = ce_command x" "cj_command ?y = ce_command x" "cj_installation_id ?x = own"
    "cj_installation_id ?y = own" "cj_is_present ?x" "cj_is_present ?y" "eid ?x = next_uuid d" "eid ?y = Suc (next_uuid d)"
    by (auto simp: new_cron_job_def assms(2) split: prod.splits)
  have d1: "tb_cron_jobs d1 = [?x, ?y]"
    using assms(1,3) by (auto simp: reconcile_cron_jobs_def cron_jobs_by_installation_def reconcile_rows_def
        dict_by_def tbl_add_def Let_def)
  have "dict_by cj_command [?x, ?y] = [(ce_command x, ?y)]"
    by (simp add: dict_by_def dict_set_def c)
  then have "tb_cron_jobs d2 = [?x, cron_mark_absent later later ?y]"
    using assms(4) by (auto simp: reconcile_cron_jobs_def cron_jobs_by_installation_def reconcile_rows_def d1 c Let_def)
  then show ?thesis using c by auto
qed

section \<open>Concrete crontabs\<close>

definition demo_cron_fields :: "string list" where
  "demo_cron_fields = [''0'', ''5'', ''*'', ''*'', ''*'']"

theorem crontab_roundtrip_witness:
  "scan_crontab (Some (crontab_text demo_cron_fields ''run it'' @ [CHR 0x0A])) =
     [\<lparr>ce_schedule_raw = ''0 5 * * *'', ce_command = ''run it''\<rparr>]"
proof -
  have "list_all (\<lambda>(fls, command). crontab_ok fls command) [(demo_cron_fields, ''run it'')]"
    by code_simp
  from crontab_roundtrip[OF this] show ?thesis by (simp add: demo_cron_fields_def)
qed

definition demo_cron_entry :: "string \<Rightarrow> crontab_entry" where
  "demo_cron_entry s = \<lparr>ce_schedule_raw = s, ce_command = ''curl x | sh''\<rparr>"

theorem cron_jobs_mirror_crontab_witness:
  "fst (reconcile_cron_jobs id [''CURL''] 5 3 [demo_cron_entry ''* * * * *''] empty_db) = (1, 1)"
proof -
  obtain f s d' where run: "reconcile_cron_jobs id [''CURL''] 5 3 [demo_cron_entry ''* * * * *''] empty_db = ((f, s), d')"
    by (metis surj_pair)
  have "sublist (str_lower ''CURL'') (str_lower ''curl x | sh'')" by code_simp
  then show ?thesis
    using cron_jobs_mirror_crontab[OF empty_db_wf _ _ run] run by (simp add: empty_db_def demo_cron_entry_def)
qed

theorem cron_duplicate_stays_present_witness:
  "\<exists>j \<in> set (tb_cron_jobs (snd (reconcile_cron_jobs id [] 9 3 []
        (snd (reconcile_cron_jobs id [] 5 3 [demo_cron_entry ''0 1 * * *'', demo_cron_entry ''0 2 * * *''] empty_db))))).
     cj_is_present j"
proof -
  have "tb_cron_jobs empty_db = []" by (simp add: empty_db_def)
  moreover have "ce_command (demo_cron_entry ''0 1 * * *'') = ce_command (demo_cron_entry ''0 2 * * *'')"
    by (simp add: demo_cron_entry_def)
  ultimately show ?thesis
    using cron_duplicate_stays_present[OF _ _ prod.collapse [symmetric] prod.collapse [symmetric]] by blast
qed

end
