(* ===== verification/Good_Database.thy ===== *)
theory Good_Database
  imports Row_Repositories Detection_Jobs Auto_Quarantine Discovery Correlation Root_Cause Cron_Inventory
begin

text \<open>
  The typing of the stored data. A database is good when the identifiers of every table are
  unique and below the counter of \<open>uuid4\<close>, and every stored value is one its class accepts
  (\<open>valid_db\<close> of \<^theory_text>\<open>Row_Repositories\<close>); then every row can be read back as an entity.
  Each use case of the application layer keeps the database good (\<open>keeps\<close>), whatever its
  external readers answer, as long as they answer well-typed values, and whatever error it ends
  with. The lemmas \<open>writes_good\<close> say so of one write; the proofs for the use cases follow the
  structure of the code.
\<close>

section \<open>Tables whose rows are valid\<close>

definition stored :: "('a base_entity_scheme \<Rightarrow> bool) \<Rightarrow> uuid \<Rightarrow> 'a base_entity_scheme list \<Rightarrow> bool" where
  "stored v n t \<longleftrightarrow> tbl_wf n t \<and> list_all v t"

lemma stored_add: "stored v n t \<Longrightarrow> v e \<Longrightarrow> eid e = n \<Longrightarrow> stored v (Suc n) (tbl_add e t)"
  using tbl_wf_add [of n t e "Suc n"] by (auto simp: stored_def) (simp add: tbl_add_def)

lemma stored_save: "stored v n t \<Longrightarrow> v e \<Longrightarrow> eid e < n \<Longrightarrow> stored v n (tbl_save e t)"
  using set_tbl_save [of t e] tbl_wf_distinct [of n t] by (auto simp: stored_def tbl_wf_save list_all_iff)

lemma stored_mono: "stored v n t \<Longrightarrow> n \<le> m \<Longrightarrow> stored v m t"
  by (auto simp: stored_def intro: tbl_wf_mono)

lemma stored_mem: "stored v n t \<Longrightarrow> e \<in> set t \<Longrightarrow> v e \<and> eid e < n"
  by (auto simp: stored_def list_all_iff tbl_wf_def)

lemma stored_map:
  "stored v n t \<Longrightarrow> (\<And>e. eid (f e) = eid e) \<Longrightarrow> (\<And>e. v e \<Longrightarrow> v (f e)) \<Longrightarrow> stored v n (map f t)"
  by (auto simp: stored_def tbl_wf_map list_all_iff)

lemma stored_save_where:
  assumes "\<And>e. eid (f e) = eid e" "\<And>e. v e \<Longrightarrow> v (f e)"
  shows "stored v n t \<Longrightarrow> set es \<subseteq> {e. v e \<and> eid e < n} \<Longrightarrow> stored v n (fst (save_where p f es t k))"
proof (induction es arbitrary: t k)
  case (Cons a es)
  have "stored v n (if p a then tbl_save (f a) t else t)"
    using Cons.prems assms stored_save [of v n t "f a"] by auto
  then show ?case using Cons by (auto split: if_splits)
qed simp

text \<open>A good database: identifiers are unique and below the counter, and every
  value is one its class accepts.\<close>

definition good :: "db \<Rightarrow> bool" where
  "good d \<longleftrightarrow>
     stored (\<lambda>_. True) (next_uuid d) (tb_servers d) \<and>
     stored valid_account (next_uuid d) (tb_accounts d) \<and>
     stored valid_installation (next_uuid d) (tb_installations d) \<and>
     stored valid_baseline (next_uuid d) (tb_baselines d) \<and>
     stored valid_finding (next_uuid d) (tb_findings d) \<and>
     stored valid_action (next_uuid d) (tb_actions d) \<and>
     stored valid_event (next_uuid d) (tb_events d) \<and>
     stored (\<lambda>_. True) (next_uuid d) (tb_incidents d) \<and>
     stored (\<lambda>_. True) (next_uuid d) (tb_links d) \<and>
     stored (\<lambda>_. True) (next_uuid d) (tb_timeline d) \<and>
     stored (\<lambda>_. True) (next_uuid d) (tb_plugins d) \<and>
     stored (\<lambda>_. True) (next_uuid d) (tb_themes d) \<and>
     stored (\<lambda>_. True) (next_uuid d) (tb_config_items d) \<and>
     stored valid_observation (next_uuid d) (tb_observations d) \<and>
     stored (\<lambda>_. True) (next_uuid d) (tb_heartbeats d) \<and>
     stored (\<lambda>_. True) (next_uuid d) (tb_checksums d) \<and>
     stored (\<lambda>_. True) (next_uuid d) (tb_cron_jobs d)"

lemma good_iff: "good d \<longleftrightarrow> db_wf d \<and> valid_db d"
  by (auto simp: good_def stored_def db_wf_def valid_db_def)

text \<open>How findings come about and change: a stored finding was made by the constructor and has since
  gone through steps of its life cycle (\<^theory_text>\<open>Finding_Lifecycle\<close>) only.\<close>

definition born :: "integrity_finding \<Rightarrow> bool" where
  "born f \<longleftrightarrow> (\<exists>i tm a p c s x y t. finding_steps (new_finding i tm a p c s x y t) f)"

definition evolves :: "integrity_finding list \<Rightarrow> integrity_finding \<Rightarrow> bool" where
  "evolves t f' \<longleftrightarrow> (\<exists>f \<in> set t. finding_steps f f') \<or> born f'"

definition findings_grown :: "integrity_finding list \<Rightarrow> integrity_finding list \<Rightarrow> bool" where
  "findings_grown t t' \<longleftrightarrow> (\<forall>f' \<in> set t'. evolves t f')"

lemma finding_steps_trans: "finding_steps g h \<Longrightarrow> finding_steps f g \<Longrightarrow> finding_steps f h"
  by (induction rule: finding_steps.induct) (auto intro: finding_steps.intros)

lemma born_steps: "born f \<Longrightarrow> finding_steps f g \<Longrightarrow> born g"
  unfolding born_def by (blast intro: finding_steps_trans)

lemma born_new [simp]: "born (new_finding i tm a p c s x y t)"
  unfolding born_def by (blast intro: finding_steps.Start)

lemma evolves_steps: "evolves t f \<Longrightarrow> finding_steps f g \<Longrightarrow> evolves t g"
  unfolding evolves_def by (blast intro: finding_steps_trans born_steps)

lemma evolves_mem: "f \<in> set t \<Longrightarrow> finding_step f g \<Longrightarrow> evolves t g"
  unfolding evolves_def by (blast intro: finding_steps.intros)

lemma findings_grown_refl [simp]: "findings_grown t t"
  unfolding findings_grown_def evolves_def by (blast intro: finding_steps.Start)

lemma findings_grown_trans:
  assumes "findings_grown t1 t2" "findings_grown t2 t3"
  shows "findings_grown t1 t3"
  unfolding findings_grown_def
proof
  fix f assume "f \<in> set t3"
  then consider g where "g \<in> set t2" "finding_steps g f" | "born f"
    using assms(2) by (auto simp: findings_grown_def evolves_def)
  then show "evolves t1 f"
  proof cases
    case 1
    then show ?thesis using assms(1) unfolding findings_grown_def by (blast intro: evolves_steps)
  qed (simp add: evolves_def)
qed

lemma findings_grown_add: "born f \<Longrightarrow> findings_grown t (tbl_add f t)"
  using findings_grown_refl [of t] unfolding findings_grown_def tbl_add_def by (auto simp: evolves_def [of t f])

lemma set_tbl_save_sub: "set (tbl_save f t) \<subseteq> insert f (set t)"
  by (induction t) auto

lemma findings_grown_save: "evolves t f \<Longrightarrow> findings_grown t (tbl_save f t)"
  using findings_grown_refl [of t] set_tbl_save_sub [of f t] unfolding findings_grown_def by blast

text \<open>What one use case does to the stored data as a whole. The heartbeats belong to the scheduler,
  not to the use cases; the audit rows of remediation are only ever appended.\<close>

definition keeps :: "db \<Rightarrow> db \<Rightarrow> bool" where
  "keeps d d' \<longleftrightarrow>
     (good d \<longrightarrow> good d' \<and> next_uuid d \<le> next_uuid d' \<and> tb_heartbeats d' = tb_heartbeats d \<and>
       prefix (tb_actions d) (tb_actions d') \<and> findings_grown (tb_findings d) (tb_findings d'))"

lemma keeps_refl [simp]: "keeps d d"
  by (simp add: keeps_def)

lemma keeps_trans [trans]: "keeps d d' \<Longrightarrow> keeps d' d'' \<Longrightarrow> keeps d d''"
  by (auto simp: keeps_def intro: prefix_order.trans findings_grown_trans)

lemma keepsD:
  "keeps d d' \<Longrightarrow> good d \<Longrightarrow> good d'"
  "keeps d d' \<Longrightarrow> good d \<Longrightarrow> next_uuid d \<le> next_uuid d'"
  "keeps d d' \<Longrightarrow> good d \<Longrightarrow> tb_heartbeats d' = tb_heartbeats d"
  "keeps d d' \<Longrightarrow> good d \<Longrightarrow> prefix (tb_actions d) (tb_actions d')"
  "keeps d d' \<Longrightarrow> good d \<Longrightarrow> findings_grown (tb_findings d) (tb_findings d')"
  by (auto simp: keeps_def)

named_theorems writes_good \<open>one repository write keeps the database good\<close>

lemma keeps_adds [writes_good]:
  "keeps d (d\<lparr>next_uuid := Suc (next_uuid d)\<rparr>)"
  "eid e1 = next_uuid d \<Longrightarrow> keeps d (d\<lparr>next_uuid := Suc (next_uuid d), tb_servers := tbl_add e1 (tb_servers d)\<rparr>)"
  "eid e2 = next_uuid d \<Longrightarrow> valid_account e2 \<Longrightarrow>
     keeps d (d\<lparr>next_uuid := Suc (next_uuid d), tb_accounts := tbl_add e2 (tb_accounts d)\<rparr>)"
  "eid e3 = next_uuid d \<Longrightarrow> valid_installation e3 \<Longrightarrow>
     keeps d (d\<lparr>next_uuid := Suc (next_uuid d), tb_installations := tbl_add e3 (tb_installations d)\<rparr>)"
  "eid e4 = next_uuid d \<Longrightarrow> valid_baseline e4 \<Longrightarrow>
     keeps d (d\<lparr>next_uuid := Suc (next_uuid d), tb_baselines := tbl_add e4 (tb_baselines d)\<rparr>)"
  "eid e5 = next_uuid d \<Longrightarrow> valid_finding e5 \<Longrightarrow> born e5 \<Longrightarrow>
     keeps d (d\<lparr>next_uuid := Suc (next_uuid d), tb_findings := tbl_add e5 (tb_findings d)\<rparr>)"
  "eid e6 = next_uuid d \<Longrightarrow> valid_action e6 \<Longrightarrow>
     keeps d (d\<lparr>next_uuid := Suc (next_uuid d), tb_actions := tbl_add e6 (tb_actions d)\<rparr>)"
  "eid e7 = next_uuid d \<Longrightarrow> valid_event e7 \<Longrightarrow>
     keeps d (d\<lparr>next_uuid := Suc (next_uuid d), tb_events := tbl_add e7 (tb_events d)\<rparr>)"
  "eid e8 = next_uuid d \<Longrightarrow> keeps d (d\<lparr>next_uuid := Suc (next_uuid d), tb_incidents := tbl_add e8 (tb_incidents d)\<rparr>)"
  "eid e9 = next_uuid d \<Longrightarrow> keeps d (d\<lparr>next_uuid := Suc (next_uuid d), tb_links := tbl_add e9 (tb_links d)\<rparr>)"
  "eid e10 = next_uuid d \<Longrightarrow> keeps d (d\<lparr>next_uuid := Suc (next_uuid d), tb_timeline := tbl_add e10 (tb_timeline d)\<rparr>)"
  by (auto simp: keeps_def good_def tbl_add_def [of e6] intro: stored_add stored_mono findings_grown_add
      stored_add [of _ _ _ e6, unfolded tbl_add_def])

lemma keeps_saves [writes_good]:
  "eid e1 < next_uuid d \<Longrightarrow> keeps d (d\<lparr>tb_servers := tbl_save e1 (tb_servers d)\<rparr>)"
  "eid e2 < next_uuid d \<Longrightarrow> valid_account e2 \<Longrightarrow> keeps d (d\<lparr>tb_accounts := tbl_save e2 (tb_accounts d)\<rparr>)"
  "eid e3 < next_uuid d \<Longrightarrow> valid_installation e3 \<Longrightarrow>
     keeps d (d\<lparr>tb_installations := tbl_save e3 (tb_installations d)\<rparr>)"
  "eid e4 < next_uuid d \<Longrightarrow> valid_baseline e4 \<Longrightarrow> keeps d (d\<lparr>tb_baselines := tbl_save e4 (tb_baselines d)\<rparr>)"
  "eid e5 < next_uuid d \<Longrightarrow> valid_finding e5 \<Longrightarrow> evolves (tb_findings d) e5 \<Longrightarrow>
     keeps d (d\<lparr>tb_findings := tbl_save e5 (tb_findings d)\<rparr>)"
  "eid e7 < next_uuid d \<Longrightarrow> valid_event e7 \<Longrightarrow> keeps d (d\<lparr>tb_events := tbl_save e7 (tb_events d)\<rparr>)"
  "eid e8 < next_uuid d \<Longrightarrow> keeps d (d\<lparr>tb_incidents := tbl_save e8 (tb_incidents d)\<rparr>)"
  by (auto simp: keeps_def good_def intro: stored_save findings_grown_save)

lemma good_mem:
  assumes "good d"
  shows "e2 \<in> set (tb_accounts d) \<Longrightarrow> valid_account e2 \<and> eid e2 < next_uuid d"
    "e3 \<in> set (tb_installations d) \<Longrightarrow> valid_installation e3 \<and> eid e3 < next_uuid d"
    "e4 \<in> set (tb_baselines d) \<Longrightarrow> valid_baseline e4 \<and> eid e4 < next_uuid d"
    "e5 \<in> set (tb_findings d) \<Longrightarrow> valid_finding e5 \<and> eid e5 < next_uuid d"
    "e7 \<in> set (tb_events d) \<Longrightarrow> valid_event e7 \<and> eid e7 < next_uuid d"
    "e8 \<in> set (tb_incidents d) \<Longrightarrow> eid e8 < next_uuid d"
    "e1 \<in> set (tb_servers d) \<Longrightarrow> eid e1 < next_uuid d"
    "e11 \<in> set (tb_heartbeats d) \<Longrightarrow> eid e11 < next_uuid d"
  using assms by (auto simp: good_def dest: stored_mem)

section \<open>Integrity scans\<close>

definition sound_file :: "scanned_file \<Rightarrow> bool" where
  "sound_file s \<longleftrightarrow> valid_rel (sf_relative_path s) \<and> valid_sha (sf_sha256 s)"

lemma valid_new_finding:
  "valid_rel p \<Longrightarrow> pred_option valid_sha x \<Longrightarrow> pred_option valid_sha y \<Longrightarrow>
   valid_finding (new_finding i tm a p c s x y t)"
  by (simp add: valid_finding_def new_finding_def)

lemma eid_new_finding [simp]: "eid (new_finding i tm a p c s x y t) = i"
  by (simp add: new_finding_def)

lemma valid_finding_event: "valid_event (finding_event mime i tm account f n m)"
  by (simp add: valid_event_def finding_event_def new_event_def Let_def)

lemma keeps_raise:
  assumes "valid_rel p" "pred_option valid_sha x" "pred_option valid_sha y"
  shows "keeps d (raise_finding mime tm account p c x y n m d)"
proof -
  let ?f = "new_finding (next_uuid d) tm (eid account) p c (severity_by_change c) x y tm"
  let ?d1 = "d\<lparr>next_uuid := Suc (next_uuid d), tb_findings := tbl_add ?f (tb_findings d)\<rparr>"
  let ?e = "finding_event mime (next_uuid ?d1) tm account ?f n m"
  have "keeps d ?d1"
    using assms by (intro writes_good valid_new_finding) simp_all
  also have "keeps ?d1 (?d1\<lparr>next_uuid := Suc (next_uuid ?d1), tb_events := tbl_add ?e (tb_events ?d1)\<rparr>)"
    by (intro writes_good valid_finding_event) (simp add: finding_event_def new_event_def Let_def)
  finally show ?thesis
    by (simp add: raise_finding_def uuid4_def Let_def)
qed

definition known_rows :: "db \<Rightarrow> (string \<times> file_baseline) list \<Rightarrow> bool" where
  "known_rows d ex \<longleftrightarrow> (\<forall>kb \<in> set ex. valid_baseline (snd kb) \<and> eid (snd kb) < next_uuid d)"

lemma known_rows_keeps: "known_rows d ex \<Longrightarrow> next_uuid d \<le> next_uuid d' \<Longrightarrow> known_rows d' ex"
  by (auto simp: known_rows_def)

lemma known_rows_set:
  "known_rows d ex \<Longrightarrow> valid_baseline b \<Longrightarrow> eid b < next_uuid d \<Longrightarrow> known_rows d (dict_set k b ex)"
  using set_dict_set_subset [of k b ex] by (auto simp: known_rows_def)

lemma valid_baseline_ops:
  "sound_file s \<Longrightarrow> valid_baseline (new_baseline i tm a s)"
  "sound_file s \<Longrightarrow> valid_baseline b \<Longrightarrow> valid_baseline (baseline_update tm (sf_sha256 s) n m t b)"
  "sound_file s \<Longrightarrow> valid_baseline b \<Longrightarrow> valid_baseline (baseline_reactivate tm (sf_sha256 s) n m t b)"
  "valid_baseline b \<Longrightarrow> valid_baseline (baseline_mark_removed tm t b)"
  by (simp_all add: valid_baseline_def sound_file_def new_baseline_def)

definition scan_good :: "db \<Rightarrow> scan_state \<Rightarrow> bool" where
  "scan_good d st \<longleftrightarrow> keeps d (ss_db st) \<and> good (ss_db st) \<and> known_rows (ss_db st) (ss_by_path st)"

lemma scan_file_good:
  assumes "good d" "scan_good d st" "sound_file s"
  shows "scan_good d (scan_file mime tm account first st s)"
proof -
  let ?report = "\<lambda>c x. raise_finding mime tm account (sf_relative_path s) c x (Some (sf_sha256 s))
      (Some (sf_size_bytes s)) (Some (sf_mode s))"
  have st: "keeps d (ss_db st)" "good (ss_db st)" "known_rows (ss_db st) (ss_by_path st)"
    using assms(2) by (auto simp: scan_good_def)
  have report: "keeps d1 (?report c x d1)" if "pred_option valid_sha x" for c x d1
    using assms(3) that by (intro keeps_raise) (auto simp: sound_file_def)
  have saved: "keeps d (?report c x d1) \<and> good (?report c x d1) \<and>
      known_rows (?report c x d1) (dict_set (spath s) b' (ss_by_path st))"
    if d1: "d1 = (ss_db st)\<lparr>tb_baselines := tbl_save b' (tb_baselines (ss_db st))\<rparr>"
      and b': "valid_baseline b'" "eid b' < next_uuid (ss_db st)" and x: "pred_option valid_sha x"
    for c x d1 b'
  proof -
    have "keeps (ss_db st) d1" unfolding d1 by (rule writes_good) (fact b')+
    also have "keeps d1 (?report c x d1)" by (rule report [OF x])
    finally have k: "keeps (ss_db st) (?report c x d1)" .
    then show ?thesis
      using keeps_trans [OF st(1) k] keepsD [OF k st(2)] known_rows_set [OF st(3) b', of "spath s"]
      by (auto simp: scan_good_def intro: known_rows_keeps)
  qed
  show ?thesis
  proof (cases "map_of (ss_by_path st) (spath s)")
    case None
    let ?d1 = "(ss_db st)\<lparr>next_uuid := Suc (next_uuid (ss_db st)), tb_baselines :=
        tbl_add (new_baseline (next_uuid (ss_db st)) tm (eid account) s) (tb_baselines (ss_db st))\<rparr>"
    have k1: "keeps (ss_db st) ?d1"
      by (intro writes_good valid_baseline_ops assms(3)) (simp add: new_baseline_def)
    have k2: "keeps (ss_db st) (?report ADDED None ?d1)"
      using k1 report [where x = None and c = ADDED and ?d1.0 = ?d1] by (auto intro: keeps_trans)
    show ?thesis
      using None keepsD [OF k1 st(2)] keepsD [OF k2 st(2)] keeps_trans [OF st(1) k1] keeps_trans [OF st(1) k2] st(3)
      by (auto simp: scan_file_def uuid4_def Let_def scan_good_def intro: known_rows_keeps)
  next
    case (Some b)
    then have b: "valid_baseline b" "eid b < next_uuid (ss_db st)"
      using st(3) by (auto simp: known_rows_def dest!: map_of_SomeD)
    have sha: "pred_option valid_sha (Some (fb_sha256 b))" "pred_option valid_sha (Some (sf_sha256 s))"
      using b assms(3) by (simp_all add: valid_baseline_def sound_file_def)
    have same: "scan_good d (st\<lparr>ss_seen := sn\<rparr>)" for sn
      using assms(2) by (simp add: scan_good_def)
    show ?thesis
      using b saved [OF refl, of "baseline_reactivate tm (sf_sha256 s) (sf_size_bytes s) (sf_mode s) tm b" None]
        saved [OF refl, of "baseline_update tm (sf_sha256 s) (sf_size_bytes s) (sf_mode s) tm b" "Some (fb_sha256 b)"]
        saved [OF refl, of "baseline_update tm (sf_sha256 s) (sf_size_bytes s) (sf_mode s) tm b" "Some (sf_sha256 s)"]
        valid_baseline_ops(2,3) [OF assms(3) b(1)] sha same
      by (auto simp: scan_file_def Some Let_def scan_good_def)
  qed
qed

lemma scan_missing_good:
  assumes "good d" "scan_good d st" "valid_baseline (snd kb)" "eid (snd kb) < next_uuid (ss_db st)"
  shows "scan_good d (scan_missing mime tm account st kb)"
proof -
  obtain k b where kb: "kb = (k, b)" by (cases kb)
  let ?d1 = "(ss_db st)\<lparr>tb_baselines := tbl_save (baseline_mark_removed tm tm b) (tb_baselines (ss_db st))\<rparr>"
  let ?d2 = "raise_finding mime tm account (fb_relative_path b) DELETED (Some (fb_sha256 b)) None
      (Some (fb_size_bytes b)) (Some (fb_mode b)) ?d1"
  have "keeps (ss_db st) ?d1"
    using assms kb by (intro writes_good valid_baseline_ops) auto
  also have "keeps ?d1 ?d2"
    using assms kb by (intro keeps_raise) (auto simp: valid_baseline_def)
  finally have k: "keeps (ss_db st) ?d2" .
  have st: "keeps d (ss_db st)" "good (ss_db st)" "known_rows (ss_db st) (ss_by_path st)"
    using assms(2) by (auto simp: scan_good_def)
  show ?thesis
    using assms(2) keeps_trans [OF st(1) k] keepsD [OF k st(2)] known_rows_keeps [OF st(3)]
    by (auto simp: scan_missing_def kb Let_def scan_good_def)
qed

lemma scan_files_good:
  assumes "good d" "list_all sound_file fs" "scan_good d st"
  shows "scan_good d (foldl (scan_file mime tm account first) st fs)"
  using assms(2,3) by (induction fs arbitrary: st) (simp_all add: scan_file_good [OF assms(1)])

lemma scan_missings_good:
  assumes "good d"
  shows "scan_good d st \<Longrightarrow> known_rows (ss_db st) ex \<Longrightarrow>
    scan_good d (foldl (scan_missing mime tm account) st ex)"
proof (induction ex arbitrary: st)
  case (Cons kb ex)
  let ?st = "scan_missing mime tm account st kb"
  have st': "scan_good d ?st"
    using Cons.prems by (intro scan_missing_good [OF assms]) (auto simp: known_rows_def)
  have "next_uuid (ss_db st) \<le> next_uuid (ss_db ?st)"
    by (auto simp: scan_missing_def Let_def raise_finding_def uuid4_def split: prod.splits)
  then have "known_rows (ss_db ?st) ex"
    using Cons.prems(2) by (auto simp: known_rows_def)
  then show ?case using Cons.IH [OF st'] by simp
qed simp

lemma scan_account_good:
  assumes "list_all sound_file fs"
  shows "keeps d (snd (scan_account mime tm account fs d))"
proof (cases "good d")
  case True
  let ?ex = "baselines_by_account (eid account) d"
  let ?st = "\<lparr>ss_db = d, ss_by_path = dict_by bpath ?ex, ss_seen = {},
                ss_established = 0, ss_created = 0, ss_removed = 0\<rparr>"
  have "known_rows d (dict_by bpath ?ex)"
    using good_mem(3) [OF True] by (auto simp: known_rows_def baselines_by_account_def dest!: dict_by_elem)
  then have "scan_good d ?st" using True by (simp add: scan_good_def)
  then have mid: "scan_good d (foldl (scan_file mime tm account (length ?ex = 0)) ?st fs)"
    by (rule scan_files_good [OF True assms])
  have "scan_good d (foldl (scan_missing mime tm account)
      (foldl (scan_file mime tm account (length ?ex = 0)) ?st fs)
      (ss_by_path (foldl (scan_file mime tm account (length ?ex = 0)) ?st fs)))"
    using mid by (intro scan_missings_good [OF True]) (auto simp: scan_good_def)
  then show ?thesis
    by (simp add: scan_account_def Let_def scan_good_def)
qed (simp add: keeps_def)

lemma run_integrity_scan_good:
  assumes "\<And>a. list_all sound_file (scanner a)"
  shows "keeps d (snd (run_integrity_scan mime tm scanner d))"
proof -
  have "keeps d (snd (scan_accounts mime tm scanner acs r d))" for acs r
  proof (induction acs arbitrary: r d)
    case (Cons a acs)
    obtain e c m d1 where one: "scan_account mime tm a (scanner a) d = ((e, c, m), d1)"
      by (metis prod.exhaust)
    have "keeps d d1"
      using scan_account_good [OF assms [of a], of d mime tm a] one by simp
    with Cons show ?case
      by (auto simp: one intro: keeps_trans)
  qed simp
  then show ?thesis by (simp add: run_integrity_scan_def)
qed

section \<open>Remediation\<close>

lemma keeps_action:
  assumes "valid_finding f"
  shows "keeps d (record_remediation_action now f ty outc detail d)"
proof -
  have "valid_action (action_row i now f ty outc detail)" for i
    using assms by (simp add: valid_action_def valid_finding_def action_row_def)
  then have "keeps d (d\<lparr>next_uuid := Suc (next_uuid d),
      tb_actions := tbl_add (action_row (next_uuid d) now f ty outc detail) (tb_actions d)\<rparr>)"
    by (intro writes_good action_row_eid)
  then show ?thesis by (simp add: record_action_eq tbl_add_def)
qed

lemma keeps_save_finding:
  "valid_finding f \<Longrightarrow> eid f < next_uuid d \<Longrightarrow> evolves (tb_findings d) f \<Longrightarrow> keeps d (save_finding f d)"
  unfolding save_finding_def by (rule writes_good)

lemma load_evolves:
  assumes "load_finding i d = Inr f"
  shows "fi_remediation_state f = RS_NONE \<Longrightarrow> fi_change_type f \<noteq> DELETED \<Longrightarrow> evolves (tb_findings d) (set_quarantine now q f)"
    "fi_remediation_state f = RS_QUARANTINED \<Longrightarrow> evolves (tb_findings d) (clear_quarantine now RS_RESTORED f)"
    "fi_remediation_state f = RS_QUARANTINED \<Longrightarrow> evolves (tb_findings d) (clear_quarantine now RS_DELETED f)"
    "evolves (tb_findings d) (acknowledge now f)"
proof -
  have f: "f \<in> set (tb_findings d)" using assms by (auto simp: load_finding_Inr dest: tbl_get_Some)
  note intros = finding_step.intros [where f = f and now = now, unfolded quarantine_Inr restore_Inr delete_finding_Inr]
  show "fi_remediation_state f = RS_NONE \<Longrightarrow> fi_change_type f \<noteq> DELETED \<Longrightarrow> evolves (tb_findings d) (set_quarantine now q f)"
    "fi_remediation_state f = RS_QUARANTINED \<Longrightarrow> evolves (tb_findings d) (clear_quarantine now RS_RESTORED f)"
    "fi_remediation_state f = RS_QUARANTINED \<Longrightarrow> evolves (tb_findings d) (clear_quarantine now RS_DELETED f)"
    "evolves (tb_findings d) (acknowledge now f)"
    using intros by (blast intro: evolves_mem [OF f])+
qed

lemma keeps_save_baseline: "valid_baseline b \<Longrightarrow> eid b < next_uuid d \<Longrightarrow> keeps d (save_baseline b d)"
  unfolding save_baseline_def by (rule writes_good)

lemma load_finding_good:
  "good d \<Longrightarrow> load_finding i d = Inr f \<Longrightarrow> valid_finding f \<and> eid f < next_uuid d"
  using good_mem(4) by (auto simp: load_finding_Inr dest!: tbl_get_Some)

lemma baseline_lookup_good:
  "good d \<Longrightarrow> baseline_get_by_account_and_path a p d = Some b \<Longrightarrow> valid_baseline b \<and> eid b < next_uuid d"
  using good_mem(3) by (auto simp: baseline_get_by_account_and_path_def find_Some_iff)

lemma valid_finding_ops [simp]:
  "valid_finding (set_quarantine now q f) \<longleftrightarrow> valid_finding f"
  "valid_finding (clear_quarantine now s f) \<longleftrightarrow> valid_finding f"
  "valid_finding (set_severity now sv f) \<longleftrightarrow> valid_finding f"
  by (simp_all add: valid_finding_def set_quarantine_def clear_quarantine_def set_severity_def touch_def)

lemma eid_finding_ops [simp]:
  "eid (set_quarantine now q f) = eid f"
  "eid (clear_quarantine now s f) = eid f"
  "eid (set_severity now sv f) = eid f"
  by (simp_all add: set_quarantine_def clear_quarantine_def set_severity_def touch_def)

lemma quarantine_finding_good:
  assumes "quarantine_finding rm now i by_whom d fs = (r, d', fs')"
  shows "keeps d d'"
proof (cases "good d")
  case True
  note g = load_finding_good [OF True] baseline_lookup_good [OF True]
  show ?thesis
    using assms g
    by (auto simp: quarantine_finding_def quarantine_Inr Let_def keeps_action baseline_mark_removed_def touch_def valid_baseline_def
        split: sum.splits prod.splits exn.splits option.splits if_splits
        intro!: keeps_trans [OF _ keeps_action] keeps_trans [OF keeps_save_finding keeps_save_baseline] keeps_save_finding intro: load_evolves)
qed (simp add: keeps_def)

lemma restore_finding_good:
  assumes "restore_finding rm now i d fs = (r, d', fs')"
  shows "keeps d d'"
proof (cases "good d")
  case True
  note g = load_finding_good [OF True] baseline_lookup_good [OF True]
  have sha: "load_finding i d = Inr f \<Longrightarrow> fi_current_sha256 f = Some x \<Longrightarrow> valid_sha x" for f x
    using g(1) [of i f] by (auto simp: valid_finding_def)
  show ?thesis
    using assms g sha
    by (auto simp: restore_finding_def restore_Inr Let_def keeps_action baseline_reactivate_def touch_def valid_baseline_def
        split: sum.splits prod.splits exn.splits option.splits if_splits
        intro!: keeps_trans [OF _ keeps_action] keeps_trans [OF keeps_save_baseline keeps_save_finding]
          keeps_save_finding keeps_save_baseline intro: load_evolves)
qed (simp add: keeps_def)

lemma delete_quarantined_finding_good:
  assumes "delete_quarantined_finding rm now i d fs = (r, d', fs')"
  shows "keeps d d'"
proof (cases "good d")
  case True
  note g = load_finding_good [OF True]
  show ?thesis
    using assms g
    by (auto simp: delete_quarantined_finding_def delete_finding_Inr Let_def keeps_action
        split: sum.splits prod.splits exn.splits option.splits if_splits
        intro!: keeps_trans [OF _ keeps_action] keeps_save_finding intro: load_evolves)
qed (simp add: keeps_def)

lemma trip_circuit_breaker_good: "keeps d (trip_circuit_breaker now a n m cap d)"
proof -
  have "valid_event (circuit_breaker_event i now a n m cap)" for i
    by (simp add: valid_event_def circuit_breaker_event_def new_event_def)
  then have "keeps d (d\<lparr>next_uuid := Suc (next_uuid d),
      tb_events := tbl_add (circuit_breaker_event (next_uuid d) now a n m cap) (tb_events d)\<rparr>)"
    by (intro writes_good) (simp_all add: circuit_breaker_event_def new_event_def)
  then show ?thesis by (simp add: trip_circuit_breaker_def uuid4_def)
qed

lemma quarantine_batch_good:
  "quarantine_batch rm now fl n d fs = (r, d', fs') \<Longrightarrow> keeps d d'"
  by (induction fl arbitrary: n d fs)
    (auto split: prod.splits sum.splits if_splits intro: keeps_trans dest!: quarantine_finding_good)

lemma auto_accounts_good:
  "auto_accounts rm now cap acs n t d fs = (r, d', fs') \<Longrightarrow> keeps d d'"
proof (induction acs arbitrary: n t d fs)
  case (Cons x acs)
  obtain a fl where x: "x = (a, fl)" by (cases x)
  show ?case
    using Cons.prems unfolding x
    by (auto simp: Let_def split: prod.splits sum.splits if_splits
        intro: keeps_trans keeps_trans [OF _ keeps_trans [OF trip_circuit_breaker_good]]
        dest!: quarantine_batch_good Cons.IH)
qed auto

lemma auto_quarantine_good: "auto_quarantine rm mode cap mins now d fs = (r, d', fs') \<Longrightarrow> keeps d d'"
  by (auto simp: auto_quarantine_def Let_def split: if_splits prod.splits sum.splits dest: auto_accounts_good)
section \<open>Discovery\<close>

definition sound_account :: "discovered_account \<Rightarrow> bool" where
  "sound_account f \<longleftrightarrow> valid_user (da_username f) \<and> valid_domain (da_primary_domain f) \<and> valid_abs (da_home_directory f)"

definition sound_installation :: "discovered_installation \<Rightarrow> bool" where
  "sound_installation f \<longleftrightarrow> valid_abs (di_absolute_path f) \<and> pred_option valid_domain (di_domain f)"

lemma find_good: "find p t = Some e \<Longrightarrow> e \<in> set t"
  by (auto simp: find_Some_iff)

lemma reconcile_server_good: "keeps d (snd (reconcile_server h now d))"
proof (cases "good d")
  case True
  then show ?thesis
    using good_mem(7) [OF True find_good]
    by (auto simp: reconcile_server_def server_get_by_hostname_def uuid4_def new_server_def Let_def
        intro: writes_good split: option.split)
qed (simp add: keeps_def)

lemma reconcile_account_good:
  assumes "sound_account f"
  shows "keeps d (snd (reconcile_account server f now d))"
proof (cases "good d")
  case True
  have "valid_account (account_mark_seen now (da_primary_domain f) s now a)" if "valid_account a" for s a
    using that assms by (simp add: valid_account_def sound_account_def)
  then show ?thesis
    using good_mem(1) [OF True find_good] assms
    by (auto simp: reconcile_account_def account_get_by_username_def uuid4_def Let_def new_account_def
        valid_account_def sound_account_def intro!: writes_good split: option.split)
qed (simp add: keeps_def)

lemma reconcile_installation_good:
  assumes "sound_installation f"
  shows "keeps d (snd (reconcile_installation a f now d))"
proof (cases "good d")
  case True
  have "valid_installation (installation_mark_seen now (di_domain f) v m now p w)" if "valid_installation w" for v m p w
    using that assms by (simp add: valid_installation_def sound_installation_def installation_mark_seen_def touch_def)
  then show ?thesis
    using good_mem(2) [OF True find_good] assms
    by (auto simp: reconcile_installation_def installation_get_by_path_def uuid4_def Let_def new_installation_def
        valid_installation_def sound_installation_def intro!: writes_good split: option.split)
qed (simp add: keeps_def)

lemma discover_installations_good:
  "list_all sound_installation fs \<Longrightarrow> discover_installations now a fs seen d = (seen', d') \<Longrightarrow> keeps d d'"
proof (induction fs arbitrary: seen d)
  case (Cons f fs)
  then show ?case
    using reconcile_installation_good [of f d a now]
    by (auto simp: Let_def split: prod.splits intro: keeps_trans)
qed simp

lemma discover_accounts_good:
  assumes "\<And>a. list_all sound_installation (detect a)"
  shows "list_all sound_account fs \<Longrightarrow> discover_accounts now server detect fs accs insts n d = (accs', insts', n', d') \<Longrightarrow>
    keeps d d'"
proof (induction fs arbitrary: accs insts n d)
  case (Cons f fs)
  then show ?case
    using reconcile_account_good [of f d server now]
    by (auto simp: Let_def split: prod.splits
        intro: keeps_trans keeps_trans [OF _ keeps_trans [OF discover_installations_good [OF assms]]])
qed simp

lemma tbl_list_sub: "set (tbl_list l k t) \<subseteq> set t"
  by (auto simp: tbl_list_def dest: in_set_takeD in_set_dropD)

text \<open>A table exchanged for another one that is well typed.\<close>

lemma keeps_tables:
  "(good d \<Longrightarrow> stored valid_account (next_uuid d) t1) \<Longrightarrow> keeps d (d\<lparr>tb_accounts := t1\<rparr>)"
  "(good d \<Longrightarrow> stored valid_installation (next_uuid d) t2) \<Longrightarrow> keeps d (d\<lparr>tb_installations := t2\<rparr>)"
  "(good d \<Longrightarrow> next_uuid d \<le> n \<and> stored (\<lambda>_. True) n t3) \<Longrightarrow> keeps d (d\<lparr>tb_plugins := t3, next_uuid := n\<rparr>)"
  "(good d \<Longrightarrow> next_uuid d \<le> n \<and> stored (\<lambda>_. True) n t4) \<Longrightarrow> keeps d (d\<lparr>tb_themes := t4, next_uuid := n\<rparr>)"
  "(good d \<Longrightarrow> next_uuid d \<le> n \<and> stored (\<lambda>_. True) n t5) \<Longrightarrow> keeps d (d\<lparr>tb_config_items := t5, next_uuid := n\<rparr>)"
  "(good d \<Longrightarrow> next_uuid d \<le> n \<and> stored (\<lambda>_. True) n t6) \<Longrightarrow> keeps d (d\<lparr>tb_cron_jobs := t6, next_uuid := n\<rparr>)"
  by (auto simp: keeps_def good_def intro: stored_mono)

lemma save_where_list_stored:
  assumes "\<And>e. eid (f e) = eid e" "\<And>e. v e \<Longrightarrow> v (f e)" "stored v n t"
    "save_where p f (tbl_list l o' t) t k = (t', m)"
  shows "stored v n t'"
proof -
  have "set (tbl_list l o' t) \<subseteq> {e. v e \<and> eid e < n}"
    using tbl_list_sub [of l o' t] stored_mem [OF assms(3)] by auto
  from stored_save_where [where p = p and k = k, OF assms(1,2,3) this] show ?thesis
    using assms(4) by simp
qed

lemma deactivate_stale_good:
  "deactivate_stale_accounts now seen d = (n, d') \<Longrightarrow> keeps d d'"
  "deactivate_stale_installations now seen d = (n, d') \<Longrightarrow> keeps d d'"
  by (auto simp: deactivate_stale_accounts_def deactivate_stale_installations_def good_def
      valid_account_def account_mark_inactive_def valid_installation_def installation_mark_inactive_def touch_def
      split: prod.splits intro!: keeps_tables elim!: save_where_list_stored [rotated 3])

lemma run_discovery_good:
  assumes "list_all sound_account found" "\<And>a. list_all sound_installation (detect a)"
  shows "keeps d (snd (run_discovery h found detect now d))"
  using reconcile_server_good [of d h now]
  by (auto simp: run_discovery_def Let_def split: prod.splits
      intro: keeps_trans keeps_trans [OF _ keeps_trans [OF discover_accounts_good [OF assms(2,1)]
        keeps_trans [OF deactivate_stale_good(1) deactivate_stale_good(2)]]])

section \<open>Correlation and root causes\<close>

lemma link_account_good: "keeps d (link_account now i a d)"
  by (auto simp: link_account_def uuid4_def intro!: writes_good split: option.split)

lemma correlate_event_good:
  assumes "valid_event e" "eid e < next_uuid d"
  shows "keeps d (correlate_event pystr now i e d)"
proof (cases "good d")
  case True
  let ?d1 = "case ev_account_id e of None \<Rightarrow> d | Some a \<Rightarrow> link_account now i a d"
  let ?t = "timeline_entry pystr now i e (next_uuid ?d1)"
  let ?d2 = "?d1\<lparr>next_uuid := Suc (next_uuid ?d1), tb_timeline := tbl_add ?t (tb_timeline ?d1)\<rparr>"
  let ?e = "event_mark_processed now now e"
  have k1: "keeps d ?d1" by (auto simp: link_account_good split: option.split)
  have k2: "keeps ?d1 ?d2" by (intro writes_good) (simp add: timeline_entry_def)
  have "valid_event ?e" "eid ?e = eid e"
    using assms(1) by (simp_all add: valid_event_def event_mark_processed_def touch_def)
  moreover have "eid e < next_uuid ?d2"
    using keepsD(2) [OF keeps_trans [OF k1 k2] True] assms(2) by simp
  ultimately have k3: "keeps ?d2 (?d2\<lparr>tb_events := tbl_save ?e (tb_events ?d2)\<rparr>)"
    by (intro writes_good) simp_all
  show ?thesis
    using keeps_trans [OF keeps_trans [OF k1 k2] k3]
    by (simp add: correlate_event_def uuid4_def Let_def)
qed (simp add: keeps_def)

definition known_events :: "db \<Rightarrow> security_event list \<Rightarrow> bool" where
  "known_events d es \<longleftrightarrow> (\<forall>e \<in> set es. valid_event e \<and> eid e < next_uuid d)"

lemma correlate_events_good:
  "good d \<Longrightarrow> known_events d es \<Longrightarrow> keeps d (fold (correlate_event pystr now i) es d)"
proof (induction es arbitrary: d)
  case (Cons e es)
  have k: "keeps d (correlate_event pystr now i e d)"
    using Cons.prems by (intro correlate_event_good) (auto simp: known_events_def)
  have "known_events (correlate_event pystr now i e d) es"
    using Cons.prems keepsD(2) [OF k] by (auto simp: known_events_def)
  with Cons k show ?case by (auto intro: keeps_trans dest: keepsD(1))
qed simp

lemma incident_find_mem: "incident_find_open_matching sig since d = Some i \<Longrightarrow> i \<in> set (tb_incidents d)"
proof -
  assume a: "incident_find_open_matching sig since d = Some i"
  let ?p = "\<lambda>i. in_signature i = sig \<and> in_status i = OPEN \<and> since \<le> in_last_seen_at i"
  from a have "i \<in> set (order_desc in_last_seen_at (filter ?p (tb_incidents d)))"
    unfolding incident_find_open_matching_def by (cases "order_desc in_last_seen_at (filter ?p (tb_incidents d))") auto
  then show ?thesis by simp
qed

lemma get_or_create_incident_good:
  assumes "good d" "get_or_create_incident window now sig es d = (i, c, d')"
  shows "keeps d d' \<and> eid i < next_uuid d'"
  using assms good_mem(6) [OF assms(1)]
  by (auto simp: get_or_create_incident_def uuid4_def Let_def new_incident_def
      intro!: writes_good dest!: incident_find_mem split: option.splits)

lemma correlate_cluster_good:
  assumes "known_events d (snd g)" "correlate_cluster pystr window now g d = (c, d')"
  shows "keeps d d'"
proof (cases "good d")
  case True
  obtain sig es where g: "g = (sig, es)" by (cases g)
  obtain i c1 d1 where i: "get_or_create_incident window now sig es d = (i, c1, d1)"
    by (metis prod.exhaust)
  note k1 = get_or_create_incident_good [OF True i]
  then have d1: "good d1" "known_events d1 es"
    using True assms(1) g keepsD [of d d1] by (auto simp: known_events_def)
  let ?d2 = "fold (correlate_event pystr now (eid i)) es d1"
  have k2: "keeps d1 ?d2" by (rule correlate_events_good [OF d1])
  have "keeps ?d2 (?d2\<lparr>tb_incidents := tbl_save (record_new_evidence now now x s i) (tb_incidents ?d2)\<rparr>)" for x s
    using k1 keepsD(2) [OF k2 d1(1)]
    by (intro writes_good) (simp add: record_new_evidence_def touch_def)
  then show ?thesis
    using assms(2) k1 k2 by (auto simp: correlate_cluster_def g i Let_def intro: keeps_trans)
qed (simp add: keeps_def)

lemma correlate_clusters_good:
  "good d \<Longrightarrow> \<forall>g \<in> set gs. known_events d (snd g) \<Longrightarrow>
   correlate_clusters pystr window now gs c u d = (c', u', d') \<Longrightarrow> keeps d d'"
proof (induction gs arbitrary: c u d)
  case (Cons g gs)
  obtain b d1 where g: "correlate_cluster pystr window now g d = (b, d1)"
    by (cases "correlate_cluster pystr window now g d")
  have k: "keeps d d1" using Cons.prems(2) by (intro correlate_cluster_good [OF _ g]) simp
  note d1 = keepsD [OF k Cons.prems(1)]
  have "\<forall>g \<in> set gs. known_events d1 (snd g)"
    using Cons.prems(2) d1(2) unfolding known_events_def by fastforce
  with Cons.IH [OF d1(1) this] Cons.prems(3) g show ?case
    by (cases b) (auto intro: keeps_trans [OF k])
qed simp

lemma run_correlation_good: "keeps d (snd (run_correlation pystr window now d))"
proof (cases "good d")
  case True
  have "\<forall>e \<in> set (events_unprocessed 200 d). valid_event e \<and> eid e < next_uuid d"
    using good_mem(5) [OF True] by (auto simp: events_unprocessed_def dest!: in_set_takeD)
  then have "\<forall>g \<in> set (group_by (signature_for pystr) (events_unprocessed 200 d)). known_events d (snd g)"
    unfolding known_events_def by (auto simp: group_by_elem)
  from correlate_clusters_good [OF True this] show ?thesis
    by (auto simp: run_correlation_def Let_def split: prod.splits)
qed (simp add: keeps_def)

lemma analyze_incidents_good:
  "good d \<Longrightarrow> \<forall>i \<in> set is. eid i < next_uuid d \<Longrightarrow> keeps d (snd (analyze_incidents now is n d))"
proof (induction "is" arbitrary: n d)
  case (Cons i "is")
  have "keeps d (d\<lparr>tb_incidents := tbl_save (apply_root_cause now c i) (tb_incidents d)\<rparr>)" for c
    using Cons.prems by (intro writes_good) (simp add: apply_root_cause_def touch_def)
  note k = this
  have "keeps d (snd (analyze_incidents now is m (d\<lparr>tb_incidents := tbl_save (apply_root_cause now c i) (tb_incidents d)\<rparr>)))" for c m
    using keeps_trans [OF k Cons.IH [OF keepsD(1) [OF k Cons.prems(1)]]] Cons.prems by simp
  then show ?case
    using Cons by (auto simp: Let_def split: sum.splits option.splits)
qed simp

lemma analyze_root_cause_good: "keeps d (snd (analyze_root_cause now d))"
proof (cases "good d")
  case True
  then show ?thesis
    using good_mem(6) [OF True] unfolding analyze_root_cause_def
    by (intro analyze_incidents_good) (auto simp: incidents_open_def)
qed (simp add: keeps_def)
section \<open>The reconciling scans\<close>

lemma reconcile_items_stored:
  assumes new: "\<And>i n. eid (new i n) = n" and refresh: "\<And>i e. eid (refresh i e) = eid e"
  shows "stored (\<lambda>_. True) n t \<Longrightarrow> \<forall>ke \<in> set ex. eid (snd ke) < n \<Longrightarrow>
    reconcile_items key new refresh items ex t n = (ex', t', n') \<Longrightarrow>
    stored (\<lambda>_. True) n' t' \<and> n \<le> n' \<and> (\<forall>ke \<in> set ex'. eid (snd ke) < n')"
proof (induction items arbitrary: ex t n)
  case (Cons i items)
  show ?case
  proof (cases "map_of ex (key i)")
    case None
    have "stored (\<lambda>_. True) (Suc n) (tbl_add (new i n) t)"
      using Cons.prems(1) new by (intro stored_add) simp_all
    moreover have "\<forall>ke \<in> set ex. eid (snd ke) < Suc n"
      using Cons.prems(2) by auto
    ultimately show ?thesis
      using Cons.IH [of "Suc n" "tbl_add (new i n) t" ex] Cons.prems(3) None by simp
  next
    case (Some e)
    then have e: "eid (refresh i e) < n"
      using Cons.prems(2) refresh by (auto dest!: map_of_SomeD)
    then have "\<forall>ke \<in> set (dict_set (key i) (refresh i e) ex). eid (snd ke) < n"
      using Cons.prems(2) set_dict_set_subset [of "key i" "refresh i e" ex] by auto
    then show ?thesis
      using Cons.IH [OF stored_save [OF Cons.prems(1) TrueI e]] Cons.prems(3) Some by (simp add: Let_def)
  qed
qed simp

lemma retire_items_stored:
  assumes "\<And>e. eid (absent e) = eid e"
  shows "stored (\<lambda>_. True) n t \<Longrightarrow> \<forall>ke \<in> set ex. eid (snd ke) < n \<Longrightarrow>
    retire_items present absent seen ex t m = (t', m') \<Longrightarrow> stored (\<lambda>_. True) n t'"
proof (induction ex arbitrary: t m)
  case (Cons ke ex)
  obtain k e where ke: "ke = (k, e)" by (cases ke)
  have "stored (\<lambda>_. True) n (tbl_save (absent e) t)"
    using Cons.prems ke assms by (intro stored_save) auto
  then show ?case
    using Cons.IH Cons.prems ke by (auto split: if_splits)
qed simp

lemma reconcile_rows_stored:
  assumes "\<And>i n. eid (new i n) = n" "\<And>i e. eid (refresh i e) = eid e" "\<And>e. eid (absent e) = eid e"
    and "stored (\<lambda>_. True) n t" "set ex \<subseteq> set t"
    and "reconcile_rows row_key key new refresh present absent ex items t n = (m, t', n')"
  shows "n \<le> n' \<and> stored (\<lambda>_. True) n' t'"
proof -
  have ex: "\<forall>ke \<in> set (dict_by row_key ex). eid (snd ke) < n"
    using assms(5) stored_mem [OF assms(4)] by (auto dest!: dict_by_elem)
  obtain ex1 t1 n1 where one: "reconcile_items key new refresh items (dict_by row_key ex) t n = (ex1, t1, n1)"
    by (metis prod.exhaust)
  note s1 = reconcile_items_stored [where new = new and refresh = refresh, OF assms(1,2,4) ex one]
  show ?thesis
    using assms(6) one s1 retire_items_stored [where absent = absent, OF assms(3), of n1 t1 ex1]
    by (auto simp: reconcile_rows_def Let_def split: prod.splits)
qed

context reconcilable begin

lemma rows_stored:
  assumes "stored (\<lambda>_. True) n t" "set ex \<subseteq> set t"
    and "reconcile_rows row_key item_key (new own) refresh present absent ex items t n = (m, t', n')"
  shows "n \<le> n' \<and> stored (\<lambda>_. True) n' t'"
  using reconcile_rows_stored [where new = "new own" and refresh = refresh and absent = absent,
      OF new_id refresh_id absent_id assms] .

end

lemma reconcile_tables_good:
  "set ex1 \<subseteq> set (tb_plugins d) \<Longrightarrow> keeps d (snd (reconcile_plugins now own ex1 found1 d))"
  "set ex2 \<subseteq> set (tb_themes d) \<Longrightarrow> keeps d (snd (reconcile_themes now own ex2 found2 d))"
  "set ex3 \<subseteq> set (tb_config_items d) \<Longrightarrow> keeps d (snd (reconcile_config now own ex3 found3 d))"
  "keeps d (snd (reconcile_cron_jobs repr markers now own entries d))"
  by (auto simp: reconcile_plugins_def reconcile_themes_def reconcile_config_def reconcile_cron_jobs_def
      cron_jobs_by_installation_def Let_def good_def split: prod.split intro!: keeps_tables
      dest!: plug.rows_stored [rotated 2] them.rows_stored [rotated 2] conf.rows_stored [rotated 2]
        cron.rows_stored [rotated 2])

lemma inventory_installation_good: "keeps d (snd (inventory_installation sp st now w d))"
proof -
  obtain pf pr d1 where p: "reconcile_plugins now (eid w) (plugins_by_installation (eid w) d) (sp w) d = ((pf, pr), d1)"
    by (metis prod.exhaust)
  obtain tf tr d2 where t: "reconcile_themes now (eid w) (themes_by_installation (eid w) d) (st w) d1 = ((tf, tr), d2)"
    by (metis prod.exhaust)
  have "keeps d d1"
    using reconcile_tables_good(1) [of "plugins_by_installation (eid w) d" d now "eid w" "sp w"] p
    by (auto simp: plugins_by_installation_def)
  moreover have "tb_themes d1 = tb_themes d"
    using p by (auto simp: reconcile_plugins_def Let_def split: prod.splits)
  then have "keeps d1 d2"
    using reconcile_tables_good(2) [of "themes_by_installation (eid w) d" d1 now "eid w" "st w"] t
    by (auto simp: themes_by_installation_def)
  ultimately show ?thesis
    using p t by (auto simp: inventory_installation_def Let_def intro: keeps_trans)
qed

lemma run_inventory_scan_good: "keeps d (snd (run_inventory_scan sp st now d))"
proof -
  have "keeps d (snd (inventory_installations sp st now ws acc d))" for ws acc
  proof (induction ws arbitrary: acc d)
    case (Cons w ws)
    obtain r d1 where one: "inventory_installation sp st now w d = (r, d1)"
      by (cases "inventory_installation sp st now w d")
    have "keeps d d1" using inventory_installation_good [of d sp st now w] one by simp
    with Cons show ?case
      by (cases r, cases acc) (auto simp: one intro: keeps_trans)
  qed simp
  then show ?thesis by (auto simp: run_inventory_scan_def Let_def case_prod_beta)
qed

lemma run_configuration_scan_good: "keeps d (snd (run_configuration_scan scan now d))"
proof -
  have "keeps d (snd (config_installations scan now ws acc d))" for ws acc
  proof (induction ws arbitrary: acc d)
    case (Cons w ws)
    obtain r d1 where one: "reconcile_config now (eid w) (configs_by_installation (eid w) d) (scan w) d = (r, d1)"
      by (metis prod.exhaust)
    have "keeps d d1"
      using reconcile_tables_good(3) [of "configs_by_installation (eid w) d" d now "eid w" "scan w"] one
      by (auto simp: configs_by_installation_def)
    with Cons show ?case
      by (cases r, cases acc) (auto simp: one Let_def intro: keeps_trans)
  qed simp
  then show ?thesis by (auto simp: run_configuration_scan_def Let_def case_prod_beta)
qed

lemma keeps_event:
  assumes "valid_event (e (next_uuid d))" "eid (e (next_uuid d)) = next_uuid d"
  shows "keeps d (case uuid4 d of (i, d) \<Rightarrow> d\<lparr>tb_events := tbl_add (e i) (tb_events d)\<rparr>)"
  using assms by (auto simp: uuid4_def intro!: writes_good)

lemma emit_snapshot_good: "keeps d (emit_snapshot now own account d)"
  by (auto simp: emit_snapshot_def Let_def uuid4_def new_event_def valid_event_def list_all_iff opt_str_def
      split: option.split intro!: writes_good)

lemma wp_inventory_installations_good:
  "keeps d (snd (wp_inventory_installations repr markers read_crontab now ws r d))"
proof (induction ws arbitrary: r d)
  case (Cons w ws)
  have "keeps d (snd (wp_inventory_installations repr markers read_crontab now ws r'
      (emit_snapshot now a b (snd (reconcile_cron_jobs repr markers now own es d)))))" for r' a b own es
    using reconcile_tables_good(4) [of d repr markers now own es]
    by (rule keeps_trans [OF _ keeps_trans [OF emit_snapshot_good Cons.IH]])
  then show ?case
    using Cons.IH by (auto simp: Let_def case_prod_beta split: option.split)
qed simp

lemma run_wordpress_inventory_good: "keeps d (snd (run_wordpress_inventory repr markers read_crontab now d))"
  by (simp add: run_wordpress_inventory_def wp_inventory_installations_good)

section \<open>The detection jobs\<close>

lemma valid_job_events:
  "valid_event (observation_event version now s ob i)" "eid (observation_event version now s ob i) = i"
  "valid_event (audit_event now f i)" "eid (audit_event now f i) = i"
  "valid_event (forensic_event version now a ff i)" "eid (forensic_event version now a ff i) = i"
  "valid_event (cron_event now a j i)" "eid (cron_event now a j i) = i"
  by (simp_all add: valid_event_def observation_event_def audit_event_def forensic_event_def cron_event_def
      new_event_def Let_def list_all_iff opt_str_def split: option.split)

lemma audit_escalate_good:
  assumes "good d" "f \<in> set (tb_findings d)" "audit_escalate now f d = Inr (f', d')"
  shows "keeps d d'" "g \<in> set (tb_findings d) \<Longrightarrow> eid g \<noteq> eid f \<Longrightarrow> g \<in> set (tb_findings d')"
proof -
  have kept: "g \<in> set t \<Longrightarrow> eid g \<noteq> eid f \<Longrightarrow> g \<in> set (tbl_save (set_severity now CRITICAL f) t)" for t
    by (induction t) auto
  have "fi_severity f < CRITICAL \<Longrightarrow> evolves (tb_findings d) (set_severity now CRITICAL f)"
    by (rule evolves_mem [OF assms(2) finding_step.Escalate]) (simp add: escalate_severity_Inr)
  then show "keeps d d'" "g \<in> set (tb_findings d) \<Longrightarrow> eid g \<noteq> eid f \<Longrightarrow> g \<in> set (tb_findings d')"
    using assms good_mem(4) [OF assms(1,2)] kept
    by (auto simp: audit_escalate_def escalate_severity_Inr intro!: writes_good split: if_splits sum.splits)
qed

lemma audit_findings_good:
  "good d \<Longrightarrow> set fs \<subseteq> set (tb_findings d) \<Longrightarrow> distinct (map eid fs) \<Longrightarrow>
   keeps d (snd (audit_findings critical now fs ex fl d))"
proof (induction fs arbitrary: ex fl d)
  case (Cons f fs)
  show ?case
  proof (cases "audit_escalate now f d")
    case (Inl e)
    then show ?thesis using Cons by simp
  next
    case (Inr r)
    obtain f' d1 where r: "r = (f', d1)" by (cases r)
    let ?d2 = "d1\<lparr>next_uuid := Suc (next_uuid d1), tb_events := tbl_add (audit_event now f' (next_uuid d1)) (tb_events d1)\<rparr>"
    note esc = audit_escalate_good [OF Cons.prems(1) _ Inr [unfolded r]]
    have "keeps d d1" using Cons.prems by (intro esc(1)) simp
    also have "keeps d1 ?d2" by (intro writes_good valid_job_events)
    finally have k: "keeps d ?d2" .
    have "set fs \<subseteq> set (tb_findings ?d2)"
    proof
      fix g assume g: "g \<in> set fs"
      then have "eid g \<noteq> eid f" using Cons.prems(3) by (metis distinct.simps(2) image_eqI list.map(2) set_map)
      then show "g \<in> set (tb_findings ?d2)" using g Cons.prems(2) esc(2) by auto
    qed
    then show ?thesis
      using Cons.IH [OF keepsD(1) [OF k]] Cons.IH [of d] Cons.prems keeps_trans [OF k]
      by (simp add: Inr r uuid4_def)
  qed
qed simp

lemma findings_since_ids:
  assumes "good d"
  shows "set (findings_since since n d) \<subseteq> set (tb_findings d)" "distinct (map eid (findings_since since n d))"
proof -
  show "set (findings_since since n d) \<subseteq> set (tb_findings d)"
    by (auto simp: findings_since_def order_desc_def dest!: in_set_takeD)
  have "distinct (map eid (tb_findings d))"
    using assms by (simp add: good_def stored_def tbl_wf_def tbl_ids_def)
  then have "distinct (map eid (order_desc k (filter p (tb_findings d))))" for k p
    by (auto simp: distinct_map order_desc_def distinct_sort intro: inj_on_subset)
  then show "distinct (map eid (findings_since since n d))"
    by (simp add: findings_since_def take_map [symmetric] distinct_take)
qed

lemma analyze_wordpress_integrity_good: "keeps d (snd (analyze_wordpress_integrity critical lookback now d))"
proof (cases "good d")
  case True
  have "keeps d (snd (audit_findings critical now (findings_since since 500 d) 0 0 d))" for since
    by (intro audit_findings_good [OF True] findings_since_ids [OF True])
  from this [of "now - lookback * 60000000"] show ?thesis
    by (auto simp: analyze_wordpress_integrity_def split: prod.splits sum.splits)
qed (simp add: keeps_def)

lemma materialize_finding_good: "keeps d (snd (materialize_finding now a w f d))"
proof -
  have sha: "map_sum id Some x = Inr y \<longleftrightarrow> (\<exists>h. x = Inr h \<and> y = Some h)" for x :: "sha256_hash res" and y
    by (cases x) auto
  have fresh: "eid (new_finding i now (eid a) path ADDED CRITICAL None s now) = i" for i path s
    by (simp add: new_finding_def)
  show ?thesis
    by (auto simp: materialize_finding_def uuid4_def valid_rel_def valid_sha_def Let_def fresh sha
        intro!: writes_good valid_new_finding split: option.split sum.splits if_splits)
qed

lemma forensic_findings_good: "keeps d (snd (forensic_findings version now acc w fs d))"
proof (induction fs arbitrary: d)
  case (Cons f fs)
  let ?d1 = "d\<lparr>next_uuid := Suc (next_uuid d), tb_events :=
    tbl_add (forensic_event version now (wi_account_id w) f (next_uuid d)) (tb_events d)\<rparr>"
  have k: "keeps d ?d1" by (intro writes_good valid_job_events)
  show ?case
  proof (cases acc)
    case None
    then show ?thesis using keeps_trans [OF k Cons.IH] by (simp add: uuid4_def Let_def)
  next
    case (Some a)
    obtain x d2 where m: "materialize_finding now a w f ?d1 = (x, d2)" by (metis prod.exhaust)
    have "keeps d d2" using materialize_finding_good [of ?d1 now a w f] m by (auto intro: keeps_trans [OF k])
    then show ?thesis
      using keeps_trans [OF k Cons.IH] Cons.IH
      by (cases x) (auto simp: Some uuid4_def Let_def m intro: keeps_trans)
  qed
qed simp

lemma cron_alerts_good: "keeps d (cron_alerts now account js d)"
proof (induction js arbitrary: d)
  case (Cons j js)
  have "keeps d (d\<lparr>next_uuid := Suc (next_uuid d), tb_events := tbl_add (cron_event now account j (next_uuid d)) (tb_events d)\<rparr>)"
    by (intro writes_good valid_job_events)
  from keeps_trans [OF this Cons.IH] show ?case by (simp add: uuid4_def)
qed simp

lemma run_wordpress_forensic_scan_good: "keeps d (snd (run_wordpress_forensic_scan version now scanner d))"
proof -
  have "keeps d (snd (forensic_installations version now scanner ws r d))" for ws r
  proof (induction ws arbitrary: r d)
    case (Cons w ws)
    obtain x d1 where one: "forensic_findings version now (tbl_get (wi_account_id w) (tb_accounts d)) w (scanner w) d = (x, d1)"
      by (metis prod.exhaust)
    have "keeps d d1"
      using forensic_findings_good [of d version now "tbl_get (wi_account_id w) (tb_accounts d)" w "scanner w"] one by simp
    then show ?case
      using Cons keeps_trans [OF _ keeps_trans [OF cron_alerts_good Cons]]
      by (auto simp: one Let_def split: sum.split)
  qed simp
  then show ?thesis by (simp add: run_wordpress_forensic_scan_def)
qed
definition sound_observation :: "temp_file_observation \<Rightarrow> bool" where
  "sound_observation ob \<longleftrightarrow> valid_abs (to_absolute_path ob) \<and> pred_option valid_sha (to_sha256 ob)"

lemma valid_observation_sound: "valid_observation ob \<longleftrightarrow> sound_observation ob"
  by (simp add: valid_observation_def sound_observation_def)

text \<open>The scanner draws the identifiers of its observations before the use case stores them; the
  ones still to be stored are distinct, below the counter and not in the table.\<close>

definition pending :: "temp_file_observation list \<Rightarrow> db \<Rightarrow> bool" where
  "pending obs d \<longleftrightarrow> good d \<and> list_all sound_observation obs \<and> distinct (map eid obs) \<and>
     (\<forall>ob \<in> set obs. eid ob < next_uuid d \<and> eid ob \<notin> set (tbl_ids (tb_observations d)))"

lemma pending_store:
  assumes "pending (ob # obs) d"
  shows "pending obs (d\<lparr>tb_observations := tbl_add ob (tb_observations d)\<rparr>)"
proof -
  have "stored valid_observation (next_uuid d) (tbl_add ob (tb_observations d))"
    using assms by (auto simp: pending_def good_def stored_def tbl_wf_def tbl_add_def tbl_ids_def valid_observation_sound)
  then show ?thesis
    using assms by (auto simp: pending_def good_def tbl_add_def tbl_ids_def) (metis imageI)
qed

lemma pending_event:
  assumes "pending obs d"
  shows "pending obs (d\<lparr>next_uuid := Suc (next_uuid d),
    tb_events := tbl_add (observation_event version now s ob (next_uuid d)) (tb_events d)\<rparr>)"
proof -
  have "keeps d (d\<lparr>next_uuid := Suc (next_uuid d),
    tb_events := tbl_add (observation_event version now s ob (next_uuid d)) (tb_events d)\<rparr>)"
    by (intro writes_good valid_job_events)
  with assms show ?thesis by (auto simp: pending_def keeps_def)
qed

lemma observe_files_good: "pending obs d \<Longrightarrow> keeps d (snd (observe_files version now obs n m d))"
proof (induction obs arbitrary: n m d)
  case (Cons ob obs)
  let ?d1 = "d\<lparr>tb_observations := tbl_add ob (tb_observations d)\<rparr>"
  let ?d2 = "\<lambda>s. ?d1\<lparr>next_uuid := Suc (next_uuid ?d1),
    tb_events := tbl_add (observation_event version now s ob (next_uuid ?d1)) (tb_events ?d1)\<rparr>"
  have skip: "pending obs d" using Cons.prems by (auto simp: pending_def)
  note p1 = pending_store [OF Cons.prems]
  then have k1: "keeps d ?d1" by (simp add: keeps_def pending_def)
  have k2: "keeps d (?d2 s)" for s by (intro keeps_trans [OF k1] writes_good valid_job_events)
  show ?case
    using Cons.IH [OF skip] keeps_trans [OF k1 Cons.IH [OF p1]]
      keeps_trans [OF k2 Cons.IH [OF pending_event [OF p1, of version now _ ob]]]
    by (auto simp: uuid4_def Let_def split: option.split)
qed simp

lemma stamp_ids_eids: "map eid (stamp_ids n obs) = [n..<n + length obs]"
  by (induction obs arbitrary: n) (simp_all add: upt_conv_Cons del: upt_Suc)

lemma stamp_ids_sound: "list_all sound_observation obs \<Longrightarrow> list_all sound_observation (stamp_ids n obs)"
  by (induction obs arbitrary: n) (simp_all add: sound_observation_def)

lemma scan_temp_directories_good:
  assumes "list_all sound_observation found"
  shows "keeps d (snd (scan_temp_directories version now found d))"
proof (cases "good d")
  case True
  let ?d = "d\<lparr>next_uuid := next_uuid d + length found\<rparr>" and ?obs = "stamp_ids (next_uuid d) found"
  have ids: "eid ` set ?obs = {next_uuid d..<next_uuid d + length found}"
    using arg_cong [OF stamp_ids_eids [of "next_uuid d" found], of set] by simp
  have "eid ob < next_uuid d + length found \<and> eid ob \<notin> set (tbl_ids (tb_observations d))" if "ob \<in> set ?obs" for ob
  proof -
    from that ids have "next_uuid d \<le> eid ob" "eid ob < next_uuid d + length found" by auto
    then show ?thesis using True by (auto simp: good_def stored_def tbl_wf_def tbl_ids_def list_all_iff)
  qed
  moreover have "good ?d" using True by (auto simp: good_def intro: stored_mono)
  ultimately have "pending ?obs ?d"
    using stamp_ids_sound [OF assms] stamp_ids_eids [of "next_uuid d" found] by (simp add: pending_def)
  then have "keeps ?d (snd (observe_files version now ?obs 0 0 ?d))" by (rule observe_files_good)
  moreover have "keeps d ?d" using \<open>good ?d\<close> by (simp add: keeps_def)
  ultimately show ?thesis
    by (auto simp: scan_temp_directories_def Let_def split: prod.split intro: keeps_trans)
qed (simp add: keeps_def)

end
