(* ===== verification/File_Quarantine.thy ===== *)
theory File_Quarantine
  imports Path_Resolution Remediation
begin

text \<open>
  \<open>infrastructure/filesystem/_quarantine_ops.py\<close> with
  \<open>FilesystemFileRemediator\<close> and \<open>LocalFileRemediator\<close>: moving a file into its
  incident folder, putting it back, erasing it. The state is a directory tree
  and a script of faults: every system call that can fail takes the next entry
  of the script and fails with it when it is an error, so a statement about all
  scripts is one about every point at which the disk may fail. Directories
  carry no permission bits; a call that only asks (\<open>is_file\<close>, \<open>exists\<close>, ...)
  does not fail.
\<close>

section \<open>The file system\<close>

record fs =
  fs_tree :: tree
  fs_faults :: "os_fault option list"
  fs_uuids :: "uuid list"

text \<open>What the code takes from the platform: the text of an exception, the
  formatting of instants, SHA-256, \<open>json.dumps\<close>, the process's user and group
  and the permission bits of a file it creates.\<close>

record platform =
  pf_error :: "os_fault \<Rightarrow> path \<Rightarrow> string"
  pf_stamp :: "datetime \<Rightarrow> string"
  pf_iso :: "datetime \<Rightarrow> string"
  pf_sha256 :: "string \<Rightarrow> string"
  pf_dumps :: "json \<Rightarrow> string"
  pf_loads :: "string \<Rightarrow> json option"
  pf_uid :: int
  pf_gid :: int
  pf_new_mode :: "12 word"

type_synonym 'a io = "fs \<Rightarrow> (os_fault + 'a) \<times> fs"

definition sys :: "'a io \<Rightarrow> 'a io" where
  "sys op s =
     (case fs_faults s of
        [] \<Rightarrow> op s
      | None # fl \<Rightarrow> op (s\<lparr>fs_faults := fl\<rparr>)
      | Some e # fl \<Rightarrow> (Inl e, s\<lparr>fs_faults := fl\<rparr>))"

definition and_then :: "'a io \<Rightarrow> ('a \<Rightarrow> 'b io) \<Rightarrow> 'b io" where
  "and_then m k s = (case m s of (Inl e, s) \<Rightarrow> (Inl e, s) | (Inr x, s) \<Rightarrow> k x s)"

definition draw_uuid :: "fs \<Rightarrow> uuid \<times> fs" where
  "draw_uuid s = (case fs_uuids s of [] \<Rightarrow> (0, s) | u # us \<Rightarrow> (u, s\<lparr>fs_uuids := us\<rparr>))"

section \<open>System calls\<close>

text \<open>The place a path names when its last component is not followed.\<close>

definition lpath :: "tree \<Rightarrow> path \<Rightarrow> os_fault + path" where
  "lpath t p =
     (if p = [] then Inr []
      else case kstat t (butlast p) of
             Inl e \<Rightarrow> Inl e
           | Inr d \<Rightarrow> if node_of t d = Some Directory then Inr (d @ [last p]) else Inl ENOTDIR)"

definition is_symlink :: "tree \<Rightarrow> path \<Rightarrow> bool" where
  "is_symlink t p = (case lpath t p of Inl _ \<Rightarrow> False | Inr q \<Rightarrow> is_link t q)"

definition is_file :: "tree \<Rightarrow> path \<Rightarrow> bool" where
  "is_file t p = (case kstat t p of Inl _ \<Rightarrow> False
     | Inr q \<Rightarrow> (case node_of t q of Some (Regular _) \<Rightarrow> True | _ \<Rightarrow> False))"

definition is_dir :: "tree \<Rightarrow> path \<Rightarrow> bool" where
  "is_dir t p = (case kstat t p of Inl _ \<Rightarrow> False | Inr q \<Rightarrow> node_of t q = Some Directory)"

definition path_exists :: "tree \<Rightarrow> path \<Rightarrow> bool" where
  "path_exists t p = (case kstat t p of Inl _ \<Rightarrow> False | Inr q \<Rightarrow> node_of t q \<noteq> None)"

definition put :: "path \<Rightarrow> node \<Rightarrow> fs \<Rightarrow> fs" where
  "put p x s = s\<lparr>fs_tree := dict_set p x (fs_tree s)\<rparr>"

definition del :: "path \<Rightarrow> fs \<Rightarrow> fs" where
  "del p s = s\<lparr>fs_tree := filter (\<lambda>(q, _). q \<noteq> p) (fs_tree s)\<rparr>"

definition os_read :: "path \<Rightarrow> file_data io" where
  "os_read p s =
     (case kstat (fs_tree s) p of Inl e \<Rightarrow> (Inl e, s)
      | Inr q \<Rightarrow> (case node_of (fs_tree s) q of
                    Some (Regular f) \<Rightarrow> (Inr f, s) | Some Directory \<Rightarrow> (Inl EISDIR, s) | _ \<Rightarrow> (Inl ENOENT, s)))"

definition os_mkdir :: "path \<Rightarrow> unit io" where
  "os_mkdir p s =
     (case lpath (fs_tree s) p of Inl e \<Rightarrow> (Inl e, s)
      | Inr q \<Rightarrow> if node_of (fs_tree s) q \<noteq> None then (Inl EEXIST, s) else (Inr (), put q Directory s))"

text \<open>\<open>rename\<close> of something that is not a directory replaces whatever file is at
  the new name.\<close>

definition os_rename :: "path \<Rightarrow> path \<Rightarrow> unit io" where
  "os_rename src dst s =
     (case (lpath (fs_tree s) src, lpath (fs_tree s) dst) of
        (Inl e, _) \<Rightarrow> (Inl e, s)
      | (_, Inl e) \<Rightarrow> (Inl e, s)
      | (Inr p, Inr q) \<Rightarrow>
          (case node_of (fs_tree s) p of
             None \<Rightarrow> (Inl ENOENT, s)
           | Some Directory \<Rightarrow> (Inl (EOTHER 0), s)
           | Some x \<Rightarrow> if p = q then (Inr (), s)
                       else if node_of (fs_tree s) q = Some Directory then (Inl EISDIR, s)
                       else (Inr (), put q x (del p s))))"

text \<open>\<open>open(p, "w")\<close> creates or truncates.\<close>

definition os_create :: "platform \<Rightarrow> path \<Rightarrow> unit io" where
  "os_create pf p s =
     (case kstat (fs_tree s) p of
        Inr q \<Rightarrow> (case node_of (fs_tree s) q of
                    Some (Regular f) \<Rightarrow> (Inr (), put q (Regular (f\<lparr>f_bytes := []\<rparr>)) s)
                  | _ \<Rightarrow> (Inl EISDIR, s))
      | Inl e \<Rightarrow> (case lpath (fs_tree s) p of
                    Inl e \<Rightarrow> (Inl e, s)
                  | Inr q \<Rightarrow> if node_of (fs_tree s) q \<noteq> None then (Inl e, s)
                      else (Inr (), put q (Regular \<lparr>f_bytes = [], f_mode = pf_new_mode pf,
                              f_uid = pf_uid pf, f_gid = pf_gid pf\<rparr>) s)))"

text \<open>Calls that change the file a path leads to.\<close>

definition on_file :: "(file_data \<Rightarrow> file_data) \<Rightarrow> path \<Rightarrow> unit io" where
  "on_file change p s =
     (case kstat (fs_tree s) p of Inl e \<Rightarrow> (Inl e, s)
      | Inr q \<Rightarrow> (case node_of (fs_tree s) q of
                    Some (Regular f) \<Rightarrow> (Inr (), put q (Regular (change f)) s)
                  | _ \<Rightarrow> (Inr (), s)))"

abbreviation os_write :: "string \<Rightarrow> path \<Rightarrow> unit io" where
  "os_write bytes \<equiv> on_file (\<lambda>f. f\<lparr>f_bytes := bytes\<rparr>)"

abbreviation os_chmod :: "12 word \<Rightarrow> path \<Rightarrow> unit io" where
  "os_chmod mode \<equiv> on_file (\<lambda>f. f\<lparr>f_mode := mode\<rparr>)"

abbreviation os_chown :: "int \<Rightarrow> int \<Rightarrow> path \<Rightarrow> unit io" where
  "os_chown uid gid \<equiv> on_file (\<lambda>f. f\<lparr>f_uid := uid, f_gid := gid\<rparr>)"

definition children :: "tree \<Rightarrow> path \<Rightarrow> path list" where
  "children t d = filter (\<lambda>p. p \<noteq> [] \<and> butlast p = d) (remdups (map fst t))"

definition os_unlink :: "path \<Rightarrow> unit io" where
  "os_unlink p s =
     (case lpath (fs_tree s) p of Inl e \<Rightarrow> (Inl e, s)
      | Inr q \<Rightarrow> (case node_of (fs_tree s) q of
                    None \<Rightarrow> (Inl ENOENT, s) | Some Directory \<Rightarrow> (Inl EISDIR, s) | Some _ \<Rightarrow> (Inr (), del q s)))"

text \<open>\<open>unlink\<close> or \<open>rmdir\<close> of a node at its physical path, as \<open>shutil.rmtree\<close> does.\<close>

definition os_remove :: "path \<Rightarrow> unit io" where
  "os_remove q s =
     (if node_of (fs_tree s) q = None then (Inl ENOENT, s)
      else if children (fs_tree s) q \<noteq> [] then (Inl ENOTEMPTY, s)
      else (Inr (), del q s))"

definition os_listdir :: "path \<Rightarrow> string list io" where
  "os_listdir p s =
     (case kstat (fs_tree s) p of Inl e \<Rightarrow> (Inl e, s)
      | Inr q \<Rightarrow> if node_of (fs_tree s) q = Some Directory
                  then (Inr (map last (children (fs_tree s) q)), s) else (Inl ENOTDIR, s))"

section \<open>\<open>pathlib\<close> and \<open>shutil\<close>\<close>

text \<open>\<open>path.mkdir(parents=True, exist_ok=...)\<close>; the path is given from its end.\<close>

fun mkdir_parents :: "bool \<Rightarrow> string list \<Rightarrow> unit io" where
  "mkdir_parents exist_ok [] s =
     (case sys (os_mkdir []) s of
        (Inl e, s) \<Rightarrow> if e \<noteq> ENOENT \<and> exist_ok then (Inr (), s) else (Inl e, s)
      | r \<Rightarrow> r)"
| "mkdir_parents exist_ok (c # up) s =
     (let p = rev (c # up) in
      case sys (os_mkdir p) s of
        (Inr _, s) \<Rightarrow> (Inr (), s)
      | (Inl ENOENT, s) \<Rightarrow>
          (case mkdir_parents True up s of
             (Inl e, s) \<Rightarrow> (Inl e, s)
           | (Inr _, s) \<Rightarrow>
               (case sys (os_mkdir p) s of
                  (Inl e, s) \<Rightarrow> if e \<noteq> ENOENT \<and> exist_ok \<and> is_dir (fs_tree s) p then (Inr (), s) else (Inl e, s)
                | r \<Rightarrow> r))
      | (Inl e, s) \<Rightarrow> if exist_ok \<and> is_dir (fs_tree s) p then (Inr (), s) else (Inl e, s))"

text \<open>\<open>shutil.copy2\<close> of a file: the copy belongs to the process.\<close>

definition copy2 :: "platform \<Rightarrow> path \<Rightarrow> path \<Rightarrow> unit io" where
  "copy2 pf src dst =
     and_then (sys (os_read src)) (\<lambda>f.
     and_then (sys (os_create pf dst)) (\<lambda>_.
     and_then (sys (os_write (f_bytes f) dst)) (\<lambda>_.
     sys (os_chmod (f_mode f) dst))))"

text \<open>\<open>shutil.move\<close> of a file or link: renamed, or copied and unlinked where the
  kernel refuses to rename. (The fallback for links and directories, which the
  callers never move, fails here.)\<close>

definition move_to :: "platform \<Rightarrow> path \<Rightarrow> path \<Rightarrow> unit io" where
  "move_to pf src dst s =
     (case sys (os_rename src dst) s of
        (Inr _, s) \<Rightarrow> (Inr (), s)
      | (Inl e, s) \<Rightarrow>
          if is_symlink (fs_tree s) src \<or> is_dir (fs_tree s) src then (Inl e, s)
          else and_then (copy2 pf src dst) (\<lambda>_. sys (os_unlink src)) s)"

definition shutil_move :: "platform \<Rightarrow> path \<Rightarrow> path \<Rightarrow> unit io" where
  "shutil_move pf src dst s =
     (if is_dir (fs_tree s) dst
      then if path_exists (fs_tree s) (dst @ [last src]) then (Inl (EOTHER 1), s)
           else move_to pf src (dst @ [last src]) s
      else move_to pf src dst s)"

text \<open>\<open>shutil.rmtree\<close>: everything below the folder, children before their
  parents; with \<open>ignore_errors\<close> what cannot be removed stays.\<close>

definition rm_order :: "tree \<Rightarrow> path \<Rightarrow> path list" where
  "rm_order t d = rev (sort_key length (filter (\<lambda>p. take (length d) p = d) (remdups (map fst t))))"

fun rm_all :: "bool \<Rightarrow> path list \<Rightarrow> unit io" where
  "rm_all ignore [] s = (Inr (), s)"
| "rm_all ignore (p # ps) s =
     (case sys (os_remove p) s of
        (Inl e, s) \<Rightarrow> if ignore then rm_all ignore ps s else (Inl e, s)
      | (Inr _, s) \<Rightarrow> rm_all ignore ps s)"

definition rmtree :: "bool \<Rightarrow> path \<Rightarrow> unit io" where
  "rmtree ignore p s =
     (case lpath (fs_tree s) p of
        Inl e \<Rightarrow> if ignore then (Inr (), s) else (Inl e, s)
      | Inr q \<Rightarrow>
          (case node_of (fs_tree s) q of
             Some Directory \<Rightarrow> rm_all ignore (rm_order (fs_tree s) q) s
           | None \<Rightarrow> if ignore then (Inr (), s) else (Inl ENOENT, s)
           | Some _ \<Rightarrow> if ignore then (Inr (), s) else (Inl ENOTDIR, s)))"

definition write_text :: "platform \<Rightarrow> string \<Rightarrow> path \<Rightarrow> unit io" where
  "write_text pf content p = and_then (sys (os_create pf p)) (\<lambda>_. sys (os_write content p))"

section \<open>\<open>_quarantine_ops\<close>\<close>

definition metadata_filename :: string where
  "metadata_filename = ''metadata.json''"

fun malware_score :: "severity \<Rightarrow> int" where
  "malware_score CRITICAL = 100"
| "malware_score HIGH = 80"
| "malware_score MEDIUM = 60"
| "malware_score LOW = 40"
| "malware_score INFO = 20"

definition resolve_contained :: "tree \<Rightarrow> path \<Rightarrow> path \<Rightarrow> string \<Rightarrow> path res" where
  "resolve_contained t p base description =
     (case resolve t base of Inl e \<Rightarrow> Inl e | Inr resolved_root \<Rightarrow>
      case resolve t p of
        Inl (OSError m) \<Rightarrow> Inl (FileRemediationError (''Cannot resolve '' @ description @ '': '' @ m))
      | Inl e \<Rightarrow> Inl e
      | Inr resolved \<Rightarrow>
          if take (length resolved_root) resolved \<noteq> resolved_root
          then Inl (FileRemediationError (description @ '' escapes expected root '' @ path_str resolved_root @
                 '': '' @ path_str resolved))
          else Inr resolved)"

text \<open>\<open>format(mode, "03o")\<close> of the nine permission bits, and \<open>int(mode, 8)\<close> on octal
  digits.\<close>

definition mode_str :: "12 word \<Rightarrow> string" where
  "mode_str m = (let n = unat (and m 0x1FF) in
     [digit_char (n div 64), digit_char (n div 8 mod 8), digit_char (n mod 8)])"

definition octal_digit :: "char \<Rightarrow> nat option" where
  "octal_digit c = (let n = of_char c in if 48 \<le> n \<and> n \<le> 55 then Some (n - 48) else None)"

fun octal_from :: "nat \<Rightarrow> string \<Rightarrow> nat option" where
  "octal_from n [] = Some n"
| "octal_from n (c # cs) = (case octal_digit c of None \<Rightarrow> None | Some d \<Rightarrow> octal_from (8 * n + d) cs)"

definition int_octal :: "string \<Rightarrow> nat option" where
  "int_octal s = (if s = [] then None else octal_from 0 s)"

text \<open>Both reads of the file (\<open>stat\<close> and the hash) see the same file.\<close>

definition quarantine_metadata ::
    "platform \<Rightarrow> path \<Rightarrow> file_data \<Rightarrow> string \<Rightarrow> severity \<Rightarrow> datetime \<Rightarrow> json" where
  "quarantine_metadata pf source st detection_reason sev detected_at =
     JObj [(''original_path'', JStr (path_str source)), (''filename'', JStr (last source)),
       (''sha256'', JStr (pf_sha256 pf (f_bytes st))), (''detection_reason'', JStr detection_reason),
       (''severity'', JStr (severity_value sev)), (''malware_score'', JInt (malware_score sev)),
       (''quarantined_at'', JStr (pf_iso pf detected_at)), (''mode'', JStr (mode_str (f_mode st))),
       (''owner_uid'', JInt (f_uid st)), (''owner_gid'', JInt (f_gid st)),
       (''size_bytes'', JInt (int (length (f_bytes st))))]"

text \<open>The incident folder: a name that is taken gets eight random digits.\<close>

definition incident_dir :: "platform \<Rightarrow> path \<Rightarrow> path \<Rightarrow> datetime \<Rightarrow> fs \<Rightarrow> path \<times> fs" where
  "incident_dir pf source quarantine_dir detected_at s =
     (let folder_name = pf_stamp pf detected_at @ ''-'' @ last source
      in if path_exists (fs_tree s) (quarantine_dir @ [folder_name])
         then (let (u, s) = draw_uuid s
               in (quarantine_dir @ [folder_name @ ''-'' @ take 8 (hex_digits 32 u)], s))
         else (quarantine_dir @ [folder_name], s))"

definition store_incident :: "platform \<Rightarrow> path \<Rightarrow> path \<Rightarrow> json \<Rightarrow> unit io" where
  "store_incident pf source dir metadata =
     and_then (mkdir_parents False (rev dir)) (\<lambda>_.
     and_then (shutil_move pf source (dir @ [last source])) (\<lambda>_.
     and_then (sys (os_chmod 0x180 (dir @ [last source]))) (\<lambda>_.
     and_then (write_text pf (pf_dumps pf metadata) (dir @ [metadata_filename])) (\<lambda>_.
     sys (os_chmod 0x180 (dir @ [metadata_filename]))))))"

definition quarantine_file ::
    "platform \<Rightarrow> path \<Rightarrow> path \<Rightarrow> string \<Rightarrow> severity \<Rightarrow> datetime \<Rightarrow> fs \<Rightarrow> quarantined_file res \<times> fs" where
  "quarantine_file pf source quarantine_dir detection_reason sev detected_at s =
     (if is_symlink (fs_tree s) source \<or> \<not> is_file (fs_tree s) source
      then (Inl (FileRemediationError (''Not a regular file: '' @ path_str source)), s)
      else case and_then (sys (os_read source)) (\<lambda>_. sys (os_read source)) s of
             (Inl e, s) \<Rightarrow>
               (Inl (FileRemediationError (''Cannot read '' @ path_str source @ '': '' @ pf_error pf e source)), s)
           | (Inr st, s) \<Rightarrow>
               (let (dir, s) = incident_dir pf source quarantine_dir detected_at s
                in case store_incident pf source dir
                          (quarantine_metadata pf source st detection_reason sev detected_at) s of
                     (Inl e, s) \<Rightarrow>
                       (Inl (FileRemediationError
                          (''Cannot quarantine '' @ path_str source @ '': '' @ pf_error pf e source)), s)
                   | (Inr _, s) \<Rightarrow>
                       (Inr \<lparr>qf_quarantine_path = path_str dir, qf_mode = mode_str (f_mode st),
                             qf_size_bytes = int (length (f_bytes st)), qf_owner_uid = f_uid st,
                             qf_owner_gid = f_gid st\<rparr>, s)))"

definition read_metadata :: "platform \<Rightarrow> string \<Rightarrow> fs \<Rightarrow> json res \<times> fs" where
  "read_metadata pf quarantine_path s =
     (let p = path_parts quarantine_path @ [metadata_filename]
      in case sys (os_read p) s of
           (Inl e, s) \<Rightarrow> (Inl (FileRemediationError (''Cannot read quarantine metadata: '' @ pf_error pf e p)), s)
         | (Inr f, s) \<Rightarrow>
             (case pf_loads pf (f_bytes f) of
                None \<Rightarrow> (Inl (OtherError ''JSONDecodeError''), s)
              | Some j \<Rightarrow> (Inr j, s)))"

definition quarantined_file_path :: "platform \<Rightarrow> string \<Rightarrow> fs \<Rightarrow> path res \<times> fs" where
  "quarantined_file_path pf quarantine_path s =
     (let folder = path_parts quarantine_path
      in case sys (os_listdir folder) s of
           (Inl e, s) \<Rightarrow>
             (Inl (FileRemediationError
                (''Cannot read quarantine folder '' @ path_str folder @ '': '' @ pf_error pf e folder)), s)
         | (Inr names, s) \<Rightarrow>
             (case filter (\<lambda>n. n \<noteq> metadata_filename) names of
                [n] \<Rightarrow> (Inr (folder @ [n]), s)
              | ns \<Rightarrow> (Inl (FileRemediationError (''Expected exactly one quarantined file in '' @
                         path_str folder @ '', found '' @ nat_str (length ns))), s)))"

text \<open>\<open>with contextlib.suppress(PermissionError): os.chown(...)\<close>.\<close>

definition chown_suppressed :: "int option \<Rightarrow> int option \<Rightarrow> path \<Rightarrow> unit io" where
  "chown_suppressed uid gid p s =
     (case (uid, gid) of
        (Some u, Some g) \<Rightarrow>
          (case sys (os_chown u g p) s of (Inl EPERM, s) \<Rightarrow> (Inr (), s) | r \<Rightarrow> r)
      | _ \<Rightarrow> (Inr (), s))"

definition restore_file ::
    "platform \<Rightarrow> string \<Rightarrow> path \<Rightarrow> string \<Rightarrow> int option \<Rightarrow> int option \<Rightarrow> fs \<Rightarrow> unit res \<times> fs" where
  "restore_file pf quarantine_path destination mode owner_uid owner_gid s =
     (let folder = path_parts quarantine_path;
          failed = (\<lambda>e. Inl (FileRemediationError
                     (''Cannot restore to '' @ path_str destination @ '': '' @ pf_error pf e destination)))
      in if \<not> is_dir (fs_tree s) folder
         then (Inl (FileRemediationError (''Quarantine folder missing: '' @ path_str folder)), s)
         else case quarantined_file_path pf quarantine_path s of
                (Inl e, s) \<Rightarrow> (Inl e, s)
              | (Inr source, s) \<Rightarrow>
                  (case and_then (mkdir_parents True (rev (butlast destination)))
                          (\<lambda>_. shutil_move pf source destination) s of
                     (Inl e, s) \<Rightarrow> (failed e, s)
                   | (Inr _, s) \<Rightarrow>
                       (case int_octal mode of
                          None \<Rightarrow> (Inl (OtherError ''ValueError''), s)
                        | Some m \<Rightarrow>
                            (case and_then (sys (os_chmod (of_nat m) destination)) (\<lambda>_.
                                    and_then (chown_suppressed owner_uid owner_gid destination) (\<lambda>_.
                                    rmtree True folder)) s of
                               (Inl e, s) \<Rightarrow> (failed e, s)
                             | (Inr _, s) \<Rightarrow> (Inr (), s)))))"

definition purge_folder :: "platform \<Rightarrow> string \<Rightarrow> fs \<Rightarrow> unit res \<times> fs" where
  "purge_folder pf quarantine_path s =
     (let folder = path_parts quarantine_path
      in case rmtree False folder s of
           (Inr _, s) \<Rightarrow> (Inr (), s)
         | (Inl ENOENT, s) \<Rightarrow> (Inr (), s)
         | (Inl e, s) \<Rightarrow>
             (Inl (FileRemediationError (''Cannot purge '' @ path_str folder @ '': '' @ pf_error pf e folder)), s))"

section \<open>The remediators\<close>

definition root_quarantine ::
    "platform \<Rightarrow> path \<Rightarrow> string \<Rightarrow> path \<Rightarrow> relative_file_path \<Rightarrow> string \<Rightarrow> severity \<Rightarrow> datetime \<Rightarrow> fs \<Rightarrow>
     quarantined_file res \<times> fs" where
  "root_quarantine pf base whose quarantine_dir rel reason sev detected_at s =
     (case resolve_contained (fs_tree s) (base @ path_parts (rel_value rel)) base (rel_value rel @ '' under '' @ whose) of
        Inl e \<Rightarrow> (Inl e, s)
      | Inr source \<Rightarrow> quarantine_file pf source quarantine_dir reason sev detected_at s)"

definition root_restore ::
    "platform \<Rightarrow> path \<Rightarrow> string \<Rightarrow> path \<Rightarrow> relative_file_path \<Rightarrow> string \<Rightarrow> string \<Rightarrow> int option \<Rightarrow> int option \<Rightarrow> fs \<Rightarrow>
     unit res \<times> fs" where
  "root_restore pf base whose quarantine_root rel quarantine_path mode uid gid s =
     (case resolve_contained (fs_tree s) (base @ path_parts (rel_value rel)) base (rel_value rel @ '' under '' @ whose) of
        Inl e \<Rightarrow> (Inl e, s)
      | Inr destination \<Rightarrow>
          (case resolve_contained (fs_tree s) (path_parts quarantine_path) quarantine_root ''quarantine path'' of
             Inl e \<Rightarrow> (Inl e, s)
           | Inr source \<Rightarrow> restore_file pf (path_str source) destination mode uid gid s))"

definition root_purge :: "platform \<Rightarrow> path \<Rightarrow> string \<Rightarrow> fs \<Rightarrow> unit res \<times> fs" where
  "root_purge pf quarantine_root quarantine_path s =
     (case resolve_contained (fs_tree s) (path_parts quarantine_path) quarantine_root ''quarantine path'' of
        Inl e \<Rightarrow> (Inl e, s)
      | Inr p \<Rightarrow> purge_folder pf (path_str p) s)"

text \<open>\<open>FilesystemFileRemediator\<close>, for the use cases.\<close>

definition filesystem_remediator :: "platform \<Rightarrow> path \<Rightarrow> fs file_remediator" where
  "filesystem_remediator pf quarantine_root =
     \<lparr>rm_quarantine = (\<lambda>account rel reason sev detected_at.
        root_quarantine pf (path_parts (abs_value (ac_home_directory account)))
          (user_value (ac_username account) @ CHR 0x27 # ''s home directory'')
          (quarantine_root @ [user_value (ac_username account)]) rel reason sev detected_at),
      rm_restore = (\<lambda>account rel quarantine_path mode uid gid.
        root_restore pf (path_parts (abs_value (ac_home_directory account)))
          (user_value (ac_username account) @ CHR 0x27 # ''s home directory'')
          quarantine_root rel quarantine_path mode uid gid),
      rm_purge = root_purge pf quarantine_root\<rparr>"

text \<open>\<open>LocalFileRemediator\<close>, with no account.\<close>

definition local_quarantine ::
    "platform \<Rightarrow> path \<Rightarrow> path \<Rightarrow> relative_file_path \<Rightarrow> string \<Rightarrow> severity \<Rightarrow> datetime \<Rightarrow> fs \<Rightarrow>
     quarantined_file res \<times> fs" where
  "local_quarantine pf base quarantine_root = root_quarantine pf base (path_str base) quarantine_root"

definition local_restore ::
    "platform \<Rightarrow> path \<Rightarrow> path \<Rightarrow> relative_file_path \<Rightarrow> string \<Rightarrow> string \<Rightarrow> int option \<Rightarrow> int option \<Rightarrow> fs \<Rightarrow>
     unit res \<times> fs" where
  "local_restore pf base quarantine_root = root_restore pf base (path_str base) quarantine_root"

definition local_purge :: "platform \<Rightarrow> path \<Rightarrow> string \<Rightarrow> fs \<Rightarrow> unit res \<times> fs" where
  "local_purge = root_purge"

end
