(* ===== verification/File_Operations.thy ===== *)
theory File_Operations
  imports File_Quarantine
begin

text \<open>
  What the system calls and the \<open>pathlib\<close>/\<open>shutil\<close> routines of
  \<open>File_Quarantine\<close> do to a well-formed tree, for every script of faults: creating
  directories, writing and changing files, moving a file.
\<close>

section \<open>Trees\<close>

definition tree_wf :: "tree \<Rightarrow> bool" where
  "tree_wf t \<longleftrightarrow> list_all (\<lambda>(p, _). p \<noteq> [] \<and> normal p \<and> list_all part_ok p \<and>
     node_of t (butlast p) = Some Directory) t"

lemma node_of_Nil [simp]: "node_of t [] = Some Directory"
  by (simp add: node_of_def)

lemma node_of_set [simp]: "p \<noteq> [] \<Longrightarrow> node_of (dict_set p x t) q = (if q = p then Some x else node_of t q)"
  by (simp add: node_of_def)

lemma map_of_filter_ne: "map_of (filter (\<lambda>(q, _). q \<noteq> p) t) r = (if r = p then None else map_of t r)"
  by (induction t) auto

lemma node_of_del [simp]:
  "p \<noteq> [] \<Longrightarrow> node_of (filter (\<lambda>(q, _). q \<noteq> p) t) r = (if r = p then None else node_of t r)"
  by (simp add: node_of_def map_of_filter_ne)

lemma node_of_entry: "node_of t p = Some x \<Longrightarrow> p \<noteq> [] \<Longrightarrow> (p, x) \<in> set t"
  by (simp add: node_of_def map_of_SomeD)

lemma node_of_None: "p \<noteq> [] \<Longrightarrow> node_of t p = None \<longleftrightarrow> p \<notin> fst ` set t"
  by (simp add: node_of_def map_of_eq_None_iff)

lemma wf_entry:
  assumes "tree_wf t" "node_of t p = Some x"
  shows "normal p" "list_all part_ok p" "p \<noteq> [] \<Longrightarrow> node_of t (butlast p) = Some Directory"
  using assms node_of_entry[OF assms(2)] by (cases "p = []"; auto simp: tree_wf_def list_all_iff)+

lemma wf_prefix:
  "tree_wf t \<Longrightarrow> node_of t (p @ q) = Some x \<Longrightarrow> q \<noteq> [] \<Longrightarrow> node_of t p = Some Directory"
proof (induction q arbitrary: x rule: rev_induct)
  case (snoc c q)
  have "node_of t (p @ q) = Some Directory"
    using wf_entry(3)[OF snoc.prems(1,2)] by (simp add: butlast_append)
  then show ?case using snoc by (cases "q = []") auto
qed simp

lemma wf_take:
  "tree_wf t \<Longrightarrow> node_of t p = Some x \<Longrightarrow> k < length p \<Longrightarrow> node_of t (take k p) = Some Directory"
  using wf_prefix[of t "take k p" "drop k p" x] by simp

lemma wf_missing: "tree_wf t \<Longrightarrow> node_of t p \<noteq> Some Directory \<Longrightarrow> q \<noteq> [] \<Longrightarrow> node_of t (p @ q) = None"
  using wf_prefix by (metis not_None_eq)

text \<open>A path without links: on the way there are directories, or nothing yet.\<close>

definition plain :: "tree \<Rightarrow> path \<Rightarrow> bool" where
  "plain t p \<longleftrightarrow> (\<forall>k < length p. node_of t (take k p) = None \<or> node_of t (take k p) = Some Directory) \<and>
     \<not> is_link t p"

lemma plain_existing: "tree_wf t \<Longrightarrow> node_of t p = Some x \<Longrightarrow> \<not> is_link t p \<Longrightarrow> plain t p"
  by (simp add: plain_def wf_take)

lemma plain_snoc: "plain t (p @ [c]) \<Longrightarrow> plain t p \<and> (node_of t p = None \<or> node_of t p = Some Directory)"
  unfolding plain_def
proof (elim conjE, intro conjI)
  assume a: "\<forall>k<length (p @ [c]). node_of t (take k (p @ [c])) = None \<or> node_of t (take k (p @ [c])) = Some Directory"
  then show "\<forall>k<length p. node_of t (take k p) = None \<or> node_of t (take k p) = Some Directory"
    by (metis less_SucI length_append_singleton take_append diff_is_0_eq less_imp_le take0 append_Nil2)
  show "node_of t p = None \<or> node_of t p = Some Directory"
    using a[rule_format, of "length p"] by simp
  then show "\<not> is_link t p" by (auto simp: is_link_def)
qed

lemma kwalk_plain:
  assumes "tree_wf t"
  shows "normal p \<Longrightarrow> node_of t cur = Some Directory \<Longrightarrow>
     (\<forall>k < length p. node_of t (cur @ take k p) = None \<or> node_of t (cur @ take k p) = Some Directory) \<Longrightarrow>
     \<not> is_link t (cur @ p) \<Longrightarrow>
     kwalk n t cur p = (if node_of t (cur @ p) = None then Inl ENOENT else Inr (cur @ p))"
proof (induction p arbitrary: cur)
  case (Cons c p)
  have l: "\<not> is_link t (cur @ [c])"
    using Cons.prems(3)[rule_format, of 1] Cons.prems(4) by (cases p) (auto simp: is_link_def)
  show ?case
  proof (cases "node_of t (cur @ [c]) = None")
    case True
    then have "node_of t (cur @ c # p) = None"
      using wf_missing[OF assms, of "cur @ [c]" p] by (cases "p = []") simp_all
    then show ?thesis using True Cons.prems l by (simp add: kwalk_down)
  next
    case False
    show ?thesis
    proof (cases "p = []")
      case True
      then show ?thesis using False Cons.prems l by (simp add: kwalk_down)
    next
      case p: False
      then have d: "node_of t (cur @ [c]) = Some Directory"
        using False Cons.prems(3)[rule_format, of 1] by (cases p) auto
      have "\<forall>k < length p. node_of t ((cur @ [c]) @ take k p) = None \<or> node_of t ((cur @ [c]) @ take k p) = Some Directory"
      proof (intro allI impI)
        fix k assume "k < length p"
        then show "node_of t ((cur @ [c]) @ take k p) = None \<or> node_of t ((cur @ [c]) @ take k p) = Some Directory"
          using Cons.prems(3)[rule_format, of "Suc k"] by simp
      qed
      then show ?thesis using Cons.IH[of "cur @ [c]"] Cons.prems d l by (simp add: kwalk_down)
    qed
  qed
qed simp

lemma kstat_plain:
  "tree_wf t \<Longrightarrow> normal p \<Longrightarrow> plain t p \<Longrightarrow> kstat t p = (if node_of t p = None then Inl ENOENT else Inr p)"
  unfolding kstat_def plain_def by (subst kwalk_plain) simp_all

lemma kstat_node: "tree_wf t \<Longrightarrow> node_of t p = Some x \<Longrightarrow> \<not> is_link t p \<Longrightarrow> kstat t p = Inr p"
  using kstat_plain[of t p] plain_existing[of t p x] wf_entry(1)[of t p x] by simp

lemma lpath_plain:
  assumes "tree_wf t" "normal p" "plain t p" "p \<noteq> []"
  shows "lpath t p = (if node_of t (butlast p) = None then Inl ENOENT else Inr p)"
proof -
  obtain d c where p: "p = d @ [c]" using assms(4) by (cases p rule: rev_cases) auto
  have "plain t d" "node_of t d = None \<or> node_of t d = Some Directory"
    using plain_snoc assms(3) p by blast+
  then show ?thesis using assms p kstat_plain[of t d] by (auto simp: lpath_def)
qed

lemma lpath_node: "tree_wf t \<Longrightarrow> node_of t p = Some x \<Longrightarrow> p \<noteq> [] \<Longrightarrow> lpath t p = Inr p"
  using kstat_node[of t "butlast p" Directory] wf_entry(3)[of t p x] by (simp add: lpath_def is_link_def)

lemma wf_put:
  assumes "tree_wf t" "p \<noteq> []" "normal p" "list_all part_ok p" "node_of t (butlast p) = Some Directory"
    and "x = Directory \<or> node_of t p \<noteq> Some Directory"
  shows "tree_wf (dict_set p x t)"
  unfolding tree_wf_def list_all_iff
proof (rule ballI, clarify)
  fix q y assume q: "(q, y) \<in> set (dict_set p x t)"
  have "(q, y) = (p, x) \<or> (q, y) \<in> set t" using q set_dict_set_subset[of p x t] by blast
  then have n: "q \<noteq> []" "normal q" "list_all part_ok q" "node_of t (butlast q) = Some Directory"
    using assms by (auto simp: tree_wf_def list_all_iff)
  moreover have "node_of (dict_set p x t) (butlast q) = Some Directory"
    using assms(2,6) n(4) by auto
  ultimately show "q \<noteq> [] \<and> normal q \<and> Ball (set q) part_ok \<and> node_of (dict_set p x t) (butlast q) = Some Directory"
    by (simp add: list_all_iff)
qed

lemma wf_del:
  assumes "tree_wf t" "node_of t p \<noteq> Some Directory"
  shows "tree_wf (filter (\<lambda>(q, _). q \<noteq> p) t)"
proof -
  have "p \<noteq> []" using assms(2) by auto
  then show ?thesis using assms by (auto simp: tree_wf_def list_all_iff)
qed

lemma put_simps [simp]:
  "fs_tree (put p x s) = dict_set p x (fs_tree s)" "fs_faults (put p x s) = fs_faults s"
  "fs_tree (del p s) = filter (\<lambda>(q, _). q \<noteq> p) (fs_tree s)" "fs_faults (del p s) = fs_faults s"
  by (simp_all add: put_def del_def)

section \<open>Faults\<close>

lemma sys_reliable [simp]: "fs_faults s = [] \<Longrightarrow> sys op s = op s"
  by (simp add: sys_def)

text \<open>A system call either fails and changes nothing but the script, or is carried
  out.\<close>

lemma sys_cases:
  assumes "sys op s = (r, s')"
  obtains (fault) e where "r = Inl e" "fs_tree s' = fs_tree s"
  | (run) s1 where "fs_tree s1 = fs_tree s" "op s1 = (r, s')" "fs_faults s = [] \<Longrightarrow> fs_faults s1 = []"
proof (cases "fs_faults s")
  case Nil
  then show ?thesis using assms run[of s] by simp
next
  case (Cons x fl)
  then show ?thesis
    using assms fault run[of "s\<lparr>fs_faults := fl\<rparr>"] by (cases x) (auto simp: sys_def)
qed

lemma and_then_cases:
  assumes "and_then m k s = (r, s')"
  obtains (first) e where "m s = (Inl e, s')" "r = Inl e"
  | (both) x s1 where "m s = (Inr x, s1)" "k x s1 = (r, s')"
  using assms by (auto simp: and_then_def split: prod.splits sum.splits)

lemma and_then_Inr [simp]: "m s = (Inr x, s1) \<Longrightarrow> and_then m k s = k x s1"
  by (simp add: and_then_def)

section \<open>Creating directories\<close>

definition grown :: "path \<Rightarrow> tree \<Rightarrow> tree \<Rightarrow> bool" where
  "grown p t t' \<longleftrightarrow> (\<forall>q. node_of t' q = node_of t q \<or>
     (node_of t q = None \<and> node_of t' q = Some Directory \<and> (\<exists>k \<le> length p. q = take k p)))"

lemma grown_refl [simp]: "grown p t t"
  by (simp add: grown_def)

lemma grown_trans: "grown p t t' \<Longrightarrow> grown p t' t'' \<Longrightarrow> grown p t t''"
  unfolding grown_def by metis

lemma grown_longer: "grown p t t' \<Longrightarrow> grown (p @ q) t t'"
  unfolding grown_def
proof (intro allI)
  fix r assume g: "\<forall>q. node_of t' q = node_of t q \<or>
     (node_of t q = None \<and> node_of t' q = Some Directory \<and> (\<exists>k \<le> length p. q = take k p))"
  show "node_of t' r = node_of t r \<or>
     (node_of t r = None \<and> node_of t' r = Some Directory \<and> (\<exists>k \<le> length (p @ q). r = take k (p @ q)))"
    using g[rule_format, of r] by (metis append_take_drop_id le_trans length_append le_add1 take_append diff_is_0_eq take0 append_Nil2)
qed

lemma grown_kept: "grown p t t' \<Longrightarrow> node_of t q = Some x \<Longrightarrow> node_of t' q = Some x"
  unfolding grown_def by (metis option.distinct(1))

lemma grown_plain: "grown p t t' \<Longrightarrow> plain t q \<Longrightarrow> plain t' q"
  unfolding plain_def is_link_def grown_def
  by (metis (no_types, lifting) node.case(2) option.case(2))

lemma os_mkdir_plain:
  assumes "tree_wf (fs_tree s)" "normal p" "plain (fs_tree s) p"
  shows "os_mkdir p s =
    (if p \<noteq> [] \<and> node_of (fs_tree s) (butlast p) = None then (Inl ENOENT, s)
     else if node_of (fs_tree s) p \<noteq> None then (Inl EEXIST, s) else (Inr (), put p Directory s))"
  using lpath_plain[OF assms] by (cases "p = []") (simp_all add: os_mkdir_def lpath_def)

lemma put_directory:
  assumes "tree_wf t" "p \<noteq> []" "normal p" "list_all part_ok p" "node_of t (butlast p) = Some Directory" "node_of t p = None"
  shows "tree_wf (dict_set p Directory t)" "grown p t (dict_set p Directory t)"
  using assms by (auto simp: wf_put grown_def intro: exI[of _ "length p"])

lemma mkdir_once:
  assumes "sys (os_mkdir p) s = (r, s')"
    and "tree_wf (fs_tree s)" "normal p" "list_all part_ok p" "plain (fs_tree s) p"
  shows "tree_wf (fs_tree s') \<and> grown p (fs_tree s) (fs_tree s') \<and>
    (r = Inr () \<longrightarrow> node_of (fs_tree s) p = None \<and> node_of (fs_tree s') p = Some Directory) \<and>
    (r \<noteq> Inr () \<longrightarrow> fs_tree s' = fs_tree s) \<and>
    (fs_faults s = [] \<longrightarrow> fs_faults s' = [] \<and>
       r = (if p \<noteq> [] \<and> node_of (fs_tree s) (butlast p) = None then Inl ENOENT
            else if node_of (fs_tree s) p \<noteq> None then Inl EEXIST else Inr ()))"
  using assms(1)
proof (cases rule: sys_cases)
  case (fault e)
  moreover have "fs_faults s = [] \<Longrightarrow> fs_faults s' = [] \<and>
       r = (if p \<noteq> [] \<and> node_of (fs_tree s) (butlast p) = None then Inl ENOENT
            else if node_of (fs_tree s) p \<noteq> None then Inl EEXIST else Inr ())"
    using assms by (auto simp: os_mkdir_plain split: if_splits)
  ultimately show ?thesis using assms(2) by simp
next
  case (run s1)
  have d: "p = [] \<or> node_of (fs_tree s) (butlast p) = None \<or> node_of (fs_tree s) (butlast p) = Some Directory"
    using plain_snoc[of "fs_tree s" "butlast p" "last p"] assms(5) by (cases "p = []") auto
  have r: "(r, s') = (if p \<noteq> [] \<and> node_of (fs_tree s) (butlast p) = None then (Inl ENOENT, s1)
     else if node_of (fs_tree s) p \<noteq> None then (Inl EEXIST, s1) else (Inr (), put p Directory s1))"
    using os_mkdir_plain[of s1 p] run(1,2) assms(2,3,5) by simp
  show ?thesis
  proof (cases "p \<noteq> [] \<and> node_of (fs_tree s) (butlast p) = Some Directory \<and> node_of (fs_tree s) p = None")
    case True
    then have "r = Inr ()" "s' = put p Directory s1" using r by simp_all
    then show ?thesis
      using True run(1,3) put_directory[OF assms(2) _ assms(3,4)] by simp
  next
    case False
    then have "s' = s1 \<and> (\<exists>e. r = Inl e)" "r = (if p \<noteq> [] \<and> node_of (fs_tree s) (butlast p) = None then Inl ENOENT
            else if node_of (fs_tree s) p \<noteq> None then Inl EEXIST else Inr ())"
      using r d by (auto split: if_splits)
    then show ?thesis using run(1,3) assms(2) by (auto split: if_splits)
  qed
qed

definition made :: "bool \<Rightarrow> path \<Rightarrow> fs \<Rightarrow> os_fault + unit \<Rightarrow> fs \<Rightarrow> bool" where
  "made exist_ok p s r s' \<longleftrightarrow> tree_wf (fs_tree s') \<and> grown p (fs_tree s) (fs_tree s') \<and>
     (r = Inr () \<longrightarrow> node_of (fs_tree s') p = Some Directory \<and>
        (\<not> exist_ok \<longrightarrow> node_of (fs_tree s) p = None)) \<and>
     (fs_faults s = [] \<longrightarrow> fs_faults s' = [] \<and>
        (node_of (fs_tree s) p = None \<or> exist_ok \<and> node_of (fs_tree s) p = Some Directory \<longrightarrow> r = Inr ()))"

lemma is_dir_plain: "tree_wf t \<Longrightarrow> normal p \<Longrightarrow> plain t p \<Longrightarrow> is_dir t p \<longleftrightarrow> node_of t p = Some Directory"
  by (simp add: is_dir_def kstat_plain)

lemma is_dir_Nil: "is_dir t [] = True"
  by (simp add: is_dir_def kstat_def)

text \<open>The last attempt to create a directory, where an existing one may do.\<close>

lemma mkdir_last:
  assumes "(case sys (os_mkdir p) s of
      (Inl e, s) \<Rightarrow> if e \<noteq> ENOENT \<and> ok \<and> is_dir (fs_tree s) p then (Inr (), s) else (Inl e, s) | r \<Rightarrow> r) = (r, s')"
    and "tree_wf (fs_tree s)" "normal p" "list_all part_ok p" "plain (fs_tree s) p"
  shows "tree_wf (fs_tree s') \<and> grown p (fs_tree s) (fs_tree s') \<and>
    (r = Inr () \<longrightarrow> node_of (fs_tree s') p = Some Directory \<and> (\<not> ok \<longrightarrow> node_of (fs_tree s) p = None)) \<and>
    (fs_faults s = [] \<longrightarrow> fs_faults s' = [] \<and>
      (node_of (fs_tree s) (butlast p) = Some Directory \<longrightarrow>
       node_of (fs_tree s) p = None \<or> ok \<and> node_of (fs_tree s) p = Some Directory \<longrightarrow> r = Inr ()))"
proof -
  obtain r1 s1 where m: "sys (os_mkdir p) s = (r1, s1)" by fastforce
  note once = mkdir_once[OF m assms(2-5)]
  have pl: "is_dir (fs_tree s1) p \<longleftrightarrow> node_of (fs_tree s1) p = Some Directory"
    using once assms(3,5) by (intro is_dir_plain) (auto intro: grown_plain)
  have s': "s' = s1" and r: "r = (case r1 of Inl e \<Rightarrow> if e \<noteq> ENOENT \<and> ok \<and> is_dir (fs_tree s1) p then Inr () else Inl e | x \<Rightarrow> x)"
    using assms(1) m by (auto split: sum.splits if_splits)
  have kept: "node_of (fs_tree s) p = Some Directory \<Longrightarrow> node_of (fs_tree s1) p = Some Directory"
    using once grown_kept by blast
  show ?thesis
    using once pl r kept unfolding s' by (cases r1) (auto split: if_splits)
qed

lemma mkdir_parents_made:
  "mkdir_parents ok up s = (r, s') \<Longrightarrow> tree_wf (fs_tree s) \<Longrightarrow> normal (rev up) \<Longrightarrow> list_all part_ok (rev up) \<Longrightarrow>
   plain (fs_tree s) (rev up) \<Longrightarrow> made ok (rev up) s r s'"
proof (induction ok up s arbitrary: r s' rule: mkdir_parents.induct)
  case (1 ok s)
  have e: "(case sys (os_mkdir []) s of
      (Inl e, s) \<Rightarrow> if e \<noteq> ENOENT \<and> ok \<and> is_dir (fs_tree s) [] then (Inr (), s) else (Inl e, s) | r \<Rightarrow> r) = (r, s')"
    using "1.prems"(1) unfolding is_dir_Nil simp_thms by simp
  show ?case using mkdir_last[OF e "1.prems"(2-5)[unfolded rev.simps]] by (simp add: made_def)
next
  case (2 ok c up s)
  let ?p = "rev (c # up)" and ?d = "rev up"
  obtain r1 s1 where m: "sys (os_mkdir ?p) s = (r1, s1)" by fastforce
  note once = mkdir_once[OF m "2.prems"(2-5)]
  have up: "normal ?d" "list_all part_ok ?d" "plain (fs_tree s) ?d" using "2.prems" plain_snoc by auto
  have pl1: "plain (fs_tree s1) ?p" "tree_wf (fs_tree s1)" using once "2.prems"(5) grown_plain by blast+
  show ?case
  proof (cases "r1 = Inl ENOENT")
    case True
    obtain r2 s2 where u: "mkdir_parents True up s1 = (r2, s2)" by fastforce
    have "made True ?d s1 r2 s2"
      using "2.IH"[OF refl m[symmetric] True refl u] pl1 up grown_plain once plain_snoc by auto
    then have made: "tree_wf (fs_tree s2)" "grown ?d (fs_tree s1) (fs_tree s2)"
      "r2 = Inr () \<Longrightarrow> node_of (fs_tree s2) ?d = Some Directory"
      "fs_faults s1 = [] \<Longrightarrow> fs_faults s2 = [] \<and>
         (node_of (fs_tree s1) ?d = None \<or> node_of (fs_tree s1) ?d = Some Directory \<longrightarrow> r2 = Inr ())"
      by (auto simp: made_def)
    have g: "grown ?p (fs_tree s) (fs_tree s2)"
      using once grown_longer[OF made(2), of "[c]"] by (auto intro: grown_trans)
    have first: "fs_faults s = [] \<Longrightarrow> fs_faults s1 = [] \<and> r2 = Inr () \<and> fs_faults s2 = []"
    proof -
      assume "fs_faults s = []"
      then have f: "fs_faults s1 = []" "node_of (fs_tree s) ?d = None"
        using once True by (simp_all split: if_splits)
      moreover have "node_of (fs_tree s1) ?d = None \<or> node_of (fs_tree s1) ?d = Some Directory"
        using f(2) once unfolding grown_def by metis
      ultimately show ?thesis using made(4) by blast
    qed
    show ?thesis
    proof (cases r2)
      case (Inl e)
      then have "r = Inl e" "s' = s2" using "2.prems"(1) m True u by (simp_all add: Let_def)
      then show ?thesis using made g first Inl by (auto simp: made_def)
    next
      case (Inr x)
      have e: "(case sys (os_mkdir ?p) s2 of
          (Inl e, s) \<Rightarrow> if e \<noteq> ENOENT \<and> ok \<and> is_dir (fs_tree s) ?p then (Inr (), s) else (Inl e, s) | r \<Rightarrow> r) = (r, s')"
        using "2.prems"(1) m True u Inr unfolding rev.simps by (simp add: Let_def)
      note fin = mkdir_last[OF e made(1) "2.prems"(3,4) grown_plain[OF g "2.prems"(5)]]
      have kept: "node_of (fs_tree s2) ?p = node_of (fs_tree s) ?p \<or>
          node_of (fs_tree s) ?p = None \<and> node_of (fs_tree s2) ?p = Some Directory"
        using g unfolding grown_def by metis
      have fresh: "node_of (fs_tree s) ?p = None \<Longrightarrow> fs_faults s = [] \<Longrightarrow> node_of (fs_tree s2) ?p = None"
      proof -
        assume "node_of (fs_tree s) ?p = None"
        moreover have "fs_tree s1 = fs_tree s" using once True by simp
        moreover have "k \<le> length ?d \<Longrightarrow> ?p \<noteq> take k ?d" for k by (metis length_append_singleton length_take min.absorb2 not_less_eq_eq order_refl rev.simps(2))
        ultimately show ?thesis using made(2) unfolding grown_def by metis
      qed
      have "grown ?p (fs_tree s) (fs_tree s')" using fin g grown_trans by blast
      moreover have "\<not> ok \<Longrightarrow> r = Inr () \<Longrightarrow> node_of (fs_tree s) ?p = None"
        using fin kept by (metis option.distinct(1))
      moreover have "node_of (fs_tree s2) (butlast ?p) = Some Directory" using made(3) Inr by simp
      moreover have "fs_faults s = [] \<Longrightarrow> node_of (fs_tree s) ?p = Some Directory \<Longrightarrow> node_of (fs_tree s2) ?p = Some Directory"
        using kept by auto
      ultimately show ?thesis unfolding made_def using fin first fresh by blast
    qed
  next
    case False
    have e: "(case sys (os_mkdir ?p) s of
        (Inl e, s) \<Rightarrow> if e \<noteq> ENOENT \<and> ok \<and> is_dir (fs_tree s) ?p then (Inr (), s) else (Inl e, s) | r \<Rightarrow> r) = (r, s')"
    proof (cases r1)
      case (Inl x)
      then show ?thesis using "2.prems"(1) m False unfolding rev.simps by (cases x) (simp_all add: Let_def)
    next
      case (Inr x)
      then show ?thesis using "2.prems"(1) m unfolding rev.simps by (cases r) (simp_all add: Let_def)
    qed
    note fin = mkdir_last[OF e "2.prems"(2-5)]
    have "node_of (fs_tree s) (butlast ?p) = Some Directory" if f: "fs_faults s = []"
    proof -
      have "r1 = (if ?p \<noteq> [] \<and> node_of (fs_tree s) (butlast ?p) = None then Inl ENOENT
            else if node_of (fs_tree s) ?p \<noteq> None then Inl EEXIST else Inr ())"
        using once f by blast
      then have "node_of (fs_tree s) ?d \<noteq> None" using False by (cases "node_of (fs_tree s) ?d") simp_all
      then show ?thesis using plain_snoc[of "fs_tree s" ?d c] "2.prems"(5) by auto
    qed
    then show ?thesis unfolding made_def using fin by blast
  qed
qed

section \<open>Moving a file\<close>

lemma lpath_child: "tree_wf t \<Longrightarrow> p \<noteq> [] \<Longrightarrow> node_of t (butlast p) = Some Directory \<Longrightarrow> lpath t p = Inr p"
  using kstat_node[of t "butlast p" Directory] by (simp add: lpath_def is_link_def)

lemma regular_not_Nil: "node_of t p = Some (Regular f) \<Longrightarrow> p \<noteq> []"
  by auto

lemma regular_parent: "tree_wf t \<Longrightarrow> node_of t p = Some (Regular f) \<Longrightarrow> node_of t (butlast p) = Some Directory"
  using wf_entry(3) regular_not_Nil by blast

lemma regular_kstat [simp]: "tree_wf t \<Longrightarrow> node_of t p = Some (Regular f) \<Longrightarrow> kstat t p = Inr p"
  using kstat_node[of t p] by (simp add: is_link_def)

lemma regular_lpath [simp]: "tree_wf t \<Longrightarrow> node_of t p = Some (Regular f) \<Longrightarrow> lpath t p = Inr p"
  using lpath_node regular_not_Nil by blast

lemma missing_kstat:
  "tree_wf t \<Longrightarrow> p \<noteq> [] \<Longrightarrow> normal p \<Longrightarrow> node_of t (butlast p) = Some Directory \<Longrightarrow> node_of t p = None \<Longrightarrow>
   kstat t p = Inl ENOENT"
proof -
  assume a: "tree_wf t" "p \<noteq> []" "normal p" "node_of t (butlast p) = Some Directory" "node_of t p = None"
  have "plain t p"
  proof -
    have "node_of t (take k p) = Some Directory" if "k < length p" for k
    proof -
      obtain d c where p: "p = d @ [c]" using a(2) by (cases p rule: rev_cases) auto
      show ?thesis using that wf_take[OF a(1,4), of k] a(4) p by (cases "k = length d") auto
    qed
    then show ?thesis using a(5) by (simp add: plain_def is_link_def)
  qed
  then show ?thesis using a kstat_plain by simp
qed

lemma regular_tests:
  assumes "tree_wf t" "node_of t p = Some (Regular f)"
  shows "is_file t p" "\<not> is_dir t p" "\<not> is_symlink t p" "path_exists t p"
  using assms by (simp_all add: is_file_def is_dir_def is_symlink_def path_exists_def is_link_def)

lemma missing_tests:
  assumes "tree_wf t" "p \<noteq> []" "normal p" "node_of t (butlast p) = Some Directory" "node_of t p = None"
  shows "\<not> is_dir t p" "\<not> path_exists t p"
  using missing_kstat[OF assms] by (simp_all add: is_dir_def path_exists_def)

lemma os_read_regular: "tree_wf (fs_tree s) \<Longrightarrow> node_of (fs_tree s) p = Some (Regular f) \<Longrightarrow> os_read p s = (Inr f, s)"
  by (simp add: os_read_def)

lemma on_file_regular:
  "tree_wf (fs_tree s) \<Longrightarrow> node_of (fs_tree s) p = Some (Regular f) \<Longrightarrow>
   on_file ch p s = (Inr (), put p (Regular (ch f)) s)"
  by (simp add: on_file_def)

lemma os_unlink_regular:
  "tree_wf (fs_tree s) \<Longrightarrow> node_of (fs_tree s) p = Some (Regular f) \<Longrightarrow> os_unlink p s = (Inr (), del p s)"
  by (simp add: os_unlink_def)

text \<open>A place where a file can be put.\<close>

definition place :: "tree \<Rightarrow> path \<Rightarrow> bool" where
  "place t p \<longleftrightarrow> tree_wf t \<and> p \<noteq> [] \<and> normal p \<and> list_all part_ok p \<and> node_of t (butlast p) = Some Directory \<and>
     (node_of t p = None \<or> (\<exists>f. node_of t p = Some (Regular f)))"

lemma regular_place: "tree_wf t \<Longrightarrow> node_of t p = Some (Regular f) \<Longrightarrow> place t p"
  using wf_entry[of t p] regular_not_Nil by (auto simp: place_def)

lemma place_put: "place t p \<Longrightarrow> tree_wf (dict_set p (Regular f) t)"
  by (auto simp: place_def intro!: wf_put)

lemma os_rename_file:
  assumes "node_of (fs_tree s) src = Some (Regular f)" "place (fs_tree s) dst" "src \<noteq> dst"
  shows "os_rename src dst s = (Inr (), put dst (Regular f) (del src s))"
  using assms lpath_child[of "fs_tree s" dst] by (auto simp: os_rename_def place_def)

lemma os_create_place:
  assumes "place (fs_tree s) p"
  obtains g where "os_create pf p s = (Inr (), put p (Regular g) s)" "f_bytes g = []"
    "node_of (fs_tree s) p = None \<Longrightarrow> g = \<lparr>f_bytes = [], f_mode = pf_new_mode pf, f_uid = pf_uid pf, f_gid = pf_gid pf\<rparr>"
proof (cases "node_of (fs_tree s) p")
  case None
  then have "kstat (fs_tree s) p = Inl ENOENT" "lpath (fs_tree s) p = Inr p"
    using assms missing_kstat lpath_child by (auto simp: place_def)
  then show ?thesis using None that by (simp add: os_create_def)
next
  case (Some x)
  then obtain f where "node_of (fs_tree s) p = Some (Regular f)" using assms by (auto simp: place_def)
  then show ?thesis using that[of "f\<lparr>f_bytes := []\<rparr>"] assms by (simp add: os_create_def place_def)
qed

text \<open>Only the destination has been touched, and it holds a file or what it held.\<close>

definition touched :: "path \<Rightarrow> tree \<Rightarrow> tree \<Rightarrow> bool" where
  "touched dst t t' \<longleftrightarrow> tree_wf t' \<and> (\<forall>q. q \<noteq> dst \<longrightarrow> node_of t' q = node_of t q) \<and>
     (node_of t' dst = node_of t dst \<or> (\<exists>g. node_of t' dst = Some (Regular g)))"

lemma touched_refl: "tree_wf t \<Longrightarrow> touched p t t"
  by (simp add: touched_def)

lemma touched_trans: "touched p t t' \<Longrightarrow> touched p t' t'' \<Longrightarrow> touched p t t''"
  by (auto simp: touched_def)

lemma touched_put: "place t p \<Longrightarrow> touched p t (dict_set p (Regular f) t)"
  using place_put by (auto simp: touched_def place_def)

lemma touched_place: "place t p \<Longrightarrow> touched p t t' \<Longrightarrow> place t' p"
  unfolding place_def touched_def by (metis append_butlast_last_id append_self_conv not_Cons_self2)

lemma sys_create:
  assumes "sys (os_create pf p) s = (r, s')" "place (fs_tree s) p"
  shows "touched p (fs_tree s) (fs_tree s') \<and>
    (r = Inr () \<longrightarrow> (\<exists>g. node_of (fs_tree s') p = Some (Regular g) \<and>
       (node_of (fs_tree s) p = None \<longrightarrow> f_mode g = pf_new_mode pf \<and> f_uid g = pf_uid pf \<and> f_gid g = pf_gid pf))) \<and>
    (fs_faults s = [] \<longrightarrow> fs_faults s' = [] \<and> r = Inr ())"
  using assms(1)
proof (cases rule: sys_cases)
  case (fault e)
  obtain g where "os_create pf p s = (Inr (), put p (Regular g) s)" using os_create_place[OF assms(2)] by metis
  then have "fs_faults s \<noteq> []" using fault(1) assms(1) by auto
  then show ?thesis using fault assms(2) by (simp add: touched_refl place_def)
next
  case (run s1)
  obtain g where "os_create pf p s1 = (Inr (), put p (Regular g) s1)"
    "node_of (fs_tree s1) p = None \<Longrightarrow> g = \<lparr>f_bytes = [], f_mode = pf_new_mode pf, f_uid = pf_uid pf, f_gid = pf_gid pf\<rparr>"
    using os_create_place[of s1 p pf] assms(2) run(1) by metis
  then show ?thesis using run assms(2) touched_put[of "fs_tree s" p] by (auto simp: place_def)
qed

lemma sys_on_file:
  assumes "sys (on_file ch p) s = (r, s')" "tree_wf (fs_tree s)" "node_of (fs_tree s) p = Some (Regular f)"
  shows "touched p (fs_tree s) (fs_tree s') \<and>
    (r = Inr () \<longrightarrow> node_of (fs_tree s') p = Some (Regular (ch f))) \<and>
    (r \<noteq> Inr () \<longrightarrow> fs_tree s' = fs_tree s) \<and>
    (fs_faults s = [] \<longrightarrow> fs_faults s' = [] \<and> r = Inr ())"
  using assms(1)
proof (cases rule: sys_cases)
  case (fault e)
  then have "fs_faults s \<noteq> []" using assms on_file_regular[OF assms(2,3)] by auto
  then show ?thesis using fault assms(2) by (simp add: touched_refl)
next
  case (run s1)
  then have "(r, s') = (Inr (), put p (Regular (ch f)) s1)"
    using on_file_regular[of s1 p f ch] assms(2,3) by simp
  then show ?thesis
    using run assms touched_put[OF regular_place[OF assms(2,3)]] regular_not_Nil[OF assms(3)] by simp
qed

lemma sys_read:
  assumes "sys (os_read p) s = (r, s')" "tree_wf (fs_tree s)" "node_of (fs_tree s) p = Some (Regular f)"
  shows "fs_tree s' = fs_tree s \<and> (\<forall>x. r = Inr x \<longrightarrow> x = f) \<and> (fs_faults s = [] \<longrightarrow> s' = s \<and> r = Inr f)"
  using assms(1)
proof (cases rule: sys_cases)
  case (fault e)
  then have "fs_faults s \<noteq> []" using assms os_read_regular[OF assms(2,3)] by auto
  then show ?thesis using fault by simp
next
  case (run s1)
  then have "r = Inr f" "s' = s1" using os_read_regular[of s1 p f] assms(2,3) by simp_all
  moreover have "fs_faults s = [] \<Longrightarrow> s' = s" using assms(1) os_read_regular[OF assms(2,3)] by simp
  ultimately show ?thesis using run(1) by blast
qed

text \<open>A file \<open>f\<close> is being moved: until the move is over it is still at the source.\<close>

lemma copy2_file:
  assumes "copy2 pf src dst s = (r, s')"
    and "tree_wf (fs_tree s)" "node_of (fs_tree s) src = Some (Regular f)" "place (fs_tree s) dst" "src \<noteq> dst"
  shows "touched dst (fs_tree s) (fs_tree s') \<and>
    (r = Inr () \<longrightarrow> (\<exists>g. node_of (fs_tree s') dst = Some (Regular g) \<and> f_bytes g = f_bytes f \<and> f_mode g = f_mode f))"
  using assms(1) unfolding copy2_def
proof (cases rule: and_then_cases)
  case (first e)
  then show ?thesis using sys_read[OF first(1) assms(2,3)] assms(2) by (simp add: touched_refl)
next
  case (both x s1)
  have s1: "fs_tree s1 = fs_tree s" "x = f" using sys_read[OF both(1) assms(2,3)] by auto
  have p1: "place (fs_tree s1) dst" using assms(4) s1 by simp
  from both(2) show ?thesis
  proof (cases rule: and_then_cases)
    case (first e)
    then show ?thesis using sys_create[OF first(1) p1] s1 by simp
  next
    case c: (both y s2)
    obtain g where g: "touched dst (fs_tree s) (fs_tree s2)" "node_of (fs_tree s2) dst = Some (Regular g)" "tree_wf (fs_tree s2)"
      using sys_create[OF c(1) p1] s1 by (auto simp: touched_def)
    from c(2) show ?thesis
    proof (cases rule: and_then_cases)
      case (first e)
      then show ?thesis using sys_on_file[OF first(1) g(3,2)] g(1) by simp
    next
      case w: (both z s3)
      let ?g = "g\<lparr>f_bytes := f_bytes x\<rparr>"
      note mw = sys_on_file[OF w(1) g(3,2)]
      have "touched dst (fs_tree s2) (fs_tree s3)" using mw by blast
      with g(1) have h1: "touched dst (fs_tree s) (fs_tree s3)" by (rule touched_trans)
      moreover have h2: "node_of (fs_tree s3) dst = Some (Regular ?g)" using mw by (cases z) blast
      moreover have h3: "tree_wf (fs_tree s3)" using h1 unfolding touched_def by blast
      ultimately have h: "touched dst (fs_tree s) (fs_tree s3)" "node_of (fs_tree s3) dst = Some (Regular ?g)" "tree_wf (fs_tree s3)"
        by blast+
      note m = sys_on_file[OF w(2) h(3,2)]
      have "touched dst (fs_tree s) (fs_tree s')" using m touched_trans[OF h(1)] by blast
      moreover have "r = Inr () \<Longrightarrow> node_of (fs_tree s') dst = Some (Regular (?g\<lparr>f_mode := f_mode x\<rparr>))" using m by blast
      moreover have "f_bytes (?g\<lparr>f_mode := f_mode x\<rparr>) = f_bytes f" "f_mode (?g\<lparr>f_mode := f_mode x\<rparr>) = f_mode f"
        using s1(2) by simp_all
      ultimately show ?thesis by blast
    qed
  qed
qed

lemma sys_unlink:
  assumes "sys (os_unlink p) s = (r, s')" "tree_wf (fs_tree s)" "node_of (fs_tree s) p = Some (Regular f)"
  shows "fs_tree s' = (if r = Inr () then filter (\<lambda>(q, _). q \<noteq> p) (fs_tree s) else fs_tree s)"
  using assms(1)
proof (cases rule: sys_cases)
  case (run s1)
  then show ?thesis using os_unlink_regular[of s1 p f] assms(2,3) by auto
qed simp

definition moved :: "path \<Rightarrow> path \<Rightarrow> file_data \<Rightarrow> tree \<Rightarrow> os_fault + unit \<Rightarrow> tree \<Rightarrow> bool" where
  "moved src dst f t r t' \<longleftrightarrow> tree_wf t' \<and> (\<forall>q. q \<noteq> src \<longrightarrow> q \<noteq> dst \<longrightarrow> node_of t' q = node_of t q) \<and>
     (node_of t' dst = node_of t dst \<or> (\<exists>g. node_of t' dst = Some (Regular g))) \<and>
     (if r = Inr ()
      then node_of t' src = None \<and>
        (\<exists>g. node_of t' dst = Some (Regular g) \<and> f_bytes g = f_bytes f \<and> f_mode g = f_mode f)
      else node_of t' src = Some (Regular f))"

lemma moved_touched:
  "touched dst t t' \<Longrightarrow> r \<noteq> Inr () \<Longrightarrow> node_of t src = Some (Regular f) \<Longrightarrow> src \<noteq> dst \<Longrightarrow> moved src dst f t r t'"
  by (auto simp: moved_def touched_def)

lemma move_to_file:
  assumes "move_to pf src dst s = (r, s')"
    and "tree_wf (fs_tree s)" "node_of (fs_tree s) src = Some (Regular f)" "place (fs_tree s) dst" "src \<noteq> dst"
  shows "moved src dst f (fs_tree s) r (fs_tree s')"
    "fs_faults s = [] \<Longrightarrow> r = Inr () \<and> s' = put dst (Regular f) (del src s)"
proof -
  have del: "tree_wf (filter (\<lambda>(q, _). q \<noteq> src) (fs_tree s))" using wf_del[OF assms(2)] assms(3) by simp
  have ne: "src \<noteq> []" "dst \<noteq> []" using assms(3,4) by (auto simp: place_def)
  have "butlast dst \<noteq> src" using assms(3,4) by (auto simp: place_def)
  then have pl: "place (filter (\<lambda>(q, _). q \<noteq> src) (fs_tree s)) dst"
    using assms(4,5) del ne by (auto simp: place_def)
  have ren: "moved src dst f (fs_tree s) (Inr ()) (dict_set dst (Regular f) (filter (\<lambda>(q, _). q \<noteq> src) (fs_tree s)))"
    using place_put[OF pl] ne assms(5) by (simp add: moved_def)
  obtain r1 s1 where m: "sys (os_rename src dst) s = (r1, s1)" by fastforce
  show "fs_faults s = [] \<Longrightarrow> r = Inr () \<and> s' = put dst (Regular f) (del src s)"
    using assms(1) os_rename_file[OF assms(3-5)] by (simp add: move_to_def)
  show "moved src dst f (fs_tree s) r (fs_tree s')"
    using m
  proof (cases rule: sys_cases)
    case (run s2)
    then have "(r1, s1) = (Inr (), put dst (Regular f) (del src s2))"
      using os_rename_file[of s2 src f dst] assms(3-5) by simp
    then have "r1 = Inr ()" "fs_tree s1 = dict_set dst (Regular f) (filter (\<lambda>(q, _). q \<noteq> src) (fs_tree s))"
      using run(1) by simp_all
    moreover from this have "r = Inr ()" "s' = s1" using assms(1) m by (simp_all add: move_to_def)
    ultimately show ?thesis using ren by simp
  next
    case (fault e)
    have "and_then (copy2 pf src dst) (\<lambda>_. sys (os_unlink src)) s1 = (r, s')"
      using assms(1) m fault regular_tests[OF assms(2,3)] by (simp add: move_to_def)
    then show ?thesis
    proof (cases rule: and_then_cases)
      case (first e)
      then show ?thesis
        using copy2_file[OF first(1)] fault(2) assms by (auto intro: moved_touched)
    next
      case (both x s3)
      then obtain g where g: "touched dst (fs_tree s) (fs_tree s3)" "node_of (fs_tree s3) dst = Some (Regular g)"
          "f_bytes g = f_bytes f" "f_mode g = f_mode f"
        using copy2_file[OF both(1)] fault(2) assms by auto
      have s3: "tree_wf (fs_tree s3)" "node_of (fs_tree s3) src = Some (Regular f)"
        using g(1) assms(3,5) by (auto simp: touched_def)
      show ?thesis
      proof (cases "r = Inr ()")
        case True
        then have "fs_tree s' = filter (\<lambda>(q, _). q \<noteq> src) (fs_tree s3)" using sys_unlink[OF both(2) s3] by simp
        then show ?thesis
          using True g assms(3,5) s3 wf_del[OF s3(1), of src] ne by (auto simp: moved_def touched_def)
      next
        case False
        then have "fs_tree s' = fs_tree s3" using sys_unlink[OF both(2) s3] by simp
        then show ?thesis using False g(1) assms(3,5) by (auto intro: moved_touched)
      qed
    qed
  qed
qed

end
