(* ===== verification/Incident_Folder.thy ===== *)
theory Incident_Folder
  imports File_Operations
begin

text \<open>
  Storing an incident (\<open>quarantine_file\<close>): what holds whatever fails, and the exact
  effect when nothing does.
\<close>

lemma place_not_dir: "place t p \<Longrightarrow> \<not> is_dir t p"
  unfolding place_def using missing_tests(1)[of t p] regular_tests(2)[of t p] by blast

lemma shutil_move_file: "place (fs_tree s) dst \<Longrightarrow> shutil_move pf src dst s = move_to pf src dst s"
  by (simp add: shutil_move_def place_not_dir)

lemma write_text_place:
  assumes "write_text pf content p s = (r, s')" "place (fs_tree s) p"
  shows "touched p (fs_tree s) (fs_tree s')"
    "r = Inr () \<Longrightarrow> \<exists>g. node_of (fs_tree s') p = Some (Regular g) \<and> f_bytes g = content"
    "fs_faults s = [] \<Longrightarrow> fs_faults s' = [] \<and> r = Inr ()"
proof -
  have "touched p (fs_tree s) (fs_tree s') \<and>
    (r = Inr () \<longrightarrow> (\<exists>g. node_of (fs_tree s') p = Some (Regular g) \<and> f_bytes g = content)) \<and>
    (fs_faults s = [] \<longrightarrow> fs_faults s' = [] \<and> r = Inr ())"
    using assms(1) unfolding write_text_def
  proof (cases rule: and_then_cases)
    case (first e)
    then show ?thesis using sys_create[OF first(1) assms(2)] by simp
  next
    case (both x s1)
    have t1: "touched p (fs_tree s) (fs_tree s1)" "fs_faults s = [] \<longrightarrow> fs_faults s1 = []"
      using sys_create[OF both(1) assms(2)] by auto
    have "Inr x = (Inr () :: os_fault + unit)" by simp
    then obtain g where g: "node_of (fs_tree s1) p = Some (Regular g)" using sys_create[OF both(1) assms(2)] by blast
    have wf: "tree_wf (fs_tree s1)" using t1(1) unfolding touched_def by blast
    note m = sys_on_file[OF both(2) wf g]
    have "touched p (fs_tree s) (fs_tree s')" using m touched_trans[OF t1(1)] by blast
    moreover have "r = Inr () \<Longrightarrow> node_of (fs_tree s') p = Some (Regular (g\<lparr>f_bytes := content\<rparr>))" using m by blast
    moreover have "f_bytes (g\<lparr>f_bytes := content\<rparr>) = content" by simp
    ultimately show ?thesis using m t1(2) by blast
  qed
  then show "touched p (fs_tree s) (fs_tree s')"
    "r = Inr () \<Longrightarrow> \<exists>g. node_of (fs_tree s') p = Some (Regular g) \<and> f_bytes g = content"
    "fs_faults s = [] \<Longrightarrow> fs_faults s' = [] \<and> r = Inr ()" by blast+
qed

section \<open>Storing an incident\<close>

text \<open>The nodes after the incident folder has been filled; \<open>k\<close> steps of the five
  have been done.\<close>

definition incident_ready :: "tree \<Rightarrow> path \<Rightarrow> path \<Rightarrow> file_data \<Rightarrow> bool" where
  "incident_ready t source dir f \<longleftrightarrow>
     tree_wf t \<and> node_of t source = Some (Regular f) \<and> plain t dir \<and> normal dir \<and> list_all part_ok dir \<and>
     dir \<noteq> [] \<and> last source \<noteq> metadata_filename"

abbreviation stored :: "path \<Rightarrow> path \<Rightarrow> path" where
  "stored source dir \<equiv> dir @ [last source]"

abbreviation sidecar :: "path \<Rightarrow> path" where
  "sidecar dir \<equiv> dir @ [metadata_filename]"

text \<open>What is never lost, and what is never touched.\<close>

definition incident_frame :: "tree \<Rightarrow> tree \<Rightarrow> path \<Rightarrow> path \<Rightarrow> file_data \<Rightarrow> bool" where
  "incident_frame t t' source dir f \<longleftrightarrow>
     tree_wf t' \<and>
     (node_of t' source = Some (Regular f) \<or>
      node_of t' source = None \<and>
        (\<exists>g. node_of t' (stored source dir) = Some (Regular g) \<and> f_bytes g = f_bytes f)) \<and>
     (\<forall>q. q \<noteq> source \<longrightarrow> q \<noteq> stored source dir \<longrightarrow> q \<noteq> sidecar dir \<longrightarrow> node_of t' q = node_of t q \<or>
        (node_of t q = None \<and> node_of t' q = Some Directory \<and> (\<exists>k \<le> length dir. q = take k dir)))"

lemma metadata_part [simp]: "part_ok metadata_filename" "metadata_filename \<noteq> []" "metadata_filename \<noteq> ''.''"
    "metadata_filename \<noteq> ''..''"
  by (simp_all add: part_ok_def metadata_filename_def)

lemma last_part:
  assumes "tree_wf t" "node_of t p = Some (Regular f)"
  shows "part_ok (last p)" "last p \<noteq> []" "last p \<noteq> ''.''" "last p \<noteq> ''..''"
proof -
  have p: "p \<noteq> []" using regular_not_Nil[OF assms(2)] .
  have "normal p" "list_all part_ok p" using wf_entry[OF assms] by blast+
  then have "part_ok (last p)" "normal [last p]" using p by (cases p rule: rev_cases; simp)+
  then show "part_ok (last p)" "last p \<noteq> []" "last p \<noteq> ''.''" "last p \<noteq> ''..''" by simp_all
qed

lemma incident_frame_step:
  assumes "incident_frame t t1 source dir f" "node_of t1 source = None" "touched p t1 t2"
    and "p = sidecar dir \<and> last source \<noteq> metadata_filename \<or>
      p = stored source dir \<and> (\<forall>g. node_of t1 p = Some (Regular g) \<longrightarrow>
        (\<exists>h. node_of t2 p = Some (Regular h) \<and> f_bytes h = f_bytes g))"
    and "p \<noteq> source"
  shows "incident_frame t t2 source dir f"
proof -
  have t: "tree_wf t2" "\<And>q. q \<noteq> p \<Longrightarrow> node_of t2 q = node_of t1 q" using assms(3) by (auto simp: touched_def)
  obtain g where g: "node_of t1 (stored source dir) = Some (Regular g)" "f_bytes g = f_bytes f"
    using assms(1,2) by (auto simp: incident_frame_def)
  have "\<exists>g. node_of t2 (stored source dir) = Some (Regular g) \<and> f_bytes g = f_bytes f"
    using assms(4)
  proof
    assume "p = sidecar dir \<and> last source \<noteq> metadata_filename"
    then show ?thesis using g t(2)[of "stored source dir"] by auto
  next
    assume "p = stored source dir \<and> (\<forall>g. node_of t1 p = Some (Regular g) \<longrightarrow>
        (\<exists>h. node_of t2 p = Some (Regular h) \<and> f_bytes h = f_bytes g))"
    then show ?thesis using g by auto
  qed
  moreover have "node_of t2 source = None" using t(2)[of source] assms(2,5) by simp
  moreover have "node_of t2 q = node_of t1 q" if "q \<noteq> stored source dir" "q \<noteq> sidecar dir" for q
    using t(2)[of q] that assms(4) by blast
  ultimately show ?thesis using assms(1) t(1) unfolding incident_frame_def by metis
qed

text \<open>The last three steps, once the file has been moved.\<close>

lemma seal_incident:
  assumes "and_then (sys (os_chmod 0x180 (stored source dir))) (\<lambda>_.
      and_then (write_text pf (pf_dumps pf md) (sidecar dir)) (\<lambda>_. sys (os_chmod 0x180 (sidecar dir)))) s2 = (r, s')"
    and fr: "incident_frame t (fs_tree s2) source dir f" and wf: "tree_wf (fs_tree s2)"
    and g: "node_of (fs_tree s2) (stored source dir) = Some (Regular g)"
    and gone: "node_of (fs_tree s2) source = None"
    and dir2: "node_of (fs_tree s2) dir = Some Directory"
    and sc2: "node_of (fs_tree s2) (sidecar dir) = None"
    and ready: "normal dir" "list_all part_ok dir" "last source \<noteq> metadata_filename"
    and ne: "\<And>n. source \<noteq> dir @ [n]"
  shows "incident_frame t (fs_tree s') source dir f \<and>
    (r = Inr () \<longrightarrow> node_of (fs_tree s') source = None \<and>
       (\<exists>g. node_of (fs_tree s') (sidecar dir) = Some (Regular g) \<and> f_bytes g = pf_dumps pf md))"
proof -
  from assms(1) show ?thesis
  proof (cases rule: and_then_cases)
    case (first e)
    have "touched (stored source dir) (fs_tree s2) (fs_tree s') \<and> fs_tree s' = fs_tree s2"
      using sys_on_file[OF first(1) wf g] by blast
    then show ?thesis using fr first(2) by simp
  next
    case c: (both z s3)
    have "z = ()" by simp
    then have t3: "touched (stored source dir) (fs_tree s2) (fs_tree s3)"
      "node_of (fs_tree s3) (stored source dir) = Some (Regular (g\<lparr>f_mode := 0x180\<rparr>))"
      using sys_on_file[OF c(1) wf g] by auto
    have fr3: "incident_frame t (fs_tree s3) source dir f"
      by (rule incident_frame_step[OF fr gone t3(1)]) (use t3(2) g ne[symmetric] in auto)
    have s3: "tree_wf (fs_tree s3)" "node_of (fs_tree s3) dir = Some Directory" "node_of (fs_tree s3) (sidecar dir) = None"
      "node_of (fs_tree s3) source = None"
      using t3(1) dir2 sc2 gone ne ready(3) by (auto simp: touched_def)
    have p3: "place (fs_tree s3) (sidecar dir)" using s3 ready by (simp add: place_def)
    from c(2) show ?thesis
    proof (cases rule: and_then_cases)
      case (first e)
      have "incident_frame t (fs_tree s') source dir f"
        by (rule incident_frame_step[OF fr3 s3(4) write_text_place(1)[OF first(1) p3]]) (use ready(3) ne[symmetric] in auto)
      then show ?thesis using first(2) by simp
    next
      case w: (both u s4)
      have "u = ()" by simp
      then obtain h where t4: "touched (sidecar dir) (fs_tree s3) (fs_tree s4)"
        "node_of (fs_tree s4) (sidecar dir) = Some (Regular h)" "f_bytes h = pf_dumps pf md"
        using write_text_place[OF w(1) p3] by auto
      have fr4: "incident_frame t (fs_tree s4) source dir f"
        by (rule incident_frame_step[OF fr3 s3(4) t4(1)]) (use ready(3) ne[symmetric] in auto)
      have s4: "tree_wf (fs_tree s4)" "node_of (fs_tree s4) source = None"
        using t4(1) s3(4) ne by (auto simp: touched_def)
      have t5: "touched (sidecar dir) (fs_tree s4) (fs_tree s')"
        "r = Inr () \<Longrightarrow> node_of (fs_tree s') (sidecar dir) = Some (Regular (h\<lparr>f_mode := 0x180\<rparr>))"
        using sys_on_file[OF w(2) s4(1) t4(2)] by blast+
      have "incident_frame t (fs_tree s') source dir f"
        by (rule incident_frame_step[OF fr4 s4(2) t5(1)]) (use ready(3) ne[symmetric] in auto)
      moreover have "node_of (fs_tree s') source = None" using t5(1) s4(2) ne by (auto simp: touched_def)
      moreover have "f_bytes (h\<lparr>f_mode := 0x180\<rparr>) = pf_dumps pf md" using t4(3) by simp
      ultimately show ?thesis using t5(2) by blast
    qed
  qed
qed

text \<open>The incident folder has just been created: it is empty.\<close>

lemma incident_opened:
  assumes "made False dir s (Inr x) s1" "incident_ready (fs_tree s) source dir f"
  shows "tree_wf (fs_tree s1)" "grown dir (fs_tree s) (fs_tree s1)" "node_of (fs_tree s1) dir = Some Directory"
    "node_of (fs_tree s) dir = None" "node_of (fs_tree s1) source = Some (Regular f)"
    "node_of (fs_tree s1) (dir @ [n]) = None" "source \<noteq> dir @ [n]" "source \<noteq> dir"
    "place (fs_tree s1) (stored source dir)"
proof -
  have ready: "tree_wf (fs_tree s)" "node_of (fs_tree s) source = Some (Regular f)" "plain (fs_tree s) dir" "normal dir"
    "list_all part_ok dir" "dir \<noteq> []"
    using assms(2) by (simp_all add: incident_ready_def)
  show m: "tree_wf (fs_tree s1)" "grown dir (fs_tree s) (fs_tree s1)" "node_of (fs_tree s1) dir = Some Directory"
    "node_of (fs_tree s) dir = None" using assms(1) by (simp_all add: made_def)
  show src: "node_of (fs_tree s1) source = Some (Regular f)" using grown_kept[OF m(2) ready(2)] .
  show fresh: "node_of (fs_tree s1) (dir @ [n]) = None" for n
  proof -
    have "node_of (fs_tree s) (dir @ [n]) = None" using wf_missing[OF ready(1), of dir "[n]"] m(4) by simp
    moreover have "\<forall>k \<le> length dir. dir @ [n] \<noteq> take k dir"
      by (metis append_eq_conv_conj append_take_drop_id append_assoc append_self_conv append_is_Nil_conv not_Cons_self2)
    ultimately show ?thesis using m(2) unfolding grown_def by metis
  qed
  show "source \<noteq> dir @ [n]" "source \<noteq> dir" using fresh[of n] src m(3) by auto
  show "place (fs_tree s1) (stored source dir)"
    using last_part[OF ready(1,2)] fresh m ready by (auto simp: place_def)
qed

lemma store_incident_frame:
  assumes "store_incident pf source dir md s = (r, s')" "incident_ready (fs_tree s) source dir f"
  shows "incident_frame (fs_tree s) (fs_tree s') source dir f \<and>
    (r = Inr () \<longrightarrow> node_of (fs_tree s') source = None \<and> node_of (fs_tree s) dir = None \<and>
       (\<exists>g. node_of (fs_tree s') (sidecar dir) = Some (Regular g) \<and> f_bytes g = pf_dumps pf md))"
proof -
  have ready: "tree_wf (fs_tree s)" "node_of (fs_tree s) source = Some (Regular f)" "plain (fs_tree s) dir" "normal dir"
    "list_all part_ok dir" "dir \<noteq> []" "last source \<noteq> metadata_filename"
    using assms(2) by (simp_all add: incident_ready_def)
  have still: "incident_frame (fs_tree s) t source dir f"
    if "tree_wf t" "grown dir (fs_tree s) t" for t
    using that grown_kept[OF that(2) ready(2)] by (auto simp: incident_frame_def grown_def)
  from assms(1) show ?thesis unfolding store_incident_def
  proof (cases rule: and_then_cases)
    case (first e)
    have "made False (rev (rev dir)) s (Inl e) s'"
      using mkdir_parents_made[OF first(1)] ready by simp
    then show ?thesis using still first(2) by (simp add: made_def)
  next
    case (both x s1)
    have "made False (rev (rev dir)) s (Inr x) s1"
      using mkdir_parents_made[OF both(1)] ready by simp
    then have made: "made False dir s (Inr x) s1" by simp
    note m = incident_opened[OF made assms(2)]
    note src = m(5) and fresh = m(6) and ne = m(7)
    from both(2) show ?thesis
    proof (cases rule: and_then_cases)
      case (first e)
      then have "moved source (stored source dir) f (fs_tree s1) (Inl e) (fs_tree s')"
        using move_to_file(1)[of pf source "stored source dir" s1 "Inl e" s' f] m(1) src m(9) ne
        by (simp add: shutil_move_file)
      then show ?thesis using first(2) m(2) by (auto simp: moved_def incident_frame_def grown_def)
    next
      case mv: (both y s2)
      have "y = ()" by simp
      then have "moved source (stored source dir) f (fs_tree s1) (Inr ()) (fs_tree s2)"
        using move_to_file(1)[of pf source "stored source dir" s1 "Inr ()" s2 f] mv(1) m(1) src m(9) ne
        by (simp add: shutil_move_file)
      then obtain g where g: "tree_wf (fs_tree s2)" "node_of (fs_tree s2) source = None"
        "node_of (fs_tree s2) (stored source dir) = Some (Regular g)" "f_bytes g = f_bytes f"
        and rest: "\<forall>q. q \<noteq> source \<longrightarrow> q \<noteq> stored source dir \<longrightarrow> node_of (fs_tree s2) q = node_of (fs_tree s1) q"
        by (auto simp: moved_def)
      have fr: "incident_frame (fs_tree s) (fs_tree s2) source dir f"
        using g rest m(2) unfolding incident_frame_def grown_def by metis
      have dir2: "node_of (fs_tree s2) dir = Some Directory"
        using rest m(3) src g(3) by (metis node.distinct(1) option.inject append_self_conv not_Cons_self2)
      have sc2: "node_of (fs_tree s2) (sidecar dir) = None"
        using rest fresh[of metadata_filename] ne[of metadata_filename] ready(7) by auto
      show ?thesis
        using seal_incident[OF mv(2) fr g(1,3,2) dir2 sc2 ready(4,5,7) ne] m(4) by blast
    qed
  qed
qed

section \<open>On a reliable disk\<close>

lemma store_incident_reliable:
  assumes "store_incident pf source dir md s = (r, s')" "incident_ready (fs_tree s) source dir f"
    and "fs_faults s = []" "node_of (fs_tree s) dir = None"
  shows "r = Inr () \<and> fs_faults s' = [] \<and> node_of (fs_tree s') (stored source dir) = Some (Regular (f\<lparr>f_mode := 0x180\<rparr>))"
proof -
  have ready: "tree_wf (fs_tree s)" "node_of (fs_tree s) source = Some (Regular f)" "plain (fs_tree s) dir" "normal dir"
    "list_all part_ok dir" "dir \<noteq> []" "last source \<noteq> metadata_filename"
    using assms(2) by (simp_all add: incident_ready_def)
  obtain r1 s1 where mk: "mkdir_parents False (rev dir) s = (r1, s1)" by fastforce
  have mkd: "made False dir s r1 s1" using mkdir_parents_made[OF mk] ready by simp
  then have m0: "r1 = Inr ()" "fs_faults s1 = []" using assms(3,4) by (simp_all add: made_def)
  note m = incident_opened[OF mkd[unfolded m0(1)] assms(2)]
  note src = m(5) and fresh = m(6) and ne = m(7)
  define s2 where "s2 = put (stored source dir) (Regular f) (del source s1)"
  have mv: "shutil_move pf source (stored source dir) s1 = (Inr (), s2)"
    using move_to_file(2)[of pf source "stored source dir" s1] m(1) m0(2) src m(9) ne unfolding s2_def
    by (metis prod.collapse shutil_move_file)
  have "moved source (stored source dir) f (fs_tree s1) (Inr ()) (fs_tree s2)"
    using move_to_file(1)[of pf source "stored source dir" s1 "Inr ()" s2 f] mv m(1) src m(9) ne by (simp add: shutil_move_file)
  then have wf2: "tree_wf (fs_tree s2)" by (simp add: moved_def)
  have n2: "node_of (fs_tree s2) (stored source dir) = Some (Regular f)" by (simp add: s2_def)
  have f2: "fs_faults s2 = []" using m0(2) by (simp add: s2_def)
  obtain r3 s3 where ch: "sys (os_chmod 0x180 (stored source dir)) s2 = (r3, s3)" by fastforce
  have t3: "r3 = Inr ()" "fs_faults s3 = []" "node_of (fs_tree s3) (stored source dir) = Some (Regular (f\<lparr>f_mode := 0x180\<rparr>))"
    "touched (stored source dir) (fs_tree s2) (fs_tree s3)"
    using sys_on_file[OF ch wf2 n2] f2 by simp_all
  have "node_of (fs_tree s3) dir = Some Directory" "node_of (fs_tree s3) (sidecar dir) = None"
    using t3(4) m(3,8) fresh ne regular_not_Nil[OF src] ready(7) by (auto simp: touched_def s2_def)
  then have p3: "place (fs_tree s3) (sidecar dir)" using t3(4) ready by (simp add: place_def touched_def)
  obtain r4 s4 where wr: "write_text pf (pf_dumps pf md) (sidecar dir) s3 = (r4, s4)" by fastforce
  obtain h where t4: "r4 = Inr ()" "fs_faults s4 = []" "touched (sidecar dir) (fs_tree s3) (fs_tree s4)"
    "node_of (fs_tree s4) (sidecar dir) = Some (Regular h)"
    using write_text_place[OF wr p3] t3(2) by blast
  obtain r5 s5 where fin: "sys (os_chmod 0x180 (sidecar dir)) s4 = (r5, s5)" by fastforce
  have wf4: "tree_wf (fs_tree s4)" using t4(3) by (simp add: touched_def)
  have t5: "r5 = Inr ()" "fs_faults s5 = []" "touched (sidecar dir) (fs_tree s4) (fs_tree s5)"
    using sys_on_file[OF fin wf4 t4(4)] t4(2) by blast+
  have "(r, s') = (r5, s5)"
    using assms(1) mk m0(1) mv ch t3(1) wr t4(1) fin by (simp add: store_incident_def)
  moreover have "node_of (fs_tree s5) (stored source dir) = Some (Regular (f\<lparr>f_mode := 0x180\<rparr>))"
    using t3(3) t4(3) t5(3) ready(7) by (simp add: touched_def)
  ultimately show ?thesis using t5 by simp
qed

section \<open>Mode bits\<close>

lemma octal_digit_char: "n < 8 \<Longrightarrow> octal_digit (digit_char n) = Some n"
  by (simp add: octal_digit_def digit_char_def Let_def)

lemma mode_bits_lt: "unat (and m 0x1FF :: 12 word) < 512"
proof -
  have "and m 0x1FF \<le> (0x1FF :: 12 word)" by (rule word_and_le1)
  then have "unat (and m 0x1FF) \<le> unat (0x1FF :: 12 word)" by (simp add: word_le_nat_alt)
  then show ?thesis by simp
qed

lemma octal_three:
  assumes "n < 512"
  shows "octal_from 0 [digit_char (n div 64), digit_char (n div 8 mod 8), digit_char (n mod 8)] = Some n"
proof -
  have d: "octal_digit (digit_char (n div 64)) = Some (n div 64)"
    "octal_digit (digit_char (n div 8 mod 8)) = Some (n div 8 mod 8)"
    "octal_digit (digit_char (n mod 8)) = Some (n mod 8)"
    by (rule octal_digit_char, use assms in linarith)+
  have "n div 64 = n div 8 div 8" using div_mult2_eq[of n 8 8] by simp
  then have e: "8 * (8 * (8 * 0 + n div 64) + n div 8 mod 8) + n mod 8 = n"
    by (simp only: mult_0_right add_0 mult_div_mod_eq)
  show ?thesis unfolding octal_from.simps d option.case e ..
qed
lemma int_octal_mode_str: "int_octal (mode_str m) = Some (unat (and m 0x1FF))"
  unfolding int_octal_def mode_str_def Let_def octal_three[OF mode_bits_lt[of m]] by (rule if_not_P) (rule list.distinct(2))

end
