(* ===== verification/Quarantine_Roundtrip.thy ===== *)
theory Quarantine_Roundtrip
  imports Incident_Folder
begin

text \<open>
  What the remediators guarantee: no byte is lost whatever fails, a path that
  is acted on is inside its root, and restoring undoes quarantining.
\<close>

section \<open>Quarantine\<close>

definition quarantine_ready :: "platform \<Rightarrow> tree \<Rightarrow> path \<Rightarrow> datetime \<Rightarrow> bool" where
  "quarantine_ready pf t quarantine_dir detected_at \<longleftrightarrow>
     tree_wf t \<and> plain t quarantine_dir \<and> normal quarantine_dir \<and> list_all part_ok quarantine_dir \<and>
     list_all (\<lambda>(p, _). butlast p = quarantine_dir \<longrightarrow> \<not> is_link t p) t \<and>
     (node_of t quarantine_dir = None \<or> node_of t quarantine_dir = Some Directory) \<and>
     pf_stamp pf detected_at \<noteq> [] \<and> CHR ''/'' \<notin> set (pf_stamp pf detected_at)"

lemma folder_name_ok:
  assumes "stamp \<noteq> []" "CHR ''/'' \<notin> set stamp" "CHR ''/'' \<notin> set rest"
  shows "part_ok (stamp @ ''-'' @ rest)" "normal [stamp @ ''-'' @ rest]"
proof -
  have "stamp @ ''-'' @ rest \<noteq> ''.''" "stamp @ ''-'' @ rest \<noteq> ''..''"
    using assms(1) by (cases stamp; cases "tl stamp"; auto)+
  then show "part_ok (stamp @ ''-'' @ rest)" "normal [stamp @ ''-'' @ rest]"
    using assms by (auto simp: part_ok_def)
qed

lemma digit_char_slash: "n < 16 \<Longrightarrow> digit_char n \<noteq> CHR ''/''"
proof -
  assume n: "n < 16"
  have "of_char (digit_char n) \<noteq> (47 :: nat)" using n by (simp add: digit_char_def)
  then show ?thesis by auto
qed

lemma hex_digits_slash: "CHR ''/'' \<notin> set (hex_digits w n)"
  by (induction w arbitrary: n) (auto simp: digit_char_slash[symmetric])

lemma incident_dir_ready:
  assumes "incident_dir pf source quarantine_dir detected_at s = (dir, s1)"
    and "quarantine_ready pf (fs_tree s) quarantine_dir detected_at"
    and "node_of (fs_tree s) source = Some (Regular f)" "last source \<noteq> metadata_filename"
  shows "incident_ready (fs_tree s1) source dir f" "fs_tree s1 = fs_tree s" "fs_faults s1 = fs_faults s"
    "butlast dir = quarantine_dir" "dir \<noteq> []"
    "node_of (fs_tree s) (quarantine_dir @ [pf_stamp pf detected_at @ ''-'' @ last source]) = None \<Longrightarrow>
       dir = quarantine_dir @ [pf_stamp pf detected_at @ ''-'' @ last source]"
proof -
  have q: "tree_wf (fs_tree s)" "plain (fs_tree s) quarantine_dir" "normal quarantine_dir" "list_all part_ok quarantine_dir"
    "node_of (fs_tree s) quarantine_dir = None \<or> node_of (fs_tree s) quarantine_dir = Some Directory"
    and stamp: "pf_stamp pf detected_at \<noteq> []" "CHR ''/'' \<notin> set (pf_stamp pf detected_at)"
    using assms(2) by (auto simp: quarantine_ready_def)
  have nolink: "\<not> is_link (fs_tree s) (quarantine_dir @ [c])" for c
  proof (cases "node_of (fs_tree s) (quarantine_dir @ [c])")
    case (Some x)
    then have "(quarantine_dir @ [c], x) \<in> set (fs_tree s)" by (auto intro: node_of_entry)
    then show ?thesis using assms(2) by (auto simp: quarantine_ready_def list_all_iff)
  qed (simp add: is_link_def)
  have plain: "plain (fs_tree s) (quarantine_dir @ [c])" for c
    using q(2,5) nolink[of c] by (auto simp: plain_def less_Suc_eq)
  have "part_ok (last source)" using last_part[OF q(1) assms(3)] by blast
  then have slash: "CHR ''/'' \<notin> set (last source)" by (simp add: part_ok_def)
  have ready: "incident_ready (fs_tree s) source (quarantine_dir @ [pf_stamp pf detected_at @ ''-'' @ rest]) f"
    if "CHR ''/'' \<notin> set rest" for rest
    using q plain assms(3,4) folder_name_ok[OF stamp that] by (simp add: incident_ready_def)
  have more: "CHR ''/'' \<notin> set (last source @ ''-'' @ take 8 (hex_digits 32 u))" for u
    using slash hex_digits_slash[of 32 u] by (auto dest: in_set_takeD)
  show "incident_ready (fs_tree s1) source dir f" "fs_tree s1 = fs_tree s" "fs_faults s1 = fs_faults s"
    "butlast dir = quarantine_dir" "dir \<noteq> []"
    using assms(1) ready[OF slash] ready[OF more]
    by (auto simp: incident_dir_def draw_uuid_def Let_def split: if_splits list.splits)
  show "node_of (fs_tree s) (quarantine_dir @ [pf_stamp pf detected_at @ ''-'' @ last source]) = None \<Longrightarrow>
       dir = quarantine_dir @ [pf_stamp pf detected_at @ ''-'' @ last source]"
  proof -
    let ?d = "quarantine_dir @ [pf_stamp pf detected_at @ ''-'' @ last source]"
    assume "node_of (fs_tree s) ?d = None"
    then have "\<not> path_exists (fs_tree s) ?d"
      using kstat_plain[of "fs_tree s" ?d] q plain folder_name_ok[OF stamp slash] by (simp add: path_exists_def)
    then show "dir = ?d" using assms(1) by (simp add: incident_dir_def Let_def)
  qed
qed

text \<open>The way through \<open>quarantine_file\<close> for a regular file.\<close>

lemma quarantine_file_path:
  assumes "quarantine_file pf source quarantine_dir reason sev detected_at s = (r, s')"
    and "tree_wf (fs_tree s)" "node_of (fs_tree s) source = Some (Regular f)"
  obtains (unread) m where "r = Inl (FileRemediationError m)" "fs_tree s' = fs_tree s" "fs_faults s \<noteq> []"
  | (store) s1 dir s2 r2 where "fs_tree s1 = fs_tree s" "fs_faults s = [] \<Longrightarrow> s1 = s"
      "incident_dir pf source quarantine_dir detected_at s1 = (dir, s2)"
      "store_incident pf source dir (quarantine_metadata pf source f reason sev detected_at) s2 = (r2, s')"
      "\<And>e. r2 = Inl e \<Longrightarrow> \<exists>m. r = Inl (FileRemediationError m)"
      "r2 = Inr () \<Longrightarrow> r = Inr \<lparr>qf_quarantine_path = path_str dir, qf_mode = mode_str (f_mode f),
         qf_size_bytes = int (length (f_bytes f)), qf_owner_uid = f_uid f, qf_owner_gid = f_gid f\<rparr>"
proof -
  obtain r1 s1 where rd: "and_then (sys (os_read source)) (\<lambda>_. sys (os_read source)) s = (r1, s1)" by fastforce
  have s1: "fs_tree s1 = fs_tree s \<and> (\<forall>x. r1 = Inr x \<longrightarrow> x = f) \<and> (fs_faults s = [] \<longrightarrow> s1 = s \<and> r1 = Inr f)"
    using rd
  proof (cases rule: and_then_cases)
    case (first e)
    then show ?thesis using sys_read[OF first(1) assms(2,3)] by auto
  next
    case (both x s2)
    note a = sys_read[OF both(1) assms(2,3)]
    then have "tree_wf (fs_tree s2)" "node_of (fs_tree s2) source = Some (Regular f)" using assms(2,3) by simp_all
    note b = sys_read[OF both(2) this]
    show ?thesis using a b by metis
  qed
  have tests: "is_file (fs_tree s) source" "\<not> is_symlink (fs_tree s) source" using regular_tests[OF assms(2,3)] by auto
  show ?thesis
  proof (cases r1)
    case (Inl e)
    then show ?thesis using unread assms(1) rd s1 tests by (auto simp: quarantine_file_def)
  next
    case (Inr x)
    obtain dir s2 where d: "incident_dir pf source quarantine_dir detected_at s1 = (dir, s2)" by fastforce
    obtain r2 s3 where st: "store_incident pf source dir (quarantine_metadata pf source f reason sev detected_at) s2 = (r2, s3)"
      by fastforce
    have "(r, s') = (case r2 of
        Inl e \<Rightarrow> (Inl (FileRemediationError (''Cannot quarantine '' @ path_str source @ '': '' @ pf_error pf e source)), s3)
      | Inr _ \<Rightarrow> (Inr \<lparr>qf_quarantine_path = path_str dir, qf_mode = mode_str (f_mode f),
         qf_size_bytes = int (length (f_bytes f)), qf_owner_uid = f_uid f, qf_owner_gid = f_gid f\<rparr>, s3))"
      using assms(1) rd s1 Inr tests d st by (auto simp: quarantine_file_def split: sum.splits)
    then show ?thesis using store[of s1 dir s2 r2] s1 d st by (cases r2) auto
  qed
qed

lemma quarantine_file_keeps:
  assumes "quarantine_file pf source quarantine_dir reason sev detected_at s = (r, s')"
    and "quarantine_ready pf (fs_tree s) quarantine_dir detected_at"
    and "node_of (fs_tree s) source = Some (Regular f)" "last source \<noteq> metadata_filename"
  obtains dir where "butlast dir = quarantine_dir" "dir \<noteq> []" "incident_frame (fs_tree s) (fs_tree s') source dir f"
    "\<And>q. r = Inr q \<Longrightarrow> qf_quarantine_path q = path_str dir \<and> node_of (fs_tree s') source = None \<and> node_of (fs_tree s) dir = None \<and>
       (\<exists>g. node_of (fs_tree s') (sidecar dir) = Some (Regular g) \<and>
            f_bytes g = pf_dumps pf (quarantine_metadata pf source f reason sev detected_at))"
    "\<And>e. r = Inl e \<Longrightarrow> \<exists>m. e = FileRemediationError m"
    "fs_faults s = [] \<Longrightarrow> node_of (fs_tree s) (quarantine_dir @ [pf_stamp pf detected_at @ ''-'' @ last source]) = None \<Longrightarrow>
       dir = quarantine_dir @ [pf_stamp pf detected_at @ ''-'' @ last source] \<and> fs_faults s' = [] \<and>
       r = Inr \<lparr>qf_quarantine_path = path_str dir, qf_mode = mode_str (f_mode f),
         qf_size_bytes = int (length (f_bytes f)), qf_owner_uid = f_uid f, qf_owner_gid = f_gid f\<rparr> \<and>
       node_of (fs_tree s') (stored source dir) = Some (Regular (f\<lparr>f_mode := 0x180\<rparr>))"
proof -
  have wf: "tree_wf (fs_tree s)" using assms(2) by (simp add: quarantine_ready_def)
  from assms(1) wf assms(3) show thesis
  proof (cases rule: quarantine_file_path)
    case (unread m)
    have "incident_frame (fs_tree s) (fs_tree s') source (quarantine_dir @ [x]) f" for x
      using unread(2) wf assms(3) by (simp add: incident_frame_def)
    then show ?thesis using that[of "quarantine_dir @ [[]]"] unread by auto
  next
    case (store s1 dir s2 r2)
    have q1: "quarantine_ready pf (fs_tree s1) quarantine_dir detected_at" "node_of (fs_tree s1) source = Some (Regular f)"
      using assms(2,3) store(1) by simp_all
    note d = incident_dir_ready[OF store(3) q1 assms(4)]
    have s2: "fs_tree s2 = fs_tree s" using d(2) store(1) by simp
    note fr = store_incident_frame[OF store(4) d(1)[folded d(2)], unfolded s2]
    show ?thesis
    proof (rule that[of dir])
      show "butlast dir = quarantine_dir" "dir \<noteq> []" using d by blast+
      show "incident_frame (fs_tree s) (fs_tree s') source dir f" using fr by blast
      show "\<exists>m. e = FileRemediationError m" if "r = Inl e" for e
        using that store(5,6) by (cases r2) auto
      have ok: "r2 = Inr ()" if "r = Inr q" for q using that store(5) by (cases r2) auto
      show "qf_quarantine_path q = path_str dir \<and> node_of (fs_tree s') source = None \<and> node_of (fs_tree s) dir = None \<and>
          (\<exists>g. node_of (fs_tree s') (sidecar dir) = Some (Regular g) \<and>
            f_bytes g = pf_dumps pf (quarantine_metadata pf source f reason sev detected_at))" if q: "r = Inr q" for q
        using fr ok[OF q] store(6) q by auto
      show "dir = quarantine_dir @ [pf_stamp pf detected_at @ ''-'' @ last source] \<and> fs_faults s' = [] \<and>
         r = Inr \<lparr>qf_quarantine_path = path_str dir, qf_mode = mode_str (f_mode f),
           qf_size_bytes = int (length (f_bytes f)), qf_owner_uid = f_uid f, qf_owner_gid = f_gid f\<rparr> \<and>
         node_of (fs_tree s') (stored source dir) = Some (Regular (f\<lparr>f_mode := 0x180\<rparr>))"
        if f: "fs_faults s = []" "node_of (fs_tree s) (quarantine_dir @ [pf_stamp pf detected_at @ ''-'' @ last source]) = None"
      proof -
        have dir: "dir = quarantine_dir @ [pf_stamp pf detected_at @ ''-'' @ last source]" using d(6) f(2) store(1) by simp
        have "fs_faults s2 = []" using d(3) store(2) f(1) by simp
        then have "r2 = Inr () \<and> fs_faults s' = [] \<and> node_of (fs_tree s') (stored source dir) = Some (Regular (f\<lparr>f_mode := 0x180\<rparr>))"
        proof -
          have "node_of (fs_tree s2) dir = None" unfolding s2 dir by (rule f(2))
          with \<open>fs_faults s2 = []\<close> show ?thesis
            using store_incident_reliable[OF store(4) d(1)[folded d(2)]] by blast
        qed
        then show ?thesis using store(6) dir by blast
      qed
    qed
  qed
qed

text \<open>C23. However the disk fails, a quarantine never loses the bytes of the file: afterwards the
  file is untouched at its place, or a file with the same bytes is in the
  incident folder; nothing else that existed is changed, and a success names
  the folder, with the record of where the file came from beside it. The file's
  own name must not be that of the record.\<close>

theorem quarantine_never_loses:
  assumes "quarantine_file pf source quarantine_dir reason sev detected_at s = (r, s')"
    and "quarantine_ready pf (fs_tree s) quarantine_dir detected_at"
    and "node_of (fs_tree s) source = Some (Regular f)" "last source \<noteq> metadata_filename"
  shows "\<exists>dir. butlast dir = quarantine_dir \<and> dir \<noteq> [] \<and>
    (node_of (fs_tree s') source = Some (Regular f) \<or>
     node_of (fs_tree s') source = None \<and>
       (\<exists>g. node_of (fs_tree s') (dir @ [last source]) = Some (Regular g) \<and> f_bytes g = f_bytes f)) \<and>
    (\<forall>q x. node_of (fs_tree s) q = Some x \<and> q \<notin> {source, dir @ [last source], sidecar dir} \<longrightarrow>
       node_of (fs_tree s') q = Some x) \<and>
    (case r of
       Inl e \<Rightarrow> \<exists>m. e = FileRemediationError m
     | Inr q \<Rightarrow> qf_quarantine_path q = path_str dir \<and> node_of (fs_tree s') source = None \<and>
         node_of (fs_tree s) dir = None \<and>
         (\<exists>g. node_of (fs_tree s') (sidecar dir) = Some (Regular g) \<and>
            f_bytes g = pf_dumps pf (quarantine_metadata pf source f reason sev detected_at)))"
proof -
  obtain dir where d: "butlast dir = quarantine_dir" "dir \<noteq> []" "incident_frame (fs_tree s) (fs_tree s') source dir f"
    and ok: "\<And>q. r = Inr q \<Longrightarrow> qf_quarantine_path q = path_str dir \<and> node_of (fs_tree s') source = None \<and> node_of (fs_tree s) dir = None \<and>
       (\<exists>g. node_of (fs_tree s') (sidecar dir) = Some (Regular g) \<and>
            f_bytes g = pf_dumps pf (quarantine_metadata pf source f reason sev detected_at))"
    and err: "\<And>e. r = Inl e \<Longrightarrow> \<exists>m. e = FileRemediationError m"
    using quarantine_file_keeps[OF assms] by metis
  have "(\<forall>q x. node_of (fs_tree s) q = Some x \<and> q \<notin> {source, dir @ [last source], sidecar dir} \<longrightarrow>
       node_of (fs_tree s') q = Some x)"
    using d(3) unfolding incident_frame_def by (metis insertI1 insertI2 option.distinct(1))
  moreover have "case r of Inl e \<Rightarrow> \<exists>m. e = FileRemediationError m
     | Inr q \<Rightarrow> qf_quarantine_path q = path_str dir \<and> node_of (fs_tree s') source = None \<and>
         node_of (fs_tree s) dir = None \<and>
         (\<exists>g. node_of (fs_tree s') (sidecar dir) = Some (Regular g) \<and>
            f_bytes g = pf_dumps pf (quarantine_metadata pf source f reason sev detected_at))"
    using ok err by (cases r) simp_all
  moreover have "node_of (fs_tree s') source = Some (Regular f) \<or>
     node_of (fs_tree s') source = None \<and>
       (\<exists>g. node_of (fs_tree s') (dir @ [last source]) = Some (Regular g) \<and> f_bytes g = f_bytes f)"
    using d(3) unfolding incident_frame_def by blast
  ultimately show ?thesis using d(1,2) by blast
qed

section \<open>Restoring\<close>

text \<open>Removing a folder with everything below it.\<close>

definition below :: "path \<Rightarrow> path \<Rightarrow> bool" where
  "below d p \<longleftrightarrow> take (length d) p = d"

lemma below_self [simp]: "below d d"
  by (simp add: below_def)

lemma below_child [simp]: "below d (d @ p)"
  by (simp add: below_def)

lemma children_iff: "c \<in> set (children t d) \<longleftrightarrow> c \<noteq> [] \<and> butlast c = d \<and> node_of t c \<noteq> None"
  using node_of_None[of c t] by (cases "c = []") (auto simp: children_def simp del: not_None_eq)

lemma below_iff: "below d p \<longleftrightarrow> (\<exists>e. p = d @ e)"
  unfolding below_def by (metis append_eq_conv_conj append_take_drop_id)

lemma rm_all_reliable:
  "fs_faults s = [] \<Longrightarrow> d \<noteq> [] \<Longrightarrow> sorted_wrt (\<lambda>p q. length q \<le> length p) ps \<Longrightarrow> distinct ps \<Longrightarrow>
   set ps = {p. below d p \<and> p \<in> fst ` set (fs_tree s)} \<Longrightarrow>
   rm_all ignore ps s = (Inr (), s\<lparr>fs_tree := filter (\<lambda>(p, _). \<not> below d p) (fs_tree s)\<rparr>)"
proof (induction ps arbitrary: s)
  case Nil
  then have "filter (\<lambda>(p, _). \<not> below d p) (fs_tree s) = fs_tree s" by (force simp: filter_id_conv)
  then show ?case by simp
next
  case (Cons p ps)
  have p: "below d p" "p \<in> fst ` set (fs_tree s)" using Cons.prems(5) by auto
  have ne: "p \<noteq> []" using p(1) Cons.prems(2) by (auto simp: below_def)
  have "children (fs_tree s) p = []"
  proof (rule ccontr)
    assume "children (fs_tree s) p \<noteq> []"
    then obtain c where c: "c \<in> set (children (fs_tree s) p)" by (cases "children (fs_tree s) p") auto
    then have c': "c \<noteq> []" "butlast c = p" "c \<in> fst ` set (fs_tree s)" by (auto simp: children_def)
    then have l: "length c = Suc (length p)" by (cases c rule: rev_cases) auto
    have "c = p @ [last c]" using append_butlast_last_id[OF c'(1)] c'(2) by simp
    moreover obtain e where "p = d @ e" using p(1) by (auto simp: below_iff)
    ultimately have "c = d @ e @ [last c]" by simp
    then have "below d c" unfolding below_iff by blast
    then have "c \<in> set (p # ps)" using Cons.prems(5) c'(3) by blast
    then show False using Cons.prems(3) l by auto
  qed
  then have rm: "os_remove p s = (Inr (), del p s)"
    using p(2) ne by (simp add: os_remove_def node_of_None)
  have "rm_all ignore ps (del p s) = (Inr (), (del p s)\<lparr>fs_tree := filter (\<lambda>(p, _). \<not> below d p) (fs_tree (del p s))\<rparr>)"
  proof (rule Cons.IH)
    show "set ps = {q. below d q \<and> q \<in> fst ` set (fs_tree (del p s))}"
      using Cons.prems(4,5) by (force simp: image_iff)
  qed (use Cons.prems in simp_all)
  moreover have "filter (\<lambda>(q, _). \<not> below d q) (filter (\<lambda>(q, _). q \<noteq> p) (fs_tree s)) = filter (\<lambda>(q, _). \<not> below d q) (fs_tree s)"
    using p(1) by (auto simp: filter_filter intro!: filter_cong)
  ultimately show ?case using Cons.prems(1) rm by (simp add: del_def)
qed

lemma rm_order_ok:
  "sorted_wrt (\<lambda>p q. length q \<le> length p) (rm_order t d)" "distinct (rm_order t d)"
  "set (rm_order t d) = {p. below d p \<and> p \<in> fst ` set t}"
proof -
  have "sorted_wrt (\<lambda>p q. length p \<le> length q) (sort_key length (filter (\<lambda>p. take (length d) p = d) (remdups (map fst t))))"
    using sorted_sort_key[of length "filter (\<lambda>p. take (length d) p = d) (remdups (map fst t))"]
    by (simp add: sorted_map)
  then show "sorted_wrt (\<lambda>p q. length q \<le> length p) (rm_order t d)" by (simp add: rm_order_def sorted_wrt_rev)
qed (auto simp: rm_order_def below_def)

lemma rmtree_reliable:
  assumes "fs_faults s = []" "tree_wf (fs_tree s)" "node_of (fs_tree s) d = Some Directory" "d \<noteq> []"
  shows "rmtree ignore d s = (Inr (), s\<lparr>fs_tree := filter (\<lambda>(p, _). \<not> below d p) (fs_tree s)\<rparr>)"
  using rm_all_reliable[OF assms(1,4) rm_order_ok] lpath_node[OF assms(2-4)] assms(3)
  by (simp add: rmtree_def)

lemma node_of_filter: "(\<forall>p. P p \<longrightarrow> p \<noteq> []) \<Longrightarrow> node_of (filter (\<lambda>(p, _). \<not> P p) t) q = (if P q then None else node_of t q)"
proof -
  have "map_of (filter (\<lambda>(p, _). \<not> P p) t) q = (if P q then None else map_of t q)" by (induction t) auto
  then show "(\<forall>p. P p \<longrightarrow> p \<noteq> []) \<Longrightarrow> ?thesis" by (auto simp: node_of_def)
qed

lemma node_of_rmtree: "d \<noteq> [] \<Longrightarrow> node_of (filter (\<lambda>(p, _). \<not> below d p) t) q = (if below d q then None else node_of t q)"
  by (rule node_of_filter) (auto simp: below_def)

lemma distinct_set_single: "distinct xs \<Longrightarrow> set xs = {x} \<Longrightarrow> xs = [x]"
  by (cases xs; cases "tl xs") auto

text \<open>The one file in an incident folder.\<close>

lemma list_single:
  assumes "fs_faults s = []" "tree_wf (fs_tree s)" "node_of (fs_tree s) d = Some Directory" "list_all part_ok d"
    and "\<And>p. p \<noteq> [] \<Longrightarrow> butlast p = d \<Longrightarrow> node_of (fs_tree s) p \<noteq> None \<longleftrightarrow> p = d @ [n] \<or> p = sidecar d"
    and "n \<noteq> metadata_filename"
  shows "quarantined_file_path pf (path_str d) s = (Inr (d @ [n]), s)"
proof -
  let ?c = "children (fs_tree s) d"
  have set: "set ?c = {d @ [n], sidecar d}"
  proof (rule set_eqI)
    fix c
    show "c \<in> set ?c \<longleftrightarrow> c \<in> {d @ [n], sidecar d}"
      using assms(5)[of c] by (auto simp: children_iff simp del: not_None_eq)
  qed
  have "distinct ?c" by (simp add: children_def)
  moreover have "inj_on last (set ?c)" unfolding set by (simp add: inj_on_def)
  ultimately have dist: "distinct (map last ?c)" by (simp add: distinct_map)
  have "set (filter (\<lambda>x. x \<noteq> metadata_filename) (map last ?c)) = {n}" using set assms(6) by auto
  then have one: "filter (\<lambda>x. x \<noteq> metadata_filename) (map last ?c) = [n]"
    by (rule distinct_set_single[OF distinct_filter[OF dist]])
  have "kstat (fs_tree s) d = Inr d" using kstat_node[OF assms(2,3)] by (simp add: is_link_def assms(3))
  then have "sys (os_listdir d) s = (Inr (map last ?c), s)" using assms(1,3) by (simp add: os_listdir_def)
  then show ?thesis using one assms(4) by (simp add: quarantined_file_path_def Let_def)
qed

lemma mkdir_existing:
  assumes "fs_faults s = []" "tree_wf (fs_tree s)" "node_of (fs_tree s) p = Some Directory"
  obtains s1 where "mkdir_parents True (rev p) s = (Inr (), s1)" "fs_faults s1 = []" "tree_wf (fs_tree s1)"
    "\<And>q. node_of (fs_tree s1) q = node_of (fs_tree s) q"
proof -
  obtain r s1 where mk: "mkdir_parents True (rev p) s = (r, s1)" by fastforce
  have "plain (fs_tree s) p" using plain_existing[OF assms(2,3)] assms(3) by (simp add: is_link_def)
  then have m: "made True p s r s1"
    using mkdir_parents_made[OF mk assms(2)] wf_entry(1,2)[OF assms(2,3)] by simp
  have "node_of (fs_tree s1) q = node_of (fs_tree s) q" for q
  proof -
    have "node_of (fs_tree s) (take k p) = Some Directory" if "k \<le> length p" for k
      using wf_take[OF assms(2,3), of k] assms(3) that by (cases "k = length p") auto
    then show ?thesis using m unfolding made_def grown_def by (metis option.distinct(1))
  qed
  then show ?thesis using that[of s1] mk m assms(1,3) by (simp add: made_def)
qed

lemma place_cong: "place t p \<Longrightarrow> tree_wf t' \<Longrightarrow> (\<And>q. node_of t' q = node_of t q) \<Longrightarrow> place t' p"
  by (simp add: place_def)

lemma restore_file_reliable:
  assumes "fs_faults s = []" "tree_wf (fs_tree s)"
    and dir: "node_of (fs_tree s) dir = Some Directory" "dir \<noteq> []" "list_all part_ok dir"
    and only: "\<And>p. p \<noteq> [] \<Longrightarrow> butlast p = dir \<Longrightarrow> node_of (fs_tree s) p \<noteq> None \<longleftrightarrow> p = dir @ [n] \<or> p = sidecar dir"
      "n \<noteq> metadata_filename" "node_of (fs_tree s) (dir @ [n]) = Some (Regular g)"
    and dest: "place (fs_tree s) dest" "\<not> below dir dest" and mode: "int_octal mode = Some m"
  shows "\<exists>s'. restore_file pf (path_str dir) dest mode (Some uid) (Some gid) s = (Inr (), s') \<and> fs_faults s' = [] \<and>
    (\<forall>q. node_of (fs_tree s') q =
       (if q = dest then Some (Regular (g\<lparr>f_mode := of_nat m, f_uid := uid, f_gid := gid\<rparr>))
        else if below dir q then None else node_of (fs_tree s) q))"
proof -
  let ?src = "dir @ [n]"
  have ne: "dest \<noteq> []" "?src \<noteq> dest" using dest by (auto simp: place_def)
  obtain s1 where s1: "mkdir_parents True (rev (butlast dest)) s = (Inr (), s1)" "fs_faults s1 = []" "tree_wf (fs_tree s1)"
    "\<And>q. node_of (fs_tree s1) q = node_of (fs_tree s) q"
    using mkdir_existing[OF assms(1,2), of "butlast dest"] dest(1) by (auto simp: place_def)
  have p1: "place (fs_tree s1) dest" using place_cong[OF dest(1) s1(3,4)] .
  have src1: "node_of (fs_tree s1) ?src = Some (Regular g)" using only(3) s1(4) by simp
  define s2 where "s2 = put dest (Regular g) (del ?src s1)"
  have mv: "shutil_move pf ?src dest s1 = (Inr (), s2)"
    using move_to_file(2)[of pf ?src dest s1 _ _ g] s1(2,3) src1 p1 ne(2) unfolding s2_def
    by (metis prod.collapse shutil_move_file)
  have "moved ?src dest g (fs_tree s1) (Inr ()) (fs_tree s2)"
    using move_to_file(1)[of pf ?src dest s1 "Inr ()" s2 g] mv s1(3) src1 p1 ne(2) by (simp add: shutil_move_file)
  then have wf2: "tree_wf (fs_tree s2)" by (simp add: moved_def)
  have n2: "node_of (fs_tree s2) q = (if q = dest then Some (Regular g) else if q = ?src then None else node_of (fs_tree s) q)" for q
    using ne s1(4) by (simp add: s2_def)
  let ?g3 = "g\<lparr>f_mode := of_nat m\<rparr>"
  define s3 where "s3 = put dest (Regular ?g3) s2"
  have c3: "sys (os_chmod (of_nat m) dest) s2 = (Inr (), s3)"
    using on_file_regular[OF wf2, of dest g] n2[of dest] s1(2) by (simp add: s3_def s2_def)
  have wf3: "tree_wf (fs_tree s3)" using place_put[OF regular_place[OF wf2, of dest g]] n2 by (simp add: s3_def)
  let ?g4 = "?g3\<lparr>f_uid := uid, f_gid := gid\<rparr>"
  have n3: "node_of (fs_tree s3) dest = Some (Regular ?g3)" using ne by (simp add: s3_def)
  define s4 where "s4 = put dest (Regular ?g4) s3"
  have "fs_faults s3 = []" using s1(2) by (simp add: s3_def s2_def)
  then have c4: "chown_suppressed (Some uid) (Some gid) dest s3 = (Inr (), s4)" "fs_faults s4 = []"
    using on_file_regular[OF wf3 n3] by (simp_all add: chown_suppressed_def s4_def)
  have wf4: "tree_wf (fs_tree s4)" using place_put[OF regular_place[OF wf3 n3]] by (simp add: s4_def)
  have n4: "node_of (fs_tree s4) q = (if q = dest then Some (Regular ?g4) else if q = ?src then None else node_of (fs_tree s) q)" for q
    using ne n2[of q] by (simp add: s4_def s3_def)
  have d4: "node_of (fs_tree s4) dir = Some Directory" using n4[of dir] dir(1) dest(2) by auto
  let ?s5 = "s4\<lparr>fs_tree := filter (\<lambda>(p, _). \<not> below dir p) (fs_tree s4)\<rparr>"
  have "rmtree True dir s4 = (Inr (), ?s5)" by (rule rmtree_reliable[OF c4(2) wf4 d4 dir(2)])
  moreover have "is_dir (fs_tree s) dir" using kstat_node[OF assms(2) dir(1)] dir(1) by (simp add: is_dir_def is_link_def)
  moreover have "quarantined_file_path pf (path_str dir) s = (Inr ?src, s)"
    by (rule list_single[OF assms(1,2) dir(1,3) only(1,2)])
  ultimately have run: "restore_file pf (path_str dir) dest mode (Some uid) (Some gid) s = (Inr (), ?s5)"
    using s1(1) mv c3 c4 mode dir(3) by (simp add: restore_file_def Let_def)
  have "node_of (fs_tree ?s5) q =
       (if q = dest then Some (Regular ?g4) else if below dir q then None else node_of (fs_tree s) q)" for q
    using node_of_rmtree[OF dir(2), of "fs_tree s4" q] n4[of q] dest(2) by auto
  then show ?thesis using run c4(2) by auto
qed

section \<open>Resolution across the two operations\<close>

definition same_links :: "tree \<Rightarrow> tree \<Rightarrow> bool" where
  "same_links t t' \<longleftrightarrow> (\<forall>p target. node_of t p = Some (Symlink target) \<longleftrightarrow> node_of t' p = Some (Symlink target))"

lemma same_links_is_link: "same_links t t' \<Longrightarrow> is_link t p \<longleftrightarrow> is_link t' p"
proof -
  assume "same_links t t'"
  moreover have "is_link u p \<longleftrightarrow> (\<exists>target. node_of u p = Some (Symlink target))" for u
    by (auto simp: is_link_def split: option.splits node.splits)
  ultimately show ?thesis by (simp add: same_links_def)
qed

lemma joinreal_same_links:
  assumes "same_links t t'"
  shows "joinreal t' seen cur rest = joinreal t seen cur rest"
proof (induction seen cur rest rule: joinreal_walk_induct[where t = t])
  case (skip seen cur c rest)
  then show ?case by (simp add: joinreal_skip)
next
  case (up seen cur rest)
  then show ?case by (simp add: joinreal_up)
next
  case (loop seen cur c rest target)
  moreover from this have "node_of t' (cur @ [c]) = Some (Symlink target)" using assms by (simp add: same_links_def)
  ultimately show ?case by (simp add: joinreal_link)
next
  case (link seen cur c rest target)
  have "node_of t' (cur @ [c]) = Some (Symlink target)" using assms link(2) by (simp add: same_links_def)
  then show ?case using link by (auto simp: joinreal_link split: prod.splits bool.splits)
next
  case (down seen cur c rest)
  then show ?case using same_links_is_link[OF assms] by (simp add: joinreal_down)
qed simp

lemma resolve_reached: "kstat t r = Inr q \<Longrightarrow> resolve t p = Inr r \<Longrightarrow> joinreal t [] [] p = (r, True)"
proof -
  assume k: "kstat t r = Inr q" and r: "resolve t p = Inr r"
  obtain ok where j: "joinreal t [] [] p = (r, ok)" using r by (auto simp: resolve_def split: prod.splits if_splits)
  then show ?thesis using joinreal_loop[of t "[]" "[]" p r max_links q] k by (cases ok) (simp_all add: kstat_def)
qed

lemma resolve_same_links:
  assumes "same_links t t'" "resolve t p = Inr r" "kstat t r = Inr q"
  shows "resolve t' p = Inr r"
proof -
  have j: "joinreal t' [] [] p = (r, True)" using resolve_reached[OF assms(3,2)] joinreal_same_links[OF assms(1)] by simp
  then have "normal r" "link_free t' r" using joinreal_link_free[OF j] by simp_all
  then show ?thesis using j kwalk_no_eloop[of r t' "[]"] by (simp add: resolve_def kstat_def)
qed

lemma resolve_existing: "tree_wf t \<Longrightarrow> node_of t p = Some x \<Longrightarrow> \<not> is_link t p \<Longrightarrow> resolve t p = Inr p"
  using kstat_node[of t p x] kwalk_joinreal[of max_links t "[]" p p "[]"] by (simp add: resolve_def kstat_def)

lemma resolve_contained_iff:
  "resolve_contained t p base d = Inr r \<longleftrightarrow>
     (\<exists>b. resolve t base = Inr b \<and> resolve t p = Inr r \<and> below b r)"
  by (auto simp: resolve_contained_def below_def split: sum.splits exn.splits)

lemma contained_same:
  assumes "same_links t t'" "resolve_contained t p base d = Inr r" "tree_wf t" "node_of t r = Some (Regular f)"
  shows "resolve_contained t' p base d = Inr r"
proof -
  obtain b where b: "resolve t base = Inr b" "resolve t p = Inr r" "below b r"
    using assms(2) by (auto simp: resolve_contained_iff)
  have kr: "kstat t r = Inr r" using assms(3,4) by simp
  have "kstat t b = Inr b"
  proof (cases "b = r")
    case False
    then obtain e where e: "r = b @ e" "e \<noteq> []" using b(3) by (auto simp: below_iff)
    then have "node_of t b = Some Directory" using wf_prefix[OF assms(3), of b e] assms(4) by simp
    then show ?thesis using kstat_node[OF assms(3)] by (simp add: is_link_def)
  qed (simp add: kr)
  then have "resolve t' base = Inr b" using resolve_same_links[OF assms(1) b(1)] by blast
  moreover have "resolve t' p = Inr r" using resolve_same_links[OF assms(1) b(2) kr] .
  ultimately show ?thesis using b(3) by (auto simp: resolve_contained_iff)
qed

section \<open>The two operations together\<close>

text \<open>What a successful quarantine on a reliable disk leaves, in the form restoring needs.\<close>

lemma quarantined_tree:
  assumes "incident_frame t t' source dir f" "tree_wf t" "node_of t source = Some (Regular f)" "node_of t dir = None"
    and "node_of t' source = None" "node_of t' (stored source dir) = Some (Regular g)"
    and "node_of t' (sidecar dir) = Some (Regular h)" "last source \<noteq> metadata_filename"
  shows "same_links t t'" "place t' source" "\<not> below dir source" "node_of t' dir = Some Directory" "tree_wf t'"
    "p \<noteq> [] \<Longrightarrow> butlast p = dir \<Longrightarrow> node_of t' p \<noteq> None \<longleftrightarrow> p = stored source dir \<or> p = sidecar dir"
    "p \<noteq> source \<Longrightarrow> \<not> below dir p \<Longrightarrow> node_of t' p = node_of t p \<or>
       node_of t p = None \<and> node_of t' p = Some Directory \<and> (\<exists>k < length dir. p = take k dir)"
    "below dir p \<Longrightarrow> node_of t p = None"
proof -
  have fr: "node_of t' q = node_of t q \<or> node_of t q = None \<and> node_of t' q = Some Directory \<and> (\<exists>k \<le> length dir. q = take k dir)"
    if "q \<noteq> source" "q \<noteq> stored source dir" "q \<noteq> sidecar dir" for q
    using assms(1) that unfolding incident_frame_def by blast
  show wf: "tree_wf t'" using assms(1) by (simp add: incident_frame_def)
  show none: "below dir p \<Longrightarrow> node_of t p = None" for p
    using assms(4) wf_missing[OF assms(2), of dir] by (auto simp: below_iff) (metis append_Nil2 not_None_eq option.distinct(1))
  show nb: "\<not> below dir source" using none assms(3) by auto
  show "node_of t' dir = Some Directory" using wf_entry(3)[OF wf assms(7)] by simp
  have st: "below dir (stored source dir)" "below dir (sidecar dir)" by simp_all
  show "same_links t t'" unfolding same_links_def
  proof (intro allI)
    fix p target
    show "node_of t p = Some (Symlink target) \<longleftrightarrow> node_of t' p = Some (Symlink target)"
      using fr[of p] assms(3,5,6,7) none[OF st(1)] none[OF st(2)]
      by (cases "p = source"; cases "p = stored source dir"; cases "p = sidecar dir") auto
  qed
  have "node_of t (butlast source) = Some Directory" using regular_parent[OF assms(2,3)] .
  moreover have "butlast source \<noteq> source" using regular_not_Nil[OF assms(3)] by (metis length_butlast diff_less length_greater_0_conv less_irrefl zero_less_one One_nat_def)
  moreover have "butlast source \<noteq> stored source dir" "butlast source \<noteq> sidecar dir"
    using calculation(1) none[OF st(1)] none[OF st(2)] by auto
  ultimately have "node_of t' (butlast source) = Some Directory" using fr[of "butlast source"] by auto
  then show "place t' source"
    using wf assms(5) wf_entry(1,2)[OF assms(2,3)] regular_not_Nil[OF assms(3)] by (simp add: place_def)
  show "node_of t' p \<noteq> None \<longleftrightarrow> p = stored source dir \<or> p = sidecar dir" if p: "p \<noteq> []" "butlast p = dir"
  proof -
    have e: "p = dir @ [last p]" using append_butlast_last_id[OF p(1)] p(2) by simp
    have "below dir p" unfolding below_iff using e by blast
    moreover have "p \<noteq> take k dir" for k
    proof
      assume "p = take k dir"
      then have "length p \<le> length dir" by simp
      then show False using e by (metis Suc_n_not_le_n length_append_singleton)
    qed
    ultimately show ?thesis using fr[of p] none[of p] nb assms(6,7)
      by (cases "p = source"; cases "p = stored source dir"; cases "p = sidecar dir") auto
  qed
  show "node_of t' p = node_of t p \<or>
       node_of t p = None \<and> node_of t' p = Some Directory \<and> (\<exists>k < length dir. p = take k dir)"
    if p: "p \<noteq> source" "\<not> below dir p"
  proof -
    have "p \<noteq> stored source dir" "p \<noteq> sidecar dir" using p(2) by auto
    then show ?thesis using fr[OF p(1)] p(2) by (metis below_self le_neq_implies_less take_all_iff order_refl)
  qed
qed

text \<open>C24. Round trip, for \<open>FilesystemFileRemediator\<close> on a reliable disk: a file that is
  quarantined and then restored with what the quarantine returned is back at
  its physical place with its bytes, its owner and its nine permission bits
  (set-uid, set-gid and sticky are not kept), the incident folder is gone and
  no other file of the tree has changed.\<close>

theorem quarantine_restore_roundtrip:
  assumes "fs_faults s = []"
    and "quarantine_ready pf (fs_tree s) (quarantine_root @ [user_value (ac_username account)]) detected_at"
    and "resolve_contained (fs_tree s) (path_parts (abs_value (ac_home_directory account)) @ path_parts (rel_value rel))
           (path_parts (abs_value (ac_home_directory account)))
           (rel_value rel @ '' under '' @ user_value (ac_username account) @ CHR 0x27 # ''s home directory'') = Inr source"
    and "node_of (fs_tree s) source = Some (Regular f)" "last source \<noteq> metadata_filename"
    and "node_of (fs_tree s) (quarantine_root @ [user_value (ac_username account),
           pf_stamp pf detected_at @ ''-'' @ last source]) = None"
    and "rm_quarantine (filesystem_remediator pf quarantine_root) account rel reason sev detected_at s = (Inr q, s1)"
    and "rm_restore (filesystem_remediator pf quarantine_root) account rel (qf_quarantine_path q) (qf_mode q)
           (Some (qf_owner_uid q)) (Some (qf_owner_gid q)) s1 = (r, s2)"
  shows "r = Inr () \<and> node_of (fs_tree s1) source = None \<and>
    node_of (fs_tree s2) source = Some (Regular (f\<lparr>f_mode := and (f_mode f) 0x1FF\<rparr>)) \<and>
    (\<forall>p. p \<noteq> source \<longrightarrow> node_of (fs_tree s2) p = node_of (fs_tree s) p \<or>
       node_of (fs_tree s) p = None \<and> node_of (fs_tree s2) p = Some Directory \<and>
       below p (quarantine_root @ [user_value (ac_username account)]))"
proof -
  let ?u = "user_value (ac_username account)" and ?home = "path_parts (abs_value (ac_home_directory account))"
  let ?what = "rel_value rel @ '' under '' @ user_value (ac_username account) @ CHR 0x27 # ''s home directory''"
  define dir where "dir = quarantine_root @ [?u, pf_stamp pf detected_at @ ''-'' @ last source]"
  have wf: "tree_wf (fs_tree s)" using assms(2) by (simp add: quarantine_ready_def)
  have run: "quarantine_file pf source (quarantine_root @ [?u]) reason sev detected_at s = (Inr q, s1)"
    using assms(3,7) by (simp add: filesystem_remediator_def root_quarantine_def)
  have free: "node_of (fs_tree s) ((quarantine_root @ [?u]) @ [pf_stamp pf detected_at @ ''-'' @ last source]) = None"
    using assms(6) by simp
  let ?d = "(quarantine_root @ [?u]) @ [pf_stamp pf detected_at @ ''-'' @ last source]"
  have d: "?d = dir" by (simp add: dir_def)
  have k: "incident_frame (fs_tree s) (fs_tree s1) source dir f \<and> fs_faults s1 = [] \<and>
    q = \<lparr>qf_quarantine_path = path_str dir, qf_mode = mode_str (f_mode f),
         qf_size_bytes = int (length (f_bytes f)), qf_owner_uid = f_uid f, qf_owner_gid = f_gid f\<rparr> \<and>
    node_of (fs_tree s1) (stored source dir) = Some (Regular (f\<lparr>f_mode := 0x180\<rparr>)) \<and>
    node_of (fs_tree s1) source = None \<and> node_of (fs_tree s) dir = None \<and>
    (\<exists>g. node_of (fs_tree s1) (sidecar dir) = Some (Regular g))"
  proof (rule quarantine_file_keeps[OF run assms(2,4,5)])
    fix e
    assume fr: "incident_frame (fs_tree s) (fs_tree s1) source e f"
      and ok: "\<And>q'. Inr q = Inr q' \<Longrightarrow> qf_quarantine_path q' = path_str e \<and> node_of (fs_tree s1) source = None \<and>
        node_of (fs_tree s) e = None \<and> (\<exists>g. node_of (fs_tree s1) (sidecar e) = Some (Regular g) \<and>
            f_bytes g = pf_dumps pf (quarantine_metadata pf source f reason sev detected_at))"
      and rel: "fs_faults s = [] \<Longrightarrow> node_of (fs_tree s) ?d = None \<Longrightarrow> e = ?d \<and> fs_faults s1 = [] \<and>
        Inr q = Inr \<lparr>qf_quarantine_path = path_str e, qf_mode = mode_str (f_mode f),
         qf_size_bytes = int (length (f_bytes f)), qf_owner_uid = f_uid f, qf_owner_gid = f_gid f\<rparr> \<and>
        node_of (fs_tree s1) (stored source e) = Some (Regular (f\<lparr>f_mode := 0x180\<rparr>))"
    have "e = dir" using rel[OF assms(1) free] d by simp
    then show ?thesis using fr ok[OF refl] rel[OF assms(1) free] by blast
  qed
  then obtain h where h: "node_of (fs_tree s1) (sidecar dir) = Some (Regular h)" by blast
  have t0: "incident_frame (fs_tree s) (fs_tree s1) source dir f" "node_of (fs_tree s) dir = None"
    "node_of (fs_tree s1) source = None" "node_of (fs_tree s1) (stored source dir) = Some (Regular (f\<lparr>f_mode := 0x180\<rparr>))"
    "fs_faults s1 = []" using k by blast+
  have q: "qf_quarantine_path q = path_str dir" "qf_owner_uid q = f_uid f" "qf_owner_gid q = f_gid f"
    "qf_mode q = mode_str (f_mode f)" using k by simp_all
  note t = quarantined_tree[OF t0(1) wf assms(4) t0(2-4) h assms(5)]
  have parts: "list_all part_ok dir" using wf_entry(2)[OF t(5,4)] .
  have ne: "dir \<noteq> []" by (simp add: dir_def)
  have "resolve (fs_tree s1) dir = Inr dir" using resolve_existing[OF t(5,4)] t(4) by (simp add: is_link_def)
  moreover have "node_of (fs_tree s1) quarantine_root = Some Directory"
    using wf_prefix[OF t(5), of quarantine_root "[?u, pf_stamp pf detected_at @ ''-'' @ last source]"] t(4)
    by (simp add: dir_def)
  then have "resolve (fs_tree s1) quarantine_root = Inr quarantine_root"
    using resolve_existing[OF t(5)] by (simp add: is_link_def)
  ultimately have rq: "resolve_contained (fs_tree s1) dir quarantine_root d = Inr dir" for d
    by (auto simp: resolve_contained_iff below_iff dir_def)
  have dest: "resolve_contained (fs_tree s1) (?home @ path_parts (rel_value rel)) ?home ?what = Inr source"
    by (rule contained_same[OF t(1) assms(3) wf assms(4)])
  have m: "int_octal (qf_mode q) = Some (unat (and (f_mode f) 0x1FF))" using q(4) int_octal_mode_str by simp
  obtain s' where s': "restore_file pf (path_str dir) source (qf_mode q) (Some (f_uid f)) (Some (f_gid f)) s1 = (Inr (), s')"
    "\<And>p. node_of (fs_tree s') p =
       (if p = source then Some (Regular ((f\<lparr>f_mode := 0x180\<rparr>)\<lparr>f_mode := of_nat (unat (and (f_mode f) 0x1FF)), f_uid := f_uid f, f_gid := f_gid f\<rparr>))
        else if below dir p then None else node_of (fs_tree s1) p)"
    using restore_file_reliable[OF t0(5) t(5,4) ne parts t(6) assms(5) t0(4) t(2,3) m] by blast
  have "rm_restore (filesystem_remediator pf quarantine_root) account rel (path_str dir) (qf_mode q)
      (Some (f_uid f)) (Some (f_gid f)) s1 = (Inr (), s')"
    using dest rq parts s'(1) by (simp add: filesystem_remediator_def root_restore_def)
  then have r: "r = Inr ()" "s2 = s'" using assms(8) q by simp_all
  have src: "node_of (fs_tree s2) source = Some (Regular (f\<lparr>f_mode := and (f_mode f) 0x1FF\<rparr>))"
    using s'(2)[of source] r(2) by (simp add: file_data.equality)
  have other: "node_of (fs_tree s2) p = node_of (fs_tree s) p \<or>
       node_of (fs_tree s) p = None \<and> node_of (fs_tree s2) p = Some Directory \<and> below p (quarantine_root @ [?u])"
    if p: "p \<noteq> source" for p
  proof (cases "below dir p")
    case True
    then show ?thesis using s'(2)[of p] r(2) p t(8)[of p] by simp
  next
    case False
    have "below (take k dir) (quarantine_root @ [?u])" if "k < length dir" for k
    proof -
      have "k - length (quarantine_root @ [?u]) = 0" using that by (simp add: dir_def)
      then have "take k dir = take k (quarantine_root @ [?u])" unfolding d[symmetric] take_append by simp
      then show ?thesis unfolding below_iff by (metis append_take_drop_id)
    qed
    then show ?thesis using s'(2)[of p] r(2) p False t(7)[OF p False] by auto
  qed
  show ?thesis using r(1) t0(3) src other by blast
qed

text \<open>C25. A path accepted by \<open>resolve_contained\<close> lies below the resolved root, and whatever
  the kernel opens at it is that very node: no symbolic link, in the path or in
  a link's target, leads out of the root.\<close>

theorem resolve_contained_safe:
  assumes "resolve_contained t p base d = Inr r"
  shows "\<exists>b. resolve t base = Inr b \<and> take (length b) r = b \<and>
    (\<forall>q. kstat t r = Inr q \<longrightarrow> q = r \<and> link_free t r)"
  using assms resolve_physical[of t p r] by (auto simp: resolve_contained_iff below_def)

section \<open>A concrete quarantine\<close>

definition demo_platform :: platform where
  "demo_platform = \<lparr>pf_error = \<lambda>_ _. ''error'', pf_stamp = \<lambda>_. ''20250101'', pf_iso = \<lambda>_. ''2025'',
     pf_sha256 = \<lambda>_. ''abc'', pf_dumps = \<lambda>_. ''{}'', pf_loads = \<lambda>_. None, pf_uid = 0, pf_gid = 0, pf_new_mode = 420\<rparr>"

definition demo_files :: "string \<Rightarrow> tree" where
  "demo_files n = [([''home''], Directory), ([''home'', ''bob''], Directory),
     ([''home'', ''bob'', n], Regular \<lparr>f_bytes = ''<?php'', f_mode = 420, f_uid = 7, f_gid = 7\<rparr>),
     ([''q''], Directory)]"

definition demo_fs :: "string \<Rightarrow> os_fault option list \<Rightarrow> fs" where
  "demo_fs n fl = \<lparr>fs_tree = demo_files n, fs_faults = fl, fs_uuids = []\<rparr>"

definition demo_bob :: cpanel_account where
  "demo_bob = \<lparr>eid = 3, created_at = 0, updated_at = 0, ac_server_id = 4, ac_username = LinuxUsername ''bob'',
     ac_primary_domain = DomainName ''x.com'', ac_home_directory = AbsoluteFilePath ''/home/bob'',
     ac_is_suspended = False, ac_last_seen_at = 0, ac_is_active = True\<rparr>"

text \<open>The disk fails when the file is renamed and again when the copy is unlinked.\<close>

definition demo_faults :: "os_fault option list" where
  "demo_faults = [None, None, None, Some ENOENT, None, None, Some (EOTHER 18), None, None, None, None, Some EPERM]"

definition demo_quarantine :: "string \<Rightarrow> os_fault option list \<Rightarrow> quarantined_file res \<times> fs" where
  "demo_quarantine n fl = rm_quarantine (filesystem_remediator demo_platform [''q'']) demo_bob (RelativeFilePath n)
     ''MODIFIED file change'' CRITICAL 5 (demo_fs n fl)"

theorem resolve_contained_safe_witness: "link_free (demo_files ''a.php'') [''home'', ''bob'', ''a.php'']"
proof -
  have r: "resolve_contained (demo_files ''a.php'') [''home'', ''bob'', ''a.php''] [''home'', ''bob''] [] =
      Inr [''home'', ''bob'', ''a.php'']" by code_simp
  have "kstat (demo_files ''a.php'') [''home'', ''bob'', ''a.php''] = Inr [''home'', ''bob'', ''a.php'']" by code_simp
  then show ?thesis using resolve_contained_safe[OF r] by blast
qed

lemma plain_child:
  assumes "tree_wf t" "node_of t p = Some Directory" "node_of t (p @ [c]) = None"
  shows "plain t (p @ [c])"
proof -
  have "node_of t (take k p) = Some Directory" if "k \<le> length p" for k
    using wf_take[OF assms(1,2), of k] assms(2) that by (cases "k = length p") auto
  then show ?thesis using assms(3) by (simp add: plain_def is_link_def)
qed

lemma demo_files_wf: "tree_wf (demo_files ''a.php'')"
  by (simp add: tree_wf_def demo_files_def node_of_def part_ok_def)

lemma demo_quarantine_ready: "quarantine_ready demo_platform (demo_files ''a.php'') [''q'', ''bob''] 5"
proof -
  have "plain (demo_files ''a.php'') ([''q''] @ [''bob''])"
    by (rule plain_child[OF demo_files_wf]) (simp_all add: demo_files_def node_of_def)
  then show ?thesis
    using demo_files_wf
    by (simp add: quarantine_ready_def demo_platform_def demo_files_def node_of_def part_ok_def is_link_def)
qed

lemma demo_file:
  "node_of (demo_files n) [''home'', ''bob'', n] =
     Some (Regular \<lparr>f_bytes = ''<?php'', f_mode = 420, f_uid = 7, f_gid = 7\<rparr>)"
  by (simp add: demo_files_def node_of_def)

theorem quarantine_never_loses_witness:
  "\<exists>dir. node_of (fs_tree (snd (quarantine_file demo_platform [''home'', ''bob'', ''a.php''] [''q'', ''bob''] [] HIGH 5
        (demo_fs ''a.php'' demo_faults)))) [''home'', ''bob'', ''a.php''] \<noteq> None \<or>
     node_of (fs_tree (snd (quarantine_file demo_platform [''home'', ''bob'', ''a.php''] [''q'', ''bob''] [] HIGH 5
        (demo_fs ''a.php'' demo_faults)))) (dir @ [''a.php'']) \<noteq> None"
proof -
  let ?s = "snd (quarantine_file demo_platform [''home'', ''bob'', ''a.php''] [''q'', ''bob''] [] HIGH 5
        (demo_fs ''a.php'' demo_faults))"
  have "quarantine_ready demo_platform (fs_tree (demo_fs ''a.php'' demo_faults)) [''q'', ''bob''] 5"
    using demo_quarantine_ready by (simp add: demo_fs_def)
  moreover have "node_of (fs_tree (demo_fs ''a.php'' demo_faults)) [''home'', ''bob'', ''a.php''] =
      Some (Regular \<lparr>f_bytes = ''<?php'', f_mode = 420, f_uid = 7, f_gid = 7\<rparr>)"
    using demo_file by (simp add: demo_fs_def)
  moreover have "last [''home'', ''bob'', ''a.php''] \<noteq> metadata_filename" by (simp add: metadata_filename_def)
  ultimately have "\<exists>dir. butlast dir = [''q'', ''bob''] \<and> dir \<noteq> [] \<and>
    (node_of (fs_tree ?s) [''home'', ''bob'', ''a.php''] = Some (Regular \<lparr>f_bytes = ''<?php'', f_mode = 420, f_uid = 7, f_gid = 7\<rparr>) \<or>
     node_of (fs_tree ?s) [''home'', ''bob'', ''a.php''] = None \<and>
       (\<exists>g. node_of (fs_tree ?s) (dir @ [last [''home'', ''bob'', ''a.php'']]) = Some (Regular g) \<and> f_bytes g = ''<?php''))"
    using quarantine_never_loses[OF prod.collapse[symmetric]] by fastforce
  then show ?thesis by fastforce
qed

theorem quarantine_restore_roundtrip_witness:
  "case demo_quarantine ''a.php'' [] of (Inl _, _) \<Rightarrow> False
   | (Inr q, s1) \<Rightarrow> fst (rm_restore (filesystem_remediator demo_platform [''q'']) demo_bob (RelativeFilePath ''a.php'')
        (qf_quarantine_path q) (qf_mode q) (Some (qf_owner_uid q)) (Some (qf_owner_gid q)) s1) = Inr ()"
proof -
  have "\<not> isl (fst (demo_quarantine ''a.php'' []))" by code_simp
  then obtain q s1 where r: "rm_quarantine (filesystem_remediator demo_platform [''q'']) demo_bob (RelativeFilePath ''a.php'')
     ''MODIFIED file change'' CRITICAL 5 (demo_fs ''a.php'' []) = (Inr q, s1)"
    unfolding demo_quarantine_def by (metis prod.collapse sum.collapse(2))
  have qr: "quarantine_ready demo_platform (fs_tree (demo_fs ''a.php'' [])) ([''q''] @ [user_value (ac_username demo_bob)]) 5"
    using demo_quarantine_ready by (simp add: demo_fs_def demo_bob_def)
  have res: "resolve_contained (fs_tree (demo_fs ''a.php'' []))
      (path_parts (abs_value (ac_home_directory demo_bob)) @ path_parts (rel_value (RelativeFilePath ''a.php'')))
      (path_parts (abs_value (ac_home_directory demo_bob)))
      (rel_value (RelativeFilePath ''a.php'') @ '' under '' @ user_value (ac_username demo_bob) @ CHR 0x27 # ''s home directory'') =
      Inr [''home'', ''bob'', ''a.php'']" by code_simp
  have f: "fs_faults (demo_fs ''a.php'' []) = []" "node_of (fs_tree (demo_fs ''a.php'' [])) [''home'', ''bob'', ''a.php''] =
      Some (Regular \<lparr>f_bytes = ''<?php'', f_mode = 420, f_uid = 7, f_gid = 7\<rparr>)"
    using demo_file by (simp_all add: demo_fs_def)
  have m: "last [''home'', ''bob'', ''a.php''] \<noteq> metadata_filename" by (simp add: metadata_filename_def)
  have free: "node_of (fs_tree (demo_fs ''a.php'' [])) ([''q''] @ [user_value (ac_username demo_bob),
           pf_stamp demo_platform 5 @ ''-'' @ last [''home'', ''bob'', ''a.php'']]) = None"
    by (simp add: demo_fs_def demo_files_def demo_bob_def demo_platform_def node_of_def)
  show ?thesis
    using quarantine_restore_roundtrip[OF f(1) qr res f(2) m free r prod.collapse[symmetric]] r
    by (simp add: demo_quarantine_def)
qed

text \<open>A file named as the record is: its quarantine succeeds, but the record has
  overwritten it, and the folder cannot be restored.\<close>

theorem metadata_file_lost:
  "case demo_quarantine ''metadata.json'' [] of (Inl _, _) \<Rightarrow> False
   | (Inr q, s1) \<Rightarrow>
       node_of (fs_tree s1) [''home'', ''bob'', ''metadata.json''] = None \<and>
       node_of (fs_tree s1) (path_parts (qf_quarantine_path q) @ [''metadata.json'']) =
         Some (Regular \<lparr>f_bytes = ''{}'', f_mode = 0x180, f_uid = 7, f_gid = 7\<rparr>) \<and>
       fst (restore_file demo_platform (qf_quarantine_path q) [''home'', ''bob'', ''metadata.json''] (qf_mode q) None None s1) =
         Inl (FileRemediationError (''Expected exactly one quarantined file in '' @ qf_quarantine_path q @ '', found 0''))"
  by code_simp

section \<open>Symbolic link loops\<close>

definition demo_loop :: tree where
  "demo_loop = [([''home''], Directory), ([''home'', ''bob''], Directory),
     ([''home'', ''bob'', ''a''], Symlink ''b''), ([''home'', ''bob'', ''b''], Symlink ''a''), ([''q''], Directory)]"

text \<open>A link loop surfaces as an exception that is no \<open>FileRemediationError\<close>: the loop of
  \<open>AutoQuarantineCriticalFindingsUseCase\<close> does not catch it.\<close>

lemma symlink_loop_escapes:
  "fst (rm_quarantine (filesystem_remediator demo_platform [''q'']) demo_bob (RelativeFilePath ''a/x.php'') [] CRITICAL 5
     \<lparr>fs_tree = demo_loop, fs_faults = [], fs_uuids = []\<rparr>) =
   Inl (OtherError (''Symlink loop from '' @ CHR 0x27 # ''/home/bob/a/x.php'' @ [CHR 0x27]))"
  by code_simp

end
