(* ===== verification/Directory_Walk.thy ===== *)
theory Directory_Walk
  imports Quarantine_Roundtrip
begin

text \<open>
  Walking a directory tree, as \<open>FilesystemFileScanner._walk\<close> and \<open>PhpMalwareScanner._walk\<close> do, on the
  file system of \<^theory_text>\<open>File_Quarantine\<close>: every listing may fail. On a disk without faults a
  walk finds exactly the regular files below the directory.
\<close>

section \<open>Walking a directory\<close>

text \<open>\<open>_walk\<close> of the scanners: the regular files below a directory, links neither reported nor
  followed; a directory that cannot be listed counts as empty. The first argument bounds the depth.\<close>

fun walk :: "nat \<Rightarrow> path \<Rightarrow> fs \<Rightarrow> path list \<times> fs"
and walk_entries :: "nat \<Rightarrow> path \<Rightarrow> string list \<Rightarrow> fs \<Rightarrow> path list \<times> fs" where
  "walk 0 d s = ([], s)"
| "walk (Suc n) d s =
     (case sys (os_listdir d) s of
        (Inl _, s) \<Rightarrow> ([], s)
      | (Inr entries, s) \<Rightarrow> walk_entries n d entries s)"
| "walk_entries n d [] s = ([], s)"
| "walk_entries n d (c # cs) s =
     (let p = d @ [c] in
      if is_symlink (fs_tree s) p then walk_entries n d cs s
      else if is_dir (fs_tree s) p then
        (let (found, s) = walk n p s; (others, s) = walk_entries n d cs s in (found @ others, s))
      else if is_file (fs_tree s) p then (let (others, s) = walk_entries n d cs s in (p # others, s))
      else walk_entries n d cs s)"

text \<open>No path of the tree is as long as this, so the bound is never met.\<close>

definition tree_depth :: "tree \<Rightarrow> nat" where
  "tree_depth t = Suc (foldr max (map (length \<circ> fst) t) 0)"

definition walk_all :: "path \<Rightarrow> fs \<Rightarrow> path list \<times> fs" where
  "walk_all d s = walk (tree_depth (fs_tree s)) d s"

lemma tree_depth: "p \<in> fst ` set t \<Longrightarrow> length p < tree_depth t"
proof (induction t)
  case (Cons x t)
  then show ?case by (auto simp: tree_depth_def less_Suc_eq_le le_max_iff_disj)
qed simp

definition regular_below :: "tree \<Rightarrow> path \<Rightarrow> path set" where
  "regular_below t d = {p. take (length d) p = d \<and> p \<noteq> d \<and> (\<exists>f. node_of t p = Some (Regular f))}"

lemma listdir_wf:
  assumes "tree_wf (fs_tree s)" "fs_faults s = []" "node_of (fs_tree s) d = Some Directory"
  shows "sys (os_listdir d) s = (Inr (map last (children (fs_tree s) d)), s)"
  using assms kstat_node [of "fs_tree s" d Directory]
  by (simp add: sys_def os_listdir_def is_link_def)

lemma entry_kind:
  assumes "tree_wf t" "node_of t p = Some x" "p \<noteq> []"
  shows "is_symlink t p = (\<exists>l. x = Symlink l)" "\<not> is_symlink t p \<Longrightarrow> is_dir t p = (x = Directory)"
    "\<not> is_symlink t p \<Longrightarrow> is_file t p = (\<exists>f. x = Regular f)"
proof -
  have l: "lpath t p = Inr p" using assms by (rule lpath_node)
  show sl: "is_symlink t p = (\<exists>l. x = Symlink l)"
    using assms(2) by (auto simp: is_symlink_def l is_link_def split: node.split)
  show "is_dir t p = (x = Directory)" "is_file t p = (\<exists>f. x = Regular f)" if "\<not> is_symlink t p"
    using kstat_node [OF assms(1,2)] that l assms(2)
    by (auto simp: is_symlink_def is_dir_def is_file_def split: node.split)
qed

lemma regular_below_entry:
  assumes "tree_wf t" "node_of t p = Some (Regular f)" "take (length d) p = d" "p \<noteq> d"
  shows "\<exists>c e. p = d @ c # e \<and> node_of t (d @ [c]) \<noteq> None \<and> (e \<noteq> [] \<longrightarrow> node_of t (d @ [c]) = Some Directory)"
proof -
  obtain e where p: "p = d @ e" using assms(3) by (metis append_take_drop_id)
  then obtain c e' where e: "e = c # e'" using assms(4) by (cases e) auto
  have "e' \<noteq> [] \<longrightarrow> node_of t (d @ [c]) = Some Directory"
    using wf_prefix [of t "d @ [c]" e'] assms(1,2) p e by auto
  moreover have "node_of t (d @ [c]) \<noteq> None" using calculation assms(2) p e by (cases e') auto
  ultimately show ?thesis using p e by blast
qed

lemma walk_entries_exact:
  assumes IH: "\<And>d. node_of t d = Some Directory \<Longrightarrow> (\<forall>p \<in> fst ` set t. length p < length d + n) \<Longrightarrow>
      \<exists>found. walk n d s = (found, s) \<and> distinct found \<and> set found = regular_below t d"
    and t: "tree_wf t" "fs_tree s = t" and depth: "\<forall>p \<in> fst ` set t. length p < length d + Suc n"
  shows "distinct cs \<Longrightarrow> \<forall>c \<in> set cs. node_of t (d @ [c]) \<noteq> None \<Longrightarrow>
    \<exists>found. walk_entries n d cs s = (found, s) \<and> distinct found \<and>
      set found = (\<Union>c \<in> set cs. {p. take (Suc (length d)) p = d @ [c] \<and> (\<exists>f. node_of t p = Some (Regular f))})"
proof (induction cs)
  case (Cons c cs)
  let ?under = "\<lambda>c. {p. take (Suc (length d)) p = d @ [c] \<and> (\<exists>f. node_of t p = Some (Regular f))}"
  obtain x where x: "node_of t (d @ [c]) = Some x" using Cons.prems by auto
  obtain others where o: "walk_entries n d cs s = (others, s)" "distinct others" "set others = (\<Union>c \<in> set cs. ?under c)"
    using Cons by auto
  have disj: "?under c \<inter> (\<Union>c \<in> set cs. ?under c) = {}" using Cons.prems(1) by auto
  note kind = entry_kind [OF t(1) x]
  have only: "?under c = (if \<exists>f. x = Regular f then {d @ [c]} else {})" if "x \<noteq> Directory"
  proof -
    have "p = d @ [c]" if p: "take (Suc (length d)) p = d @ [c]" "node_of t p = Some y" for p y
    proof -
      obtain e where e: "p = (d @ [c]) @ e" using p(1) by (metis append_take_drop_id)
      have "e = []" using wf_prefix [of t "d @ [c]" e y] t(1) p(2) e x \<open>x \<noteq> Directory\<close> by auto
      then show ?thesis using e by simp
    qed
    then have "?under c = {p. p = d @ [c] \<and> (\<exists>f. node_of t p = Some (Regular f))}" by force
    then show ?thesis using x by auto
  qed
  show ?case
  proof (cases x)
    case (Regular f)
    then show ?thesis using o kind only disj t(2) by (auto simp: Let_def)
  next
    case (Symlink l)
    then show ?thesis using o kind only t(2) by (auto simp: Let_def)
  next
    case Directory
    obtain found where f: "walk n (d @ [c]) s = (found, s)" "distinct found" "set found = regular_below t (d @ [c])"
      using IH [of "d @ [c]"] x Directory depth by auto
    have "regular_below t (d @ [c]) = ?under c"
      using x Directory by (auto simp: regular_below_def)
    then show ?thesis using o f kind Directory disj t(2) by (auto simp: Let_def)
  qed
qed simp

lemma listing_distinct: "distinct (map last (children t d))"
proof -
  have inj: "inj_on last {p. p \<noteq> [] \<and> butlast p = d}"
  proof (rule inj_onI)
    fix p q assume "p \<in> {p. p \<noteq> [] \<and> butlast p = d}" "q \<in> {p. p \<noteq> [] \<and> butlast p = d}" "last p = last q"
    then show "p = q" using append_butlast_last_id [of p] append_butlast_last_id [of q] by simp
  qed
  have "set (children t d) \<subseteq> {p. p \<noteq> [] \<and> butlast p = d}" by (auto simp: children_def)
  then have "inj_on last (set (children t d))" by (rule inj_on_subset [OF inj])
  then show ?thesis by (simp add: distinct_map children_def)
qed

lemma walk_exact:
  assumes "tree_wf (fs_tree s)" "fs_faults s = []"
  shows "node_of (fs_tree s) d = Some Directory \<Longrightarrow> \<forall>p \<in> fst ` set (fs_tree s). length p < length d + n \<Longrightarrow>
    \<exists>found. walk n d s = (found, s) \<and> distinct found \<and> set found = regular_below (fs_tree s) d"
proof (induction n arbitrary: d)
  case 0
  have "regular_below (fs_tree s) d = {}"
  proof -
    have False if p: "take (length d) p = d" "p \<noteq> d" "node_of (fs_tree s) p = Some (Regular f)" for p f
    proof -
      have l: "length d \<le> length p" using arg_cong [OF p(1), of length] by simp
      have "p \<noteq> []" using p by auto
      then have "p \<in> fst ` set (fs_tree s)" using node_of_entry [OF p(3)] by force
      then show False using 0(2) l by auto
    qed
    then show ?thesis by (auto simp: regular_below_def)
  qed
  then show ?case by simp
next
  case (Suc n)
  let ?t = "fs_tree s" and ?cs = "map last (children (fs_tree s) d)"
  have dist: "distinct ?cs" by (rule listing_distinct)
  have mem: "c \<in> set ?cs \<longleftrightarrow> node_of ?t (d @ [c]) \<noteq> None" for c
  proof
    assume "node_of ?t (d @ [c]) \<noteq> None"
    then have "d @ [c] \<in> set (children ?t d)" by (simp add: children_iff del: not_None_eq)
    then show "c \<in> set ?cs" by (metis image_eqI last_snoc set_map)
  next
    assume "c \<in> set ?cs"
    then obtain p where "p \<in> set (children ?t d)" "c = last p" by auto
    then show "node_of ?t (d @ [c]) \<noteq> None"
      using append_butlast_last_id [of p] by (simp add: children_iff del: not_None_eq)
  qed
  have all: "\<forall>c \<in> set ?cs. node_of ?t (d @ [c]) \<noteq> None" using mem by blast
  obtain found where f: "walk_entries n d ?cs s = (found, s)" "distinct found"
    "set found = (\<Union>c \<in> set ?cs. {p. take (Suc (length d)) p = d @ [c] \<and> (\<exists>f. node_of ?t p = Some (Regular f))})"
    using walk_entries_exact [of ?t n s d ?cs, OF Suc.IH assms(1) refl Suc.prems(2) dist all] by blast
  have "set found = regular_below ?t d"
  proof
    show "set found \<subseteq> regular_below ?t d"
    proof
      fix p assume "p \<in> set found"
      then obtain c g where p: "take (Suc (length d)) p = d @ [c]" "node_of ?t p = Some (Regular g)"
        using f(3) by auto
      then obtain e where "p = d @ c # e" by (metis append_take_drop_id append.assoc append_Cons append_Nil)
      then show "p \<in> regular_below ?t d" using p(2) by (simp add: regular_below_def)
    qed
    show "regular_below ?t d \<subseteq> set found"
    proof
      fix p assume p: "p \<in> regular_below ?t d"
      then obtain g where g: "node_of ?t p = Some (Regular g)" "take (length d) p = d" "p \<noteq> d"
        by (auto simp: regular_below_def)
      from regular_below_entry [OF assms(1) this] obtain c e where "p = d @ c # e" "c \<in> set ?cs"
        using mem by blast
      then show "p \<in> set found" using f(3) g(1) by auto
    qed
  qed
  then show ?case using f listdir_wf [OF assms Suc.prems(1)] by simp
qed

lemma walk_all_exact:
  assumes "tree_wf (fs_tree s)" "fs_faults s = []" "node_of (fs_tree s) d = Some Directory"
  shows "\<exists>found. walk_all d s = (found, s) \<and> distinct found \<and> set found = regular_below (fs_tree s) d"
  unfolding walk_all_def
  by (rule walk_exact [OF assms]) (use tree_depth in fastforce)

text \<open>The path of a place in the tree is a valid absolute path.\<close>

lemma path_str_absolute:
  assumes "p \<noteq> []" "list_all part_ok p" "''..'' \<notin> set p"
  shows "absolute_file_path (path_str p) = Inr (AbsoluteFilePath (path_str p))"
proof -
  have "list_all (\<lambda>c. CHR ''/'' \<notin> set c) p" using assms(2) by (auto simp: list_all_iff part_ok_def)
  then have "str_split CHR ''/'' (str_join ''/'' p) = p" using assms(1) by (intro str_split_join)
  then have "''..'' \<notin> set (str_split CHR ''/'' (path_str p))" using assms(3) by (simp add: path_str_def)
  then show ?thesis by (simp add: absolute_file_path_def path_str_def str_startswith_def)
qed

end
