(* ===== verification/Account_Reader.thy ===== *)
theory Account_Reader
  imports Good_Database Directory_Walk
begin

text \<open>
  \<open>TrueUserDomainsReader\<close> (\<open>infrastructure/cpanel/trueuserdomains_reader.py\<close>): the cPanel accounts of
  the host, read from \<open>/etc/trueuserdomains\<close>. What it reads satisfies the premises of a discovery pass.
\<close>

section \<open>One line\<close>

text \<open>A line names an account when it has the form \<open>domain: username\<close> with both parts valid; any other
  line is skipped.\<close>

definition account_line :: "string \<Rightarrow> (linux_username \<times> domain_name) option" where
  "account_line raw =
     (let line = str_strip raw in
      if line = [] \<or> CHR '':'' \<notin> set line then None
      else
        (let raw_domain = str_strip (takeWhile (\<lambda>c. c \<noteq> CHR '':'') line);
             raw_username = str_strip (drop 1 (dropWhile (\<lambda>c. c \<noteq> CHR '':'') line))
         in if raw_domain = [] \<or> raw_username = [] then None
            else case linux_username raw_username of
                   Inl _ \<Rightarrow> None
                 | Inr username \<Rightarrow>
                     (case domain_name raw_domain of Inl _ \<Rightarrow> None | Inr domain \<Rightarrow> Some (username, domain))))"

section \<open>The file\<close>

record reader_paths =
  rp_etc :: path
  rp_home_base :: path
  rp_suspended :: path

fun collect_accounts ::
    "reader_paths \<Rightarrow> tree \<Rightarrow> string list \<Rightarrow> discovered_account list \<Rightarrow> discovered_account list res" where
  "collect_accounts rp t [] accounts = Inr accounts"
| "collect_accounts rp t (line # ls) accounts =
     (case account_line line of
        None \<Rightarrow> collect_accounts rp t ls accounts
      | Some (username, domain) \<Rightarrow>
          if user_value username \<in> set (map da_key accounts) then collect_accounts rp t ls accounts
          else case absolute_file_path (path_str (rp_home_base rp @ [user_value username])) of
                 Inl e \<Rightarrow> Inl e
               | Inr home \<Rightarrow>
                   collect_accounts rp t ls
                     (accounts @ [\<lparr>da_username = username, da_primary_domain = domain, da_home_directory = home,
                        da_is_suspended = is_file t (rp_suspended rp @ [user_value username])\<rparr>]))"

text \<open>\<open>discover\<close>: \<open>decode\<close> is what opening the file as text makes of its bytes, \<open>None\<close> where decoding
  fails.\<close>

definition read_accounts ::
    "(os_fault \<Rightarrow> string) \<Rightarrow> (string \<Rightarrow> string option) \<Rightarrow> reader_paths \<Rightarrow> fs \<Rightarrow> discovered_account list res \<times> fs" where
  "read_accounts strerror decode rp s =
     (let p = rp_etc rp @ [''trueuserdomains''] in
      if \<not> is_file (fs_tree s) p then (Inr [], s)
      else case sys (os_read p) s of
             (Inl e, s) \<Rightarrow> (Inl (OSError (strerror e)), s)
           | (Inr f, s) \<Rightarrow>
               (case decode (f_bytes f) of
                  None \<Rightarrow> (Inl (OtherError ''UnicodeDecodeError''), s)
                | Some txt \<Rightarrow> (collect_accounts rp (fs_tree s) (split_lines [] txt) [], s)))"

section \<open>What is read\<close>

definition named_accounts :: "string list \<Rightarrow> (linux_username \<times> domain_name) list" where
  "named_accounts ls = List.map_filter account_line ls"

lemma named_accounts_simps [simp]:
  "named_accounts [] = []"
  "named_accounts (l # ls) = (case account_line l of None \<Rightarrow> named_accounts ls | Some x \<Rightarrow> x # named_accounts ls)"
  by (simp_all add: named_accounts_def List.map_filter_def split: option.split)

lemma account_line_valid: "account_line l = Some (u, dm) \<Longrightarrow> valid_user u \<and> valid_domain dm"
  by (auto simp: account_line_def Let_def valid_user_def valid_domain_def split: if_splits sum.splits)

lemma user_chars:
  assumes "valid_user u"
  shows "part_ok (user_value u)" "user_value u \<noteq> ''..''"
proof -
  obtain v where v: "linux_username v = Inr u" using assms by (auto simp: valid_user_def)
  note chars = username_segment [OF v]
  have "is_lower_alpha (hd v)"
    using v by (cases v) (auto simp: linux_username_def username_pattern_def re_match_line_def split: if_splits)
  then have "hd v \<noteq> CHR ''.''" by (auto simp: is_lower_alpha_def)
  then show "part_ok (user_value u)" "user_value u \<noteq> ''..''"
    using chars by (auto simp: part_ok_def)
qed

definition base_ok :: "path \<Rightarrow> bool" where
  "base_ok p \<longleftrightarrow> list_all part_ok p \<and> ''..'' \<notin> set p"

lemma home_path_valid:
  assumes "base_ok base" "valid_user u"
  shows "absolute_file_path (path_str (base @ [user_value u])) = Inr (AbsoluteFilePath (path_str (base @ [user_value u])))"
  using path_str_absolute [of "base @ [user_value u]"] assms user_chars [OF assms(2)] by (auto simp: base_ok_def)

definition account_from :: "reader_paths \<Rightarrow> tree \<Rightarrow> linux_username \<times> domain_name \<Rightarrow> discovered_account" where
  "account_from rp t x = \<lparr>da_username = fst x, da_primary_domain = snd x,
     da_home_directory = AbsoluteFilePath (path_str (rp_home_base rp @ [user_value (fst x)])),
     da_is_suspended = is_file t (rp_suspended rp @ [user_value (fst x)])\<rparr>"

text \<open>The first line of each user name counts.\<close>

fun first_only :: "(linux_username \<times> domain_name) list \<Rightarrow> string set \<Rightarrow> (linux_username \<times> domain_name) list" where
  "first_only [] seen = []"
| "first_only (x # xs) seen =
     (if user_value (fst x) \<in> seen then first_only xs seen
      else x # first_only xs (insert (user_value (fst x)) seen))"

lemma collect_accounts_eq:
  assumes "base_ok (rp_home_base rp)"
  shows "collect_accounts rp t ls accounts =
    Inr (accounts @ map (account_from rp t) (first_only (named_accounts ls) (set (map da_key accounts))))"
proof (induction ls arbitrary: accounts)
  case (Cons l ls)
  show ?case
  proof (cases "account_line l")
    case (Some x)
    obtain u dm where x: "x = (u, dm)" by (cases x)
    have v: "valid_user u" using account_line_valid Some x by blast
    show ?thesis using Cons Some x home_path_valid [OF assms v] by (simp add: account_from_def)
  qed (simp add: Cons)
qed simp

lemma first_only_facts:
  "distinct (map (user_value \<circ> fst) (first_only xs seen)) \<and>
   user_value ` fst ` set (first_only xs seen) = user_value ` fst ` set xs - seen \<and>
   (\<forall>x \<in> set (first_only xs seen). map_of xs (fst x) = Some (snd x))"
proof (induction xs arbitrary: seen)
  case (Cons x xs)
  show ?case
  proof (cases "user_value (fst x) \<in> seen")
    case True
    have "fst y \<noteq> fst x" if "y \<in> set (first_only xs seen)" for y
    proof -
      have "user_value (fst y) \<notin> seen" using Cons [of seen] that by blast
      then show ?thesis using True by auto
    qed
    then show ?thesis using Cons [of seen] True by (cases x) auto
  next
    case False
    let ?seen = "insert (user_value (fst x)) seen"
    have "user_value (fst y) \<noteq> user_value (fst x)" if "y \<in> set (first_only xs ?seen)" for y
    proof -
      have "user_value (fst y) \<notin> ?seen" using Cons [of ?seen] that by blast
      then show ?thesis by simp
    qed
    then have "\<forall>y \<in> set (first_only xs ?seen). fst y \<noteq> fst x \<and> user_value (fst y) \<noteq> user_value (fst x)" by force
    then show ?thesis using Cons [of ?seen] False by (cases x) auto
  qed
qed simp

text \<open>C34. Reading \<open>/etc/trueuserdomains\<close> never fails on a malformed line: it yields one account for each
  user name that occurs in a valid line, with the domain of the first such line, the home directory
  below the base and the suspension its marker file says, all of them valid; so the premises of a
  discovery pass hold for what it reads.\<close>

theorem accounts_read:
  assumes "base_ok (rp_home_base rp)" "is_file (fs_tree s) (rp_etc rp @ [''trueuserdomains''])"
    and "sys (os_read (rp_etc rp @ [''trueuserdomains''])) s = (Inr f, s')" "decode (f_bytes f) = Some txt"
  shows "\<exists>found. read_accounts strerror decode rp s = (Inr found, s') \<and>
    distinct (map da_key found) \<and> list_all sound_account found \<and>
    da_key ` set found = user_value ` fst ` set (named_accounts (split_lines [] txt)) \<and>
    list_all (\<lambda>a. map_of (named_accounts (split_lines [] txt)) (da_username a) = Some (da_primary_domain a) \<and>
      da_home_directory a = AbsoluteFilePath (path_str (rp_home_base rp @ [da_key a])) \<and>
      da_is_suspended a = is_file (fs_tree s') (rp_suspended rp @ [da_key a])) found"
proof -
  let ?es = "named_accounts (split_lines [] txt)"
  let ?found = "map (account_from rp (fs_tree s')) (first_only ?es {})"
  note ff = first_only_facts [of ?es "{}"]
  have run: "read_accounts strerror decode rp s = (Inr ?found, s')"
    using assms collect_accounts_eq [OF assms(1), of "fs_tree s'" "split_lines [] txt" "[]"]
    by (simp add: read_accounts_def Let_def)
  have valid: "valid_user (fst x) \<and> valid_domain (snd x)" if "x \<in> set (first_only ?es {})" for x
  proof -
    have "map_of ?es (fst x) = Some (snd x)" using ff that by blast
    then have "x \<in> set ?es" by (metis map_of_SomeD prod.collapse)
    then have "\<exists>l. account_line l = Some x"
      by (auto simp: named_accounts_def List.map_filter_def)
    then show ?thesis using account_line_valid [of _ "fst x" "snd x"] by auto
  qed
  have "valid_abs (AbsoluteFilePath (path_str (rp_home_base rp @ [user_value u])))" if "valid_user u" for u
    unfolding valid_abs_def using home_path_valid [OF assms(1) that] by blast
  then have "list_all sound_account ?found"
    using valid by (auto simp: list_all_iff sound_account_def account_from_def)
  moreover have "distinct (map da_key ?found)"
    using ff by (simp add: comp_def account_from_def)
  moreover have "da_key ` set ?found = user_value ` fst ` set ?es"
    using ff by (simp add: image_image account_from_def)
  ultimately show ?thesis using run ff by (auto simp: list_all_iff account_from_def)
qed

definition demo_paths :: reader_paths where
  "demo_paths = \<lparr>rp_etc = [''etc''], rp_home_base = [''home''], rp_suspended = [''s'']\<rparr>"

definition demo_domains :: string where
  "demo_domains = ''a.org: bob
no colon
b.org: bob
c.org: amy''"

definition demo_etc :: fs where
  "demo_etc = \<lparr>fs_tree = [([''etc''], Directory), ([''etc'', ''trueuserdomains''],
     Regular \<lparr>f_bytes = demo_domains, f_mode = 420, f_uid = 0, f_gid = 0\<rparr>), ([''s''], Directory),
     ([''s'', ''amy''], Regular \<lparr>f_bytes = [], f_mode = 420, f_uid = 0, f_gid = 0\<rparr>)], fs_faults = [], fs_uuids = []\<rparr>"

theorem accounts_read_witness:
  "\<exists>found. read_accounts (\<lambda>_. []) Some demo_paths demo_etc = (Inr found, demo_etc) \<and> distinct (map da_key found) \<and>
     da_key ` set found = {''bob'', ''amy''}"
proof -
  have e: "base_ok (rp_home_base demo_paths)" "is_file (fs_tree demo_etc) (rp_etc demo_paths @ [''trueuserdomains''])"
    by code_simp+
  have r: "sys (os_read (rp_etc demo_paths @ [''trueuserdomains''])) demo_etc =
      (Inr \<lparr>f_bytes = demo_domains, f_mode = 420, f_uid = 0, f_gid = 0\<rparr>, demo_etc)"
    unfolding demo_domains_def by code_simp
  have l: "split_lines [] demo_domains = [''a.org: bob'', ''no colon'', ''b.org: bob'', ''c.org: amy'']" by code_simp
  have strips: "str_strip ''a.org: bob'' = ''a.org: bob''" "str_strip ''no colon'' = ''no colon''"
    "str_strip ''b.org: bob'' = ''b.org: bob''" "str_strip ''c.org: amy'' = ''c.org: amy''" "str_strip ''a.org'' = ''a.org''"
    "str_strip ''b.org'' = ''b.org''" "str_strip ''c.org'' = ''c.org''" "str_strip '' bob'' = ''bob''"
    "str_strip '' amy'' = ''amy''" by code_simp+
  have names: "linux_username ''bob'' = Inr (LinuxUsername ''bob'')" "linux_username ''amy'' = Inr (LinuxUsername ''amy'')"
    "domain_name ''a.org'' = Inr (DomainName ''a.org'')" "domain_name ''b.org'' = Inr (DomainName ''b.org'')"
    "domain_name ''c.org'' = Inr (DomainName ''c.org'')" by code_simp+
  have n: "account_line ''a.org: bob'' = Some (LinuxUsername ''bob'', DomainName ''a.org'')"
    "account_line ''no colon'' = None"
    "account_line ''b.org: bob'' = Some (LinuxUsername ''bob'', DomainName ''b.org'')"
    "account_line ''c.org: amy'' = Some (LinuxUsername ''amy'', DomainName ''c.org'')"
    by (simp_all add: account_line_def strips names)
  have names: "user_value ` fst ` set (named_accounts (split_lines [] demo_domains)) = {''bob'', ''amy''}"
    by (simp only: l) (simp add: n)
  have "Some (f_bytes \<lparr>f_bytes = demo_domains, f_mode = 420, f_uid = 0, f_gid = 0\<rparr>) = Some demo_domains" by simp
  from accounts_read [where decode = Some, OF e r this] obtain found where
    "read_accounts (\<lambda>_. []) Some demo_paths demo_etc = (Inr found, demo_etc)" "distinct (map da_key found)"
    "da_key ` set found = user_value ` fst ` set (named_accounts (split_lines [] demo_domains))"
    by blast
  then show ?thesis unfolding names by blast
qed

end
