(* ===== verification/File_Scanner.thy ===== *)
theory File_Scanner
  imports Good_Database Scan_Correctness Directory_Walk
begin

text \<open>
  \<open>FilesystemFileScanner\<close> (\<open>infrastructure/filesystem/file_scanner.py\<close>): the reader behind the integrity
  scan. It walks the home directory of an account and hashes every file it may read; what it cannot
  read, or what is over the size limit, it leaves out. SHA-256 is a parameter. The last section puts
  the scanner and \<open>RunIntegrityScanUseCase\<close> together.
\<close>

section \<open>One file\<close>

definition is_excluded :: "string list \<Rightarrow> string \<Rightarrow> bool" where
  "is_excluded markers relative = list_ex (\<lambda>m. sublist m relative) markers"

definition rel_str :: "path \<Rightarrow> path \<Rightarrow> string" where
  "rel_str base p = str_join ''/'' (drop (length base) p)"

text \<open>\<open>_scan_file\<close>: the two system calls are \<open>stat\<close> and the reading of the file; \<open>None\<close> stands for a
  file that is skipped.\<close>

definition hash_file ::
    "(string \<Rightarrow> string) \<Rightarrow> nat \<Rightarrow> path \<Rightarrow> string \<Rightarrow> fs \<Rightarrow> scanned_file option res \<times> fs" where
  "hash_file sha max_size p relative s =
     (case sys (os_read p) s of
        (Inl _, s) \<Rightarrow> (Inr None, s)
      | (Inr f, s) \<Rightarrow>
          if length (f_bytes f) > max_size then (Inr None, s)
          else case sys (os_read p) s of
                 (Inl _, s) \<Rightarrow> (Inr None, s)
               | (Inr g, s) \<Rightarrow>
                   (case relative_file_path relative of
                      Inl e \<Rightarrow> (Inl e, s)
                    | Inr rel \<Rightarrow>
                        (case sha256_hash (sha (f_bytes g)) of
                           Inl e \<Rightarrow> (Inl e, s)
                         | Inr h \<Rightarrow>
                             (Inr (Some \<lparr>sf_relative_path = rel, sf_sha256 = h,
                                sf_size_bytes = int (length (f_bytes f)), sf_mode = mode_str (f_mode f)\<rparr>), s))))"

section \<open>An account\<close>

fun hash_files ::
    "(string \<Rightarrow> string) \<Rightarrow> string list \<Rightarrow> nat \<Rightarrow> path \<Rightarrow> path list \<Rightarrow> fs \<Rightarrow> scanned_file list res \<times> fs" where
  "hash_files sha markers max_size home [] s = (Inr [], s)"
| "hash_files sha markers max_size home (p # ps) s =
     (let relative = rel_str home p in
      if is_excluded markers relative then hash_files sha markers max_size home ps s
      else case hash_file sha max_size p relative s of
             (Inl e, s) \<Rightarrow> (Inl e, s)
           | (Inr scanned, s) \<Rightarrow>
               (case hash_files sha markers max_size home ps s of
                  (Inl e, s) \<Rightarrow> (Inl e, s)
                | (Inr others, s) \<Rightarrow>
                    (Inr (case scanned of None \<Rightarrow> others | Some x \<Rightarrow> x # others), s)))"

definition scan_home ::
    "(string \<Rightarrow> string) \<Rightarrow> string list \<Rightarrow> nat \<Rightarrow> cpanel_account \<Rightarrow> fs \<Rightarrow> scanned_file list res \<times> fs" where
  "scan_home sha markers max_size account s =
     (let home = path_parts (abs_value (ac_home_directory account)) in
      if \<not> is_dir (fs_tree s) home then (Inr [], s)
      else (let (found, s) = walk_all home s in hash_files sha markers max_size home found s))"

section \<open>What a scan of a sound disk finds\<close>

text \<open>\<open>hashlib\<close> answers 64 hexadecimal digits.\<close>

definition sha_ok :: "(string \<Rightarrow> string) \<Rightarrow> bool" where
  "sha_ok sha \<longleftrightarrow> (\<forall>b. sha256_hash (sha b) = Inr (Sha256Hash (sha b)))"

definition scanned_of :: "(string \<Rightarrow> string) \<Rightarrow> path \<Rightarrow> path \<Rightarrow> file_data \<Rightarrow> scanned_file" where
  "scanned_of sha home p f =
     \<lparr>sf_relative_path = RelativeFilePath (rel_str home p), sf_sha256 = Sha256Hash (sha (f_bytes f)),
      sf_size_bytes = int (length (f_bytes f)), sf_mode = mode_str (f_mode f)\<rparr>"

text \<open>The regular files a scan takes in.\<close>

definition watched :: "string list \<Rightarrow> nat \<Rightarrow> tree \<Rightarrow> path \<Rightarrow> path \<Rightarrow> file_data \<Rightarrow> bool" where
  "watched markers max_size t home p f \<longleftrightarrow>
     p \<in> regular_below t home \<and> node_of t p = Some (Regular f) \<and> length (f_bytes f) \<le> max_size \<and>
     \<not> is_excluded markers (rel_str home p)"

lemma read_regular:
  assumes "tree_wf (fs_tree s)" "fs_faults s = []" "node_of (fs_tree s) p = Some (Regular f)"
  shows "sys (os_read p) s = (Inr f, s)"
  using assms kstat_node [OF assms(1,3)] by (simp add: sys_def os_read_def is_link_def)

lemma rel_parts:
  assumes "tree_wf t" "p \<in> regular_below t home"
  shows "\<exists>e. p = home @ e \<and> e \<noteq> [] \<and> list_all part_ok e \<and> ''..'' \<notin> set e \<and> rel_str home p = str_join ''/'' e"
proof -
  obtain f where f: "node_of t p = Some (Regular f)" "take (length home) p = home" "p \<noteq> home"
    using assms(2) by (auto simp: regular_below_def)
  then obtain e where p: "p = home @ e" by (metis append_take_drop_id)
  have "normal p" "list_all part_ok p" using wf_entry [OF assms(1) f(1)] by auto
  then have "list_all part_ok e" "''..'' \<notin> set e" using p by (auto simp: normal_def list_all_iff)
  then show ?thesis using f(3) p by (auto simp: rel_str_def)
qed

lemma rel_str_valid:
  assumes "tree_wf t" "p \<in> regular_below t home"
  shows "relative_file_path (rel_str home p) = Inr (RelativeFilePath (rel_str home p))"
proof -
  obtain e where e: "e \<noteq> []" "list_all part_ok e" "''..'' \<notin> set e" "rel_str home p = str_join ''/'' e"
    using rel_parts [OF assms] by blast
  have "list_all (\<lambda>c. CHR ''/'' \<notin> set c) e" using e(2) by (auto simp: list_all_iff part_ok_def)
  then have split: "str_split CHR ''/'' (str_join ''/'' e) = e" using e(1) str_split_join by blast
  obtain c e' where ce: "e = c # e'" using e(1) by (cases e) auto
  then have "c \<noteq> []" "hd c \<noteq> CHR ''/''" using e(2) by (cases c; auto simp: part_ok_def)+
  then have "str_join ''/'' e \<noteq> [] \<and> \<not> str_startswith (str_join ''/'' e) ''/''"
    by (cases e'; cases c) (auto simp: ce str_startswith_def)
  then show ?thesis using e(3,4) split by (simp add: relative_file_path_iff)
qed

lemma rel_str_inj:
  assumes "tree_wf t" "p \<in> regular_below t home" "q \<in> regular_below t home" "rel_str home p = rel_str home q"
  shows "p = q"
proof -
  obtain e where e: "p = home @ e" "e \<noteq> []" "list_all part_ok e" "rel_str home p = str_join ''/'' e"
    using rel_parts [OF assms(1,2)] by blast
  obtain g where g: "q = home @ g" "g \<noteq> []" "list_all part_ok g" "rel_str home q = str_join ''/'' g"
    using rel_parts [OF assms(1,3)] by blast
  have "list_all (\<lambda>c. CHR ''/'' \<notin> set c) e" "list_all (\<lambda>c. CHR ''/'' \<notin> set c) g"
    using e(3) g(3) by (auto simp: list_all_iff part_ok_def)
  then have "e = g" using str_split_join e(2,4) g(2,4) assms(4) by metis
  then show ?thesis using e(1) g(1) by simp
qed

lemma hash_files_exact:
  assumes "tree_wf (fs_tree s)" "fs_faults s = []" "sha_ok sha"
  shows "set ps \<subseteq> regular_below (fs_tree s) home \<Longrightarrow> distinct ps \<Longrightarrow>
    \<exists>found. hash_files sha markers max_size home ps s = (Inr found, s) \<and> distinct (map spath found) \<and>
      set found = {scanned_of sha home p f |p f. p \<in> set ps \<and> watched markers max_size (fs_tree s) home p f}"
proof (induction ps)
  case (Cons p ps)
  obtain others where o: "hash_files sha markers max_size home ps s = (Inr others, s)" "distinct (map spath others)"
    "set others = {scanned_of sha home p f |p f. p \<in> set ps \<and> watched markers max_size (fs_tree s) home p f}"
    using Cons by auto
  obtain f where f: "node_of (fs_tree s) p = Some (Regular f)"
    using Cons.prems(1) by (auto simp: regular_below_def)
  note rd = read_regular [OF assms(1,2) f]
  have p: "p \<in> regular_below (fs_tree s) home" using Cons.prems(1) by simp
  have new: "rel_str home p \<notin> spath ` set others"
  proof
    assume "rel_str home p \<in> spath ` set others"
    then obtain q where "q \<in> set ps" "rel_str home p = rel_str home q" using o(3) by (auto simp: scanned_of_def)
    then show False using rel_str_inj [OF assms(1) p, of q] Cons.prems by auto
  qed
  have w: "watched markers max_size (fs_tree s) home p g \<longleftrightarrow>
      g = f \<and> length (f_bytes f) \<le> max_size \<and> \<not> is_excluded markers (rel_str home p)" for g
    using p f by (auto simp: watched_def)
  have hash: "hash_file sha max_size p (rel_str home p) s =
      (Inr (if length (f_bytes f) \<le> max_size then Some (scanned_of sha home p f) else None), s)"
    using assms(3) by (simp add: hash_file_def rd rel_str_valid [OF assms(1) p] sha_ok_def scanned_of_def)
  have spath: "spath (scanned_of sha home p f) = rel_str home p" by (simp add: scanned_of_def)
  have split: "{scanned_of sha home q g |q g. q \<in> set (p # ps) \<and> watched markers max_size (fs_tree s) home q g} =
      {scanned_of sha home p g |g. watched markers max_size (fs_tree s) home p g} \<union> set others"
    unfolding o(3) by auto
  show ?case
  proof (cases "length (f_bytes f) \<le> max_size \<and> \<not> is_excluded markers (rel_str home p)")
    case True
    then have "{scanned_of sha home p g |g. watched markers max_size (fs_tree s) home p g} = {scanned_of sha home p f}"
      using w by auto
    then show ?thesis using True o(1,2) hash new spath unfolding split by (simp add: Let_def)
  next
    case False
    then have "{scanned_of sha home p g |g. watched markers max_size (fs_tree s) home p g} = {}"
      using w by auto
    then show ?thesis using False o(1,2) hash unfolding split by (auto simp: Let_def)
  qed
qed simp
lemma scan_home_exact:
  assumes "tree_wf (fs_tree s)" "fs_faults s = []" "sha_ok sha"
    and "node_of (fs_tree s) (path_parts (abs_value (ac_home_directory account))) = Some Directory"
  shows "\<exists>found. scan_home sha markers max_size account s = (Inr found, s) \<and> distinct (map spath found) \<and>
    set found = {scanned_of sha (path_parts (abs_value (ac_home_directory account))) p f |p f.
      watched markers max_size (fs_tree s) (path_parts (abs_value (ac_home_directory account))) p f}"
proof -
  let ?home = "path_parts (abs_value (ac_home_directory account))"
  obtain ps where ps: "walk_all ?home s = (ps, s)" "distinct ps" "set ps = regular_below (fs_tree s) ?home"
    using walk_all_exact [OF assms(1,2,4)] by blast
  have dir: "is_dir (fs_tree s) ?home"
    using kstat_node [OF assms(1,4)] assms(4) by (simp add: is_dir_def is_link_def)
  have mem: "p \<in> set ps \<and> watched markers max_size (fs_tree s) ?home p f \<longleftrightarrow>
      watched markers max_size (fs_tree s) ?home p f" for p f
    using ps(3) by (auto simp: watched_def)
  from hash_files_exact [OF assms(1-3), of ps ?home markers max_size] ps show ?thesis
    unfolding mem by (auto simp: scan_home_def Let_def dir)
qed

lemma hash_file_sound:
  "hash_file sha max_size p relative s = (Inr (Some x), s') \<Longrightarrow> sound_file x"
  by (auto simp: hash_file_def sound_file_def valid_sha_def valid_rel_def
      split: prod.splits sum.splits if_splits)

lemma hash_files_sound:
  "hash_files sha markers max_size home ps s = (Inr found, s') \<Longrightarrow> list_all sound_file found"
proof (induction ps arbitrary: s found)
  case (Cons p ps)
  then show ?case
    by (auto simp: Let_def split: if_splits prod.splits sum.splits option.splits dest: hash_file_sound)
qed simp

text \<open>Whatever the disk does, what a scan reports is well typed: the premise on the readers of
  \<^theory_text>\<open>Good_Database\<close>.\<close>

lemma scan_home_sound:
  "scan_home sha markers max_size account s = (Inr found, s') \<Longrightarrow> list_all sound_file found"
  by (auto simp: scan_home_def Let_def split: if_splits prod.splits dest: hash_files_sound)

section \<open>Scanner and use case together\<close>

text \<open>C10. A scan of the home directory of an account on a disk without faults, followed by the
  integrity use case, leaves active baselines for exactly the regular files below that directory (not
  reached through a link, not excluded, not over the size limit), each with the hash of its contents
  and its permission bits, and touches no file. A baseline that the scan wrote has the size of its file; one that
  already had the hash and the bits is kept as it was, its size included.\<close>

theorem baselines_mirror_disk:
  assumes "db_wf d" "baselines_unique d" "tree_wf (fs_tree s)" "fs_faults s = []" "sha_ok sha"
    and "node_of (fs_tree s) (path_parts (abs_value (ac_home_directory account))) = Some Directory"
  shows "\<exists>found. scan_home sha markers max_size account s = (Inr found, s) \<and>
    active_view (eid account) (snd (scan_account mime tm account found d)) =
      {(rel_str home p, Sha256Hash (sha (f_bytes f)), mode_str (f_mode f)) |home p f.
         home = path_parts (abs_value (ac_home_directory account)) \<and>
         watched markers max_size (fs_tree s) home p f} \<and>
    (\<forall>b \<in> set (baselines_by_account (eid account) (snd (scan_account mime tm account found d))).
       fb_is_active b \<longrightarrow> b \<in> set (tb_baselines d) \<or>
         (\<exists>home p f. home = path_parts (abs_value (ac_home_directory account)) \<and>
            watched markers max_size (fs_tree s) home p f \<and> bpath b = rel_str home p \<and>
            fb_size_bytes b = int (length (f_bytes f))))"
proof -
  obtain found where f: "scan_home sha markers max_size account s = (Inr found, s)" "distinct (map spath found)"
    "set found = {scanned_of sha (path_parts (abs_value (ac_home_directory account))) p f |p f.
      watched markers max_size (fs_tree s) (path_parts (abs_value (ac_home_directory account))) p f}"
    using scan_home_exact [OF assms(3-6)] by blast
  have "active_view (eid account) (snd (scan_account mime tm account found d)) = disk_view found"
    using scan_account_baselines_core [OF assms(1,2) f(2) surjective_pairing] by blast
  also have "\<dots> = {(rel_str home p, Sha256Hash (sha (f_bytes f)), mode_str (f_mode f)) |home p f.
      home = path_parts (abs_value (ac_home_directory account)) \<and> watched markers max_size (fs_tree s) home p f}"
    unfolding disk_view_def f(3) by (force simp: scanned_of_def)
  finally have view: "active_view (eid account) (snd (scan_account mime tm account found d)) = \<dots>" .
  have "b \<in> set (tb_baselines d) \<or> (\<exists>home p f. home = path_parts (abs_value (ac_home_directory account)) \<and>
      watched markers max_size (fs_tree s) home p f \<and> bpath b = rel_str home p \<and>
      fb_size_bytes b = int (length (f_bytes f)))"
    if "b \<in> set (baselines_by_account (eid account) (snd (scan_account mime tm account found d)))" "fb_is_active b" for b
    using scan_account_sizes [OF assms(1,2) f(2) surjective_pairing that] unfolding f(3) by (force simp: scanned_of_def)
  then show ?thesis using f(1) view by blast
qed

text \<open>C35. A file that has grown over the size limit is left out by the scanner and therefore reported as
  DELETED, although it is still on the disk, and its baseline is retired.\<close>

theorem oversized_file_reported_deleted:
  assumes "db_wf d" "baselines_unique d" "tree_wf (fs_tree s)" "fs_faults s = []" "sha_ok sha"
    and "node_of (fs_tree s) (path_parts (abs_value (ac_home_directory account))) = Some Directory"
    and "p \<in> regular_below (fs_tree s) (path_parts (abs_value (ac_home_directory account)))"
    and "node_of (fs_tree s) p = Some (Regular f)" "max_size < length (f_bytes f)"
    and "b \<in> set (baselines_by_account (eid account) d)" "fb_is_active b"
    and "bpath b = rel_str (path_parts (abs_value (ac_home_directory account))) p"
  shows "\<exists>found g. scan_home sha markers max_size account s = (Inr found, s) \<and>
    g \<in> set (tb_findings (snd (scan_account mime tm account found d))) \<and> fi_change_type g = DELETED \<and>
    fi_relative_path g = fb_relative_path b \<and> fi_detected_at g = tm"
proof -
  let ?home = "path_parts (abs_value (ac_home_directory account))"
  obtain found where found: "scan_home sha markers max_size account s = (Inr found, s)" "distinct (map spath found)"
    "set found = {scanned_of sha ?home p f |p f. watched markers max_size (fs_tree s) ?home p f}"
    using scan_home_exact [OF assms(3-6)] by blast
  have "bpath b \<notin> spath ` set found"
  proof
    assume "bpath b \<in> spath ` set found"
    then obtain q g where q: "watched markers max_size (fs_tree s) ?home q g" "rel_str ?home p = rel_str ?home q"
      unfolding found(3) assms(12) by (auto simp: scanned_of_def)
    then have "p = q" using rel_str_inj [OF assms(3,7)] by (auto simp: watched_def)
    then show False using q(1) assms(8,9) by (simp add: watched_def)
  qed
  then have rep: "(fb_relative_path b, DELETED, Some (fb_sha256 b), None) \<in> set (scan_reports (eid account) found d)"
    using assms(10,11) by (force simp: scan_reports_def missing_report_def)
  obtain nf where nf: "tb_findings (snd (scan_account mime tm account found d)) = tb_findings d @ nf"
    "map finding_report nf = scan_reports (eid account) found d" "list_all (scan_finding (eid account) tm) nf"
    using scan_account_findings_core [OF assms(1,2) found(2) surjective_pairing] by blast
  obtain g where g: "g \<in> set nf" "finding_report g = (fb_relative_path b, DELETED, Some (fb_sha256 b), None)"
    using rep nf(2) by (metis (no_types, lifting) image_iff list.set_map)
  have "fi_detected_at g = tm" using nf(3) g(1) by (auto simp: list_all_iff scan_finding_def new_finding_def)
  then show ?thesis using found(1) nf(1) g by (auto simp: finding_report_def)
qed
section \<open>A small disk\<close>

definition demo_sha :: "string \<Rightarrow> string" where
  "demo_sha b = replicate 64 (CHR ''0'')"

lemma demo_sha_ok: "sha_ok demo_sha"
proof -
  have "sha256_hash (replicate 64 (CHR ''0'')) = Inr (Sha256Hash (replicate 64 (CHR ''0'')))" by code_simp
  then show ?thesis by (simp add: sha_ok_def demo_sha_def)
qed

lemma demo_home:
  "path_parts (abs_value (ac_home_directory Scan_Correctness.demo_account)) = [''home'', ''bob'']"
  "node_of (demo_files ''a.php'') [''home'', ''bob''] = Some Directory"
  "node_of (demo_files ''a.php'') [''home'', ''bob'', ''a.php''] =
     Some (Regular \<lparr>f_bytes = ''<?php'', f_mode = 420, f_uid = 7, f_gid = 7\<rparr>)"
proof -
  have "path_parts ''/home/bob'' = [''home'', ''bob'']" by code_simp
  then show "path_parts (abs_value (ac_home_directory Scan_Correctness.demo_account)) = [''home'', ''bob'']"
    by (simp add: Scan_Correctness.demo_account_def)
qed (simp_all add: demo_files_def node_of_def)

lemma demo_below: "regular_below (demo_files ''a.php'') [''home'', ''bob''] = {[''home'', ''bob'', ''a.php'']}"
proof -
  have "p = [''home'', ''bob'', ''a.php'']" if "node_of (demo_files ''a.php'') p = Some (Regular f)" for p f
    using that by (auto simp: demo_files_def node_of_def split: if_splits)
  then have "regular_below (demo_files ''a.php'') [''home'', ''bob''] \<subseteq> {[''home'', ''bob'', ''a.php'']}"
    unfolding regular_below_def by blast
  moreover have "[''home'', ''bob'', ''a.php''] \<in> regular_below (demo_files ''a.php'') [''home'', ''bob'']"
    unfolding regular_below_def using demo_home(3) by simp
  ultimately show ?thesis by blast
qed

theorem baselines_mirror_disk_witness:
  "\<exists>found. scan_home demo_sha [] 100 Scan_Correctness.demo_account (demo_fs ''a.php'' []) = (Inr found, demo_fs ''a.php'' []) \<and>
     active_view 1 (snd (scan_account (\<lambda>_. None) 50 Scan_Correctness.demo_account found demo_db)) =
       {(''a.php'', Sha256Hash (replicate 64 (CHR ''0'')), ''644'')}"
proof -
  have w: "watched [] 100 (demo_files ''a.php'') [''home'', ''bob''] p f \<longleftrightarrow>
      p = [''home'', ''bob'', ''a.php''] \<and> f = \<lparr>f_bytes = ''<?php'', f_mode = 420, f_uid = 7, f_gid = 7\<rparr>" for p f
    using demo_home(3) by (auto simp: watched_def demo_below is_excluded_def)
  have m: "mode_str 420 = ''644''" by code_simp
  have e: "eid Scan_Correctness.demo_account = 1" by (simp add: Scan_Correctness.demo_account_def)
  from baselines_mirror_disk [OF demo_db_ok(1,2), where s = "demo_fs ''a.php'' []" and sha = demo_sha and
      account = Scan_Correctness.demo_account and markers = "[]" and max_size = 100 and mime = "\<lambda>_. None" and tm = 50]
    demo_files_wf demo_sha_ok demo_home(1,2) show ?thesis
    by (simp add: demo_fs_def w m e rel_str_def demo_sha_def) blast
qed

theorem oversized_file_reported_deleted_witness:
  "\<exists>found g. scan_home demo_sha [] 3 Scan_Correctness.demo_account (demo_fs ''a.php'' []) = (Inr found, demo_fs ''a.php'' []) \<and>
     g \<in> set (tb_findings (snd (scan_account (\<lambda>_. None) 50 Scan_Correctness.demo_account found demo_db))) \<and>
     fi_change_type g = DELETED \<and> fi_relative_path g = RelativeFilePath ''a.php''"
proof -
  let ?b = "new_baseline 4 0 1 (demo_file ''a.php'' ''aa'' ''0644'')"
  have b: "?b \<in> set (baselines_by_account (eid Scan_Correctness.demo_account) demo_db)" "fb_is_active ?b" "bpath ?b = ''a.php''"
    "fb_relative_path ?b = RelativeFilePath ''a.php''"
    by (simp_all add: baselines_by_account_def demo_db_def Scan_Correctness.demo_account_def new_baseline_def demo_file_def)
  from oversized_file_reported_deleted [OF demo_db_ok(1,2), where s = "demo_fs ''a.php'' []" and sha = demo_sha and
      account = Scan_Correctness.demo_account and p = "[''home'', ''bob'', ''a.php'']" and b = ?b and max_size = 3 and
      markers = "[]" and mime = "\<lambda>_. None" and tm = 50]
    demo_files_wf demo_sha_ok demo_home b show ?thesis
    by (auto simp: demo_fs_def demo_below rel_str_def)
qed

end
