(* ===== verification/Regex.thy ===== *)
theory Regex
  imports Cron_Inventory
begin

text \<open>
  The regular expressions of the scanners. A pattern is a tree; \<open>rx_run\<close> lists the ways it matches at
  a position in the order in which the backtracking matcher of Python's \<open>re\<close> tries them, so the head of
  the list is the match \<open>re\<close> reports, with its groups. A character is a code point below
  256, and \<open>\w\<close>, \<open>\s\<close>, \<open>\b\<close> and \<open>re.IGNORECASE\<close> are what Python's Unicode patterns make of these: a letter
  such as 233 is a word character and 160 is white space. A text with other characters can be read with one of the
  same class in the place of each; only the four letters beyond 255 that \<open>re.IGNORECASE\<close> takes for an ASCII one
  (304, 305, 383 and 8490) have no such reading, and are left out. \<open>lang\<close> is the language of a pattern, and
  the matcher is proved to find exactly its words; the collection \<open>rx_lang\<close> computes languages.
\<close>

section \<open>Patterns and their matches\<close>

text \<open>The class \<open>\w\<close>: ASCII letters, digits and underscore; the ordinals, superscript digits, fractions and
  micro sign; and the letters from 192 on, without the signs 215 and 247.\<close>

definition word_char :: "char \<Rightarrow> bool" where
  "word_char c =
     (let n = (of_char c :: nat)
      in (48 \<le> n \<and> n \<le> 57) \<or> (65 \<le> n \<and> n \<le> 90) \<or> n = 95 \<or> (97 \<le> n \<and> n \<le> 122) \<or>
         n \<in> {170, 178, 179, 181, 185, 186, 188, 189, 190} \<or> (192 \<le> n \<and> n \<noteq> 215 \<and> n \<noteq> 247))"

datatype rx =
    Empty
  | Chars "char \<Rightarrow> bool"
  | Seq rx rx
  | Alt rx rx
  | Star rx
  | LazyStar rx
  | Group nat rx
  | Boundary
  | LineStart
  | LineEnd
  | TextEnd

text \<open>The text before the position (from its end), the text after it and the groups captured.\<close>

record rx_state =
  rs_before :: string
  rs_rest :: string
  rs_groups :: "(nat \<times> string) list"

text \<open>The alternatives of a repetition in the order the matcher tries them; a round that consumes
  nothing is not repeated.\<close>

fun rx_iter :: "bool \<Rightarrow> nat \<Rightarrow> (rx_state \<Rightarrow> rx_state list) \<Rightarrow> rx_state \<Rightarrow> rx_state list" where
  "rx_iter lazy 0 f s = [s]"
| "rx_iter lazy (Suc n) f s =
     (let more = concat (map (rx_iter lazy n f) (filter (\<lambda>s'. length (rs_rest s') < length (rs_rest s)) (f s)))
      in if lazy then s # more else more @ [s])"

definition at_word :: "string \<Rightarrow> bool" where
  "at_word s = (case s of [] \<Rightarrow> False | c # _ \<Rightarrow> word_char c)"

fun rx_run :: "rx \<Rightarrow> rx_state \<Rightarrow> rx_state list" where
  "rx_run Empty s = [s]"
| "rx_run (Chars p) s =
     (case rs_rest s of
        [] \<Rightarrow> []
      | c # cs \<Rightarrow> if p c then [s\<lparr>rs_before := c # rs_before s, rs_rest := cs\<rparr>] else [])"
| "rx_run (Seq a b) s = concat (map (rx_run b) (rx_run a s))"
| "rx_run (Alt a b) s = rx_run a s @ rx_run b s"
| "rx_run (Star a) s = rx_iter False (length (rs_rest s)) (rx_run a) s"
| "rx_run (LazyStar a) s = rx_iter True (length (rs_rest s)) (rx_run a) s"
| "rx_run (Group k a) s =
     map (\<lambda>s'. s'\<lparr>rs_groups := (k, take (length (rs_rest s) - length (rs_rest s')) (rs_rest s)) # rs_groups s'\<rparr>)
       (rx_run a s)"
| "rx_run Boundary s = (if at_word (rs_before s) \<noteq> at_word (rs_rest s) then [s] else [])"
| "rx_run LineStart s = (if rs_before s = [] \<or> hd (rs_before s) = CHR 0x0A then [s] else [])"
| "rx_run LineEnd s = (if rs_rest s = [] \<or> hd (rs_rest s) = CHR 0x0A then [s] else [])"
| "rx_run TextEnd s = (if rs_rest s = [] \<or> rs_rest s = [CHR 0x0A] then [s] else [])"

abbreviation rx_at :: "string \<Rightarrow> string \<Rightarrow> rx_state" where
  "rx_at before rest \<equiv> \<lparr>rs_before = before, rs_rest = rest, rs_groups = []\<rparr>"

text \<open>\<open>pattern.search(text)\<close>: the leftmost position at which the pattern matches, and there the match
  the matcher finds first, as the states before and after it.\<close>

fun search_from :: "rx \<Rightarrow> string \<Rightarrow> string \<Rightarrow> (rx_state \<times> rx_state) option" where
  "search_from r before [] =
     (case rx_run r (rx_at before []) of [] \<Rightarrow> None | e # _ \<Rightarrow> Some (rx_at before [], e))"
| "search_from r before (c # cs) =
     (case rx_run r (rx_at before (c # cs)) of
        [] \<Rightarrow> search_from r (c # before) cs
      | e # _ \<Rightarrow> Some (rx_at before (c # cs), e))"

definition rx_search :: "rx \<Rightarrow> string \<Rightarrow> rx_state option" where
  "rx_search r text = map_option snd (search_from r [] text)"

definition rx_matches :: "rx \<Rightarrow> string \<Rightarrow> bool" where
  "rx_matches r text = (rx_search r text \<noteq> None)"

definition rx_group :: "nat \<Rightarrow> rx_state \<Rightarrow> string" where
  "rx_group k s = (case map_of (rs_groups s) k of None \<Rightarrow> [] | Some g \<Rightarrow> g)"

text \<open>\<open>pattern.finditer(text)\<close> for patterns that never match the empty text: the next search starts
  where the last match ended. Each round consumes a character, so the length of the text is enough.\<close>

fun find_rounds :: "nat \<Rightarrow> rx \<Rightarrow> string \<Rightarrow> string \<Rightarrow> rx_state list" where
  "find_rounds 0 r before rest = []"
| "find_rounds (Suc n) r before rest =
     (case search_from r before rest of
        None \<Rightarrow> []
      | Some (_, e) \<Rightarrow> e # find_rounds n r (rs_before e) (rs_rest e))"

definition rx_finditer :: "rx \<Rightarrow> string \<Rightarrow> rx_state list" where
  "rx_finditer r text = find_rounds (length text) r [] text"

section \<open>Abbreviated patterns\<close>

definition Plus :: "rx \<Rightarrow> rx" where
  "Plus r = Seq r (Star r)"

definition LazyPlus :: "rx \<Rightarrow> rx" where
  "LazyPlus r = Seq r (LazyStar r)"

definition Opt :: "rx \<Rightarrow> rx" where
  "Opt r = Alt r Empty"

fun Lit :: "string \<Rightarrow> rx" where
  "Lit [] = Empty"
| "Lit (c # cs) = Seq (Chars (\<lambda>x. x = c)) (Lit cs)"

text \<open>A literal under \<open>re.IGNORECASE\<close>.\<close>

fun NoCase :: "string \<Rightarrow> rx" where
  "NoCase [] = Empty"
| "NoCase (c # cs) = Seq (Chars (\<lambda>x. char_lower x = char_lower c)) (NoCase cs)"

fun Alts :: "rx list \<Rightarrow> rx" where
  "Alts [] = Chars (\<lambda>_. False)"
| "Alts [r] = r"
| "Alts (r # rs) = Alt r (Alts rs)"

fun Seqs :: "rx list \<Rightarrow> rx" where
  "Seqs [] = Empty"
| "Seqs [r] = r"
| "Seqs (r # rs) = Seq r (Seqs rs)"

abbreviation Spaces :: rx where
  "Spaces \<equiv> Star (Chars py_space)"

definition ascii_digit :: "char \<Rightarrow> bool" where
  "ascii_digit c = (48 \<le> (of_char c :: nat) \<and> (of_char c :: nat) \<le> 57)"

definition is_letter :: "char \<Rightarrow> bool" where
  "is_letter c = (let n = (of_char c :: nat) in (65 \<le> n \<and> n \<le> 90) \<or> (97 \<le> n \<and> n \<le> 122))"

text \<open>The dot, and a class of characters.\<close>

definition any_char :: "char \<Rightarrow> bool" where
  "any_char c = (c \<noteq> CHR 0x0A)"

abbreviation one_of :: "string \<Rightarrow> rx" where
  "one_of s \<equiv> Chars (\<lambda>c. c \<in> set s)"

section \<open>What a pattern matches\<close>

text \<open>The texts \<open>w\<close> a pattern matches between the text \<open>b\<close> (from its end) and the text \<open>v\<close>, without
  regard to the order of the alternatives.\<close>

fun rounds :: "(string \<Rightarrow> string \<Rightarrow> string \<Rightarrow> bool) \<Rightarrow> string \<Rightarrow> string list \<Rightarrow> string \<Rightarrow> bool" where
  "rounds L b [] v = True"
| "rounds L b (w # ws) v = (w \<noteq> [] \<and> L b w (concat ws @ v) \<and> rounds L (rev w @ b) ws v)"

fun lang :: "rx \<Rightarrow> string \<Rightarrow> string \<Rightarrow> string \<Rightarrow> bool" where
  "lang Empty b w v = (w = [])"
| "lang (Chars p) b w v = (\<exists>c. w = [c] \<and> p c)"
| "lang (Seq r1 r2) b w v = (\<exists>w1 w2. w = w1 @ w2 \<and> lang r1 b w1 (w2 @ v) \<and> lang r2 (rev w1 @ b) w2 v)"
| "lang (Alt r1 r2) b w v = (lang r1 b w v \<or> lang r2 b w v)"
| "lang (Star r) b w v = (\<exists>ws. w = concat ws \<and> rounds (lang r) b ws v)"
| "lang (LazyStar r) b w v = (\<exists>ws. w = concat ws \<and> rounds (lang r) b ws v)"
| "lang (Group k r) b w v = lang r b w v"
| "lang Boundary b w v = (w = [] \<and> at_word b \<noteq> at_word v)"
| "lang LineStart b w v = (w = [] \<and> (b = [] \<or> hd b = CHR 0x0A))"
| "lang LineEnd b w v = (w = [] \<and> (v = [] \<or> hd v = CHR 0x0A))"
| "lang TextEnd b w v = (w = [] \<and> (v = [] \<or> v = [CHR 0x0A]))"

definition lands :: "rx_state list \<Rightarrow> string \<Rightarrow> string \<Rightarrow> bool" where
  "lands ms b v \<longleftrightarrow> (\<exists>m \<in> set ms. rs_before m = b \<and> rs_rest m = v)"

lemma lands_simps [simp]:
  "\<not> lands [] b v" "lands (m # ms) b v \<longleftrightarrow> (rs_before m = b \<and> rs_rest m = v) \<or> lands ms b v"
  "lands (ms @ ms') b v \<longleftrightarrow> lands ms b v \<or> lands ms' b v"
  "lands (concat mss) b v \<longleftrightarrow> (\<exists>ms \<in> set mss. lands ms b v)"
  by (auto simp: lands_def)

definition rx_reaches :: "(rx_state \<Rightarrow> rx_state list) \<Rightarrow> (string \<Rightarrow> string \<Rightarrow> string \<Rightarrow> bool) \<Rightarrow> bool" where
  "rx_reaches f L \<longleftrightarrow> (\<forall>s b' v. lands (f s) b' v \<longleftrightarrow>
     (\<exists>w. rs_rest s = w @ v \<and> b' = rev w @ rs_before s \<and> L (rs_before s) w v))"

lemma rx_reachesD:
  "rx_reaches f L \<Longrightarrow> lands (f s) b' v \<longleftrightarrow> (\<exists>w. rs_rest s = w @ v \<and> b' = rev w @ rs_before s \<and> L (rs_before s) w v)"
  by (simp add: rx_reaches_def)

lemma lands_bind:
  assumes "rx_reaches f L"
  shows "(\<exists>m \<in> set (f s). P (rs_before m) (rs_rest m)) \<longleftrightarrow>
    (\<exists>w v. rs_rest s = w @ v \<and> L (rs_before s) w v \<and> P (rev w @ rs_before s) v)"
proof -
  have "(\<exists>m \<in> set (f s). P (rs_before m) (rs_rest m)) \<longleftrightarrow> (\<exists>b v. lands (f s) b v \<and> P b v)"
    by (auto simp: lands_def)
  then show ?thesis unfolding rx_reachesD [OF assms] by blast
qed

lemma iter_rx_reaches:
  assumes f: "rx_reaches f L"
  shows "length (rs_rest s) \<le> n \<Longrightarrow> lands (rx_iter lazy n f s) b' v \<longleftrightarrow>
    (\<exists>ws. rs_rest s = concat ws @ v \<and> b' = rev (concat ws) @ rs_before s \<and> rounds L (rs_before s) ws v)"
proof (induction n arbitrary: s)
  case 0
  then have "rs_rest s = []" by simp
  moreover have "rounds L b ws v \<Longrightarrow> concat ws = [] \<Longrightarrow> ws = []" for b ws by (cases ws) auto
  ultimately show ?case by (auto intro: exI [of _ "[]"])
next
  case (Suc n)
  let ?R = "\<lambda>b t. \<exists>ws. t = concat ws @ v \<and> b' = rev (concat ws) @ b \<and> rounds L b ws v"
  have more: "(\<exists>m \<in> set (f s). length (rs_rest m) < length (rs_rest s) \<and> lands (rx_iter lazy n f m) b' v) \<longleftrightarrow>
      (\<exists>m \<in> set (f s). length (rs_rest m) < length (rs_rest s) \<and> ?R (rs_before m) (rs_rest m))"
    using Suc by (intro bex_cong refl conj_cong) auto
  also have "\<dots> \<longleftrightarrow> (\<exists>w t. rs_rest s = w @ t \<and> L (rs_before s) w t \<and>
      length t < length (rs_rest s) \<and> ?R (rev w @ rs_before s) t)"
    by (rule lands_bind [OF f, where P = "\<lambda>b t. length t < length (rs_rest s) \<and> ?R b t"])
  also have "\<dots> \<longleftrightarrow> (\<exists>w ws. rs_rest s = concat (w # ws) @ v \<and> b' = rev (concat (w # ws)) @ rs_before s \<and>
      rounds L (rs_before s) (w # ws) v)" (is "?l \<longleftrightarrow> ?r")
  proof
    assume ?l
    then obtain w t ws where "rs_rest s = w @ t" "L (rs_before s) w t" "length t < length (rs_rest s)"
      "t = concat ws @ v" "b' = rev (concat ws) @ rev w @ rs_before s" "rounds L (rev w @ rs_before s) ws v"
      by blast
    then show ?r by (intro exI [of _ w] exI [of _ ws]) auto
  next
    assume ?r
    then obtain w ws where "rs_rest s = concat (w # ws) @ v" "b' = rev (concat (w # ws)) @ rs_before s"
      "rounds L (rs_before s) (w # ws) v" by blast
    then show ?l by (intro exI [of _ w] exI [of _ "concat ws @ v"]) auto
  qed
  finally have step: "(\<exists>m \<in> set (f s). length (rs_rest m) < length (rs_rest s) \<and> lands (rx_iter lazy n f m) b' v) \<longleftrightarrow>
      (\<exists>w ws. rs_rest s = concat (w # ws) @ v \<and> b' = rev (concat (w # ws)) @ rs_before s \<and>
      rounds L (rs_before s) (w # ws) v)" .
  have "lands (rx_iter lazy (Suc n) f s) b' v \<longleftrightarrow> (rs_before s = b' \<and> rs_rest s = v) \<or>
      (\<exists>m \<in> set (f s). length (rs_rest m) < length (rs_rest s) \<and> lands (rx_iter lazy n f m) b' v)"
    by (auto simp: Let_def)
  then show ?case
    unfolding step by (metis concat.simps(1) append_Nil rev.simps(1) rounds.simps(1) list.exhaust)
qed

lemma run_rx_reaches: "rx_reaches (rx_run r) (lang r)"
proof (induction r)
  case (Chars p)
  show ?case by (auto simp: rx_reaches_def split: list.split)
next
  case (Seq r1 r2)
  show ?case unfolding rx_reaches_def
  proof (intro allI)
    fix s b' v
    have "lands (rx_run (Seq r1 r2) s) b' v \<longleftrightarrow> (\<exists>m \<in> set (rx_run r1 s). lands (rx_run r2 m) b' v)" by auto
    also have "\<dots> \<longleftrightarrow> (\<exists>w1 t. rs_rest s = w1 @ t \<and> lang r1 (rs_before s) w1 t \<and>
        (\<exists>w2. t = w2 @ v \<and> b' = rev w2 @ rev w1 @ rs_before s \<and> lang r2 (rev w1 @ rs_before s) w2 v))"
      unfolding rx_reachesD [OF Seq.IH(2)] by (rule lands_bind [OF Seq.IH(1)])
    also have "\<dots> \<longleftrightarrow> (\<exists>w. rs_rest s = w @ v \<and> b' = rev w @ rs_before s \<and> lang (Seq r1 r2) (rs_before s) w v)"
      by fastforce
    finally show "lands (rx_run (Seq r1 r2) s) b' v \<longleftrightarrow>
      (\<exists>w. rs_rest s = w @ v \<and> b' = rev w @ rs_before s \<and> lang (Seq r1 r2) (rs_before s) w v)" .
  qed
next
  case (Alt r1 r2)
  show ?case unfolding rx_reaches_def by (auto simp: rx_reachesD [OF Alt.IH(1)] rx_reachesD [OF Alt.IH(2)])
next
  case (Star r)
  show ?case unfolding rx_reaches_def by (auto simp: iter_rx_reaches [OF Star.IH])
next
  case (LazyStar r)
  show ?case unfolding rx_reaches_def by (auto simp: iter_rx_reaches [OF LazyStar.IH])
next
  case (Group k r)
  have "lands (rx_run (Group k r) s) b v = lands (rx_run r s) b v" for s b v by (auto simp: lands_def)
  then show ?case unfolding rx_reaches_def by (simp add: rx_reachesD [OF Group.IH])
qed (auto simp: rx_reaches_def)

lemma search_from_some:
  "search_from r before rest \<noteq> None \<longleftrightarrow>
     (\<exists>u v. rest = u @ v \<and> rx_run r (rx_at (rev u @ before) v) \<noteq> [])"
proof (induction rest arbitrary: before)
  case (Cons c cs)
  have "(\<exists>u v. c # cs = u @ v \<and> rx_run r (rx_at (rev u @ before) v) \<noteq> []) \<longleftrightarrow>
      rx_run r (rx_at before (c # cs)) \<noteq> [] \<or> (\<exists>u v. cs = u @ v \<and> rx_run r (rx_at (rev u @ c # before) v) \<noteq> [])"
    (is "?l \<longleftrightarrow> ?r")
  proof
    assume ?l
    then obtain u v where u: "c # cs = u @ v" "rx_run r (rx_at (rev u @ before) v) \<noteq> []" by blast
    then show ?r by (cases u) auto
  next
    assume ?r
    then show ?l
    proof
      assume "\<exists>u v. cs = u @ v \<and> rx_run r (rx_at (rev u @ c # before) v) \<noteq> []"
      then obtain u v where "cs = u @ v" "rx_run r (rx_at (rev u @ c # before) v) \<noteq> []" by blast
      then show ?l by (intro exI [of _ "c # u"] exI [of _ v]) simp
    qed (auto intro: exI [of _ "[]"])
  qed
  then show ?case using Cons by (auto split: list.split)
qed (auto split: list.split)

lemma rx_matches_iff: "rx_matches r txt \<longleftrightarrow> (\<exists>u w v. txt = u @ w @ v \<and> lang r (rev u) w v)"
proof -
  have "rx_matches r txt \<longleftrightarrow> (\<exists>u t. txt = u @ t \<and> rx_run r (rx_at (rev u) t) \<noteq> [])"
    using search_from_some [of r "[]" "txt"] by (simp add: rx_matches_def rx_search_def)
  moreover have "ms \<noteq> [] \<longleftrightarrow> (\<exists>b v. lands ms b v)" for ms by (cases ms) auto
  ultimately show ?thesis by (simp add: rx_reachesD [OF run_rx_reaches]) blast
qed

text \<open>The matcher finds a match in a text exactly when some part of the text is in the language of
  the pattern: neither the order of the alternatives nor the bound on repetitions makes it miss one.\<close>

theorem search_finds_language:
  "rx_search r txt \<noteq> None \<longleftrightarrow> (\<exists>u w v. txt = u @ w @ v \<and> lang r (rev u) w v)"
  using rx_matches_iff by (simp add: rx_matches_def)

named_theorems rx_lang \<open>the languages of common patterns\<close>

lemma rounds_chars: "rounds (lang (Chars p)) b ws v \<Longrightarrow> list_all p (concat ws)"
  by (induction ws arbitrary: b) auto

lemma lang_star_chars [rx_lang]:
  "lang (Star (Chars p)) b w v \<longleftrightarrow> list_all p w" "lang (LazyStar (Chars p)) b w v \<longleftrightarrow> list_all p w"
proof -
  have "rounds (lang (Chars p)) b (map (\<lambda>c. [c]) w) v" if "list_all p w" for b
    using that by (induction w arbitrary: b) auto
  moreover have "concat (map (\<lambda>c. [c]) w) = w" by (induction w) auto
  ultimately have "(\<exists>ws. w = concat ws \<and> rounds (lang (Chars p)) b ws v) \<longleftrightarrow> list_all p w"
    using rounds_chars by (metis (no_types, lifting))
  then show "lang (Star (Chars p)) b w v \<longleftrightarrow> list_all p w" "lang (LazyStar (Chars p)) b w v \<longleftrightarrow> list_all p w"
    by simp_all
qed

lemma lang_chars_seq:
  "lang (Seq (Chars p) r) b w v \<longleftrightarrow> (\<exists>c w2. w = c # w2 \<and> p c \<and> lang r (c # b) w2 v)"
proof
  assume "\<exists>c w2. w = c # w2 \<and> p c \<and> lang r (c # b) w2 v"
  then obtain c w2 where "w = c # w2" "p c" "lang r (c # b) w2 v" by blast
  then show "lang (Seq (Chars p) r) b w v" by (simp, intro exI [of _ "[c]"] exI [of _ w2]) simp
qed auto

lemma lang_plus_chars [rx_lang]: "lang (Plus (Chars p)) b w v \<longleftrightarrow> w \<noteq> [] \<and> list_all p w"
proof -
  have "lang (Plus (Chars p)) b w v \<longleftrightarrow> (\<exists>c w2. w = c # w2 \<and> p c \<and> list_all p w2)"
    unfolding Plus_def lang_chars_seq lang_star_chars by simp
  then show ?thesis by (cases w) auto
qed

lemma lang_opt [rx_lang]: "lang (Opt r) b w v \<longleftrightarrow> lang r b w v \<or> w = []"
  by (simp add: Opt_def)

lemma lang_lit [rx_lang]: "lang (Lit s) b w v \<longleftrightarrow> w = s"
  by (induction s arbitrary: b w) (auto simp: lang_chars_seq simp del: lang.simps(3))

lemma lang_nocase [rx_lang]: "lang (NoCase s) b w v \<longleftrightarrow> str_lower w = str_lower s"
proof (induction s arbitrary: b w)
  case (Cons c s)
  have "lang (NoCase (c # s)) b w v \<longleftrightarrow> (\<exists>x w2. w = x # w2 \<and> char_lower x = char_lower c \<and> str_lower w2 = str_lower s)"
    using Cons by (simp only: NoCase.simps lang_chars_seq)
  then show ?case by (cases w) (auto simp: str_lower_def)
qed (auto simp: str_lower_def)

lemma lang_alts [rx_lang]: "lang (Alts rs) b w v \<longleftrightarrow> (\<exists>r \<in> set rs. lang r b w v)"
  by (induction rs rule: Alts.induct) auto

declare lang.simps(5,6) [simp del] Lit.simps [simp del] NoCase.simps [simp del] Alts.simps [simp del]

end
