(* ===== verification/Malware_Rules.thy ===== *)
theory Malware_Rules
  imports File_Scanner Regex
begin

text \<open>
  \<open>PhpMalwareScanner\<close> (\<open>infrastructure/heuristics/php_malware_scanner.py\<close>): location rules on the name
  of a file and content rules on the lines of a PHP file, as the regular expressions of the source in
  the syntax of \<open>Regex\<close>. The lemmas translate each expression into the text it stands for. The parameter \<open>decode\<close> stands for reading the bytes of a
  file as text, with \<open>errors="replace"\<close>; characters are those of \<open>Regex\<close>.
\<close>

section \<open>Matches\<close>

record heuristic_match =
  hm_relative_path :: relative_file_path
  hm_rule_id :: string
  hm_description :: string
  hm_severity :: severity
  hm_line_number :: "nat option"
  hm_snippet :: string

definition snippet_length :: nat where
  "snippet_length = 160"

definition max_line_length :: nat where
  "max_line_length = 1000"

text \<open>The horizontal ellipsis is no code point below 256; the three of its UTF-8 encoding stand for it.\<close>

definition ellipsis :: string where
  "ellipsis = [CHR 0xE2, CHR 0x80, CHR 0xA6]"

definition snippet :: "string \<Rightarrow> string" where
  "snippet line =
     (let stripped = str_strip line
      in if length stripped \<le> snippet_length then stripped else take snippet_length stripped @ ellipsis)"

section \<open>Rules\<close>

definition double_ext_php_first :: rx where
  "double_ext_php_first =
     Seqs [NoCase ''.php'', Opt (Chars ascii_digit), Lit ''.'', Plus (Chars word_char), TextEnd]"

definition media_names :: "string list" where
  "media_names = [''jpg'', ''jpeg'', ''png'', ''gif'', ''bmp'', ''txt'', ''zip'', ''pdf'', ''doc'', ''docx'']"

definition double_ext_media_first :: rx where
  "double_ext_media_first =
     Seqs [Lit ''.'',
       Alts (map NoCase media_names),
       NoCase ''.php'', Opt (Chars ascii_digit), TextEnd]"

record line_rule =
  lr_rule_id :: string
  lr_description :: string
  lr_severity :: severity
  lr_pattern :: rx

definition webshell_names :: "string list" where
  "webshell_names = [''FilesMan'', ''WSO'', ''c99shell'', ''r57shell'', ''b374k'', ''PHPJackal'', ''Indoxploit'', ''Alfa Shell'']"

definition webshell_signature :: rx where
  "webshell_signature = Seqs [Boundary, Alts (map NoCase webshell_names), Boundary]"

definition exec_functions :: "string list" where
  "exec_functions = [''system'', ''exec'', ''shell_exec'', ''passthru'', ''popen'', ''proc_open'']"

definition request_arrays :: "string list" where
  "request_arrays = [''GET'', ''POST'', ''REQUEST'', ''COOKIE'', ''SERVER'']"

definition eval_functions :: "string list" where
  "eval_functions = [''eval'', ''assert'', ''create_function'']"

definition decode_functions :: "string list" where
  "decode_functions = [''base64_decode'', ''gzinflate'', ''gzuncompress'', ''str_rot13'']"

definition rce_user_input :: rx where
  "rce_user_input =
     Seqs [Boundary, Alts (map Lit exec_functions), Spaces, Lit ''('', Star (Chars (\<lambda>c. c \<noteq> CHR '')'')),
       Lit ''$_'', Alts (map Lit request_arrays), Boundary]"

definition obfuscated_execution :: rx where
  "obfuscated_execution =
     Seqs [Boundary, Alts (map Lit eval_functions), Spaces, Lit ''('',
       Star (Chars (\<lambda>c. c \<noteq> CHR '';'')), Boundary,
       Alts (map Lit decode_functions), Spaces, Lit ''('']"

definition preg_replace_e :: rx where
  "preg_replace_e =
     Seqs [Lit ''preg_replace'', Spaces, Lit ''('', Star (Chars (\<lambda>c. c \<noteq> CHR '','')), Lit ''/'',
       Star (Chars is_letter), Lit ''e'', one_of [CHR 0x27, CHR 0x22]]"

definition line_rules :: "line_rule list" where
  "line_rules =
     [\<lparr>lr_rule_id = ''webshell-signature'', lr_description = ''Matches a known webshell signature string'',
       lr_severity = CRITICAL, lr_pattern = webshell_signature\<rparr>,
      \<lparr>lr_rule_id = ''rce-user-input'',
       lr_description = ''Command-execution function called with unsanitized user input'',
       lr_severity = CRITICAL, lr_pattern = rce_user_input\<rparr>,
      \<lparr>lr_rule_id = ''obfuscated-dynamic-execution'',
       lr_description = ''Dynamic code execution combined with a decoding/obfuscation function'',
       lr_severity = HIGH, lr_pattern = obfuscated_execution\<rparr>,
      \<lparr>lr_rule_id = ''preg_replace-e-modifier'',
       lr_description = ''Deprecated preg_replace() /e modifier executes its replacement as code'',
       lr_severity = HIGH, lr_pattern = preg_replace_e\<rparr>]"

section \<open>Location and naming\<close>

definition uploads_marker :: string where
  "uploads_marker = ''wp-content/uploads''"

definition name_match ::
    "string \<Rightarrow> string \<Rightarrow> string \<Rightarrow> heuristic_match res" where
  "name_match rule_id description relative =
     map_sum id (\<lambda>rel. \<lparr>hm_relative_path = rel, hm_rule_id = rule_id, hm_description = description,
       hm_severity = HIGH, hm_line_number = None, hm_snippet = relative\<rparr>) (relative_file_path relative)"

definition check_location :: "string \<Rightarrow> heuristic_match list res" where
  "check_location relative =
     (let lower = str_lower relative;
          uploads = (if str_endswith lower ''.php'' \<and> sublist uploads_marker lower
            then [name_match ''php-in-uploads''
                    ''PHP file found inside wp-content/uploads, which should only contain media'' relative] else []);
          double = (if rx_matches double_ext_php_first relative \<or> rx_matches double_ext_media_first relative
            then [name_match ''double-extension''
                    ''Filename uses a double extension commonly used to disguise a PHP backdoor'' relative] else [])
      in map_res id (uploads @ double))"

section \<open>Contents\<close>

definition line_match ::
    "relative_file_path \<Rightarrow> nat \<Rightarrow> string \<Rightarrow> line_rule \<Rightarrow> heuristic_match" where
  "line_match rel number line r =
     \<lparr>hm_relative_path = rel, hm_rule_id = lr_rule_id r, hm_description = lr_description r,
      hm_severity = lr_severity r, hm_line_number = Some number, hm_snippet = snippet line\<rparr>"

definition long_line :: "relative_file_path \<Rightarrow> nat \<Rightarrow> string \<Rightarrow> heuristic_match" where
  "long_line rel number line =
     \<lparr>hm_relative_path = rel, hm_rule_id = ''long-line'',
      hm_description = ''Unusually long single line, a common sign of obfuscated/packed code'',
      hm_severity = LOW, hm_line_number = Some number, hm_snippet = snippet line\<rparr>"

definition check_line :: "relative_file_path \<Rightarrow> nat \<Rightarrow> string \<Rightarrow> heuristic_match list" where
  "check_line rel number line =
     (let hits = filter (\<lambda>r. rx_matches (lr_pattern r) line) line_rules
      in map (line_match rel number line) hits @
         (if length line > max_line_length \<and> hits = [] then [long_line rel number line] else []))"

fun check_lines :: "relative_file_path \<Rightarrow> nat \<Rightarrow> string list \<Rightarrow> heuristic_match list" where
  "check_lines rel number [] = []"
| "check_lines rel number (l # ls) = check_line rel number l @ check_lines rel (Suc number) ls"

text \<open>The size and the text of the file are two system calls; the path is only looked at when a line
  matches. \<open>decode\<close> is what reading as text makes of the bytes.\<close>

definition check_content ::
    "(string \<Rightarrow> string) \<Rightarrow> nat \<Rightarrow> path \<Rightarrow> string \<Rightarrow> fs \<Rightarrow> heuristic_match list res \<times> fs" where
  "check_content decode max_bytes p relative s =
     (case sys (os_read p) s of
        (Inl _, s) \<Rightarrow> (Inr [], s)
      | (Inr f, s) \<Rightarrow>
          if length (f_bytes f) > max_bytes then (Inr [], s)
          else case sys (os_read p) s of
                 (Inl _, s) \<Rightarrow> (Inr [], s)
               | (Inr g, s) \<Rightarrow>
                   (let ls = split_lines [] (decode (f_bytes g)) in
                    case relative_file_path relative of
                      Inl e \<Rightarrow>
                        (if check_lines (RelativeFilePath relative) 1 ls = [] then (Inr [], s) else (Inl e, s))
                    | Inr rel \<Rightarrow> (Inr (check_lines rel 1 ls), s)))"

section \<open>Files and directories\<close>

text \<open>\<open>path.suffix\<close>: from the last dot of the name, unless it begins or ends the name.\<close>

definition path_suffix :: "string \<Rightarrow> string" where
  "path_suffix name =
     (let ext = rev (takeWhile (\<lambda>c. c \<noteq> CHR ''.'') (rev name)); stem = length name - length ext - 1
      in if CHR ''.'' \<in> set name \<and> ext \<noteq> [] \<and> 0 < stem then CHR ''.'' # ext else [])"

definition scan_one_file ::
    "(string \<Rightarrow> string) \<Rightarrow> nat \<Rightarrow> path \<Rightarrow> string option \<Rightarrow> fs \<Rightarrow> heuristic_match list res \<times> fs" where
  "scan_one_file decode max_bytes p relative_path s =
     (let relative = (case relative_path of None \<Rightarrow> last p | Some r \<Rightarrow> r) in
      case check_location relative of
        Inl e \<Rightarrow> (Inl e, s)
      | Inr matches \<Rightarrow>
          if str_lower (path_suffix (last p)) = ''.php''
          then (case check_content decode max_bytes p relative s of
                  (Inl e, s) \<Rightarrow> (Inl e, s)
                | (Inr others, s) \<Rightarrow> (Inr (matches @ others), s))
          else (Inr matches, s))"

fun scan_found ::
    "(string \<Rightarrow> string) \<Rightarrow> nat \<Rightarrow> path \<Rightarrow> path list \<Rightarrow> fs \<Rightarrow> heuristic_match list res \<times> fs" where
  "scan_found decode max_bytes base [] s = (Inr [], s)"
| "scan_found decode max_bytes base (p # ps) s =
     (case scan_one_file decode max_bytes p (Some (rel_str base p)) s of
        (Inl e, s) \<Rightarrow> (Inl e, s)
      | (Inr matches, s) \<Rightarrow>
          (case scan_found decode max_bytes base ps s of
             (Inl e, s) \<Rightarrow> (Inl e, s)
           | (Inr others, s) \<Rightarrow> (Inr (matches @ others), s)))"

definition scan_directory ::
    "(string \<Rightarrow> string) \<Rightarrow> nat \<Rightarrow> path \<Rightarrow> fs \<Rightarrow> heuristic_match list res \<times> fs" where
  "scan_directory decode max_bytes base s =
     (if \<not> is_dir (fs_tree s) base then (Inr [], s)
      else (let (found, s) = walk_all base s in scan_found decode max_bytes base found s))"
section \<open>The rules in terms of text\<close>

lemma at_word_rev [simp]: "at_word (rev u) \<longleftrightarrow> u \<noteq> [] \<and> word_char (last u)"
  by (cases u rule: rev_cases) (auto simp: at_word_def)

lemma at_word_append: "at_word (u @ v) \<longleftrightarrow> (if u = [] then at_word v else word_char (hd u))"
  by (cases u) (auto simp: at_word_def)

lemma at_word_iff: "at_word v \<longleftrightarrow> v \<noteq> [] \<and> word_char (hd v)"
  by (cases v) (auto simp: at_word_def)

lemma word_char_lower [simp]: "word_char (char_lower c) = word_char c"
proof -
  have lower: "of_char (char_lower c) = (let n = (of_char c :: nat)
      in if (65 \<le> n \<and> n \<le> 90) \<or> (192 \<le> n \<and> n \<le> 222 \<and> n \<noteq> 215) then n + 32 else n)"
    by (auto simp: char_lower_def Let_def)
  have "(of_char c :: nat) < 256" by simp
  then show ?thesis unfolding word_char_def lower by (auto simp: Let_def)
qed

text \<open>A word, and a place next to which no word continues.\<close>

definition word_like :: "string \<Rightarrow> bool" where
  "word_like w \<longleftrightarrow> w \<noteq> [] \<and> word_char (hd w) \<and> word_char (last w)"

lemma word_like_lower: "word_like (str_lower w) = word_like w"
  by (cases "w = []") (auto simp: word_like_def str_lower_def hd_map last_map)

definition free_left :: "string \<Rightarrow> bool" where
  "free_left u \<longleftrightarrow> u = [] \<or> \<not> word_char (last u)"

definition free_right :: "string \<Rightarrow> bool" where
  "free_right v \<longleftrightarrow> v = [] \<or> \<not> word_char (hd v)"

lemma boundary_left: "word_like w \<Longrightarrow> at_word (rev u) \<noteq> at_word (w @ v) \<longleftrightarrow> free_left u"
  by (auto simp: word_like_def free_left_def at_word_append)

lemma boundary_right: "word_like w \<Longrightarrow> at_word (rev w @ b) \<noteq> at_word v \<longleftrightarrow> free_right v"
  by (cases w rule: rev_cases) (auto simp: word_like_def free_right_def at_word_append at_word_iff hd_rev)

lemma webshell_words: "list_all word_like webshell_names"
  by (simp add: webshell_names_def word_like_def word_char_def)

lemma function_words:
  "list_all word_like exec_functions" "list_all word_like request_arrays"
  "list_all word_like eval_functions"
  "list_all word_like decode_functions"
  by (simp_all add: exec_functions_def request_arrays_def eval_functions_def decode_functions_def word_like_def word_char_def)

lemma webshell_lang:
  "lang webshell_signature (rev u) w v \<longleftrightarrow>
     free_left u \<and> free_right v \<and> (\<exists>n \<in> set webshell_names. str_lower w = str_lower n)"
proof -
  have words: "word_like w" if "n \<in> set webshell_names" "str_lower w = str_lower n" for n
    using webshell_words that word_like_lower by (metis list_all_iff)
  have "lang webshell_signature (rev u) w v \<longleftrightarrow>
      at_word (rev u) \<noteq> at_word (w @ v) \<and> at_word (rev w @ rev u) \<noteq> at_word v \<and>
      (\<exists>n \<in> set webshell_names. str_lower w = str_lower n)"
    by (auto simp: webshell_signature_def rx_lang)
  then show ?thesis using words boundary_left boundary_right by blast
qed
text \<open>How a sequence of parts splits the text.\<close>

lemma lang_alt_lits: "lang (Alts (map Lit ws)) b w v \<longleftrightarrow> w \<in> set ws"
  by (auto simp: rx_lang)

lemma lang_alt_nocase: "lang (Alts (map NoCase ws)) b w v \<longleftrightarrow> str_lower w \<in> str_lower ` set ws"
  by (auto simp: rx_lang)

lemma lang_seq: "lang (Seq r1 r2) b w v \<longleftrightarrow> (\<exists>w1 w2. w = w1 @ w2 \<and> lang r1 b w1 (w2 @ v) \<and> lang r2 (rev w1 @ b) w2 v)"
  by simp

lemmas seq_expand = Seqs.simps lang_seq lang.simps(2,8,11) lang_alt_lits lang_alt_nocase lang_star_chars
  lang_plus_chars lang_opt lang_lit lang_nocase

lemma rce_split:
  "lang rce_user_input b w v \<longleftrightarrow>
     (\<exists>f ws m a. w = f @ ws @ ''('' @ m @ ''$_'' @ a \<and>
        at_word b \<noteq> at_word (f @ ws @ ''('' @ m @ ''$_'' @ a @ v) \<and>
        f \<in> set exec_functions \<and> list_all py_space ws \<and> list_all (\<lambda>c. c \<noteq> CHR '')'') m \<and> a \<in> set request_arrays \<and>
        at_word (rev a @ rev ''$_'' @ rev m @ rev ''('' @ rev ws @ rev f @ b) \<noteq> at_word v)"
  unfolding rce_user_input_def seq_expand
  by (simp only: ex_simps(1,2) [symmetric] conj_assoc) (simp cong: conj_cong del: ex_simps at_word_rev)

lemma obfuscated_split:
  "lang obfuscated_execution b w v \<longleftrightarrow>
     (\<exists>e ws m g ws'. w = e @ ws @ ''('' @ m @ g @ ws' @ ''('' \<and>
        at_word b \<noteq> at_word (e @ ws @ ''('' @ m @ g @ ws' @ ''('' @ v) \<and>
        e \<in> set eval_functions \<and> list_all py_space ws \<and>
        list_all (\<lambda>c. c \<noteq> CHR '';'') m \<and>
        at_word (rev m @ rev ''('' @ rev ws @ rev e @ b) \<noteq> at_word (g @ ws' @ ''('' @ v) \<and>
        g \<in> set decode_functions \<and> list_all py_space ws')"
  unfolding obfuscated_execution_def seq_expand
  by (simp only: ex_simps(1,2) [symmetric] conj_assoc)
    (simp cong: conj_cong del: ex_simps at_word_rev list.set set_simps insert_iff)

lemma preg_split:
  "lang preg_replace_e b w v \<longleftrightarrow>
     (\<exists>ws m l q. w = ''preg_replace'' @ ws @ ''('' @ m @ ''/'' @ l @ ''e'' @ [q] \<and> list_all py_space ws \<and>
        list_all (\<lambda>c. c \<noteq> CHR '','') m \<and> list_all is_letter l \<and> (q = CHR 0x27 \<or> q = CHR 0x22))"
  unfolding preg_replace_e_def seq_expand
  by (simp only: ex_simps(1,2) [symmetric] conj_assoc) (simp cong: conj_cong del: ex_simps, blast?)
lemma double_ext_split:
  "lang double_ext_php_first b w v \<longleftrightarrow>
     (\<exists>e d x. w = e @ d @ ''.'' @ x \<and> str_lower e = ''.php'' \<and> ((\<exists>c. d = [c] \<and> ascii_digit c) \<or> d = []) \<and>
        x \<noteq> [] \<and> list_all word_char x \<and> (v = [] \<or> v = [CHR 0x0A]))"
proof -
  have "str_lower ''.php'' = ''.php''" by code_simp
  then show ?thesis
    unfolding double_ext_php_first_def seq_expand
    by (simp only: ex_simps(1,2) [symmetric] conj_assoc) (simp cong: conj_cong del: ex_simps, blast?)
qed

lemma all_differ: "list_all (\<lambda>c. c \<noteq> x) m \<longleftrightarrow> x \<notin> set m" by (auto simp: list_all_iff)

lemma rule_words:
  "f \<in> set exec_functions \<Longrightarrow> word_like f" "a \<in> set request_arrays \<Longrightarrow> word_like a"
  "e \<in> set eval_functions \<Longrightarrow> word_like e"
  "g \<in> set decode_functions \<Longrightarrow> word_like g"
  using function_words unfolding list_all_iff by blast+

lemma webshell_iff:
  "rx_matches webshell_signature line \<longleftrightarrow>
      (\<exists>u w v. line = u @ w @ v \<and> free_left u \<and> free_right v \<and>
         (\<exists>n \<in> set webshell_names. str_lower w = str_lower n))"
    unfolding rx_matches_iff webshell_lang ..

lemma preg_iff:
  "rx_matches preg_replace_e line \<longleftrightarrow>
      (\<exists>u ws m l q v. line = u @ ''preg_replace'' @ ws @ ''('' @ m @ ''/'' @ l @ ''e'' @ [q] @ v \<and>
         list_all py_space ws \<and> CHR '','' \<notin> set m \<and> list_all is_letter l \<and> (q = CHR 0x27 \<or> q = CHR 0x22))"
    unfolding rx_matches_iff preg_split all_differ
    by (simp only: ex_simps(1,2) [symmetric] conj_assoc) (simp cong: conj_cong del: ex_simps, blast?)

lemma rce_iff:
  "rx_matches rce_user_input line \<longleftrightarrow>
      (\<exists>u f ws m a v. line = u @ f @ ws @ ''('' @ m @ ''$_'' @ a @ v \<and> free_left u \<and> free_right v \<and>
         f \<in> set exec_functions \<and> list_all py_space ws \<and> CHR '')'' \<notin> set m \<and> a \<in> set request_arrays)"
      (is "_ \<longleftrightarrow> ?r")
  proof
    assume "rx_matches rce_user_input line"
    then obtain u f ws m a v where l: "line = u @ (f @ ws @ ''('' @ m @ ''$_'' @ a) @ v"
      "at_word (rev u) \<noteq> at_word (f @ ws @ ''('' @ m @ ''$_'' @ a @ v)" "f \<in> set exec_functions" "list_all py_space ws"
      "CHR '')'' \<notin> set m" "a \<in> set request_arrays"
      "at_word (rev a @ rev ''$_'' @ rev m @ rev ''('' @ rev ws @ rev f @ rev u) \<noteq> at_word v"
      unfolding rx_matches_iff rce_split all_differ by blast
    have "free_left u" using boundary_left [OF rule_words(1) [OF l(3)]] l(2) by blast
    moreover have "free_right v" using boundary_right [OF rule_words(2) [OF l(6)]] l(7) by blast
    moreover have "line = u @ f @ ws @ ''('' @ m @ ''$_'' @ a @ v" using l(1) by simp
    ultimately show ?r using l(3-6) by blast
  next
    assume ?r
    then obtain u f ws m a v where l: "line = u @ f @ ws @ ''('' @ m @ ''$_'' @ a @ v" "free_left u" "free_right v"
      "f \<in> set exec_functions" "list_all py_space ws" "CHR '')'' \<notin> set m" "a \<in> set request_arrays" by blast
    have "lang rce_user_input (rev u) (f @ ws @ ''('' @ m @ ''$_'' @ a) v"
      unfolding rce_split all_differ
      using l boundary_left [OF rule_words(1) [OF l(4)]] boundary_right [OF rule_words(2) [OF l(7)]] by blast
    moreover have "line = u @ (f @ ws @ ''('' @ m @ ''$_'' @ a) @ v" using l(1) by simp
    ultimately show "rx_matches rce_user_input line" unfolding rx_matches_iff by blast
  qed

lemma opened_paren:
  "at_word (rev m @ rev ''('' @ rev ws @ rev e @ b) \<longleftrightarrow> \<not> free_left m"
    by (cases m rule: rev_cases) (auto simp: at_word_append at_word_iff free_left_def word_char_def)

lemma obfuscated_iff:
  "rx_matches obfuscated_execution line \<longleftrightarrow>
      (\<exists>u e ws m g ws' v. line = u @ e @ ws @ ''('' @ m @ g @ ws' @ ''('' @ v \<and> free_left u \<and> free_left m \<and>
         e \<in> set eval_functions \<and> list_all py_space ws \<and> CHR '';'' \<notin> set m \<and>
         g \<in> set decode_functions \<and> list_all py_space ws')"
      (is "_ \<longleftrightarrow> ?r")
  proof
    assume "rx_matches obfuscated_execution line"
    then obtain u e ws m g ws' v where l: "line = u @ (e @ ws @ ''('' @ m @ g @ ws' @ ''('') @ v"
      "at_word (rev u) \<noteq> at_word (e @ ws @ ''('' @ m @ g @ ws' @ ''('' @ v)"
      "e \<in> set eval_functions" "list_all py_space ws" "CHR '';'' \<notin> set m"
      "at_word (rev m @ rev ''('' @ rev ws @ rev e @ rev u) \<noteq> at_word (g @ ws' @ ''('' @ v)"
      "g \<in> set decode_functions" "list_all py_space ws'"
      unfolding rx_matches_iff obfuscated_split all_differ by blast
    have "at_word (g @ ws' @ ''('' @ v)" using rule_words(4) [OF l(7)] by (simp add: at_word_append word_like_def)
    then have "free_left m" using l(6) opened_paren by blast
    moreover have "free_left u" using boundary_left [OF rule_words(3) [OF l(3)]] l(2) by blast
    moreover have "line = u @ e @ ws @ ''('' @ m @ g @ ws' @ ''('' @ v" using l(1) by simp
    ultimately show ?r
      using l(3-5,7,8)
      by (intro exI [of _ u] exI [of _ e] exI [of _ ws] exI [of _ m] exI [of _ g] exI [of _ ws'] exI [of _ v] conjI)
  next
    assume ?r
    then obtain u e ws m g ws' v where l: "line = u @ e @ ws @ ''('' @ m @ g @ ws' @ ''('' @ v" "free_left u" "free_left m"
      "e \<in> set eval_functions" "list_all py_space ws" "CHR '';'' \<notin> set m"
      "g \<in> set decode_functions" "list_all py_space ws'" by blast
    have "at_word (g @ ws' @ ''('' @ v)" using rule_words(4) [OF l(7)] by (simp add: at_word_append word_like_def)
    then have "at_word (rev m @ rev ''('' @ rev ws @ rev e @ rev u) \<noteq> at_word (g @ ws' @ ''('' @ v)"
      using l(3) opened_paren by blast
    then have "lang obfuscated_execution (rev u) (e @ ws @ ''('' @ m @ g @ ws' @ ''('') v"
      unfolding obfuscated_split all_differ using l boundary_left [OF rule_words(3) [OF l(4)]] by blast
    moreover have "line = u @ (e @ ws @ ''('' @ m @ g @ ws' @ ''('') @ v" using l(1) by simp
    ultimately show "rx_matches obfuscated_execution line" unfolding rx_matches_iff by blast
  qed

lemma media_split:
  "lang double_ext_media_first b w v \<longleftrightarrow>
     (\<exists>m e d. w = ''.'' @ m @ e @ d \<and> str_lower m \<in> set media_names \<and> str_lower e = ''.php'' \<and>
        ((\<exists>c. d = [c] \<and> ascii_digit c) \<or> d = []) \<and> (v = [] \<or> v = [CHR 0x0A]))"
proof -
  have "str_lower ''.php'' = ''.php''" "str_lower ` set media_names = set media_names"
    unfolding media_names_def by code_simp+
  then show ?thesis
    unfolding double_ext_media_first_def seq_expand
    by (simp only: ex_simps(1,2) [symmetric] conj_assoc) (simp cong: conj_cong del: ex_simps, blast?)
qed

text \<open>A name that ends at the end of the text or at its last line feed.\<close>

definition at_end :: "string \<Rightarrow> bool" where
  "at_end v \<longleftrightarrow> v = [] \<or> v = [CHR 0x0A]"

definition maybe_digit :: "string \<Rightarrow> bool" where
  "maybe_digit d \<longleftrightarrow> d = [] \<or> (\<exists>c. d = [c] \<and> ascii_digit c)"

lemma php_first_iff:
  "rx_matches double_ext_php_first name \<longleftrightarrow>
      (\<exists>u e d x v. name = u @ e @ d @ ''.'' @ x @ v \<and> str_lower e = ''.php'' \<and> maybe_digit d \<and>
         x \<noteq> [] \<and> list_all word_char x \<and> at_end v)"
  unfolding rx_matches_iff double_ext_split maybe_digit_def at_end_def
  by (simp only: ex_simps(1,2) [symmetric] conj_assoc) (simp cong: conj_cong del: ex_simps, blast?)

lemma media_first_iff:
  "rx_matches double_ext_media_first name \<longleftrightarrow>
      (\<exists>u m e d v. name = u @ ''.'' @ m @ e @ d @ v \<and> str_lower m \<in> set media_names \<and> str_lower e = ''.php'' \<and>
         maybe_digit d \<and> at_end v)"
  unfolding rx_matches_iff media_split maybe_digit_def at_end_def
  by (simp only: ex_simps(1,2) [symmetric] conj_assoc) (simp cong: conj_cong del: ex_simps, blast?)

text \<open>What the rules of the malware scanner look for, without regular expressions. A web shell
  signature is one of the names, in any case, as a whole word. User input in a command execution is one
  of the functions, an opening parenthesis, no closing one, and a request array. Obfuscated execution
  is a decoding call, without a semicolon, inside an evaluating one. The last rule is a
  \<open>preg_replace\<close> whose first argument ends in a delimiter, letters, an e and a quote. A word ends where no
  letter of any alphabet, digit or underscore follows. A double extension is \<open>.php\<close>, perhaps with a digit, before
  one more extension at the end of the name, or after that of one of the media types.\<close>

theorem malware_rules_meaning:
  "(rx_matches webshell_signature line \<longleftrightarrow>
      (\<exists>u w v. line = u @ w @ v \<and> free_left u \<and> free_right v \<and>
         (\<exists>n \<in> set webshell_names. str_lower w = str_lower n))) \<and>
   (rx_matches rce_user_input line \<longleftrightarrow>
      (\<exists>u f ws m a v. line = u @ f @ ws @ ''('' @ m @ ''$_'' @ a @ v \<and> free_left u \<and> free_right v \<and>
         f \<in> set exec_functions \<and> list_all py_space ws \<and> CHR '')'' \<notin> set m \<and> a \<in> set request_arrays)) \<and>
   (rx_matches obfuscated_execution line \<longleftrightarrow>
      (\<exists>u e ws m g ws' v. line = u @ e @ ws @ ''('' @ m @ g @ ws' @ ''('' @ v \<and> free_left u \<and> free_left m \<and>
         e \<in> set eval_functions \<and> list_all py_space ws \<and> CHR '';'' \<notin> set m \<and>
         g \<in> set decode_functions \<and> list_all py_space ws')) \<and>
   (rx_matches preg_replace_e line \<longleftrightarrow>
      (\<exists>u ws m l q v. line = u @ ''preg_replace'' @ ws @ ''('' @ m @ ''/'' @ l @ ''e'' @ [q] @ v \<and>
         list_all py_space ws \<and> CHR '','' \<notin> set m \<and> list_all is_letter l \<and> (q = CHR 0x27 \<or> q = CHR 0x22))) \<and>
   (rx_matches double_ext_php_first name \<longleftrightarrow>
      (\<exists>u e d x v. name = u @ e @ d @ ''.'' @ x @ v \<and> str_lower e = ''.php'' \<and> maybe_digit d \<and>
         x \<noteq> [] \<and> list_all word_char x \<and> at_end v)) \<and>
   (rx_matches double_ext_media_first name \<longleftrightarrow>
      (\<exists>u m e d v. name = u @ ''.'' @ m @ e @ d @ v \<and> str_lower m \<in> set media_names \<and> str_lower e = ''.php'' \<and>
         maybe_digit d \<and> at_end v))"
  using webshell_iff rce_iff obfuscated_iff preg_iff php_first_iff media_first_iff by (intro conjI)

end
