(* ===== verification/Forensic_Scanner.thy ===== *)
theory Forensic_Scanner
  imports Malware_Rules
begin

text \<open>
  \<open>WordPressForensicScanner\<close> (\<open>infrastructure/wordpress/forensic_scanner.py\<close>): the reader behind the
  forensic scan of \<open>Detection_Jobs\<close>. It lists the directories of an installation and runs the malware
  rules over single files. The lemmas say what it reports of a sound disk, and which upload
  scripts it can report at all.
\<close>

section \<open>Headers and hashes\<close>

definition extension_name_pattern :: "string \<Rightarrow> rx" where
  "extension_name_pattern kind =
     Seqs [LineStart, Star (one_of [CHR '' '', CHR 0x09, CHR ''*'']), NoCase (kind @ '' Name:''), Spaces,
       Group 1 (Plus (Chars any_char)), LineEnd]"

definition plugin_name_re :: rx where
  "plugin_name_re = extension_name_pattern ''Plugin''"

definition theme_name_re :: rx where
  "theme_name_re = extension_name_pattern ''Theme''"

definition upload_script_suffixes :: "string list" where
  "upload_script_suffixes = [''.php'', ''.phtml'', ''.php5'', ''.phar'']"

text \<open>What the scanner is built from: reading as text with either treatment of bytes that are not
  UTF-8, SHA-256, the size limit of the malware scanner and the drop-in paths.\<close>

record forensic_setup =
  fq_decode :: "string \<Rightarrow> string"
  fq_decode_ignore :: "string \<Rightarrow> string"
  fq_sha :: "string \<Rightarrow> string"
  fq_max_bytes :: nat
  fq_dropins :: "string list"

definition hash_found :: "forensic_setup \<Rightarrow> path \<Rightarrow> fs \<Rightarrow> string option \<times> fs" where
  "hash_found fq p s =
     (case sys (os_read p) s of (Inl _, s) \<Rightarrow> (None, s) | (Inr f, s) \<Rightarrow> (Some (fq_sha fq (f_bytes f)), s))"

definition rules_of :: "forensic_setup \<Rightarrow> path \<Rightarrow> fs \<Rightarrow> string list res \<times> fs" where
  "rules_of fq p s =
     (case scan_one_file (fq_decode fq) (fq_max_bytes fq) p None s of
        (Inl e, s) \<Rightarrow> (Inl e, s)
      | (Inr matches, s) \<Rightarrow> (Inr (map hm_rule_id matches), s))"

text \<open>\<open>findings.extend(...)\<close> over a list of paths.\<close>

fun collect :: "('p \<Rightarrow> fs \<Rightarrow> 'a list res \<times> fs) \<Rightarrow> 'p list \<Rightarrow> fs \<Rightarrow> 'a list res \<times> fs" where
  "collect g [] s = (Inr [], s)"
| "collect g (p # ps) s =
     (case g p s of
        (Inl e, s) \<Rightarrow> (Inl e, s)
      | (Inr xs, s) \<Rightarrow>
          (case collect g ps s of (Inl e, s) \<Rightarrow> (Inl e, s) | (Inr ys, s) \<Rightarrow> (Inr (xs @ ys), s)))"

section \<open>Fake plugins and themes\<close>

definition php_files_in :: "path \<Rightarrow> fs \<Rightarrow> path list \<times> fs" where
  "php_files_in d s =
     (case sys (os_listdir d) s of
        (Inl _, s) \<Rightarrow> ([], s)
      | (Inr entries, s) \<Rightarrow>
          (filter (\<lambda>p. path_suffix (last p) = ''.php'' \<and> is_file (fs_tree s) p \<and> \<not> is_symlink (fs_tree s) p)
             (map (\<lambda>c. d @ [c]) entries), s))"

fun header_found :: "forensic_setup \<Rightarrow> rx \<Rightarrow> path list \<Rightarrow> fs \<Rightarrow> bool \<times> fs" where
  "header_found fq pattern [] s = (False, s)"
| "header_found fq pattern (c # cs) s =
     (if \<not> is_file (fs_tree s) c \<or> is_symlink (fs_tree s) c then header_found fq pattern cs s
      else case sys (os_read c) s of
             (Inl _, s) \<Rightarrow> header_found fq pattern cs s
           | (Inr f, s) \<Rightarrow>
               if rx_matches pattern (fq_decode_ignore fq (f_bytes f)) then (True, s)
               else header_found fq pattern cs s)"

definition has_valid_header ::
    "forensic_setup \<Rightarrow> rx \<Rightarrow> string option \<Rightarrow> path \<Rightarrow> fs \<Rightarrow> bool \<times> fs" where
  "has_valid_header fq pattern header_file d s =
     (case header_file of
        Some h \<Rightarrow> header_found fq pattern [d @ [h]] s
      | None \<Rightarrow> (let (candidates, s) = php_files_in d s in header_found fq pattern candidates s))"

definition em_dash :: string where
  "em_dash = [CHR 0xE2, CHR 0x80, CHR 0x94]"

definition fake_file ::
    "forensic_setup \<Rightarrow> string \<Rightarrow> path \<Rightarrow> string \<Rightarrow> path \<Rightarrow> fs \<Rightarrow> wordpress_forensic_finding list res \<times> fs" where
  "fake_file fq kind base name p s =
     (case rules_of fq p s of
        (Inl e, s) \<Rightarrow> (Inl e, s)
      | (Inr rules, s) \<Rightarrow>
          if rules = [] then (Inr [], s)
          else
            (let (sha, s) = hash_found fq p s
             in (Inr [\<lparr>wf_finding_type = ''fake_'' @ kind, wf_relative_path = rel_str base p,
                   wf_description = ''PHP file under wp-content/'' @ kind @ ''s/'' @ name @
                     '' matches malware rules; directory has no valid '' @ kind @ '' header '' @ em_dash @
                     '' not visible to normal inventory scanning'',
                   wf_severity = CRITICAL, wf_matched_rule_ids = rules, wf_sha256 = sha\<rparr>], s)))"

definition fake_directory :: "string \<Rightarrow> path \<Rightarrow> path \<Rightarrow> wordpress_forensic_finding" where
  "fake_directory kind base p =
     \<lparr>wf_finding_type = ''fake_'' @ kind, wf_relative_path = rel_str base p,
      wf_description = ''Directory under wp-content/'' @ kind @ ''s contains PHP files but no valid '' @ kind @
        '' header '' @ em_dash @ '' not visible to normal inventory scanning'',
      wf_severity = HIGH, wf_matched_rule_ids = [], wf_sha256 = None\<rparr>"

definition fake_extension ::
    "forensic_setup \<Rightarrow> rx \<Rightarrow> string \<Rightarrow> string option \<Rightarrow> path \<Rightarrow> path \<Rightarrow> fs \<Rightarrow>
     wordpress_forensic_finding list res \<times> fs" where
  "fake_extension fq pattern kind header_file base p s =
     (if is_symlink (fs_tree s) p \<or> \<not> is_dir (fs_tree s) p then (Inr [], s)
      else
        (let (valid, s) = has_valid_header fq pattern header_file p s;
             (php, s) = php_files_in p s
         in if valid \<or> php = [] then (Inr [], s)
            else case collect (fake_file fq kind base (last p)) php s of
                   (Inl e, s) \<Rightarrow> (Inl e, s)
                 | (Inr found, s) \<Rightarrow> (Inr (if found = [] then [fake_directory kind base p] else found), s)))"

definition scan_extension_directory ::
    "forensic_setup \<Rightarrow> rx \<Rightarrow> string \<Rightarrow> string option \<Rightarrow> path \<Rightarrow> path \<Rightarrow> fs \<Rightarrow>
     wordpress_forensic_finding list res \<times> fs" where
  "scan_extension_directory fq pattern kind header_file d base s =
     (if \<not> is_dir (fs_tree s) d then (Inr [], s)
      else case sys (os_listdir d) s of
             (Inl _, s) \<Rightarrow> (Inr [], s)
           | (Inr entries, s) \<Rightarrow>
               collect (fake_extension fq pattern kind header_file base) (map (\<lambda>c. d @ [c]) entries) s)"

definition scan_fake_plugins :: "forensic_setup \<Rightarrow> path \<Rightarrow> fs \<Rightarrow> wordpress_forensic_finding list res \<times> fs" where
  "scan_fake_plugins fq base =
     scan_extension_directory fq plugin_name_re ''plugin'' None (base @ [''wp-content'', ''plugins'']) base"

definition scan_fake_themes :: "forensic_setup \<Rightarrow> path \<Rightarrow> fs \<Rightarrow> wordpress_forensic_finding list res \<times> fs" where
  "scan_fake_themes fq base =
     scan_extension_directory fq theme_name_re ''theme'' (Some ''style.css'') (base @ [''wp-content'', ''themes'']) base"

section \<open>Must-use plugins, uploads and drop-ins\<close>

definition mu_plugin :: "forensic_setup \<Rightarrow> path \<Rightarrow> path \<Rightarrow> fs \<Rightarrow> wordpress_forensic_finding list res \<times> fs" where
  "mu_plugin fq base p s =
     (if is_symlink (fs_tree s) p \<or> \<not> is_file (fs_tree s) p \<or> path_suffix (last p) \<noteq> ''.php'' then (Inr [], s)
      else case rules_of fq p s of
             (Inl e, s) \<Rightarrow> (Inl e, s)
           | (Inr rules, s) \<Rightarrow>
               (let (sha, s) = (if rules \<noteq> [] then hash_found fq p s else (None, s))
                in (Inr [\<lparr>wf_finding_type = ''mu_plugin_present'', wf_relative_path = rel_str base p,
                      wf_description = ''Must-use plugin present '' @ em_dash @
                        '' auto-loaded on every request with no activation step, a common persistence mechanism'',
                      wf_severity = (if rules \<noteq> [] then CRITICAL else MEDIUM), wf_matched_rule_ids = rules,
                      wf_sha256 = sha\<rparr>], s)))"

definition scan_mu_plugins :: "forensic_setup \<Rightarrow> path \<Rightarrow> fs \<Rightarrow> wordpress_forensic_finding list res \<times> fs" where
  "scan_mu_plugins fq base s =
     (let d = base @ [''wp-content'', ''mu-plugins''] in
      case sys (os_listdir d) s of
        (Inl _, s) \<Rightarrow> (Inr [], s)
      | (Inr entries, s) \<Rightarrow> collect (mu_plugin fq base) (map (\<lambda>c. d @ [c]) entries) s)"

text \<open>\<open>_walk_scripts\<close>; the first argument bounds the depth, as for \<^const>\<open>walk\<close>.\<close>

fun walk_scripts :: "nat \<Rightarrow> path \<Rightarrow> fs \<Rightarrow> path list \<times> fs"
and walk_script_entries :: "nat \<Rightarrow> path \<Rightarrow> string list \<Rightarrow> fs \<Rightarrow> path list \<times> fs" where
  "walk_scripts 0 d s = ([], s)"
| "walk_scripts (Suc n) d s =
     (if \<not> is_dir (fs_tree s) d then ([], s)
      else case sys (os_listdir d) s of
             (Inl _, s) \<Rightarrow> ([], s)
           | (Inr entries, s) \<Rightarrow> walk_script_entries n d entries s)"
| "walk_script_entries n d [] s = ([], s)"
| "walk_script_entries n d (c # cs) s =
     (let p = d @ [c] in
      if is_symlink (fs_tree s) p then walk_script_entries n d cs s
      else if is_dir (fs_tree s) p then
        (let (found, s) = walk_scripts n p s; (others, s) = walk_script_entries n d cs s in (found @ others, s))
      else if is_file (fs_tree s) p \<and> str_lower (path_suffix c) \<in> set upload_script_suffixes then
        (let (others, s) = walk_script_entries n d cs s in (p # others, s))
      else walk_script_entries n d cs s)"

definition upload_script :: "forensic_setup \<Rightarrow> path \<Rightarrow> path \<Rightarrow> fs \<Rightarrow> wordpress_forensic_finding list res \<times> fs" where
  "upload_script fq base p s =
     (case rules_of fq p s of
        (Inl e, s) \<Rightarrow> (Inl e, s)
      | (Inr rules, s) \<Rightarrow>
          if rules = [] then (Inr [], s)
          else
            (let (sha, s) = hash_found fq p s
             in (Inr [\<lparr>wf_finding_type = ''hidden_upload_script'', wf_relative_path = rel_str base p,
                   wf_description = ''Script-like file found under wp-content/uploads matching malware rules'',
                   wf_severity = CRITICAL, wf_matched_rule_ids = rules, wf_sha256 = sha\<rparr>], s)))"

definition scan_hidden_uploads :: "forensic_setup \<Rightarrow> path \<Rightarrow> fs \<Rightarrow> wordpress_forensic_finding list res \<times> fs" where
  "scan_hidden_uploads fq base s =
     (let (found, s) = walk_scripts (tree_depth (fs_tree s)) (base @ [''wp-content'', ''uploads'']) s
      in collect (upload_script fq base) found s)"

definition dropin :: "forensic_setup \<Rightarrow> path \<Rightarrow> string \<Rightarrow> fs \<Rightarrow> wordpress_forensic_finding list res \<times> fs" where
  "dropin fq base relative s =
     (let p = (if str_startswith relative ''/'' then path_parts relative else base @ path_parts relative) in
      if \<not> is_file (fs_tree s) p \<or> is_symlink (fs_tree s) p then (Inr [], s)
      else case rules_of fq p s of
             (Inl e, s) \<Rightarrow> (Inl e, s)
           | (Inr rules, s) \<Rightarrow>
               (let (sha, s) = (if rules \<noteq> [] then hash_found fq p s else (None, s))
                in (Inr [\<lparr>wf_finding_type = ''dropin_present'', wf_relative_path = relative,
                      wf_description = relative @ '' is present '' @ em_dash @
                        '' rare on typical shared-hosting WordPress and a known malware-persistence drop-in point'',
                      wf_severity = (if rules \<noteq> [] then CRITICAL else HIGH), wf_matched_rule_ids = rules,
                      wf_sha256 = sha\<rparr>], s)))"

definition scan_dropins :: "forensic_setup \<Rightarrow> path \<Rightarrow> fs \<Rightarrow> wordpress_forensic_finding list res \<times> fs" where
  "scan_dropins fq base = collect (dropin fq base) (fq_dropins fq)"

definition forensic_scan ::
    "forensic_setup \<Rightarrow> wordpress_installation \<Rightarrow> fs \<Rightarrow> wordpress_forensic_finding list res \<times> fs" where
  "forensic_scan fq w =
     (let base = path_parts (abs_value (wi_absolute_path w))
      in collect (\<lambda>part. part fq base)
           [scan_fake_plugins, scan_fake_themes, scan_mu_plugins, scan_hidden_uploads, scan_dropins])"
section \<open>Which upload scripts can be reported\<close>

lemma sys_read_tree [simp]: "fs_tree (snd (sys (os_read p) s)) = fs_tree s"
  by (auto simp: sys_def os_read_def split: list.split option.split sum.split node.split)

lemma sys_list_tree [simp]: "fs_tree (snd (sys (os_listdir p) s)) = fs_tree s"
  by (auto simp: sys_def os_listdir_def split: list.split option.split sum.split)

lemma reads_tree: "sys (os_read p) s = (r, s') \<Longrightarrow> fs_tree s' = fs_tree s"
  "sys (os_listdir p) s = (r', s') \<Longrightarrow> fs_tree s' = fs_tree s"
  using sys_read_tree [of p s] sys_list_tree [of p s] by simp_all

lemma check_content_tree: "check_content decode mx p relative s = (r, s') \<Longrightarrow> fs_tree s' = fs_tree s"
  by (auto simp: check_content_def Let_def dest!: reads_tree split: prod.splits sum.splits if_splits)

lemma scan_one_tree: "scan_one_file decode mx p relative s = (r, s') \<Longrightarrow> fs_tree s' = fs_tree s"
  by (auto simp: scan_one_file_def Let_def dest: check_content_tree split: prod.splits sum.splits if_splits)

lemma rules_tree: "rules_of fq p s = (r, s') \<Longrightarrow> fs_tree s' = fs_tree s"
  by (auto simp: rules_of_def dest: scan_one_tree split: prod.splits sum.splits)

lemma hash_tree: "hash_found fq p s = (r, s') \<Longrightarrow> fs_tree s' = fs_tree s"
  by (auto simp: hash_found_def dest: reads_tree split: prod.splits sum.splits)

definition double_extension :: "string \<Rightarrow> bool" where
  "double_extension name \<longleftrightarrow> rx_matches double_ext_php_first name \<or> rx_matches double_ext_media_first name"

lemma lower_slash: "char_lower c = CHR ''/'' \<longleftrightarrow> c = CHR ''/''"
proof
  assume "char_lower c = CHR ''/''"
  then have "of_char (char_lower c) = (47 :: nat)" by simp
  then have "(of_char c :: nat) = of_char CHR ''/''" by (auto simp: char_lower_def Let_def split: if_splits)
  then show "c = CHR ''/''" by (simp only: of_char_eq_iff)
qed (simp add: char_lower_def Let_def)

lemma no_slash_lower: "CHR ''/'' \<notin> set s \<Longrightarrow> CHR ''/'' \<notin> set (str_lower s)"
  by (auto simp: str_lower_def lower_slash dest: sym)

lemma location_of_name:
  assumes "CHR ''/'' \<notin> set name" "check_location name = Inr ms"
  shows "\<forall>m \<in> set ms. hm_rule_id m = ''double-extension'' \<and> double_extension name"
proof -
  have "\<not> sublist uploads_marker (str_lower name)"
    using no_slash_lower [OF assms(1)] set_mono_sublist [of uploads_marker "str_lower name"]
    by (auto simp: uploads_marker_def)
  then show ?thesis using assms(2)
    by (cases "relative_file_path name")
      (auto simp: check_location_def Let_def name_match_def double_extension_def split: if_splits)
qed

lemma check_line_ids:
  "m \<in> set (check_line rel n l) \<Longrightarrow>
     hm_rule_id m \<in> {''webshell-signature'', ''rce-user-input'', ''obfuscated-dynamic-execution'',
       ''preg_replace-e-modifier'', ''long-line''}"
  by (auto simp: check_line_def Let_def line_match_def long_line_def line_rules_def split: if_splits)

lemma check_lines_ids:
  "m \<in> set (check_lines rel n ls) \<Longrightarrow>
     hm_rule_id m \<in> {''webshell-signature'', ''rce-user-input'', ''obfuscated-dynamic-execution'',
       ''preg_replace-e-modifier'', ''long-line''}"
  by (induction ls arbitrary: n) (auto dest!: check_line_ids)
lemma rules_of_name:
  assumes "CHR ''/'' \<notin> set (last p)" "rules_of fq p s = (Inr rules, s')"
  shows "''php-in-uploads'' \<notin> set rules \<and>
    (rules \<noteq> [] \<longrightarrow> str_lower (path_suffix (last p)) = ''.php'' \<or> double_extension (last p))"
proof -
  obtain ms s1 where ms: "scan_one_file (fq_decode fq) (fq_max_bytes fq) p None s = (Inr ms, s1)"
    "rules = map hm_rule_id ms"
    using assms(2) by (auto simp: rules_of_def split: prod.splits sum.splits)
  obtain loc where loc: "check_location (last p) = Inr loc"
    using ms(1) by (auto simp: scan_one_file_def Let_def split: sum.splits)
  note l = location_of_name [OF assms(1) loc]
  show ?thesis
  proof (cases "str_lower (path_suffix (last p)) = ''.php''")
    case True
    then obtain cs where cs: "check_content (fq_decode fq) (fq_max_bytes fq) p (last p) s = (Inr cs, s1)" "ms = loc @ cs"
      using ms(1) loc by (auto simp: scan_one_file_def Let_def split: prod.splits sum.splits)
    have "\<forall>m \<in> set cs. hm_rule_id m \<noteq> ''php-in-uploads''"
      using cs(1) check_lines_ids
      by (fastforce simp: check_content_def Let_def split: prod.splits sum.splits if_splits)
    then show ?thesis using True l ms(2) cs(2) by auto
  next
    case False
    then show ?thesis using ms loc l by (cases loc) (auto simp: scan_one_file_def Let_def)
  qed
qed

text \<open>The names a listing gives are components.\<close>

lemma listed_names:
  assumes "tree_wf (fs_tree s)" "sys (os_listdir d) s = (Inr cs, s')" "c \<in> set cs"
  shows "part_ok c"
proof -
  obtain q where "cs = map last (children (fs_tree s) q)"
    using assms(2) by (auto simp: sys_def os_listdir_def split: list.splits option.splits sum.splits if_splits)
  then obtain p x where "(p, x) \<in> set (fs_tree s)" "p \<noteq> []" "c = last p"
    using assms(3) by (auto simp: children_def)
  then show ?thesis using assms(1) by (fastforce simp: tree_wf_def list_all_iff)
qed

lemma walk_scripts_found:
  "tree_wf (fs_tree s) \<Longrightarrow> walk_scripts n d s = (found, s') \<Longrightarrow>
     fs_tree s' = fs_tree s \<and> (\<forall>p \<in> set found. part_ok (last p))"
  "tree_wf (fs_tree s) \<Longrightarrow> \<forall>c \<in> set cs. part_ok c \<Longrightarrow> walk_script_entries n d cs s = (found, s') \<Longrightarrow>
     fs_tree s' = fs_tree s \<and> (\<forall>p \<in> set found. part_ok (last p))"
proof (induction n d s and n d cs s arbitrary: found s' and found s' rule: walk_scripts_walk_script_entries.induct)
  case (2 n d s)
  show ?case
  proof (cases "is_dir (fs_tree s) d")
    case True
    obtain r s1 where r: "sys (os_listdir d) s = (r, s1)" by fastforce
    have t: "fs_tree s1 = fs_tree s" using reads_tree(2) [OF r] .
    show ?thesis
    proof (cases r)
      case (Inl e)
      then show ?thesis using 2(3) True r t by simp
    next
      case (Inr entries)
      then have "\<forall>c \<in> set entries. part_ok c" using listed_names [OF 2(2)] r by blast
      moreover have "walk_script_entries n d entries s1 = (found, s')" using 2(3) True r Inr by simp
      ultimately show ?thesis using 2(1) [OF _ r [symmetric] Inr] True 2(2) t by simp
    qed
  qed (use 2(3) in simp)
next
  case (4 n d c cs s)
  obtain f1 s1 where w: "walk_scripts n (d @ [c]) s = (f1, s1)" by fastforce
  obtain f2 s2 where o: "walk_script_entries n d cs s = (f2, s2)" by fastforce
  obtain f3 s3 where o1: "walk_script_entries n d cs s1 = (f3, s3)" by fastforce
  let ?p = "d @ [c]"
  have names: "part_ok c" "\<forall>c \<in> set cs. part_ok c" using 4(7) by simp_all
  consider (link) "is_symlink (fs_tree s) ?p" | (dir) "\<not> is_symlink (fs_tree s) ?p" "is_dir (fs_tree s) ?p"
    | (script) "\<not> is_symlink (fs_tree s) ?p" "\<not> is_dir (fs_tree s) ?p"
        "is_file (fs_tree s) ?p \<and> str_lower (path_suffix c) \<in> set upload_script_suffixes"
    | (other) "\<not> is_symlink (fs_tree s) ?p" "\<not> is_dir (fs_tree s) ?p"
        "\<not> (is_file (fs_tree s) ?p \<and> str_lower (path_suffix c) \<in> set upload_script_suffixes)"
    by blast
  then show ?case
  proof cases
    case link
    then have "walk_script_entries n d cs s = (found, s')" using 4(8) by simp
    then show ?thesis using 4(1) [OF refl link 4(6) names(2)] by blast
  next
    case dir
    have f1: "fs_tree s1 = fs_tree s \<and> (\<forall>p \<in> set f1. part_ok (last p))" using 4(2) [OF refl dir 4(6) w] .
    then have wf: "tree_wf (fs_tree s1)" using 4(6) by simp
    have "fs_tree s3 = fs_tree s1 \<and> (\<forall>p \<in> set f3. part_ok (last p))"
      using 4(3) [OF refl dir refl w [symmetric] wf names(2) o1] .
    moreover have "found = f1 @ f3 \<and> s' = s3" using 4(8) dir w o1 by simp
    ultimately show ?thesis using f1 by auto
  next
    case script
    then have "found = ?p # f2 \<and> s' = s2" using 4(8) o by (simp add: Let_def)
    then show ?thesis using 4(4) [OF refl script 4(6) names(2) o] names(1) by simp
  next
    case other
    then have "walk_script_entries n d cs s = (found, s')" using 4(8) by (cases "is_file (fs_tree s) ?p") simp_all
    then show ?thesis using 4(5) [OF refl other 4(6) names(2)] by blast
  qed
qed auto

lemma collect_holds:
  assumes "\<And>p s xs s'. p \<in> set ps \<Longrightarrow> g p s = (Inr xs, s') \<Longrightarrow> \<forall>x \<in> set xs. P x"
  shows "collect g ps s = (Inr xs, s') \<Longrightarrow> \<forall>x \<in> set xs. P x"
  using assms
proof (induction ps arbitrary: s xs)
  case (Cons p ps)
  obtain ys s1 where y: "g p s = (Inr ys, s1)"
    using Cons.prems(1) by (auto split: prod.splits sum.splits)
  then obtain zs where z: "collect g ps s1 = (Inr zs, s')" "xs = ys @ zs"
    using Cons.prems(1) by (auto split: prod.splits sum.splits)
  have "\<forall>x \<in> set ys. P x" using Cons.prems(2) y by (meson list.set_intros(1))
  moreover have "\<forall>x \<in> set zs. P x" using Cons.IH [OF z(1)] Cons.prems(2) by (meson list.set_intros(2))
  ultimately show ?case using z(2) by auto
qed simp

text \<open>C37. The upload scan looks for four kinds of script, but whatever the disk holds and whichever system
  calls fail, it only ever reports files named \<open>.php\<close> or with a double extension: the content rules need
  the suffix \<open>.php\<close>, and the rule about PHP files in uploads never fires because the scanner is
  given the name of the file alone.\<close>

theorem upload_scripts_reported:
  assumes "tree_wf (fs_tree s)" "scan_hidden_uploads fq base s = (Inr found, s')" "f \<in> set found"
  shows "\<exists>p. wf_relative_path f = rel_str base p \<and>
    (str_lower (path_suffix (last p)) = ''.php'' \<or> double_extension (last p)) \<and>
    ''php-in-uploads'' \<notin> set (wf_matched_rule_ids f)"
proof -
  let ?P = "\<lambda>f. \<exists>p. wf_relative_path f = rel_str base p \<and>
    (str_lower (path_suffix (last p)) = ''.php'' \<or> double_extension (last p)) \<and>
    ''php-in-uploads'' \<notin> set (wf_matched_rule_ids f)"
  obtain ps s1 where w: "walk_scripts (tree_depth (fs_tree s)) (base @ [''wp-content'', ''uploads'']) s = (ps, s1)"
    by fastforce
  have names: "part_ok (last p)" if "p \<in> set ps" for p using walk_scripts_found(1) [OF assms(1) w] that by blast
  have "\<forall>x \<in> set xs. ?P x" if p: "p \<in> set ps" and u: "upload_script fq base p s2 = (Inr xs, s3)" for p s2 xs s3
  proof -
    have "CHR ''/'' \<notin> set (last p)" using names [OF p] by (simp add: part_ok_def)
    note name = rules_of_name [OF this]
    obtain rules s4 where r: "rules_of fq p s2 = (Inr rules, s4)"
      using u by (auto simp: upload_script_def split: prod.splits sum.splits)
    show ?thesis using u name [OF r] r by (auto simp: upload_script_def split: prod.splits if_splits)
  qed
  moreover have "collect (upload_script fq base) ps s1 = (Inr found, s')"
    using assms(2) w by (simp add: scan_hidden_uploads_def)
  ultimately have "\<forall>x \<in> set found. ?P x" by (rule collect_holds)
  then show ?thesis using assms(3) by blast
qed

section \<open>What a scan of a sound disk reports\<close>

definition sound_disk :: "fs \<Rightarrow> bool" where
  "sound_disk s \<longleftrightarrow> tree_wf (fs_tree s) \<and> fs_faults s = []"

definition hit_rules :: "forensic_setup \<Rightarrow> fs \<Rightarrow> path \<Rightarrow> string list" where
  "hit_rules fq s p = (case fst (rules_of fq p s) of Inr rules \<Rightarrow> rules | Inl _ \<Rightarrow> [])"

lemma hash_sound:
  "sound_disk s \<Longrightarrow> node_of (fs_tree s) p = Some (Regular f) \<Longrightarrow> hash_found fq p s = (Some (fq_sha fq (f_bytes f)), s)"
  using read_regular [of s p f] by (simp add: hash_found_def sound_disk_def)

lemma scan_one_sound:
  assumes "sound_disk s" "node_of (fs_tree s) p = Some (Regular f)"
  shows "\<exists>ms. scan_one_file decode max_bytes p None s = (Inr ms, s)"
proof -
  have p: "p \<noteq> []" using assms(2) by auto
  then obtain q c where "p = q @ [c]" by (cases p rule: rev_cases) auto
  then have "p \<in> regular_below (fs_tree s) (butlast p)" using assms(2) by (simp add: regular_below_def)
  then have valid: "relative_file_path (last p) = Inr (RelativeFilePath (last p))"
    using rel_str_valid assms(1) p
    by (metis rel_str_def sound_disk_def append_butlast_last_id append_eq_conv_conj str_join.simps(2))
  have loc: "\<exists>ms. check_location (last p) = Inr ms" by (auto simp: check_location_def Let_def name_match_def valid)
  have "\<exists>ms. check_content decode max_bytes p (last p) s = (Inr ms, s)"
    using read_regular assms by (auto simp: check_content_def sound_disk_def valid Let_def)
  then show ?thesis using loc by (auto simp: scan_one_file_def Let_def)
qed

lemma rules_sound:
  assumes "sound_disk s" "node_of (fs_tree s) p = Some (Regular f)"
  shows "rules_of fq p s = (Inr (hit_rules fq s p), s)"
  using scan_one_sound [OF assms, of "fq_decode fq" "fq_max_bytes fq"] by (auto simp: hit_rules_def rules_of_def)

lemma collect_pure:
  "(\<And>p. p \<in> set ps \<Longrightarrow> g p s = (Inr (h p), s)) \<Longrightarrow> collect g ps s = (Inr (concat (map h ps)), s)"
  by (induction ps) simp_all

text \<open>The PHP files of a directory, and the entries a listing gives.\<close>

definition php_in :: "tree \<Rightarrow> path \<Rightarrow> path \<Rightarrow> file_data \<Rightarrow> bool" where
  "php_in t d p f \<longleftrightarrow> butlast p = d \<and> p \<noteq> [] \<and> node_of t p = Some (Regular f) \<and> path_suffix (last p) = ''.php''"

lemma listed_sound:
  assumes "sound_disk s" "node_of (fs_tree s) d = Some Directory"
  shows "\<exists>cs. sys (os_listdir d) s = (Inr cs, s) \<and> distinct cs \<and>
    set (map (\<lambda>c. d @ [c]) cs) = {p. butlast p = d \<and> p \<noteq> [] \<and> node_of (fs_tree s) p \<noteq> None}"
proof -
  have "sys (os_listdir d) s = (Inr (map last (children (fs_tree s) d)), s)"
    using listdir_wf assms by (simp add: sound_disk_def)
  moreover have "d @ [last p] = p" if "p \<in> set (children (fs_tree s) d)" for p
    using that by (auto simp: children_def)
  then have "(\<lambda>p. d @ [last p]) ` set (children (fs_tree s) d) = set (children (fs_tree s) d)" by force
  moreover have "set (children (fs_tree s) d) = {p. butlast p = d \<and> p \<noteq> [] \<and> node_of (fs_tree s) p \<noteq> None}"
    using children_iff [of _ "fs_tree s" d] by auto
  ultimately show ?thesis using listing_distinct [of "fs_tree s" d] by (auto simp: image_image)
qed

lemma entry_tests:
  assumes "sound_disk s" "node_of (fs_tree s) p = Some x" "p \<noteq> []"
  shows "is_symlink (fs_tree s) p = (\<exists>l. x = Symlink l)"
    "(\<not> is_symlink (fs_tree s) p \<and> is_file (fs_tree s) p) = (\<exists>f. x = Regular f)"
    "(\<not> is_symlink (fs_tree s) p \<and> is_dir (fs_tree s) p) = (x = Directory)"
  using entry_kind [of "fs_tree s" p x] assms by (auto simp: sound_disk_def)

lemma php_files_sound:
  assumes "sound_disk s" "node_of (fs_tree s) d = Some Directory"
  shows "\<exists>ps. php_files_in d s = (ps, s) \<and> set ps = {p. \<exists>f. php_in (fs_tree s) d p f}"
proof -
  obtain cs where c: "sys (os_listdir d) s = (Inr cs, s)"
    "set (map (\<lambda>c. d @ [c]) cs) = {p. butlast p = d \<and> p \<noteq> [] \<and> node_of (fs_tree s) p \<noteq> None}"
    using listed_sound [OF assms] by blast
  have "set (fst (php_files_in d s)) = {p \<in> set (map (\<lambda>c. d @ [c]) cs).
      path_suffix (last p) = ''.php'' \<and> is_file (fs_tree s) p \<and> \<not> is_symlink (fs_tree s) p}"
    by (simp only: php_files_in_def c(1) prod.case sum.case fst_conv set_filter)
  also have "\<dots> = {p. \<exists>f. php_in (fs_tree s) d p f}"
    using entry_tests(2) [OF assms(1)] unfolding c(2) php_in_def by blast
  finally show ?thesis by (simp add: php_files_in_def c(1))
qed

text \<open>\<open>_walk_scripts\<close> is a walk that keeps the scripts.\<close>

definition is_script :: "path \<Rightarrow> bool" where
  "is_script p \<longleftrightarrow> str_lower (path_suffix (last p)) \<in> set upload_script_suffixes"

lemma walk_tree [simp]:
  "fs_tree (snd (walk n d s)) = fs_tree s"
  "fs_tree (snd (walk_entries n d cs s)) = fs_tree s"
proof (induction n d s and n d cs s rule: walk_walk_entries.induct)
  case (2 n d s)
  obtain r s1 where r: "sys (os_listdir d) s = (r, s1)" by fastforce
  then show ?case using 2 [OF r [symmetric]] reads_tree(2) [OF r] by (cases r) simp_all
next
  case (4 n d c cs s)
  obtain f s1 where w: "walk n (d @ [c]) s = (f, s1)" by fastforce
  show ?case using 4(1,4,5) 4(2) [OF refl] 4(3) [OF refl _ _ refl w [symmetric]] w by (simp add: Let_def split_beta)
qed simp_all

lemma walk_scripts_filter:
  "is_dir (fs_tree s) d \<Longrightarrow> walk_scripts n d s = map_prod (filter is_script) id (walk n d s)"
  "walk_script_entries n d cs s = map_prod (filter is_script) id (walk_entries n d cs s)"
proof (induction n d s and n d cs s rule: walk_walk_entries.induct)
  case (2 n d s)
  obtain r s1 where r: "sys (os_listdir d) s = (r, s1)" by fastforce
  show ?case using 2(1) [OF r [symmetric]] 2(2) r by (cases r) simp_all
next
  case (4 n d c cs s)
  obtain f s1 where w: "walk n (d @ [c]) s = (f, s1)" by fastforce
  show ?case
    using 4(1,4,5) 4(2) [OF refl] 4(3) [OF refl _ _ refl w [symmetric]] w
    by (cases "is_symlink (fs_tree s) (d @ [c])"; cases "is_dir (fs_tree s) (d @ [c])")
      (simp_all add: Let_def split_beta is_script_def map_prod_def)
qed simp_all

text \<open>The findings, each from its file alone.\<close>

definition mu_finding :: "forensic_setup \<Rightarrow> fs \<Rightarrow> path \<Rightarrow> path \<Rightarrow> file_data \<Rightarrow> wordpress_forensic_finding" where
  "mu_finding fq s base p f =
     (let rules = hit_rules fq s p
      in \<lparr>wf_finding_type = ''mu_plugin_present'', wf_relative_path = rel_str base p,
          wf_description = ''Must-use plugin present '' @ em_dash @
            '' auto-loaded on every request with no activation step, a common persistence mechanism'',
          wf_severity = (if rules \<noteq> [] then CRITICAL else MEDIUM), wf_matched_rule_ids = rules,
          wf_sha256 = (if rules \<noteq> [] then Some (fq_sha fq (f_bytes f)) else None)\<rparr>)"

definition upload_finding :: "forensic_setup \<Rightarrow> fs \<Rightarrow> path \<Rightarrow> path \<Rightarrow> file_data \<Rightarrow> wordpress_forensic_finding" where
  "upload_finding fq s base p f =
     \<lparr>wf_finding_type = ''hidden_upload_script'', wf_relative_path = rel_str base p,
      wf_description = ''Script-like file found under wp-content/uploads matching malware rules'',
      wf_severity = CRITICAL, wf_matched_rule_ids = hit_rules fq s p, wf_sha256 = Some (fq_sha fq (f_bytes f))\<rparr>"

lemma mu_plugins_sound:
  assumes "sound_disk s" "node_of (fs_tree s) (base @ [''wp-content'', ''mu-plugins'']) = Some Directory"
  shows "\<exists>found. scan_mu_plugins fq base s = (Inr found, s) \<and>
    set found = {mu_finding fq s base p f |p f. php_in (fs_tree s) (base @ [''wp-content'', ''mu-plugins'']) p f}"
proof -
  let ?d = "base @ [''wp-content'', ''mu-plugins'']"
  obtain cs where c: "sys (os_listdir ?d) s = (Inr cs, s)"
    "set (map (\<lambda>c. ?d @ [c]) cs) = {p. butlast p = ?d \<and> p \<noteq> [] \<and> node_of (fs_tree s) p \<noteq> None}"
    using listed_sound [OF assms] by blast
  define h where "h p = (case node_of (fs_tree s) p of Some (Regular f) \<Rightarrow>
      if path_suffix (last p) = ''.php'' then [mu_finding fq s base p f] else [] | _ \<Rightarrow> [])" for p
  have each: "mu_plugin fq base p s = (Inr (h p), s)" if p: "p \<in> set (map (\<lambda>c. ?d @ [c]) cs)" for p
  proof -
    obtain x where x: "node_of (fs_tree s) p = Some x" "p \<noteq> []" using p c(2) by auto
    note t = entry_tests [OF assms(1) x]
    show ?thesis
    proof (cases x)
      case (Regular f)
      note r = rules_sound [OF assms(1) x(1) [unfolded Regular], of fq]
        hash_sound [OF assms(1) x(1) [unfolded Regular], of fq]
      show ?thesis using t x(1) Regular r by (auto simp: mu_plugin_def h_def mu_finding_def Let_def)
    qed (use t x(1) in \<open>auto simp: mu_plugin_def h_def\<close>)
  qed
  have "scan_mu_plugins fq base s = (Inr (concat (map h (map (\<lambda>c. ?d @ [c]) cs))), s)"
    using collect_pure [of "map (\<lambda>c. ?d @ [c]) cs" "mu_plugin fq base" s h] each by (simp add: scan_mu_plugins_def c(1))
  moreover have "set (concat (map h (map (\<lambda>c. ?d @ [c]) cs))) = {mu_finding fq s base p f |p f. php_in (fs_tree s) ?d p f}"
    unfolding set_concat set_map [of h] c(2)
    by (auto simp: h_def php_in_def split: option.splits node.splits if_splits) blast
  ultimately show ?thesis by blast
qed

lemma uploads_sound:
  assumes "sound_disk s" "node_of (fs_tree s) (base @ [''wp-content'', ''uploads'']) = Some Directory"
  shows "\<exists>found. scan_hidden_uploads fq base s = (Inr found, s) \<and>
    set found = {upload_finding fq s base p f |p f. p \<in> regular_below (fs_tree s) (base @ [''wp-content'', ''uploads'']) \<and>
      is_script p \<and> node_of (fs_tree s) p = Some (Regular f) \<and> hit_rules fq s p \<noteq> []}"
proof -
  let ?d = "base @ [''wp-content'', ''uploads'']"
  have wf: "tree_wf (fs_tree s)" "fs_faults s = []" using assms(1) by (simp_all add: sound_disk_def)
  obtain ps where w: "walk_all ?d s = (ps, s)" "set ps = regular_below (fs_tree s) ?d"
    using walk_all_exact [OF wf assms(2)] by blast
  have "is_dir (fs_tree s) ?d" using entry_tests(3) [OF assms] by blast
  then have scripts: "walk_scripts (tree_depth (fs_tree s)) ?d s = (filter is_script ps, s)"
    using walk_scripts_filter(1) [of s ?d "tree_depth (fs_tree s)"] w(1) by (simp add: walk_all_def)
  define h where "h p = (case node_of (fs_tree s) p of Some (Regular f) \<Rightarrow>
      if hit_rules fq s p \<noteq> [] then [upload_finding fq s base p f] else [] | _ \<Rightarrow> [])" for p
  have each: "upload_script fq base p s = (Inr (h p), s)" if p: "p \<in> set (filter is_script ps)" for p
  proof -
    obtain f where f: "node_of (fs_tree s) p = Some (Regular f)" using p w(2) by (auto simp: regular_below_def)
    show ?thesis using rules_sound [OF assms(1) f, of fq] hash_sound [OF assms(1) f, of fq] f
      by (simp add: upload_script_def h_def upload_finding_def)
  qed
  have "scan_hidden_uploads fq base s = (Inr (concat (map h (filter is_script ps))), s)"
    using collect_pure [of "filter is_script ps" "upload_script fq base" s h] each scripts by (simp add: scan_hidden_uploads_def)
  moreover have "set (concat (map h (filter is_script ps))) = {upload_finding fq s base p f |p f.
      p \<in> regular_below (fs_tree s) ?d \<and> is_script p \<and> node_of (fs_tree s) p = Some (Regular f) \<and> hit_rules fq s p \<noteq> []}"
    unfolding w(2) [symmetric] by (auto simp: h_def split: option.splits node.splits if_splits) metis
  ultimately show ?thesis by blast
qed

definition has_header :: "forensic_setup \<Rightarrow> fs \<Rightarrow> path \<Rightarrow> bool" where
  "has_header fq s d \<longleftrightarrow> (\<exists>p f. php_in (fs_tree s) d p f \<and> rx_matches plugin_name_re (fq_decode_ignore fq (f_bytes f)))"

definition fake_finding :: "forensic_setup \<Rightarrow> fs \<Rightarrow> path \<Rightarrow> path \<Rightarrow> file_data \<Rightarrow> wordpress_forensic_finding" where
  "fake_finding fq s base p f =
     \<lparr>wf_finding_type = ''fake_plugin'', wf_relative_path = rel_str base p,
      wf_description = ''PHP file under wp-content/plugins/'' @ last (butlast p) @
        '' matches malware rules; directory has no valid plugin header '' @ em_dash @
        '' not visible to normal inventory scanning'',
      wf_severity = CRITICAL, wf_matched_rule_ids = hit_rules fq s p, wf_sha256 = Some (fq_sha fq (f_bytes f))\<rparr>"

lemma header_found_sound:
  assumes "sound_disk s"
  shows "\<forall>p \<in> set ps. \<exists>f. node_of (fs_tree s) p = Some (Regular f) \<Longrightarrow>
    header_found fq pattern ps s =
      (\<exists>p \<in> set ps. \<exists>f. node_of (fs_tree s) p = Some (Regular f) \<and> rx_matches pattern (fq_decode_ignore fq (f_bytes f)), s)"
proof (induction ps)
  case (Cons p ps)
  then obtain f where f: "node_of (fs_tree s) p = Some (Regular f)" by auto
  then have "p \<noteq> []" by auto
  note t = entry_tests [OF assms f this]
  have "sys (os_read p) s = (Inr f, s)" using read_regular f assms by (simp only: sound_disk_def)
  then show ?case using Cons t f by auto
qed simp

lemma reported_files:
  assumes "set ps = {p. \<exists>f. R p f}" "\<And>p f. R p f \<Longrightarrow> node_of t p = Some (Regular f)"
  shows "set (concat (map (\<lambda>p. case node_of t p of Some (Regular f) \<Rightarrow> if c p then [g p f] else [] | _ \<Rightarrow> []) ps)) =
    {g p f |p f. R p f \<and> c p}"
proof -
  have "x \<in> {g p f |p f. R p f \<and> c p} \<longleftrightarrow> (\<exists>p. (\<exists>f. R p f) \<and>
      x \<in> set (case node_of t p of Some (Regular f) \<Rightarrow> if c p then [g p f] else [] | _ \<Rightarrow> []))" for x
    using assms(2) by (auto split: option.splits node.splits if_splits) fastforce+
  then show ?thesis unfolding set_concat set_map assms(1) by auto
qed

lemma fake_plugin_sound:
  assumes "sound_disk s" "node_of (fs_tree s) d = Some Directory" "d \<noteq> []"
  shows "\<exists>found. fake_extension fq plugin_name_re ''plugin'' None base d s = (Inr found, s) \<and>
    set found = (if has_header fq s d \<or> \<not> (\<exists>p f. php_in (fs_tree s) d p f) then {}
      else if \<exists>p f. php_in (fs_tree s) d p f \<and> hit_rules fq s p \<noteq> []
      then {fake_finding fq s base p f |p f. php_in (fs_tree s) d p f \<and> hit_rules fq s p \<noteq> []}
      else {fake_directory ''plugin'' base d})"
proof -
  obtain ps where ps: "php_files_in d s = (ps, s)" "set ps = {p. \<exists>f. php_in (fs_tree s) d p f}"
    using php_files_sound [OF assms(1,2)] by blast
  have reg: "\<forall>p \<in> set ps. \<exists>f. node_of (fs_tree s) p = Some (Regular f)" using ps(2) by (auto simp: php_in_def)
  have valid: "has_valid_header fq plugin_name_re None d s = (has_header fq s d, s)"
    using header_found_sound [OF assms(1) reg, of fq plugin_name_re] ps
    by (auto simp: has_valid_header_def has_header_def php_in_def)
  define h where "h p = (case node_of (fs_tree s) p of Some (Regular f) \<Rightarrow>
      if hit_rules fq s p \<noteq> [] then [fake_finding fq s base p f] else [] | _ \<Rightarrow> [])" for p
  have each: "fake_file fq ''plugin'' base (last d) p s = (Inr (h p), s)" if p: "p \<in> set ps" for p
  proof -
    obtain f where f: "node_of (fs_tree s) p = Some (Regular f)" "butlast p = d" using p ps(2) by (auto simp: php_in_def)
    show ?thesis using rules_sound [OF assms(1) f(1), of fq] hash_sound [OF assms(1) f(1), of fq] f
      by (simp add: fake_file_def h_def fake_finding_def)
  qed
  let ?found = "concat (map h ps)"
  have all: "collect (fake_file fq ''plugin'' base (last d)) ps s = (Inr ?found, s)"
    using collect_pure [of ps "fake_file fq ''plugin'' base (last d)" s h] each by simp
  have set: "set ?found = {fake_finding fq s base p f |p f. php_in (fs_tree s) d p f \<and> hit_rules fq s p \<noteq> []}"
    unfolding h_def by (rule reported_files [OF ps(2)]) (simp add: php_in_def)
  have none: "?found = [] \<longleftrightarrow> set ?found = {}" "ps = [] \<longleftrightarrow> set ps = {}" by (simp_all only: set_empty)
  have "?found = [] \<longleftrightarrow> \<not> (\<exists>p f. php_in (fs_tree s) d p f \<and> hit_rules fq s p \<noteq> [])"
    unfolding none set by blast
  moreover have "ps = [] \<longleftrightarrow> \<not> (\<exists>p f. php_in (fs_tree s) d p f)" unfolding none ps(2) by blast
  ultimately show ?thesis
    using valid ps(1) all set entry_tests [OF assms] by (simp add: fake_extension_def) blast
qed

definition plugin_findings :: "forensic_setup \<Rightarrow> fs \<Rightarrow> path \<Rightarrow> path \<Rightarrow> wordpress_forensic_finding set" where
  "plugin_findings fq s base d =
     (if has_header fq s d \<or> \<not> (\<exists>p f. php_in (fs_tree s) d p f) then {}
      else if \<exists>p f. php_in (fs_tree s) d p f \<and> hit_rules fq s p \<noteq> []
      then {fake_finding fq s base p f |p f. php_in (fs_tree s) d p f \<and> hit_rules fq s p \<noteq> []}
      else {fake_directory ''plugin'' base d})"

lemma fake_plugins_sound:
  assumes "sound_disk s" "node_of (fs_tree s) (base @ [''wp-content'', ''plugins'']) = Some Directory"
  shows "\<exists>found. scan_fake_plugins fq base s = (Inr found, s) \<and>
    set found = (\<Union>d \<in> {d. butlast d = base @ [''wp-content'', ''plugins''] \<and> d \<noteq> [] \<and>
      node_of (fs_tree s) d = Some Directory}. plugin_findings fq s base d)"
proof -
  let ?d = "base @ [''wp-content'', ''plugins'']" and ?g = "fake_extension fq plugin_name_re ''plugin'' None base"
  obtain cs where c: "sys (os_listdir ?d) s = (Inr cs, s)"
    "set (map (\<lambda>c. ?d @ [c]) cs) = {p. butlast p = ?d \<and> p \<noteq> [] \<and> node_of (fs_tree s) p \<noteq> None}"
    using listed_sound [OF assms] by blast
  have "\<exists>found. ?g p s = (Inr found, s) \<and>
      set found = (if node_of (fs_tree s) p = Some Directory then plugin_findings fq s base p else {})"
    if p: "p \<in> set (map (\<lambda>c. ?d @ [c]) cs)" for p
  proof -
    obtain x where x: "node_of (fs_tree s) p = Some x" "p \<noteq> []" using p c(2) by auto
    show ?thesis
    proof (cases "x = Directory")
      case True
      then show ?thesis
        using fake_plugin_sound [OF assms(1) _ x(2), of fq base] x(1) unfolding plugin_findings_def by simp
    next
      case False
      then show ?thesis using entry_tests(3) [OF assms(1) x] x(1) by (auto simp: fake_extension_def)
    qed
  qed
  then obtain h where h: "\<And>p. p \<in> set (map (\<lambda>c. ?d @ [c]) cs) \<Longrightarrow> ?g p s = (Inr (h p), s) \<and>
      set (h p) = (if node_of (fs_tree s) p = Some Directory then plugin_findings fq s base p else {})"
    by metis
  have "is_dir (fs_tree s) ?d" using entry_tests(3) [OF assms] by blast
  then have "scan_fake_plugins fq base s = (Inr (concat (map h (map (\<lambda>c. ?d @ [c]) cs))), s)"
    using collect_pure [of "map (\<lambda>c. ?d @ [c]) cs" ?g s h] h c(1)
    by (simp add: scan_fake_plugins_def scan_extension_directory_def)
  moreover have "set (concat (map h (map (\<lambda>c. ?d @ [c]) cs))) =
      (\<Union>p \<in> {p. butlast p = ?d \<and> p \<noteq> [] \<and> node_of (fs_tree s) p \<noteq> None}. set (h p))"
    unfolding c(2) [symmetric] by simp
  moreover have "\<dots> = (\<Union>d \<in> {d. butlast d = ?d \<and> d \<noteq> [] \<and> node_of (fs_tree s) d = Some Directory}.
      plugin_findings fq s base d)"
    using h unfolding c(2) by (auto split: if_splits)
  ultimately show ?thesis by auto
qed

text \<open>C36. What the forensic scan reports of a sound disk. Of the plugin directories, those with PHP files and
  no plugin header in any of them: their files that match a rule, as CRITICAL with their hash, or the directory
  when no file does. Every must-use plugin, as CRITICAL when it matches a rule. Below the uploads directory, at any
  depth, the scripts that match a rule.\<close>

theorem forensic_scan_exact:
  assumes "sound_disk s"
    and "node_of (fs_tree s) (base @ [''wp-content'', ''plugins'']) = Some Directory"
    and "node_of (fs_tree s) (base @ [''wp-content'', ''mu-plugins'']) = Some Directory"
    and "node_of (fs_tree s) (base @ [''wp-content'', ''uploads'']) = Some Directory"
  shows "(\<exists>found. scan_fake_plugins fq base s = (Inr found, s) \<and>
      set found = (\<Union>d \<in> {d. butlast d = base @ [''wp-content'', ''plugins''] \<and> d \<noteq> [] \<and>
        node_of (fs_tree s) d = Some Directory}. plugin_findings fq s base d)) \<and>
    (\<exists>found. scan_mu_plugins fq base s = (Inr found, s) \<and>
      set found = {mu_finding fq s base p f |p f. php_in (fs_tree s) (base @ [''wp-content'', ''mu-plugins'']) p f}) \<and>
    (\<exists>found. scan_hidden_uploads fq base s = (Inr found, s) \<and>
      set found = {upload_finding fq s base p f |p f.
        p \<in> regular_below (fs_tree s) (base @ [''wp-content'', ''uploads'']) \<and>
        is_script p \<and> node_of (fs_tree s) p = Some (Regular f) \<and> hit_rules fq s p \<noteq> []})"
  using fake_plugins_sound [OF assms(1,2)] mu_plugins_sound [OF assms(1,3)] uploads_sound [OF assms(1,4)]
  by (intro conjI)

section \<open>An example\<close>

definition demo_shop :: fs where
  "demo_shop =
     (let shell = \<lparr>f_bytes = [], f_mode = 0, f_uid = 0, f_gid = 0\<rparr>
      in \<lparr>fs_tree = [([''w''], Directory), ([''w'', ''wp-content''], Directory),
            ([''w'', ''wp-content'', ''plugins''], Directory), ([''w'', ''wp-content'', ''mu-plugins''], Directory),
            ([''w'', ''wp-content'', ''uploads''], Directory),
            ([''w'', ''wp-content'', ''uploads'', ''a.jpg.php''], Regular shell)],
          fs_faults = [], fs_uuids = []\<rparr>)"

definition demo_rules :: forensic_setup where
  "demo_rules = \<lparr>fq_decode = id, fq_decode_ignore = id, fq_sha = (\<lambda>_. ''''), fq_max_bytes = 100, fq_dropins = []\<rparr>"

lemma demo_shop_sound: "sound_disk demo_shop"
  unfolding sound_disk_def by code_simp

lemma demo_shop_nodes:
  "node_of (fs_tree demo_shop) ([''w''] @ [''wp-content'', ''plugins'']) = Some Directory"
  "node_of (fs_tree demo_shop) ([''w''] @ [''wp-content'', ''mu-plugins'']) = Some Directory"
  "node_of (fs_tree demo_shop) ([''w''] @ [''wp-content'', ''uploads'']) = Some Directory"
  by (simp_all add: demo_shop_def node_of_def Let_def)

lemma demo_upload:
  "fst (scan_hidden_uploads demo_rules [''w''] demo_shop) =
     Inr [\<lparr>wf_finding_type = ''hidden_upload_script'',
       wf_relative_path = ''wp-content/uploads/a.jpg.php'',
       wf_description = ''Script-like file found under wp-content/uploads matching malware rules'',
       wf_severity = CRITICAL, wf_matched_rule_ids = [''double-extension''], wf_sha256 = Some ''''\<rparr>]"
  by code_simp

theorem upload_scripts_reported_witness:
  "\<exists>p. ''wp-content/uploads/a.jpg.php'' = rel_str [''w''] p \<and>
    (str_lower (path_suffix (last p)) = ''.php'' \<or> double_extension (last p)) \<and>
    ''php-in-uploads'' \<notin> set [''double-extension'']"
proof -
  obtain found s' where scan: "scan_hidden_uploads demo_rules [''w''] demo_shop = (Inr found, s')"
    using demo_upload prod.collapse by metis
  then have "wf_relative_path (hd found) = ''wp-content/uploads/a.jpg.php''"
    "wf_matched_rule_ids (hd found) = [''double-extension'']" "hd found \<in> set found"
    using demo_upload by auto
  then show ?thesis
    using upload_scripts_reported [OF demo_shop_sound [unfolded sound_disk_def, THEN conjunct1] scan, of "hd found"]
    by simp
qed

theorem forensic_scan_exact_witness:
  "(\<exists>found. scan_mu_plugins demo_rules [''w''] demo_shop = (Inr found, demo_shop)) \<and>
   (\<exists>found. scan_hidden_uploads demo_rules [''w''] demo_shop = (Inr found, demo_shop) \<and>
      ''wp-content/uploads/a.jpg.php'' \<in> wf_relative_path ` set found \<and> CRITICAL \<in> wf_severity ` set found)"
proof -
  note scan = forensic_scan_exact [OF demo_shop_sound demo_shop_nodes, of demo_rules]
  obtain found where "scan_hidden_uploads demo_rules [''w''] demo_shop = (Inr found, demo_shop)" using scan by blast
  moreover have "''wp-content/uploads/a.jpg.php'' \<in> wf_relative_path ` set found \<and> CRITICAL \<in> wf_severity ` set found"
    using demo_upload calculation by simp
  moreover obtain mu where "scan_mu_plugins demo_rules [''w''] demo_shop = (Inr mu, demo_shop)" using scan by blast
  ultimately show ?thesis by blast
qed

end
