(* ===== verification/Api_Pagination.thy ===== *)
theory Api_Pagination
  imports Json_Text Cron_Inventory
begin

text \<open>
  Cursor pagination of the HTTP API: \<open>encode_cursor\<close> and \<open>decode_cursor\<close> of
  \<open>api/pagination.py\<close> over Python's \<open>base64\<close> and \<open>int\<close>, and the body that the list endpoints of
  \<open>api/v1/*.py\<close> share. \<open>follow\<close> is the client of the protocol: it asks for a page, then for
  the page of \<open>cursor_next\<close>, until there is none.
\<close>

section \<open>Base 64\<close>

text \<open>The URL-safe alphabet of \<open>base64.urlsafe_b64encode\<close>. The decoder also takes the two characters
  of the ordinary alphabet, because \<open>urlsafe_b64decode\<close> only translates the URL-safe ones into them.\<close>

definition b64_char :: "nat \<Rightarrow> char" where
  "b64_char n =
     (if n < 26 then char_of (65 + n) else if n < 52 then char_of (71 + n)
      else if n < 62 then char_of (n - 4) else if n = 62 then CHR ''-'' else CHR ''_'')"

definition b64_value :: "char \<Rightarrow> nat option" where
  "b64_value c =
     (let n = (of_char c :: nat)
      in if 65 \<le> n \<and> n \<le> 90 then Some (n - 65)
         else if 97 \<le> n \<and> n \<le> 122 then Some (n - 71)
         else if 48 \<le> n \<and> n \<le> 57 then Some (n + 4)
         else if n = 45 \<or> n = 43 then Some 62
         else if n = 95 \<or> n = 47 then Some 63
         else None)"

fun b64_encode :: "nat list \<Rightarrow> string" where
  "b64_encode [] = []"
| "b64_encode [a] = [b64_char (a div 4), b64_char (a mod 4 * 16), CHR ''='', CHR ''='']"
| "b64_encode [a, b] =
     [b64_char (a div 4), b64_char (a mod 4 * 16 + b div 16), b64_char (b mod 16 * 4), CHR ''='']"
| "b64_encode (a # b # c # rest) =
     b64_char (a div 4) # b64_char (a mod 4 * 16 + b div 16) # b64_char (b mod 16 * 4 + c div 64) #
     b64_char (c mod 64) # b64_encode rest"

text \<open>\<open>binascii.a2b_base64\<close> in its default mode: the position inside a group of four, the bits left
  over from the last character, and the padding seen since. Padding out of place and characters that
  are not in the alphabet are skipped.\<close>

fun b64_decode :: "nat \<Rightarrow> nat \<Rightarrow> nat \<Rightarrow> string \<Rightarrow> nat list option" where
  "b64_decode pos left pads [] = (if pos = 0 then Some [] else None)"
| "b64_decode pos left pads (c # cs) =
     (if c = CHR ''='' then
        (if pos < 2 then b64_decode pos left pads cs
         else if pos + (pads + 1) \<ge> 4 then Some []
         else b64_decode pos left (pads + 1) cs)
      else case b64_value c of
             None \<Rightarrow> b64_decode pos left pads cs
           | Some v \<Rightarrow>
               (if pos = 0 then b64_decode 1 v 0 cs
                else if pos = 1 then map_option ((#) (left * 4 + v div 16)) (b64_decode 2 (v mod 16) 0 cs)
                else if pos = 2 then map_option ((#) (left * 16 + v div 4)) (b64_decode 3 (v mod 4) 0 cs)
                else map_option ((#) (left * 64 + v)) (b64_decode 0 0 0 cs)))"

lemma b64_value_char: "n < 64 \<Longrightarrow> b64_value (b64_char n) = Some n"
  by (auto simp: b64_char_def b64_value_def Let_def)

lemma b64_char_pad: "n < 64 \<Longrightarrow> b64_char n \<noteq> CHR ''=''"
proof -
  have "b64_value (CHR ''='') = None" by (simp add: b64_value_def)
  then show "n < 64 \<Longrightarrow> b64_char n \<noteq> CHR ''=''" using b64_value_char [of n] by auto
qed

lemma b64_decode_step:
  "n < 64 \<Longrightarrow> b64_decode 0 l p (b64_char n # cs) = b64_decode 1 n 0 cs"
  "n < 64 \<Longrightarrow> b64_decode (Suc 0) l p (b64_char n # cs) = map_option ((#) (l * 4 + n div 16)) (b64_decode 2 (n mod 16) 0 cs)"
  "n < 64 \<Longrightarrow> b64_decode 2 l p (b64_char n # cs) = map_option ((#) (l * 16 + n div 4)) (b64_decode 3 (n mod 4) 0 cs)"
  "n < 64 \<Longrightarrow> b64_decode 3 l p (b64_char n # cs) = map_option ((#) (l * 64 + n)) (b64_decode 0 0 0 cs)"
  by (simp_all add: b64_value_char b64_char_pad)

lemma b64_decode_end:
  "b64_decode 2 l p [CHR ''='', CHR ''=''] = Some []" "b64_decode 3 l p [CHR ''=''] = Some []"
  "b64_decode 0 l p [] = Some []"
  by (cases "p = 0"; simp)+

lemma b64_roundtrip: "list_all (\<lambda>b. b < 256) bs \<Longrightarrow> b64_decode 0 0 0 (b64_encode bs) = Some bs"
proof (induction bs rule: b64_encode.induct)
  case (2 a)
  then have "a div 4 < 64" "a mod 4 * 16 < 64" by auto
  then show ?case by (simp add: b64_decode_step b64_decode_end del: b64_decode.simps)
next
  case (3 a b)
  then have "a div 4 < 64" "a mod 4 * 16 + b div 16 < 64" "b mod 16 * 4 < 64" "b div 16 < 16" by auto
  then show ?case
    by (simp add: b64_decode_step b64_decode_end del: b64_decode.simps)
next
  case (4 a b c rest)
  then have "a div 4 < 64" "a mod 4 * 16 + b div 16 < 64" "b mod 16 * 4 + c div 64 < 64" "c mod 64 < 64" "b div 16 < 16" "c div 64 < 4" by auto
  then show ?case
    using 4 by (simp add: b64_decode_step b64_decode_end del: b64_decode.simps)
qed simp
section \<open>Cursors\<close>

text \<open>\<open>int(text)\<close>: surrounding white space, a sign, digits with single underscores between them, and
  at most 4300 digits.\<close>

fun py_digits :: "string \<Rightarrow> string option" where
  "py_digits [] = None"
| "py_digits [c] = (if is_digit c then Some [c] else None)"
| "py_digits (c # d # cs) =
     (if \<not> is_digit c then None
      else if d = CHR ''_'' then map_option ((#) c) (py_digits cs)
      else map_option ((#) c) (py_digits (d # cs)))"

definition py_int :: "string \<Rightarrow> int option" where
  "py_int s =
     (let s = str_strip s;
          (neg, ds) = (case s of [] \<Rightarrow> (False, [])
                         | c # cs \<Rightarrow> if c = CHR ''-'' then (True, cs) else if c = CHR ''+'' then (False, cs)
                                   else (False, s))
      in case py_digits ds of
           None \<Rightarrow> None
         | Some t \<Rightarrow> if length t > 4300 then None
                     else Some (if neg then - int (digits_nat t) else int (digits_nat t)))"

text \<open>Requests end with a response, an HTTP error (its status and detail), or an exception no handler
  turns into one.\<close>

datatype http_error = Http nat string | Unhandled exn

type_synonym 'a reply = "http_error + 'a"

definition encode_cursor :: "nat \<Rightarrow> string" where
  "encode_cursor offset = b64_encode (map of_char (nat_str offset))"

definition is_ascii :: "string \<Rightarrow> bool" where
  "is_ascii s = list_all (\<lambda>c. (of_char c :: nat) < 128) s"

definition decode_cursor :: "string option \<Rightarrow> nat reply" where
  "decode_cursor cursor =
     (case cursor of
        None \<Rightarrow> Inr 0
      | Some s \<Rightarrow>
          (case (if is_ascii s then b64_decode 0 0 0 s else None) of
             None \<Rightarrow> Inl (Http 400 ''Invalid cursor'')
           | Some bytes \<Rightarrow>
               (case (if is_ascii (map char_of bytes) then py_int (map char_of bytes) else None) of
                  None \<Rightarrow> Inl (Http 400 ''Invalid cursor'')
                | Some offset \<Rightarrow> if offset < 0 then Inl (Http 400 ''Invalid cursor'') else Inr (nat offset))))"

lemma py_digits_plain: "s \<noteq> [] \<Longrightarrow> list_all is_digit s \<Longrightarrow> py_digits s = Some s"
  by (induction s rule: py_digits.induct) (auto simp: is_digit_def)

lemma digit_not_space: "is_digit c \<Longrightarrow> \<not> py_space c \<and> c \<noteq> CHR ''-'' \<and> c \<noteq> CHR ''+'' \<and> (of_char c :: nat) < 128"
  by (auto simp: is_digit_def py_space_def Let_def)

lemma nat_str_length: "n < 10 ^ k \<Longrightarrow> 0 < k \<Longrightarrow> length (nat_str n) \<le> k"
proof (induction k arbitrary: n)
  case (Suc k)
  show ?case
  proof (cases "n < 10")
    case False
    then have "0 < k" using Suc.prems by (cases k) auto
    moreover have "n div 10 < 10 ^ k" using Suc.prems by (simp add: div_less_iff_less_mult mult.commute)
    ultimately show ?thesis using Suc.IH [of "n div 10"] by (subst nat_str.simps) simp
  qed (simp add: nat_str.simps)
qed simp

lemma py_int_nat_str:
  assumes "n < 10 ^ 4300"
  shows "py_int (nat_str n) = Some (int n)"
proof -
  have ds: "list_all is_digit (nat_str n)" by (rule nat_str_digits)
  then have ends: "\<not> py_space (hd (nat_str n))" "\<not> py_space (last (nat_str n))"
    using digit_not_space by (simp_all add: list_all_iff)
  obtain c cs where s: "nat_str n = c # cs" by (cases "nat_str n") auto
  have "c \<noteq> CHR ''-''" "c \<noteq> CHR ''+''" using ds digit_not_space [of c] by (simp_all add: s)
  moreover have "length (nat_str n) \<le> 4300" using nat_str_length [OF assms] by simp
  moreover have "str_strip (nat_str n) = nat_str n" using ends by (intro str_strip_id) simp_all
  ultimately show ?thesis
    using py_digits_plain [OF _ ds] digits_nat_str [of n] unfolding py_int_def
    by (simp add: s Let_def)
qed

lemma b64_encode_ascii: "list_all (\<lambda>b. b < 256) bs \<Longrightarrow> is_ascii (b64_encode bs)"
proof -
  have v: "n < 64 \<Longrightarrow> (of_char (b64_char n) :: nat) < 128" for n
    by (auto simp: b64_char_def)
  show "list_all (\<lambda>b. b < 256) bs \<Longrightarrow> is_ascii (b64_encode bs)"
    by (induction bs rule: b64_encode.induct) (auto simp: is_ascii_def intro!: v)
qed

lemma cursor_decodes_big:
  assumes n: "n < 10 ^ 4300"
  shows "decode_cursor (Some (encode_cursor n)) = Inr n"
proof -
  let ?bs = "map of_char (nat_str n) :: nat list"
  have small: "list_all (\<lambda>b. b < 256) ?bs"
    using nat_str_digits [of n] digit_not_space by (fastforce simp: list_all_iff)
  have chars: "map char_of ?bs = nat_str n" by (simp add: comp_def)
  have "is_ascii (nat_str n)"
    using nat_str_digits [of n] digit_not_space by (auto simp: is_ascii_def list_all_iff)
  then show ?thesis
    using b64_roundtrip [OF small] b64_encode_ascii [OF small] py_int_nat_str [OF n]
    unfolding decode_cursor_def encode_cursor_def option.case by (simp only: chars if_True option.case) simp
qed

lemma cursor_bound: "(2 :: nat) ^ 63 < 10 ^ 4300"
proof -
  have "(2 :: nat) ^ 63 < 10 ^ 20" by simp
  also have "(10 :: nat) ^ 20 \<le> 10 ^ 4300" by (intro power_increasing) simp_all
  finally show ?thesis .
qed

lemma cursor_decodes: "n \<le> 2 ^ 63 \<Longrightarrow> decode_cursor (Some (encode_cursor n)) = Inr n"
  using cursor_bound by (intro cursor_decodes_big) (rule le_less_trans)

text \<open>Every offset of a table is read back from the cursor made from it.\<close>

theorem cursor_roundtrip: "n < 2 ^ 63 \<Longrightarrow> decode_cursor (Some (encode_cursor n)) = Inr n"
  by (rule cursor_decodes) simp

theorem cursor_roundtrip_witness: "decode_cursor (Some (encode_cursor 50)) = Inr 50 \<and> encode_cursor 50 = ''NTA=''"
proof -
  have "encode_cursor 50 = ''NTA=''" by code_simp
  then show ?thesis using cursor_roundtrip [of 50] by simp
qed
section \<open>Pages\<close>

record 'a page =
  pg_data :: "'a list"
  pg_cursor_next :: "string option"
  pg_cursor_prev :: "string option"
  pg_has_next :: bool
  pg_has_prev :: bool
  pg_limit :: nat

text \<open>The body every list endpoint has: \<open>limit\<close> must lie between 1 and 200, one row more than a page
  is asked for, and SQLite refuses an offset that is not a signed 64-bit integer.\<close>

definition paginate :: "(nat \<Rightarrow> nat \<Rightarrow> 'a list) \<Rightarrow> string option \<Rightarrow> nat \<Rightarrow> 'a page reply" where
  "paginate query cursor limit =
     (if limit < 1 \<or> 200 < limit then Inl (Http 422 ''limit'')
      else case decode_cursor cursor of
             Inl e \<Rightarrow> Inl e
           | Inr offset \<Rightarrow>
               (if 2 ^ 63 \<le> offset then Inl (Unhandled (OtherError ''OverflowError''))
                else
                  (let found = query (limit + 1) offset;
                       has_next = length found > limit
                   in Inr \<lparr>pg_data = take limit found,
                           pg_cursor_next = (if has_next then Some (encode_cursor (offset + limit)) else None),
                           pg_cursor_prev = (if offset > 0 then Some (encode_cursor (offset - limit)) else None),
                           pg_has_next = has_next, pg_has_prev = (offset > 0), pg_limit = limit\<rparr>)))"

text \<open>A client that follows \<open>cursor_next\<close> to the end.\<close>

partial_function (option) follow ::
    "(string option \<Rightarrow> 'a page reply) \<Rightarrow> string option \<Rightarrow> 'a page list reply option" where
  "follow fetch c =
     (case fetch c of
        Inl e \<Rightarrow> Some (Inl e)
      | Inr p \<Rightarrow>
          (case pg_cursor_next p of
             None \<Rightarrow> Some (Inr [p])
           | Some c' \<Rightarrow> Option.bind (follow fetch (Some c')) (\<lambda>r. Some (map_sum id ((#) p) r))))"

lemma paginate_page:
  assumes "1 \<le> limit" "limit \<le> 200" "decode_cursor c = Inr offset" "offset < 2 ^ 63"
  shows "paginate (\<lambda>l k. tbl_list l k rows) c limit = Inr
    \<lparr>pg_data = take limit (drop offset rows),
     pg_cursor_next = (if offset + limit < length rows then Some (encode_cursor (offset + limit)) else None),
     pg_cursor_prev = (if offset > 0 then Some (encode_cursor (offset - limit)) else None),
     pg_has_next = (offset + limit < length rows), pg_has_prev = (offset > 0), pg_limit = limit\<rparr>"
  using assms by (auto simp: paginate_def tbl_list_def Let_def min_def)

lemma follow_pages:
  assumes limit: "1 \<le> limit" "limit \<le> 200" and rows: "length rows < 2 ^ 63"
  shows "decode_cursor c = Inr offset \<Longrightarrow> offset = 0 \<or> offset < length rows \<Longrightarrow>
    \<exists>ps. follow (\<lambda>c. paginate (\<lambda>l k. tbl_list l k rows) c limit) c = Some (Inr ps) \<and> ps \<noteq> [] \<and>
      concat (map pg_data ps) = drop offset rows \<and>
      list_all (\<lambda>p. length (pg_data p) = limit) (butlast ps)"
proof (induction "length rows - offset" arbitrary: c offset rule: less_induct)
  case less
  let ?fetch = "\<lambda>c. paginate (\<lambda>l k. tbl_list l k rows) c limit"
  have small: "offset < 2 ^ 63" using less.prems(2) rows by auto
  note page = paginate_page [OF limit less.prems(1) small, of rows]
  show ?case
  proof (cases "offset + limit < length rows")
    case False
    then show ?thesis
      using page by (subst follow.simps) auto
  next
    case True
    let ?c = "encode_cursor (offset + limit)"
    have c: "decode_cursor (Some ?c) = Inr (offset + limit)"
      using True rows by (intro cursor_decodes) simp
    have dec: "length rows - (offset + limit) < length rows - offset" using True limit(1) by simp
    obtain ps where ps: "follow ?fetch (Some ?c) = Some (Inr ps)" "ps \<noteq> []"
      "concat (map pg_data ps) = drop (offset + limit) rows" "list_all (\<lambda>p. length (pg_data p) = limit) (butlast ps)"
      using less.hyps [OF dec c] True by blast
    have "take limit (drop offset rows) @ drop (offset + limit) rows = drop offset rows"
      by (metis add.commute append_take_drop_id drop_drop)
    then show ?thesis
      using page True ps by (subst follow.simps) (auto simp: min_def)
  qed
qed

text \<open>C29. A client that asks for the first page of a table and follows the cursors reaches the end,
  sees every row exactly once and in order, and gets full pages until the last one.\<close>

theorem pages_cover_table:
  assumes "1 \<le> limit" "limit \<le> 200" "length rows < 2 ^ 63"
  shows "\<exists>ps. follow (\<lambda>c. paginate (\<lambda>l k. tbl_list l k rows) c limit) None = Some (Inr ps) \<and>
    concat (map pg_data ps) = rows \<and> list_all (\<lambda>p. length (pg_data p) = limit) (butlast ps)"
proof -
  have "decode_cursor None = Inr 0" by (simp add: decode_cursor_def)
  from follow_pages [OF assms this] show ?thesis by auto
qed

theorem pages_cover_table_witness:
  "\<exists>ps. follow (\<lambda>c. paginate (\<lambda>l k. tbl_list l k [10 :: nat, 20, 30]) c 2) None = Some (Inr ps) \<and>
     concat (map pg_data ps) = [10, 20, 30] \<and> list_all (\<lambda>p. length (pg_data p) = 2) (butlast ps)"
  using pages_cover_table [of 2 "[10 :: nat, 20, 30]"] by simp

text \<open>A cursor that is not the encoding of a number is answered with status 400, but one that
  encodes a number of 64 bits or more passes \<open>decode_cursor\<close> and makes the database driver raise an
  exception that no handler catches.\<close>

theorem huge_cursor_unhandled:
  "decode_cursor (Some ''not a cursor'') = Inl (Http 400 ''Invalid cursor'') \<and>
   paginate (query :: nat \<Rightarrow> nat \<Rightarrow> 'a list) (Some (encode_cursor (2 ^ 63))) 50 = Inl (Unhandled (OtherError ''OverflowError''))"
proof -
  have "decode_cursor (Some ''not a cursor'') = Inl (Http 400 ''Invalid cursor'')" by code_simp
  moreover
  have "decode_cursor (Some (encode_cursor (2 ^ 63))) = Inr (2 ^ 63)" by (rule cursor_decodes) simp
  then have "paginate query (Some (encode_cursor (2 ^ 63))) 50 = Inl (Unhandled (OtherError ''OverflowError''))"
    by (simp add: paginate_def)
  ultimately show ?thesis by blast
qed

end
