(* ===== verification/Temp_Scanner.thy ===== *)
theory Temp_Scanner
  imports Forensic_Scanner Api_Pagination
begin

text \<open>
  \<open>FilesystemTempFileScanner\<close> (\<open>infrastructure/forensics/temp_file_scanner.py\<close>): the reader of the
  temporary directories, with the verdict on a file and what \<open>/proc\<close> says of the process that holds it
  open. The password database and the table of MIME types are parameters. The last section puts the reader and
  \<open>ScanTempDirectoriesUseCase\<close> together.
\<close>

section \<open>What /proc says\<close>

definition os_readlink :: "path \<Rightarrow> string io" where
  "os_readlink p s =
     (case lpath (fs_tree s) p of
        Inl e \<Rightarrow> (Inl e, s)
      | Inr q \<Rightarrow> (case node_of (fs_tree s) q of
                    Some (Symlink l) \<Rightarrow> (Inr l, s) | Some _ \<Rightarrow> (Inl (EOTHER 22), s) | None \<Rightarrow> (Inl ENOENT, s)))"

definition proc_root :: path where
  "proc_root = [''proc'']"

fun read_links :: "path list \<Rightarrow> fs \<Rightarrow> string list \<times> fs" where
  "read_links [] s = ([], s)"
| "read_links (p # ps) s =
     (case sys (os_readlink p) s of
        (Inl _, s) \<Rightarrow> read_links ps s
      | (Inr l, s) \<Rightarrow> (let (ls, s) = read_links ps s in (l # ls, s)))"

definition open_files_of :: "path \<Rightarrow> fs \<Rightarrow> string list \<times> fs" where
  "open_files_of pid_dir s =
     (let d = pid_dir @ [''fd''] in
      case sys (os_listdir d) s of
        (Inl _, s) \<Rightarrow> ([], s)
      | (Inr entries, s) \<Rightarrow> read_links (map (\<lambda>c. d @ [c]) entries) s)"

definition command_line_of :: "(string \<Rightarrow> string) \<Rightarrow> path \<Rightarrow> fs \<Rightarrow> string option \<times> fs" where
  "command_line_of decode pid_dir s =
     (case sys (os_read (pid_dir @ [''cmdline''])) s of
        (Inl _, s) \<Rightarrow> (None, s)
      | (Inr f, s) \<Rightarrow>
          (let txt = str_strip (decode (map (\<lambda>c. if c = CHR 0x00 then CHR '' '' else c) (f_bytes f)))
           in (if txt = [] then None else Some txt, s)))"

definition executable_of :: "path \<Rightarrow> fs \<Rightarrow> string option \<times> fs" where
  "executable_of pid_dir s =
     (case sys (os_readlink (pid_dir @ [''exe''])) s of (Inl _, s) \<Rightarrow> (None, s) | (Inr l, s) \<Rightarrow> (Some l, s))"

fun ppid_line :: "string list \<Rightarrow> int option" where
  "ppid_line [] = None"
| "ppid_line (l # ls) =
     (if str_startswith l ''PPid:'' then py_int (str_strip (drop 1 (dropWhile (\<lambda>c. c \<noteq> CHR '':'') l)))
      else ppid_line ls)"

definition ppid_of :: "(string \<Rightarrow> string) \<Rightarrow> path \<Rightarrow> fs \<Rightarrow> int option \<times> fs" where
  "ppid_of decode pid_dir s =
     (case sys (os_read (pid_dir @ [''status''])) s of
        (Inl _, s) \<Rightarrow> (None, s)
      | (Inr f, s) \<Rightarrow> (ppid_line (split_lines [] (decode (f_bytes f))), s))"

text \<open>The first process, in the order of the listing, that has the file open.\<close>

fun process_of :: "(string \<Rightarrow> string) \<Rightarrow> string \<Rightarrow> string list \<Rightarrow> fs \<Rightarrow> process_context option \<times> fs" where
  "process_of decode target [] s = (None, s)"
| "process_of decode target (pid # pids) s =
     (let d = proc_root @ [pid]; (files, s) = open_files_of d s in
      if target \<notin> set files then process_of decode target pids s
      else
        (let (ppid, s) = ppid_of decode d s;
             (exe, s) = executable_of d s;
             (command, s) = command_line_of decode d s
         in (Some \<lparr>pc_pid = py_int pid, pc_ppid = ppid, pc_executable_path = exe, pc_command_line = command,
               pc_open_files = files, pc_network_connections = []\<rparr>, s)))"

definition process_context_for :: "(string \<Rightarrow> string) \<Rightarrow> path \<Rightarrow> fs \<Rightarrow> process_context option \<times> fs" where
  "process_context_for decode p s =
     (if \<not> is_dir (fs_tree s) proc_root then (None, s)
      else case sys (os_listdir proc_root) s of
             (Inl _, s) \<Rightarrow> (None, s)
           | (Inr entries, s) \<Rightarrow>
               process_of decode (path_str p) (filter (\<lambda>c. c \<noteq> [] \<and> list_all is_digit c) entries) s)"

section \<open>One file\<close>

text \<open>\<open>max(matches, key=...)\<close>: the first match of the highest severity.\<close>

fun top_match :: "heuristic_match \<Rightarrow> heuristic_match list \<Rightarrow> heuristic_match" where
  "top_match best [] = best"
| "top_match best (m # ms) =
     top_match (if severity_rank (hm_severity best) < severity_rank (hm_severity m) then m else best) ms"

definition classify_matches :: "heuristic_match list \<Rightarrow> temp_file_verdict \<times> string" where
  "classify_matches matches =
     (case matches of
        [] \<Rightarrow> (LEGITIMATE, ''No heuristic rules matched'')
      | m # ms \<Rightarrow>
          (let top = top_match m ms in
           if severity_rank HIGH \<le> severity_rank (hm_severity top) then (MALICIOUS, hm_description top)
           else (SUSPICIOUS, hm_description top)))"

text \<open>What the scanner is built from; \<open>tq_pwd\<close> is the password database, \<open>tq_mime\<close> the table of
  \<open>mimetypes\<close>.\<close>

record temp_setup =
  tq_decode :: "string \<Rightarrow> string"
  tq_sha :: "string \<Rightarrow> string"
  tq_max_bytes :: nat
  tq_extensions :: "string list"
  tq_pwd :: "int \<Rightarrow> string option"
  tq_mime :: "string \<Rightarrow> string option"

definition owner_of :: "temp_setup \<Rightarrow> int \<Rightarrow> string" where
  "owner_of tq uid = (case tq_pwd tq uid of Some name \<Rightarrow> name | None \<Rightarrow> nat_str (nat uid))"

definition resolve_owner :: "string \<Rightarrow> db \<Rightarrow> cpanel_account option" where
  "resolve_owner owner d =
     (case linux_username owner of Inl _ \<Rightarrow> None | Inr u \<Rightarrow> account_get_by_username u d)"

text \<open>The file as \<open>stat\<close> and hashing see it: hash, size, owner and permissions, together or not at all.\<close>

definition file_facts ::
    "temp_setup \<Rightarrow> path \<Rightarrow> fs \<Rightarrow> (sha256_hash option \<times> int \<times> string \<times> string option) res \<times> fs" where
  "file_facts tq p s =
     (let unknown = (None, 0, ''unknown'', None) in
      case sys (os_read p) s of
        (Inl _, s) \<Rightarrow> (Inr unknown, s)
      | (Inr f, s) \<Rightarrow>
          (case sys (os_read p) s of
             (Inl _, s) \<Rightarrow> (Inr unknown, s)
           | (Inr g, s) \<Rightarrow>
               (case sha256_hash (tq_sha tq (f_bytes g)) of
                  Inl e \<Rightarrow> (Inl e, s)
                | Inr h \<Rightarrow>
                    (Inr (Some h, int (length (f_bytes f)), owner_of tq (f_uid f), Some (mode_str (f_mode f))), s))))"

definition observe_file ::
    "temp_setup \<Rightarrow> datetime \<Rightarrow> db \<Rightarrow> path \<Rightarrow> fs \<Rightarrow> temp_file_observation list res \<times> fs" where
  "observe_file tq now d p s =
     (case file_facts tq p s of
        (Inl e, s) \<Rightarrow> (Inl e, s)
      | (Inr (sha, size_bytes, owner, permissions), s) \<Rightarrow>
          (case scan_one_file (tq_decode tq) (tq_max_bytes tq) p None s of
             (Inl e, s) \<Rightarrow> (Inl e, s)
           | (Inr matches, s) \<Rightarrow>
               (let (verdict, reason) = classify_matches matches;
                    account = resolve_owner owner d
                in case absolute_file_path (path_str p) of
                     Inl e \<Rightarrow> (Inl e, s)
                   | Inr absolute \<Rightarrow>
                       (let (process, s) = process_context_for (tq_decode tq) p s
                        in (Inr [\<lparr>eid = 0, created_at = now, updated_at = now, to_absolute_path = absolute,
                              to_sha256 = sha, to_owner = owner, to_size_bytes = size_bytes, to_verdict = verdict,
                              to_verdict_reason = reason, to_matched_rule_ids = map hm_rule_id matches,
                              to_process = process, to_account_id = map_option eid account, to_detected_at = now,
                              to_file_permissions = permissions, to_mime_type = tq_mime tq (last p),
                              to_server_id = map_option ac_server_id account\<rparr>], s)))))"

section \<open>The directories\<close>

definition observe_entry ::
    "temp_setup \<Rightarrow> datetime \<Rightarrow> db \<Rightarrow> path \<Rightarrow> fs \<Rightarrow> temp_file_observation list res \<times> fs" where
  "observe_entry tq now d p s =
     (if is_symlink (fs_tree s) p \<or> \<not> is_file (fs_tree s) p then (Inr [], s)
      else if str_lower (path_suffix (last p)) \<notin> str_lower ` set (tq_extensions tq) then (Inr [], s)
      else observe_file tq now d p s)"

definition scan_temp_directory ::
    "temp_setup \<Rightarrow> datetime \<Rightarrow> db \<Rightarrow> path \<Rightarrow> fs \<Rightarrow> temp_file_observation list res \<times> fs" where
  "scan_temp_directory tq now d dir s =
     (case sys (os_listdir dir) s of
        (Inl _, s) \<Rightarrow> (Inr [], s)
      | (Inr entries, s) \<Rightarrow> collect (observe_entry tq now d) (map (\<lambda>c. dir @ [c]) entries) s)"

definition read_temp_files ::
    "temp_setup \<Rightarrow> datetime \<Rightarrow> db \<Rightarrow> path list \<Rightarrow> fs \<Rightarrow> temp_file_observation list res \<times> fs" where
  "read_temp_files tq now d dirs s = collect (scan_temp_directory tq now d) dirs s"

section \<open>Verdicts\<close>

lemma top_match_max:
  "top_match m ms \<in> set (m # ms) \<and>
   severity_rank (hm_severity (top_match m ms)) = Max (severity_rank ` hm_severity ` set (m # ms))"
proof (induction ms arbitrary: m)
  case (Cons k ms)
  let ?b = "if severity_rank (hm_severity m) < severity_rank (hm_severity k) then k else m"
  have "Max (severity_rank ` hm_severity ` set (m # k # ms)) = Max (severity_rank ` hm_severity ` set (?b # ms))"
    by (cases "ms = []") (auto simp: max_def)
  then show ?case using Cons [of ?b] by (auto split: if_splits)
qed simp

text \<open>The verdict on a file depends on its matches as documented: none is legitimate, one of at least HIGH
  makes it malicious, and the reason given is the description of a match of the highest severity.\<close>

theorem verdict_meaning:
  "(fst (classify_matches matches) = LEGITIMATE \<longleftrightarrow> matches = []) \<and>
   (fst (classify_matches matches) = MALICIOUS \<longleftrightarrow> (\<exists>m \<in> set matches. HIGH \<le> hm_severity m)) \<and>
   (matches = [] \<or> (\<exists>m \<in> set matches. snd (classify_matches matches) = hm_description m \<and>
      severity_rank (hm_severity m) = Max (severity_rank ` hm_severity ` set matches)))"
proof (cases matches)
  case (Cons m ms)
  note top = top_match_max [of m ms]
  have "severity_rank HIGH \<le> severity_rank (hm_severity (top_match m ms)) \<longleftrightarrow>
      (\<exists>k \<in> set (m # ms). severity_rank HIGH \<le> severity_rank (hm_severity k))"
    using top Max_ge_iff [of "severity_rank ` hm_severity ` set (m # ms)" "severity_rank HIGH"] by auto
  moreover have "snd (classify_matches matches) = hm_description (top_match m ms)"
    by (simp add: Cons classify_matches_def Let_def)
  ultimately show ?thesis using top
    by (auto simp: Cons classify_matches_def Let_def less_eq_severity_def split: if_splits)
qed (simp add: classify_matches_def)

section \<open>What a scan of a sound disk reads\<close>

lemma quiet:
  assumes "fs_faults s = []"
  shows "snd (sys (os_read p) s) = s" "snd (sys (os_listdir p) s) = s" "snd (sys (os_readlink p) s) = s"
  using assms by (auto simp: sys_def os_read_def os_listdir_def os_readlink_def split: sum.split option.split node.split)

lemma quiet_reads:
  assumes "fs_faults s = []"
  shows "sys (os_read p) s = (r, s') \<Longrightarrow> s' = s" "sys (os_listdir p) s = (l, s') \<Longrightarrow> s' = s"
    "sys (os_readlink p) s = (k, s') \<Longrightarrow> s' = s"
  using quiet [OF assms, of p] by simp_all

lemma read_links_quiet: "fs_faults s = [] \<Longrightarrow> snd (read_links ps s) = s"
  by (induction ps) (auto simp del: sys_reliable dest: quiet_reads split: prod.splits sum.splits)

lemma open_files_quiet: "fs_faults s = [] \<Longrightarrow> open_files_of d s = (r, s') \<Longrightarrow> s' = s"
  using read_links_quiet [of s] by (auto simp: open_files_of_def Let_def simp del: sys_reliable dest: quiet_reads split: prod.splits sum.splits) (metis quiet_reads(2) snd_conv)

lemma proc_parts_quiet:
  assumes "fs_faults s = []"
  shows "command_line_of decode d s = (c, s') \<Longrightarrow> s' = s" "executable_of d s = (e, s') \<Longrightarrow> s' = s"
    "ppid_of decode d s = (i, s') \<Longrightarrow> s' = s"
  using quiet_reads [OF assms]
  by (auto simp: command_line_of_def executable_of_def ppid_of_def Let_def simp del: sys_reliable split: prod.splits sum.splits)

lemma process_quiet:
  assumes "fs_faults s = []"
  shows "snd (process_of decode target pids s) = s"
  by (induction pids)
    (auto simp: Let_def dest: open_files_quiet [OF assms] proc_parts_quiet [OF assms] split: prod.splits)

lemma process_context_quiet: "fs_faults s = [] \<Longrightarrow> process_context_for decode p s = (r, s') \<Longrightarrow> s' = s"
  using process_quiet [of s decode "path_str p"]
  by (auto simp: process_context_for_def simp del: sys_reliable dest: quiet_reads split: prod.splits sum.splits if_splits) (metis quiet_reads(2) snd_conv)

lemma union_over_paths: "(\<And>p f. P p f \<Longrightarrow> p \<in> A) \<Longrightarrow> (\<Union>p \<in> A. {g p f |f. P p f}) = {g p f |p f. P p f}"
  by blast

lemma union_over_dirs:
  "(\<And>p f. P p f \<longleftrightarrow> (\<exists>d \<in> A. Q d p f)) \<Longrightarrow> (\<Union>d \<in> A. {g p f |p f. Q d p f}) = {g p f |p f. P p f}"
  by (simp, blast)

definition matches_at :: "temp_setup \<Rightarrow> fs \<Rightarrow> path \<Rightarrow> heuristic_match list" where
  "matches_at tq s p =
     (case fst (scan_one_file (tq_decode tq) (tq_max_bytes tq) p None s) of Inr ms \<Rightarrow> ms | Inl _ \<Rightarrow> [])"

text \<open>The files a scan observes, and what an observation says of its file.\<close>

definition temp_file :: "temp_setup \<Rightarrow> path list \<Rightarrow> tree \<Rightarrow> path \<Rightarrow> file_data \<Rightarrow> bool" where
  "temp_file tq dirs t p f \<longleftrightarrow> p \<noteq> [] \<and> butlast p \<in> set dirs \<and> node_of t p = Some (Regular f) \<and>
     str_lower (path_suffix (last p)) \<in> str_lower ` set (tq_extensions tq)"

definition says :: "temp_file_observation \<Rightarrow> string \<times> string option \<times> int \<times> temp_file_verdict \<times> string list" where
  "says ob = (abs_value (to_absolute_path ob), map_option sha_value (to_sha256 ob), to_size_bytes ob, to_verdict ob,
     to_matched_rule_ids ob)"

definition facts_of :: "temp_setup \<Rightarrow> fs \<Rightarrow> path \<Rightarrow> file_data \<Rightarrow> string \<times> string option \<times> int \<times> temp_file_verdict \<times> string list" where
  "facts_of tq s p f = (path_str p, Some (tq_sha tq (f_bytes f)), int (length (f_bytes f)),
     fst (classify_matches (matches_at tq s p)), map hm_rule_id (matches_at tq s p))"

lemma observed_file:
  assumes "sound_disk s" "sha_ok (tq_sha tq)" "node_of (fs_tree s) p = Some (Regular f)"
  shows "\<exists>ob. observe_file tq now d p s = (Inr [ob], s) \<and> says ob = facts_of tq s p f \<and> sound_observation ob"
proof -
  have quiet: "fs_faults s = []" and wf: "tree_wf (fs_tree s)" using assms(1) by (simp_all add: sound_disk_def)
  have p: "p \<noteq> []" "list_all part_ok p" "''..'' \<notin> set p"
    using wf_entry [OF wf assms(3)] assms(3) by (auto simp: normal_def list_all_iff)
  have abs: "absolute_file_path (path_str p) = Inr (AbsoluteFilePath (path_str p))"
    using path_str_absolute p by blast
  have "scan_one_file (tq_decode tq) (tq_max_bytes tq) p None s = (Inr (matches_at tq s p), s)"
    using scan_one_sound [OF assms(1,3), of "tq_decode tq" "tq_max_bytes tq"] by (auto simp: matches_at_def)
  moreover have "file_facts tq p s =
      (Inr (Some (Sha256Hash (tq_sha tq (f_bytes f))), int (length (f_bytes f)), owner_of tq (f_uid f),
         Some (mode_str (f_mode f))), s)"
    using read_regular [OF wf quiet assms(3)] assms(2) quiet by (simp add: file_facts_def sha_ok_def)
  moreover obtain process where "process_context_for (tq_decode tq) p s = (process, s)"
    using process_context_quiet [OF quiet, of "tq_decode tq" p] by (metis prod.collapse)
  moreover obtain verdict reason where "classify_matches (matches_at tq s p) = (verdict, reason)" by fastforce
  moreover have "valid_abs (AbsoluteFilePath (path_str p))" "valid_sha (Sha256Hash (tq_sha tq (f_bytes f)))"
    using abs assms(2) by (auto simp: valid_abs_def valid_sha_def sha_ok_def)
  ultimately show ?thesis
    by (simp add: observe_file_def abs says_def facts_of_def sound_observation_def Let_def)
qed

lemma temp_directory_sound:
  assumes "sound_disk s" "sha_ok (tq_sha tq)" "node_of (fs_tree s) dir = Some Directory"
  shows "\<exists>obs. scan_temp_directory tq now d dir s = (Inr obs, s) \<and> list_all sound_observation obs \<and>
    says ` set obs = {facts_of tq s p f |p f. temp_file tq [dir] (fs_tree s) p f}"
proof -
  obtain cs where c: "sys (os_listdir dir) s = (Inr cs, s)"
    "set (map (\<lambda>c. dir @ [c]) cs) = {p. butlast p = dir \<and> p \<noteq> [] \<and> node_of (fs_tree s) p \<noteq> None}"
    using listed_sound [OF assms(1,3)] by blast
  have "\<exists>obs. observe_entry tq now d p s = (Inr obs, s) \<and> list_all sound_observation obs \<and>
      says ` set obs = {facts_of tq s p f |f. temp_file tq [dir] (fs_tree s) p f}"
    if p: "p \<in> set (map (\<lambda>c. dir @ [c]) cs)" for p
  proof -
    obtain x where x: "node_of (fs_tree s) p = Some x" "p \<noteq> []" "butlast p = dir" using p c(2) by auto
    note t = entry_tests [OF assms(1) x(1,2)]
    show ?thesis
    proof (cases "(\<exists>f. x = Regular f) \<and> str_lower (path_suffix (last p)) \<in> str_lower ` set (tq_extensions tq)")
      case True
      then obtain f where f: "x = Regular f" by blast
      obtain ob where ob: "observe_file tq now d p s = (Inr [ob], s)" "says ob = facts_of tq s p f" "sound_observation ob"
        using observed_file [OF assms(1,2), of p f now d] x(1) f by auto
      have "observe_entry tq now d p s = (Inr [ob], s)" using ob(1) t f True by (simp add: observe_entry_def)
      moreover have "temp_file tq [dir] (fs_tree s) p g \<longleftrightarrow> g = f" for g using x f True by (auto simp: temp_file_def)
      ultimately show ?thesis using ob by simp
    next
      case False
      then have "observe_entry tq now d p s = (Inr [], s)" using t by (auto simp: observe_entry_def)
      moreover have "\<not> temp_file tq [dir] (fs_tree s) p g" for g using x False by (auto simp: temp_file_def)
      ultimately show ?thesis by simp
    qed
  qed
  then have "\<forall>p \<in> set (map (\<lambda>c. dir @ [c]) cs). \<exists>obs. observe_entry tq now d p s = (Inr obs, s) \<and>
      list_all sound_observation obs \<and> says ` set obs = {facts_of tq s p f |f. temp_file tq [dir] (fs_tree s) p f}"
    by blast
  then obtain h where h: "\<forall>p \<in> set (map (\<lambda>c. dir @ [c]) cs). observe_entry tq now d p s = (Inr (h p), s) \<and>
      list_all sound_observation (h p) \<and> says ` set (h p) = {facts_of tq s p f |f. temp_file tq [dir] (fs_tree s) p f}"
    by (rule bchoice [THEN exE])
  let ?entries = "{p. butlast p = dir \<and> p \<noteq> [] \<and> node_of (fs_tree s) p \<noteq> None}"
  let ?obs = "concat (map h (map (\<lambda>c. dir @ [c]) cs))"
  have "scan_temp_directory tq now d dir s = (Inr ?obs, s)"
    using collect_pure [of "map (\<lambda>c. dir @ [c]) cs" "observe_entry tq now d" s h] h c(1)
    by (simp add: scan_temp_directory_def)
  moreover have "list_all sound_observation ?obs" using h by (auto simp: list_all_iff)
  moreover have "says ` set ?obs = (\<Union>p \<in> ?entries. says ` set (h p))"
    unfolding c(2) [symmetric] by auto
  moreover have "\<dots> = {facts_of tq s p f |p f. temp_file tq [dir] (fs_tree s) p f}"
  proof -
    have eq: "(\<Union>p \<in> ?entries. says ` set (h p)) = (\<Union>p \<in> ?entries. {facts_of tq s p f |f. temp_file tq [dir] (fs_tree s) p f})"
      using h unfolding c(2) by (intro SUP_cong refl) blast
    show ?thesis unfolding eq by (rule union_over_paths) (auto simp: temp_file_def)
  qed
  ultimately show ?thesis by simp
qed

lemma temp_files_sound:
  assumes "sound_disk s" "sha_ok (tq_sha tq)" "list_all (\<lambda>dir. node_of (fs_tree s) dir = Some Directory) dirs"
  shows "\<exists>obs. read_temp_files tq now d dirs s = (Inr obs, s) \<and> list_all sound_observation obs \<and>
    says ` set obs = {facts_of tq s p f |p f. temp_file tq dirs (fs_tree s) p f}"
proof -
  have "\<forall>dir \<in> set dirs. \<exists>obs. scan_temp_directory tq now d dir s = (Inr obs, s) \<and> list_all sound_observation obs \<and>
      says ` set obs = {facts_of tq s p f |p f. temp_file tq [dir] (fs_tree s) p f}"
    using temp_directory_sound [OF assms(1,2)] assms(3) unfolding list_all_iff by blast
  then obtain h where h: "\<forall>dir \<in> set dirs. scan_temp_directory tq now d dir s = (Inr (h dir), s) \<and>
      list_all sound_observation (h dir) \<and>
      says ` set (h dir) = {facts_of tq s p f |p f. temp_file tq [dir] (fs_tree s) p f}"
    by (rule bchoice [THEN exE])
  have "read_temp_files tq now d dirs s = (Inr (concat (map h dirs)), s)"
    using collect_pure [of dirs "scan_temp_directory tq now d" s h] h by (simp add: read_temp_files_def)
  moreover have "list_all sound_observation (concat (map h dirs))" using h by (auto simp: list_all_iff)
  moreover have "says ` set (concat (map h dirs)) = (\<Union>dir \<in> set dirs. says ` set (h dir))" by auto
  moreover have "\<dots> = {facts_of tq s p f |p f. temp_file tq dirs (fs_tree s) p f}"
  proof -
    have eq: "(\<Union>dir \<in> set dirs. says ` set (h dir)) =
        (\<Union>dir \<in> set dirs. {facts_of tq s p f |p f. temp_file tq [dir] (fs_tree s) p f})"
      using h by (intro SUP_cong refl) blast
    show ?thesis unfolding eq by (rule union_over_dirs) (auto simp: temp_file_def)
  qed
  ultimately show ?thesis by simp
qed

section \<open>Reader and use case together\<close>

lemma says_path: "abs_value (to_absolute_path ob) = fst (says ob)"
  by (simp add: says_def)

lemma first_new_sub: "set (first_new seen obs) \<subseteq> set obs"
  by (induction obs arbitrary: seen) (auto simp: Let_def)

lemma first_new_covers: "seen \<union> obs_paths (first_new seen obs) = seen \<union> obs_paths obs"
proof (induction obs arbitrary: seen)
  case (Cons ob obs)
  show ?case using Cons [of seen] Cons [of "insert (abs_value (to_absolute_path ob)) seen"] by (auto simp: Let_def)
qed simp

lemma says_stamped: "says ` set (stamp_ids n obs) = says ` set obs"
  by (induction obs arbitrary: n) (simp_all add: says_def)

lemma read_paths:
  assumes "sound_disk s" "sha_ok (tq_sha tq)" "list_all (\<lambda>dir. node_of (fs_tree s) dir = Some Directory) dirs"
    and "read_temp_files tq now d dirs s = (Inr found, s')"
  shows "says ` set found = {facts_of tq s p f |p f. temp_file tq dirs (fs_tree s) p f}"
    "obs_paths found = path_str ` {p. \<exists>f. temp_file tq dirs (fs_tree s) p f}"
proof -
  show facts: "says ` set found = {facts_of tq s p f |p f. temp_file tq dirs (fs_tree s) p f}"
    using temp_files_sound [OF assms(1-3), of now d] assms(4) by auto
  have "obs_paths found = fst ` (says ` set found)" by (simp add: says_path image_image)
  also have "\<dots> = path_str ` {p. \<exists>f. temp_file tq dirs (fs_tree s) p f}"
    unfolding facts facts_of_def by force
  finally show "obs_paths found = path_str ` {p. \<exists>f. temp_file tq dirs (fs_tree s) p f}" .
qed


section \<open>An example\<close>

definition demo_tmp :: "string \<Rightarrow> fs" where
  "demo_tmp bytes =
     \<lparr>fs_tree = [([''tmp''], Directory),
        ([''tmp'', ''a.php''], Regular \<lparr>f_bytes = bytes, f_mode = 0, f_uid = 0, f_gid = 0\<rparr>)],
      fs_faults = [], fs_uuids = []\<rparr>"

definition demo_temp_setup :: temp_setup where
  "demo_temp_setup = \<lparr>tq_decode = id, tq_sha = demo_sha, tq_max_bytes = 100, tq_extensions = [''.php''],
     tq_pwd = (\<lambda>_. None), tq_mime = (\<lambda>_. None)\<rparr>"

definition demo_shell :: string where
  "demo_shell = ''<?php system($_GET);''"

lemma demo_tmp_sound:
  "sound_disk (demo_tmp bytes)" "list_all (\<lambda>dir. node_of (fs_tree (demo_tmp bytes)) dir = Some Directory) [[''tmp'']]"
  by (simp_all add: sound_disk_def demo_tmp_def tree_wf_def node_of_def normal_def part_ok_def)

lemma demo_tmp_file: "temp_file demo_temp_setup [[''tmp'']] (fs_tree (demo_tmp bytes)) p f \<longleftrightarrow>
  p = [''tmp'', ''a.php''] \<and> f = \<lparr>f_bytes = bytes, f_mode = 0, f_uid = 0, f_gid = 0\<rparr>"
proof -
  have "str_lower (path_suffix ''a.php'') \<in> str_lower ` set [''.php'']" by code_simp
  then show ?thesis by (auto simp: temp_file_def demo_tmp_def demo_temp_setup_def node_of_def split: if_splits)
qed

lemma demo_shell_malicious:
  "fst (classify_matches (matches_at demo_temp_setup (demo_tmp demo_shell) [''tmp'', ''a.php''])) = MALICIOUS"
  by code_simp


end
