(* ===== verification/Archive_Scan.thy ===== *)
theory Archive_Scan
  imports Temp_Scanner Quarantine_Roundtrip "HOL-Library.List_Lexorder" "HOL-Library.Char_ord"
begin

text \<open>
  \<open>ScanArchiveUseCase\<close> and \<open>QuarantineArchiveFindingsUseCase\<close> (\<open>application/heuristics/use_cases.py\<close>): the
  offline tools for a WordPress backup. The scanner is that of \<open>Malware_Rules\<close>, the remediator that of
  \<open>File_Quarantine\<close> with the archive as home directory; neither touches the database. The clock of a quarantine
  may depend on the path. The lemmas show which files are attempted and what is recorded for them.
\<close>

section \<open>Scanning\<close>

record archive_scan_result =
  as_root :: string
  as_affected_files :: nat
  as_findings :: "heuristic_match list"

definition match_path :: "heuristic_match \<Rightarrow> string" where
  "match_path m = rel_value (hm_relative_path m)"

text \<open>\<open>sort(key=..., reverse=True)\<close> keeps the order of equal elements.\<close>

definition by_severity :: "heuristic_match list \<Rightarrow> heuristic_match list" where
  "by_severity ms = sort_key (\<lambda>m. - int (severity_rank (hm_severity m))) ms"

definition scan_archive ::
    "(string \<Rightarrow> string) \<Rightarrow> nat \<Rightarrow> path \<Rightarrow> fs \<Rightarrow> archive_scan_result res \<times> fs" where
  "scan_archive decode max_bytes base s =
     (case scan_directory decode max_bytes base s of
        (Inl e, s) \<Rightarrow> (Inl e, s)
      | (Inr found, s) \<Rightarrow>
          (let findings = by_severity found
           in (Inr \<lparr>as_root = path_str base, as_affected_files = card (match_path ` set findings),
                 as_findings = findings\<rparr>, s)))"

section \<open>Quarantining\<close>

record quarantine_attempt =
  qa_relative_path :: string
  qa_succeeded :: bool
  qa_detail :: string

text \<open>\<open>dict.setdefault\<close>.\<close>

definition dict_default :: "'k \<Rightarrow> 'v \<Rightarrow> ('k \<times> 'v) list \<Rightarrow> ('k \<times> 'v) list" where
  "dict_default k v dic = (if map_of dic k = None then dic @ [(k, v)] else dic)"

definition matches_by_path :: "severity \<Rightarrow> heuristic_match list \<Rightarrow> (string \<times> heuristic_match) list" where
  "matches_by_path min_severity findings =
     foldl (\<lambda>dic m. if severity_rank min_severity \<le> severity_rank (hm_severity m)
        then dict_default (match_path m) m dic else dic) [] findings"

fun quarantine_matches ::
    "platform \<Rightarrow> path \<Rightarrow> path \<Rightarrow> (string \<Rightarrow> datetime) \<Rightarrow> (string \<times> heuristic_match) list \<Rightarrow> string list \<Rightarrow> fs \<Rightarrow>
     quarantine_attempt list res \<times> fs" where
  "quarantine_matches pf base quarantine_root clock dic [] s = (Inr [], s)"
| "quarantine_matches pf base quarantine_root clock dic (p # ps) s =
     (let m = the (map_of dic p) in
      case relative_file_path p of
        Inl e \<Rightarrow> (Inl e, s)
      | Inr rel \<Rightarrow>
          (let (r, s) = local_quarantine pf base quarantine_root rel (hm_rule_id m @ '': '' @ hm_description m)
                          (hm_severity m) (clock p) s;
               attempt = (case r of
                   Inr q \<Rightarrow> Inr \<lparr>qa_relative_path = p, qa_succeeded = True, qa_detail = qf_quarantine_path q\<rparr>
                 | Inl (FileRemediationError msg) \<Rightarrow>
                     Inr \<lparr>qa_relative_path = p, qa_succeeded = False, qa_detail = msg\<rparr>
                 | Inl e \<Rightarrow> Inl e)
           in case attempt of
                Inl e \<Rightarrow> (Inl e, s)
              | Inr a \<Rightarrow>
                  (case quarantine_matches pf base quarantine_root clock dic ps s of
                     (Inl e, s) \<Rightarrow> (Inl e, s)
                   | (Inr others, s) \<Rightarrow> (Inr (a # others), s))))"

definition quarantine_archive_findings ::
    "platform \<Rightarrow> path \<Rightarrow> path \<Rightarrow> (string \<Rightarrow> datetime) \<Rightarrow> severity \<Rightarrow> heuristic_match list \<Rightarrow> fs \<Rightarrow>
     quarantine_attempt list res \<times> fs" where
  "quarantine_archive_findings pf base quarantine_root clock min_severity findings s =
     (let dic = matches_by_path min_severity findings
      in quarantine_matches pf base quarantine_root clock dic (sort (map fst dic)) s)"

section \<open>What is attempted\<close>

lemma dict_default_get:
  "map_of (dict_default a v dic) k = (case map_of dic k of Some x \<Rightarrow> Some x | None \<Rightarrow> if a = k then Some v else None)"
  by (cases "map_of dic a"; cases "map_of dic k"; cases "a = k") (simp_all add: dict_default_def map_add_def)

lemma dict_default_distinct:
  "distinct (map fst dic) \<Longrightarrow> distinct (map fst (dict_default a v dic))"
  by (auto simp: dict_default_def map_of_eq_None_iff)

lemma dict_default_fold:
  "map_of (foldl (\<lambda>dic m. if P m then dict_default (f m) m dic else dic) dic ms) k =
     (case map_of dic k of Some v \<Rightarrow> Some v | None \<Rightarrow> find (\<lambda>m. P m \<and> f m = k) ms)"
  "distinct (map fst dic) \<Longrightarrow> distinct (map fst (foldl (\<lambda>dic m. if P m then dict_default (f m) m dic else dic) dic ms))"
  by (induction ms arbitrary: dic) (auto simp: dict_default_get dict_default_distinct split: option.split)

lemma matches_by_path_get:
  "map_of (matches_by_path sev ms) k = find (\<lambda>m. severity_rank sev \<le> severity_rank (hm_severity m) \<and> match_path m = k) ms"
  unfolding matches_by_path_def by (subst dict_default_fold(1)) simp

lemma matches_by_path_distinct: "distinct (map fst (matches_by_path sev ms))"
  unfolding matches_by_path_def by (rule dict_default_fold(2)) simp

lemma matches_by_path_keys:
  "set (map fst (matches_by_path sev ms)) = match_path ` {m \<in> set ms. severity_rank sev \<le> severity_rank (hm_severity m)}"
proof -
  have "k \<in> set (map fst (matches_by_path sev ms)) \<longleftrightarrow> map_of (matches_by_path sev ms) k \<noteq> None" for k
    by (simp add: map_of_eq_None_iff)
  then show ?thesis unfolding matches_by_path_get by (auto simp: find_None_iff simp del: set_map)
qed

text \<open>In a list sorted by severity the first hit of a path is its worst one.\<close>

lemma first_is_worst:
  assumes "find (\<lambda>m. P m \<and> f m = k) (by_severity ms) = Some m"
    and "n \<in> set ms" "P n" "f n = k"
  shows "severity_rank (hm_severity n) \<le> severity_rank (hm_severity m)"
proof -
  let ?xs = "by_severity ms"
  have sorted: "sorted (map (\<lambda>m. - int (severity_rank (hm_severity m))) ?xs)" by (simp add: by_severity_def)
  have "n \<in> set ?xs" using assms(2) by (simp add: by_severity_def)
  then obtain j where j: "j < length ?xs" "?xs ! j = n" by (auto simp: in_set_conv_nth)
  obtain i where i: "i < length ?xs" "?xs ! i = m" "\<forall>k' < i. \<not> (P (?xs ! k') \<and> f (?xs ! k') = k)"
    using assms(1) by (auto simp: find_Some_iff)
  have "i \<le> j" using i(3) [rule_format, of j] j assms(3,4) by (cases "i \<le> j") auto
  then have "map (\<lambda>m. - int (severity_rank (hm_severity m))) ?xs ! i \<le> map (\<lambda>m. - int (severity_rank (hm_severity m))) ?xs ! j"
    using sorted j(1) by (intro sorted_nth_mono) simp_all
  then show ?thesis using i j by simp
qed

lemma quarantine_matches_paths:
  "quarantine_matches pf base quarantine_root clock dic ps s = (Inr attempts, s') \<Longrightarrow> map qa_relative_path attempts = ps"
proof (induction ps arbitrary: s attempts)
  case (Cons p ps)
  then show ?case by (auto simp: Let_def split: prod.splits sum.splits exn.splits)
qed simp

lemma attempts_of_findings:
  assumes "quarantine_archive_findings pf base quarantine_root clock min_severity findings s = (Inr attempts, s')"
  shows "set (map qa_relative_path attempts) =
      match_path ` {m \<in> set findings. severity_rank min_severity \<le> severity_rank (hm_severity m)}"
    "sorted (map qa_relative_path attempts)" "distinct (map qa_relative_path attempts)"
proof -
  have paths: "map qa_relative_path attempts = sort (map fst (matches_by_path min_severity findings))"
    using assms quarantine_matches_paths unfolding quarantine_archive_findings_def Let_def by blast
  then show "set (map qa_relative_path attempts) =
      match_path ` {m \<in> set findings. severity_rank min_severity \<le> severity_rank (hm_severity m)}"
    using matches_by_path_keys [of min_severity findings] by simp
  show "sorted (map qa_relative_path attempts)" "distinct (map qa_relative_path attempts)"
    using paths matches_by_path_distinct [of min_severity findings] by simp_all
qed

lemma recorded_match:
  assumes "m \<in> set found" "severity_rank min_severity \<le> severity_rank (hm_severity m)"
  shows "\<exists>w. map_of (matches_by_path min_severity (by_severity found)) (match_path m) = Some w \<and> w \<in> set found \<and>
    match_path w = match_path m \<and> severity_rank (hm_severity m) \<le> severity_rank (hm_severity w)"
proof -
  let ?P = "\<lambda>x. severity_rank min_severity \<le> severity_rank (hm_severity x)"
  have same: "set (by_severity found) = set found" by (simp add: by_severity_def)
  obtain w where f: "find (\<lambda>x. ?P x \<and> match_path x = match_path m) (by_severity found) = Some w"
    using assms same by (cases "find (\<lambda>x. ?P x \<and> match_path x = match_path m) (by_severity found)")
      (auto simp: find_None_iff)
  then have "w \<in> set (by_severity found)" "match_path w = match_path m" by (auto simp: find_Some_iff)
  then show ?thesis
    using first_is_worst [OF f assms refl] same by (simp add: matches_by_path_get f)
qed

lemma scan_archive_findings:
  assumes "scan_archive decode max_bytes base s = (Inr r, s')"
  shows "\<exists>found. as_findings r = by_severity found" "as_affected_files r = card (match_path ` set (as_findings r))"
  using assms by (auto simp: scan_archive_def Let_def by_severity_def split: prod.splits sum.splits)

text \<open>Scanning an archive and quarantining what was found: whatever fails on the way, a run that returns has made
  one attempt for each file with a finding of at least the given severity, in the order of their paths, and none
  for any other, so no more attempts than the scan counted affected files; and what is recorded for such a file is
  one of its worst findings.\<close>

theorem archive_attempts:
  assumes "scan_archive decode max_bytes base s = (Inr scan, s1)"
    "quarantine_archive_findings pf base quarantine_root clock min_severity (as_findings scan) s1 = (Inr attempts, s')"
  shows "set (map qa_relative_path attempts) =
      match_path ` {m \<in> set (as_findings scan). severity_rank min_severity \<le> severity_rank (hm_severity m)} \<and>
    sorted (map qa_relative_path attempts) \<and> distinct (map qa_relative_path attempts) \<and>
    length attempts \<le> as_affected_files scan \<and>
    (\<forall>m \<in> set (as_findings scan). severity_rank min_severity \<le> severity_rank (hm_severity m) \<longrightarrow>
      (\<exists>w. map_of (matches_by_path min_severity (as_findings scan)) (match_path m) = Some w \<and>
        w \<in> set (as_findings scan) \<and> match_path w = match_path m \<and>
        severity_rank (hm_severity m) \<le> severity_rank (hm_severity w)))"
proof -
  obtain found where found: "as_findings scan = by_severity found"
    using scan_archive_findings(1) [OF assms(1)] by blast
  have same: "set (as_findings scan) = set found" by (simp add: found by_severity_def)
  note att = attempts_of_findings [OF assms(2)]
  have "length attempts = card (set (map qa_relative_path attempts))"
    using distinct_card [OF att(3)] by simp
  also have "\<dots> \<le> as_affected_files scan"
    unfolding att(1) scan_archive_findings(2) [OF assms(1)] by (intro card_mono) auto
  finally show ?thesis
    using att recorded_match [of _ found min_severity] same unfolding found by simp
qed

definition demo_archive :: fs where
  "demo_archive = \<lparr>fs_tree = [([''a''], Directory), ([''q''], Directory),
     ([''a'', ''x.php''], Regular \<lparr>f_bytes = ''<?php system($_GET);'', f_mode = 420, f_uid = 7, f_gid = 7\<rparr>)],
     fs_faults = [], fs_uuids = []\<rparr>"

definition demo_scanned :: "archive_scan_result res \<times> fs" where
  "demo_scanned = scan_archive id 100 [''a''] demo_archive"

definition demo_attempted :: "quarantine_attempt list res \<times> fs" where
  "demo_attempted = (case demo_scanned of (Inl e, s) \<Rightarrow> (Inl e, s)
     | (Inr r, s) \<Rightarrow> quarantine_archive_findings demo_platform [''a''] [''q''] (\<lambda>_. 5) HIGH (as_findings r) s)"

lemma demo_archive_runs:
  "(case fst demo_scanned of Inl e \<Rightarrow> [] | Inr r \<Rightarrow> map hm_severity (as_findings r)) = [CRITICAL]"
  "(case fst demo_scanned of Inl e \<Rightarrow> [] | Inr r \<Rightarrow> map match_path (as_findings r)) = [''x.php'']"
  "(case fst demo_attempted of Inl e \<Rightarrow> [] | Inr as \<Rightarrow> map qa_succeeded as) = [True]"
  by code_simp+

theorem archive_attempts_witness:
  "\<exists>attempts s'. demo_attempted = (Inr attempts, s') \<and> set (map qa_relative_path attempts) = {''x.php''}"
proof -
  obtain scan s1 where scan: "demo_scanned = (Inr scan, s1)"
    using demo_archive_runs(1)
    by (cases "fst demo_scanned") (simp, metis prod.collapse)
  obtain attempts s' where att: "demo_attempted = (Inr attempts, s')"
    using demo_archive_runs(3)
    by (cases "fst demo_attempted") (simp, metis prod.collapse)
  obtain m where m: "as_findings scan = [m]" "hm_severity m = CRITICAL" "match_path m = ''x.php''"
    using demo_archive_runs(1,2) by (auto simp: scan)
  have "quarantine_archive_findings demo_platform [''a''] [''q''] (\<lambda>_. 5) HIGH (as_findings scan) s1 = (Inr attempts, s')"
    using att by (simp add: demo_attempted_def scan)
  note all = archive_attempts [OF scan [unfolded demo_scanned_def] this]
  have "{m \<in> set (as_findings scan). severity_rank HIGH \<le> severity_rank (hm_severity m)} = {m}"
    using m by auto
  then show ?thesis using att all m(3) by (intro exI [of _ attempts] exI [of _ s']) simp
qed

end
