(* ===== verification/Installation_Detector.thy ===== *)
theory Installation_Detector
  imports Temp_Scanner
begin

text \<open>
  \<open>FilesystemWordPressDetector\<close> (\<open>infrastructure/wordpress/installation_detector.py\<close>): the reader
  behind the discovery of installations. It walks the home directory of an account for
  \<open>wp-includes/version.php\<close>, to a bounded depth.
\<close>

section \<open>Patterns\<close>

abbreviation Quote :: rx where
  "Quote \<equiv> one_of [CHR 0x27, CHR 0x22]"

definition version_pattern :: rx where
  "version_pattern =
     Seqs [Lit ''$wp_version'', Spaces, Lit ''='', Spaces, Quote,
       Group 1 (Plus (Chars (\<lambda>c. c \<noteq> CHR 0x27 \<and> c \<noteq> CHR 0x22))), Quote]"

definition multisite_pattern :: rx where
  "multisite_pattern =
     Seqs [NoCase ''define'', Spaces, Lit ''('', Spaces, Quote, NoCase ''MULTISITE'', Quote, Spaces, Lit '','', Spaces,
       NoCase ''true'', Spaces, Lit '')'']"

definition php_handler_pattern :: rx where
  "php_handler_pattern =
     Seqs [Lit ''x-httpd-ea-php'', Group 1 (Chars ascii_digit), Group 2 (Plus (Chars ascii_digit))]"

definition default_excluded_directory_markers :: "string list" where
  "default_excluded_directory_markers =
     [''virtfs'', ''.trash'', ''backup'', ''backups'', ''_bak'', ''.bak'', ''-old'', ''_old'', ''old_site'', ''staging'']"

definition default_max_depth :: nat where
  "default_max_depth = 4"

section \<open>The walk\<close>

definition dir_excluded :: "string list \<Rightarrow> string \<Rightarrow> bool" where
  "dir_excluded markers name = list_ex (\<lambda>m. sublist (str_lower m) (str_lower name)) markers"

definition version_file :: "path \<Rightarrow> path" where
  "version_file d = d @ [''wp-includes'', ''version.php'']"

text \<open>The first argument is the number of levels left, \<open>max_depth + 1 - depth\<close>.\<close>

primrec find_version_files :: "nat \<Rightarrow> string list \<Rightarrow> path \<Rightarrow> fs \<Rightarrow> path list res \<times> fs" where
  "find_version_files 0 markers d s = (Inr [], s)"
| "find_version_files (Suc n) markers d s =
     (if is_file (fs_tree s) (version_file d) then (Inr [version_file d], s)
      else case sys (os_listdir d) s of
             (Inl _, s) \<Rightarrow> (Inr [], s)
           | (Inr entries, s) \<Rightarrow>
               collect (\<lambda>p s. if \<not> is_dir (fs_tree s) p \<or> is_symlink (fs_tree s) p \<or> dir_excluded markers (last p)
                   then (Inr [], s) else find_version_files n markers p s)
                 (map (\<lambda>c. d @ [c]) entries) s)"

section \<open>One installation\<close>

definition read_version :: "(string \<Rightarrow> string) \<Rightarrow> path \<Rightarrow> fs \<Rightarrow> string option \<times> fs" where
  "read_version decode p s =
     (case sys (os_read p) s of
        (Inl _, s) \<Rightarrow> (None, s)
      | (Inr f, s) \<Rightarrow> (map_option (rx_group 1) (rx_search version_pattern (decode (f_bytes f))), s))"

definition detect_multisite :: "(string \<Rightarrow> string) \<Rightarrow> path \<Rightarrow> fs \<Rightarrow> bool \<times> fs" where
  "detect_multisite decode base s =
     (case sys (os_read (base @ [''wp-config.php''])) s of
        (Inl _, s) \<Rightarrow> (False, s)
      | (Inr f, s) \<Rightarrow> (rx_matches multisite_pattern (decode (f_bytes f)), s))"

definition detect_php_version :: "(string \<Rightarrow> string) \<Rightarrow> path \<Rightarrow> fs \<Rightarrow> string option \<times> fs" where
  "detect_php_version decode base s =
     (case sys (os_read (base @ [''.htaccess''])) s of
        (Inl _, s) \<Rightarrow> (None, s)
      | (Inr f, s) \<Rightarrow>
          (map_option (\<lambda>m. rx_group 1 m @ ''.'' @ rx_group 2 m) (rx_search php_handler_pattern (decode (f_bytes f))), s))"

definition detect_one ::
    "(string \<Rightarrow> string) \<Rightarrow> cpanel_account \<Rightarrow> path \<Rightarrow> path \<Rightarrow> fs \<Rightarrow> discovered_installation list res \<times> fs" where
  "detect_one decode account home p s =
     (let base = butlast (butlast p);
          (version, s) = read_version decode p s;
          (multisite, s) = detect_multisite decode base s;
          (php, s) = detect_php_version decode base s;
          domain = (if base = home @ [''public_html''] then Some (ac_primary_domain account) else None)
      in case absolute_file_path (path_str base) of
           Inl e \<Rightarrow> (Inl e, s)
         | Inr absolute \<Rightarrow>
             (Inr [\<lparr>di_absolute_path = absolute, di_domain = domain, di_wp_version = version,
                di_is_multisite = multisite, di_php_version = php\<rparr>], s))"

definition detect_installations ::
    "(string \<Rightarrow> string) \<Rightarrow> nat \<Rightarrow> string list \<Rightarrow> cpanel_account \<Rightarrow> fs \<Rightarrow> discovered_installation list res \<times> fs" where
  "detect_installations decode max_depth markers account s =
     (let home = path_parts (abs_value (ac_home_directory account)) in
      if \<not> is_dir (fs_tree s) home then (Inr [], s)
      else case find_version_files (Suc max_depth) markers home s of
             (Inl e, s) \<Rightarrow> (Inl e, s)
           | (Inr found, s) \<Rightarrow> collect (detect_one decode account home) found s)"

section \<open>What is detected on a sound disk\<close>

definition installed :: "tree \<Rightarrow> path \<Rightarrow> bool" where
  "installed t d \<longleftrightarrow> is_file t (version_file d)"

text \<open>The directories the walk comes to, by their path below the start: no link on the way, no excluded name, no
  installation above.\<close>

definition outermost :: "string list \<Rightarrow> tree \<Rightarrow> path \<Rightarrow> string list \<Rightarrow> bool" where
  "outermost markers t d e \<longleftrightarrow> node_of t (d @ e) = Some Directory \<and> installed t (d @ e) \<and>
     (\<forall>k < length e. \<not> installed t (d @ take k e)) \<and> list_all (\<lambda>c. \<not> dir_excluded markers c) e"

lemma outermost_Cons:
  "\<not> installed t d \<Longrightarrow> outermost markers t d (c # e) \<longleftrightarrow> \<not> dir_excluded markers c \<and> outermost markers t (d @ [c]) e"
  unfolding outermost_def by (auto simp: less_Suc_eq_0_disj)

lemma distinct_concat_map:
  assumes "\<And>x. x \<in> set cs \<Longrightarrow> distinct (h x)"
    and "\<And>x y. x \<in> set cs \<Longrightarrow> y \<in> set cs \<Longrightarrow> x \<noteq> y \<Longrightarrow> set (h x) \<inter> set (h y) = {}"
  shows "distinct cs \<Longrightarrow> distinct (concat (map h cs))"
  using assms
proof (induction cs)
  case (Cons c cs)
  have "set (h c) \<inter> set (h y) = {}" if "y \<in> set cs" for y
    using Cons.prems(1,3) that by (metis distinct.simps(2) list.set_intros(1,2))
  moreover have "distinct (concat (map h cs))"
    using Cons.IH Cons.prems by (meson distinct.simps(2) list.set_intros(2))
  ultimately show ?case using Cons.prems(2) by auto
qed simp

lemma find_version_files_exact:
  assumes "sound_disk s"
  shows "node_of (fs_tree s) d = Some Directory \<Longrightarrow>
    \<exists>ps. find_version_files n markers d s = (Inr ps, s) \<and> distinct ps \<and>
      set ps = {version_file (d @ e) |e. length e < n \<and> outermost markers (fs_tree s) d e}"
proof (induction n arbitrary: d)
  case (Suc n)
  let ?t = "fs_tree s"
  show ?case
  proof (cases "installed ?t d")
    case True
    then have "outermost markers ?t d e \<longleftrightarrow> e = []" for e
      using Suc.prems by (auto simp: outermost_def)
    then show ?thesis using True by (auto simp: installed_def)
  next
    case False
    obtain cs where c: "sys (os_listdir d) s = (Inr cs, s)" "distinct cs"
      "set (map (\<lambda>c. d @ [c]) cs) = {p. butlast p = d \<and> p \<noteq> [] \<and> node_of ?t p \<noteq> None}"
      using listed_sound [OF assms Suc.prems] by blast
    let ?g = "\<lambda>p s. if \<not> is_dir (fs_tree s) p \<or> is_symlink (fs_tree s) p \<or> dir_excluded markers (last p)
      then (Inr [], s) else find_version_files n markers p s"
    let ?under = "\<lambda>c. {version_file (d @ e) |e. \<exists>e'. e = c # e' \<and> length e' < n \<and> outermost markers ?t d e}"
    have "\<exists>ps. ?g (d @ [c]) s = (Inr ps, s) \<and> distinct ps \<and> set ps = ?under c" if "c \<in> set cs" for c
    proof -
      have "d @ [c] \<in> set (map (\<lambda>c. d @ [c]) cs)" using that by simp
      then obtain x where x: "node_of ?t (d @ [c]) = Some x" unfolding c(3) by blast
      have dirs: "\<not> is_symlink ?t (d @ [c]) \<and> is_dir ?t (d @ [c]) \<longleftrightarrow> x = Directory"
        using entry_tests(3) [OF assms x] by simp
      have step: "outermost markers ?t d (c # e) \<longleftrightarrow> \<not> dir_excluded markers c \<and> outermost markers ?t (d @ [c]) e" for e
        using outermost_Cons [OF False] .
      show ?thesis
      proof (cases "x = Directory \<and> \<not> dir_excluded markers c")
        case True
        then obtain ps where "find_version_files n markers (d @ [c]) s = (Inr ps, s)" "distinct ps"
          "set ps = {version_file ((d @ [c]) @ e) |e. length e < n \<and> outermost markers ?t (d @ [c]) e}"
          using Suc.IH [of "d @ [c]"] x by blast
        moreover have "{version_file ((d @ [c]) @ e) |e. length e < n \<and> outermost markers ?t (d @ [c]) e} = ?under c"
          using step True by auto
        ultimately show ?thesis using dirs True by simp
      next
        case no: False
        have "?under c = {}"
        proof -
          have False if "outermost markers ?t d (c # e)" for e
          proof -
            have o: "\<not> dir_excluded markers c" "node_of ?t ((d @ [c]) @ e) = Some Directory"
              using that step by (auto simp: outermost_def)
            then have "node_of ?t (d @ [c]) = Some Directory"
              using wf_prefix [of ?t "d @ [c]" e] assms by (cases "e = []") (auto simp: sound_disk_def)
            then show False using no o(1) x by simp
          qed
          then show ?thesis by auto
        qed
        then show ?thesis using dirs no by auto
      qed
    qed
    then have "\<forall>c \<in> set cs. \<exists>ps. ?g (d @ [c]) s = (Inr ps, s) \<and> distinct ps \<and> set ps = ?under c" by blast
    then obtain h where h: "\<forall>c \<in> set cs. ?g (d @ [c]) s = (Inr (h c), s) \<and> distinct (h c) \<and> set (h c) = ?under c"
      by (rule bchoice [THEN exE])
    have each: "?g p s = (Inr ((h \<circ> last) p), s)" if "p \<in> set (map (\<lambda>c. d @ [c]) cs)" for p
    proof -
      obtain c where c: "c \<in> set cs" "p = d @ [c]" using \<open>p \<in> _\<close> by auto
      have "?g (d @ [c]) s = (Inr (h c), s)" using h c(1) by blast
      then show ?thesis by (simp only: c(2) comp_apply last_snoc)
    qed
    have "collect ?g (map (\<lambda>c. d @ [c]) cs) s = (Inr (concat (map (h \<circ> last) (map (\<lambda>c. d @ [c]) cs))), s)"
      by (rule collect_pure [of _ ?g s "h \<circ> last"], rule each)
    then have "find_version_files (Suc n) markers d s = (Inr (concat (map (h \<circ> last) (map (\<lambda>c. d @ [c]) cs))), s)"
      using False c(1) by (simp add: installed_def)
    then have run: "find_version_files (Suc n) markers d s = (Inr (concat (map h cs)), s)"
      by (simp add: comp_def)
    have "distinct (concat (map h cs))"
    proof (rule distinct_concat_map [OF _ _ c(2)])
      show "distinct (h x)" if "x \<in> set cs" for x using h that by blast
      show "set (h x) \<inter> set (h y) = {}" if "x \<in> set cs" "y \<in> set cs" "x \<noteq> y" for x y
        using h that by (auto simp: version_file_def)
    qed
    moreover have "set (concat (map h cs)) = {version_file (d @ e) |e. length e < Suc n \<and> outermost markers ?t d e}"
    proof -
      have "set (concat (map h cs)) = (\<Union>c \<in> set cs. ?under c)" using h by simp
      also have "\<dots> = {version_file (d @ e) |e. length e < Suc n \<and> outermost markers ?t d e}"
      proof -
        have "\<exists>c \<in> set cs. \<exists>e'. e = c # e'" if o: "outermost markers ?t d e" for e
        proof (cases e)
          case Nil
          then show ?thesis using o False by (simp add: outermost_def)
        next
          case (Cons c e')
          have "node_of ?t ((d @ [c]) @ e') \<noteq> None" using o Cons by (simp add: outermost_def)
          then have "node_of ?t (d @ [c]) \<noteq> None"
            using wf_missing [of ?t "d @ [c]" e'] assms by (cases "e' = []"; cases "node_of ?t (d @ [c]) = Some Directory") (auto simp: sound_disk_def)
          then have "d @ [c] \<in> set (map (\<lambda>c. d @ [c]) cs)" unfolding c(3) by simp
          then show ?thesis using Cons by auto
        qed
        then show ?thesis by fastforce
      qed
      finally show ?thesis .
    qed
    ultimately show ?thesis using run by blast
  qed
qed simp

lemma detected_one:
  assumes "sound_disk s" "node_of (fs_tree s) d = Some Directory" "d \<noteq> []"
  shows "\<exists>x. detect_one decode account home (version_file d) s = (Inr [x], s) \<and>
    abs_value (di_absolute_path x) = path_str d \<and> valid_abs (di_absolute_path x) \<and>
    (di_domain x = Some (ac_primary_domain account) \<or> di_domain x = None)"
proof -
  have quiet: "fs_faults s = []" and wf: "tree_wf (fs_tree s)" using assms(1) by (simp_all add: sound_disk_def)
  have "list_all part_ok d" "''..'' \<notin> set d"
    using wf_entry [OF wf assms(2)] by (auto simp: normal_def list_all_iff)
  then have abs: "absolute_file_path (path_str d) = Inr (AbsoluteFilePath (path_str d))"
    using path_str_absolute assms(3) by blast
  have base: "butlast (butlast (version_file d)) = d" by (simp add: version_file_def butlast_append)
  have "\<exists>v. read_version decode p s = (v, s)" "\<exists>m. detect_multisite decode d s = (m, s)"
    "\<exists>v. detect_php_version decode d s = (v, s)" for p
    using quiet_reads [OF quiet]
    by (auto simp: read_version_def detect_multisite_def detect_php_version_def simp del: sys_reliable
        split: prod.splits sum.splits)
  then obtain v m h where "read_version decode (version_file d) s = (v, s)" "detect_multisite decode d s = (m, s)"
    "detect_php_version decode d s = (h, s)" by metis
  moreover have "valid_abs (AbsoluteFilePath (path_str d))" using abs by (auto simp: valid_abs_def)
  ultimately show ?thesis by (simp add: detect_one_def base abs Let_def)
qed

text \<open>C38. What is detected in the home directory of an account on a sound disk: each directory that holds
  \<open>wp-includes/version.php\<close>, at most \<open>max_depth\<close> levels below the home directory, reached without links
  and without an excluded name, and with no other installation above it, exactly once and under its absolute path.
  A second installation inside the tree of a first is never reported.\<close>

theorem installations_detected:
  assumes "sound_disk s" "node_of (fs_tree s) home = Some Directory" "home \<noteq> []"
    and "path_parts (abs_value (ac_home_directory account)) = home"
  shows "\<exists>found. detect_installations decode max_depth markers account s = (Inr found, s) \<and>
    distinct (map (abs_value \<circ> di_absolute_path) found) \<and>
    (abs_value \<circ> di_absolute_path) ` set found =
      {path_str (home @ e) |e. length e \<le> max_depth \<and> outermost markers (fs_tree s) home e}"
proof -
  have dir: "is_dir (fs_tree s) home" using entry_tests(3) [OF assms(1-3)] by blast
  obtain ps where ps: "find_version_files (Suc max_depth) markers home s = (Inr ps, s)" "distinct ps"
    "set ps = {version_file (home @ e) |e. length e < Suc max_depth \<and> outermost markers (fs_tree s) home e}"
    using find_version_files_exact [OF assms(1,2), of "Suc max_depth" markers] by blast
  have "\<forall>p \<in> set ps. \<exists>x. detect_one decode account home p s = (Inr [x], s) \<and>
      abs_value (di_absolute_path x) = path_str (butlast (butlast p))"
  proof
    fix p assume "p \<in> set ps"
    then obtain e where e: "p = version_file (home @ e)" "node_of (fs_tree s) (home @ e) = Some Directory"
      unfolding ps(3) outermost_def by blast
    show "\<exists>x. detect_one decode account home p s = (Inr [x], s) \<and>
        abs_value (di_absolute_path x) = path_str (butlast (butlast p))"
      using detected_one [OF assms(1) e(2), of decode account home] assms(3) e(1)
      by (auto simp: version_file_def butlast_append)
  qed
  then obtain h where h: "\<forall>p \<in> set ps. detect_one decode account home p s = (Inr [h p], s) \<and>
      abs_value (di_absolute_path (h p)) = path_str (butlast (butlast p))"
    by (rule bchoice [THEN exE])
  have "collect (detect_one decode account home) ps s = (Inr (concat (map (\<lambda>p. [h p]) ps)), s)"
    using h by (intro collect_pure) blast
  then have run: "detect_installations decode max_depth markers account s = (Inr (map h ps), s)"
    using dir ps(1) by (simp add: detect_installations_def assms(4))
  let ?path = "\<lambda>p. path_str (butlast (butlast p))"
  have paths: "map (abs_value \<circ> di_absolute_path) (map h ps) = map ?path ps" using h by simp
  have inj: "inj_on ?path (set ps)"
  proof (rule inj_onI)
    fix p q assume pq: "p \<in> set ps" "q \<in> set ps" "?path p = ?path q"
    have "\<exists>d. p = version_file d \<and> list_all part_ok d" if "p \<in> set ps" for p
      using that wf_entry(2) assms(1) unfolding ps(3) outermost_def sound_disk_def by blast
    then obtain a b where "p = version_file a" "list_all part_ok a" "q = version_file b" "list_all part_ok b"
      using pq by metis
    moreover from this have "path_str a = path_str b" using pq(3) by (simp add: version_file_def butlast_append)
    ultimately show "p = q" using path_parts_str by metis
  qed
  have "distinct (map (abs_value \<circ> di_absolute_path) (map h ps))"
    unfolding paths using ps(2) inj by (simp add: distinct_map)
  moreover have "(abs_value \<circ> di_absolute_path) ` set (map h ps) = ?path ` set ps"
    using paths by (metis list.set_map)
  moreover have "?path ` set ps = {path_str (home @ e) |e. length e \<le> max_depth \<and> outermost markers (fs_tree s) home e}"
    unfolding ps(3) by (force simp: version_file_def butlast_append less_Suc_eq_le)
  ultimately show ?thesis using run by (intro exI [of _ "map h ps"]) (simp only:)
qed

section \<open>An example\<close>

definition demo_hosting :: fs where
  "demo_hosting =
     (let f = Regular \<lparr>f_bytes = ''$wp_version = '' @ [CHR 0x27] @ ''6.5'' @ [CHR 0x27], f_mode = 0, f_uid = 0, f_gid = 0\<rparr>;
          site = [''home'', ''bob'', ''public_html'']
      in \<lparr>fs_tree = [([''home''], Directory), ([''home'', ''bob''], Directory), (site, Directory),
            (site @ [''wp-includes''], Directory), (site @ [''wp-includes'', ''version.php''], f),
            (site @ [''blog''], Directory), (site @ [''blog'', ''wp-includes''], Directory),
            (site @ [''blog'', ''wp-includes'', ''version.php''], f)],
          fs_faults = [], fs_uuids = []\<rparr>)"

lemma demo_hosting_ok:
  "sound_disk demo_hosting" "node_of (fs_tree demo_hosting) [''home'', ''bob''] = Some Directory"
  "map_sum id (map (\<lambda>x. (abs_value (di_absolute_path x), di_wp_version x)))
     (fst (detect_installations id default_max_depth default_excluded_directory_markers Scan_Correctness.demo_account
        demo_hosting)) = Inr [(''/home/bob/public_html'', Some ''6.5'')]"
  unfolding sound_disk_def by code_simp+

theorem installations_detected_witness:
  "\<exists>found. detect_installations id default_max_depth default_excluded_directory_markers Scan_Correctness.demo_account
       demo_hosting = (Inr found, demo_hosting) \<and>
     distinct (map (abs_value \<circ> di_absolute_path) found) \<and>
     map (\<lambda>x. (abs_value (di_absolute_path x), di_wp_version x)) found = [(''/home/bob/public_html'', Some ''6.5'')]"
proof -
  obtain found where
    "detect_installations id default_max_depth default_excluded_directory_markers Scan_Correctness.demo_account
       demo_hosting = (Inr found, demo_hosting)" "distinct (map (abs_value \<circ> di_absolute_path) found)"
    using installations_detected [OF demo_hosting_ok(1,2) _ demo_home(1), of id default_max_depth
        default_excluded_directory_markers] by blast
  then show ?thesis using demo_hosting_ok(3) by simp
qed

end
