(* ===== verification/Configuration_Scanner.thy ===== *)
theory Configuration_Scanner
  imports Installation_Detector
begin

text \<open>
  \<open>FilesystemWordPressConfigurationScanner\<close> (\<open>infrastructure/wordpress/configuration_scanner.py\<close>): the
  reader behind the configuration scan, for \<open>wp-config.php\<close> and \<open>.user.ini\<close>. The last section puts it
  together with \<open>RunConfigurationScanUseCase\<close>.
\<close>

section \<open>Patterns and tables\<close>

definition define_re :: rx where
  "define_re =
     Seqs [NoCase ''define'', Spaces, Lit ''('', Spaces, Quote,
       Group 1 (Plus (Chars (\<lambda>c. is_letter c \<or> ascii_digit c \<or> c = CHR ''_''))), Quote, Spaces, Lit '','', Spaces,
       Group 2 (LazyPlus (Chars any_char)), Spaces, Lit '')'']"

definition table_prefix_re :: rx where
  "table_prefix_re =
     Seqs [LineStart, Spaces, Lit ''$table_prefix'', Spaces, Lit ''='', Spaces, Quote,
       Group 1 (LazyPlus (Chars any_char)), Quote, Spaces, Lit '';'']"

definition ini_setting_re :: rx where
  "ini_setting_re =
     Seqs [LineStart, Spaces,
       Group 1 (Seqs [Chars (\<lambda>c. is_letter c \<or> c = CHR ''_''),
         Star (Chars (\<lambda>c. is_letter c \<or> ascii_digit c \<or> c = CHR ''_''))]),
       Spaces, Lit ''='', Spaces, Group 2 (LazyPlus (Chars any_char)), Spaces, LineEnd]"

definition flagged_when_true :: "(string \<times> string) list" where
  "flagged_when_true =
     [(''WP_DEBUG'', ''Debug mode is enabled''), (''WP_DEBUG_LOG'', ''Debug logging is enabled''),
      (''WP_DEBUG_DISPLAY'', ''Debug output is displayed publicly''),
      (''DISABLE_WP_CRON'', ''WP-Cron is disabled (cross-check for a replacement system cron job)'')]"

definition flagged_when_absent_or_false :: "(string \<times> string) list" where
  "flagged_when_absent_or_false =
     [(''DISALLOW_FILE_EDIT'', ''File editor is not disabled (DISALLOW_FILE_EDIT)''),
      (''DISALLOW_FILE_MODS'', ''Plugin and theme updates are not disabled (DISALLOW_FILE_MODS)''),
      (''FORCE_SSL_ADMIN'', ''Admin panel does not enforce HTTPS (FORCE_SSL_ADMIN)'')]"

definition ini_flagged_when_truthy :: "(string \<times> string) list" where
  "ini_flagged_when_truthy =
     [(''display_errors'', ''PHP error display is enabled''),
      (''allow_url_fopen'', ''PHP remote file fetching is enabled''),
      (''allow_url_include'', ''PHP remote code inclusion is enabled'')]"

section \<open>Values\<close>

definition normalize_php_value :: "string \<Rightarrow> string" where
  "normalize_php_value raw =
     (let raw = str_strip raw; lower = str_lower raw in
      if lower = ''true'' \<or> lower = ''false'' \<or> lower = ''null'' then lower
      else if (str_startswith raw [CHR 0x27] \<and> str_endswith raw [CHR 0x27]) \<or>
              (str_startswith raw [CHR 0x22] \<and> str_endswith raw [CHR 0x22]) then drop 1 (butlast raw)
      else raw)"

definition is_php_true :: "string \<Rightarrow> bool" where
  "is_php_true v = (str_lower v = ''true'')"

definition is_ini_truthy :: "string \<Rightarrow> bool" where
  "is_ini_truthy v = (str_lower (str_strip v) \<in> {''on'', ''1'', ''true'', ''yes''})"

section \<open>The two files\<close>

definition config_item :: "string \<Rightarrow> string \<Rightarrow> string option \<Rightarrow> bool \<Rightarrow> string \<Rightarrow> discovered_config_item" where
  "config_item source key value flagged reason =
     \<lparr>dc_config_source = source, dc_key = key, dc_raw_value = value, dc_is_flagged = flagged,
      dc_flag_reason = (if flagged then Some reason else None)\<rparr>"

definition wp_config_source :: string where
  "wp_config_source = ''wp-config.php''"

definition user_ini_source :: string where
  "user_ini_source = ''.user.ini''"

definition wp_defines :: "string \<Rightarrow> (string \<times> string) list" where
  "wp_defines txt =
     foldl (\<lambda>dic m. dict_set (str_upper (rx_group 1 m)) (normalize_php_value (rx_group 2 m)) dic) [] (rx_finditer define_re txt)"

definition parse_wp_config :: "string \<Rightarrow> discovered_config_item list" where
  "parse_wp_config txt =
     (let defines = wp_defines txt;
          debug = concat (map (\<lambda>(key, reason). case map_of defines key of None \<Rightarrow> []
                    | Some v \<Rightarrow> [config_item wp_config_source key (Some v) (is_php_true v) reason]) flagged_when_true);
          hardening = map (\<lambda>(key, reason). case map_of defines key of
                      None \<Rightarrow> config_item wp_config_source key None True reason
                    | Some v \<Rightarrow> config_item wp_config_source key (Some v) (\<not> is_php_true v) reason)
                  flagged_when_absent_or_false;
          table_prefix = (case rx_search table_prefix_re txt of None \<Rightarrow> []
                    | Some m \<Rightarrow> [config_item wp_config_source ''table_prefix'' (Some (rx_group 1 m)) (rx_group 1 m = ''wp_'')
                        ''Default table prefix in use''])
      in debug @ hardening @ table_prefix)"

definition ini_settings :: "string \<Rightarrow> (string \<times> string) list" where
  "ini_settings txt =
     foldl (\<lambda>dic m. dict_set (str_lower (rx_group 1 m)) (str_strip (rx_group 2 m)) dic) [] (rx_finditer ini_setting_re txt)"

definition parse_user_ini :: "string \<Rightarrow> discovered_config_item list" where
  "parse_user_ini txt =
     (let settings = ini_settings txt
      in concat (map (\<lambda>(key, reason). case map_of settings key of None \<Rightarrow> []
           | Some v \<Rightarrow> [config_item user_ini_source key (Some v) (is_ini_truthy v) reason]) ini_flagged_when_truthy))"

text \<open>A file that is missing or cannot be read counts as no items.\<close>

definition read_items ::
    "(string \<Rightarrow> string) \<Rightarrow> (string \<Rightarrow> discovered_config_item list) \<Rightarrow> path \<Rightarrow> fs \<Rightarrow> discovered_config_item list \<times> fs" where
  "read_items decode parse p s =
     (case sys (os_read p) s of (Inl _, s) \<Rightarrow> ([], s) | (Inr f, s) \<Rightarrow> (parse (decode (f_bytes f)), s))"

definition scan_configuration ::
    "(string \<Rightarrow> string) \<Rightarrow> wordpress_installation \<Rightarrow> fs \<Rightarrow> discovered_config_item list \<times> fs" where
  "scan_configuration decode w s =
     (let base = path_parts (abs_value (wi_absolute_path w));
          (wp, s) = read_items decode parse_wp_config (base @ [wp_config_source]) s;
          (ini, s) = read_items decode parse_user_ini (base @ [user_ini_source]) s
      in (wp @ ini, s))"

section \<open>What is reported\<close>

lemmas config_tables = flagged_when_true_def flagged_when_absent_or_false_def ini_flagged_when_truthy_def

lemma config_item_simps [simp]:
  "dc_config_source (config_item a k v b r) = a" "dc_key (config_item a k v b r) = k"
  "dc_raw_value (config_item a k v b r) = v" "dc_is_flagged (config_item a k v b r) = b"
  by (simp_all add: config_item_def)

text \<open>The items of a table of constants: one for each that is defined, and one for each.\<close>

definition optional_item :: "string \<Rightarrow> (string \<Rightarrow> string option) \<Rightarrow> (string \<Rightarrow> bool) \<Rightarrow> string \<times> string \<Rightarrow> discovered_config_item list" where
  "optional_item source get flag x = (case get (fst x) of None \<Rightarrow> []
     | Some v \<Rightarrow> [config_item source (fst x) (Some v) (flag v) (snd x)])"

definition required_item :: "string \<Rightarrow> (string \<Rightarrow> string option) \<Rightarrow> (string \<Rightarrow> bool) \<Rightarrow> string \<times> string \<Rightarrow> discovered_config_item" where
  "required_item source get ok x = (case get (fst x) of None \<Rightarrow> config_item source (fst x) None True (snd x)
     | Some v \<Rightarrow> config_item source (fst x) (Some v) (\<not> ok v) (snd x))"

lemma optional_item_iff:
  "i \<in> set (optional_item source get flag x) \<longleftrightarrow>
     (\<exists>v. get (fst x) = Some v \<and> i = config_item source (fst x) (Some v) (flag v) (snd x))"
  by (cases "get (fst x)") (auto simp: optional_item_def)

lemma optional_items:
  "dc_key ` set (concat (map (optional_item source get flag) table)) \<subseteq> fst ` set table"
  "dc_config_source ` set (concat (map (optional_item source get flag) table)) \<subseteq> {source}"
  "{dc_key i |i. i \<in> set (concat (map (optional_item source get flag) table)) \<and> dc_is_flagged i} =
     {key \<in> fst ` set table. \<exists>v. get key = Some v \<and> flag v}"
proof -
  show "dc_key ` set (concat (map (optional_item source get flag) table)) \<subseteq> fst ` set table"
    "dc_config_source ` set (concat (map (optional_item source get flag) table)) \<subseteq> {source}"
    by (force simp: optional_item_iff)+
  have "i \<in> set (concat (map (optional_item source get flag) table)) \<longleftrightarrow>
      (\<exists>x v. x \<in> set table \<and> get (fst x) = Some v \<and> i = config_item source (fst x) (Some v) (flag v) (snd x))" for i
    by (force simp: optional_item_iff)
  note mem = this
  show "{dc_key i |i. i \<in> set (concat (map (optional_item source get flag) table)) \<and> dc_is_flagged i} =
      {key \<in> fst ` set table. \<exists>v. get key = Some v \<and> flag v}" (is "?l = ?r")
  proof
    show "?l \<subseteq> ?r" unfolding mem by force
    show "?r \<subseteq> ?l"
    proof
      fix key assume "key \<in> ?r"
      then obtain x v where x: "x \<in> set table" "key = fst x" "get key = Some v" "flag v" by auto
      then have "config_item source key (Some v) (flag v) (snd x) \<in> set (concat (map (optional_item source get flag) table))"
        unfolding mem by blast
      then show "key \<in> ?l" using x(4) by force
    qed
  qed
qed

lemma optional_items_distinct:
  "distinct (map fst table) \<Longrightarrow> distinct (map dc_key (concat (map (optional_item source get flag) table)))"
proof (induction table)
  case (Cons x table)
  have "fst x \<notin> dc_key ` set (concat (map (optional_item source get flag) table))"
    using optional_items(1) [of source get flag table] Cons.prems by auto
  then show ?case using Cons by (auto simp: optional_item_def split: option.split)
qed simp

lemma required_item_simps [simp]:
  "dc_key (required_item source get ok x) = fst x" "dc_config_source (required_item source get ok x) = source"
  "dc_is_flagged (required_item source get ok x) \<longleftrightarrow> \<not> (\<exists>v. get (fst x) = Some v \<and> ok v)"
  by (auto simp: required_item_def split: option.split)

lemma required_items:
  "{dc_key i |i. i \<in> set (map (required_item source get ok) table) \<and> dc_is_flagged i} =
     {key \<in> fst ` set table. \<not> (\<exists>v. get key = Some v \<and> ok v)}"
  by (auto simp: image_iff) (metis fst_conv required_item_simps(1,3))+

definition prefix_items :: "string \<Rightarrow> discovered_config_item list" where
  "prefix_items txt = (case rx_search table_prefix_re txt of None \<Rightarrow> []
     | Some m \<Rightarrow> [config_item wp_config_source ''table_prefix'' (Some (rx_group 1 m)) (rx_group 1 m = ''wp_'')
         ''Default table prefix in use''])"

lemma prefix_items_facts:
  "distinct (map dc_key (prefix_items txt))" "dc_key ` set (prefix_items txt) \<subseteq> {''table_prefix''}"
  "dc_config_source ` set (prefix_items txt) \<subseteq> {wp_config_source}"
  "{dc_key x |x. x \<in> set (prefix_items txt) \<and> dc_is_flagged x} =
     {key. key = ''table_prefix'' \<and> (\<exists>m. rx_search table_prefix_re txt = Some m \<and> rx_group 1 m = ''wp_'')}"
  by (auto simp: prefix_items_def split: option.split) metis

lemma item_fun:
  "(\<lambda>(key, reason). case get key of None \<Rightarrow> []
     | Some v \<Rightarrow> [config_item source key (Some v) (flag v) reason]) = optional_item source get flag"
  "(\<lambda>(key, reason). case get key of None \<Rightarrow> config_item source key None True reason
     | Some v \<Rightarrow> config_item source key (Some v) (\<not> ok v) reason) = required_item source get ok"
  by (auto simp: fun_eq_iff optional_item_def required_item_def split: option.split)

lemma parse_parts:
  "parse_wp_config txt =
     concat (map (optional_item wp_config_source (map_of (wp_defines txt)) is_php_true) flagged_when_true) @
     map (required_item wp_config_source (map_of (wp_defines txt)) is_php_true) flagged_when_absent_or_false @
     prefix_items txt"
  "parse_user_ini txt = concat (map (optional_item user_ini_source (map_of (ini_settings txt)) is_ini_truthy) ini_flagged_when_truthy)"
  unfolding parse_wp_config_def parse_user_ini_def Let_def prefix_items_def item_fun by (rule refl)+

lemma table_keys:
  "distinct (map fst flagged_when_true)" "distinct (map fst flagged_when_absent_or_false)"
  "distinct (map fst ini_flagged_when_truthy)" "''table_prefix'' \<notin> fst ` set flagged_when_true"
  "''table_prefix'' \<notin> fst ` set flagged_when_absent_or_false"
  "fst ` set flagged_when_true \<inter> fst ` set flagged_when_absent_or_false = {}"
  by (simp_all add: config_tables)

lemma distinct_three:
  "distinct xs \<Longrightarrow> distinct ys \<Longrightarrow> distinct zs \<Longrightarrow> set xs \<subseteq> A \<Longrightarrow> set ys = B \<Longrightarrow> set zs \<subseteq> {c} \<Longrightarrow>
     A \<inter> B = {} \<Longrightarrow> c \<notin> A \<Longrightarrow> c \<notin> B \<Longrightarrow> distinct (xs @ ys @ zs)"
  by auto

lemma parse_keys:
  "distinct (map dc_key (parse_wp_config txt))" "distinct (map dc_key (parse_user_ini txt))"
  "dc_config_source ` set (parse_wp_config txt) \<subseteq> {wp_config_source}"
  "dc_config_source ` set (parse_user_ini txt) \<subseteq> {user_ini_source}"
proof -
  let ?debug = "concat (map (optional_item wp_config_source (map_of (wp_defines txt)) is_php_true) flagged_when_true)"
    and ?hard = "map (required_item wp_config_source (map_of (wp_defines txt)) is_php_true) flagged_when_absent_or_false"
  note pre = prefix_items_facts [of "txt"]
  have "dc_key ` set ?hard = fst ` set flagged_when_absent_or_false" by (simp add: image_image)
  moreover have "map dc_key ?hard = map fst flagged_when_absent_or_false" by simp
  moreover have "dc_key ` set ?debug \<subseteq> fst ` set flagged_when_true" by (rule optional_items(1))
  moreover have "distinct (map dc_key ?debug)" by (rule optional_items_distinct [OF table_keys(1)])
  ultimately have "distinct (map dc_key ?debug @ map dc_key ?hard @ map dc_key (prefix_items txt))"
    using table_keys pre
    by (intro distinct_three [where A = "fst ` set flagged_when_true" and B = "fst ` set flagged_when_absent_or_false"
          and c = "''table_prefix''"]) (simp_all only: set_map not_False_eq_True)
  then show "distinct (map dc_key (parse_wp_config txt))" unfolding parse_parts by (simp only: map_append)
  have "dc_config_source ` set ?debug \<subseteq> {wp_config_source}" by (rule optional_items(2))
  moreover have "dc_config_source ` set ?hard \<subseteq> {wp_config_source}" by auto
  ultimately show "dc_config_source ` set (parse_wp_config txt) \<subseteq> {wp_config_source}"
    unfolding parse_parts set_append image_Un using pre(3) by (intro Un_least)
  show "distinct (map dc_key (parse_user_ini txt))" unfolding parse_parts
    by (rule optional_items_distinct [OF table_keys(3)])
  show "dc_config_source ` set (parse_user_ini txt) \<subseteq> {user_ini_source}" unfolding parse_parts
    by (rule optional_items(2))
qed

lemma scan_keys:
  "distinct (map (\<lambda>x. (dc_config_source x, dc_key x)) (fst (scan_configuration decode w s)))"
proof -
  have "distinct (map (\<lambda>x. (dc_config_source x, dc_key x)) xs)" if "distinct (map dc_key xs)" for xs
    using that by (auto simp: distinct_map inj_on_def)
  then have each: "distinct (map (\<lambda>x. (dc_config_source x, dc_key x)) (parse_wp_config t))"
    "distinct (map (\<lambda>x. (dc_config_source x, dc_key x)) (parse_user_ini t))" for t
    using parse_keys(1,2) by blast+
  have apart: "(\<lambda>x. (dc_config_source x, dc_key x)) ` set (parse_wp_config t) \<inter>
      (\<lambda>x. (dc_config_source x, dc_key x)) ` set (parse_user_ini u) = {}" for t u
  proof -
    have "dc_config_source x = wp_config_source" if "x \<in> set (parse_wp_config t)" for x using parse_keys(3) that by blast
    moreover have "dc_config_source x = user_ini_source" if "x \<in> set (parse_user_ini u)" for x using parse_keys(4) that by blast
    moreover have "wp_config_source \<noteq> user_ini_source" by (simp add: wp_config_source_def user_ini_source_def)
    ultimately show ?thesis by auto
  qed
  obtain wp ini s1 s2 where r: "read_items decode parse_wp_config (path_parts (abs_value (wi_absolute_path w)) @ [wp_config_source]) s = (wp, s1)"
    "read_items decode parse_user_ini (path_parts (abs_value (wi_absolute_path w)) @ [user_ini_source]) s1 = (ini, s2)"
    by (metis prod.collapse)
  have "wp = [] \<or> (\<exists>t. wp = parse_wp_config t)" "ini = [] \<or> (\<exists>t. ini = parse_user_ini t)"
    using r by (auto simp: read_items_def split: prod.splits sum.splits)
  then have "distinct (map (\<lambda>x. (dc_config_source x, dc_key x)) (wp @ ini))"
    using each apart by (elim disjE exE) (simp_all del: set_map add: set_map [symmetric])
  then show ?thesis using r by (simp add: scan_configuration_def)
qed

definition defined_true :: "string \<Rightarrow> string \<Rightarrow> bool" where
  "defined_true txt key \<longleftrightarrow> (\<exists>v. map_of (wp_defines txt) key = Some v \<and> is_php_true v)"

lemma last_define:
  "map_of (wp_defines txt) key =
     map_of (rev (map (\<lambda>m. (str_upper (rx_group 1 m), normalize_php_value (rx_group 2 m))) (rx_finditer define_re txt))) key"
proof -
  have "map_of (foldl (\<lambda>dic m. dict_set (f m) (g m) dic) dic ms) key =
      (case map_of (rev (map (\<lambda>m. (f m, g m)) ms)) key of Some v \<Rightarrow> Some v | None \<Rightarrow> map_of dic key)"
    for dic ms and f g :: "rx_state \<Rightarrow> string"
    by (induction ms arbitrary: dic) (auto simp: map_of_dict_set map_add_def split: option.splits)
  from this [where dic = "[]"] show ?thesis by (simp add: wp_defines_def split: option.split)
qed

text \<open>The items of a \<open>wp-config.php\<close>: no key twice, and flagged are exactly the debugging constants whose last
  definition is true, the hardening constants whose last definition is not true or which have none, and
  the default table prefix.\<close>

theorem config_flags_meaning:
  "distinct (map dc_key (parse_wp_config txt)) \<and>
   {dc_key x |x. x \<in> set (parse_wp_config txt) \<and> dc_is_flagged x} =
     {key \<in> fst ` set flagged_when_true. defined_true txt key} \<union>
     {key \<in> fst ` set flagged_when_absent_or_false. \<not> defined_true txt key} \<union>
     {key. key = ''table_prefix'' \<and> (\<exists>m. rx_search table_prefix_re txt = Some m \<and> rx_group 1 m = ''wp_'')} \<and>
   map_of (wp_defines txt) key =
     map_of (rev (map (\<lambda>m. (str_upper (rx_group 1 m), normalize_php_value (rx_group 2 m))) (rx_finditer define_re txt))) key"
proof (intro conjI)
  show "distinct (map dc_key (parse_wp_config txt))" by (rule parse_keys)
  show "map_of (wp_defines txt) key =
     map_of (rev (map (\<lambda>m. (str_upper (rx_group 1 m), normalize_php_value (rx_group 2 m))) (rx_finditer define_re txt))) key"
    by (rule last_define)
  have split: "{dc_key x |x. x \<in> set (xs @ ys @ zs) \<and> dc_is_flagged x} =
      {dc_key x |x. x \<in> set xs \<and> dc_is_flagged x} \<union> {dc_key x |x. x \<in> set ys \<and> dc_is_flagged x} \<union>
      {dc_key x |x. x \<in> set zs \<and> dc_is_flagged x}" for xs ys zs by auto
  show "{dc_key x |x. x \<in> set (parse_wp_config txt) \<and> dc_is_flagged x} =
     {key \<in> fst ` set flagged_when_true. defined_true txt key} \<union>
     {key \<in> fst ` set flagged_when_absent_or_false. \<not> defined_true txt key} \<union>
     {key. key = ''table_prefix'' \<and> (\<exists>m. rx_search table_prefix_re txt = Some m \<and> rx_group 1 m = ''wp_'')}"
    unfolding parse_parts split optional_items(3) required_items prefix_items_facts(4) defined_true_def
    by (simp only: Un_assoc)
qed

text \<open>PHP ignores a second definition of a constant and what stands in a comment; the scanner takes the last
  definition, wherever it stands.\<close>

definition demo_config :: string where
  "demo_config = (let q = [CHR 0x27] in
     ''define('' @ q @ ''WP_DEBUG'' @ q @ '', true);'' @ [CHR 0x0A] @
     ''define('' @ q @ ''WP_DEBUG'' @ q @ '', false);'' @ [CHR 0x0A] @
     ''// define('' @ q @ ''DISALLOW_FILE_EDIT'' @ q @ '', true);'')"

lemma misread_config:
  "map dc_key (filter dc_is_flagged (parse_wp_config demo_config)) = [''DISALLOW_FILE_MODS'', ''FORCE_SSL_ADMIN'']"
  by code_simp

section \<open>Reader and use case together\<close>

text \<open>After a configuration scan the rows of every active installation are exactly what its two files
  say, and the number of flagged items reported is theirs.\<close>

theorem configuration_follows_disk:
  assumes "db_wf d" "inventory_unique d"
    and "run_configuration_scan (\<lambda>w. fst (scan_configuration decode w s)) now d = (r, d')"
  shows "(\<forall>w \<in> set (active_installations d).
      (\<lambda>c. (ci_config_source c, ci_key c, ci_raw_value c, ci_is_flagged c, ci_flag_reason c)) `
          {c \<in> set (tb_config_items d'). ci_installation_id c = eid w \<and> ci_is_present c} =
        (\<lambda>x. (dc_config_source x, dc_key x, dc_raw_value x, dc_is_flagged x, dc_flag_reason x)) `
          set (fst (scan_configuration decode w s))) \<and>
    co_items_flagged r =
      length (filter dc_is_flagged (concat (map (\<lambda>w. fst (scan_configuration decode w s)) (active_installations d)))) \<and>
    inventory_unique d'"
  using configuration_mirrors_disk [OF assms(1,2) scan_keys assms(3)] by (elim conjE, intro conjI)

definition demo_config_disk :: fs where
  "demo_config_disk = \<lparr>fs_tree = [], fs_faults = [], fs_uuids = []\<rparr>"

theorem configuration_follows_disk_witness:
  "co_items_flagged (fst (run_configuration_scan (\<lambda>w. fst (scan_configuration id w demo_config_disk)) 5 demo_inv_db)) =
     length (filter dc_is_flagged (fst (scan_configuration id demo_wp demo_config_disk)))"
  using configuration_follows_disk [OF demo_inv_ok prod.collapse [symmetric], of id demo_config_disk 5]
  by (simp add: demo_inv_active)

end
