(* ===== verification/Extension_Scanner.thy ===== *)
theory Extension_Scanner
  imports Temp_Scanner
begin

text \<open>
  \<open>FilesystemWordPressExtensionScanner\<close> (\<open>infrastructure/wordpress/extension_scanner.py\<close>): the reader of
  plugins and themes behind the inventory scan. The last lemmas compare it with the forensic scanner, which
  looks at the same directories.
\<close>

section \<open>Headers\<close>

definition version_header_re :: rx where
  "version_header_re =
     Seqs [LineStart, Star (one_of [CHR '' '', CHR 0x09, CHR ''*'']), NoCase ''Version:'', Spaces,
       Group 1 (Plus (Chars any_char)), LineEnd]"

text \<open>Name and version of the first candidate with a name header.\<close>

definition header_values :: "rx \<Rightarrow> string \<Rightarrow> (string \<times> string option) option" where
  "header_values pattern content =
     (case rx_search pattern content of
        None \<Rightarrow> None
      | Some m \<Rightarrow>
          Some (str_strip (rx_group 1 m), map_option (\<lambda>v. str_strip (rx_group 1 v)) (rx_search version_header_re content)))"

section \<open>Plugins\<close>

fun read_candidates :: "(string \<Rightarrow> string) \<Rightarrow> path list \<Rightarrow> fs \<Rightarrow> (string \<times> string option) option \<times> fs" where
  "read_candidates decode [] s = (None, s)"
| "read_candidates decode (c # cs) s =
     (if \<not> is_file (fs_tree s) c \<or> is_symlink (fs_tree s) c then read_candidates decode cs s
      else case sys (os_read c) s of
             (Inl _, s) \<Rightarrow> read_candidates decode cs s
           | (Inr f, s) \<Rightarrow>
               (case header_values plugin_name_re (decode (f_bytes f)) of
                  Some x \<Rightarrow> (Some x, s) | None \<Rightarrow> read_candidates decode cs s))"

definition plugin_candidates :: "path \<Rightarrow> string \<Rightarrow> fs \<Rightarrow> path list \<times> fs" where
  "plugin_candidates d slug s =
     (let conventional = d @ [slug @ ''.php''];
          first = (if path_exists (fs_tree s) conventional then [conventional] else [])
      in case sys (os_listdir d) s of
           (Inl _, s) \<Rightarrow> (first, s)
         | (Inr entries, s) \<Rightarrow>
             (first @ filter (\<lambda>p. path_suffix (last p) = ''.php'' \<and> p \<noteq> conventional) (map (\<lambda>c. d @ [c]) entries), s))"

definition read_plugin ::
    "(string \<Rightarrow> string) \<Rightarrow> path \<Rightarrow> fs \<Rightarrow> discovered_plugin list res \<times> fs" where
  "read_plugin decode d s =
     (if is_symlink (fs_tree s) d \<or> \<not> is_dir (fs_tree s) d then (Inr [], s)
      else
        (let (candidates, s) = plugin_candidates d (last d) s;
             (found, s) = read_candidates decode candidates s
         in (Inr (case found of None \<Rightarrow> []
               | Some (name, version) \<Rightarrow> [\<lparr>dp_slug = last d, dp_name = name, dp_version = version\<rparr>]), s)))"

definition scan_plugins ::
    "(string \<Rightarrow> string) \<Rightarrow> wordpress_installation \<Rightarrow> fs \<Rightarrow> discovered_plugin list res \<times> fs" where
  "scan_plugins decode w s =
     (let d = path_parts (abs_value (wi_absolute_path w)) @ [''wp-content'', ''plugins''] in
      if \<not> is_dir (fs_tree s) d then (Inr [], s)
      else case sys (os_listdir d) s of
             (Inl _, s) \<Rightarrow> (Inr [], s)
           | (Inr entries, s) \<Rightarrow> collect (read_plugin decode) (map (\<lambda>c. d @ [c]) entries) s)"

section \<open>Themes\<close>

definition read_theme ::
    "(string \<Rightarrow> string) \<Rightarrow> path \<Rightarrow> fs \<Rightarrow> discovered_theme list res \<times> fs" where
  "read_theme decode d s =
     (let style = d @ [''style.css''] in
      if is_symlink (fs_tree s) d \<or> \<not> is_dir (fs_tree s) d then (Inr [], s)
      else if \<not> is_file (fs_tree s) style then (Inr [], s)
      else case sys (os_read style) s of
             (Inl _, s) \<Rightarrow> (Inr [], s)
           | (Inr f, s) \<Rightarrow>
               (case header_values theme_name_re (decode (f_bytes f)) of
                  None \<Rightarrow> (Inr [], s)
                | Some (name, version) \<Rightarrow> (Inr [\<lparr>dt_slug = last d, dt_name = name, dt_version = version\<rparr>], s)))"

definition scan_themes ::
    "(string \<Rightarrow> string) \<Rightarrow> wordpress_installation \<Rightarrow> fs \<Rightarrow> discovered_theme list res \<times> fs" where
  "scan_themes decode w s =
     (let d = path_parts (abs_value (wi_absolute_path w)) @ [''wp-content'', ''themes''] in
      if \<not> is_dir (fs_tree s) d then (Inr [], s)
      else case sys (os_listdir d) s of
             (Inl _, s) \<Rightarrow> (Inr [], s)
           | (Inr entries, s) \<Rightarrow> collect (read_theme decode) (map (\<lambda>c. d @ [c]) entries) s)"

section \<open>Inventory and forensic scan\<close>

lemma header_values_iff: "header_values pattern content \<noteq> None \<longleftrightarrow> rx_matches pattern content"
  by (simp add: header_values_def rx_matches_def split: option.split)

lemma read_candidates_sound:
  assumes "sound_disk s"
  shows "\<forall>p \<in> set ps. p \<noteq> [] \<and> node_of (fs_tree s) p \<noteq> None \<Longrightarrow>
    \<exists>x. read_candidates decode ps s = (x, s) \<and>
      (x \<noteq> None \<longleftrightarrow> (\<exists>p \<in> set ps. \<exists>f. node_of (fs_tree s) p = Some (Regular f) \<and>
         rx_matches plugin_name_re (decode (f_bytes f))))"
proof (induction ps)
  case (Cons p ps)
  obtain x where x: "node_of (fs_tree s) p = Some x" "p \<noteq> []" using Cons.prems by auto
  note t = entry_tests [OF assms x]
  obtain r where r: "read_candidates decode ps s = (r, s)"
    "r \<noteq> None \<longleftrightarrow> (\<exists>p \<in> set ps. \<exists>f. node_of (fs_tree s) p = Some (Regular f) \<and> rx_matches plugin_name_re (decode (f_bytes f)))"
    using Cons by auto
  show ?case
  proof (cases x)
    case (Regular f)
    have "sys (os_read p) s = (Inr f, s)" using read_regular x(1) Regular assms by (simp only: sound_disk_def)
    then show ?thesis
      using r t x(1) Regular header_values_iff [of plugin_name_re "decode (f_bytes f)"]
      by (cases "header_values plugin_name_re (decode (f_bytes f))") auto
  next
    case Directory
    then show ?thesis using r t x(1) by auto
  next
    case (Symlink l)
    then show ?thesis using r t x(1) by auto
  qed
qed simp

lemma php_suffix: "slug \<noteq> [] \<Longrightarrow> path_suffix (slug @ ''.php'') = ''.php''"
  by (simp add: path_suffix_def Let_def)

lemma candidates_sound:
  assumes "sound_disk s" "node_of (fs_tree s) d = Some Directory" "d \<noteq> []"
  shows "\<exists>ps. plugin_candidates d (last d) s = (ps, s) \<and> (\<forall>p \<in> set ps. p \<noteq> [] \<and> node_of (fs_tree s) p \<noteq> None) \<and>
    {(p, f). p \<in> set ps \<and> node_of (fs_tree s) p = Some (Regular f)} = {(p, f). php_in (fs_tree s) d p f}"
proof -
  let ?t = "fs_tree s" and ?conv = "d @ [last d @ ''.php'']"
  have wf: "tree_wf ?t" using assms(1) by (simp add: sound_disk_def)
  have slug: "part_ok (last d)" "normal d"
    using wf_entry [OF wf assms(2)] assms(3) by (auto simp: list_all_iff)
  have suffix: "path_suffix (last ?conv) = ''.php''" using slug(1) php_suffix by (auto simp: part_ok_def)
  have "normal ?conv" using slug by (auto simp: normal_def)
  then have missing: "path_exists ?t ?conv \<Longrightarrow> node_of ?t ?conv \<noteq> None"
    using missing_tests(2) [OF wf, of ?conv] assms(2) by (auto simp: butlast_append)
  have there: "path_exists ?t ?conv" if "node_of ?t ?conv = Some (Regular f)" for f
    using that wf by (simp add: path_exists_def)
  obtain cs where c: "sys (os_listdir d) s = (Inr cs, s)"
    "set (map (\<lambda>c. d @ [c]) cs) = {p. butlast p = d \<and> p \<noteq> [] \<and> node_of ?t p \<noteq> None}"
    using listed_sound [OF assms(1,2)] by blast
  let ?ps = "(if path_exists ?t ?conv then [?conv] else []) @
    filter (\<lambda>p. path_suffix (last p) = ''.php'' \<and> p \<noteq> ?conv) (map (\<lambda>c. d @ [c]) cs)"
  have set: "set ?ps = {p. p = ?conv \<and> path_exists ?t ?conv} \<union>
      {p. butlast p = d \<and> p \<noteq> [] \<and> node_of ?t p \<noteq> None \<and> path_suffix (last p) = ''.php'' \<and> p \<noteq> ?conv}"
    unfolding set_append set_filter c(2) by auto
  have "plugin_candidates d (last d) s = (?ps, s)" by (simp add: plugin_candidates_def c(1) Let_def)
  moreover have "\<forall>p \<in> set ?ps. p \<noteq> [] \<and> node_of ?t p \<noteq> None" unfolding set using missing by auto
  moreover have "p \<in> set ?ps \<and> node_of ?t p = Some (Regular f) \<longleftrightarrow> php_in ?t d p f" for p f
    unfolding set php_in_def using there suffix by (cases "p = ?conv") auto
  ultimately show ?thesis by (intro exI [of _ ?ps]) auto
qed

lemma read_plugin_sound:
  assumes "sound_disk s" "node_of (fs_tree s) d = Some Directory" "d \<noteq> []"
  shows "\<exists>found. read_plugin (fq_decode_ignore fq) d s = (Inr found, s) \<and>
    map dp_slug found = (if has_header fq s d then [last d] else [])"
proof -
  obtain ps where ps: "plugin_candidates d (last d) s = (ps, s)"
    "\<forall>p \<in> set ps. p \<noteq> [] \<and> node_of (fs_tree s) p \<noteq> None"
    "{(p, f). p \<in> set ps \<and> node_of (fs_tree s) p = Some (Regular f)} = {(p, f). php_in (fs_tree s) d p f}"
    using candidates_sound [OF assms] by blast
  obtain x where x: "read_candidates (fq_decode_ignore fq) ps s = (x, s)"
    "x \<noteq> None \<longleftrightarrow> (\<exists>p \<in> set ps. \<exists>f. node_of (fs_tree s) p = Some (Regular f) \<and>
       rx_matches plugin_name_re (fq_decode_ignore fq (f_bytes f)))"
    using read_candidates_sound [OF assms(1) ps(2)] by blast
  have "x \<noteq> None \<longleftrightarrow> has_header fq s d" unfolding x(2) has_header_def using ps(3) by blast
  then show ?thesis
    using ps(1) x(1) entry_tests(3) [OF assms] by (cases x) (auto simp: read_plugin_def)
qed

lemma plugins_sound:
  assumes "sound_disk s" "path_parts (abs_value (wi_absolute_path w)) = base"
    and "node_of (fs_tree s) (base @ [''wp-content'', ''plugins'']) = Some Directory"
  shows "\<exists>found. scan_plugins (fq_decode_ignore fq) w s = (Inr found, s) \<and> distinct (map dp_slug found) \<and>
    dp_slug ` set found = {c. node_of (fs_tree s) (base @ [''wp-content'', ''plugins'', c]) = Some Directory \<and>
      has_header fq s (base @ [''wp-content'', ''plugins'', c])}"
proof -
  let ?t = "fs_tree s" and ?d = "base @ [''wp-content'', ''plugins'']" and ?g = "read_plugin (fq_decode_ignore fq)"
  obtain cs where c: "sys (os_listdir ?d) s = (Inr cs, s)" "distinct cs"
    "set (map (\<lambda>c. ?d @ [c]) cs) = {p. butlast p = ?d \<and> p \<noteq> [] \<and> node_of ?t p \<noteq> None}"
    using listed_sound [OF assms(1,3)] by blast
  let ?listed = "\<lambda>p. node_of ?t p = Some Directory \<and> has_header fq s p"
  have each: "\<forall>p \<in> set (map (\<lambda>c. ?d @ [c]) cs). \<exists>found. ?g p s = (Inr found, s) \<and>
      map dp_slug found = (if ?listed p then [last p] else [])"
  proof
    fix p assume "p \<in> set (map (\<lambda>c. ?d @ [c]) cs)"
    then obtain x where x: "node_of ?t p = Some x" "p \<noteq> []" unfolding c(3) by blast
    show "\<exists>found. ?g p s = (Inr found, s) \<and> map dp_slug found = (if ?listed p then [last p] else [])"
    proof (cases "x = Directory")
      case True
      then show ?thesis using read_plugin_sound [OF assms(1) _ x(2), of fq] x(1) by simp
    next
      case False
      then show ?thesis using entry_tests(3) [OF assms(1) x] x(1) by (auto simp: read_plugin_def)
    qed
  qed
  obtain h where h: "\<forall>p \<in> set (map (\<lambda>c. ?d @ [c]) cs). ?g p s = (Inr (h p), s) \<and>
      map dp_slug (h p) = (if ?listed p then [last p] else [])"
    using each by (rule bchoice [THEN exE])
  let ?found = "concat (map h (map (\<lambda>c. ?d @ [c]) cs))"
  have "collect ?g (map (\<lambda>c. ?d @ [c]) cs) s = (Inr ?found, s)"
    using h by (intro collect_pure) blast
  moreover have "is_dir ?t ?d" using entry_tests(3) [OF assms(1,3)] by blast
  ultimately have "scan_plugins (fq_decode_ignore fq) w s = (Inr ?found, s)"
    using c(1) by (simp add: scan_plugins_def assms(2))
  moreover have slugs: "map dp_slug ?found = filter (\<lambda>c. ?listed (?d @ [c])) cs"
    using h by (induction cs) (auto simp del: append_assoc)
  moreover have "dp_slug ` set ?found = {c. ?listed (?d @ [c])}"
  proof -
    have "dp_slug ` set ?found = set (map dp_slug ?found)" by (simp only: set_map)
    also have "\<dots> = {c \<in> set cs. ?listed (?d @ [c])}" unfolding slugs by simp
    also have "\<dots> = {c. ?listed (?d @ [c])}"
    proof -
      have "c \<in> set cs" if "node_of ?t (?d @ [c]) = Some Directory" for c
      proof -
        have "?d @ [c] \<in> set (map (\<lambda>c. ?d @ [c]) cs)" unfolding c(3) using that by (simp add: butlast_append)
        then show ?thesis by auto
      qed
      then show ?thesis by blast
    qed
    finally show ?thesis .
  qed
  ultimately show ?thesis using c(2) by (intro exI [of _ ?found]) (simp add: slugs)
qed

text \<open>C39. The inventory and the forensic scan agree on what a plugin is. On a sound disk the inventory lists,
  each once, the plugin directories in which a PHP file carries a plugin header; the forensic scan reports
  findings for exactly the other directories that hold PHP files.\<close>

theorem plugins_listed_or_fake:
  assumes "sound_disk s" "path_parts (abs_value (wi_absolute_path w)) = base"
    and "node_of (fs_tree s) (base @ [''wp-content'', ''plugins'']) = Some Directory"
  shows "\<exists>plugins fakes. scan_plugins (fq_decode_ignore fq) w s = (Inr plugins, s) \<and>
    scan_fake_plugins fq base s = (Inr fakes, s) \<and> distinct (map dp_slug plugins) \<and>
    dp_slug ` set plugins = {c. node_of (fs_tree s) (base @ [''wp-content'', ''plugins'', c]) = Some Directory \<and>
      has_header fq s (base @ [''wp-content'', ''plugins'', c])} \<and>
    set fakes = (\<Union>c \<in> {c. node_of (fs_tree s) (base @ [''wp-content'', ''plugins'', c]) = Some Directory}.
      plugin_findings fq s base (base @ [''wp-content'', ''plugins'', c])) \<and>
    {c. plugin_findings fq s base (base @ [''wp-content'', ''plugins'', c]) \<noteq> {}} =
      {c. \<exists>p f. php_in (fs_tree s) (base @ [''wp-content'', ''plugins'', c]) p f} -
      {c. has_header fq s (base @ [''wp-content'', ''plugins'', c])}"
proof -
  let ?d = "\<lambda>c. base @ [''wp-content'', ''plugins'', c]"
  obtain plugins where p: "scan_plugins (fq_decode_ignore fq) w s = (Inr plugins, s)" "distinct (map dp_slug plugins)"
    "dp_slug ` set plugins = {c. node_of (fs_tree s) (?d c) = Some Directory \<and> has_header fq s (?d c)}"
    using plugins_sound [OF assms] by blast
  obtain fakes where f: "scan_fake_plugins fq base s = (Inr fakes, s)"
    "set fakes = (\<Union>d \<in> {d. butlast d = base @ [''wp-content'', ''plugins''] \<and> d \<noteq> [] \<and>
      node_of (fs_tree s) d = Some Directory}. plugin_findings fq s base d)"
    using fake_plugins_sound [OF assms(1,3)] by blast
  have dirs: "{d. butlast d = base @ [''wp-content'', ''plugins''] \<and> d \<noteq> [] \<and> node_of (fs_tree s) d = Some Directory} =
      ?d ` {c. node_of (fs_tree s) (?d c) = Some Directory}" (is "?l = ?r")
  proof
    show "?l \<subseteq> ?r"
    proof
      fix d assume d: "d \<in> ?l"
      then have eq: "d = ?d (last d)" using append_butlast_last_id [of d] by simp
      have "last d \<in> {c. node_of (fs_tree s) (?d c) = Some Directory}" using d eq [symmetric] by simp
      then show "d \<in> ?r" using eq by (rule rev_image_eqI)
    qed
    show "?r \<subseteq> ?l" by (auto simp: butlast_append)
  qed
  have "plugin_findings fq s base (?d c) \<noteq> {} \<longleftrightarrow>
      (\<exists>p f. php_in (fs_tree s) (?d c) p f) \<and> \<not> has_header fq s (?d c)" for c
    unfolding plugin_findings_def by auto
  then have "{c. plugin_findings fq s base (?d c) \<noteq> {}} =
      {c. \<exists>p f. php_in (fs_tree s) (?d c) p f} - {c. has_header fq s (?d c)}" by auto
  moreover have "set fakes = (\<Union>c \<in> {c. node_of (fs_tree s) (?d c) = Some Directory}. plugin_findings fq s base (?d c))"
    unfolding f(2) dirs by simp
  ultimately show ?thesis using p f(1) by blast
qed

section \<open>An example\<close>

definition demo_plugins :: fs where
  "demo_plugins =
     (let f = (\<lambda>b. Regular \<lparr>f_bytes = b, f_mode = 0, f_uid = 0, f_gid = 0\<rparr>); d = [''w'', ''wp-content'', ''plugins'']
      in \<lparr>fs_tree = [([''w''], Directory), ([''w'', ''wp-content''], Directory), (d, Directory),
            (d @ [''good''], Directory), (d @ [''good'', ''good.php''], f ''Plugin Name: Good''),
            (d @ [''bad''], Directory), (d @ [''bad'', ''x.php''], f ''<?php'')],
          fs_faults = [], fs_uuids = []\<rparr>)"

definition demo_shop_installation :: wordpress_installation where
  "demo_shop_installation = \<lparr>eid = 1, created_at = 0, updated_at = 0, wi_account_id = 1,
     wi_absolute_path = AbsoluteFilePath ''/w'', wi_domain = None, wi_wp_version = None, wi_is_multisite = False,
     wi_last_seen_at = 0, wi_is_active = True, wi_php_version = None\<rparr>"

lemma demo_plugins_ok:
  "sound_disk demo_plugins" "path_parts (abs_value (wi_absolute_path demo_shop_installation)) = [''w'']"
  "node_of (fs_tree demo_plugins) ([''w''] @ [''wp-content'', ''plugins'']) = Some Directory"
  "map_sum id (map dp_slug) (fst (scan_plugins id demo_shop_installation demo_plugins)) = Inr [''good'']"
  "map_sum id (map wf_relative_path) (fst (scan_fake_plugins demo_rules [''w''] demo_plugins)) =
     Inr [''wp-content/plugins/bad'']"
  unfolding sound_disk_def by code_simp+

theorem plugins_listed_or_fake_witness:
  "\<exists>plugins fakes. scan_plugins id demo_shop_installation demo_plugins = (Inr plugins, demo_plugins) \<and>
     scan_fake_plugins demo_rules [''w''] demo_plugins = (Inr fakes, demo_plugins) \<and>
     map dp_slug plugins = [''good''] \<and> map wf_relative_path fakes = [''wp-content/plugins/bad'']"
proof -
  have "fq_decode_ignore demo_rules = id" by (simp add: demo_rules_def)
  then obtain plugins fakes where "scan_plugins id demo_shop_installation demo_plugins = (Inr plugins, demo_plugins)"
    "scan_fake_plugins demo_rules [''w''] demo_plugins = (Inr fakes, demo_plugins)"
    using plugins_listed_or_fake [OF demo_plugins_ok(1-3), of demo_rules] by metis
  then show ?thesis using demo_plugins_ok(4,5) by simp
qed

end
