(* ===== verification/App_Settings.thy ===== *)
theory App_Settings
  imports Prelude
begin

text \<open>
  \<open>Settings\<close> (\<open>config.py\<close>): every field the program can be configured with, by its name with the
  prefix \<open>cfg_\<close>, and the defaults. Reading them from the environment is the settings library's.
\<close>

record app_settings =
  cfg_app_name :: string
  cfg_environment :: string
  cfg_log_level :: string
  cfg_mode :: string
  cfg_database_url :: string
  cfg_database_echo :: bool
  cfg_cors_allow_origins :: "string list"
  cfg_discovery_scan_interval_minutes :: int
  cfg_integrity_scan_interval_minutes :: int
  cfg_inventory_scan_interval_minutes :: int
  cfg_monitoring_scan_interval_minutes :: int
  cfg_log_ingestion_interval_minutes :: int
  cfg_wordpress_excluded_relative_paths :: "string list"
  cfg_integrity_excluded_relative_paths :: "string list"
  cfg_integrity_max_file_size_bytes :: int
  cfg_quarantine_root_directory :: string
  cfg_event_dedup_window_minutes :: int
  cfg_forensics_temp_directories :: "string list"
  cfg_forensics_watched_extensions :: "string list"
  cfg_forensics_scan_interval_minutes :: int
  cfg_correlation_interval_minutes :: int
  cfg_correlation_time_window_minutes :: int
  cfg_cpanel_etc_directory :: string
  cfg_cpanel_home_base_directory :: string
  cfg_cpanel_suspended_directory :: string
  cfg_wordpress_detection_max_depth :: int
  cfg_proc_directory :: string
  cfg_var_log_directory :: string
  cfg_cpanel_binaries_directory :: string
  cfg_api_base_url :: string
  cfg_wordpress_discovery_excluded_directory_markers :: "string list"
  cfg_wordpress_critical_relative_paths :: "string list"
  cfg_wordpress_dropin_relative_paths :: "string list"
  cfg_wordpress_suspicious_cron_markers :: "string list"
  cfg_wordpress_crontab_directory :: string
  cfg_wordpress_inventory_scan_interval_minutes :: int
  cfg_wordpress_integrity_audit_interval_minutes :: int
  cfg_wordpress_forensic_scan_interval_minutes :: int
  cfg_wordpress_core_checksums_api_base_url :: string
  cfg_wordpress_core_checksums_locale :: string
  cfg_auto_quarantine_max_per_account_per_run :: int
  cfg_auto_quarantine_interval_minutes :: int
  cfg_admin_session_ttl_hours :: int
  cfg_dashboard_base_path :: string
  cfg_whm_plugin_shared_secret :: string

definition default_settings :: app_settings where
  "default_settings = \<lparr>
     cfg_app_name = ''sentinel-core'',
     cfg_environment = ''production'',
     cfg_log_level = ''INFO'',
     cfg_mode = ''observe'',
     cfg_database_url = ''sqlite+aiosqlite:////data/sentinel.db'',
     cfg_database_echo = False,
     cfg_cors_allow_origins = [],
     cfg_discovery_scan_interval_minutes = 360,
     cfg_integrity_scan_interval_minutes = 60,
     cfg_inventory_scan_interval_minutes = 240,
     cfg_monitoring_scan_interval_minutes = 30,
     cfg_log_ingestion_interval_minutes = 2,
     cfg_wordpress_excluded_relative_paths = [''wp-content/uploads'', ''wp-content/cache''],
     cfg_integrity_excluded_relative_paths = [''mail'', ''logs'', ''tmp'', ''.cache'', ''.trash'', ''.cagefs'', ''wp-content/uploads'', ''wp-content/cache''],
     cfg_integrity_max_file_size_bytes = 26214400,
     cfg_quarantine_root_directory = ''/var/lib/sentinel/quarantine'',
     cfg_event_dedup_window_minutes = 60,
     cfg_forensics_temp_directories = [''/tmp'', ''/var/tmp'', ''/dev/shm''],
     cfg_forensics_watched_extensions = [''.php'', ''.pl'', ''.cgi'', ''.sh''],
     cfg_forensics_scan_interval_minutes = 5,
     cfg_correlation_interval_minutes = 5,
     cfg_correlation_time_window_minutes = 60,
     cfg_cpanel_etc_directory = ''/etc'',
     cfg_cpanel_home_base_directory = ''/home'',
     cfg_cpanel_suspended_directory = ''/var/cpanel/suspended'',
     cfg_wordpress_detection_max_depth = 4,
     cfg_proc_directory = ''/proc'',
     cfg_var_log_directory = ''/var/log'',
     cfg_cpanel_binaries_directory = ''/usr/local/cpanel'',
     cfg_api_base_url = ''http://localhost:8443'',
     cfg_wordpress_discovery_excluded_directory_markers = [''virtfs'', ''.trash'', ''backup'', ''backups'', ''_bak'', ''.bak'', ''-old'', ''_old'', ''old_site'', ''staging''],
     cfg_wordpress_critical_relative_paths = [''index.php'', ''wp-config.php'', ''wp-settings.php'', ''wp-load.php'', ''wp-blog-header.php'', ''wp-content/db.php'', ''wp-content/object-cache.php'', ''wp-content/advanced-cache.php''],
     cfg_wordpress_dropin_relative_paths = [''wp-content/db.php'', ''wp-content/object-cache.php'', ''wp-content/advanced-cache.php''],
     cfg_wordpress_suspicious_cron_markers = [''base64_decode'', ''eval('', ''curl '', ''wget '', ''| bash'', ''| sh'', ''-o- | sh''],
     cfg_wordpress_crontab_directory = ''/var/spool/cron'',
     cfg_wordpress_inventory_scan_interval_minutes = 240,
     cfg_wordpress_integrity_audit_interval_minutes = 60,
     cfg_wordpress_forensic_scan_interval_minutes = 15,
     cfg_wordpress_core_checksums_api_base_url = ''https://api.wordpress.org/core/checksums/1.0/'',
     cfg_wordpress_core_checksums_locale = ''en_US'',
     cfg_auto_quarantine_max_per_account_per_run = 5,
     cfg_auto_quarantine_interval_minutes = 20,
     cfg_admin_session_ttl_hours = 12,
     cfg_dashboard_base_path = ''/dashboard'',
     cfg_whm_plugin_shared_secret = ''''\<rparr>"

definition is_development :: "app_settings \<Rightarrow> bool" where
  "is_development s = (cfg_environment s = ''development'')"

definition is_test :: "app_settings \<Rightarrow> bool" where
  "is_test s = (cfg_environment s = ''test'')"

end
