(* ===== verification/Operator_Access.thy ===== *)
theory Operator_Access
  imports Api_Pagination Row_Repositories App_Settings
begin

text \<open>
  Who may talk to the program: API keys (\<open>require_api_key\<close> of \<open>api/dependencies.py\<close>), and the
  sessions of the dashboard (\<open>web/dependencies.py\<close>, \<open>web/routes/auth.py\<close>,
  \<open>infrastructure/security/passwords.py\<close>) with the bridge that mints a session for a WHM user. The
  tables \<open>api_keys\<close>, \<open>admin_users\<close> and \<open>admin_sessions\<close> are lists of their ORM models. SHA-256,
  HMAC and bcrypt are parameters, the random tokens are arguments, and a raised \<open>HTTPException\<close> is the
  value \<open>Http\<close> with its status.
\<close>

section \<open>Stored keys, users and sessions\<close>

record api_key_model =
  ak_id :: uuid
  ak_name :: string
  ak_key_hash :: string
  ak_key_prefix :: string
  ak_is_active :: bool
  ak_created_at :: datetime
  ak_last_used_at :: "datetime option"
  ak_expires_at :: "datetime option"

record admin_user_model =
  au_id :: uuid
  au_username :: string
  au_password_hash :: string
  au_is_active :: bool
  au_created_at :: datetime
  au_last_login_at :: "datetime option"

record admin_session_model =
  as_id :: uuid
  as_admin_user_id :: uuid
  as_token_hash :: string
  as_csrf_token :: string
  as_created_at :: datetime
  as_expires_at :: datetime
  as_last_used_at :: "datetime option"
  as_revoked_at :: "datetime option"

record access =
  ax_keys :: "api_key_model list"
  ax_users :: "admin_user_model list"
  ax_sessions :: "admin_session_model list"
  ax_next :: uuid

text \<open>An ORM object that is changed is written back to its row.\<close>

definition put_user :: "admin_user_model \<Rightarrow> access \<Rightarrow> access" where
  "put_user u ax = ax\<lparr>ax_users := map (\<lambda>x. if au_id x = au_id u then u else x) (ax_users ax)\<rparr>"

definition put_session :: "admin_session_model \<Rightarrow> access \<Rightarrow> access" where
  "put_session s ax = ax\<lparr>ax_sessions := map (\<lambda>x. if as_id x = as_id s then s else x) (ax_sessions ax)\<rparr>"

definition unique_row :: "('a \<Rightarrow> bool) \<Rightarrow> 'a list \<Rightarrow> 'a option reply" where
  "unique_row p rows =
     (case scalar_one_or_none (filter p rows) of Inl e \<Rightarrow> Inl (Unhandled e) | Inr r \<Rightarrow> Inr r)"

section \<open>API keys\<close>

definition require_api_key :: "(string \<Rightarrow> string) \<Rightarrow> string option \<Rightarrow> access \<Rightarrow> api_key_model reply" where
  "require_api_key sha authorization ax =
     (case authorization of
        None \<Rightarrow> Inl (Http 401 ''Missing bearer token'')
      | Some header \<Rightarrow>
          if \<not> str_startswith header ''Bearer '' then Inl (Http 401 ''Missing bearer token'')
          else
            (let key_hash = sha (str_strip (drop 7 header))
             in case unique_row (\<lambda>k. ak_key_hash k = key_hash \<and> ak_is_active k) (ax_keys ax) of
                  Inl e \<Rightarrow> Inl e
                | Inr None \<Rightarrow> Inl (Http 401 ''Invalid or inactive API key'')
                | Inr (Some k) \<Rightarrow> Inr k))"

text \<open>\<open>sentinel create-api-key\<close>.\<close>

definition create_api_key :: "(string \<Rightarrow> string) \<Rightarrow> datetime \<Rightarrow> string \<Rightarrow> string \<Rightarrow> access \<Rightarrow> access" where
  "create_api_key sha now name raw_key ax =
     ax\<lparr>ax_keys := ax_keys ax @ [\<lparr>ak_id = ax_next ax, ak_name = name, ak_key_hash = sha raw_key,
           ak_key_prefix = take 8 raw_key, ak_is_active = True, ak_created_at = now, ak_last_used_at = None,
           ak_expires_at = None\<rparr>],
        ax_next := Suc (ax_next ax)\<rparr>"

section \<open>Dashboard sessions\<close>

definition session_cookie_name :: string where
  "session_cookie_name = ''sentinel_session''"

definition hash_token :: "(string \<Rightarrow> string) \<Rightarrow> string \<Rightarrow> string" where
  "hash_token sha raw_token = sha raw_token"

text \<open>\<open>RedirectToLogin\<close> is answered with a redirect to the login form.\<close>

definition redirect_to_login :: http_error where
  "redirect_to_login = Http 303 ''/login''"

definition require_admin_session ::
    "(string \<Rightarrow> string) \<Rightarrow> datetime \<Rightarrow> string option \<Rightarrow> access \<Rightarrow>
     (admin_user_model \<times> admin_session_model \<times> access) reply" where
  "require_admin_session sha now cookie ax =
     (case cookie of
        None \<Rightarrow> Inl redirect_to_login
      | Some raw_token \<Rightarrow>
          (case unique_row (\<lambda>s. as_token_hash s = hash_token sha raw_token) (ax_sessions ax) of
             Inl e \<Rightarrow> Inl e
           | Inr None \<Rightarrow> Inl redirect_to_login
           | Inr (Some s) \<Rightarrow>
               if as_revoked_at s = None \<and> as_expires_at s > now then
                 (case find (\<lambda>u. au_id u = as_admin_user_id s) (ax_users ax) of
                    None \<Rightarrow> Inl redirect_to_login
                  | Some u \<Rightarrow>
                      if au_is_active u then
                        (let s = s\<lparr>as_last_used_at := Some now\<rparr> in Inr (u, s, put_session s ax))
                      else Inl redirect_to_login)
               else Inl redirect_to_login))"

text \<open>\<open>secrets.compare_digest\<close> takes two strings of ASCII characters and raises \<open>TypeError\<close> on any other.\<close>

definition compare_digest :: "string \<Rightarrow> string \<Rightarrow> bool reply" where
  "compare_digest a b =
     (if is_ascii a \<and> is_ascii b then Inr (a = b) else Inl (Unhandled (OtherError ''TypeError'')))"

definition require_csrf_token :: "string \<Rightarrow> admin_session_model \<Rightarrow> unit reply" where
  "require_csrf_token csrf_token s =
     (case compare_digest csrf_token (as_csrf_token s) of
        Inl e \<Rightarrow> Inl e
      | Inr same \<Rightarrow> if \<not> same then Inl (Http 403 ''Invalid CSRF token'') else Inr ())"

definition hours :: "int \<Rightarrow> int" where
  "hours h = h * 3600000000"

text \<open>\<open>create_session_cookie_value\<close>; the two random tokens are arguments.\<close>

definition create_session ::
    "(string \<Rightarrow> string) \<Rightarrow> datetime \<Rightarrow> int \<Rightarrow> string \<Rightarrow> string \<Rightarrow> admin_user_model \<Rightarrow> access \<Rightarrow> access" where
  "create_session sha now ttl_hours raw_token csrf_token u ax =
     ax\<lparr>ax_sessions := ax_sessions ax @ [\<lparr>as_id = ax_next ax, as_admin_user_id = au_id u,
           as_token_hash = hash_token sha raw_token, as_csrf_token = csrf_token, as_created_at = now,
           as_expires_at = now + hours ttl_hours, as_last_used_at = None, as_revoked_at = None\<rparr>],
        ax_next := Suc (ax_next ax)\<rparr>"

text \<open>\<open>bcrypt.checkpw\<close> is a parameter; \<open>None\<close> stands for the \<open>ValueError\<close> of a malformed hash.\<close>

definition verify_password :: "(string \<Rightarrow> string \<Rightarrow> bool option) \<Rightarrow> string \<Rightarrow> string \<Rightarrow> bool" where
  "verify_password checkpw raw_password password_hash =
     (case checkpw raw_password password_hash of None \<Rightarrow> False | Some b \<Rightarrow> b)"

definition dummy_password_hash :: string where
  "dummy_password_hash = ''$2b$12$ev15/2dTsg7rjumEqNETB.Ziyprd5VPT5EeAIyk/PjNTtOEbu0zte''"

text \<open>A login answers with status 401 or with a cookie and its age in seconds.\<close>

definition login_submit ::
    "(string \<Rightarrow> string) \<Rightarrow> (string \<Rightarrow> string \<Rightarrow> bool option) \<Rightarrow> app_settings \<Rightarrow> datetime \<Rightarrow> string \<Rightarrow> string \<Rightarrow>
     string \<Rightarrow> string \<Rightarrow> access \<Rightarrow> (string \<times> int) option reply \<times> access" where
  "login_submit sha checkpw cfg now raw_token csrf_token username password ax =
     (case unique_row (\<lambda>u. au_username u = username) (ax_users ax) of
        Inl e \<Rightarrow> (Inl e, ax)
      | Inr found \<Rightarrow>
          (let password_hash = (case found of None \<Rightarrow> dummy_password_hash | Some u \<Rightarrow> au_password_hash u);
               password_ok = verify_password checkpw password password_hash
           in case found of
                None \<Rightarrow> (Inr None, ax)
              | Some u \<Rightarrow>
                  if \<not> au_is_active u \<or> \<not> password_ok then (Inr None, ax)
                  else
                    (let u = u\<lparr>au_last_login_at := Some now\<rparr>;
                         ttl = cfg_admin_session_ttl_hours cfg
                     in (Inr (Some (raw_token, ttl * 3600)),
                         create_session sha now ttl raw_token csrf_token u (put_user u ax)))))"

definition logout ::
    "(string \<Rightarrow> string) \<Rightarrow> datetime \<Rightarrow> string option \<Rightarrow> string \<Rightarrow> access \<Rightarrow> unit reply \<times> access" where
  "logout sha now cookie csrf_token ax =
     (case require_admin_session sha now cookie ax of
        Inl e \<Rightarrow> (Inl e, ax)
      | Inr (u, s, ax1) \<Rightarrow>
          (case require_csrf_token csrf_token s of
             Inl e \<Rightarrow> (Inl e, ax)
           | Inr _ \<Rightarrow> (Inr (), put_session (s\<lparr>as_revoked_at := Some now\<rparr>) ax1)))"
section \<open>The WHM bridge\<close>

record whm_request =
  wh_client_host :: "string option"
  wh_user :: string
  wh_timestamp :: string
  wh_signature :: string

record bridged_session =
  bs_session_token :: string
  bs_csrf_token :: string
  bs_expires_in :: int

definition whm_bridge_window :: int where
  "whm_bridge_window = 60"

text \<open>The difference of the float \<open>time.time()\<close> and an integer: the integer becomes a float first, which raises
  \<open>OverflowError\<close> when it rounds to \<open>2 ^ 1024\<close> or beyond.\<close>

definition float_overflows :: "int \<Rightarrow> bool" where
  "float_overflows n \<longleftrightarrow> 2 ^ 1024 - 2 ^ 970 \<le> \<bar>n\<bar>"

text \<open>The guards of \<open>create_whm_bridged_session\<close>. \<open>mac\<close> is the hexadecimal HMAC-SHA-256 of a text
  under a key; time counts microseconds.\<close>

definition whm_guard ::
    "(string \<Rightarrow> string \<Rightarrow> string) \<Rightarrow> app_settings \<Rightarrow> datetime \<Rightarrow> whm_request \<Rightarrow> unit reply" where
  "whm_guard mac cfg now r =
     (if \<not> (wh_client_host r = Some ''127.0.0.1'' \<or> wh_client_host r = Some ''::1'')
      then Inl (Http 403 ''Loopback only'')
      else if cfg_whm_plugin_shared_secret cfg = [] then Inl (Http 403 ''WHM plugin bridge is not configured'')
      else case py_int (wh_timestamp r) of
             None \<Rightarrow> Inl (Http 403 ''Invalid timestamp'')
           | Some timestamp \<Rightarrow>
               if float_overflows timestamp then Inl (Unhandled (OtherError ''OverflowError''))
               else if \<bar>now - timestamp * 1000000\<bar> > whm_bridge_window * 1000000 then Inl (Http 403 ''Stale request'')
               else
                 (case compare_digest (wh_signature r)
                         (mac (cfg_whm_plugin_shared_secret cfg) (wh_user r @ '':'' @ wh_timestamp r)) of
                    Inl e \<Rightarrow> Inl e
                  | Inr same \<Rightarrow> if \<not> same then Inl (Http 403 ''Invalid signature'') else Inr ()))"

definition whm_user_row :: "datetime \<Rightarrow> string \<Rightarrow> access \<Rightarrow> (admin_user_model \<times> access) reply" where
  "whm_user_row now bridged_username ax =
     (case unique_row (\<lambda>u. au_username u = bridged_username) (ax_users ax) of
        Inl e \<Rightarrow> Inl e
      | Inr None \<Rightarrow>
          (let u = \<lparr>au_id = ax_next ax, au_username = bridged_username, au_password_hash = dummy_password_hash,
                    au_is_active = True, au_created_at = now, au_last_login_at = None\<rparr>
           in Inr (u, ax\<lparr>ax_users := ax_users ax @ [u], ax_next := Suc (ax_next ax)\<rparr>))
      | Inr (Some u) \<Rightarrow>
          if \<not> au_is_active u then Inl (Http 403 ''WHM-bridged account is disabled'') else Inr (u, ax))"

definition create_whm_bridged_session ::
    "(string \<Rightarrow> string) \<Rightarrow> (string \<Rightarrow> string \<Rightarrow> string) \<Rightarrow> app_settings \<Rightarrow> datetime \<Rightarrow> string \<Rightarrow> string \<Rightarrow>
     whm_request \<Rightarrow> access \<Rightarrow> bridged_session reply \<times> access" where
  "create_whm_bridged_session sha mac cfg now raw_token csrf_token r ax =
     (case whm_guard mac cfg now r of
        Inl e \<Rightarrow> (Inl e, ax)
      | Inr _ \<Rightarrow>
          (case whm_user_row now (''whm:'' @ wh_user r) ax of
             Inl e \<Rightarrow> (Inl e, ax)
           | Inr (u, ax1) \<Rightarrow>
               (let u = u\<lparr>au_last_login_at := Some now\<rparr>; ttl = cfg_admin_session_ttl_hours cfg
                in (Inr \<lparr>bs_session_token = raw_token, bs_csrf_token = csrf_token, bs_expires_in = ttl * 3600\<rparr>,
                    create_session sha now ttl raw_token csrf_token u (put_user u ax1)))))"

section \<open>Sessions end\<close>

text \<open>The rows an access table may hold: identifiers, user names and token hashes are unique.\<close>

definition access_wf :: "access \<Rightarrow> bool" where
  "access_wf ax \<longleftrightarrow> distinct (map au_id (ax_users ax)) \<and> distinct (map au_username (ax_users ax)) \<and>
     distinct (map as_id (ax_sessions ax)) \<and> distinct (map as_token_hash (ax_sessions ax)) \<and>
     distinct (map ak_key_hash (ax_keys ax)) \<and>
     (\<forall>u \<in> set (ax_users ax). au_id u < ax_next ax) \<and> (\<forall>s \<in> set (ax_sessions ax). as_id s < ax_next ax)"

definition authorizes :: "(string \<Rightarrow> string) \<Rightarrow> datetime \<Rightarrow> string \<Rightarrow> access \<Rightarrow> bool" where
  "authorizes sha now raw_token ax \<longleftrightarrow> \<not> isl (require_admin_session sha now (Some raw_token) ax)"

lemma filter_unique:
  "distinct (map f xs) \<Longrightarrow> x \<in> set xs \<Longrightarrow> f x = k \<Longrightarrow> filter (\<lambda>x. f x = k) xs = [x]"
  by (induction xs) (auto simp: filter_empty_conv, metis imageI)

lemma unique_row_mem:
  assumes "distinct (map f xs)" "x \<in> set xs"
  shows "unique_row (\<lambda>y. f y = f x) xs = Inr (Some x)"
  by (simp add: unique_row_def scalar_one_or_none_def filter_unique [OF assms refl])

lemma unique_row_none: "k \<notin> f ` set xs \<Longrightarrow> unique_row (\<lambda>y. f y = k) xs = Inr None"
proof -
  assume "k \<notin> f ` set xs"
  then have "filter (\<lambda>y. f y = k) xs = []" by (auto simp: filter_empty_conv)
  then show ?thesis by (simp add: unique_row_def scalar_one_or_none_def)
qed

lemma unique_row_cases:
  assumes "distinct (map f xs)"
  shows "unique_row (\<lambda>y. f y = k) xs = Inr (find (\<lambda>y. f y = k) xs)"
proof (cases "k \<in> f ` set xs")
  case True
  then obtain x where x: "x \<in> set xs" "f x = k" by auto
  have "find (\<lambda>y. f y = k) xs = Some x"
    using assms x by (induction xs) (auto simp: image_iff)
  then show ?thesis using unique_row_mem [OF assms x(1)] x(2) by simp
next
  case False
  then have "find (\<lambda>y. f y = k) xs = None" by (auto simp: find_None_iff)
  then show ?thesis using unique_row_none [OF False] by simp
qed

text \<open>When a token lets a request in.\<close>

lemma authorizes_iff:
  assumes "distinct (map as_token_hash (ax_sessions ax))"
  shows "authorizes sha now raw ax \<longleftrightarrow>
    (case find (\<lambda>s. as_token_hash s = sha raw) (ax_sessions ax) of
       None \<Rightarrow> False
     | Some s \<Rightarrow> as_revoked_at s = None \<and> now < as_expires_at s \<and>
         map_option au_is_active (find (\<lambda>u. au_id u = as_admin_user_id s) (ax_users ax)) = Some True)"
  unfolding authorizes_def require_admin_session_def option.case hash_token_def unique_row_cases [OF assms] sum.case
  by (auto simp: Let_def split: option.split)

definition login_of :: "(string \<Rightarrow> string) \<Rightarrow> datetime \<Rightarrow> int \<Rightarrow> string \<Rightarrow> string \<Rightarrow> admin_user_model \<Rightarrow> access \<Rightarrow> access \<Rightarrow> bool" where
  "login_of sha now ttl raw csrf u ax ax' \<longleftrightarrow>
     ax' = create_session sha now ttl raw csrf (u\<lparr>au_last_login_at := Some now\<rparr>) (put_user (u\<lparr>au_last_login_at := Some now\<rparr>) ax)"

lemma find_append_miss: "find p xs = None \<Longrightarrow> find p (xs @ ys) = find p ys"
  by (induction xs) (auto split: if_splits)

lemma find_map_same: "(\<And>x. p (f x) = p x) \<Longrightarrow> find p (map f xs) = map_option f (find p xs)"
  by (induction xs) auto

lemma find_mem:
  assumes "distinct (map f xs)" "x \<in> set xs"
  shows "find (\<lambda>y. f y = f x) xs = Some x"
  using assms by (induction xs) (auto simp: image_iff)

lemma put_user_find:
  assumes "distinct (map au_id (ax_users ax))" "u \<in> set (ax_users ax)"
  shows "find (\<lambda>x. au_id x = au_id u) (ax_users (put_user (u\<lparr>au_last_login_at := t\<rparr>) ax)) = Some (u\<lparr>au_last_login_at := t\<rparr>)"
  using find_mem [OF assms]
  by (simp add: put_user_def find_map_same)

lemma put_user_active:
  assumes "distinct (map au_id (ax_users ax))" "u \<in> set (ax_users ax)"
  shows "map_option au_is_active (find (\<lambda>x. au_id x = i) (ax_users (put_user (u\<lparr>au_last_login_at := t\<rparr>) ax))) =
    map_option au_is_active (find (\<lambda>x. au_id x = i) (ax_users ax))"
proof -
  let ?g = "\<lambda>x. if au_id x = au_id u then u\<lparr>au_last_login_at := t\<rparr> else x"
  have e: "find (\<lambda>x. au_id x = i) (ax_users (put_user (u\<lparr>au_last_login_at := t\<rparr>) ax)) =
      map_option ?g (find (\<lambda>x. au_id x = i) (ax_users ax))"
    using find_map_same [where f = ?g and p = "\<lambda>x. au_id x = i" and xs = "ax_users ax"]
    by (simp add: put_user_def)
  show ?thesis
  proof (cases "find (\<lambda>x. au_id x = i) (ax_users ax)")
    case (Some x)
    then have x: "x \<in> set (ax_users ax)" by (auto dest: find_SomeD)
    have "x = u" if eq: "au_id x = au_id u"
      using trans [OF find_mem [OF assms(1) x, unfolded eq, symmetric] find_mem [OF assms]] by simp
    then show ?thesis unfolding e Some by auto
  qed (simp add: e)
qed

lemma login_authorizes:
  assumes wf: "access_wf ax" and u: "u \<in> set (ax_users ax)" "au_is_active u"
    and fresh: "sha raw \<notin> as_token_hash ` set (ax_sessions ax)"
    and ax': "login_of sha t0 ttl raw csrf u ax ax'"
  shows "authorizes sha now raw ax' \<longleftrightarrow> now < t0 + hours ttl"
    "sha raw' \<noteq> sha raw \<Longrightarrow> authorizes sha now raw' ax' \<longleftrightarrow> authorizes sha now raw' ax"
proof -
  let ?u = "u\<lparr>au_last_login_at := Some t0\<rparr>"
  have d: "distinct (map au_id (ax_users ax))" "distinct (map as_token_hash (ax_sessions ax))"
    using wf by (simp_all add: access_wf_def)
  have d': "distinct (map as_token_hash (ax_sessions ax'))"
    using ax' d(2) fresh by (simp add: login_of_def create_session_def put_user_def hash_token_def)
  have miss: "find (\<lambda>s. as_token_hash s = sha raw) (ax_sessions ax) = None"
    using fresh by (force simp: find_None_iff)
  show "authorizes sha now raw ax' \<longleftrightarrow> now < t0 + hours ttl"
    unfolding authorizes_iff [OF d'] using ax' miss put_user_find [OF d(1) u(1), of "Some t0"] u(2)
    by (simp add: login_of_def create_session_def find_append_miss put_user_def hash_token_def)
  assume other: "sha raw' \<noteq> sha raw"
  have same: "find (\<lambda>s. as_token_hash s = sha raw') (ax_sessions ax') = find (\<lambda>s. as_token_hash s = sha raw') (ax_sessions ax)"
  proof -
    have "find p (xs @ [y]) = find p xs" if "\<not> p y" for p and y :: admin_session_model and xs
      using that by (induction xs) auto
    then show ?thesis
      using ax' other by (simp add: login_of_def create_session_def put_user_def hash_token_def)
  qed
  have "ax_users ax' = ax_users (put_user ?u ax)"
    using ax' by (simp add: login_of_def create_session_def)
  then show "authorizes sha now raw' ax' \<longleftrightarrow> authorizes sha now raw' ax"
    unfolding authorizes_iff [OF d'] authorizes_iff [OF d(2)] same
    using put_user_active [OF d(1) u(1), of _ "Some t0"]
    by (simp cong: option.case_cong)
qed
text \<open>The new session, and what a logout does to it.\<close>

definition session_row :: "(string \<Rightarrow> string) \<Rightarrow> datetime \<Rightarrow> int \<Rightarrow> string \<Rightarrow> string \<Rightarrow> uuid \<Rightarrow> uuid \<Rightarrow> admin_session_model" where
  "session_row sha now ttl raw csrf user i =
     \<lparr>as_id = i, as_admin_user_id = user, as_token_hash = sha raw, as_csrf_token = csrf, as_created_at = now,
      as_expires_at = now + hours ttl, as_last_used_at = None, as_revoked_at = None\<rparr>"

lemma login_sessions:
  "login_of sha now ttl raw csrf u ax ax' \<Longrightarrow>
     ax_sessions ax' = ax_sessions ax @ [session_row sha now ttl raw csrf (au_id u) (ax_next ax)]"
  by (simp add: login_of_def create_session_def put_user_def session_row_def hash_token_def)

lemma put_session_last:
  assumes "ax_sessions ax = ss @ [s1]" "\<forall>s \<in> set ss. as_id s \<noteq> as_id s'" "as_id s1 = as_id s'"
  shows "ax_sessions (put_session s' ax) = ss @ [s']"
  using assms by (auto simp: put_session_def intro: map_idI)

lemma logout_revokes:
  assumes wf: "access_wf ax" and u: "u \<in> set (ax_users ax)" "au_is_active u"
    and fresh: "sha raw \<notin> as_token_hash ` set (ax_sessions ax)"
    and ax': "login_of sha t0 ttl raw csrf u ax ax'" and t1: "t1 < t0 + hours ttl"
    and ascii: "is_ascii csrf"
  shows "\<exists>ax2. logout sha t1 (Some raw) csrf ax' = (Inr (), ax2) \<and> (\<forall>now. \<not> authorizes sha now raw ax2)"
    "csrf' \<noteq> csrf \<Longrightarrow> logout sha t1 (Some raw) csrf' ax' =
       (Inl (if is_ascii csrf' then Http 403 ''Invalid CSRF token'' else Unhandled (OtherError ''TypeError'')), ax')"
proof -
  let ?s = "session_row sha t0 ttl raw csrf (au_id u) (ax_next ax)"
  let ?s1 = "?s\<lparr>as_last_used_at := Some t1\<rparr>"
  let ?s2 = "?s1\<lparr>as_revoked_at := Some t1\<rparr>"
  note ss = login_sessions [OF ax']
  have d: "distinct (map as_token_hash (ax_sessions ax))" "distinct (map au_id (ax_users ax))"
    "\<forall>s \<in> set (ax_sessions ax). as_id s \<noteq> ax_next ax"
    using wf by (auto simp: access_wf_def)
  have d': "distinct (map as_token_hash (ax_sessions ax'))"
    using d(1) fresh by (simp add: ss session_row_def)
  have miss: "find (\<lambda>s. as_token_hash s = sha raw) (ax_sessions ax) = None"
    using fresh by (force simp: find_None_iff)
  have row: "unique_row (\<lambda>s. as_token_hash s = hash_token sha raw) (ax_sessions ax') = Inr (Some ?s)"
    using unique_row_mem [OF d', of ?s] by (simp add: ss hash_token_def session_row_def)
  have user: "find (\<lambda>x. au_id x = au_id u) (ax_users ax') = Some (u\<lparr>au_last_login_at := Some t0\<rparr>)"
    using put_user_find [OF d(2) u(1), of "Some t0"] ax' by (simp add: login_of_def create_session_def)
  have "as_revoked_at ?s = None" "t1 < as_expires_at ?s" "as_admin_user_id ?s = au_id u"
    using t1 by (simp_all add: session_row_def)
  then have req: "require_admin_session sha t1 (Some raw) ax' = Inr (u\<lparr>au_last_login_at := Some t0\<rparr>, ?s1, put_session ?s1 ax')"
    unfolding require_admin_session_def option.case row sum.case
    using u(2) by (simp add: user Let_def)
  have csrf: "as_csrf_token ?s1 = csrf" by (simp add: session_row_def)
  show "csrf' \<noteq> csrf \<Longrightarrow> logout sha t1 (Some raw) csrf' ax' =
       (Inl (if is_ascii csrf' then Http 403 ''Invalid CSRF token'' else Unhandled (OtherError ''TypeError'')), ax')"
    by (simp add: logout_def req require_csrf_token_def csrf compare_digest_def ascii)
  let ?ax2 = "put_session ?s2 (put_session ?s1 ax')"
  have s1: "as_id ?s1 = ax_next ax" "as_id ?s2 = ax_next ax" by (simp_all add: session_row_def)
  have "ax_sessions ?ax2 = ax_sessions ax @ [?s2]"
    using d(3) s1 by (intro put_session_last [OF put_session_last [OF ss]]) (simp_all add: session_row_def)
  then have "find (\<lambda>s. as_token_hash s = sha raw) (ax_sessions ?ax2) = Some ?s2"
    "distinct (map as_token_hash (ax_sessions ?ax2))"
    using miss d(1) fresh by (simp_all add: find_append_miss session_row_def)
  then have "\<not> authorizes sha now raw ?ax2" for now
    by (simp add: authorizes_iff)
  then show "\<exists>ax2. logout sha t1 (Some raw) csrf ax' = (Inr (), ax2) \<and> (\<forall>now. \<not> authorizes sha now raw ax2)"
    by (intro exI [of _ ?ax2]) (simp add: logout_def req require_csrf_token_def csrf compare_digest_def ascii)
qed

lemma login_success:
  assumes "access_wf ax" "login_submit sha checkpw cfg t0 raw csrf username password ax = (Inr (Some (tok, age)), ax')"
  shows "\<exists>u \<in> set (ax_users ax). au_username u = username \<and> au_is_active u \<and>
    checkpw password (au_password_hash u) = Some True \<and>
    login_of sha t0 (cfg_admin_session_ttl_hours cfg) raw csrf u ax ax' \<and>
    tok = raw \<and> age = cfg_admin_session_ttl_hours cfg * 3600"
proof -
  have d: "distinct (map au_username (ax_users ax))" using assms(1) by (simp add: access_wf_def)
  show ?thesis
    using assms(2) unfolding login_submit_def unique_row_cases [OF d] sum.case
    by (auto simp: Let_def login_of_def verify_password_def split: option.splits if_splits dest!: find_SomeD)
qed

section \<open>Properties\<close>

text \<open>C30. A login succeeds only for an active user whose stored hash matches the password. Its cookie
  then lets requests in until the configured number of hours has passed and no longer, without
  changing what any other cookie can do; a logout with the CSRF token of the session ends it for
  good, and a logout with another token is refused and changes nothing: with status 403, or, if the token has
  a character that is not ASCII, with the \<open>TypeError\<close> of the comparison. (The tokens the program makes are
  ASCII: \<open>secrets.token_urlsafe\<close>.)\<close>

theorem session_life:
  assumes "access_wf ax" "sha raw \<notin> as_token_hash ` set (ax_sessions ax)" "is_ascii csrf"
    and "login_submit sha checkpw cfg t0 raw csrf username password ax = (Inr (Some (tok, age)), ax1)"
  shows "tok = raw \<and> age = cfg_admin_session_ttl_hours cfg * 3600 \<and>
    (\<exists>u \<in> set (ax_users ax). au_username u = username \<and> au_is_active u \<and> checkpw password (au_password_hash u) = Some True) \<and>
    (\<forall>now. authorizes sha now raw ax1 \<longleftrightarrow> now < t0 + hours (cfg_admin_session_ttl_hours cfg)) \<and>
    (\<forall>now raw'. sha raw' \<noteq> sha raw \<longrightarrow> authorizes sha now raw' ax1 = authorizes sha now raw' ax) \<and>
    (\<forall>t1 < t0 + hours (cfg_admin_session_ttl_hours cfg).
       (\<exists>ax2. logout sha t1 (Some raw) csrf ax1 = (Inr (), ax2) \<and> (\<forall>now. \<not> authorizes sha now raw ax2)) \<and>
       (\<forall>csrf'. csrf' \<noteq> csrf \<longrightarrow> logout sha t1 (Some raw) csrf' ax1 =
          (Inl (if is_ascii csrf' then Http 403 ''Invalid CSRF token'' else Unhandled (OtherError ''TypeError'')), ax1)))"
proof -
  obtain u where u: "u \<in> set (ax_users ax)" "au_username u = username" "au_is_active u"
      "checkpw password (au_password_hash u) = Some True"
    and login: "login_of sha t0 (cfg_admin_session_ttl_hours cfg) raw csrf u ax ax1"
    and tok: "tok = raw" "age = cfg_admin_session_ttl_hours cfg * 3600"
    using login_success [OF assms(1,4)] by blast
  note auth = login_authorizes [OF assms(1) u(1,3) assms(2) login]
  note out = logout_revokes [OF assms(1) u(1,3) assms(2) login _ assms(3)]
  show ?thesis
    using u tok auth out by blast
qed

definition demo_access :: access where
  "demo_access = \<lparr>ax_keys = [], ax_users = [\<lparr>au_id = 0, au_username = ''admin'', au_password_hash = ''h'',
     au_is_active = True, au_created_at = 0, au_last_login_at = None\<rparr>], ax_sessions = [], ax_next = 1\<rparr>"

definition demo_checkpw :: "string \<Rightarrow> string \<Rightarrow> bool option" where
  "demo_checkpw p h = Some (p = ''secret'' \<and> h = ''h'')"

theorem session_life_witness:
  "\<exists>ax1. login_submit id demo_checkpw default_settings 0 ''tok'' ''csrf'' ''admin'' ''secret'' demo_access =
      (Inr (Some (''tok'', 43200)), ax1) \<and>
    authorizes id 1000 ''tok'' ax1 \<and> \<not> authorizes id 43200000000 ''tok'' ax1"
proof -
  have wf: "access_wf demo_access" by (simp add: access_wf_def demo_access_def)
  have fresh: "id ''tok'' \<notin> as_token_hash ` set (ax_sessions demo_access)" by (simp add: demo_access_def)
  obtain ax1 where l: "login_submit id demo_checkpw default_settings 0 ''tok'' ''csrf'' ''admin'' ''secret'' demo_access =
      (Inr (Some (''tok'', 43200)), ax1)"
    by (simp add: login_submit_def unique_row_def scalar_one_or_none_def demo_access_def demo_checkpw_def
        verify_password_def default_settings_def Let_def)
  have "is_ascii ''csrf''" by code_simp
  from session_life [OF wf fresh this l] have
    "authorizes id 1000 ''tok'' ax1 \<and> \<not> authorizes id 43200000000 ''tok'' ax1"
    by (simp add: default_settings_def hours_def)
  with l show ?thesis by blast
qed

lemma whm_user_row_found:
  assumes "access_wf ax" "whm_user_row now name ax = Inr (u, ax1)"
  shows "access_wf ax1 \<and> u \<in> set (ax_users ax1) \<and> au_username u = name \<and> au_is_active u"
proof -
  have d: "distinct (map au_username (ax_users ax))" using assms(1) by (simp add: access_wf_def)
  show ?thesis
  proof (cases "find (\<lambda>u. au_username u = name) (ax_users ax)")
    case None
    then have "name \<notin> au_username ` set (ax_users ax)" by (auto simp: find_None_iff)
    moreover have "ax_next ax \<notin> au_id ` set (ax_users ax)" using assms(1) by (auto simp: access_wf_def)
    ultimately show ?thesis
      using assms None unfolding whm_user_row_def unique_row_cases [OF d]
      by (auto simp: Let_def access_wf_def less_Suc_eq)
  next
    case (Some v)
    then show ?thesis
      using assms unfolding whm_user_row_def unique_row_cases [OF d]
      by (auto split: if_splits dest: find_SomeD)
  qed
qed

lemma put_user_wf:
  assumes "access_wf ax" "u \<in> set (ax_users ax)"
  shows "access_wf (put_user (u\<lparr>au_last_login_at := t\<rparr>) ax)"
proof -
  let ?g = "\<lambda>x. if au_id x = au_id u then u\<lparr>au_last_login_at := t\<rparr> else x"
  have d: "distinct (map au_id (ax_users ax))" using assms(1) by (simp add: access_wf_def)
  have "x = u" if "x \<in> set (ax_users ax)" "au_id x = au_id u" for x
    using d that assms(2) by (auto simp: distinct_map inj_on_def)
  then have names: "map au_username (ax_users (put_user (u\<lparr>au_last_login_at := t\<rparr>) ax)) = map au_username (ax_users ax)"
    and ids: "map au_id (ax_users (put_user (u\<lparr>au_last_login_at := t\<rparr>) ax)) = map au_id (ax_users ax)"
    unfolding put_user_def by (auto intro!: map_cong)
  have "list_all (\<lambda>i. i < ax_next ax) (map au_id (ax_users ax))"
    using assms(1) by (simp add: access_wf_def list_all_iff)
  then have "\<forall>x \<in> set (ax_users (put_user (u\<lparr>au_last_login_at := t\<rparr>) ax)). au_id x < ax_next ax"
    unfolding ids [symmetric] by (simp add: list_all_iff)
  then show ?thesis
    using assms(1) unfolding access_wf_def names ids by (simp add: put_user_def)
qed

text \<open>When the guards let a call through, given a signature function that gives ASCII text.\<close>

definition whm_accepted :: "(string \<Rightarrow> string \<Rightarrow> string) \<Rightarrow> app_settings \<Rightarrow> datetime \<Rightarrow> whm_request \<Rightarrow> bool" where
  "whm_accepted mac cfg now r \<longleftrightarrow>
     wh_client_host r \<in> {Some ''127.0.0.1'', Some ''::1''} \<and> cfg_whm_plugin_shared_secret cfg \<noteq> [] \<and>
     (\<exists>ts. py_int (wh_timestamp r) = Some ts \<and> \<not> float_overflows ts \<and> \<bar>now - ts * 1000000\<bar> \<le> 60000000) \<and>
     wh_signature r = mac (cfg_whm_plugin_shared_secret cfg) (wh_user r @ '':'' @ wh_timestamp r)"

lemma whm_guard_iff:
  assumes "\<And>k t. is_ascii (mac k t)"
  shows "whm_guard mac cfg now r = Inr () \<longleftrightarrow> whm_accepted mac cfg now r"
  using assms by (auto simp: whm_guard_def whm_accepted_def whm_bridge_window_def compare_digest_def split: option.splits)

lemma whm_user_row_ok:
  assumes "access_wf ax"
  shows "(\<exists>u ax1. whm_user_row now name ax = Inr (u, ax1)) \<longleftrightarrow>
    (\<forall>u \<in> set (ax_users ax). au_username u = name \<longrightarrow> au_is_active u)"
proof -
  have d: "distinct (map au_username (ax_users ax))" using assms by (simp add: access_wf_def)
  show ?thesis
  proof (cases "find (\<lambda>u. au_username u = name) (ax_users ax)")
    case None
    then have "\<forall>u \<in> set (ax_users ax). au_username u \<noteq> name" by (auto simp: find_None_iff)
    then show ?thesis unfolding whm_user_row_def unique_row_cases [OF d] None by (auto simp: Let_def)
  next
    case (Some v)
    then have v: "v \<in> set (ax_users ax)" "au_username v = name" by (auto dest: find_SomeD)
    have "u = v" if "u \<in> set (ax_users ax)" "au_username u = name" for u
      using find_mem [OF d that(1)] Some that(2) by simp
    then have "(\<forall>u \<in> set (ax_users ax). au_username u = name \<longrightarrow> au_is_active u) \<longleftrightarrow> au_is_active v"
      using v by blast
    then show ?thesis unfolding whm_user_row_def unique_row_cases [OF d] Some by simp
  qed
qed

text \<open>C31. The WHM bridge mints a session exactly for a call over loopback, with a configured secret, a
  timestamp at most a minute away and the right signature over user and timestamp, whose user \<open>whm:\<close> followed by
  that name, if there already is one, is active; any other call changes nothing. The session minted belongs to
  that user. Nothing makes a signed request usable once only: sent again while its timestamp is still accepted
  it mints another session.\<close>

theorem whm_bridge_guard:
  assumes "access_wf ax" "\<And>k t. is_ascii (mac k t)"
    and "create_whm_bridged_session sha mac cfg now raw csrf r ax = (b, ax')"
  shows "(\<not> isl b \<longleftrightarrow> whm_accepted mac cfg now r \<and>
      (\<forall>u \<in> set (ax_users ax). au_username u = ''whm:'' @ wh_user r \<longrightarrow> au_is_active u)) \<and>
    (isl b \<longrightarrow> ax' = ax) \<and>
    (\<not> isl b \<longrightarrow> (\<exists>u \<in> set (ax_users ax'). au_username u = ''whm:'' @ wh_user r \<and> au_is_active u \<and>
       (\<exists>s \<in> set (ax_sessions ax'). as_token_hash s = sha raw \<and> as_admin_user_id s = au_id u)) \<and>
     (\<forall>now' raw' csrf'. whm_accepted mac cfg now' r \<longrightarrow>
       (\<exists>b' ax''. create_whm_bridged_session sha mac cfg now' raw' csrf' r ax' = (Inr b', ax''))))"
proof (cases "\<exists>u ax1. whm_guard mac cfg now r = Inr () \<and> whm_user_row now (''whm:'' @ wh_user r) ax = Inr (u, ax1)")
  case False
  then have "isl b" "ax' = ax"
    using assms(3) by (auto simp: create_whm_bridged_session_def Let_def split: sum.splits)
  moreover have "\<not> (whm_accepted mac cfg now r \<and>
      (\<forall>u \<in> set (ax_users ax). au_username u = ''whm:'' @ wh_user r \<longrightarrow> au_is_active u))"
    using False unfolding whm_guard_iff [of mac, OF assms(2), symmetric]
    using whm_user_row_ok [OF assms(1), of now "''whm:'' @ wh_user r"] by blast
  ultimately show ?thesis by blast
next
  case True
  then obtain u ax1 where guard: "whm_guard mac cfg now r = Inr ()"
    and user: "whm_user_row now (''whm:'' @ wh_user r) ax = Inr (u, ax1)" by blast
  have b: "\<not> isl b"
    and ax': "ax' = create_session sha now (cfg_admin_session_ttl_hours cfg) raw csrf (u\<lparr>au_last_login_at := Some now\<rparr>)
      (put_user (u\<lparr>au_last_login_at := Some now\<rparr>) ax1)"
    using assms(3) guard user by (auto simp: create_whm_bridged_session_def Let_def)
  note u = whm_user_row_found [OF assms(1) user]
  let ?u = "u\<lparr>au_last_login_at := Some now\<rparr>"
  have users: "ax_users ax' = ax_users (put_user ?u ax1)" by (simp add: ax' create_session_def)
  have mem: "?u \<in> set (ax_users ax')"
    using u unfolding users put_user_def by (auto intro!: image_eqI [of _ _ u])
  have "distinct (map au_username (ax_users ax'))"
    using put_user_wf [of ax1 u "Some now"] u unfolding users by (simp add: access_wf_def)
  from unique_row_mem [OF this mem] have
    row: "unique_row (\<lambda>x. au_username x = ''whm:'' @ wh_user r) (ax_users ax') = Inr (Some ?u)"
    using u by simp
  have row': "whm_user_row now' (''whm:'' @ wh_user r) ax' = Inr (?u, ax')" for now'
    unfolding whm_user_row_def row using u by simp
  have again: "\<exists>b' ax''. create_whm_bridged_session sha mac cfg now' raw' csrf' r ax' = (Inr b', ax'')"
    if "whm_accepted mac cfg now' r" for now' raw' csrf'
  proof -
    have g: "whm_guard mac cfg now' r = Inr ()" using that whm_guard_iff [of mac, OF assms(2)] by blast
    show ?thesis unfolding create_whm_bridged_session_def g row' sum.case by (simp add: Let_def)
  qed
  have "session_row sha now (cfg_admin_session_ttl_hours cfg) raw csrf (au_id u) (ax_next ax1) \<in> set (ax_sessions ax')"
    by (simp add: ax' create_session_def session_row_def hash_token_def put_user_def)
  then have s: "\<exists>s \<in> set (ax_sessions ax'). as_token_hash s = sha raw \<and> as_admin_user_id s = au_id ?u"
    by (intro bexI) (simp_all add: session_row_def)
  have "whm_accepted mac cfg now r" using guard whm_guard_iff [of mac, OF assms(2)] by blast
  moreover have "\<forall>u \<in> set (ax_users ax). au_username u = ''whm:'' @ wh_user r \<longrightarrow> au_is_active u"
    using user whm_user_row_ok [OF assms(1)] by blast
  moreover have "au_username ?u = ''whm:'' @ wh_user r" "au_is_active ?u" using u by simp_all
  ultimately show ?thesis using b mem s again by blast
qed

definition demo_mac :: "string \<Rightarrow> string \<Rightarrow> string" where
  "demo_mac key msg = (if is_ascii (key @ msg) then key @ msg else [])"

definition demo_whm_request :: whm_request where
  "demo_whm_request = \<lparr>wh_client_host = Some ''127.0.0.1'', wh_user = ''root'', wh_timestamp = ''100'',
     wh_signature = ''kroot:100''\<rparr>"

theorem whm_bridge_guard_witness:
  "\<exists>b ax1 b' ax2. create_whm_bridged_session id demo_mac (default_settings\<lparr>cfg_whm_plugin_shared_secret := ''k''\<rparr>)
       100000000 ''t'' ''c'' demo_whm_request demo_access = (Inr b, ax1) \<and>
     create_whm_bridged_session id demo_mac (default_settings\<lparr>cfg_whm_plugin_shared_secret := ''k''\<rparr>)
       100000000 ''t2'' ''c2'' demo_whm_request ax1 = (Inr b', ax2) \<and>
     isl (fst (create_whm_bridged_session id demo_mac (default_settings\<lparr>cfg_whm_plugin_shared_secret := ''k''\<rparr>)
       160000001 ''t2'' ''c2'' demo_whm_request ax1))"
proof -
  let ?cfg = "default_settings\<lparr>cfg_whm_plugin_shared_secret := ''k''\<rparr>"
  have wf: "access_wf demo_access" by (simp add: access_wf_def demo_access_def)
  have ascii: "is_ascii (demo_mac k t)" for k t by (simp add: demo_mac_def is_ascii_def)
  have ts: "py_int ''100'' = Some 100" by code_simp
  have mac: "demo_mac ''k'' ''root:100'' = ''kroot:100''" by code_simp
  have a: "whm_accepted demo_mac ?cfg 100000000 demo_whm_request"
    using mac by (simp add: whm_accepted_def demo_whm_request_def ts default_settings_def float_overflows_def)
  obtain b0 ax1 where l: "create_whm_bridged_session id demo_mac ?cfg 100000000 ''t'' ''c'' demo_whm_request demo_access = (b0, ax1)"
    by (metis surj_pair)
  note one = whm_bridge_guard [OF wf ascii l]
  have "\<not> isl b0" using one a by (simp add: demo_access_def)
  then obtain b where b: "b0 = Inr b" by (cases b0) auto
  have late: "\<not> whm_accepted demo_mac ?cfg 160000001 demo_whm_request"
    by (simp add: whm_accepted_def demo_whm_request_def ts)
  then have "isl (fst (create_whm_bridged_session id demo_mac ?cfg 160000001 ''t2'' ''c2'' demo_whm_request ax1))"
    unfolding whm_guard_iff [of demo_mac, OF ascii, symmetric]
    by (auto simp: create_whm_bridged_session_def split: sum.split)
  with one \<open>\<not> isl b0\<close> l b show ?thesis by blast
qed

text \<open>C32. A request passes \<open>require_api_key\<close> exactly when it carries a bearer token whose hash is
  that of an active stored key. The expiry date a key can have is not looked at: a key stays valid
  whatever its \<open>expires_at\<close>.\<close>

theorem api_key_gate:
  assumes "distinct (map ak_key_hash (ax_keys ax))"
  shows "((\<exists>k. require_api_key sha header ax = Inr k) \<longleftrightarrow>
      (\<exists>h. header = Some h \<and> str_startswith h ''Bearer '' \<and>
         (\<exists>k \<in> set (ax_keys ax). ak_is_active k \<and> ak_key_hash k = sha (str_strip (drop 7 h))))) \<and>
    ((\<exists>k. require_api_key sha header (ax\<lparr>ax_keys := map (\<lambda>k. k\<lparr>ak_expires_at := e\<rparr>) (ax_keys ax)\<rparr>) = Inr k) \<longleftrightarrow>
      (\<exists>k. require_api_key sha header ax = Inr k))"
proof -
  have one: "filter (\<lambda>k. ak_key_hash k = x \<and> ak_is_active k) ks = [] \<or>
      (\<exists>k. filter (\<lambda>k. ak_key_hash k = x \<and> ak_is_active k) ks = [k])" if "distinct (map ak_key_hash ks)" for x ks
    using that by (induction ks) (auto simp: filter_empty_conv image_iff)
  have iff: "(\<exists>k. require_api_key sha header bx = Inr k) \<longleftrightarrow>
      (\<exists>h. header = Some h \<and> str_startswith h ''Bearer '' \<and>
         (\<exists>k \<in> set (ax_keys bx). ak_is_active k \<and> ak_key_hash k = sha (str_strip (drop 7 h))))"
    if "distinct (map ak_key_hash (ax_keys bx))" for bx
  proof -
    have "\<exists>r. unique_row (\<lambda>k. ak_key_hash k = x \<and> ak_is_active k) (ax_keys bx) = Inr r \<and>
        (r \<noteq> None \<longleftrightarrow> (\<exists>k \<in> set (ax_keys bx). ak_is_active k \<and> ak_key_hash k = x))" for x
    proof -
      let ?p = "\<lambda>k. ak_key_hash k = x \<and> ak_is_active k"
      have mem: "set (filter ?p (ax_keys bx)) = {k \<in> set (ax_keys bx). ?p k}" by simp
      from one [OF that, of x] show ?thesis
      proof
        assume "filter ?p (ax_keys bx) = []"
        then show ?thesis using mem by (auto simp: unique_row_def scalar_one_or_none_def)
      next
        assume "\<exists>k. filter ?p (ax_keys bx) = [k]"
        then obtain k where k: "filter ?p (ax_keys bx) = [k]" by blast
        then have "k \<in> set (filter ?p (ax_keys bx))" by simp
        then have "k \<in> {k \<in> set (ax_keys bx). ?p k}" unfolding mem .
        then show ?thesis using k by (auto simp: unique_row_def scalar_one_or_none_def)
      qed
    qed
    note u = this
    show ?thesis
    proof (cases header)
      case (Some h)
      obtain r where r: "unique_row (\<lambda>k. ak_key_hash k = sha (str_strip (drop 7 h)) \<and> ak_is_active k) (ax_keys bx) = Inr r"
        "r \<noteq> None \<longleftrightarrow> (\<exists>k \<in> set (ax_keys bx). ak_is_active k \<and> ak_key_hash k = sha (str_strip (drop 7 h)))"
        using u by blast
      show ?thesis
        unfolding require_api_key_def Some option.case Let_def r(1) sum.case using r(2)
        by (cases "str_startswith h ''Bearer ''"; cases r) auto
    qed (simp add: require_api_key_def)
  qed
  have "distinct (map ak_key_hash (map (\<lambda>k. k\<lparr>ak_expires_at := e\<rparr>) (ax_keys ax)))"
    using assms by (simp add: comp_def)
  then show ?thesis
    using iff [OF assms] iff [of "ax\<lparr>ax_keys := map (\<lambda>k. k\<lparr>ak_expires_at := e\<rparr>) (ax_keys ax)\<rparr>"] by auto
qed

theorem api_key_gate_witness:
  "(\<exists>k. require_api_key id (Some ''Bearer k1 '') (create_api_key id 0 ''cli'' ''k1'' demo_access) = Inr k)"
proof -
  have d: "distinct (map ak_key_hash (ax_keys (create_api_key id 0 ''cli'' ''k1'' demo_access)))"
    by (simp add: create_api_key_def demo_access_def)
  have s: "str_strip '' k1 '' = ''k1''" "str_startswith ''Bearer k1 '' ''Bearer ''" by code_simp+
  show ?thesis
    using api_key_gate [OF d, of id "Some ''Bearer k1 ''" None] s by (auto simp: create_api_key_def demo_access_def) (simp add: str_strip_def)
qed

end
