(* ===== verification/Core_Checksums.thy ===== *)
theory Core_Checksums
  imports Good_Database
begin

text \<open>
  Two single-purpose use cases an operator triggers through the API:
  \<open>AcknowledgeIntegrityFindingUseCase\<close> (\<open>application/integrity/queries.py\<close>) and
  \<open>VerifyCoreChecksumsUseCase\<close> (\<open>application/wordpress/integrity/checksum_use_cases.py\<close>). The
  client of the WordPress.org checksums service is a parameter: a function from a version to the
  dictionary the service answers (an association list with distinct keys) or the error of the
  request.
\<close>

section \<open>Reviewing a finding\<close>

definition acknowledge_finding :: "datetime \<Rightarrow> uuid \<Rightarrow> db \<Rightarrow> integrity_finding res \<times> db" where
  "acknowledge_finding now i d =
     (case load_finding i d of
        Inl e \<Rightarrow> (Inl e, d)
      | Inr f \<Rightarrow> (let f = acknowledge now f in (Inr f, save_finding f d)))"

section \<open>Verifying core files\<close>

datatype core_file_status = CF_MATCH | CF_MISMATCH | CF_UNKNOWN | CF_NOT_TRACKED

record core_file_verification =
  cv_relative_path :: string
  cv_status :: core_file_status
  cv_expected :: "string option"
  cv_actual :: "string option"

fun cache_checksums :: "datetime \<Rightarrow> string \<Rightarrow> (string \<times> string) list \<Rightarrow> db \<Rightarrow> db" where
  "cache_checksums now version [] d = d"
| "cache_checksums now version ((path, digest) # rest) d =
     (let (i, d) = uuid4 d
      in cache_checksums now version rest
           (d\<lparr>tb_checksums := tbl_add
               \<lparr>eid = i, created_at = now, updated_at = now, cs_wp_version = version,
                cs_relative_path = path, cs_sha256 = digest, cs_fetched_at = now\<rparr> (tb_checksums d)\<rparr>))"

definition ensure_checksums_cached ::
    "(string \<Rightarrow> (string \<times> string) list res) \<Rightarrow> datetime \<Rightarrow> string \<Rightarrow> db \<Rightarrow> unit res \<times> db" where
  "ensure_checksums_cached fetch now version d =
     (if checksums_has_version version d then (Inr (), d)
      else case fetch version of
             Inl e \<Rightarrow> (Inl e, d)
           | Inr fetched \<Rightarrow> (Inr (), cache_checksums now version fetched d))"

definition verify_path :: "string \<Rightarrow> uuid \<Rightarrow> db \<Rightarrow> string \<Rightarrow> core_file_verification res" where
  "verify_path version account d path =
     (case relative_file_path path of
        Inl e \<Rightarrow> Inl e
      | Inr rel \<Rightarrow>
          (let record = checksum_get version path d;
               actual = (case baseline_get_by_account_and_path account rel d of
                           None \<Rightarrow> None
                         | Some b \<Rightarrow> if fb_is_active b then Some (sha_value (fb_sha256 b)) else None);
               status = (case record of
                           None \<Rightarrow> CF_NOT_TRACKED
                         | Some c \<Rightarrow>
                             (case actual of
                                None \<Rightarrow> CF_UNKNOWN
                              | Some h \<Rightarrow> if h = cs_sha256 c then CF_MATCH else CF_MISMATCH))
           in Inr \<lparr>cv_relative_path = path, cv_status = status,
                   cv_expected = map_option cs_sha256 record, cv_actual = actual\<rparr>))"

definition verify_core_checksums ::
    "(string \<Rightarrow> (string \<times> string) list res) \<Rightarrow> string list \<Rightarrow> datetime \<Rightarrow> uuid \<Rightarrow> db \<Rightarrow>
     core_file_verification list res \<times> db" where
  "verify_core_checksums fetch critical now i d =
     (case tbl_get i (tb_installations d) of
        None \<Rightarrow> (Inl (EntityNotFoundError ''WordPressInstallation'' i), d)
      | Some w \<Rightarrow>
          (case wi_wp_version w of
             None \<Rightarrow> (Inr (map (\<lambda>p. \<lparr>cv_relative_path = p, cv_status = CF_UNKNOWN, cv_expected = None,
                                        cv_actual = None\<rparr>) critical), d)
           | Some version \<Rightarrow>
               (case ensure_checksums_cached fetch now version d of
                  (Inl e, d) \<Rightarrow> (Inl e, d)
                | (Inr _, d) \<Rightarrow> (map_res (verify_path version (wi_account_id w) d) critical, d))))"

section \<open>The cache\<close>

abbreviation checksum_key :: "core_checksum_record \<Rightarrow> string \<times> string" where
  "checksum_key c \<equiv> (cs_wp_version c, cs_relative_path c)"

definition cached :: "string \<Rightarrow> (string \<times> string) list \<Rightarrow> core_checksum_record list \<Rightarrow> bool" where
  "cached version fetched t \<longleftrightarrow> map (\<lambda>c. (cs_wp_version c, cs_relative_path c, cs_sha256 c)) t =
     map (\<lambda>(p, s). (version, p, s)) fetched"

lemma cache_checksums_eq:
  "\<exists>t n. cache_checksums now version fetched d = d\<lparr>tb_checksums := tb_checksums d @ t, next_uuid := n\<rparr> \<and>
     cached version fetched t \<and> n = next_uuid d + length fetched"
proof (induction fetched arbitrary: d)
  case Nil
  show ?case by (intro exI [of _ "[]"]) (simp add: cached_def)
next
  case (Cons x fetched)
  obtain p s where x: "x = (p, s)" by (cases x)
  let ?c = "\<lparr>eid = next_uuid d, created_at = now, updated_at = now, cs_wp_version = version,
    cs_relative_path = p, cs_sha256 = s, cs_fetched_at = now\<rparr>"
  let ?d = "d\<lparr>next_uuid := Suc (next_uuid d), tb_checksums := tbl_add ?c (tb_checksums d)\<rparr>"
  obtain t n where t: "cache_checksums now version fetched ?d = ?d\<lparr>tb_checksums := tb_checksums ?d @ t, next_uuid := n\<rparr>"
    "cached version fetched t" "n = next_uuid ?d + length fetched"
    using Cons [of ?d] by blast
  then show ?case
    by (intro exI [of _ "?c # t"] exI [of _ n]) (simp add: x uuid4_def tbl_add_def cached_def)
qed

lemma find_cached:
  "cached version fetched t \<Longrightarrow>
   map_option cs_sha256 (find (\<lambda>c. cs_wp_version c = version \<and> cs_relative_path c = p) t) = map_of fetched p"
proof (induction fetched arbitrary: t)
  case (Cons x fetched)
  then show ?case by (cases t; cases x) (auto simp: cached_def)
qed (simp add: cached_def)

lemma find_cached_other:
  "\<not> checksums_has_version version d \<Longrightarrow> find (\<lambda>c. cs_wp_version c = version \<and> P c) (tb_checksums d) = None"
  by (auto simp: checksums_has_version_def checksums_by_version_def find_None_iff filter_empty_conv)

section \<open>What a verification reports\<close>

text \<open>The hash of the active baseline of a path.\<close>

definition active_hash :: "db \<Rightarrow> uuid \<Rightarrow> string \<Rightarrow> string option" where
  "active_hash d account p =
     (case find (\<lambda>b. fb_account_id b = account \<and> rel_value (fb_relative_path b) = p) (tb_baselines d) of
        None \<Rightarrow> None
      | Some b \<Rightarrow> if fb_is_active b then Some (sha_value (fb_sha256 b)) else None)"

definition core_report :: "(string \<Rightarrow> string option) \<Rightarrow> (string \<Rightarrow> string option) \<Rightarrow> string \<Rightarrow> core_file_verification" where
  "core_report official actual p =
     \<lparr>cv_relative_path = p,
      cv_status = (if official p = None then CF_NOT_TRACKED
                   else if actual p = None then CF_UNKNOWN
                   else if actual p = official p then CF_MATCH else CF_MISMATCH),
      cv_expected = official p, cv_actual = actual p\<rparr>"

lemma verify_path_report:
  assumes "relative_file_path p = Inr rel"
  shows "verify_path version account d p =
    Inr (core_report (\<lambda>p. map_option cs_sha256 (checksum_get version p d)) (active_hash d account) p)"
proof -
  have rel: "rel_value rel = p" using assms by (simp add: relative_file_path_iff)
  show ?thesis
    unfolding verify_path_def assms sum.case Let_def core_report_def active_hash_def
      baseline_get_by_account_and_path_def rel
    by (cases "checksum_get version p d";
        cases "find (\<lambda>b. fb_account_id b = account \<and> rel_value (fb_relative_path b) = p) (tb_baselines d)") auto
qed

lemma verify_paths_report:
  assumes "\<forall>p \<in> set critical. \<exists>rel. relative_file_path p = Inr rel"
  shows "map_res (verify_path version account d) critical =
    Inr (map (core_report (\<lambda>p. map_option cs_sha256 (checksum_get version p d)) (active_hash d account)) critical)"
  using assms by (induction critical) (auto simp: verify_path_report bind_res_def)

lemma cached_lookup:
  assumes "\<not> checksums_has_version version d" "cached version fetched t"
  shows "map_option cs_sha256 (checksum_get version p (d\<lparr>tb_checksums := tb_checksums d @ t, next_uuid := n\<rparr>)) =
    map_of fetched p"
  using find_cached_other [OF assms(1)] find_cached [OF assms(2)]
  by (simp add: checksum_get_def find_append)

lemma cached_has_version:
  assumes "cached version fetched t" "fetched \<noteq> []"
  shows "checksums_has_version version (d\<lparr>tb_checksums := tb_checksums d @ t, next_uuid := n\<rparr>)"
  using assms
  by (cases fetched; cases t) (auto simp: cached_def checksums_has_version_def checksums_by_version_def)

lemma verify_first_time:
  assumes "tbl_get i (tb_installations d) = Some w" "wi_wp_version w = Some version"
    and "\<not> checksums_has_version version d" "fetch version = Inr fetched"
    and "\<forall>p \<in> set critical. \<exists>rel. relative_file_path p = Inr rel"
  shows "\<exists>t n. verify_core_checksums fetch critical now i d =
      (Inr (map (core_report (map_of fetched) (active_hash d (wi_account_id w))) critical),
       d\<lparr>tb_checksums := tb_checksums d @ t, next_uuid := n\<rparr>) \<and> cached version fetched t"
proof -
  obtain t n where c: "cache_checksums now version fetched d = d\<lparr>tb_checksums := tb_checksums d @ t, next_uuid := n\<rparr>"
    "cached version fetched t" using cache_checksums_eq by blast
  have a: "active_hash (d\<lparr>tb_checksums := x, next_uuid := n\<rparr>) a = active_hash d a" for x a
    by (rule ext) (simp add: active_hash_def)
  show ?thesis
    using assms c cached_lookup [OF assms(3) c(2), of _ n]
    by (intro exI [of _ t] exI [of _ n])
      (simp add: verify_core_checksums_def ensure_checksums_cached_def verify_paths_report a)
qed

lemma verify_again:
  assumes "tbl_get i (tb_installations d) = Some w" "wi_wp_version w = Some version"
    and "checksums_has_version version d" "\<forall>p \<in> set critical. \<exists>rel. relative_file_path p = Inr rel"
  shows "verify_core_checksums fetch critical now i d =
    (Inr (map (core_report (\<lambda>p. map_option cs_sha256 (checksum_get version p d)) (active_hash d (wi_account_id w))) critical), d)"
  using assms by (simp add: verify_core_checksums_def ensure_checksums_cached_def verify_paths_report)

section \<open>Properties\<close>

text \<open>The first verification of a WordPress version fetches its official checksums, stores them
  and nothing else, and reports for every critical path the official checksum, the hash of the active
  baseline and how they compare. Every later verification of that version gives the same report from
  the stored rows, whatever WordPress.org would answer then, and writes nothing.\<close>

theorem core_checksums_cached:
  assumes "tbl_get i (tb_installations d) = Some w" "wi_wp_version w = Some version"
    and "\<not> checksums_has_version version d" "fetch version = Inr fetched" "fetched \<noteq> []"
    and "\<forall>p \<in> set critical. \<exists>rel. relative_file_path p = Inr rel"
  shows "\<exists>d'. verify_core_checksums fetch critical now i d =
      (Inr (map (core_report (map_of fetched) (active_hash d (wi_account_id w))) critical), d') \<and>
    (\<exists>t n. d' = d\<lparr>tb_checksums := tb_checksums d @ t, next_uuid := n\<rparr> \<and>
       map (\<lambda>c. (cs_wp_version c, cs_relative_path c, cs_sha256 c)) t = map (\<lambda>(p, s). (version, p, s)) fetched) \<and>
    (\<forall>fetch' now'. verify_core_checksums fetch' critical now' i d' =
      (Inr (map (core_report (map_of fetched) (active_hash d (wi_account_id w))) critical), d'))"
proof -
  obtain t n where first: "verify_core_checksums fetch critical now i d =
      (Inr (map (core_report (map_of fetched) (active_hash d (wi_account_id w))) critical),
       d\<lparr>tb_checksums := tb_checksums d @ t, next_uuid := n\<rparr>)" and t: "cached version fetched t"
    using verify_first_time [where fetch = fetch, OF assms(1-4,6)] by blast
  let ?d = "d\<lparr>tb_checksums := tb_checksums d @ t, next_uuid := n\<rparr>"
  have "active_hash ?d a = active_hash d a" for a by (rule ext) (simp add: active_hash_def)
  then have "verify_core_checksums fetch' critical now' i ?d =
      (Inr (map (core_report (map_of fetched) (active_hash d (wi_account_id w))) critical), ?d)" for fetch' now'
    using verify_again [of i ?d w version critical fetch' now'] assms cached_has_version [OF t assms(5)]
      cached_lookup [OF assms(3) t, of _ n] by simp
  with first t show ?thesis unfolding cached_def by blast
qed

text \<open>The checksums WordPress.org publishes are MD5 digests, 32 digits each.\<close>

definition documented :: "(string \<Rightarrow> (string \<times> string) list res) \<Rightarrow> bool" where
  "documented fetch \<longleftrightarrow> (\<forall>version fetched. fetch version = Inr fetched \<longrightarrow> (\<forall>ps \<in> set fetched. length (snd ps) = 32))"

text \<open>The databases that come about while the service answers as documented: the table of checksums starts empty,
  verifications run in any number and order, some of them failing, and everything else leaves the table alone.\<close>

inductive cache_history :: "db \<Rightarrow> bool" where
  Empty: "tb_checksums d = [] \<Longrightarrow> cache_history d"
| Verified: "cache_history d \<Longrightarrow> documented fetch \<Longrightarrow> verify_core_checksums fetch critical now i d = (r, d') \<Longrightarrow>
    cache_history d'"
| Otherwise: "cache_history d \<Longrightarrow> tb_checksums d' = tb_checksums d \<Longrightarrow> cache_history d'"

definition sums_published :: "db \<Rightarrow> bool" where
  "sums_published d \<longleftrightarrow> (\<forall>c \<in> set (tb_checksums d). length (cs_sha256 c) = 32)"

lemma ensure_published:
  assumes "documented fetch" "sums_published d" "ensure_checksums_cached fetch now version d = (r, d')"
  shows "sums_published d' \<and> (\<forall>a. active_hash d' a = active_hash d a)"
proof (cases "checksums_has_version version d \<or> (\<exists>e. fetch version = Inl e)")
  case True
  then show ?thesis using assms(2,3) by (auto simp: ensure_checksums_cached_def split: sum.splits if_splits)
next
  case False
  then obtain fetched where f: "fetch version = Inr fetched" "\<not> checksums_has_version version d"
    by (cases "fetch version") auto
  obtain t n where c: "cache_checksums now version fetched d = d\<lparr>tb_checksums := tb_checksums d @ t, next_uuid := n\<rparr>"
    "cached version fetched t" using cache_checksums_eq by blast
  have "(\<lambda>c. cs_sha256 c) ` set t = snd ` set fetched"
    using arg_cong [OF c(2) [unfolded cached_def], of "\<lambda>xs. (\<lambda>(v, p, s). s) ` set xs"]
    by (simp add: image_image case_prod_beta)
  moreover have "\<forall>x \<in> snd ` set fetched. length x = 32"
    using assms(1) f(1) by (simp add: documented_def)
  ultimately have "\<forall>c \<in> set t. length (cs_sha256 c) = 32" by (metis image_eqI)
  moreover have "active_hash (d\<lparr>tb_checksums := x, next_uuid := n\<rparr>) a = active_hash d a" for x a
    by (rule ext) (simp add: active_hash_def)
  moreover have "d' = d\<lparr>tb_checksums := tb_checksums d @ t, next_uuid := n\<rparr>"
    using assms(3) f c(1) by (simp add: ensure_checksums_cached_def)
  ultimately show ?thesis
    using assms(2) by (auto simp: sums_published_def)
qed

lemma verify_published:
  assumes "documented fetch" "sums_published d" "verify_core_checksums fetch critical now i d = (r, d')"
  shows "sums_published d'"
proof (cases "d' = d")
  case False
  obtain version r1 where "ensure_checksums_cached fetch now version d = (r1, d')"
    using assms(3) False by (auto simp: verify_core_checksums_def split: option.splits sum.splits prod.splits)
  from ensure_published [OF assms(1,2) this] show ?thesis by simp
qed (use assms(2) in simp)

lemma history_published: "cache_history d \<Longrightarrow> sums_published d"
proof (induction rule: cache_history.induct)
  case (Verified d fetch critical now i r d')
  from verify_published [OF Verified(2) Verified(4) Verified(3)] show ?case .
qed (simp_all add: sums_published_def)

lemma active_hash_digits:
  assumes "valid_db d" "active_hash d a p = Some s"
  shows "length s \<noteq> 32"
proof -
  have "length (sha_value h) \<noteq> 32" if "valid_sha h" for h
    using that by (auto simp: valid_sha_def sha256_hash_def sha256_pattern_def re_match_line_def Let_def split: if_splits)
  then show ?thesis
    using assms by (auto simp: active_hash_def valid_db_def valid_baseline_def list_all_iff find_Some_iff
        split: option.splits if_splits)
qed

text \<open>C28. The checksums WordPress.org publishes are MD5 digests of 32 digits, while a baseline holds a
  SHA-256 hash. As long as the service has answered as documented, no verification, neither the first of a
  version nor any later one that reads the stored sums, ever reports a file as matching: every critical path for
  which a sum is known and which has an active baseline is reported as tampered with.\<close>

theorem core_checksums_never_match:
  assumes "cache_history d" "valid_db d" "documented fetch"
    and "\<forall>p \<in> set critical. \<exists>rel. relative_file_path p = Inr rel"
    and "verify_core_checksums fetch critical now i d = (Inr vs, d')"
  shows "cache_history d' \<and>
    (\<exists>w. tbl_get i (tb_installations d) = Some w \<and>
      map cv_status vs = map (\<lambda>p. case wi_wp_version w of
          None \<Rightarrow> CF_UNKNOWN
        | Some version \<Rightarrow>
            if checksum_get version p d' = None then CF_NOT_TRACKED
            else if active_hash d (wi_account_id w) p = None then CF_UNKNOWN else CF_MISMATCH) critical)"
proof -
  obtain w where w: "tbl_get i (tb_installations d) = Some w"
    using assms(5) by (auto simp: verify_core_checksums_def split: option.splits)
  have "map cv_status vs = map (\<lambda>p. case wi_wp_version w of
          None \<Rightarrow> CF_UNKNOWN
        | Some version \<Rightarrow>
            if checksum_get version p d' = None then CF_NOT_TRACKED
            else if active_hash d (wi_account_id w) p = None then CF_UNKNOWN else CF_MISMATCH) critical"
  proof (cases "wi_wp_version w")
    case None
    then show ?thesis using assms(5) w by (auto simp: verify_core_checksums_def)
  next
    case (Some version)
    obtain r1 where e: "ensure_checksums_cached fetch now version d = (r1, d')"
      and vs: "map_res (verify_path version (wi_account_id w) d') critical = Inr vs"
      using assms(5) w Some by (auto simp: verify_core_checksums_def split: prod.splits sum.splits)
    have pub: "sums_published d'" and hash: "active_hash d' a = active_hash d a" for a
      using ensure_published [OF assms(3) history_published [OF assms(1)] e] by simp_all
    let ?sum = "\<lambda>p. map_option cs_sha256 (checksum_get version p d')"
    have digits: "length s = 32" if "?sum p = Some s" for p s
      using that pub by (auto simp: sums_published_def checksum_get_def dest: find_SomeD)
    have "cv_status (core_report ?sum (active_hash d (wi_account_id w)) p) =
        (if checksum_get version p d' = None then CF_NOT_TRACKED
         else if active_hash d (wi_account_id w) p = None then CF_UNKNOWN else CF_MISMATCH)" for p
      using digits [of p] active_hash_digits [OF assms(2), of "wi_account_id w" p]
      by (cases "checksum_get version p d'"; cases "active_hash d (wi_account_id w) p") (auto simp: core_report_def)
    then show ?thesis
      using vs Some unfolding verify_paths_report [OF assms(4)] hash by (auto simp: comp_def)
  qed
  then show ?thesis using w cache_history.Verified [OF assms(1,3,5)] by blast
qed

definition demo_core_db :: db where
  "demo_core_db = empty_db\<lparr>next_uuid := 3,
     tb_installations := [\<lparr>eid = 1, created_at = 0, updated_at = 0, wi_account_id = 0,
        wi_absolute_path = AbsoluteFilePath ''/home/u'', wi_domain = None, wi_wp_version = Some ''6.5'',
        wi_is_multisite = False, wi_last_seen_at = 0, wi_is_active = True, wi_php_version = None\<rparr>],
     tb_baselines := [new_baseline 2 0 0 \<lparr>sf_relative_path = RelativeFilePath ''index.php'',
        sf_sha256 = Sha256Hash (replicate 64 (CHR ''a'')), sf_size_bytes = 10, sf_mode = ''644''\<rparr>]\<rparr>"

definition demo_fetch :: "string \<Rightarrow> (string \<times> string) list res" where
  "demo_fetch version = Inr [(''index.php'', replicate 32 (CHR ''b'')), (''wp-load.php'', replicate 32 (CHR ''c''))]"

lemma demo_core_facts:
  "tbl_get 1 (tb_installations demo_core_db) = Some (hd (tb_installations demo_core_db))"
  "wi_wp_version (hd (tb_installations demo_core_db)) = Some ''6.5''"
  "\<not> checksums_has_version ''6.5'' demo_core_db"
  "demo_fetch v = Inr [(''index.php'', replicate 32 (CHR ''b'')), (''wp-load.php'', replicate 32 (CHR ''c''))]"
  "\<forall>p \<in> set [''index.php'', ''wp-config.php'']. \<exists>rel. relative_file_path p = Inr rel"
  by (simp_all add: demo_core_db_def empty_db_def checksums_has_version_def checksums_by_version_def demo_fetch_def
      relative_file_path_def str_startswith_def)

lemma demo_core_valid: "valid_db demo_core_db"
proof -
  have "valid_sha (Sha256Hash (replicate 64 (CHR ''a'')))" "valid_rel (RelativeFilePath ''index.php'')"
    "valid_abs (AbsoluteFilePath ''/home/u'')"
    unfolding valid_sha_def valid_rel_def valid_abs_def
    by (intro exI [of _ "replicate 64 (CHR ''a'')"], code_simp)
      (intro exI [of _ "''index.php''"], code_simp, intro exI [of _ "''/home/u''"], code_simp)
  then show ?thesis
    by (simp add: valid_db_def demo_core_db_def empty_db_def valid_baseline_def valid_installation_def new_baseline_def)
qed

theorem core_checksums_cached_witness:
  "\<exists>d'. verify_core_checksums demo_fetch [''index.php'', ''wp-config.php''] 5 1 demo_core_db =
     (Inr [\<lparr>cv_relative_path = ''index.php'', cv_status = CF_MISMATCH,
             cv_expected = Some (replicate 32 (CHR ''b'')), cv_actual = Some (replicate 64 (CHR ''a''))\<rparr>,
           \<lparr>cv_relative_path = ''wp-config.php'', cv_status = CF_NOT_TRACKED, cv_expected = None, cv_actual = None\<rparr>], d') \<and>
     length (tb_checksums d') = 2"
proof -
  have ne: "[(''index.php'', replicate 32 (CHR ''b'')), (''wp-load.php'', replicate 32 (CHR ''c''))] \<noteq> []" by simp
  show ?thesis
    using core_checksums_cached [where now = 5 and fetch = demo_fetch, OF demo_core_facts(1-4) ne demo_core_facts(5)]
    by (auto simp: core_report_def active_hash_def demo_core_db_def empty_db_def new_baseline_def
        dest: arg_cong [where f = length])
qed

theorem core_checksums_never_match_witness:
  "\<exists>vs d' vs' d''. verify_core_checksums demo_fetch [''index.php'', ''wp-config.php''] 5 1 demo_core_db = (Inr vs, d') \<and>
     verify_core_checksums demo_fetch [''index.php'', ''wp-config.php''] 6 1 d' = (Inr vs', d'') \<and>
     CF_MATCH \<notin> set (map cv_status vs) \<and> CF_MATCH \<notin> set (map cv_status vs')"
proof -
  have ne: "[(''index.php'', replicate 32 (CHR ''b'')), (''wp-load.php'', replicate 32 (CHR ''c''))] \<noteq> []" by simp
  obtain vs d' where one: "verify_core_checksums demo_fetch [''index.php'', ''wp-config.php''] 5 1 demo_core_db = (Inr vs, d')"
    and two: "verify_core_checksums demo_fetch [''index.php'', ''wp-config.php''] 6 1 d' = (Inr vs, d')"
    and rows: "\<exists>t n. d' = demo_core_db\<lparr>tb_checksums := tb_checksums demo_core_db @ t, next_uuid := n\<rparr>"
    using core_checksums_cached [where now = 5 and fetch = demo_fetch, OF demo_core_facts(1-4) ne demo_core_facts(5)]
    by blast
  have doc: "documented demo_fetch" by (auto simp: documented_def demo_fetch_def)
  have start: "cache_history demo_core_db" by (rule cache_history.Empty) (simp add: demo_core_db_def empty_db_def)
  have valid: "valid_db d'" using demo_core_valid rows by (auto simp: valid_db_def)
  note first = core_checksums_never_match [OF start demo_core_valid doc demo_core_facts(5) one]
  note second = core_checksums_never_match [OF first [THEN conjunct1] valid doc demo_core_facts(5) two]
  have "CF_MATCH \<notin> set (map cv_status vs)"
    using second by (auto split: option.splits if_splits)
  then show ?thesis using one two by blast
qed

section \<open>The stored data stays well typed\<close>

lemma acknowledge_finding_good: "keeps d (snd (acknowledge_finding now i d))"
proof (cases "good d")
  case True
  have "valid_finding (acknowledge now f) \<and> eid (acknowledge now f) < next_uuid d" if "load_finding i d = Inr f" for f
    using load_finding_good [OF True that] by (simp add: acknowledge_def touch_def valid_finding_def)
  then show ?thesis
    by (auto simp: acknowledge_finding_def Let_def intro!: keeps_save_finding load_evolves(4) split: sum.split)
qed (simp add: keeps_def)

lemma cache_checksums_good: "keeps d (cache_checksums now version fetched d)"
proof (induction fetched arbitrary: d)
  case (Cons x fetched)
  obtain p s where x: "x = (p, s)" by (cases x)
  have "keeps d (d\<lparr>next_uuid := Suc (next_uuid d), tb_checksums := tbl_add
      \<lparr>eid = next_uuid d, created_at = now, updated_at = now, cs_wp_version = version,
       cs_relative_path = p, cs_sha256 = s, cs_fetched_at = now\<rparr> (tb_checksums d)\<rparr>)"
    by (auto simp: keeps_def good_def intro: stored_add stored_mono)
  from keeps_trans [OF this Cons.IH] show ?case by (simp add: x uuid4_def)
qed simp

lemma verify_core_checksums_good: "keeps d (snd (verify_core_checksums fetch critical now i d))"
  by (auto simp: verify_core_checksums_def ensure_checksums_cached_def cache_checksums_good
      split: option.split sum.split prod.split)

end
