(* ===== verification/Http_Api.thy ===== *)
theory Http_Api
  imports Operator_Access Core_Checksums
begin

text \<open>
  The HTTP surface: the JSON API (\<open>api/v1/*.py\<close>, \<open>api/dependencies.py\<close>) and the dashboard
  (\<open>web/routes/*.py\<close>) over the use cases. A handler works on the host: the database, the access
  tables and the file system. \<open>serve\<close> puts it into the transaction of \<open>get_db_session\<close>.
  Rendering of the replies (schemas and templates) is left out; a reply is the entity it is made of.
\<close>

section \<open>Transactions of a request\<close>

record 'fs host =
  ho_db :: db
  ho_access :: access
  ho_fs :: 'fs

text \<open>A session that is closed without a commit leaves both groups of tables as they were. The
  counters stand for the identifiers already drawn, which no rollback returns.\<close>

definition rollback :: "db \<Rightarrow> db \<Rightarrow> db" where
  "rollback d d' = d\<lparr>next_uuid := next_uuid d'\<rparr>"

definition roll_back :: "'fs host \<Rightarrow> 'fs host \<Rightarrow> 'fs host" where
  "roll_back h h' = h'\<lparr>ho_db := rollback (ho_db h) (ho_db h'),
     ho_access := (ho_access h)\<lparr>ax_next := ax_next (ho_access h')\<rparr>\<rparr>"

text \<open>\<open>get_db_session\<close>: the commit is reached only when the handler returns. \<open>commit\<close> is the
  exception the commit itself ends with, if any.\<close>

definition db_session ::
    "exn option \<Rightarrow> ('fs host \<Rightarrow> 'a reply \<times> 'fs host) \<Rightarrow> 'fs host \<Rightarrow> 'a reply \<times> 'fs host" where
  "db_session commit handler h =
     (case handler h of
        (Inl e, h') \<Rightarrow> (Inl e, roll_back h h')
      | (Inr r, h') \<Rightarrow>
          (case commit of None \<Rightarrow> (Inr r, h') | Some e \<Rightarrow> (Inl (Unhandled e), roll_back h h')))"

text \<open>\<open>str(exc)\<close>; \<open>pyrepr\<close> is \<open>repr\<close> of a string.\<close>

definition exn_str :: "(string \<Rightarrow> string) \<Rightarrow> exn \<Rightarrow> string" where
  "exn_str pyrepr e =
     (case e of
        ValidationError m v \<Rightarrow> if m \<noteq> [] \<and> last m = CHR '' '' then m @ pyrepr v else m
      | InvariantViolationError m \<Rightarrow> m
      | EntityNotFoundError name i \<Rightarrow> name @ '' not found: UUID('' @ [CHR 0x27] @ uuid_str i @ [CHR 0x27] @ '')''
      | FileRemediationError m \<Rightarrow> m
      | OSError m \<Rightarrow> m
      | AssertionError \<Rightarrow> []
      | TypeError m \<Rightarrow> m
      | OtherError m \<Rightarrow> m)"

text \<open>The \<open>except\<close> clauses of the endpoints.\<close>

fun remediation_error :: "(string \<Rightarrow> string) \<Rightarrow> exn \<Rightarrow> http_error" where
  "remediation_error pyrepr (EntityNotFoundError n i) = Http 404 (exn_str pyrepr (EntityNotFoundError n i))"
| "remediation_error pyrepr (InvariantViolationError m) = Http 409 (exn_str pyrepr (InvariantViolationError m))"
| "remediation_error pyrepr e = Unhandled e"

fun not_found_error :: "(string \<Rightarrow> string) \<Rightarrow> exn \<Rightarrow> http_error" where
  "not_found_error pyrepr (EntityNotFoundError n i) = Http 404 (exn_str pyrepr (EntityNotFoundError n i))"
| "not_found_error pyrepr e = Unhandled e"

definition require_mutations_allowed :: "app_settings \<Rightarrow> unit reply" where
  "require_mutations_allowed cfg =
     (if cfg_mode cfg = ''observe''
      then Inl (Http 403 ''Sentinel is running in observe mode (SENTINEL_MODE=observe); remediation endpoints are disabled.'')
      else Inr ())"

text \<open>A use case run by a handler.\<close>

definition run_use_case ::
    "(exn \<Rightarrow> http_error) \<Rightarrow> (db \<Rightarrow> 'fs \<Rightarrow> 'a res \<times> db \<times> 'fs) \<Rightarrow> 'fs host \<Rightarrow> 'a reply \<times> 'fs host" where
  "run_use_case err uc h =
     (case uc (ho_db h) (ho_fs h) of
        (r, d, fs) \<Rightarrow> (map_sum err id r, h\<lparr>ho_db := d, ho_fs := fs\<rparr>))"

definition run_query :: "(exn \<Rightarrow> http_error) \<Rightarrow> (db \<Rightarrow> 'a res) \<Rightarrow> 'fs host \<Rightarrow> 'a reply \<times> 'fs host" where
  "run_query err q h = (map_sum err id (q (ho_db h)), h)"

definition with_api_key ::
    "(string \<Rightarrow> string) \<Rightarrow> string option \<Rightarrow> ('fs host \<Rightarrow> 'a reply \<times> 'fs host) \<Rightarrow> 'fs host \<Rightarrow> 'a reply \<times> 'fs host" where
  "with_api_key sha auth body h =
     (case require_api_key sha auth (ho_access h) of Inl e \<Rightarrow> (Inl e, h) | Inr _ \<Rightarrow> body h)"

definition when_allowed ::
    "app_settings \<Rightarrow> ('fs host \<Rightarrow> 'a reply \<times> 'fs host) \<Rightarrow> 'fs host \<Rightarrow> 'a reply \<times> 'fs host" where
  "when_allowed cfg body h =
     (case require_mutations_allowed cfg of Inl e \<Rightarrow> (Inl e, h) | Inr _ \<Rightarrow> body h)"

section \<open>The JSON API\<close>

text \<open>What every endpoint is given: the settings, the library functions and the instant.\<close>

record 'fs request_context =
  cx_settings :: app_settings
  cx_sha :: "string \<Rightarrow> string"
  cx_repr :: "string \<Rightarrow> string"
  cx_remediator :: "string \<Rightarrow> 'fs file_remediator"
  cx_fetch :: "string \<Rightarrow> (string \<times> string) list res"
  cx_now :: datetime

definition remediator_of :: "'fs request_context \<Rightarrow> 'fs file_remediator" where
  "remediator_of cx = cx_remediator cx (cfg_quarantine_root_directory (cx_settings cx))"

definition api_acknowledge_finding :: "'fs request_context \<Rightarrow> string option \<Rightarrow> uuid \<Rightarrow> 'fs host \<Rightarrow> integrity_finding reply \<times> 'fs host" where
  "api_acknowledge_finding cx auth i =
     with_api_key (cx_sha cx) auth
       (run_use_case (not_found_error (cx_repr cx))
          (\<lambda>d fs. let (r, d) = acknowledge_finding (cx_now cx) i d in (r, d, fs)))"

definition api_quarantine_finding :: "'fs request_context \<Rightarrow> string option \<Rightarrow> uuid \<Rightarrow> 'fs host \<Rightarrow> integrity_finding reply \<times> 'fs host" where
  "api_quarantine_finding cx auth i =
     with_api_key (cx_sha cx) auth (when_allowed (cx_settings cx)
       (run_use_case (remediation_error (cx_repr cx))
          (quarantine_finding (remediator_of cx) (cx_now cx) i ''manual'')))"

definition api_restore_finding :: "'fs request_context \<Rightarrow> string option \<Rightarrow> uuid \<Rightarrow> 'fs host \<Rightarrow> integrity_finding reply \<times> 'fs host" where
  "api_restore_finding cx auth i =
     with_api_key (cx_sha cx) auth (when_allowed (cx_settings cx)
       (run_use_case (remediation_error (cx_repr cx)) (restore_finding (remediator_of cx) (cx_now cx) i)))"

definition api_delete_finding :: "'fs request_context \<Rightarrow> string option \<Rightarrow> uuid \<Rightarrow> 'fs host \<Rightarrow> integrity_finding reply \<times> 'fs host" where
  "api_delete_finding cx auth i =
     with_api_key (cx_sha cx) auth (when_allowed (cx_settings cx)
       (run_use_case (remediation_error (cx_repr cx)) (delete_quarantined_finding (remediator_of cx) (cx_now cx) i)))"

definition api_installation_integrity ::
    "'fs request_context \<Rightarrow> string option \<Rightarrow> uuid \<Rightarrow> 'fs host \<Rightarrow> core_file_verification list reply \<times> 'fs host" where
  "api_installation_integrity cx auth i =
     with_api_key (cx_sha cx) auth
       (run_use_case (not_found_error (cx_repr cx))
          (\<lambda>d fs. let (r, d) = verify_core_checksums (cx_fetch cx)
                        (cfg_wordpress_critical_relative_paths (cx_settings cx)) (cx_now cx) i d
                  in (r, d, fs)))"

text \<open>The list endpoints differ in their table only.\<close>

definition list_endpoint ::
    "(db \<Rightarrow> nat \<Rightarrow> nat \<Rightarrow> 'a list) \<Rightarrow> 'fs request_context \<Rightarrow> string option \<Rightarrow> string option \<Rightarrow> nat \<Rightarrow> 'fs host \<Rightarrow>
     'a page reply \<times> 'fs host" where
  "list_endpoint query cx auth cursor limit =
     with_api_key (cx_sha cx) auth (\<lambda>h. (paginate (query (ho_db h)) cursor limit, h))"

definition api_list_accounts :: "'fs request_context \<Rightarrow> string option \<Rightarrow> string option \<Rightarrow> nat \<Rightarrow> 'fs host \<Rightarrow> cpanel_account page reply \<times> 'fs host" where
  "api_list_accounts = list_endpoint (\<lambda>d l k. tbl_list l k (tb_accounts d))"

definition api_list_installations :: "'fs request_context \<Rightarrow> string option \<Rightarrow> string option \<Rightarrow> nat \<Rightarrow> 'fs host \<Rightarrow> wordpress_installation page reply \<times> 'fs host" where
  "api_list_installations = list_endpoint (\<lambda>d l k. tbl_list l k (tb_installations d))"

definition api_list_baselines :: "'fs request_context \<Rightarrow> string option \<Rightarrow> string option \<Rightarrow> nat \<Rightarrow> 'fs host \<Rightarrow> file_baseline page reply \<times> 'fs host" where
  "api_list_baselines = list_endpoint (\<lambda>d l k. tbl_list l k (tb_baselines d))"

definition api_list_findings ::
    "bool \<Rightarrow> 'fs request_context \<Rightarrow> string option \<Rightarrow> string option \<Rightarrow> nat \<Rightarrow> 'fs host \<Rightarrow> integrity_finding page reply \<times> 'fs host" where
  "api_list_findings unacknowledged_only =
     list_endpoint (\<lambda>d l k. if unacknowledged_only then findings_unacknowledged l k d else findings_list l k d)"

definition api_list_plugins :: "'fs request_context \<Rightarrow> string option \<Rightarrow> string option \<Rightarrow> nat \<Rightarrow> 'fs host \<Rightarrow> installed_plugin page reply \<times> 'fs host" where
  "api_list_plugins = list_endpoint (\<lambda>d l k. tbl_list l k (tb_plugins d))"

definition api_list_themes :: "'fs request_context \<Rightarrow> string option \<Rightarrow> string option \<Rightarrow> nat \<Rightarrow> 'fs host \<Rightarrow> installed_theme page reply \<times> 'fs host" where
  "api_list_themes = list_endpoint (\<lambda>d l k. tbl_list l k (tb_themes d))"

definition api_list_configuration_items :: "'fs request_context \<Rightarrow> string option \<Rightarrow> string option \<Rightarrow> nat \<Rightarrow> 'fs host \<Rightarrow> configuration_item page reply \<times> 'fs host" where
  "api_list_configuration_items = list_endpoint (\<lambda>d l k. tbl_list l k (tb_config_items d))"

definition api_list_incidents :: "'fs request_context \<Rightarrow> string option \<Rightarrow> string option \<Rightarrow> nat \<Rightarrow> 'fs host \<Rightarrow> incident page reply \<times> 'fs host" where
  "api_list_incidents = list_endpoint (\<lambda>d l k. incidents_list l k d)"

definition get_incident :: "uuid \<Rightarrow> db \<Rightarrow> incident res" where
  "get_incident i d =
     (case tbl_get i (tb_incidents d) of
        None \<Rightarrow> Inl (EntityNotFoundError ''Incident'' i)
      | Some e \<Rightarrow> Inr e)"

definition incident_evidence :: "uuid \<Rightarrow> db \<Rightarrow> security_event list" where
  "incident_evidence i d =
     List.map_filter (\<lambda>t. case tl_source_event_id t of None \<Rightarrow> None | Some e \<Rightarrow> tbl_get e (tb_events d))
       (timeline_by_incident i d)"

definition api_get_incident :: "'fs request_context \<Rightarrow> string option \<Rightarrow> uuid \<Rightarrow> 'fs host \<Rightarrow> incident reply \<times> 'fs host" where
  "api_get_incident cx auth i =
     with_api_key (cx_sha cx) auth (run_query (not_found_error (cx_repr cx)) (get_incident i))"

definition api_incident_timeline :: "'fs request_context \<Rightarrow> string option \<Rightarrow> uuid \<Rightarrow> 'fs host \<Rightarrow> threat_timeline_entry list reply \<times> 'fs host" where
  "api_incident_timeline cx auth i =
     with_api_key (cx_sha cx) auth (run_query Unhandled (\<lambda>d. Inr (timeline_by_incident i d)))"

definition api_incident_evidence :: "'fs request_context \<Rightarrow> string option \<Rightarrow> uuid \<Rightarrow> 'fs host \<Rightarrow> security_event list reply \<times> 'fs host" where
  "api_incident_evidence cx auth i =
     with_api_key (cx_sha cx) auth (run_query Unhandled (\<lambda>d. Inr (incident_evidence i d)))"

definition api_remediation_actions :: "'fs request_context \<Rightarrow> string option \<Rightarrow> uuid \<Rightarrow> 'fs host \<Rightarrow> remediation_action list reply \<times> 'fs host" where
  "api_remediation_actions cx auth i =
     with_api_key (cx_sha cx) auth (run_query Unhandled (\<lambda>d. Inr (actions_by_finding i d)))"

section \<open>The dashboard\<close>

definition with_admin ::
    "'fs request_context \<Rightarrow> string option \<Rightarrow> (admin_session_model \<Rightarrow> 'fs host \<Rightarrow> 'a reply \<times> 'fs host) \<Rightarrow> 'fs host \<Rightarrow>
     'a reply \<times> 'fs host" where
  "with_admin cx cookie body h =
     (case require_admin_session (cx_sha cx) (cx_now cx) cookie (ho_access h) of
        Inl e \<Rightarrow> (Inl e, h)
      | Inr (u, s, ax) \<Rightarrow> body s (h\<lparr>ho_access := ax\<rparr>))"

definition with_csrf ::
    "string \<Rightarrow> ('fs host \<Rightarrow> 'a reply \<times> 'fs host) \<Rightarrow> admin_session_model \<Rightarrow> 'fs host \<Rightarrow> 'a reply \<times> 'fs host" where
  "with_csrf csrf body s h = (case require_csrf_token csrf s of Inl e \<Rightarrow> (Inl e, h) | Inr _ \<Rightarrow> body h)"

definition web_acknowledge_threat ::
    "'fs request_context \<Rightarrow> string option \<Rightarrow> string \<Rightarrow> uuid \<Rightarrow> 'fs host \<Rightarrow> integrity_finding reply \<times> 'fs host" where
  "web_acknowledge_threat cx cookie csrf i =
     with_admin cx cookie (with_csrf csrf
       (run_use_case (not_found_error (cx_repr cx))
          (\<lambda>d fs. let (r, d) = acknowledge_finding (cx_now cx) i d in (r, d, fs))))"

definition web_restore_file ::
    "'fs request_context \<Rightarrow> string option \<Rightarrow> string \<Rightarrow> uuid \<Rightarrow> 'fs host \<Rightarrow> integrity_finding reply \<times> 'fs host" where
  "web_restore_file cx cookie csrf i =
     with_admin cx cookie (with_csrf csrf (when_allowed (cx_settings cx)
       (run_use_case (remediation_error (cx_repr cx)) (restore_finding (remediator_of cx) (cx_now cx) i))))"

definition web_delete_file ::
    "'fs request_context \<Rightarrow> string option \<Rightarrow> string \<Rightarrow> uuid \<Rightarrow> 'fs host \<Rightarrow> integrity_finding reply \<times> 'fs host" where
  "web_delete_file cx cookie csrf i =
     with_admin cx cookie (with_csrf csrf (when_allowed (cx_settings cx)
       (run_use_case (remediation_error (cx_repr cx)) (delete_quarantined_finding (remediator_of cx) (cx_now cx) i))))"

definition web_list_quarantine :: "'fs request_context \<Rightarrow> string option \<Rightarrow> 'fs host \<Rightarrow> integrity_finding list reply \<times> 'fs host" where
  "web_list_quarantine cx cookie =
     with_admin cx cookie (\<lambda>_. run_query Unhandled (\<lambda>d. Inr (findings_by_remediation_state RS_QUARANTINED 200 d)))"

definition web_list_threats :: "bool \<Rightarrow> 'fs request_context \<Rightarrow> string option \<Rightarrow> 'fs host \<Rightarrow> integrity_finding list reply \<times> 'fs host" where
  "web_list_threats unacknowledged_only cx cookie =
     with_admin cx cookie (\<lambda>_. run_query Unhandled
       (\<lambda>d. Inr (if unacknowledged_only then findings_unacknowledged 100 0 d else findings_list 100 0 d)))"

definition web_list_incidents :: "'fs request_context \<Rightarrow> string option \<Rightarrow> 'fs host \<Rightarrow> incident list reply \<times> 'fs host" where
  "web_list_incidents cx cookie = with_admin cx cookie (\<lambda>_. run_query Unhandled (\<lambda>d. Inr (incidents_list 100 0 d)))"

definition web_get_incident ::
    "'fs request_context \<Rightarrow> string option \<Rightarrow> uuid \<Rightarrow> 'fs host \<Rightarrow>
     (incident \<times> threat_timeline_entry list \<times> security_event list) reply \<times> 'fs host" where
  "web_get_incident cx cookie i =
     with_admin cx cookie (\<lambda>_. run_query (not_found_error (cx_repr cx))
       (\<lambda>d. map_sum id (\<lambda>e. (e, timeline_by_incident i d, incident_evidence i d)) (get_incident i d)))"
section \<open>Requests\<close>

datatype request =
    ApiAcknowledge "string option" uuid
  | ApiQuarantine "string option" uuid
  | ApiRestore "string option" uuid
  | ApiDelete "string option" uuid
  | ApiVerify "string option" uuid
  | WebAcknowledge "string option" string uuid
  | WebRestore "string option" string uuid
  | WebDelete "string option" string uuid
  | Login string string string string
  | Logout "string option" string
  | WhmBridge string string whm_request

definition on_access :: "(access \<Rightarrow> 'a reply \<times> access) \<Rightarrow> 'fs host \<Rightarrow> 'a reply \<times> 'fs host" where
  "on_access f h = (case f (ho_access h) of (r, ax) \<Rightarrow> (r, h\<lparr>ho_access := ax\<rparr>))"

definition void :: "'a reply \<times> 'fs host \<Rightarrow> unit reply \<times> 'fs host" where
  "void r = (map_sum id (\<lambda>_. ()) (fst r), snd r)"

fun handle ::
    "(string \<Rightarrow> string \<Rightarrow> bool option) \<Rightarrow> (string \<Rightarrow> string \<Rightarrow> string) \<Rightarrow> 'fs request_context \<Rightarrow> request \<Rightarrow> 'fs host \<Rightarrow>
     unit reply \<times> 'fs host" where
  "handle checkpw mac cx (ApiAcknowledge auth i) h = void (api_acknowledge_finding cx auth i h)"
| "handle checkpw mac cx (ApiQuarantine auth i) h = void (api_quarantine_finding cx auth i h)"
| "handle checkpw mac cx (ApiRestore auth i) h = void (api_restore_finding cx auth i h)"
| "handle checkpw mac cx (ApiDelete auth i) h = void (api_delete_finding cx auth i h)"
| "handle checkpw mac cx (ApiVerify auth i) h = void (api_installation_integrity cx auth i h)"
| "handle checkpw mac cx (WebAcknowledge cookie csrf i) h = void (web_acknowledge_threat cx cookie csrf i h)"
| "handle checkpw mac cx (WebRestore cookie csrf i) h = void (web_restore_file cx cookie csrf i h)"
| "handle checkpw mac cx (WebDelete cookie csrf i) h = void (web_delete_file cx cookie csrf i h)"
| "handle checkpw mac cx (Login raw csrf username password) h =
     void (on_access (login_submit (cx_sha cx) checkpw (cx_settings cx) (cx_now cx) raw csrf username password) h)"
| "handle checkpw mac cx (Logout cookie csrf) h = void (on_access (logout (cx_sha cx) (cx_now cx) cookie csrf) h)"
| "handle checkpw mac cx (WhmBridge raw csrf r) h =
     void (on_access (create_whm_bridged_session (cx_sha cx) mac (cx_settings cx) (cx_now cx) raw csrf r) h)"

definition serve ::
    "(string \<Rightarrow> string \<Rightarrow> bool option) \<Rightarrow> (string \<Rightarrow> string \<Rightarrow> string) \<Rightarrow> 'fs request_context \<Rightarrow> exn option \<Rightarrow> request \<Rightarrow> 'fs host \<Rightarrow>
     unit reply \<times> 'fs host" where
  "serve checkpw mac cx commit r = db_session commit (handle checkpw mac cx r)"

lemmas endpoint_defs = api_acknowledge_finding_def api_quarantine_finding_def api_restore_finding_def
  api_delete_finding_def api_installation_integrity_def web_acknowledge_threat_def web_restore_file_def
  web_delete_file_def

lemma rollback_same [simp]: "rollback d d = d"
  by (simp add: rollback_def)

lemma roll_back_same [simp]: "roll_back h h = h"
  by (simp add: roll_back_def)

lemma serve_reply:
  "serve checkpw mac cx commit r h =
     (case handle checkpw mac cx r h of
        (Inl e, h') \<Rightarrow> (Inl e, roll_back h h')
      | (Inr x, h') \<Rightarrow> (case commit of None \<Rightarrow> (Inr x, h') | Some e \<Rightarrow> (Inl (Unhandled e), roll_back h h')))"
  by (simp add: serve_def db_session_def)

text \<open>The rows and states a request may change without permission to touch files.\<close>

definition finding_states :: "db \<Rightarrow> (uuid \<times> remediation_state) list" where
  "finding_states d = map (\<lambda>f. (eid f, fi_remediation_state f)) (tb_findings d)"

lemma acknowledge_states:
  assumes "distinct (tbl_ids (tb_findings d))"
  shows "finding_states (snd (acknowledge_finding now i d)) = finding_states d"
proof -
  have "finding_states (save_finding (acknowledge now f) d) = finding_states d" if "tbl_get i (tb_findings d) = Some f" for f
  proof -
    have f: "f \<in> set (tb_findings d)" "eid f = i" using tbl_get_Some [OF that] by auto
    have "x = f" if "x \<in> set (tb_findings d)" "eid x = eid f" for x
      using assms f that by (auto simp: tbl_ids_def distinct_map inj_on_def)
    moreover have "tbl_save (acknowledge now f) (tb_findings d) =
        map (\<lambda>x. if eid x = eid f then acknowledge now f else x) (tb_findings d)"
      using f assms by (subst tbl_save_map) (auto simp: in_tbl_ids)
    ultimately show ?thesis by (auto simp: finding_states_def)
  qed
  then show ?thesis
    by (auto simp: acknowledge_finding_def load_finding_def Let_def split: option.split)
qed
section \<open>Properties\<close>

lemma remediation_keeps:
  "keeps d (fst (snd (quarantine_finding rm now i w d fs)))"
  "keeps d (fst (snd (restore_finding rm now i d fs)))"
  "keeps d (fst (snd (delete_quarantined_finding rm now i d fs)))"
  by (metis prod.collapse quarantine_finding_good restore_finding_good delete_quarantined_finding_good)+

lemma handle_keeps: "keeps (ho_db h) (ho_db (snd (handle checkpw mac cx r h)))"
  by (cases r)
    (auto simp: endpoint_defs with_api_key_def with_admin_def with_csrf_def when_allowed_def run_use_case_def
      void_def on_access_def Let_def case_prod_beta acknowledge_finding_good verify_core_checksums_good
      remediation_keeps split: sum.split)

lemma rollback_keeps: "keeps d d' \<Longrightarrow> keeps d (rollback d d')"
  by (auto simp: rollback_def keeps_def good_def intro: stored_mono)

lemma serve_keeps: "keeps (ho_db h) (ho_db (snd (serve checkpw mac cx commit r h)))"
  using handle_keeps [of h checkpw mac cx r]
  by (auto simp: serve_reply roll_back_def rollback_keeps split: prod.split sum.split option.split)

lemma states_rollback [simp]: "finding_states (rollback d d') = finding_states d"
  by (simp add: finding_states_def rollback_def)

lemma handle_observe:
  assumes "cfg_mode (cx_settings cx) = ''observe''" "distinct (tbl_ids (tb_findings (ho_db h)))"
  shows "ho_fs (snd (handle checkpw mac cx r h)) = ho_fs h \<and>
    finding_states (ho_db (snd (handle checkpw mac cx r h))) = finding_states (ho_db h)"
proof -
  have ver: "tb_findings (snd (verify_core_checksums f c n i d)) = tb_findings d" for f c n i d
    using cache_checksums_eq
    by (auto simp: verify_core_checksums_def ensure_checksums_cached_def split: option.split sum.split prod.split)
      (metis db.select_convs db.surjective db.update_convs cache_checksums_eq)+
  show ?thesis
    using assms acknowledge_states [of "ho_db h"] ver
    by (cases r)
      (auto simp: endpoint_defs with_api_key_def with_admin_def with_csrf_def when_allowed_def
        require_mutations_allowed_def run_use_case_def void_def on_access_def Let_def case_prod_beta finding_states_def
        split: sum.split)
qed

text \<open>In observe mode no request, whoever sends it and however its commit ends, changes a file on
  the host or the remediation state of a finding.\<close>

theorem observe_mode_requests:
  assumes "cfg_mode (cx_settings cx) = ''observe''" "good (ho_db h)"
  shows "ho_fs (snd (serve checkpw mac cx commit r h)) = ho_fs h \<and>
    finding_states (ho_db (snd (serve checkpw mac cx commit r h))) = finding_states (ho_db h)"
proof -
  have "distinct (tbl_ids (tb_findings (ho_db h)))"
    using assms(2) tbl_wf_distinct by (auto simp: good_def stored_def)
  from handle_observe [OF assms(1) this, of checkpw mac r] show ?thesis
    by (auto simp: serve_reply roll_back_def split: prod.split sum.split option.split)
qed

text \<open>C33. When a file operation fails, the quarantine use case records the attempt as a FAILED row and
  raises; but the request then ends without a commit, so neither that row nor anything else of the
  attempt is in the database afterwards, and the caller gets an exception instead of an HTTP error.\<close>

theorem failed_attempt_not_recorded:
  assumes "quarantine_finding (remediator_of cx) (cx_now cx) i ''manual'' (ho_db h) (ho_fs h) =
      (Inl (FileRemediationError m), d', fs')"
    and "cfg_mode (cx_settings cx) \<noteq> ''observe''" "require_api_key (cx_sha cx) auth (ho_access h) = Inr k"
  shows "(\<exists>row. tb_actions d' = tb_actions (ho_db h) @ [row] \<and> ra_outcome row = FAILED \<and> ra_finding_id row = i) \<and>
    serve checkpw mac cx commit (ApiQuarantine auth i) h =
      (Inl (Unhandled (FileRemediationError m)), h\<lparr>ho_db := rollback (ho_db h) d', ho_fs := fs'\<rparr>) \<and>
    tb_actions (rollback (ho_db h) d') = tb_actions (ho_db h)"
proof -
  have row: "\<exists>row. tb_actions d' = tb_actions (ho_db h) @ [row] \<and> ra_outcome row = FAILED \<and> ra_finding_id row = i"
    using quarantine_failure_core [OF assms(1)]
    by (auto simp: action_row_def ensure_can_quarantine_def split: option.splits if_splits dest!: tbl_get_Some)
  have "handle checkpw mac cx (ApiQuarantine auth i) h =
      (Inl (Unhandled (FileRemediationError m)), h\<lparr>ho_db := d', ho_fs := fs'\<rparr>)"
    using assms
    by (simp add: api_quarantine_finding_def with_api_key_def when_allowed_def require_mutations_allowed_def
        run_use_case_def void_def)
  then show ?thesis
    using row by (simp add: serve_reply roll_back_def rollback_def)
qed

definition demo_context :: "app_settings \<Rightarrow> unit file_remediator \<Rightarrow> unit request_context" where
  "demo_context cfg rm = \<lparr>cx_settings = cfg, cx_sha = id, cx_repr = id, cx_remediator = (\<lambda>_. rm),
     cx_fetch = (\<lambda>_. Inr []), cx_now = 20\<rparr>"

definition demo_host :: "unit host" where
  "demo_host = \<lparr>ho_db = demo_rem_db, ho_access = create_api_key id 0 ''cli'' ''k1'' demo_access, ho_fs = ()\<rparr>"

lemma demo_key: "require_api_key id (Some ''Bearer k1'') (ho_access demo_host) =
    Inr (hd (ax_keys (ho_access demo_host)))"
proof -
  have "str_strip ''k1'' = ''k1''" "str_startswith ''Bearer k1'' ''Bearer ''" by code_simp+
  then show ?thesis
    by (simp add: require_api_key_def demo_host_def create_api_key_def demo_access_def unique_row_def
        scalar_one_or_none_def Let_def)
qed

theorem observe_mode_requests_witness:
  "finding_states (ho_db (snd (serve (\<lambda>_ _. None) (\<lambda>_ _. []) (demo_context default_settings demo_remediator) None
     (ApiQuarantine (Some ''Bearer k1'') 6) (demo_host\<lparr>ho_db := empty_db\<rparr>)))) = []"
proof -
  have m: "cfg_mode (cx_settings (demo_context default_settings demo_remediator)) = ''observe''"
    by (simp add: demo_context_def default_settings_def)
  have g: "good (ho_db (demo_host\<lparr>ho_db := empty_db\<rparr>))"
    by (simp add: good_def stored_def empty_db_def tbl_wf_def)
  show ?thesis
    using observe_mode_requests [OF m g] by (simp add: finding_states_def empty_db_def)
qed

theorem failed_attempt_not_recorded_witness:
  "\<exists>h'. serve (\<lambda>_ _. None) (\<lambda>_ _. []) (demo_context (default_settings\<lparr>cfg_mode := ''manual''\<rparr>) broken_remediator) None
     (ApiQuarantine (Some ''Bearer k1'') 6) demo_host = (Inl (Unhandled (FileRemediationError ''gone'')), h') \<and>
     tb_actions (ho_db h') = []"
proof -
  let ?cx = "demo_context (default_settings\<lparr>cfg_mode := ''manual''\<rparr>) broken_remediator"
  have q: "quarantine_finding (remediator_of ?cx) (cx_now ?cx) 6 ''manual'' (ho_db demo_host) (ho_fs demo_host) =
     (Inl (FileRemediationError ''gone''),
      record_remediation_action 20 demo_finding QUARANTINE FAILED (Some ''manual: gone'') demo_rem_db, ())"
    using quarantine_allowed [of 6 demo_rem_db demo_finding demo_account broken_remediator "()"
        "Inl (FileRemediationError ''gone'')" "()"] demo_rem_ok(4,5)
    by (simp add: broken_remediator_def demo_context_def demo_host_def remediator_of_def)
  have m: "cfg_mode (cx_settings ?cx) \<noteq> ''observe''" by (simp add: demo_context_def)
  have p: "require_api_key (cx_sha ?cx) (Some ''Bearer k1'') (ho_access demo_host) = Inr (hd (ax_keys (ho_access demo_host)))"
    using demo_key by (simp add: demo_context_def)
  show ?thesis
    using failed_attempt_not_recorded [OF q m p]
    by (auto simp: demo_host_def demo_rem_db_def empty_db_def rollback_def)
qed

end
