(* ===== verification/Worker.thy ===== *)
theory Worker
  imports Http_Api
begin

text \<open>
  The recurring jobs (\<open>infrastructure/scheduler/job_registry.py\<close>) and the dashboard requests that
  start them (\<open>web/routes/scans.py\<close>). A job body runs in one session: its writes are committed when
  it returns and rolled back when it, or the commit, raises; the outcome goes into a heartbeat of its
  own session. What a run reads from outside (adapters, clock, settings) is the record \<open>job_run\<close>; the
  field \<open>jr_commit\<close> is the exception the commit, or a reader the body depends on, ends with, since
  both lose the writes of the run.
\<close>

section \<open>Running one job\<close>

definition record_heartbeat ::
    "datetime \<Rightarrow> string \<Rightarrow> job_heartbeat_status \<Rightarrow> rat \<Rightarrow> string option \<Rightarrow> db \<Rightarrow> db" where
  "record_heartbeat now job_id status duration_ms err d =
     (case heartbeat_find_by_job_id job_id d of
        None \<Rightarrow>
          (let (i, d) = uuid4 d
           in d\<lparr>tb_heartbeats := tbl_add
                \<lparr>eid = i, created_at = now, updated_at = now, hb_job_id = job_id, hb_status = status,
                 hb_last_run_at = now, hb_last_duration_ms = duration_ms, hb_last_error = err\<rparr> (tb_heartbeats d)\<rparr>)
      | Some h \<Rightarrow>
          d\<lparr>tb_heartbeats := tbl_save (heartbeat_record now status now duration_ms err h) (tb_heartbeats d)\<rparr>)"

text \<open>What a run is given from outside: the settings, the adapters' answers at that time, the library
  functions, the instants of the body and of the heartbeat, the duration, and how the commit ends.\<close>

record 'fs job_run =
  jr_settings :: app_settings
  jr_now :: datetime
  jr_end :: datetime
  jr_duration_ms :: rat
  jr_commit :: "exn option"
  jr_repr :: "string \<Rightarrow> string"
  jr_pystr :: "json \<Rightarrow> string"
  jr_mime :: "string \<Rightarrow> string option"
  jr_host :: host_info
  jr_accounts :: "discovered_account list"
  jr_detect :: "cpanel_account \<Rightarrow> discovered_installation list"
  jr_files :: "cpanel_account \<Rightarrow> scanned_file list"
  jr_plugins :: "wordpress_installation \<Rightarrow> discovered_plugin list"
  jr_themes :: "wordpress_installation \<Rightarrow> discovered_theme list"
  jr_config :: "wordpress_installation \<Rightarrow> discovered_config_item list"
  jr_temp_files :: "temp_file_observation list"
  jr_crontab :: "cpanel_account \<Rightarrow> string option"
  jr_forensic :: "wordpress_installation \<Rightarrow> wordpress_forensic_finding list"
  jr_remediator :: "string \<Rightarrow> 'fs file_remediator"

type_synonym 'fs job_body = "'fs job_run \<Rightarrow> db \<Rightarrow> 'fs \<Rightarrow> unit res \<times> db \<times> 'fs"

definition run_tracked :: "string \<Rightarrow> 'fs job_body \<Rightarrow> 'fs job_run \<Rightarrow> db \<Rightarrow> 'fs \<Rightarrow> db \<times> 'fs" where
  "run_tracked job_id body run d fs =
     (let (r, d1, fs1) = body run d fs;
          raised = (case r of Inl e \<Rightarrow> Some e | Inr _ \<Rightarrow> jr_commit run);
          (status, err, d2) =
            (case raised of
               None \<Rightarrow> (SUCCESS, None, d1)
             | Some e \<Rightarrow> (FAILURE, Some (exn_str (jr_repr run) e), rollback d d1))
      in (record_heartbeat (jr_end run) job_id status (jr_duration_ms run) err d2, fs1))"

section \<open>The job bodies\<close>

definition php_malware_scanner_version :: string where
  "php_malware_scanner_version = ''1.0.0''"

text \<open>A use case that neither raises nor touches files, and one that may raise.\<close>

definition total_body :: "('r \<times> db) \<Rightarrow> 'fs \<Rightarrow> unit res \<times> db \<times> 'fs" where
  "total_body r fs = (Inr (), snd r, fs)"

definition partial_body :: "('r res \<times> db) \<Rightarrow> 'fs \<Rightarrow> unit res \<times> db \<times> 'fs" where
  "partial_body r fs = (map_sum id (\<lambda>_. ()) (fst r), snd r, fs)"

definition discovery_job :: "'fs job_body" where
  "discovery_job run d fs =
     total_body (run_discovery (jr_host run) (jr_accounts run) (jr_detect run) (jr_now run) d) fs"

definition integrity_job :: "'fs job_body" where
  "integrity_job run d fs = total_body (run_integrity_scan (jr_mime run) (jr_now run) (jr_files run) d) fs"

definition inventory_job :: "'fs job_body" where
  "inventory_job run d fs = total_body (run_inventory_scan (jr_plugins run) (jr_themes run) (jr_now run) d) fs"

definition configuration_job :: "'fs job_body" where
  "configuration_job run d fs = total_body (run_configuration_scan (jr_config run) (jr_now run) d) fs"

definition temp_file_scan_job :: "'fs job_body" where
  "temp_file_scan_job run d fs =
     total_body (scan_temp_directories php_malware_scanner_version (jr_now run) (jr_temp_files run) d) fs"

definition correlation_job :: "'fs job_body" where
  "correlation_job run d fs =
     (let (_, d) = run_correlation (jr_pystr run)
            (minutes (cfg_correlation_time_window_minutes (jr_settings run))) (jr_now run) d
      in partial_body (analyze_root_cause (jr_now run) d) fs)"

definition wordpress_inventory_job :: "'fs job_body" where
  "wordpress_inventory_job run d fs =
     total_body (run_wordpress_inventory (jr_repr run)
       (cfg_wordpress_suspicious_cron_markers (jr_settings run)) (jr_crontab run) (jr_now run) d) fs"

definition wordpress_integrity_audit_job :: "'fs job_body" where
  "wordpress_integrity_audit_job run d fs =
     partial_body (analyze_wordpress_integrity (cfg_wordpress_critical_relative_paths (jr_settings run))
       (cfg_wordpress_integrity_audit_interval_minutes (jr_settings run)) (jr_now run) d) fs"

definition wordpress_forensic_scan_job :: "'fs job_body" where
  "wordpress_forensic_scan_job run d fs =
     partial_body (run_wordpress_forensic_scan php_malware_scanner_version (jr_now run) (jr_forensic run) d) fs"

definition auto_quarantine_job :: "'fs job_body" where
  "auto_quarantine_job run d fs =
     (let cfg = jr_settings run;
          (r, d, fs) = auto_quarantine (jr_remediator run (cfg_quarantine_root_directory cfg)) (cfg_mode cfg)
            (cfg_auto_quarantine_max_per_account_per_run cfg) (cfg_auto_quarantine_interval_minutes cfg)
            (jr_now run) d fs
      in (map_sum id (\<lambda>_. ()) r, d, fs))"

text \<open>\<open>ALL_JOBS\<close>, \<open>DETECTION_SCAN_JOB_IDS\<close> and what \<open>register_jobs\<close> hands to the scheduler.\<close>

definition all_jobs :: "(string \<times> 'fs job_body \<times> (app_settings \<Rightarrow> int)) list" where
  "all_jobs =
     [(''discovery'', discovery_job, cfg_discovery_scan_interval_minutes),
      (''integrity'', integrity_job, cfg_integrity_scan_interval_minutes),
      (''inventory'', inventory_job, cfg_inventory_scan_interval_minutes),
      (''configuration'', configuration_job, cfg_monitoring_scan_interval_minutes),
      (''temp_file_scan'', temp_file_scan_job, cfg_forensics_scan_interval_minutes),
      (''correlation'', correlation_job, cfg_correlation_interval_minutes),
      (''wordpress_inventory'', wordpress_inventory_job, cfg_wordpress_inventory_scan_interval_minutes),
      (''wordpress_integrity_audit'', wordpress_integrity_audit_job, cfg_wordpress_integrity_audit_interval_minutes),
      (''wordpress_forensic_scan'', wordpress_forensic_scan_job, cfg_wordpress_forensic_scan_interval_minutes),
      (''auto_quarantine'', auto_quarantine_job, cfg_auto_quarantine_interval_minutes)]"

definition detection_scan_job_ids :: "string list" where
  "detection_scan_job_ids =
     [''discovery'', ''integrity'', ''inventory'', ''configuration'', ''temp_file_scan'', ''wordpress_inventory'',
      ''wordpress_integrity_audit'', ''wordpress_forensic_scan'']"

definition register_jobs :: "app_settings \<Rightarrow> (string \<times> int) list" where
  "register_jobs cfg = map (\<lambda>(i, _, interval). (i, interval cfg)) (all_jobs :: (string \<times> unit job_body \<times> _) list)"

text \<open>A job of the registry by its identifier, as the scheduler and the dashboard run it.\<close>

definition run_job :: "string \<Rightarrow> 'fs job_run \<Rightarrow> db \<Rightarrow> 'fs \<Rightarrow> (db \<times> 'fs) option" where
  "run_job job_id run d fs =
     (case map_of all_jobs job_id of
        None \<Rightarrow> None
      | Some (body, _) \<Rightarrow> Some (run_tracked job_id body run d fs))"

text \<open>\<open>POST /scans/run/{job_id}\<close> and \<open>POST /scans/run\<close>: which jobs the request puts into the
  background.\<close>

definition run_single_scan_now :: "string \<Rightarrow> string list reply" where
  "run_single_scan_now job_id =
     (if job_id \<notin> set detection_scan_job_ids then Inl (Http 404 ''Unknown scan job'') else Inr [job_id])"

definition run_scan_now :: "string list reply" where
  "run_scan_now = Inr detection_scan_job_ids"

lemma detection_jobs_registered:
  "set detection_scan_job_ids = set (map fst all_jobs) - {''correlation'', ''auto_quarantine''}"
  by (auto simp: detection_scan_job_ids_def all_jobs_def)
section \<open>What a run leaves behind\<close>

lemma heartbeat_none: "heartbeat_find_by_job_id j d = None \<longleftrightarrow> j \<notin> hb_job_id ` set (tb_heartbeats d)"
  by (auto simp: heartbeat_find_by_job_id_def find_None_iff)

definition heartbeat_of :: "'fs job_run \<Rightarrow> string \<Rightarrow> exn option \<Rightarrow> job_heartbeat \<Rightarrow> bool" where
  "heartbeat_of run job_id raised h \<longleftrightarrow>
     hb_job_id h = job_id \<and> hb_status h = (if raised = None then SUCCESS else FAILURE) \<and>
     hb_last_run_at h = jr_end run \<and> hb_last_duration_ms h = jr_duration_ms run \<and>
     hb_last_error h = map_option (exn_str (jr_repr run)) raised"

definition heartbeats_unique :: "db \<Rightarrow> bool" where
  "heartbeats_unique d \<longleftrightarrow> distinct (map hb_job_id (tb_heartbeats d)) \<and> distinct (tbl_ids (tb_heartbeats d))"

lemma record_heartbeat_effect:
  assumes "heartbeats_unique d"
    "list_all (\<lambda>h. eid h < next_uuid d) (tb_heartbeats d)"
  shows "\<exists>t n. record_heartbeat now job_id st ms err d = d\<lparr>tb_heartbeats := t, next_uuid := n\<rparr> \<and>
    distinct (map hb_job_id t) \<and> distinct (tbl_ids t) \<and> next_uuid d \<le> n \<and>
    filter (\<lambda>h. hb_job_id h \<noteq> job_id) t = filter (\<lambda>h. hb_job_id h \<noteq> job_id) (tb_heartbeats d) \<and>
    (\<exists>h. filter (\<lambda>h. hb_job_id h = job_id) t = [h] \<and> hb_status h = st \<and> hb_last_run_at h = now \<and>
       hb_last_duration_ms h = ms \<and> hb_last_error h = err)"
proof (cases "heartbeat_find_by_job_id job_id d")
  case None
  let ?h = "\<lparr>eid = next_uuid d, created_at = now, updated_at = now, hb_job_id = job_id, hb_status = st,
    hb_last_run_at = now, hb_last_duration_ms = ms, hb_last_error = err\<rparr>"
  have new: "job_id \<notin> hb_job_id ` set (tb_heartbeats d)" using None by (simp add: heartbeat_none)
  have "filter (\<lambda>h. hb_job_id h = job_id) (tb_heartbeats d) = []"
    using new by (auto simp: filter_empty_conv)
  moreover have "next_uuid d \<notin> eid ` set (tb_heartbeats d)"
    using assms(2) by (auto simp: list_all_iff)
  ultimately show ?thesis
    using None assms(1) new
    by (intro exI [of _ "tb_heartbeats d @ [?h]"] exI [of _ "Suc (next_uuid d)"])
      (simp add: record_heartbeat_def uuid4_def tbl_add_def heartbeats_unique_def tbl_ids_def)
next
  case (Some h)
  let ?h = "heartbeat_record now st now ms err h"
  have h: "h \<in> set (tb_heartbeats d)" "hb_job_id h = job_id"
    using Some by (auto simp: heartbeat_find_by_job_id_def dest: find_SomeD)
  have ids: "distinct (map hb_job_id (tb_heartbeats d))" "distinct (tbl_ids (tb_heartbeats d))"
    using assms(1) by (simp_all add: heartbeats_unique_def)
  obtain xs ys where t: "tb_heartbeats d = xs @ h # ys" using h(1) by (meson split_list)
  have miss: "eid h \<notin> set (tbl_ids xs)" "job_id \<notin> hb_job_id ` set xs" "job_id \<notin> hb_job_id ` set ys"
    using ids h(2) by (auto simp: t tbl_ids_def)
  have h': "eid ?h = eid h" "hb_job_id ?h = job_id" "hb_status ?h = st" "hb_last_run_at ?h = now"
    "hb_last_duration_ms ?h = ms" "hb_last_error ?h = err"
    using h(2) by (simp_all add: heartbeat_record_def touch_def)
  have save: "tbl_save ?h (xs @ h # ys) = xs @ ?h # ys"
    by (rule tbl_save_middle [OF h'(1) miss(1)])
  have others: "filter (\<lambda>h. hb_job_id h = job_id) xs = []" "filter (\<lambda>h. hb_job_id h = job_id) ys = []"
    using miss(2,3) by (auto simp: filter_empty_conv)
  show ?thesis
    using Some ids others h' h(2)
    by (intro exI [of _ "xs @ ?h # ys"] exI [of _ "next_uuid d"])
      (simp add: record_heartbeat_def t save tbl_ids_def)
qed
text \<open>The readers answer values their classes accept; the type checker and the constructors of the
  value objects see to it in the program.\<close>

definition sound_run :: "'fs job_run \<Rightarrow> bool" where
  "sound_run run \<longleftrightarrow>
     list_all sound_account (jr_accounts run) \<and> (\<forall>a. list_all sound_installation (jr_detect run a)) \<and>
     (\<forall>a. list_all sound_file (jr_files run a)) \<and> list_all sound_observation (jr_temp_files run)"

lemmas job_defs = discovery_job_def integrity_job_def inventory_job_def configuration_job_def temp_file_scan_job_def
  correlation_job_def wordpress_inventory_job_def wordpress_integrity_audit_job_def wordpress_forensic_scan_job_def

lemma job_cases:
  assumes "map_of all_jobs j = Some (body, interval)"
  obtains "body = discovery_job" | "body = integrity_job" | "body = inventory_job" | "body = configuration_job"
    | "body = temp_file_scan_job" | "body = correlation_job" | "body = wordpress_inventory_job"
    | "body = wordpress_integrity_audit_job" | "body = wordpress_forensic_scan_job"
    | "body = auto_quarantine_job" "j = ''auto_quarantine''"
  using assms by (auto simp: all_jobs_def split: if_splits)

lemma correlation_job_good: "keeps d (fst (snd (correlation_job run d fs)))"
  by (simp add: correlation_job_def partial_body_def case_prod_beta keeps_trans [OF run_correlation_good analyze_root_cause_good])

lemma auto_quarantine_job_good: "keeps d (fst (snd (auto_quarantine_job run d fs)))"
  by (auto simp: auto_quarantine_job_def Let_def split: prod.split dest: auto_quarantine_good)

lemma job_keeps:
  assumes "map_of all_jobs j = Some (body, interval)" "sound_run run"
  shows "keeps d (fst (snd (body run d fs)))"
  using assms(1)
proof (cases rule: job_cases)
  case 1
  then show ?thesis using assms(2) by (simp add: job_defs total_body_def run_discovery_good sound_run_def)
next
  case 2
  then show ?thesis using assms(2) by (simp add: job_defs total_body_def run_integrity_scan_good sound_run_def)
next
  case 3
  then show ?thesis by (simp add: job_defs total_body_def run_inventory_scan_good)
next
  case 4
  then show ?thesis by (simp add: job_defs total_body_def run_configuration_scan_good)
next
  case 5
  then show ?thesis using assms(2) by (simp add: job_defs total_body_def scan_temp_directories_good sound_run_def)
next
  case 6
  then show ?thesis by (simp add: correlation_job_good)
next
  case 7
  then show ?thesis by (simp add: job_defs total_body_def run_wordpress_inventory_good)
next
  case 8
  then show ?thesis by (simp add: job_defs partial_body_def analyze_wordpress_integrity_good)
next
  case 9
  then show ?thesis by (simp add: job_defs partial_body_def run_wordpress_forensic_scan_good)
next
  case 10
  then show ?thesis by (simp add: auto_quarantine_job_good)
qed

text \<open>Only the automatic quarantine touches files, and only in the active mode.\<close>

lemma job_files:
  assumes "map_of all_jobs j = Some (body, interval)" "j \<noteq> ''auto_quarantine'' \<or> cfg_mode (jr_settings run) \<noteq> ''active''"
  shows "snd (snd (body run d fs)) = fs"
  using assms(1)
proof (cases rule: job_cases)
  case 10
  then show ?thesis using assms(2) by (simp add: auto_quarantine_job_def auto_quarantine_def Let_def)
qed (simp_all add: job_defs total_body_def partial_body_def case_prod_beta)
lemma run_tracked_eq:
  assumes "body run d fs = (r, d1, fs1)" "raised = (case r of Inl e \<Rightarrow> Some e | Inr _ \<Rightarrow> jr_commit run)"
  shows "run_tracked j body run d fs =
    (record_heartbeat (jr_end run) j (if raised = None then SUCCESS else FAILURE) (jr_duration_ms run)
       (map_option (exn_str (jr_repr run)) raised) (if raised = None then d1 else rollback d d1), fs1)"
  using assms by (auto simp: run_tracked_def Let_def split: option.split)

lemma good_heartbeats:
  "good d \<Longrightarrow> list_all (\<lambda>h. eid h < next_uuid d) (tb_heartbeats d) \<and> distinct (tbl_ids (tb_heartbeats d))"
  by (simp add: good_def stored_def tbl_wf_def)

text \<open>The database a run's heartbeat is written to: the one the body leaves, or the one before it.\<close>

lemma run_base:
  assumes "map_of all_jobs j = Some (body, interval)" "sound_run run" "good d"
    and "body run d fs = (r, d1, fs1)"
  shows "keeps d (if raised = None then d1 else rollback d d1)"
  using job_keeps [OF assms(1,2), of d fs] assms(4) rollback_keeps [of d d1] by simp

text \<open>C5. A run of any registered job, whichever way it ends, leaves exactly one heartbeat of that job,
  which carries the status, the instant, the duration and the text of the exception of this run, and
  leaves the heartbeats of the other jobs alone. When the body or its commit raises, nothing else of
  the run is in the database, but what it did to files stays done.\<close>

theorem heartbeat_outcome:
  assumes "map_of all_jobs j = Some (body, interval)" "sound_run run" "good d"
    "distinct (map hb_job_id (tb_heartbeats d))"
    and "body run d fs = (r, d1, fs1)" "raised = (case r of Inl e \<Rightarrow> Some e | Inr _ \<Rightarrow> jr_commit run)"
  shows "\<exists>t n h. run_job j run d fs =
       Some ((if raised = None then d1 else d)\<lparr>tb_heartbeats := t, next_uuid := n\<rparr>, fs1) \<and>
     filter (\<lambda>h. hb_job_id h = j) t = [h] \<and> heartbeat_of run j raised h \<and>
     filter (\<lambda>h. hb_job_id h \<noteq> j) t = filter (\<lambda>h. hb_job_id h \<noteq> j) (tb_heartbeats d)"
proof -
  let ?base = "if raised = None then d1 else rollback d d1"
  have k: "keeps d ?base" by (rule run_base [OF assms(1-3,5)])
  have hb: "tb_heartbeats ?base = tb_heartbeats d" by (rule keepsD(3) [OF k assms(3)])
  have "heartbeats_unique ?base" "list_all (\<lambda>h. eid h < next_uuid ?base) (tb_heartbeats ?base)"
    using good_heartbeats [OF keepsD(1) [OF k assms(3)]] assms(4) hb by (simp_all add: heartbeats_unique_def)
  from record_heartbeat_effect [OF this, of "jr_end run" j "if raised = None then SUCCESS else FAILURE"
      "jr_duration_ms run" "map_option (exn_str (jr_repr run)) raised"]
  obtain t n h where e: "run_tracked j body run d fs = (?base\<lparr>tb_heartbeats := t, next_uuid := n\<rparr>, fs1)"
    "filter (\<lambda>h. hb_job_id h \<noteq> j) t = filter (\<lambda>h. hb_job_id h \<noteq> j) (tb_heartbeats d)"
    "filter (\<lambda>h. hb_job_id h = j) t = [h]" "hb_status h = (if raised = None then SUCCESS else FAILURE)"
    "hb_last_run_at h = jr_end run" "hb_last_duration_ms h = jr_duration_ms run"
    "hb_last_error h = map_option (exn_str (jr_repr run)) raised"
    unfolding run_tracked_eq [where body = body and run = run, OF assms(5,6)] hb by auto
  have "h \<in> set (filter (\<lambda>h. hb_job_id h = j) t)" using e(3) by simp
  then have "heartbeat_of run j raised h" using e(4-7) by (simp add: heartbeat_of_def)
  moreover have "run_job j run d fs =
      Some ((if raised = None then d1 else d)\<lparr>tb_heartbeats := t, next_uuid := n\<rparr>, fs1)"
    using e(1) assms(1) by (simp add: run_job_def rollback_def)
  ultimately show ?thesis using e(2,3) by blast
qed

lemma record_heartbeat_good:
  assumes "good d"
  shows "good (record_heartbeat now j st ms err d) \<and>
    next_uuid d \<le> next_uuid (record_heartbeat now j st ms err d) \<and>
    tb_actions (record_heartbeat now j st ms err d) = tb_actions d \<and>
    tb_findings (record_heartbeat now j st ms err d) = tb_findings d"
proof (cases "heartbeat_find_by_job_id j d")
  case None
  then show ?thesis using assms
    by (auto simp: record_heartbeat_def uuid4_def good_def intro: stored_add stored_mono)
next
  case (Some h)
  then have "eid h < next_uuid d"
    using good_mem(8) [OF assms] by (auto simp: heartbeat_find_by_job_id_def dest: find_SomeD)
  then show ?thesis using assms Some
    by (auto simp: record_heartbeat_def good_def heartbeat_record_def touch_def intro: stored_save)
qed

lemma job_ids_split:
  assumes "filter (\<lambda>h. hb_job_id h = j) t = [h]" "filter (\<lambda>h. hb_job_id h \<noteq> j) t = filter (\<lambda>h. hb_job_id h \<noteq> j) t0"
  shows "hb_job_id ` set t = insert j (hb_job_id ` set t0)"
proof -
  have "set t = set (filter (\<lambda>h. hb_job_id h = j) t) \<union> set (filter (\<lambda>h. hb_job_id h \<noteq> j) t)" by auto
  then have t: "set t = insert h (set (filter (\<lambda>h. hb_job_id h \<noteq> j) t0))" using assms by simp
  have "h \<in> set (filter (\<lambda>h. hb_job_id h = j) t)" using assms(1) by simp
  then have "hb_job_id h = j" by simp
  then show ?thesis unfolding t by auto
qed

lemma run_job_keeps:
  assumes "run_job j run d fs = Some (d', fs')" "sound_run run" "good d" "distinct (map hb_job_id (tb_heartbeats d))"
  shows "good d' \<and> next_uuid d \<le> next_uuid d' \<and> prefix (tb_actions d) (tb_actions d') \<and>
    findings_grown (tb_findings d) (tb_findings d') \<and> distinct (map hb_job_id (tb_heartbeats d')) \<and>
    hb_job_id ` set (tb_heartbeats d') = insert j (hb_job_id ` set (tb_heartbeats d)) \<and>
    j \<in> set (map fst (all_jobs :: (string \<times> unit job_body \<times> (app_settings \<Rightarrow> int)) list))"
proof -
  obtain body interval where job: "map_of all_jobs j = Some (body, interval)"
    and d': "run_tracked j body run d fs = (d', fs')"
    using assms(1) by (auto simp: run_job_def split: option.splits)
  obtain r d1 fs1 where run: "body run d fs = (r, d1, fs1)" by (metis prod.exhaust)
  define raised where "raised = (case r of Inl e \<Rightarrow> Some e | Inr _ \<Rightarrow> jr_commit run)"
  let ?base = "if raised = None then d1 else rollback d d1"
  let ?st = "if raised = None then SUCCESS else FAILURE" and ?err = "map_option (exn_str (jr_repr run)) raised"
  have k: "keeps d ?base" by (rule run_base [OF job assms(2,3) run])
  note kd = keepsD [OF k assms(3)]
  have eq: "d' = record_heartbeat (jr_end run) j ?st (jr_duration_ms run) ?err ?base"
    using d' run_tracked_eq [where body = body and run = run, OF run raised_def] by simp
  have hb: "heartbeats_unique ?base" "list_all (\<lambda>h. eid h < next_uuid ?base) (tb_heartbeats ?base)"
    using good_heartbeats [OF kd(1)] assms(4) kd(3) by (simp_all add: heartbeats_unique_def)
  note good = record_heartbeat_good [OF kd(1), of "jr_end run" j ?st "jr_duration_ms run" ?err, folded eq]
  have "distinct (map hb_job_id (tb_heartbeats d')) \<and>
    hb_job_id ` set (tb_heartbeats d') = insert j (hb_job_id ` set (tb_heartbeats d))"
  proof -
    obtain t n h where "d' = ?base\<lparr>tb_heartbeats := t, next_uuid := n\<rparr>" "distinct (map hb_job_id t)"
      "filter (\<lambda>h. hb_job_id h = j) t = [h]"
      "filter (\<lambda>h. hb_job_id h \<noteq> j) t = filter (\<lambda>h. hb_job_id h \<noteq> j) (tb_heartbeats d)"
      using record_heartbeat_effect [OF hb, of "jr_end run" j ?st "jr_duration_ms run" ?err, folded eq, unfolded kd(3)]
      by blast
    then show ?thesis using job_ids_split by simp
  qed
  moreover have "j \<in> set (map fst (all_jobs :: (string \<times> unit job_body \<times> (app_settings \<Rightarrow> int)) list))"
    using job by (auto simp: all_jobs_def split: if_splits)
  ultimately show ?thesis using good kd by auto
qed
definition demo_run :: "unit job_run" where
  "demo_run = \<lparr>jr_settings = default_settings, jr_now = 100, jr_end = 150, jr_duration_ms = 5,
     jr_commit = Some (OSError ''database is locked''), jr_repr = id, jr_pystr = (\<lambda>_. []), jr_mime = (\<lambda>_. None),
     jr_host = \<lparr>hi_hostname = ''h'', hi_os_info = [], hi_agent_version = []\<rparr>, jr_accounts = [],
     jr_detect = (\<lambda>_. []), jr_files = (\<lambda>_. []), jr_plugins = (\<lambda>_. []), jr_themes = (\<lambda>_. []),
     jr_config = (\<lambda>_. []), jr_temp_files = [], jr_crontab = (\<lambda>_. None), jr_forensic = (\<lambda>_. []),
     jr_remediator = (\<lambda>_. demo_remediator)\<rparr>"

definition demo_heartbeats :: db where
  "demo_heartbeats = empty_db\<lparr>next_uuid := 1, tb_heartbeats := [\<lparr>eid = 0, created_at = 7, updated_at = 7,
     hb_job_id = ''inventory'', hb_status = SUCCESS, hb_last_run_at = 7, hb_last_duration_ms = 3,
     hb_last_error = None\<rparr>]\<rparr>"

lemma demo_heartbeats_good: "good demo_heartbeats" "distinct (map hb_job_id (tb_heartbeats demo_heartbeats))"
  by (simp_all add: good_def stored_def demo_heartbeats_def empty_db_def tbl_wf_def tbl_ids_def)

lemma demo_run_sound: "sound_run demo_run"
  by (simp add: sound_run_def demo_run_def)

theorem heartbeat_outcome_witness:
  "\<exists>t n h. run_job ''inventory'' demo_run demo_heartbeats () =
       Some (demo_heartbeats\<lparr>tb_heartbeats := t, next_uuid := n\<rparr>, ()) \<and>
     filter (\<lambda>h. hb_job_id h = ''inventory'') t = [h] \<and> hb_status h = FAILURE \<and>
     hb_last_error h = Some ''database is locked''"
proof -
  have job: "map_of all_jobs ''inventory'' =
      Some (inventory_job :: unit job_body, cfg_inventory_scan_interval_minutes)"
    by (simp add: all_jobs_def)
  obtain d1 where run: "inventory_job demo_run demo_heartbeats () = (Inr (), d1, ())"
    by (simp add: job_defs total_body_def)
  from heartbeat_outcome [OF job demo_run_sound demo_heartbeats_good run refl] show ?thesis
    by (auto simp: demo_run_def heartbeat_of_def exn_str_def)
qed

end
