(* ===== verification/System.thy ===== *)
theory System
  imports Worker
begin

text \<open>
  The program as a whole. The worker process runs the jobs of the registry, the web process serves
  requests and the operator creates API keys; they share the database and the file system of the host.
  The step relation takes every such transaction as one step, with arbitrary readers, clocks and
  outcomes, and lets the customers change files between steps. What holds in every reachable state is
  proved by rule induction from \<open>run_job_keeps\<close> and \<open>serve_keeps\<close>.
\<close>

section \<open>What can happen\<close>

text \<open>A step of the program: a job run with well-typed readers, or a request, whose writes the database
  accepts (a transaction that breaks a uniqueness constraint is not committed), or the command that
  creates an API key. Each step is one transaction; its time, its readers and how its commit ends are
  arbitrary. \<open>jobs\<close> and requests of one installation share their settings.\<close>

inductive step :: "app_settings \<Rightarrow> 'fs host \<Rightarrow> 'fs host \<Rightarrow> bool" for cfg where
  Job: "run_job j run (ho_db h) (ho_fs h) = Some (d, fs) \<Longrightarrow> jr_settings run = cfg \<Longrightarrow> sound_run run \<Longrightarrow>
    db_unique d \<Longrightarrow> step cfg h (h\<lparr>ho_db := d, ho_fs := fs\<rparr>)"
| Request: "serve checkpw mac cx commit r h = (x, h') \<Longrightarrow> cx_settings cx = cfg \<Longrightarrow> db_unique (ho_db h') \<Longrightarrow>
    step cfg h h'"
| Key: "step cfg h (h\<lparr>ho_access := create_api_key sha now name raw_key (ho_access h)\<rparr>)"

definition empty_access :: access where
  "empty_access = \<lparr>ax_keys = [], ax_users = [], ax_sessions = [], ax_next = 0\<rparr>"

text \<open>The customers of the host change its files as they like between two steps.\<close>

inductive reachable :: "app_settings \<Rightarrow> 'fs host \<Rightarrow> bool" for cfg where
  Install: "reachable cfg \<lparr>ho_db = empty_db, ho_access = empty_access, ho_fs = fs\<rparr>"
| Sentinel: "reachable cfg h \<Longrightarrow> step cfg h h' \<Longrightarrow> reachable cfg h'"
| Outside: "reachable cfg h \<Longrightarrow> reachable cfg (h\<lparr>ho_fs := fs\<rparr>)"

inductive_cases stepE: "step cfg h h'"

section \<open>The invariant of the stored data\<close>

definition job_ids :: "string set" where
  "job_ids = set (map fst (all_jobs :: (string \<times> unit job_body \<times> (app_settings \<Rightarrow> int)) list))"

definition system_inv :: "db \<Rightarrow> bool" where
  "system_inv d \<longleftrightarrow> good d \<and> db_unique d \<and> hb_job_id ` set (tb_heartbeats d) \<subseteq> job_ids \<and>
     (\<forall>f \<in> set (tb_findings d). born f)"

definition history_kept :: "db \<Rightarrow> db \<Rightarrow> bool" where
  "history_kept d d' \<longleftrightarrow> next_uuid d \<le> next_uuid d' \<and> prefix (tb_actions d) (tb_actions d') \<and>
     findings_grown (tb_findings d) (tb_findings d')"

lemma findings_grown_born: "findings_grown t t' \<Longrightarrow> \<forall>f \<in> set t. born f \<Longrightarrow> f' \<in> set t' \<Longrightarrow> born f'"
  unfolding findings_grown_def evolves_def by (blast intro: born_steps)

lemma job_ids_poly:
  "j \<in> set (map fst (all_jobs :: (string \<times> 'fs job_body \<times> (app_settings \<Rightarrow> int)) list)) \<longleftrightarrow> j \<in> job_ids"
  by (simp add: job_ids_def all_jobs_def)

lemma step_inv:
  assumes "step cfg h h'" "system_inv (ho_db h)"
  shows "system_inv (ho_db h') \<and> history_kept (ho_db h) (ho_db h')"
  using assms(1)
proof cases
  case (Job j run d fs)
  have "distinct (map hb_job_id (tb_heartbeats (ho_db h)))"
    using assms(2) by (simp add: system_inv_def db_unique_def)
  from run_job_keeps [OF Job(2) Job(4) _ this] Job assms(2) findings_grown_born show ?thesis
    by (auto simp: system_inv_def history_kept_def job_ids_def)
next
  case (Request checkpw mac cx commit r x)
  have "keeps (ho_db h) (ho_db h')" using serve_keeps [of h checkpw mac cx commit r] Request(1) by simp
  from keepsD [OF this] Request(3) assms(2) findings_grown_born show ?thesis
    by (auto simp: system_inv_def history_kept_def)
next
  case Key
  then show ?thesis using assms(2) by (simp add: history_kept_def)
qed

lemma reachable_inv: "reachable cfg h \<Longrightarrow> system_inv (ho_db h)"
proof (induction rule: reachable.induct)
  case (Install fs)
  show ?case by (simp add: system_inv_def good_def stored_def tbl_wf_def empty_db_def db_unique_def)
qed (simp_all add: step_inv)

lemma born_wf: "born f \<Longrightarrow> finding_wf f"
proof -
  have "finding_steps g f \<Longrightarrow> finding_wf g \<Longrightarrow> finding_wf f" for g
    by (induction rule: finding_steps.induct) (auto dest: finding_step_wf)
  then show "born f \<Longrightarrow> finding_wf f"
    unfolding born_def using new_finding_wf by blast
qed
section \<open>Properties of every reachable state\<close>

text \<open>C1. In every reachable state the stored data is well typed: the identifiers of each table are distinct
  and were handed out by the counter, the uniqueness constraints of the tables hold (the database checks them
  when a transaction commits), every value is one its class accepts, and so each row of each of the seventeen
  tables converts back, without an exception, to the entity it was written from.\<close>

theorem stored_data_typed:
  assumes "reachable cfg h"
  shows "db_wf (ho_db h) \<and> valid_db (ho_db h) \<and> db_unique (ho_db h) \<and>
    map_res server_to_entity (rw_servers (store_db (ho_db h))) = Inr (tb_servers (ho_db h)) \<and>
    map_res account_to_entity (rw_accounts (store_db (ho_db h))) = Inr (tb_accounts (ho_db h)) \<and>
    map_res installation_to_entity (rw_installations (store_db (ho_db h))) = Inr (tb_installations (ho_db h)) \<and>
    map_res baseline_to_entity (rw_baselines (store_db (ho_db h))) = Inr (tb_baselines (ho_db h)) \<and>
    map_res finding_to_entity (rw_findings (store_db (ho_db h))) = Inr (tb_findings (ho_db h)) \<and>
    map_res action_to_entity (rw_actions (store_db (ho_db h))) = Inr (tb_actions (ho_db h)) \<and>
    map_res event_to_entity (rw_events (store_db (ho_db h))) = Inr (tb_events (ho_db h)) \<and>
    map_res incident_to_entity (rw_incidents (store_db (ho_db h))) = Inr (tb_incidents (ho_db h)) \<and>
    map_res link_to_entity (rw_links (store_db (ho_db h))) = Inr (tb_links (ho_db h)) \<and>
    map_res timeline_to_entity (rw_timeline (store_db (ho_db h))) = Inr (tb_timeline (ho_db h)) \<and>
    map_res plugin_to_entity (rw_plugins (store_db (ho_db h))) = Inr (tb_plugins (ho_db h)) \<and>
    map_res theme_to_entity (rw_themes (store_db (ho_db h))) = Inr (tb_themes (ho_db h)) \<and>
    map_res config_to_entity (rw_config_items (store_db (ho_db h))) = Inr (tb_config_items (ho_db h)) \<and>
    map_res observation_to_entity (rw_observations (store_db (ho_db h))) = Inr (tb_observations (ho_db h)) \<and>
    map_res heartbeat_to_entity (rw_heartbeats (store_db (ho_db h))) = Inr (tb_heartbeats (ho_db h)) \<and>
    map_res checksum_to_entity (rw_checksums (store_db (ho_db h))) = Inr (tb_checksums (ho_db h)) \<and>
    map_res cron_to_entity (rw_cron_jobs (store_db (ho_db h))) = Inr (tb_cron_jobs (ho_db h))"
proof -
  have "good (ho_db h)" "db_unique (ho_db h)"
    using reachable_inv [OF assms] by (simp_all add: system_inv_def)
  then have "db_wf (ho_db h)" "valid_db (ho_db h)" "db_unique (ho_db h)" by (simp_all add: good_iff)
  then show ?thesis using rows_read_back [of "ho_db h"] by blast
qed

text \<open>C2. In every reachable state a finding has its quarantine fields exactly while it is QUARANTINED,
  a finding for a deleted file is never remediated, and there is at most one heartbeat per job, for
  jobs of the registry only.\<close>

theorem reachable_consistent:
  assumes "reachable cfg h"
  shows "list_all finding_wf (tb_findings (ho_db h)) \<and>
    distinct (map hb_job_id (tb_heartbeats (ho_db h))) \<and>
    hb_job_id ` set (tb_heartbeats (ho_db h)) \<subseteq> job_ids"
  using reachable_inv [OF assms] born_wf by (auto simp: system_inv_def db_unique_def list_all_iff)

text \<open>C3. No step of the program, whichever job or request it is and however it ends, takes back an
  audit row or reuses an identifier, and every finding of the state after it was there before and
  went through steps of its life cycle, or is new.\<close>

theorem step_keeps_history:
  assumes "reachable cfg h" "step cfg h h'"
  shows "prefix (tb_actions (ho_db h)) (tb_actions (ho_db h')) \<and> next_uuid (ho_db h) \<le> next_uuid (ho_db h') \<and>
    (\<forall>f' \<in> set (tb_findings (ho_db h')). (\<exists>f \<in> set (tb_findings (ho_db h)). finding_steps f f') \<or> born f')"
  using step_inv [OF assms(2) reachable_inv [OF assms(1)]]
  by (simp add: history_kept_def findings_grown_def evolves_def)

text \<open>C4. In observe mode the program never touches a file of the host, whatever it runs or is asked.\<close>

theorem observe_mode_harmless:
  assumes "reachable cfg h" "step cfg h h'" "cfg_mode cfg = ''observe''"
  shows "ho_fs h' = ho_fs h"
  using assms(2)
proof cases
  case (Job j run d fs)
  obtain body :: "'a job_body" and interval where job: "map_of all_jobs j = Some (body, interval)"
    using Job(2) by (auto simp: run_job_def split: option.splits)
  obtain r d1 fs1 where run: "body run (ho_db h) (ho_fs h) = (r, d1, fs1)" by (metis prod.exhaust)
  have "fs1 = ho_fs h"
    using job_files [OF job, of run "ho_db h" "ho_fs h"] run Job(3) assms(3) by simp
  then show ?thesis
    using Job(1,2) job run_tracked_eq [where body = body and run = run, OF run refl, of j] by (simp add: run_job_def)
next
  case (Request checkpw mac cx commit r x)
  have "distinct (tbl_ids (tb_findings (ho_db h)))"
    using reachable_inv [OF assms(1)] tbl_wf_distinct by (auto simp: system_inv_def good_def stored_def)
  from handle_observe [OF _ this, of cx checkpw mac r] Request(1,2) assms(3) show ?thesis
    by (auto simp: serve_reply roll_back_def split: prod.splits sum.splits option.splits)
qed simp
section \<open>Findings escalated too late\<close>

lemma db_unique_baselines: "db_unique d \<Longrightarrow> baselines_unique d"
  by (simp add: db_unique_def baselines_unique_def)

lemma escalated_simps [simp]:
  "eid (escalated now f) = eid f" "fi_detected_at (escalated now f) = fi_detected_at f"
  "fi_remediation_state (escalated now f) = fi_remediation_state f" "fi_severity (escalated now f) = CRITICAL"
  by (simp_all add: escalated_def touch_def)

lemma auto_quarantine_ignores_old:
  assumes "db_wf d" "baselines_unique d" "auto_quarantine rm ''active'' cap lookback now d fs = (r, d', fs')"
    and "f \<in> set (tb_findings d)" "fi_detected_at f < now - minutes lookback"
  shows "f \<in> set (tb_findings d')"
proof -
  from auto_quarantine_step [OF assms(1-3)] obtain k where
    "auto_step now (auto_selected cap lookback now d) k d d'" by blast
  then have l: "list_all2 (quarantined_from now (auto_selected cap lookback now d)) (tb_findings d) (tb_findings d')"
    by (simp add: auto_step_def)
  obtain i where i: "i < length (tb_findings d)" "tb_findings d ! i = f"
    using assms(4) by (auto simp: in_set_conv_nth)
  have "f \<notin> auto_selected cap lookback now d"
    using auto_selected_mem [of f cap lookback now d] assms(5) by auto
  then have "tb_findings d' ! i = f"
    using list_all2_nthD [OF l i(1)] i(2) by (auto simp: quarantined_from_def)
  then show ?thesis using i(1) list_all2_lengthD [OF l] nth_mem by metis
qed

text \<open>C6. A finding the WordPress audit raises to CRITICAL after the window of the automatic quarantine
  has passed since its detection is CRITICAL and unremediated, and yet no later run of the automatic
  quarantine touches it: the window is measured from the detection, not from the escalation.\<close>

theorem late_escalation_never_quarantined:
  assumes "good d" "baselines_unique d" "f \<in> set (findings_since (t1 - lookback * 60000000) 500 d)"
    "audit_selects critical d f" "fi_detected_at f < t1 - minutes window" "t1 \<le> t2"
    and "analyze_wordpress_integrity critical lookback t1 d = (r1, d1)"
    and "auto_quarantine rm ''active'' cap window t2 d1 fs = (r2, d2, fs')"
  shows "\<exists>f' \<in> set (tb_findings d2). eid f' = eid f \<and> fi_severity f' = CRITICAL \<and>
    fi_remediation_state f' = fi_remediation_state f"
proof -
  let ?picked = "filter (audit_selects critical d) (findings_since (t1 - lookback * 60000000) 500 d)"
  let ?esc = "\<lambda>f. if f \<in> set ?picked then escalated t1 f else f"
  have f: "f \<in> set (tb_findings d)" "f \<in> set ?picked"
    using assms(3,4) findings_since_ids(1) [OF assms(1)] by auto
  from audit_exact_core [of d t1 lookback critical] assms(1)
  obtain es where "d1 = d\<lparr>tb_findings := map ?esc (tb_findings d), tb_events := tb_events d @ es,
      next_uuid := next_uuid d + length es\<rparr>"
    unfolding Let_def assms(7) good_iff by blast
  then have d1: "tb_findings d1 = map ?esc (tb_findings d)" "tb_baselines d1 = tb_baselines d" by simp_all
  have "keeps d d1" using analyze_wordpress_integrity_good [of d critical lookback t1] assms(7) by simp
  then have wf: "db_wf d1" using keepsD(1) assms(1) good_iff by blast
  have bu: "baselines_unique d1" using assms(2) d1(2) by (simp add: baselines_unique_def)
  have mem: "escalated t1 f \<in> set (tb_findings d1)" unfolding d1(1) using f by force
  have "fi_detected_at (escalated t1 f) < t2 - minutes window" using assms(5,6) by simp
  from auto_quarantine_ignores_old [OF wf bu assms(8) mem this] show ?thesis
    by (intro bexI [of _ "escalated t1 f"]) simp_all
qed

theorem late_escalation_never_quarantined_witness:
  "\<exists>r1 d1 r2 d2 fs f'. analyze_wordpress_integrity [''wp-content/db.php''] 60 2400000000 demo_job_db = (r1, d1) \<and>
     auto_quarantine demo_remediator ''active'' 5 20 2400000000 d1 () = (r2, d2, fs) \<and>
     f' \<in> set (tb_findings d2) \<and> eid f' = 3 \<and> fi_severity f' = CRITICAL \<and> fi_remediation_state f' = RS_NONE"
proof -
  let ?f = "new_finding 3 0 1 (RelativeFilePath ''wp-content/db.php'') ADDED MEDIUM None None 5"
  have v: "valid_user (LinuxUsername ''bob'')" "valid_domain (DomainName ''a.org'')"
    "valid_abs (AbsoluteFilePath ''/home/bob'')" "valid_abs (AbsoluteFilePath ''/home/bob/public_html'')"
    "valid_rel (RelativeFilePath ''wp-content/db.php'')" "valid_rel (RelativeFilePath ''notes.txt'')"
    unfolding valid_user_def valid_domain_def valid_abs_def valid_rel_def
    by (rule exI [of _ "''bob''"], code_simp) (rule exI [of _ "''a.org''"], code_simp,
      rule exI [of _ "''/home/bob''"], code_simp, rule exI [of _ "''/home/bob/public_html''"], code_simp,
      rule exI [of _ "''wp-content/db.php''"], code_simp, rule exI [of _ "''notes.txt''"], code_simp)
  have d: "good demo_job_db" "baselines_unique demo_job_db"
    using v by (auto simp: good_def stored_def demo_job_db_def empty_db_def tbl_wf_def tbl_ids_def baselines_unique_def
        demo_home_def demo_site_def new_finding_def valid_finding_def valid_account_def valid_installation_def)
  have f: "?f \<in> set (findings_since (2400000000 - 60 * 60000000) 500 demo_job_db)"
    "audit_selects [''wp-content/db.php''] demo_job_db ?f"
    "fi_detected_at ?f < 2400000000 - minutes 20"
    by (simp_all add: demo_job_db_def findings_since_def order_desc_def new_finding_def audit_selects_def
        installations_by_account_def demo_site_def minutes_def)
  obtain r1 d1 r2 d2 fs where run: "analyze_wordpress_integrity [''wp-content/db.php''] 60 2400000000 demo_job_db = (r1, d1)"
    "auto_quarantine demo_remediator ''active'' 5 20 2400000000 d1 () = (r2, d2, fs)"
    by (metis prod.exhaust)
  from late_escalation_never_quarantined [OF d f order_refl run] run show ?thesis
    by (auto simp: new_finding_def)
qed
section \<open>A reachable state\<close>

definition demo_installed :: "unit host" where
  "demo_installed = \<lparr>ho_db = empty_db, ho_access = empty_access, ho_fs = ()\<rparr>"

definition demo_first_run :: "unit host" where
  "demo_first_run = demo_installed\<lparr>ho_db := record_heartbeat 150 ''inventory'' FAILURE 5
     (Some ''database is locked'') empty_db\<rparr>"

lemma demo_first_step: "step default_settings demo_installed demo_first_run"
proof -
  have "run_job ''inventory'' demo_run (ho_db demo_installed) (ho_fs demo_installed) =
      Some (ho_db demo_first_run, ())"
    by (simp add: run_job_def all_jobs_def run_tracked_def inventory_job_def total_body_def demo_run_def
        demo_installed_def demo_first_run_def exn_str_def run_inventory_scan_def empty_db_def rollback_def Let_def
        tbl_list_def)
  from step.Job [OF this] demo_run_sound
  have "step default_settings demo_installed (demo_installed\<lparr>ho_db := ho_db demo_first_run, ho_fs := ()\<rparr>)"
    by (simp add: demo_run_def demo_first_run_def record_heartbeat_def heartbeat_find_by_job_id_def empty_db_def
        db_unique_def uuid4_def tbl_add_def)
  then show ?thesis by (simp add: demo_first_run_def demo_installed_def)
qed

lemma demo_reachable: "reachable default_settings demo_installed" "reachable default_settings demo_first_run"
proof -
  show "reachable default_settings demo_installed" unfolding demo_installed_def by (rule reachable.Install)
  from reachable.Sentinel [OF this demo_first_step] show "reachable default_settings demo_first_run" .
qed

lemma demo_first_heartbeat: "map hb_job_id (tb_heartbeats (ho_db demo_first_run)) = [''inventory'']"
  by (simp add: demo_first_run_def record_heartbeat_def heartbeat_find_by_job_id_def empty_db_def uuid4_def tbl_add_def)

theorem stored_data_typed_witness:
  "map_res heartbeat_to_entity (rw_heartbeats (store_db (ho_db demo_first_run))) = Inr (tb_heartbeats (ho_db demo_first_run)) \<and>
     map hb_last_error (tb_heartbeats (ho_db demo_first_run)) = [Some ''database is locked'']"
  using stored_data_typed [OF demo_reachable(2)]
  by (simp add: demo_first_run_def record_heartbeat_def heartbeat_find_by_job_id_def empty_db_def uuid4_def tbl_add_def)

theorem reachable_consistent_witness: "''inventory'' \<in> job_ids"
  using reachable_consistent [OF demo_reachable(2)] arg_cong [OF demo_first_heartbeat, of set] by auto

theorem step_keeps_history_witness: "next_uuid (ho_db demo_installed) \<le> next_uuid (ho_db demo_first_run)"
  using step_keeps_history [OF demo_reachable(1) demo_first_step] by blast

theorem observe_mode_harmless_witness: "ho_fs demo_first_run = ho_fs demo_installed"
  using observe_mode_harmless [OF demo_reachable(1) demo_first_step] by (simp add: default_settings_def)

end
