(* ===== verification/Spec2Isabelle.thy ===== *)
theory Spec2Isabelle
  imports Account_Reader Archive_Scan Configuration_Scanner Extension_Scanner System
begin

text \<open>
  Kloud Sentinel watches a cPanel host: it discovers the accounts and their WordPress installations, notices
  changed files, judges uploads, temporary files and plugins, correlates what it found into incidents, and moves
  files into a quarantine. This library models the Python program under \<open>src/src/sentinel\<close> from the system calls
  of a quarantine to the jobs and requests of the running processes, and proves what makes each part correct.

  \<^bold>\<open>How the parts interact.\<close> A worker process runs the jobs of a registry and a web process serves an API and a
  dashboard. Both call use cases (\<open>application/\<close>), which read the outside world through adapters
  (\<open>infrastructure/\<close>) and keep entities (\<open>domain/\<close>) in one database through repositories. Detectors hand over
  to correlation by rows of the table of security events; remediation and scan meet in the table of baselines. The
  theory \<open>System\<close> is the whole: a state of database, access tables and files, and a step relation with one step
  for each job run, request and operator command, and one for what customers do to their files.

  \<^bold>\<open>Theories and sources, bottom up.\<close>

  \<^item> \<open>Prelude\<close>: Python's strings and dictionaries, common lemmas and rule collections. \<open>Value_Objects\<close>:
    \<open>domain/shared/exceptions.py\<close>, \<open>value_objects.py\<close>. \<open>Repository_Table\<close>: \<open>domain/shared/entity.py\<close> and what every
    repository does, with the locale \<open>repository\<close>.
  \<^item> \<open>Integrity_Domain\<close>, \<open>Discovery_Domain\<close>, \<open>Events_Domain\<close>, \<open>Intelligence_Domain\<close>, \<open>Inventory_Domain\<close>: the
    entities of \<open>domain/\<close>, a record each, with their methods. \<open>Finding_Lifecycle\<close>: the life cycle of a finding as a
    step relation. \<open>Database\<close>: the tables, the counter of identifiers and the queries, on entities.
  \<^item> \<open>Json_Text\<close>, \<open>Row_Models\<close>, \<open>Row_Mapping\<close>, \<open>Row_Repositories\<close>: \<open>infrastructure/persistence\<close>. The rows as they
    are stored, the two conversions (locale \<open>row_mapping\<close>, interpreted for all seventeen tables), the SQL queries
    on rows, and the proof that they refine the queries of \<open>Database\<close>.
  \<^item> \<open>Integrity_Scan\<close>, \<open>Scan_Correctness\<close>, \<open>Remediation\<close>, \<open>Remediation_Correctness\<close>, \<open>Auto_Quarantine\<close>:
    \<open>application/integrity/use_cases.py\<close>, each use case with a reference description it is compared with.
  \<^item> \<open>Reconcile\<close>, \<open>Row_Reconcile\<close>: the reconciliation of rows with what a scanner reports, as locales (\<open>upserting\<close>,
    \<open>retiring\<close>, \<open>reconcilable\<close>), interpreted by \<open>Discovery\<close> (\<open>application/discovery\<close>), \<open>Inventory\<close>
    (\<open>application/inventory\<close>, \<open>application/monitoring\<close>) and \<open>Cron_Inventory\<close> (\<open>application/wordpress/inventory\<close> and
    \<open>cron_scanner.py\<close>).
  \<^item> \<open>Correlation\<close>, \<open>Root_Cause\<close>: \<open>application/intelligence\<close>. \<open>Detection_Jobs\<close>: the use cases for temporary files,
    the WordPress audit and the forensic scan. \<open>Core_Checksums\<close>: acknowledging findings and verifying core files.
  \<^item> \<open>Path_Resolution\<close>, \<open>File_Quarantine\<close>, \<open>File_Operations\<close>, \<open>Incident_Folder\<close>, \<open>Quarantine_Roundtrip\<close>:
    \<open>infrastructure/filesystem/_quarantine_ops.py\<close> and the remediators, on a tree of files, directories and links in
    which every system call may fail.
  \<^item> \<open>Directory_Walk\<close>, \<open>File_Scanner\<close>, \<open>Account_Reader\<close>, \<open>Regex\<close>, \<open>Malware_Rules\<close>, \<open>Forensic_Scanner\<close>,
    \<open>Temp_Scanner\<close>, \<open>Installation_Detector\<close>, \<open>Extension_Scanner\<close>, \<open>Configuration_Scanner\<close>: the readers of
    \<open>infrastructure/\<close> on the same tree; the last sections put a reader together with the use case it feeds.
    \<open>Archive_Scan\<close>: \<open>application/heuristics\<close>.
  \<^item> \<open>App_Settings\<close>, \<open>Api_Pagination\<close>, \<open>Operator_Access\<close>, \<open>Http_Api\<close>, \<open>Worker\<close>: \<open>config.py\<close>, \<open>api/\<close>, \<open>web/\<close>,
    \<open>infrastructure/scheduler/job_registry.py\<close>. \<open>Good_Database\<close>: every use case keeps the stored data well typed.

  \<^bold>\<open>State and operations.\<close> A use case is a function of the database, the instant and its readers, and returns its
  result with the new database; one that acts on files also takes and returns the file system. An exception is the
  left side of a sum, next to the state it leaves. Entities and rows are records with the fields of the classes in
  their order, under the name of the source with a prefix; a repository's identity map is the table itself.

  \<^bold>\<open>What the lemmas show.\<close> For the whole program: well-typed, uniquely keyed data in every reachable state, the
  history that no step takes back, and no file touched in observe mode. For the detectors: what a run reports and
  stores, compared with a description of the disk. For remediation: every branch, that no byte is lost whatever
  fails, that a path acted on is inside its root, and that a restore undoes a quarantine. For the surface: paging,
  sessions, keys and the bridge. Where the code does not do what it means to, the theorem states what it does.

  \<^bold>\<open>Conventions and bounds.\<close>

  \<^item> Identifiers of \<open>uuid4\<close> are drawn from a counter, so they are fresh. An instant is a number of microseconds of
    UTC; \<open>ensure_utc\<close> is the identity. A run takes one reading of the clock where the code takes several.
  \<^item> A character is a code point below 256, with the classes and cases Python gives it. JSON has no floating-point
    numbers, which no payload of the program contains; a confidence is a rational number.
  \<^item> A job or a request is one atomic transaction. The uniqueness constraints are what the database checks at a
    commit: a step of \<open>System\<close> commits only when they hold. An exception a reader raises in the middle of a job
    is covered by the exception a commit may end with: the transaction is rolled back either way.
  \<^item> The limits of the code stay (10,000 accounts, 500 findings, 200 events). Fuel bounds three loops:
    the kernel follows at most forty links, as Linux does; \<open>Path.resolve\<close> is run for as many steps; a walk below a
    directory runs as deep as the tree is, and the detector one level more than its depth limit. A repetition of a
    pattern runs at most as often as there are characters, since a round that consumes none is not repeated;
    \<open>search_finds_language\<close> shows that no match is missed.

  \<^bold>\<open>Parameters.\<close> SHA-256, HMAC and bcrypt, \<open>mimetypes\<close>, the password database, decoding bytes as text, \<open>repr\<close> and
  \<open>str\<close> of a dictionary, and the WordPress.org client are arguments. What is assumed of them is a hypothesis of the
  theorem (\<open>sha_ok\<close>: digests are 64 hexadecimal digits; \<open>documented\<close>: published sums are MD5 digests).

  \<^bold>\<open>Not modelled.\<close> Logging, start-up, timers, the HTTP client and the validation of host names at start-up; the
  rendering of templates and response schemas, and dashboard pages that only count rows; the settings library and
  the SQL engine; migrations, packaging and the WHM plugin. They carry no decision that the theorems are about.
\<close>

end
